(* ===== verification/Errors.thy ===== *)
theory Errors
  imports Prelude
begin

text \<open>
  The error values of the domain layer (\<open>src/domain/error.rs\<close>) and the part of \<open>anyhow\<close>
  that the code relies on: a message, a typed validation error, or an error wrapped in a
  context, whose chain of causes a caller can search. A call that panics is a value of its own.
\<close>

datatype validation_error =
    BlockConflictsWithLocalChain u64
  | UnexpectedBlockHeight u64 u64
  | BlockDoesNotExtendLocalTip
  | BlockBeforeFinalizerRankSlot u32 u64
  | BlockTimestampTooFarInFuture
  | BurnBundleParentMismatch
  | BurnAnchorOutsidePendingWindow
  | MineAnchorNotOnChain
  | MineAnchorLimitReached
  | MempoolConflict

fun requests_fork_recovery :: "validation_error \<Rightarrow> bool" where
  "requests_fork_recovery (BlockConflictsWithLocalChain h) = True"
| "requests_fork_recovery (UnexpectedBlockHeight expected actual) = True"
| "requests_fork_recovery BlockDoesNotExtendLocalTip = True"
| "requests_fork_recovery _ = False"

fun is_fork_relative :: "validation_error \<Rightarrow> bool" where
  "is_fork_relative (BlockConflictsWithLocalChain h) = True"
| "is_fork_relative (UnexpectedBlockHeight expected actual) = True"
| "is_fork_relative BlockDoesNotExtendLocalTip = True"
| "is_fork_relative BurnBundleParentMismatch = True"
| "is_fork_relative BurnAnchorOutsidePendingWindow = True"
| "is_fork_relative MineAnchorNotOnChain = True"
| "is_fork_relative _ = False"

fun is_temporal :: "validation_error \<Rightarrow> bool" where
  "is_temporal (BlockBeforeFinalizerRankSlot rank min_timestamp) = True"
| "is_temporal BlockTimestampTooFarInFuture = True"
| "is_temporal _ = False"

datatype error =
    Message string
  | Validation validation_error
  | Context string error
  | Panic string

type_synonym 'a result = "error + 'a"

text \<open>\<open>bail!\<close>, \<open>Context::context\<close> on options and on results.\<close>

definition bail :: "string \<Rightarrow> 'a result" where
  "bail msg = Inl (Message msg)"

definition ok_or :: "string \<Rightarrow> 'a option \<Rightarrow> 'a result" where
  "ok_or msg v = (case v of None \<Rightarrow> bail msg | Some x \<Rightarrow> Inr x)"

definition with_context :: "string \<Rightarrow> 'a result \<Rightarrow> 'a result" where
  "with_context msg r = (case r of Inl e \<Rightarrow> Inl (Context msg e) | Inr x \<Rightarrow> Inr x)"

definition reject :: "validation_error \<Rightarrow> 'a result" where
  "reject e = Inl (Validation e)"

definition panic :: "string \<Rightarrow> 'a result" where
  "panic msg = Inl (Panic msg)"

text \<open>\<open>ensure b msg\<close> is the guard \<open>if !b { bail!(msg) }\<close>.\<close>

definition ensure :: "bool \<Rightarrow> string \<Rightarrow> unit result" where
  "ensure b msg = (if b then Inr () else bail msg)"

fun error_has_validation :: "error \<Rightarrow> (validation_error \<Rightarrow> bool) \<Rightarrow> bool" where
  "error_has_validation (Message msg) p = False"
| "error_has_validation (Validation e) p = p e"
| "error_has_validation (Context msg e) p = error_has_validation e p"
| "error_has_validation (Panic msg) p = False"

lemma panic_neq_Inr [simp]: "panic msg \<noteq> Inr x" "Inr x \<noteq> panic msg"
  by (simp_all add: panic_def)

lemma bail_neq_Inr [simp]: "bail msg \<noteq> Inr x" "Inr x \<noteq> bail msg"
  by (simp_all add: bail_def)

lemma reject_neq_Inr [simp]: "reject e \<noteq> Inr x" "Inr x \<noteq> reject e"
  by (simp_all add: reject_def)

lemma bail_and_then [simp]: "and_then (bail msg) f = bail msg"
  by (simp add: bail_def)

lemma reject_and_then [simp]: "and_then (reject e) f = reject e"
  by (simp add: reject_def)

lemma is_ok_bail [simp]: "\<not> is_ok (bail msg)" "\<not> is_ok (reject e)"
  by (simp_all add: bail_def reject_def)

lemma ok_or_simps [simp]:
  "ok_or msg None = bail msg"
  "ok_or msg (Some x) = Inr x"
  by (simp_all add: ok_or_def)

lemma ok_or_eq_Inr [result_simps]: "ok_or msg v = Inr x \<longleftrightarrow> v = Some x"
  by (cases v) auto

lemma with_context_eq_Inr [result_simps]: "with_context msg r = Inr x \<longleftrightarrow> r = Inr x"
  by (cases r) (auto simp: with_context_def)

lemma if_bail_eq_Inr [result_simps]:
  "(if b then bail msg else r) = Inr x \<longleftrightarrow> \<not> b \<and> r = Inr x"
  "(if b then r else bail msg) = Inr x \<longleftrightarrow> b \<and> r = Inr x"
  "(if b then reject e else r) = Inr x \<longleftrightarrow> \<not> b \<and> r = Inr x"
  by simp_all

lemma with_context_Inr [simp]: "with_context msg (Inr x) = Inr x"
  by (simp add: with_context_def)

lemma ensure_eq_Inr [result_simps]: "ensure b msg = Inr u \<longleftrightarrow> b"
  by (simp add: ensure_def)

lemma ensure_simps [simp]: "ensure True msg = Inr ()" "ensure False msg = bail msg"
  by (simp_all add: ensure_def)

text \<open>
  Wrapping an error in a context never hides the validation error that a caller branches on.
\<close>

lemma error_has_validation_with_context:
  "with_context msg r = Inl e \<Longrightarrow>
    (\<exists>e'. r = Inl e' \<and> error_has_validation e p = error_has_validation e' p)"
  by (cases r) (auto simp: with_context_def)

lemma fork_recovery_is_fork_relative: "requests_fork_recovery e \<Longrightarrow> is_fork_relative e"
  by (cases e) auto

lemma temporal_not_fork_relative: "is_temporal e \<Longrightarrow> \<not> is_fork_relative e"
  by (cases e) auto

end
