(* ===== verification/Protocol.thy ===== *)
theory Protocol
  imports Errors
begin

text \<open>
  The frozen protocol parameters (\<open>src/domain/protocol.rs\<close>) and the outcome of a mempool
  submission. The values are those of a build without the \<open>e2e\<close> feature.
\<close>

type_synonym Amount = u64

definition MICRO_IUNA :: Amount where "MICRO_IUNA = 1000000"
definition BLOCK_REWARD :: Amount where "BLOCK_REWARD = MICRO_IUNA"
definition MINE_REWARD :: Amount where "MINE_REWARD = MICRO_IUNA"
definition MINE_FINALIZER_FEE :: Amount where "MINE_FINALIZER_FEE = MICRO_IUNA"
definition HYBRID_REWARD_ACTIVATION_HEIGHT :: u64 where "HYBRID_REWARD_ACTIVATION_HEIGHT = 3750"
definition HYBRID_LINEAGE_IDENTITY_ACTIVATION_HEIGHT :: u64 where
  "HYBRID_LINEAGE_IDENTITY_ACTIVATION_HEIGHT = 4750"
definition MAX_BLOCK_BYTES :: nat where "MAX_BLOCK_BYTES = 1000000"
definition VDF_TARGET_BLOCK_MS :: u64 where "VDF_TARGET_BLOCK_MS = 10 * 60 * 1000"
definition RECOVERY_BLOCK_DELAY_MS :: u64 where
  "RECOVERY_BLOCK_DELAY_MS = VDF_TARGET_BLOCK_MS * 6"
definition MAX_VDF_ROUNDS :: u64 where "MAX_VDF_ROUNDS = 9223372036854775807"
definition MINE_DIFFICULTY_BITS :: u32 where "MINE_DIFFICULTY_BITS = 12"
definition MINE_ACTIONS_PER_ANCHOR_LIMIT :: nat where "MINE_ACTIONS_PER_ANCHOR_LIMIT = 2"
definition BURN_COMMITTEE_SIZE :: nat where "BURN_COMMITTEE_SIZE = 5"
definition MAX_BURN_BUNDLE_BYTES :: nat where "MAX_BURN_BUNDLE_BYTES = 10000"
definition BURN_LINEAGE_MATURITY_HEIGHTS :: u64 where "BURN_LINEAGE_MATURITY_HEIGHTS = 20"
definition GRINDING_RESISTANCE_ACTIVATION_HEIGHT :: u64 where
  "GRINDING_RESISTANCE_ACTIVATION_HEIGHT = 1000"
definition TRANSACTION_SIGNING_V1_ACTIVATION_HEIGHT :: u64 where
  "TRANSACTION_SIGNING_V1_ACTIVATION_HEIGHT = 1000"
definition TRANSACTION_REPLAY_PROTECTION_ACTIVATION_HEIGHT :: u64 where
  "TRANSACTION_REPLAY_PROTECTION_ACTIVATION_HEIGHT = 1000"
definition OBJECTIVE_FINALITY_ACTIVATION_HEIGHT :: u64 where
  "OBJECTIVE_FINALITY_ACTIVATION_HEIGHT = 1000"
definition TIP_BOUND_BURN_ACTIVATION_HEIGHT :: u64 where
  "TIP_BOUND_BURN_ACTIVATION_HEIGHT = 1000"
definition MAX_PENDING_TRANSACTIONS :: nat where "MAX_PENDING_TRANSACTIONS = 10000"
definition MAX_PENDING_POOL_BYTES :: nat where "MAX_PENDING_POOL_BYTES = 8 * 1024 * 1024"
definition MAX_ORPHAN_TRANSACTIONS :: nat where "MAX_ORPHAN_TRANSACTIONS = 1024"
definition MAX_BLOCK_TRANSACTIONS :: nat where "MAX_BLOCK_TRANSACTIONS = 1000"
definition DEFAULT_TICKET_MATURITY_DELAY :: u64 where "DEFAULT_TICKET_MATURITY_DELAY = 3"
definition DEFAULT_TICKET_EXPIRY_WINDOW :: u64 where "DEFAULT_TICKET_EXPIRY_WINDOW = 3"
definition MAX_BLOCK_TIMESTAMP_FUTURE_DRIFT_MS :: u64 where
  "MAX_BLOCK_TIMESTAMP_FUTURE_DRIFT_MS = 2 * 60 * 1000"
definition BLOCK_MEDIAN_TIME_PAST_WINDOW :: nat where "BLOCK_MEDIAN_TIME_PAST_WINDOW = 11"
definition FORK_FINALITY_DEPTH :: u64 where "FORK_FINALITY_DEPTH = 6"
definition PUBLIC_KEY_BYTES :: nat where "PUBLIC_KEY_BYTES = 32"
definition HASH_BYTES :: nat where "HASH_BYTES = 32"
definition SIGNATURE_BYTES :: nat where "SIGNATURE_BYTES = 64"

datatype TransactionSubmitOutcome = Added | AlreadyKnown | ConflictsWithPending

definition outcome_added :: "TransactionSubmitOutcome \<Rightarrow> bool" where
  "outcome_added o1 = (o1 = Added)"

text \<open>Sizes of the fixed material, for automation.\<close>

lemmas size_constants = PUBLIC_KEY_BYTES_def HASH_BYTES_def SIGNATURE_BYTES_def

lemmas height_constants =
  HYBRID_REWARD_ACTIVATION_HEIGHT_def GRINDING_RESISTANCE_ACTIVATION_HEIGHT_def
  TRANSACTION_SIGNING_V1_ACTIVATION_HEIGHT_def
  TRANSACTION_REPLAY_PROTECTION_ACTIVATION_HEIGHT_def
  OBJECTIVE_FINALITY_ACTIVATION_HEIGHT_def TIP_BOUND_BURN_ACTIVATION_HEIGHT_def

lemmas amount_constants =
  MINE_REWARD_def MINE_FINALIZER_FEE_def BLOCK_REWARD_def MICRO_IUNA_def

end
