(* ===== verification/Bytes.thy ===== *)
theory Bytes
  imports Prelude
begin

text \<open>
  Byte strings and text as the source builds them: \<open>to_be_bytes\<close>, \<open>to_le_bytes\<close> and their
  inverses, the decimal \<open>Display\<close> of unsigned integers, \<open>join\<close> of string lists, and the
  lemmas that make such encodings injective.
\<close>

section \<open>Fixed width integers as bytes\<close>

fun be_bytes :: "nat \<Rightarrow> nat \<Rightarrow> bytes" where
  "be_bytes 0 n = []"
| "be_bytes (Suc k) n = be_bytes k (n div 256) @ [word_of_nat n]"

definition from_be_bytes :: "bytes \<Rightarrow> nat" where
  "from_be_bytes bs = foldl (\<lambda>acc b. acc * 256 + unat b) 0 bs"

definition u16_to_be_bytes :: "u16 \<Rightarrow> bytes" where
  "u16_to_be_bytes w = be_bytes 2 (unat w)"

definition u32_to_be_bytes :: "u32 \<Rightarrow> bytes" where
  "u32_to_be_bytes w = be_bytes 4 (unat w)"

definition u64_to_be_bytes :: "u64 \<Rightarrow> bytes" where
  "u64_to_be_bytes w = be_bytes 8 (unat w)"

definition u32_to_le_bytes :: "u32 \<Rightarrow> bytes" where
  "u32_to_le_bytes w = rev (be_bytes 4 (unat w))"

definition u32_from_be_bytes :: "bytes \<Rightarrow> u32" where
  "u32_from_be_bytes bs = word_of_nat (from_be_bytes bs)"

definition u32_from_le_bytes :: "bytes \<Rightarrow> u32" where
  "u32_from_le_bytes bs = word_of_nat (from_be_bytes (rev bs))"

lemma length_be_bytes [simp]: "length (be_bytes k n) = k"
  by (induction k arbitrary: n) auto

lemma from_be_bytes_snoc [simp]:
  "from_be_bytes (bs @ [b]) = from_be_bytes bs * 256 + unat b"
  by (simp add: from_be_bytes_def)

lemma from_be_bytes_Nil [simp]: "from_be_bytes [] = 0"
  by (simp add: from_be_bytes_def)

lemma unat_u8_of_nat [simp]: "unat (word_of_nat n :: u8) = n mod 256"
  by (simp add: unat_of_nat)

lemma from_be_bytes_be_bytes [bytes_simps]:
  "from_be_bytes (be_bytes k n) = n mod 256 ^ k"
proof (induction k arbitrary: n)
  case (Suc k)
  have "from_be_bytes (be_bytes (Suc k) n) = (n div 256 mod 256 ^ k) * 256 + n mod 256"
    by (simp add: Suc.IH)
  also have "\<dots> = n mod (256 * 256 ^ k)"
    by (simp add: mod_mult2_eq)
  finally show ?case by simp
qed simp

lemma be_bytes_from_be_bytes [bytes_simps]:
  "be_bytes (length bs) (from_be_bytes bs) = bs"
proof (induction bs rule: rev_induct)
  case (snoc b bs)
  have "(from_be_bytes bs * 256 + unat b) div 256 = from_be_bytes bs"
    using unat_less_power [of b] by simp
  moreover have "word_of_nat (from_be_bytes bs * 256 + unat b) = b"
    using unat_less_power [of b] by (simp add: word_unat_eq_iff del: of_nat_add of_nat_mult)
  ultimately show ?case
    using snoc by (simp del: of_nat_add of_nat_mult)
qed simp

lemma from_be_bytes_bound: "from_be_bytes bs < 256 ^ length bs"
proof -
  have "from_be_bytes bs = from_be_bytes bs mod 256 ^ length bs"
    by (metis be_bytes_from_be_bytes from_be_bytes_be_bytes)
  then show ?thesis
    by (metis mod_less_divisor zero_less_numeral zero_less_power)
qed

lemma be_bytes_inject:
  assumes "m < 256 ^ k" and "n < 256 ^ k"
  shows "be_bytes k m = be_bytes k n \<longleftrightarrow> m = n"
proof
  assume "be_bytes k m = be_bytes k n"
  then have "from_be_bytes (be_bytes k m) = from_be_bytes (be_bytes k n)" by simp
  then show "m = n" using assms by (simp add: from_be_bytes_be_bytes)
qed simp

lemma length_int_bytes [simp]:
  "length (u16_to_be_bytes a) = 2"
  "length (u32_to_be_bytes b) = 4"
  "length (u64_to_be_bytes c) = 8"
  "length (u32_to_le_bytes b) = 4"
  by (simp_all add: u16_to_be_bytes_def u32_to_be_bytes_def u64_to_be_bytes_def
      u32_to_le_bytes_def)

lemma u32_to_be_bytes_inject [simp]: "u32_to_be_bytes a = u32_to_be_bytes b \<longleftrightarrow> a = b"
  using unat_less_power [of a] unat_less_power [of b]
  by (simp add: u32_to_be_bytes_def be_bytes_inject word_unat_eq_iff)

lemma u64_to_be_bytes_inject [simp]: "u64_to_be_bytes a = u64_to_be_bytes b \<longleftrightarrow> a = b"
  using unat_less_power [of a] unat_less_power [of b]
  by (simp add: u64_to_be_bytes_def be_bytes_inject word_unat_eq_iff)

lemma u32_from_to_be_bytes [simp]: "u32_from_be_bytes (u32_to_be_bytes a) = a"
  using unat_less_power [of a]
  by (simp add: u32_from_be_bytes_def u32_to_be_bytes_def from_be_bytes_be_bytes)

lemma u32_from_to_le_bytes [simp]: "u32_from_le_bytes (u32_to_le_bytes a) = a"
  using unat_less_power [of a]
  by (simp add: u32_from_le_bytes_def u32_to_le_bytes_def from_be_bytes_be_bytes)

lemma u32_to_from_be_bytes: "length bs = 4 \<Longrightarrow> u32_to_be_bytes (u32_from_be_bytes bs) = bs"
  using from_be_bytes_bound [of bs] be_bytes_from_be_bytes [of bs]
  by (simp add: u32_from_be_bytes_def u32_to_be_bytes_def unat_of_nat)

lemma u32_to_from_le_bytes: "length bs = 4 \<Longrightarrow> u32_to_le_bytes (u32_from_le_bytes bs) = bs"
  using from_be_bytes_bound [of "rev bs"] be_bytes_from_be_bytes [of "rev bs"]
  by (simp add: u32_from_le_bytes_def u32_to_le_bytes_def unat_of_nat)

text \<open>Splitting a concatenation at a part whose length is known.\<close>

lemma append_eq_same_length:
  "length a = length b \<Longrightarrow> a @ x = b @ y \<longleftrightarrow> a = b \<and> x = y"
  by (rule append_eq_append_conv) simp

section \<open>Text\<close>

definition digit_char :: "nat \<Rightarrow> char" where
  "digit_char d = char_of (48 + d)"

text \<open>\<open>Display\<close> of an unsigned integer.\<close>

fun dec :: "nat \<Rightarrow> string" where
  "dec n = (if n < 10 then [digit_char n] else dec (n div 10) @ [digit_char (n mod 10)])"

declare dec.simps [simp del]

text \<open>\<open>slice.join(separator)\<close>.\<close>

fun join :: "string \<Rightarrow> string list \<Rightarrow> string" where
  "join sep [] = []"
| "join sep [s] = s"
| "join sep (s # t # ss) = s @ sep @ join sep (t # ss)"

definition is_dec_digit :: "char \<Rightarrow> bool" where
  "is_dec_digit c \<longleftrightarrow> (48::nat) \<le> of_char c \<and> of_char c \<le> (57::nat)"

definition undec :: "string \<Rightarrow> nat" where
  "undec s = foldl (\<lambda>acc c. acc * 10 + (of_char c - 48)) 0 s"

lemma of_char_digit_char: "d < 10 \<Longrightarrow> (of_char (digit_char d) :: nat) = 48 + d"
  by (simp add: digit_char_def)

lemma dec_digits: "c \<in> set (dec n) \<Longrightarrow> is_dec_digit c"
proof (induction n rule: dec.induct)
  case (1 n)
  show ?case
  proof (cases "n < 10")
    case True
    then show ?thesis
      using "1.prems" by (simp add: dec.simps [of n] is_dec_digit_def of_char_digit_char)
  next
    case False
    then show ?thesis
      using 1 by (auto simp: dec.simps [of n] is_dec_digit_def of_char_digit_char)
  qed
qed

lemma dec_not_Nil [simp]: "dec n \<noteq> []"
  by (subst dec.simps) simp

lemma undec_dec [simp]: "undec (dec n) = n"
proof (induction n rule: dec.induct)
  case (1 n)
  show ?case
  proof (cases "n < 10")
    case True
    then show ?thesis by (simp add: dec.simps [of n] undec_def of_char_digit_char)
  next
    case False
    with 1 show ?thesis
      by (simp add: dec.simps [of n] undec_def of_char_digit_char)
  qed
qed

lemma dec_inject [simp]: "dec m = dec n \<longleftrightarrow> m = n"
  by (metis undec_dec)

lemma is_dec_digit_separators [simp]:
  "\<not> is_dec_digit (CHR '':'')" "\<not> is_dec_digit (CHR ''|'')" "\<not> is_dec_digit (CHR ''-'')"
  by (simp_all add: is_dec_digit_def)

lemma colon_notin_dec [simp]: "CHR '':'' \<notin> set (dec n)"
  using dec_digits by fastforce

text \<open>A field that cannot contain the separator ends at the first separator.\<close>

lemma separated_inject:
  assumes "c \<notin> set a" and "c \<notin> set b"
  shows "a @ c # x = b @ c # y \<longleftrightarrow> a = b \<and> x = y"
  using assms
proof (induction a arbitrary: b)
  case Nil
  then show ?case by (cases b) auto
next
  case (Cons h t)
  then show ?case by (cases b) auto
qed

lemma dec_colon_inject [simp]:
  "dec m @ CHR '':'' # x = dec n @ CHR '':'' # y \<longleftrightarrow> m = n \<and> x = y"
  by (simp add: separated_inject)

lemma as_bytes_inject [simp]: "as_bytes s = as_bytes t \<longleftrightarrow> s = t"
proof -
  have "inj (\<lambda>c. word_of_nat (of_char c) :: u8)"
  proof (rule injI)
    fix c d :: char
    assume "(word_of_nat (of_char c) :: u8) = word_of_nat (of_char d)"
    then have "unat (word_of_nat (of_char c) :: u8) = unat (word_of_nat (of_char d) :: u8)"
      by simp
    then have "(of_char c :: nat) = of_char d" by simp
    then show "c = d" by simp
  qed
  then show ?thesis by (simp add: as_bytes_def inj_map_eq_map)
qed

lemma length_as_bytes [simp]: "length (as_bytes s) = length s"
  by (simp add: as_bytes_def)

lemma as_bytes_append [simp]: "as_bytes (s @ t) = as_bytes s @ as_bytes t"
  by (simp add: as_bytes_def)

end
