(* ===== verification/Crypto.thy ===== *)
theory Crypto
  imports Prelude
begin

text \<open>
  The cryptographic crates (\<open>sha2\<close>, \<open>ed25519-dalek\<close>, \<open>ml-dsa\<close>) are not part of the
  repository. They are parameters of the model, collected in one record that every definition
  using them takes as an argument. What a theorem relies on of them is a named hypothesis;
  \<open>digest_ok\<close> is the documented output length of SHA-256 and \<open>ed25519_ok\<close> says that a
  signature made with a seed verifies under the seed's public key.
\<close>

record crypto =
  sha256 :: "bytes \<Rightarrow> bytes"
  ed25519_key_ok :: "bytes \<Rightarrow> bool"
  ed25519_key_weak :: "bytes \<Rightarrow> bool"
  ed25519_key_of_seed :: "bytes \<Rightarrow> bytes"
  ed25519_sign :: "bytes \<Rightarrow> bytes \<Rightarrow> bytes"
  ed25519_verify :: "bytes \<Rightarrow> bytes \<Rightarrow> bytes \<Rightarrow> bool"
  ml_dsa44_sig_ok :: "bytes \<Rightarrow> bool"
  ml_dsa44_verify :: "bytes \<Rightarrow> bytes \<Rightarrow> bytes \<Rightarrow> bytes \<Rightarrow> bool"
  ml_dsa44_key_of_seed :: "bytes \<Rightarrow> bytes"
  ml_dsa44_sign :: "bytes \<Rightarrow> bytes \<Rightarrow> bytes option"

definition digest_ok :: "crypto \<Rightarrow> bool" where
  "digest_ok cr \<longleftrightarrow> (\<forall>x. length (sha256 cr x) = 32)"

definition ed25519_ok :: "crypto \<Rightarrow> bool" where
  "ed25519_ok cr \<longleftrightarrow> (\<forall>seed payload.
     length (ed25519_key_of_seed cr seed) = 32 \<and>
     length (ed25519_sign cr seed payload) = 64 \<and>
     ed25519_key_ok cr (ed25519_key_of_seed cr seed) \<and>
     ed25519_verify cr (ed25519_key_of_seed cr seed) payload (ed25519_sign cr seed payload))"

text \<open>
  The deterministic ML-DSA-44 signer, which returns None where the crate reports a failure: it
  succeeds, and what it signs verifies under the public key of the seed, without a context.
\<close>

definition ml_dsa44_ok :: "crypto \<Rightarrow> bool" where
  "ml_dsa44_ok cr \<longleftrightarrow> (\<forall>seed payload.
     length (ml_dsa44_key_of_seed cr seed) = 1312 \<and>
     (\<exists>sig. ml_dsa44_sign cr seed payload = Some sig \<and> length sig = 2420 \<and> ml_dsa44_sig_ok cr sig \<and>
       ml_dsa44_verify cr (ml_dsa44_key_of_seed cr seed) payload [] sig))"

text \<open>
  A concrete instance for evaluating examples: the digest is the first 32 bytes of the padded
  input, a key is its seed padded to 32 bytes, and a signature is the key followed by the
  padded payload. It satisfies both hypotheses.
\<close>

definition pad_to :: "nat \<Rightarrow> bytes \<Rightarrow> bytes" where
  "pad_to n bs = take n (bs @ replicate n 0)"

definition toy_ml_dsa44_sign :: "bytes \<Rightarrow> bytes \<Rightarrow> bytes option" where
  "toy_ml_dsa44_sign seed payload = Some (pad_to 2420 (seed @ payload))"

definition toy_crypto :: crypto where
  "toy_crypto = \<lparr>
     sha256 = pad_to 32,
     ed25519_key_ok = (\<lambda>_. True),
     ed25519_key_weak = (\<lambda>_. False),
     ed25519_key_of_seed = pad_to 32,
     ed25519_sign = (\<lambda>seed payload. pad_to 32 seed @ pad_to 32 payload),
     ed25519_verify = (\<lambda>key payload sig. sig = key @ pad_to 32 payload),
     ml_dsa44_sig_ok = (\<lambda>_. True),
     ml_dsa44_verify = (\<lambda>key payload ctx sig. True),
     ml_dsa44_key_of_seed = pad_to 1312,
     ml_dsa44_sign = toy_ml_dsa44_sign\<rparr>"

lemma length_pad_to [simp]: "length (pad_to n bs) = n"
  by (simp add: pad_to_def)

lemma toy_crypto_ok: "digest_ok toy_crypto" "ed25519_ok toy_crypto" "ml_dsa44_ok toy_crypto"
  by (simp_all add: digest_ok_def ed25519_ok_def ml_dsa44_ok_def toy_crypto_def
    toy_ml_dsa44_sign_def)

end
