(* ===== verification/Hex.thy ===== *)
theory Hex
  imports Protocol Bytes Crypto
begin

text \<open>
  Hexadecimal text (\<open>src/domain/hex.rs\<close>) and the canonical decoders of
  \<open>src/domain/validation.rs\<close>. SHA-256 is the digest of the crypto parameter.
\<close>

unbundle bit_operations_syntax

section \<open>Definitions\<close>

definition HEX :: string where
  "HEX = ''0123456789abcdef''"

definition hex_encode :: "bytes \<Rightarrow> string" where
  "hex_encode bs =
     concat (map (\<lambda>b. [HEX ! unat (drop_bit 4 b), HEX ! unat (b AND 0x0f)]) bs)"

definition hex_value :: "u8 \<Rightarrow> u8 result" where
  "hex_value b =
     (if 48 \<le> b \<and> b \<le> 57 then Inr (b - 48)
      else if 97 \<le> b \<and> b \<le> 102 then Inr (b - 97 + 10)
      else if 65 \<le> b \<and> b \<le> 70 then Inr (b - 65 + 10)
      else bail ''invalid hex character'')"

fun decode_hex_pairs :: "bytes \<Rightarrow> bytes result" where
  "decode_hex_pairs (h # l # rest) =
     and_then (hex_value h) (\<lambda>high.
     and_then (hex_value l) (\<lambda>low.
     and_then (decode_hex_pairs rest) (\<lambda>bs. Inr ((push_bit 4 high OR low) # bs))))"
| "decode_hex_pairs _ = Inr []"

definition decode_hex :: "string \<Rightarrow> bytes result" where
  "decode_hex input =
     (if odd (length input) then bail ''hex string has odd length''
      else decode_hex_pairs (as_bytes input))"

definition decode_hex_array :: "nat \<Rightarrow> string \<Rightarrow> bytes result" where
  "decode_hex_array n input =
     and_then (decode_hex input) (\<lambda>bs.
       if length bs = n then Inr bs
       else bail (''expected '' @ dec n @ '' hex bytes, got '' @ dec (length bs)))"

text \<open>\<open>hex_hash\<close> takes any \<open>AsRef<[u8]>\<close>: a byte vector or a string.\<close>

definition hex_hash_bytes :: "crypto \<Rightarrow> bytes \<Rightarrow> string" where
  "hex_hash_bytes cr input = hex_encode (sha256 cr input)"

definition hex_hash :: "crypto \<Rightarrow> string \<Rightarrow> string" where
  "hex_hash cr input = hex_hash_bytes cr (as_bytes input)"

definition decode_canonical_hex :: "string \<Rightarrow> bytes result" where
  "decode_canonical_hex v =
     and_then (decode_hex v) (\<lambda>bs.
       if hex_encode bs \<noteq> v then bail ''hex must use canonical lowercase encoding'' else Inr bs)"

definition decode_canonical_hex_array :: "nat \<Rightarrow> string \<Rightarrow> bytes result" where
  "decode_canonical_hex_array n v =
     and_then (decode_canonical_hex v) (\<lambda>bs.
       if length bs = n then Inr bs
       else bail (''expected '' @ dec n @ '' hex bytes, got '' @ dec (length bs)))"

section \<open>Round trips\<close>

lemma hex_encode_simps [simp]:
  "hex_encode [] = []"
  "hex_encode (b # bs) =
     HEX ! unat (drop_bit 4 b) # HEX ! unat (b AND 0x0f) # hex_encode bs"
  by (simp_all add: hex_encode_def)

lemma length_hex_encode [simp]: "length (hex_encode bs) = 2 * length bs"
  by (induction bs) auto

lemma nibble_cases:
  assumes "n < 16"
  shows "hex_value (word_of_nat (of_char (HEX ! n))) = Inr (word_of_nat n)"
proof -
  have "\<forall>n\<in>set [0..<16]. hex_value (word_of_nat (of_char (HEX ! n))) = Inr (word_of_nat n)"
    by code_simp
  then show ?thesis using assms by simp
qed

lemma high_nibble_bound: "unat (drop_bit 4 (b :: u8)) < 16"
  using unat_less_power [of b] by (simp add: drop_bit_eq_div unat_div_distrib)

lemma low_nibble_take_bit: "(b :: u8) AND 0x0f = take_bit 4 b"
  by (simp add: take_bit_eq_mask mask_eq_exp_minus_1)

lemma low_nibble_bound: "unat ((b :: u8) AND 0x0f) < 16"
  unfolding low_nibble_take_bit by (simp add: take_bit_eq_mod unat_mod_distrib)

lemma nibbles_join: "push_bit 4 (drop_bit 4 b) OR (b AND 0x0f) = (b :: u8)"
  unfolding low_nibble_take_bit by (rule bit_eqI) (auto simp: bit_simps)

lemma decode_hex_pairs_hex_encode: "decode_hex_pairs (as_bytes (hex_encode bs)) = Inr bs"
proof (induction bs)
  case (Cons b bs)
  then show ?case
    using nibble_cases [OF high_nibble_bound, of b] nibble_cases [OF low_nibble_bound, of b]
    by (simp add: as_bytes_def nibbles_join)
qed (simp add: as_bytes_def)

lemma decode_hex_hex_encode [simp]: "decode_hex (hex_encode bs) = Inr bs"
  by (simp add: decode_hex_def decode_hex_pairs_hex_encode)

lemma hex_encode_inject [simp]: "hex_encode bs = hex_encode cs \<longleftrightarrow> bs = cs"
  by (metis decode_hex_hex_encode sum.inject(2))

lemma length_decode_hex_pairs:
  "decode_hex_pairs s = Inr bs \<Longrightarrow> length bs = length s div 2"
  by (induction s arbitrary: bs rule: decode_hex_pairs.induct) (auto simp: result_simps)

lemma decode_hex_length: "decode_hex s = Inr bs \<Longrightarrow> length s = 2 * length bs"
  by (auto simp: decode_hex_def dest!: length_decode_hex_pairs split: if_splits)

lemma decode_hex_array_eq_Inr [result_simps]:
  "decode_hex_array n s = Inr bs \<longleftrightarrow> decode_hex s = Inr bs \<and> length bs = n"
  by (auto simp: decode_hex_array_def result_simps)

lemma decode_canonical_hex_eq_Inr [result_simps]:
  "decode_canonical_hex s = Inr bs \<longleftrightarrow> s = hex_encode bs"
  by (auto simp: decode_canonical_hex_def result_simps)

lemma decode_canonical_hex_array_eq_Inr [result_simps]:
  "decode_canonical_hex_array n s = Inr bs \<longleftrightarrow> s = hex_encode bs \<and> length bs = n"
  by (auto simp: decode_canonical_hex_array_def result_simps)

lemma decode_canonical_hex_encode [simp]:
  "decode_canonical_hex (hex_encode bs) = Inr bs"
  "length bs = n \<Longrightarrow> decode_canonical_hex_array n (hex_encode bs) = Inr bs"
  by (simp_all add: result_simps)

lemma decode_canonical_hex_array_inject:
  "decode_canonical_hex_array n s = Inr bs \<Longrightarrow> decode_canonical_hex_array n t = Inr bs \<Longrightarrow> s = t"
  by (simp add: result_simps)

text \<open>The alphabet of canonical hexadecimal text contains no separator.\<close>

lemma hex_encode_chars: "c \<in> set (hex_encode bs) \<Longrightarrow> c \<in> set HEX"
proof (induction bs)
  case (Cons b bs)
  have "length HEX = 16" by (simp add: HEX_def)
  then have "HEX ! unat (drop_bit 4 b) \<in> set HEX" "HEX ! unat (b AND 0x0f) \<in> set HEX"
    using high_nibble_bound [of b] low_nibble_bound [of b] by (auto intro!: nth_mem)
  with Cons show ?case by auto
qed simp

lemma colon_notin_hex_encode [simp]: "CHR '':'' \<notin> set (hex_encode bs)"
  using hex_encode_chars [of "CHR '':''" bs] by (auto simp: HEX_def)

lemma hex_hash_inject:
  "hex_hash cr s = hex_hash cr t \<longleftrightarrow> sha256 cr (as_bytes s) = sha256 cr (as_bytes t)"
  by (simp add: hex_hash_def hex_hash_bytes_def)

lemma length_hex_hash_bytes: "digest_ok cr \<Longrightarrow> length (hex_hash_bytes cr bs) = 64"
  by (simp add: hex_hash_bytes_def digest_ok_def)

lemma length_hex_hash: "digest_ok cr \<Longrightarrow> length (hex_hash cr s) = 64"
  by (simp add: hex_hash_def length_hex_hash_bytes)

end
