(* ===== verification/Signature.thy ===== *)
theory Signature
  imports Hex
begin

text \<open>
  Signature schemes and their wire material (\<open>src/domain/signature.rs\<close>): the one byte scheme
  identifier, the length-prefixed encoding of keys and signatures, and the wrappers around the
  Ed25519 and ML-DSA-44 verifiers with their error branches.
\<close>

section \<open>Definitions\<close>

datatype SignatureScheme = Ed25519 | MlDsa44 | HybridEd25519MlDsa44

fun scheme_wire_id :: "SignatureScheme \<Rightarrow> u8" where
  "scheme_wire_id Ed25519 = 0"
| "scheme_wire_id MlDsa44 = 1"
| "scheme_wire_id HybridEd25519MlDsa44 = 2"

fun scheme_public_key_bytes :: "SignatureScheme \<Rightarrow> nat" where
  "scheme_public_key_bytes Ed25519 = 32"
| "scheme_public_key_bytes MlDsa44 = 1312"
| "scheme_public_key_bytes HybridEd25519MlDsa44 = 32 + 1312"

fun scheme_signature_bytes :: "SignatureScheme \<Rightarrow> nat" where
  "scheme_signature_bytes Ed25519 = 64"
| "scheme_signature_bytes MlDsa44 = 2420"
| "scheme_signature_bytes HybridEd25519MlDsa44 = 64 + 2420"

definition scheme_from_wire_id :: "u8 \<Rightarrow> SignatureScheme option" where
  "scheme_from_wire_id i =
     (if i = 0 then Some Ed25519
      else if i = 1 then Some MlDsa44
      else if i = 2 then Some HybridEd25519MlDsa44
      else None)"

definition is_consensus_active :: "SignatureScheme \<Rightarrow> bool" where
  "is_consensus_active s = (s = Ed25519)"

record ProtocolPublicKey =
  pk_scheme :: SignatureScheme
  pk_bytes :: bytes

record ProtocolSignature =
  sig_scheme :: SignatureScheme
  sig_bytes :: bytes

definition validate_material_length :: "string \<Rightarrow> nat \<Rightarrow> nat \<Rightarrow> unit result" where
  "validate_material_length label expected actual =
     (if actual \<noteq> expected
      then bail (label @ '' must contain '' @ dec expected @ '' bytes, got '' @ dec actual)
      else Inr ())"

definition encode_material :: "SignatureScheme \<Rightarrow> bytes \<Rightarrow> bytes" where
  "encode_material s bs = [scheme_wire_id s] @ u32_to_be_bytes (word_of_nat (length bs)) @ bs"

definition decode_material :: "bytes \<Rightarrow> (SignatureScheme \<times> bytes) result" where
  "decode_material encoded =
     (case encoded of
        [] \<Rightarrow> bail ''signature material is empty''
      | i # rest \<Rightarrow>
          and_then (ok_or (''unknown signature scheme '' @ dec (unat i)) (scheme_from_wire_id i)) (\<lambda>s.
          if length rest < 4 then bail ''signature material length is missing''
          else
            (let declared = unat (u32_from_be_bytes (take 4 rest)); bs = drop 4 rest in
             if length bs \<noteq> declared
             then bail (''signature material declares '' @ dec declared @ '' bytes but contains '' @
                        dec (length bs))
             else Inr (s, bs))))"

definition public_key_new :: "SignatureScheme \<Rightarrow> bytes \<Rightarrow> ProtocolPublicKey result" where
  "public_key_new s bs =
     and_then (validate_material_length ''public key'' (scheme_public_key_bytes s) (length bs))
       (\<lambda>_. Inr \<lparr>pk_scheme = s, pk_bytes = bs\<rparr>)"

definition public_key_encode :: "ProtocolPublicKey \<Rightarrow> bytes" where
  "public_key_encode k = encode_material (pk_scheme k) (pk_bytes k)"

definition public_key_decode :: "bytes \<Rightarrow> ProtocolPublicKey result" where
  "public_key_decode encoded =
     and_then (decode_material encoded) (\<lambda>(s, bs). public_key_new s bs)"

definition signature_new :: "SignatureScheme \<Rightarrow> bytes \<Rightarrow> ProtocolSignature result" where
  "signature_new s bs =
     and_then (validate_material_length ''signature'' (scheme_signature_bytes s) (length bs))
       (\<lambda>_. Inr \<lparr>sig_scheme = s, sig_bytes = bs\<rparr>)"

definition signature_encode :: "ProtocolSignature \<Rightarrow> bytes" where
  "signature_encode k = encode_material (sig_scheme k) (sig_bytes k)"

definition signature_decode :: "bytes \<Rightarrow> ProtocolSignature result" where
  "signature_decode encoded =
     and_then (decode_material encoded) (\<lambda>(s, bs). signature_new s bs)"

definition validate_ed25519_public_key :: "crypto \<Rightarrow> bytes \<Rightarrow> unit result" where
  "validate_ed25519_public_key cr key =
     (if \<not> ed25519_key_ok cr key
      then bail ''address payload is not a valid Ed25519 verifying key''
      else if ed25519_key_weak cr key
      then bail ''address payload contains a weak Ed25519 verifying key''
      else Inr ())"

definition verify_ed25519 :: "crypto \<Rightarrow> bytes \<Rightarrow> bytes \<Rightarrow> bytes \<Rightarrow> string \<Rightarrow> unit result" where
  "verify_ed25519 cr key payload sig label =
     (if \<not> ed25519_key_ok cr key then bail (''invalid '' @ label @ '' public key'')
      else if \<not> ed25519_verify cr key payload sig then bail (label @ '' signature is invalid'')
      else Inr ())"

definition verify_ml_dsa44_with_context ::
  "crypto \<Rightarrow> bytes \<Rightarrow> bytes \<Rightarrow> bytes \<Rightarrow> bytes \<Rightarrow> string \<Rightarrow> unit result" where
  "verify_ml_dsa44_with_context cr key payload ctx sig label =
     (if \<not> ml_dsa44_sig_ok cr sig
      then bail (''invalid '' @ label @ '' ML-DSA-44 signature encoding'')
      else if \<not> ml_dsa44_verify cr key payload ctx sig
      then bail (label @ '' ML-DSA-44 signature is invalid'')
      else Inr ())"

definition verify_ml_dsa44 :: "crypto \<Rightarrow> bytes \<Rightarrow> bytes \<Rightarrow> bytes \<Rightarrow> string \<Rightarrow> unit result" where
  "verify_ml_dsa44 cr key payload sig label =
     verify_ml_dsa44_with_context cr key payload [] sig label"

section \<open>Lemmas\<close>

lemma scheme_from_wire_id_wire_id [simp]: "scheme_from_wire_id (scheme_wire_id s) = Some s"
  by (cases s) (simp_all add: scheme_from_wire_id_def)

lemma scheme_from_wire_id_Some: "scheme_from_wire_id i = Some s \<Longrightarrow> i = scheme_wire_id s"
  by (auto simp: scheme_from_wire_id_def split: if_splits)

lemma decode_encode_material:
  "length bs < 2 ^ 32 \<Longrightarrow> decode_material (encode_material s bs) = Inr (s, bs)"
  by (simp add: decode_material_def encode_material_def unat_of_nat)

lemma encode_decode_material:
  assumes "decode_material bs = Inr (s, payload)"
  shows "bs = encode_material s payload"
proof -
  obtain i rest where bs: "bs = i # rest" and i: "scheme_from_wire_id i = Some s"
    and len: "4 \<le> length rest" and payload: "payload = drop 4 rest"
    and declared: "length payload = unat (u32_from_be_bytes (take 4 rest))"
    using assms by (auto simp: decode_material_def result_simps Let_def split: list.splits if_splits)
  have "word_of_nat (length payload) = u32_from_be_bytes (take 4 rest)"
    unfolding declared by simp
  then have "u32_to_be_bytes (word_of_nat (length payload)) = take 4 rest"
    using len by (simp add: u32_to_from_be_bytes)
  then show ?thesis
    using bs payload scheme_from_wire_id_Some [OF i] by (simp add: encode_material_def)
qed

lemma decode_material_length: "decode_material bs = Inr (s, payload) \<Longrightarrow> length payload < 2 ^ 32"
  using unat_less_power [of "u32_from_be_bytes (take 4 (tl bs))"]
  by (auto simp: decode_material_def result_simps Let_def split: list.splits if_splits)

lemma verify_ed25519_eq_Inr [result_simps]:
  "verify_ed25519 cr key payload sig label = Inr u \<longleftrightarrow>
     ed25519_key_ok cr key \<and> ed25519_verify cr key payload sig"
  by (simp add: verify_ed25519_def)

end
