(* ===== verification/Address.thy ===== *)
theory Address
  imports Signature
begin

text \<open>
  User-facing Bech32m addresses (\<open>src/domain/address.rs\<close>): network prefixes, address
  versions, the checksum, the 8-to-5 bit regrouping, and the encoder and decoder with every
  error branch.
\<close>

section \<open>Definitions\<close>

definition BECH32M_CONST :: u32 where "BECH32M_CONST = 0x2bc830a3"

definition BECH32_CHARSET :: string where
  "BECH32_CHARSET = ''qpzry9x8gf2tvdw0s3jn54khce6mua7l''"

definition MAX_BECH32_LENGTH :: nat where "MAX_BECH32_LENGTH = 90"

datatype AddressNetwork = Mainnet | Testnet

datatype AddressVersion = Ed25519PublicKey | HybridKeyCommitment

record VersionedAddress =
  addr_version :: AddressVersion
  addr_payload :: bytes

fun version_wire_id :: "AddressVersion \<Rightarrow> u8" where
  "version_wire_id Ed25519PublicKey = 0"
| "version_wire_id HybridKeyCommitment = 1"

definition version_from_wire_id :: "u8 \<Rightarrow> AddressVersion option" where
  "version_from_wire_id i =
     (if i = 0 then Some Ed25519PublicKey
      else if i = 1 then Some HybridKeyCommitment
      else None)"

definition from_profile_id :: "string \<Rightarrow> AddressNetwork" where
  "from_profile_id profile_id =
     (if profile_id = ''iuna-local-testnet-v1'' \<or> profile_id = ''iuna-local-e2e-5s-v1''
      then Testnet else Mainnet)"

fun hrp :: "AddressNetwork \<Rightarrow> string" where
  "hrp Mainnet = ''iuna''"
| "hrp Testnet = ''tiuna''"

definition validate_public_key :: "crypto \<Rightarrow> bytes \<Rightarrow> unit result" where
  "validate_public_key cr key = validate_ed25519_public_key cr key"

fun network_label :: "AddressNetwork \<Rightarrow> string" where
  "network_label Mainnet = ''mainnet''"
| "network_label Testnet = ''testnet''"

definition network_label_for_hrp :: "string \<Rightarrow> string" where
  "network_label_for_hrp h =
     (if h = ''iuna'' then ''mainnet''
      else if h = ''tiuna'' then ''testnet''
      else ''an unknown network'')"

fun position :: "('a \<Rightarrow> bool) \<Rightarrow> 'a list \<Rightarrow> nat option" where
  "position p [] = None"
| "position p (x # xs) = (if p x then Some 0 else map_option Suc (position p xs))"

definition decode_charset :: "char \<Rightarrow> u8 result" where
  "decode_charset c =
     and_then (ok_or ''address contains a character outside the Bech32 alphabet''
       (position (\<lambda>candidate. candidate = c) BECH32_CHARSET))
       (\<lambda>index. Inr (word_of_nat index))"

definition hrp_expand :: "string \<Rightarrow> bytes" where
  "hrp_expand h =
     map (\<lambda>b. drop_bit 5 b) (as_bytes h) @ [0] @ map (\<lambda>b. b AND 31) (as_bytes h)"

definition GENERATORS :: "u32 list" where
  "GENERATORS = [0x3b6a57b2, 0x26508e6d, 0x1ea119fa, 0x3d4233dd, 0x2a1462b3]"

definition polymod_step :: "u32 \<Rightarrow> u8 \<Rightarrow> u32" where
  "polymod_step checksum v =
     (let top = drop_bit 25 checksum;
          c = push_bit 5 (checksum AND 0x01ffffff) XOR ucast v
      in foldl (\<lambda>c e. if drop_bit (fst e) top AND 1 \<noteq> 0 then c XOR snd e else c) c
           (enumerate 0 GENERATORS))"

definition polymod :: "bytes \<Rightarrow> u32" where
  "polymod vs = foldl polymod_step 1 vs"

definition create_checksum :: "string \<Rightarrow> bytes \<Rightarrow> bytes" where
  "create_checksum h data =
     (let p = polymod (hrp_expand h @ data @ replicate 6 0) XOR BECH32M_CONST
      in map (\<lambda>index. ucast (drop_bit (5 * (5 - index)) p AND 31)) [0..<6])"

definition verify_checksum :: "string \<Rightarrow> bytes \<Rightarrow> bool" where
  "verify_checksum h data \<longleftrightarrow> polymod (hrp_expand h @ data) = BECH32M_CONST"

text \<open>
  The inner \<open>while\<close> of \<open>convert_bits\<close> runs on the number of buffered bits; both widths are
  positive in every call of the source, and a zero target width is not looped on.
\<close>

function convert_drain :: "nat \<Rightarrow> u32 \<Rightarrow> nat \<Rightarrow> bytes \<Rightarrow> nat \<times> bytes" where
  "convert_drain to_bits acc bit_count out =
     (if 0 < to_bits \<and> to_bits \<le> bit_count
      then convert_drain to_bits acc (bit_count - to_bits)
             (out @ [ucast (drop_bit (bit_count - to_bits) acc AND (push_bit to_bits 1 - 1))])
      else (bit_count, out))"
  by pat_completeness auto
termination
  by (relation "measure (\<lambda>(t, a, b, out). b)") auto

declare convert_drain.simps [simp del]

fun convert_loop :: "nat \<Rightarrow> nat \<Rightarrow> u32 \<Rightarrow> nat \<Rightarrow> bytes \<Rightarrow> bytes \<Rightarrow> (u32 \<times> nat \<times> bytes) result" where
  "convert_loop from_bits to_bits acc bit_count out [] = Inr (acc, bit_count, out)"
| "convert_loop from_bits to_bits acc bit_count out (v # vs) =
     (if drop_bit from_bits (ucast v :: u32) \<noteq> 0
      then bail ''address payload contains an out-of-range value''
      else
        (let acc' = (push_bit from_bits acc OR ucast v) AND (push_bit (from_bits + to_bits - 1) 1 - 1);
             (bit_count', out') = convert_drain to_bits acc' (bit_count + from_bits) out
         in convert_loop from_bits to_bits acc' bit_count' out' vs))"

definition convert_bits :: "bytes \<Rightarrow> nat \<Rightarrow> nat \<Rightarrow> bool \<Rightarrow> bytes result" where
  "convert_bits data from_bits to_bits pad =
     and_then (convert_loop from_bits to_bits 0 0 [] data) (\<lambda>(acc, bit_count, out).
       let last = push_bit (to_bits - bit_count) acc AND (push_bit to_bits 1 - 1)
       in if pad then Inr (if 0 < bit_count then out @ [ucast last] else out)
          else if from_bits \<le> bit_count \<or> last \<noteq> 0
          then bail ''address payload has invalid padding''
          else Inr out)"

definition encode_versioned_address ::
  "crypto \<Rightarrow> VersionedAddress \<Rightarrow> AddressNetwork \<Rightarrow> string result" where
  "encode_versioned_address cr address network =
     and_then (if addr_version address = Ed25519PublicKey
               then validate_public_key cr (addr_payload address) else Inr ()) (\<lambda>_.
     and_then (convert_bits (addr_payload address) 8 5 True) (\<lambda>converted.
       let data = version_wire_id (addr_version address) # converted;
           checksum = create_checksum (hrp network) data
       in Inr (hrp network @ ''1'' @
               map (\<lambda>v. BECH32_CHARSET ! unat v) (data @ checksum))))"

definition encode_address :: "crypto \<Rightarrow> string \<Rightarrow> AddressNetwork \<Rightarrow> string result" where
  "encode_address cr public_key_hex network =
     and_then (with_context ''address public key must be 32-byte hexadecimal''
       (decode_hex_array PUBLIC_KEY_BYTES public_key_hex)) (\<lambda>public_key.
     and_then (validate_public_key cr public_key) (\<lambda>_.
     encode_versioned_address cr
       \<lparr>addr_version = Ed25519PublicKey, addr_payload = public_key\<rparr> network))"

text \<open>
  \<open>str::trim\<close> removes Unicode white space at both ends; in a byte string that is every
  occurrence of one of these UTF-8 sequences.
\<close>

definition whitespace_seqs :: "string list" where
  "whitespace_seqs =
     map (\<lambda>n. [char_of n]) ([9..<14] @ [32 :: nat]) @
     map (\<lambda>n. [char_of (0xC2 :: nat), char_of n]) [0x85, 0xA0 :: nat] @
     [[char_of (0xE1 :: nat), char_of (0x9A :: nat), char_of (0x80 :: nat)]] @
     map (\<lambda>n. [char_of (0xE2 :: nat), char_of (0x80 :: nat), char_of n])
       ([0x80..<0x8B] @ [0xA8, 0xA9, 0xAF :: nat]) @
     [[char_of (0xE2 :: nat), char_of (0x81 :: nat), char_of (0x9F :: nat)],
      [char_of (0xE3 :: nat), char_of (0x80 :: nat), char_of (0x80 :: nat)]]"

definition starts_with :: "string \<Rightarrow> string \<Rightarrow> bool" where
  "starts_with s p \<longleftrightarrow> take (length p) s = p"

fun strip_front :: "nat \<Rightarrow> string list \<Rightarrow> string \<Rightarrow> string" where
  "strip_front 0 seqs s = s"
| "strip_front (Suc fuel) seqs s =
     (case find (\<lambda>w. w \<noteq> [] \<and> starts_with s w) seqs of
        None \<Rightarrow> s
      | Some w \<Rightarrow> strip_front fuel seqs (drop (length w) s))"

definition str_trim :: "string \<Rightarrow> string" where
  "str_trim s =
     (let front = strip_front (length s) whitespace_seqs s
      in rev (strip_front (length front) (map rev whitespace_seqs) (rev front)))"

definition is_ascii_lowercase :: "char \<Rightarrow> bool" where
  "is_ascii_lowercase c \<longleftrightarrow> (97::nat) \<le> of_char c \<and> of_char c \<le> (122::nat)"

definition is_ascii_uppercase :: "char \<Rightarrow> bool" where
  "is_ascii_uppercase c \<longleftrightarrow> (65::nat) \<le> of_char c \<and> of_char c \<le> (90::nat)"

definition to_ascii_lowercase :: "string \<Rightarrow> string" where
  "to_ascii_lowercase s =
     map (\<lambda>c. if is_ascii_uppercase c then char_of (of_char c + (32::nat)) else c) s"

definition rfind :: "char \<Rightarrow> string \<Rightarrow> nat option" where
  "rfind c s = map_option (\<lambda>i. length s - 1 - i) (position (\<lambda>x. x = c) (rev s))"

text \<open>The part of \<open>decode_versioned_address\<close> after the checksum test.\<close>

definition address_from_payload :: "crypto \<Rightarrow> bytes \<Rightarrow> VersionedAddress result" where
  "address_from_payload cr payload =
     (case payload of
        [] \<Rightarrow> bail ''address payload is empty''
      | version # encoded_key \<Rightarrow>
          and_then (ok_or (''unsupported address version '' @ dec (unat version))
            (version_from_wire_id version)) (\<lambda>v.
          and_then (convert_bits encoded_key 5 8 False) (\<lambda>public_key.
          if length public_key \<noteq> PUBLIC_KEY_BYTES
          then bail (''address public key has '' @ dec (length public_key) @ '' bytes'')
          else
            and_then (if v = Ed25519PublicKey then validate_public_key cr public_key
                      else Inr ()) (\<lambda>_.
            Inr \<lparr>addr_version = v, addr_payload = public_key\<rparr>))))"

definition decode_versioned_address ::
  "crypto \<Rightarrow> string \<Rightarrow> AddressNetwork \<Rightarrow> VersionedAddress result" where
  "decode_versioned_address cr input expected_network =
     (let address = str_trim input in
      if address = [] then bail ''address is required''
      else if MAX_BECH32_LENGTH < length address \<or> \<not> list_all (\<lambda>c. (of_char c :: nat) < 128) address
      then bail ''address is not valid Bech32m''
      else if list_ex is_ascii_lowercase address \<and> list_ex is_ascii_uppercase address
      then bail ''Bech32m address must not mix uppercase and lowercase''
      else
        (let normalized = to_ascii_lowercase address in
         and_then (ok_or ''address is missing the Bech32m separator'' (rfind (CHR ''1'') normalized)) (\<lambda>separator.
         if separator = 0 \<or> length normalized < separator + 7
         then bail ''address has an invalid Bech32m structure''
         else
           (let h = take separator normalized in
            if h \<noteq> hrp expected_network
            then bail (''address belongs to '' @ network_label_for_hrp h @ '' instead of '' @
                       network_label expected_network)
            else
              and_then (try_map decode_charset (drop (separator + 1) normalized)) (\<lambda>data.
              if \<not> verify_checksum h data then bail ''address checksum is invalid''
              else
                address_from_payload cr (take (length data - 6) data))))))"

definition decode_address :: "crypto \<Rightarrow> string \<Rightarrow> AddressNetwork \<Rightarrow> string result" where
  "decode_address cr address expected_network =
     and_then (decode_versioned_address cr address expected_network) (\<lambda>decoded.
     if addr_version decoded \<noteq> Ed25519PublicKey
     then bail ''address version is recognized but not consensus-active''
     else
       and_then (validate_public_key cr (addr_payload decoded)) (\<lambda>_.
       Inr (hex_encode (addr_payload decoded))))"

definition migrate_legacy_address :: "crypto \<Rightarrow> string \<Rightarrow> AddressNetwork \<Rightarrow> string result" where
  "migrate_legacy_address cr address network =
     encode_address cr (to_ascii_lowercase address) network"

lemma version_from_wire_id_wire_id [simp]: "version_from_wire_id (version_wire_id v) = Some v"
  by (cases v) (simp_all add: version_from_wire_id_def)

lemma version_wire_id_inject [simp]: "version_wire_id v = version_wire_id v' \<longleftrightarrow> v = v'"
  by (cases v; cases v') simp_all

lemma address_from_payload_length:
  "address_from_payload cr payload = Inr a \<Longrightarrow> length (addr_payload a) = 32"
  by (cases payload) (auto simp: address_from_payload_def result_simps size_constants)

lemma decode_versioned_address_length:
  "decode_versioned_address cr s n = Inr a \<Longrightarrow> length (addr_payload a) = 32"
  by (auto simp: decode_versioned_address_def result_simps Let_def
      dest: address_from_payload_length)

text \<open>Bytes always convert, so that a version 1 address always has a text.\<close>

lemma convert_loop_bytes: "\<exists>r. convert_loop 8 t acc n out bs = Inr r"
proof (induction bs arbitrary: acc n out)
  case (Cons b bs)
  have "drop_bit 8 (ucast b) = (0 :: u32)"
    by (rule bit_word_eqI) (auto simp: bit_simps dest: bit_imp_le_length)
  then show ?case
    using Cons by (auto simp: Let_def split: prod.splits)
qed simp

lemma convert_bits_bytes: "\<exists>out. convert_bits bs 8 5 True = Inr out"
  using convert_loop_bytes [of 5 0 0 "[]" bs]
  by (auto simp: convert_bits_def Let_def split: prod.splits)

lemma encode_hybrid_address:
  "addr_version a = HybridKeyCommitment \<Longrightarrow> \<exists>s. encode_versioned_address cr a network = Inr s"
  using convert_bits_bytes [of "addr_payload a"] by (auto simp: encode_versioned_address_def Let_def)

end
