(* ===== verification/Prefix_Code.thy ===== *)
theory Prefix_Code
  imports Errors
begin

text \<open>
  The interface of a self-delimiting encoder: reading an encoding off the front of a byte
  string determines both the value and the rest. Signing preimages and wire formats are
  built from such encoders, and their injectivity follows from the lemmas of the locale.
\<close>

locale prefix_code =
  fixes enc :: "'a \<Rightarrow> 'e + 'b list"
  assumes prefix: "enc x = Inr a \<Longrightarrow> enc y = Inr b \<Longrightarrow> a @ r = b @ s \<Longrightarrow> x = y \<and> r = s"
begin

lemma inject: "enc x = Inr a \<Longrightarrow> enc y = Inr a \<Longrightarrow> x = y"
  using prefix by blast

lemma list_prefix:
  assumes "try_map enc xs = Inr as" and "try_map enc ys = Inr bs"
    and "length xs = length ys" and "concat as @ r = concat bs @ s"
  shows "xs = ys \<and> r = s"
  using assms
proof (induction xs arbitrary: ys as bs)
  case Nil
  then show ?case by simp
next
  case (Cons x xs)
  from Cons.prems(3) obtain y ys' where ys: "ys = y # ys'" by (cases ys) auto
  from Cons.prems(1) obtain a as' where a: "enc x = Inr a" "try_map enc xs = Inr as'" "as = a # as'"
    by (auto simp: result_simps)
  from Cons.prems(2) ys obtain b bs' where b: "enc y = Inr b" "try_map enc ys' = Inr bs'" "bs = b # bs'"
    by (auto simp: result_simps)
  have "a @ (concat as' @ r) = b @ (concat bs' @ s)"
    using Cons.prems(4) a(3) b(3) by simp
  then have "x = y" and rest: "concat as' @ r = concat bs' @ s"
    using prefix [OF a(1) b(1)] by blast+
  moreover have "xs = ys' \<and> r = s"
    using Cons.IH [OF a(2) b(2) _ rest] Cons.prems(3) ys by simp
  ultimately show ?case using ys by simp
qed

end

text \<open>Two self-delimiting encoders one after the other.\<close>

lemma prefix_code_seq:
  assumes f: "prefix_code f" and g: "prefix_code g"
  shows "prefix_code (\<lambda>p. and_then (f (fst p)) (\<lambda>a. and_then (g (snd p)) (\<lambda>b. Inr (a @ b))))"
proof
  fix x y a b r s
  assume "and_then (f (fst x)) (\<lambda>a. and_then (g (snd x)) (\<lambda>b. Inr (a @ b))) = Inr a"
    and "and_then (f (fst y)) (\<lambda>a. and_then (g (snd y)) (\<lambda>b. Inr (a @ b))) = Inr b"
    and eq: "a @ r = b @ s"
  then obtain a1 a2 b1 b2
    where a: "f (fst x) = Inr a1" "g (snd x) = Inr a2" "a = a1 @ a2"
      and b: "f (fst y) = Inr b1" "g (snd y) = Inr b2" "b = b1 @ b2"
    by (auto simp: result_simps)
  have "fst x = fst y" and "a2 @ r = b2 @ s"
    using prefix_code.prefix [OF f a(1) b(1), of "a2 @ r" "b2 @ s"] eq a(3) b(3) by auto
  moreover from this have "snd x = snd y" and "r = s"
    using prefix_code.prefix [OF g a(2) b(2)] by blast+
  ultimately show "x = y \<and> r = s" by (simp add: prod_eq_iff)
qed

text \<open>An encoder composed with a partial injective conversion of the value.\<close>

lemma prefix_code_convert:
  assumes f: "prefix_code f" and inj: "\<And>x y c. h x = Inr c \<Longrightarrow> h y = Inr c \<Longrightarrow> x = y"
  shows "prefix_code (\<lambda>x. and_then (h x) f)"
proof
  fix x y a b r s
  assume "and_then (h x) f = Inr a" and "and_then (h y) f = Inr b" and eq: "a @ r = b @ s"
  then obtain c d where c: "h x = Inr c" "f c = Inr a" and d: "h y = Inr d" "f d = Inr b"
    by (auto simp: result_simps)
  have "c = d \<and> r = s" using prefix_code.prefix [OF f c(2) d(2) eq] .
  with inj c d show "x = y \<and> r = s" by auto
qed

end
