(* ===== verification/Transaction.thy ===== *)
theory Transaction
  imports Address Prefix_Code "HOL-Library.Product_Lexorder"
begin

text \<open>
  Legacy transactions (\<open>src/domain/transaction.rs\<close>): the signing domain, the three kinds of
  transaction and their accessors, the textual canonical form, and the binary signing
  preimage of format version 1.
\<close>

section \<open>The signing domain\<close>

definition TRANSACTION_SIGNING_FORMAT_VERSION :: u16 where
  "TRANSACTION_SIGNING_FORMAT_VERSION = 1"

record TransactionSigningDomain =
  chain_id :: string
  genesis_hash :: string
  chain_bound :: bool

definition domain_new :: "string \<Rightarrow> string \<Rightarrow> TransactionSigningDomain" where
  "domain_new cid gen = \<lparr>chain_id = cid, genesis_hash = gen, chain_bound = True\<rparr>"

definition domain_legacy :: TransactionSigningDomain where
  "domain_legacy = \<lparr>chain_id = [], genesis_hash = [], chain_bound = False\<rparr>"

definition domain_for_height :: "string \<Rightarrow> string \<Rightarrow> u64 \<Rightarrow> TransactionSigningDomain" where
  "domain_for_height cid gen height =
     (if TRANSACTION_SIGNING_V1_ACTIVATION_HEIGHT \<le> height then domain_new cid gen
      else domain_legacy)"

definition encode_len :: "nat \<Rightarrow> string \<Rightarrow> bytes result" where
  "encode_len len label =
     (if len < 2 ^ 32 then Inr (u32_to_be_bytes (word_of_nat len))
      else bail (label @ '' exceeds u32 length''))"

definition encode_bytes :: "bytes \<Rightarrow> string \<Rightarrow> bytes result" where
  "encode_bytes v label = and_then (encode_len (length v) label) (\<lambda>l. Inr (l @ v))"

definition domain_encode :: "TransactionSigningDomain \<Rightarrow> bytes result" where
  "domain_encode d =
     (if \<not> chain_bound d then bail ''legacy transaction signing has no binary chain domain''
      else
        and_then (encode_bytes (as_bytes (chain_id d)) ''chain ID'') (\<lambda>cid.
        and_then (with_context ''transaction signing genesis hash is invalid''
          (decode_canonical_hex_array HASH_BYTES (genesis_hash d))) (\<lambda>gen.
        and_then (encode_bytes gen ''genesis hash'') (\<lambda>g.
        Inr (as_bytes ''IUNA-TX'' @ u16_to_be_bytes TRANSACTION_SIGNING_FORMAT_VERSION @ cid @ g)))))"

section \<open>Transactions\<close>

text \<open>The derived \<open>Ord\<close> of an outpoint compares the transaction id, then the index.\<close>

datatype OutPoint = OutPoint (op_txid: string) (op_index: u32)

instantiation OutPoint :: linorder
begin

definition less_eq_OutPoint :: "OutPoint \<Rightarrow> OutPoint \<Rightarrow> bool" where
  "less_eq_OutPoint a b \<longleftrightarrow> (op_txid a, op_index a) \<le> (op_txid b, op_index b)"

definition less_OutPoint :: "OutPoint \<Rightarrow> OutPoint \<Rightarrow> bool" where
  "less_OutPoint a b \<longleftrightarrow> (op_txid a, op_index a) < (op_txid b, op_index b)"

instance
  by standard (auto simp: less_eq_OutPoint_def less_OutPoint_def OutPoint.expand)

end

record TxInput =
  in_outpoint :: OutPoint
  in_owner :: string
  in_signature :: string

record TxOutput =
  out_address :: string
  out_amount :: Amount

text \<open>
  \<open>Transfer inputs outputs fee signature\<close>,
  \<open>Burn inputs change amount fee anchor signature\<close> and
  \<open>Mine recipient anchor salt nonce difficulty_bits proof_header signature\<close>.
\<close>

datatype Transaction =
    Transfer "TxInput list" "TxOutput list" Amount string
  | Burn "TxInput list" "TxOutput list" Amount Amount "string option" string
  | Mine string string u64 u64 u32 "string option" string

record UnsignedTxInput =
  uin_outpoint :: OutPoint
  uin_owner :: string

datatype UnsignedUtxoTransaction =
    UTransfer "UnsignedTxInput list" "TxOutput list" Amount
  | UBurn "UnsignedTxInput list" "TxOutput list" Amount Amount "string option"

definition outpoint_id :: "OutPoint \<Rightarrow> string" where
  "outpoint_id p = op_txid p @ '':'' @ dec (unat (op_index p))"

definition without_signature :: "TxInput \<Rightarrow> UnsignedTxInput" where
  "without_signature i = \<lparr>uin_outpoint = in_outpoint i, uin_owner = in_owner i\<rparr>"

definition unsigned_inputs :: "TxInput list \<Rightarrow> UnsignedTxInput list" where
  "unsigned_inputs is = map without_signature is"

fun inputs :: "Transaction \<Rightarrow> TxInput list" where
  "inputs (Transfer ins outs fee sig) = ins"
| "inputs (Burn ins change amount fee anchor sig) = ins"
| "inputs (Mine recipient anchor salt nonce bits header sig) = []"

fun outputs :: "Transaction \<Rightarrow> TxOutput list" where
  "outputs (Transfer ins outs fee sig) = outs"
| "outputs (Burn ins change amount fee anchor sig) = change"
| "outputs (Mine recipient anchor salt nonce bits header sig) =
     [\<lparr>out_address = recipient, out_amount = MINE_REWARD\<rparr>]"

fun fee :: "Transaction \<Rightarrow> Amount" where
  "fee (Transfer ins outs f sig) = f"
| "fee (Burn ins change amount f anchor sig) = f"
| "fee (Mine recipient anchor salt nonce bits header sig) = MINE_FINALIZER_FEE"

fun tx_signature :: "Transaction \<Rightarrow> string" where
  "tx_signature (Transfer ins outs f sig) = sig"
| "tx_signature (Burn ins change amount f anchor sig) = sig"
| "tx_signature (Mine recipient anchor salt nonce bits header sig) = sig"

definition first_owner :: "TxInput list \<Rightarrow> string" where
  "first_owner is = (case is of [] \<Rightarrow> [] | i # _ \<Rightarrow> in_owner i)"

fun sender :: "Transaction \<Rightarrow> string" where
  "sender (Transfer ins outs f sig) = first_owner ins"
| "sender (Burn ins change amount f anchor sig) = first_owner ins"
| "sender (Mine recipient anchor salt nonce bits header sig) = recipient"

fun tx_to :: "Transaction \<Rightarrow> string option" where
  "tx_to (Transfer ins outs f sig) = map_option out_address (case outs of [] \<Rightarrow> None | x # _ \<Rightarrow> Some x)"
| "tx_to (Burn ins change amount f anchor sig) = None"
| "tx_to (Mine recipient anchor salt nonce bits header sig) = Some recipient"

fun amount :: "Transaction \<Rightarrow> Amount" where
  "amount (Transfer ins outs f sig) = (case outs of [] \<Rightarrow> 0 | x # _ \<Rightarrow> out_amount x)"
| "amount (Burn ins change a f anchor sig) = a"
| "amount (Mine recipient anchor salt nonce bits header sig) = MINE_REWARD"

fun is_mine :: "Transaction \<Rightarrow> bool" where
  "is_mine (Mine recipient anchor salt nonce bits header sig) = True"
| "is_mine _ = False"

fun is_burn :: "Transaction \<Rightarrow> bool" where
  "is_burn (Burn ins change a f anchor sig) = True"
| "is_burn _ = False"

definition total_debit :: "Transaction \<Rightarrow> Amount result" where
  "total_debit tx =
     (if is_mine tx then Inr 0
      else ok_or ''transaction amount plus fee overflows'' (checked_add (amount tx) (fee tx)))"

fun burn_anchor :: "Transaction \<Rightarrow> string option" where
  "burn_anchor (Burn ins change a f anchor sig) = anchor"
| "burn_anchor _ = None"

text \<open>The amount a transaction destroys: the \<open>match\<close> in the balance equations of the ledger.\<close>

fun burned_amount :: "Transaction \<Rightarrow> Amount" where
  "burned_amount (Burn ins change a f anchor sig) = a"
| "burned_amount _ = 0"

section \<open>Canonical text\<close>

definition canonical_inputs :: "UnsignedTxInput list \<Rightarrow> string" where
  "canonical_inputs is =
     join ''|'' (map (\<lambda>i. op_txid (uin_outpoint i) @ '':'' @ dec (unat (op_index (uin_outpoint i))) @
       '':'' @ uin_owner i) is)"

definition canonical_outputs :: "TxOutput list \<Rightarrow> string" where
  "canonical_outputs os =
     join ''|'' (map (\<lambda>o1. out_address o1 @ '':'' @ dec (unat (out_amount o1))) os)"

fun unsigned_canonical :: "UnsignedUtxoTransaction \<Rightarrow> string" where
  "unsigned_canonical (UTransfer ins outs f) =
     ''utxo-transfer:'' @ canonical_inputs ins @ '':'' @ canonical_outputs outs @ '':'' @ dec (unat f)"
| "unsigned_canonical (UBurn ins change a f anchor) =
     (case anchor of
        Some anc \<Rightarrow> ''utxo-burn-v2:'' @ canonical_inputs ins @ '':'' @ canonical_outputs change @
          '':'' @ dec (unat a) @ '':'' @ dec (unat f) @ '':'' @ anc
      | None \<Rightarrow> ''utxo-burn:'' @ canonical_inputs ins @ '':'' @ canonical_outputs change @
          '':'' @ dec (unat a) @ '':'' @ dec (unat f))"

definition mine_payload :: "string \<Rightarrow> string \<Rightarrow> u64 \<Rightarrow> u64 \<Rightarrow> u32 \<Rightarrow> string" where
  "mine_payload recipient anchor salt nonce bits =
     ''iuna-mine:'' @ recipient @ '':'' @ anchor @ '':'' @ dec (unat salt) @ '':'' @
     dec (unat nonce) @ '':'' @ dec (unat bits)"

fun signing_payload :: "Transaction \<Rightarrow> string" where
  "signing_payload (Transfer ins outs f sig) =
     unsigned_canonical (UTransfer (unsigned_inputs ins) outs f)"
| "signing_payload (Burn ins change a f anchor sig) =
     unsigned_canonical (UBurn (unsigned_inputs ins) change a f anchor)"
| "signing_payload (Mine recipient anchor salt nonce bits header sig) =
     mine_payload recipient anchor salt nonce bits"

definition canonical :: "Transaction \<Rightarrow> string" where
  "canonical tx = signing_payload tx @ '':'' @ tx_signature tx"

section \<open>Binary signing preimages\<close>

definition encode_input :: "UnsignedTxInput \<Rightarrow> bytes result" where
  "encode_input i =
     and_then (with_context ''transaction input txid is invalid''
       (decode_canonical_hex (op_txid (uin_outpoint i)))) (\<lambda>txid.
     if length txid \<noteq> HASH_BYTES \<and> length txid \<noteq> SIGNATURE_BYTES
     then bail ''transaction input txid must be a hash or signature''
     else
       and_then (encode_bytes txid ''input txid'') (\<lambda>t.
       and_then (with_context ''transaction input owner is invalid''
         (decode_canonical_hex_array PUBLIC_KEY_BYTES (uin_owner i))) (\<lambda>owner.
       and_then (encode_bytes owner ''input owner'') (\<lambda>w.
       Inr (t @ u32_to_be_bytes (op_index (uin_outpoint i)) @ w)))))"

definition encode_inputs :: "UnsignedTxInput list \<Rightarrow> bytes result" where
  "encode_inputs is =
     and_then (encode_len (length is) ''input count'') (\<lambda>l.
     and_then (try_map encode_input is) (\<lambda>bs. Inr (l @ concat bs)))"

definition encode_output :: "TxOutput \<Rightarrow> bytes result" where
  "encode_output o1 =
     and_then (with_context ''transaction output address is invalid''
       (decode_canonical_hex_array PUBLIC_KEY_BYTES (out_address o1))) (\<lambda>address.
     and_then (encode_bytes address ''output address'') (\<lambda>a.
     Inr (a @ u64_to_be_bytes (out_amount o1))))"

definition encode_outputs :: "TxOutput list \<Rightarrow> bytes result" where
  "encode_outputs os =
     and_then (encode_len (length os) ''output count'') (\<lambda>l.
     and_then (try_map encode_output os) (\<lambda>bs. Inr (l @ concat bs)))"

fun encode_burn_anchor :: "string option \<Rightarrow> bytes result" where
  "encode_burn_anchor None = Inr []"
| "encode_burn_anchor (Some anchor) =
     and_then (with_context ''burn anchor is invalid''
       (decode_canonical_hex_array HASH_BYTES anchor)) (\<lambda>a. encode_bytes a ''burn anchor'')"

fun unsigned_signing_bytes :: "UnsignedUtxoTransaction \<Rightarrow> TransactionSigningDomain \<Rightarrow> bytes result" where
  "unsigned_signing_bytes (UTransfer ins outs f) d =
     and_then (domain_encode d) (\<lambda>dom.
     and_then (encode_inputs ins) (\<lambda>i.
     and_then (encode_outputs outs) (\<lambda>o1.
     Inr (dom @ [1] @ i @ o1 @ u64_to_be_bytes f))))"
| "unsigned_signing_bytes (UBurn ins change a f anchor) d =
     and_then (domain_encode d) (\<lambda>dom.
     and_then (encode_inputs ins) (\<lambda>i.
     and_then (encode_outputs change) (\<lambda>o1.
     and_then (encode_burn_anchor anchor) (\<lambda>anc.
     Inr (dom @ [if anchor \<noteq> None then 3 else 2] @ i @ o1 @ u64_to_be_bytes a @
          u64_to_be_bytes f @ anc)))))"

fun tx_signing_bytes :: "Transaction \<Rightarrow> TransactionSigningDomain \<Rightarrow> bytes result" where
  "tx_signing_bytes (Transfer ins outs f sig) d =
     unsigned_signing_bytes (UTransfer (unsigned_inputs ins) outs f) d"
| "tx_signing_bytes (Burn ins change a f anchor sig) d =
     unsigned_signing_bytes (UBurn (unsigned_inputs ins) change a f anchor) d"
| "tx_signing_bytes (Mine recipient anchor salt nonce bits header sig) d =
     bail ''mine transactions use proof hashes instead of signatures''"

definition encode_mine_recipient :: "crypto \<Rightarrow> string \<Rightarrow> bytes result" where
  "encode_mine_recipient cr recipient =
     (case decode_canonical_hex_array PUBLIC_KEY_BYTES recipient of
        Inr key \<Rightarrow> encode_bytes key ''mine recipient''
      | Inl _ \<Rightarrow>
          (let network = (if starts_with recipient ''tiuna1'' then Testnet else Mainnet) in
           and_then (with_context ''mine recipient is invalid''
             (decode_versioned_address cr recipient network)) (\<lambda>a.
           encode_bytes (version_wire_id (addr_version a) # addr_payload a) ''mine recipient'')))"

definition mine_signing_bytes ::
  "crypto \<Rightarrow> TransactionSigningDomain \<Rightarrow> string \<Rightarrow> string \<Rightarrow> u64 \<Rightarrow> u64 \<Rightarrow> u32 \<Rightarrow> bytes result" where
  "mine_signing_bytes cr d recipient anchor salt nonce bits =
     and_then (domain_encode d) (\<lambda>dom.
     and_then (encode_mine_recipient cr recipient) (\<lambda>r.
     and_then (with_context ''mine anchor is invalid''
       (decode_canonical_hex_array HASH_BYTES anchor)) (\<lambda>anchor_bytes.
     and_then (encode_bytes anchor_bytes ''mine anchor'') (\<lambda>anc.
     Inr (dom @ [3] @ r @ anc @ u64_to_be_bytes salt @ u64_to_be_bytes nonce @
          u32_to_be_bytes bits)))))"

section \<open>Pending conflicts\<close>

definition pending_spent_outpoints :: "Transaction list \<Rightarrow> OutPoint set" where
  "pending_spent_outpoints pending = set (concat (map (\<lambda>tx. map in_outpoint (inputs tx)) pending))"

definition transaction_inputs_spent_by :: "Transaction \<Rightarrow> Transaction list \<Rightarrow> bool" where
  "transaction_inputs_spent_by tx pending =
     list_ex (\<lambda>i. in_outpoint i \<in> pending_spent_outpoints pending) (inputs tx)"

end
