(* ===== verification/Validation.thy ===== *)
theory Validation
  imports Transaction
begin

text \<open>
  Field validators and transaction sizes (\<open>src/domain/validation.rs\<close>). The economic size
  counts every field at its binary width, with integers in groups of seven bits; the size is
  bounded from below by the minimum that the spend builders assume.
\<close>

unbundle bit_operations_syntax

section \<open>Field validators\<close>

definition STRATUM_MINE_HEADER_BYTES :: nat where
  "STRATUM_MINE_HEADER_BYTES = 80"

definition validate_address :: "string \<Rightarrow> string \<Rightarrow> unit result" where
  "validate_address address label =
     and_then (with_context (''invalid '' @ label @ '' address'')
       (decode_hex_array PUBLIC_KEY_BYTES address)) (\<lambda>_. Inr ())"

definition validate_hash :: "string \<Rightarrow> string \<Rightarrow> unit result" where
  "validate_hash hash label =
     and_then (with_context (''invalid '' @ label) (decode_hex_array HASH_BYTES hash)) (\<lambda>_. Inr ())"

definition validate_signature :: "string \<Rightarrow> string \<Rightarrow> unit result" where
  "validate_signature sig label =
     and_then (with_context (''invalid '' @ label) (decode_hex_array SIGNATURE_BYTES sig)) (\<lambda>_. Inr ())"

definition validate_stratum_header :: "string \<Rightarrow> unit result" where
  "validate_stratum_header header =
     and_then (with_context ''invalid mine transaction proof header''
       (decode_hex_array STRATUM_MINE_HEADER_BYTES header)) (\<lambda>_. Inr ())"

definition validate_protocol_id :: "string \<Rightarrow> string \<Rightarrow> unit result" where
  "validate_protocol_id v label =
     and_then (with_context (''invalid '' @ label) (decode_hex v)) (\<lambda>bs.
       if length bs = HASH_BYTES \<or> length bs = SIGNATURE_BYTES then Inr ()
       else bail (''invalid '' @ label @ '': expected 32 or 64 bytes, got '' @ dec (length bs)))"

section \<open>Sizes\<close>

text \<open>The loop \<open>while value >= 0x80 { value >>= 7; bytes += 1 }\<close>.\<close>

function compact_len_loop :: "u128 \<Rightarrow> nat \<Rightarrow> nat" where
  "compact_len_loop v n = (if 0x80 \<le> v then compact_len_loop (drop_bit 7 v) (n + 1) else n)"
  by pat_completeness auto
termination
proof (relation "measure (\<lambda>(v, n). unat v)")
  fix v :: u128 and n :: nat
  assume "0x80 \<le> v"
  then have "128 \<le> unat v" by (simp add: word_le_nat_alt)
  then show "((drop_bit 7 v, n + 1), v, n) \<in> measure (\<lambda>(v, n). unat v)"
    by (simp add: drop_bit_eq_div unat_div_distrib)
qed simp

declare compact_len_loop.simps [simp del]

definition compact_len :: "u128 \<Rightarrow> nat" where
  "compact_len v = compact_len_loop v 1"

definition protocol_id_size_bytes :: "string \<Rightarrow> nat" where
  "protocol_id_size_bytes v =
     (case decode_hex v of
        Inr bs \<Rightarrow> if length bs = HASH_BYTES then HASH_BYTES else SIGNATURE_BYTES
      | Inl _ \<Rightarrow> SIGNATURE_BYTES)"

text \<open>
  The remaining field sizes do not look at the field: their \<open>debug_assert!\<close> is not part of a
  release build.
\<close>

definition address_size_bytes :: "string \<Rightarrow> nat" where
  "address_size_bytes a = PUBLIC_KEY_BYTES"

definition hash_size_bytes :: "string \<Rightarrow> nat" where
  "hash_size_bytes h = HASH_BYTES"

definition signature_size_bytes :: "string \<Rightarrow> nat" where
  "signature_size_bytes s = SIGNATURE_BYTES"

definition stratum_header_size_bytes :: "string \<Rightarrow> nat" where
  "stratum_header_size_bytes h = STRATUM_MINE_HEADER_BYTES"

definition compact_inputs_size_bytes :: "TxInput list \<Rightarrow> nat" where
  "compact_inputs_size_bytes is =
     (\<Sum>i\<leftarrow>is. protocol_id_size_bytes (op_txid (in_outpoint i)) +
        compact_len (ucast (op_index (in_outpoint i))) + address_size_bytes (in_owner i))"

definition compact_output_size_bytes :: "TxOutput \<Rightarrow> nat" where
  "compact_output_size_bytes o1 =
     address_size_bytes (out_address o1) + compact_len (ucast (out_amount o1))"

definition compact_outputs_size_bytes :: "TxOutput list \<Rightarrow> nat" where
  "compact_outputs_size_bytes os = (\<Sum>o1\<leftarrow>os. compact_output_size_bytes o1)"

fun canonical_transaction_size_bytes :: "Transaction \<Rightarrow> nat" where
  "canonical_transaction_size_bytes (Transfer ins outs f sig) =
     1 + compact_len (word_of_nat (length ins)) + compact_inputs_size_bytes ins +
     compact_len (word_of_nat (length outs)) + compact_outputs_size_bytes outs +
     compact_len (ucast f) + signature_size_bytes sig"
| "canonical_transaction_size_bytes (Burn ins change a f anchor sig) =
     1 + compact_len (word_of_nat (length ins)) + compact_inputs_size_bytes ins +
     compact_len (word_of_nat (length change)) + compact_outputs_size_bytes change +
     compact_len (ucast a) + compact_len (ucast f) +
     (case anchor of None \<Rightarrow> 0 | Some anc \<Rightarrow> hash_size_bytes anc) + signature_size_bytes sig"
| "canonical_transaction_size_bytes (Mine recipient anchor salt nonce bits header sig) =
     1 + address_size_bytes recipient + hash_size_bytes anchor + compact_len (ucast salt) +
     compact_len (ucast nonce) + compact_len (ucast bits) + 1 +
     (case header of None \<Rightarrow> 0 | Some h \<Rightarrow> stratum_header_size_bytes h) + hash_size_bytes sig"

definition minimum_transfer_economic_size_bytes :: "nat \<Rightarrow> nat" where
  "minimum_transfer_economic_size_bytes input_count =
     1 + compact_len (word_of_nat input_count) +
     input_count * (HASH_BYTES + 1 + PUBLIC_KEY_BYTES) + compact_len 1 +
     PUBLIC_KEY_BYTES + 1 + 1 + SIGNATURE_BYTES"

section \<open>Facts\<close>

lemma validators_eq_Inr [result_simps]:
  "validate_address a l = Inr u \<longleftrightarrow> (\<exists>bs. decode_hex a = Inr bs \<and> length bs = 32)"
  "validate_hash a l = Inr u \<longleftrightarrow> (\<exists>bs. decode_hex a = Inr bs \<and> length bs = 32)"
  "validate_signature a l = Inr u \<longleftrightarrow> (\<exists>bs. decode_hex a = Inr bs \<and> length bs = 64)"
  "validate_stratum_header a = Inr u \<longleftrightarrow> (\<exists>bs. decode_hex a = Inr bs \<and> length bs = 80)"
  "validate_protocol_id a l = Inr u \<longleftrightarrow>
     (\<exists>bs. decode_hex a = Inr bs \<and> (length bs = 32 \<or> length bs = 64))"
  by (auto simp: validate_address_def validate_hash_def validate_signature_def
      validate_stratum_header_def validate_protocol_id_def STRATUM_MINE_HEADER_BYTES_def
      size_constants result_simps split: if_splits)

lemma validate_hash_length: "validate_hash h l = Inr u \<Longrightarrow> length h = 64"
  by (auto simp: result_simps dest: decode_hex_length)

lemma validate_address_length: "validate_address a l = Inr u \<Longrightarrow> length a = 64"
  by (auto simp: result_simps dest: decode_hex_length)

lemma validate_signature_length: "validate_signature s l = Inr u \<Longrightarrow> length s = 128"
  by (auto simp: result_simps dest: decode_hex_length)

text \<open>
  The number of seven bit groups: a value occupies \<open>compact_len\<close> groups exactly, so the loop
  returns the least width that holds the value.
\<close>

lemma compact_len_loop_spec:
  "\<exists>k. compact_len_loop v n = n + k \<and> unat v < 128 ^ (k + 1) \<and> (0 < k \<longrightarrow> 128 ^ k \<le> unat v)"
proof (induction v n rule: compact_len_loop.induct)
  case (1 v n)
  show ?case
  proof (cases "0x80 \<le> v")
    case True
    then have ge: "128 \<le> unat v" by (simp add: word_le_nat_alt)
    have shift: "unat (drop_bit 7 v) = unat v div 128"
      by (simp add: drop_bit_eq_div unat_div_distrib)
    obtain k where k: "compact_len_loop (drop_bit 7 v) (n + 1) = n + 1 + k"
        "unat v div 128 < 128 ^ (k + 1)" "0 < k \<longrightarrow> 128 ^ k \<le> unat v div 128"
      using "1.IH" [OF True] unfolding shift by blast
    have upper: "unat v < 128 ^ (k + 2)"
      using k(2) by (simp add: div_less_iff_less_mult mult.commute)
    have "128 ^ (k + 1) \<le> unat v"
    proof (cases "k = 0")
      case False
      then have "128 ^ k \<le> unat v div 128" using k(3) by simp
      then show ?thesis by (simp add: less_eq_div_iff_mult_less_eq mult.commute)
    qed (use ge in simp)
    then show ?thesis
      using True k(1) upper by (intro exI [of _ "k + 1"]) (simp add: compact_len_loop.simps [of v n])
  next
    case False
    then have "unat v < 128" by (simp add: word_less_nat_alt not_le)
    then show ?thesis
      using False by (intro exI [of _ 0]) (simp add: compact_len_loop.simps [of v n])
  qed
qed

lemma compact_len_upper: "unat v < 128 ^ compact_len v" and
  compact_len_lower: "1 < compact_len v \<Longrightarrow> 128 ^ (compact_len v - 1) \<le> unat v" and
  compact_len_pos: "1 \<le> compact_len v"
  using compact_len_loop_spec [of v 1] by (auto simp: compact_len_def)

lemma compact_len_le:
  assumes "unat v < 128 ^ n" and "1 \<le> n"
  shows "compact_len v \<le> n"
proof (rule ccontr)
  assume n: "\<not> compact_len v \<le> n"
  then have "(128::nat) ^ n \<le> 128 ^ (compact_len v - 1)" by (intro power_increasing) auto
  moreover have "128 ^ (compact_len v - 1) \<le> unat v"
    using n assms(2) by (intro compact_len_lower) auto
  ultimately show False using assms(1) by linarith
qed

lemma protocol_id_size_bounds: "32 \<le> protocol_id_size_bytes v \<and> protocol_id_size_bytes v \<le> 64"
  by (auto simp: protocol_id_size_bytes_def size_constants split: sum.splits)

lemma compact_inputs_size_lower: "65 * length is \<le> compact_inputs_size_bytes is"
proof (induction "is")
  case (Cons i "is")
  then show ?case
    using protocol_id_size_bounds [of "op_txid (in_outpoint i)"]
      compact_len_pos [of "ucast (op_index (in_outpoint i))"]
    by (simp add: compact_inputs_size_bytes_def address_size_bytes_def size_constants)
qed (simp add: compact_inputs_size_bytes_def)

lemma compact_len_one: "compact_len 1 = 1"
  by (simp add: compact_len_def compact_len_loop.simps word_le_nat_alt)

lemma compact_outputs_size_lower: "33 * length os \<le> compact_outputs_size_bytes os"
proof (induction os)
  case (Cons o1 os)
  then show ?case
    using compact_len_pos [of "ucast (out_amount o1)"]
    by (simp add: compact_outputs_size_bytes_def compact_output_size_bytes_def
        address_size_bytes_def size_constants)
qed (simp add: compact_outputs_size_bytes_def)

lemma transfer_size_lower:
  assumes "outs \<noteq> []"
  shows "minimum_transfer_economic_size_bytes (length ins)
    \<le> canonical_transaction_size_bytes (Transfer ins outs f sig)"
proof -
  have "33 \<le> compact_outputs_size_bytes outs"
    using assms compact_outputs_size_lower [of outs] by (cases outs) auto
  moreover have "1 \<le> compact_len (word_of_nat (length outs))" by (rule compact_len_pos)
  moreover have "1 \<le> compact_len (ucast f)" by (rule compact_len_pos)
  ultimately show ?thesis
    using compact_inputs_size_lower [of ins]
    by (simp add: minimum_transfer_economic_size_bytes_def signature_size_bytes_def
        compact_len_one size_constants)
qed

end
