(* ===== verification/Transaction_Preimage.thy ===== *)
theory Transaction_Preimage
  imports Transaction
begin

text \<open>
  Injectivity of the signing preimages of format version 1. Every encoder of
  \<^theory_text>\<open>Transaction\<close> is shown to be self-delimiting by interpreting the prefix code
  interface, and the preimage theorems follow field by field.
\<close>

section \<open>The encoders are prefix codes\<close>

lemma encode_len_eq_Inr [result_simps]:
  "encode_len n label = Inr b \<longleftrightarrow> n < 2 ^ 32 \<and> b = u32_to_be_bytes (word_of_nat n)"
  by (auto simp: encode_len_def result_simps)

lemma encode_len_length: "encode_len n label = Inr b \<Longrightarrow> length b = 4"
  by (auto simp: result_simps)

lemma encode_len_inject:
  assumes "m < 2 ^ 32" and "n < 2 ^ 32"
    and "u32_to_be_bytes (word_of_nat m) = u32_to_be_bytes (word_of_nat n)"
  shows "m = n"
proof -
  have "unat (word_of_nat m :: u32) = unat (word_of_nat n :: u32)" using assms(3) by simp
  then show ?thesis using assms(1,2) by (simp add: unat_of_nat)
qed

interpretation len_code: prefix_code "\<lambda>n. encode_len n label" for label
proof
  fix m n a b r s
  assume m: "encode_len m label = Inr a" and n: "encode_len n label = Inr b"
    and eq: "a @ r = b @ s"
  then have "length a = length b" by (simp add: encode_len_length)
  then have "a = b" and "r = s" using eq by simp_all
  moreover have "m = n"
    using m n \<open>a = b\<close> encode_len_inject [of m n] by (simp add: encode_len_eq_Inr)
  ultimately show "m = n \<and> r = s" by simp
qed

lemma encode_bytes_eq_Inr [result_simps]:
  "encode_bytes v label = Inr b \<longleftrightarrow>
     length v < 2 ^ 32 \<and> b = u32_to_be_bytes (word_of_nat (length v)) @ v"
  by (auto simp: encode_bytes_def result_simps)

interpretation bytes_code: prefix_code "\<lambda>v. encode_bytes v label" for label
proof
  fix v w a b r s
  assume "encode_bytes v label = Inr a" and "encode_bytes w label = Inr b" and "a @ r = b @ s"
  then have lens: "length v < 2 ^ 32" "length w < 2 ^ 32"
    and eq: "u32_to_be_bytes (word_of_nat (length v)) @ (v @ r) =
      u32_to_be_bytes (word_of_nat (length w)) @ (w @ s)"
    by (auto simp: result_simps)
  then have "u32_to_be_bytes (word_of_nat (length v)) = u32_to_be_bytes (word_of_nat (length w))"
    and tails: "v @ r = w @ s"
    by (simp_all add: append_eq_same_length)
  then have "length v = length w" using encode_len_inject lens by blast
  with tails show "v = w \<and> r = s" by simp
qed

lemma context_hex_array_inject:
  "with_context c1 (decode_canonical_hex_array n s) = Inr b \<Longrightarrow>
   with_context c1 (decode_canonical_hex_array n t) = Inr b \<Longrightarrow> s = t"
  by (simp add: result_simps)

lemma hex_field_code:
  "prefix_code (\<lambda>s. and_then (with_context c1 (decode_canonical_hex_array n s))
     (\<lambda>b. encode_bytes b label))"
  by (rule prefix_code_convert [OF bytes_code.prefix_code_axioms context_hex_array_inject])

lemma domain_encodeE:
  assumes "domain_encode d = Inr a"
  obtains c1 g where "chain_bound d"
    and "encode_bytes (as_bytes (chain_id d)) ''chain ID'' = Inr c1"
    and "and_then (with_context ''transaction signing genesis hash is invalid''
        (decode_canonical_hex_array HASH_BYTES (genesis_hash d)))
        (\<lambda>b. encode_bytes b ''genesis hash'') = Inr g"
    and "a = as_bytes ''IUNA-TX'' @ u16_to_be_bytes TRANSACTION_SIGNING_FORMAT_VERSION @ c1 @ g"
  using assms by (auto simp: domain_encode_def and_then_eq_Inr if_bail_eq_Inr)

interpretation domain_code: prefix_code domain_encode
proof
  fix d e :: TransactionSigningDomain and a b r s
  assume "domain_encode d = Inr a"
  then obtain dc dg where d: "chain_bound d"
      "encode_bytes (as_bytes (chain_id d)) ''chain ID'' = Inr dc"
      "and_then (with_context ''transaction signing genesis hash is invalid''
        (decode_canonical_hex_array HASH_BYTES (genesis_hash d)))
        (\<lambda>b. encode_bytes b ''genesis hash'') = Inr dg"
    and a: "a = as_bytes ''IUNA-TX'' @ u16_to_be_bytes TRANSACTION_SIGNING_FORMAT_VERSION @ dc @ dg"
    by (rule domain_encodeE)
  assume "domain_encode e = Inr b"
  then obtain ec eg where e: "chain_bound e"
      "encode_bytes (as_bytes (chain_id e)) ''chain ID'' = Inr ec"
      "and_then (with_context ''transaction signing genesis hash is invalid''
        (decode_canonical_hex_array HASH_BYTES (genesis_hash e)))
        (\<lambda>b. encode_bytes b ''genesis hash'') = Inr eg"
    and b: "b = as_bytes ''IUNA-TX'' @ u16_to_be_bytes TRANSACTION_SIGNING_FORMAT_VERSION @ ec @ eg"
    by (rule domain_encodeE)
  assume "a @ r = b @ s"
  then have tails: "dc @ (dg @ r) = ec @ (eg @ s)" by (simp add: a b)
  have "as_bytes (chain_id d) = as_bytes (chain_id e)" and rest: "dg @ r = eg @ s"
    using bytes_code.prefix [OF d(2) e(2) tails] by simp_all
  moreover have "genesis_hash d = genesis_hash e \<and> r = s"
    by (rule prefix_code.prefix [OF hex_field_code, OF d(3) e(3) rest])
  ultimately show "d = e \<and> r = s" using d(1) e(1) by simp
qed

lemma encode_inputE:
  assumes "encode_input i = Inr a"
  obtains txid t w where "op_txid (uin_outpoint i) = hex_encode txid"
    and "length txid = HASH_BYTES \<or> length txid = SIGNATURE_BYTES"
    and "encode_bytes txid ''input txid'' = Inr t"
    and "and_then (with_context ''transaction input owner is invalid''
        (decode_canonical_hex_array PUBLIC_KEY_BYTES (uin_owner i)))
        (\<lambda>b. encode_bytes b ''input owner'') = Inr w"
    and "a = t @ u32_to_be_bytes (op_index (uin_outpoint i)) @ w"
  using assms
  by (auto simp: encode_input_def and_then_eq_Inr if_bail_eq_Inr with_context_eq_Inr
      decode_canonical_hex_eq_Inr)

interpretation input_code: prefix_code encode_input
proof
  fix x y :: UnsignedTxInput and a b r s
  assume "encode_input x = Inr a"
  then obtain tx bx wx where x: "op_txid (uin_outpoint x) = hex_encode tx"
      "encode_bytes tx ''input txid'' = Inr bx"
      "and_then (with_context ''transaction input owner is invalid''
        (decode_canonical_hex_array PUBLIC_KEY_BYTES (uin_owner x)))
        (\<lambda>b. encode_bytes b ''input owner'') = Inr wx"
    and a: "a = bx @ u32_to_be_bytes (op_index (uin_outpoint x)) @ wx"
    by (rule encode_inputE)
  assume "encode_input y = Inr b"
  then obtain ty bz wy where y: "op_txid (uin_outpoint y) = hex_encode ty"
      "encode_bytes ty ''input txid'' = Inr bz"
      "and_then (with_context ''transaction input owner is invalid''
        (decode_canonical_hex_array PUBLIC_KEY_BYTES (uin_owner y)))
        (\<lambda>b. encode_bytes b ''input owner'') = Inr wy"
    and b: "b = bz @ u32_to_be_bytes (op_index (uin_outpoint y)) @ wy"
    by (rule encode_inputE)
  assume "a @ r = b @ s"
  then have tails: "bx @ (u32_to_be_bytes (op_index (uin_outpoint x)) @ wx @ r) =
      bz @ (u32_to_be_bytes (op_index (uin_outpoint y)) @ wy @ s)"
    by (simp add: a b)
  have "tx = ty" and "u32_to_be_bytes (op_index (uin_outpoint x)) @ wx @ r =
      u32_to_be_bytes (op_index (uin_outpoint y)) @ wy @ s"
    using bytes_code.prefix [OF x(2) y(2) tails] by simp_all
  then have "op_index (uin_outpoint x) = op_index (uin_outpoint y)" and "wx @ r = wy @ s"
    by (simp_all add: append_eq_same_length)
  moreover from this(2) have "uin_owner x = uin_owner y \<and> r = s"
    by (rule prefix_code.prefix [OF hex_field_code, OF x(3) y(3)])
  ultimately show "x = y \<and> r = s"
    using x(1) y(1) \<open>tx = ty\<close> by (simp add: OutPoint.expand)
qed

lemma encode_outputE:
  assumes "encode_output x = Inr a"
  obtains w where "and_then (with_context ''transaction output address is invalid''
        (decode_canonical_hex_array PUBLIC_KEY_BYTES (out_address x)))
        (\<lambda>b. encode_bytes b ''output address'') = Inr w"
    and "a = w @ u64_to_be_bytes (out_amount x)"
  using assms by (auto simp: encode_output_def and_then_eq_Inr)

interpretation output_code: prefix_code encode_output
proof
  fix x y :: TxOutput and a b r s
  assume "encode_output x = Inr a"
  then obtain ax where x: "and_then (with_context ''transaction output address is invalid''
        (decode_canonical_hex_array PUBLIC_KEY_BYTES (out_address x)))
        (\<lambda>b. encode_bytes b ''output address'') = Inr ax"
    and a: "a = ax @ u64_to_be_bytes (out_amount x)"
    by (rule encode_outputE)
  assume "encode_output y = Inr b"
  then obtain ay where y: "and_then (with_context ''transaction output address is invalid''
        (decode_canonical_hex_array PUBLIC_KEY_BYTES (out_address y)))
        (\<lambda>b. encode_bytes b ''output address'') = Inr ay"
    and b: "b = ay @ u64_to_be_bytes (out_amount y)"
    by (rule encode_outputE)
  assume "a @ r = b @ s"
  then have "ax @ (u64_to_be_bytes (out_amount x) @ r) = ay @ (u64_to_be_bytes (out_amount y) @ s)"
    by (simp add: a b)
  then have "out_address x = out_address y" and
    "u64_to_be_bytes (out_amount x) @ r = u64_to_be_bytes (out_amount y) @ s"
    using prefix_code.prefix [OF hex_field_code, OF x y] by blast+
  then show "x = y \<and> r = s" by (simp add: append_eq_same_length)
qed

text \<open>A counted list of self-delimiting items is self-delimiting.\<close>

lemma counted_code:
  assumes "prefix_code enc"
  shows "prefix_code (\<lambda>xs. and_then (encode_len (length xs) label) (\<lambda>l.
    and_then (try_map enc xs) (\<lambda>bs. Inr (l @ concat bs))))"
proof
  fix xs ys a b r s
  assume "and_then (encode_len (length xs) label) (\<lambda>l.
      and_then (try_map enc xs) (\<lambda>bs. Inr (l @ concat bs))) = Inr a"
    and "and_then (encode_len (length ys) label) (\<lambda>l.
      and_then (try_map enc ys) (\<lambda>bs. Inr (l @ concat bs))) = Inr b" and "a @ r = b @ s"
  then obtain l as m bs where l: "encode_len (length xs) label = Inr l" "try_map enc xs = Inr as"
    and m: "encode_len (length ys) label = Inr m" "try_map enc ys = Inr bs"
    and eq: "l @ (concat as @ r) = m @ (concat bs @ s)"
    by (auto simp: result_simps)
  have "length xs = length ys" and "concat as @ r = concat bs @ s"
    using len_code.prefix [OF l(1) m(1) eq] by simp_all
  then show "xs = ys \<and> r = s"
    using prefix_code.list_prefix [OF assms l(2) m(2)] by simp
qed

interpretation inputs_code: prefix_code encode_inputs
  unfolding encode_inputs_def by (rule counted_code [OF input_code.prefix_code_axioms])

interpretation outputs_code: prefix_code encode_outputs
  unfolding encode_outputs_def by (rule counted_code [OF output_code.prefix_code_axioms])

section \<open>Preimages\<close>

text \<open>
  The body that follows the domain: the type tag, the inputs, the outputs and the trailing
  fixed-width amounts and anchor.
\<close>

lemma encode_burn_anchor_inject:
  "encode_burn_anchor x = Inr a \<Longrightarrow> encode_burn_anchor y = Inr a \<Longrightarrow>
    (x = None \<longleftrightarrow> y = None) \<Longrightarrow> x = y"
  by (cases x; cases y) (auto simp: result_simps)

lemma transfer_body_inject:
  assumes "encode_inputs i = Inr a" and "encode_outputs p = Inr b"
    and "encode_inputs j = Inr c" and "encode_outputs q = Inr d"
    and "a @ b @ x = c @ d @ y"
  shows "i = j \<and> p = q \<and> x = y"
proof -
  have "i = j" and "b @ x = d @ y"
    using inputs_code.prefix [OF assms(1,3,5)] by simp_all
  then show ?thesis using outputs_code.prefix [OF assms(2,4)] by simp
qed

lemma transfer_burn_preimages_differ:
  assumes t: "unsigned_signing_bytes (UTransfer i p f) d = Inr bs"
    and b: "unsigned_signing_bytes (UBurn j q a g anc) e = Inr bs"
  shows False
proof -
  obtain dt x where dt: "domain_encode d = Inr dt" and x: "bs = dt @ (1 # x)"
    using t by (auto simp: and_then_eq_Inr)
  obtain db y where db: "domain_encode e = Inr db"
    and y: "bs = db @ ((if anc \<noteq> None then 3 else 2) # y)"
    using b by (auto simp: and_then_eq_Inr)
  define tag :: u8 where "tag = (if anc \<noteq> None then 3 else 2)"
  have "dt @ (1 # x) = db @ (tag # y)" using x y by (simp add: tag_def)
  from domain_code.prefix [OF dt db this] have "1 = tag" by simp
  then show False by (simp add: tag_def split: if_splits)
qed

lemma unsigned_preimage_inject:
  assumes u: "unsigned_signing_bytes u d = Inr bs" and v: "unsigned_signing_bytes v e = Inr bs"
  shows "u = v \<and> d = e"
proof (cases u; cases v)
  fix i p f j q g
  assume uv: "u = UTransfer i p f" "v = UTransfer j q g"
  from u v uv obtain du iu ou dv iv ov
    where enc: "domain_encode d = Inr du" "encode_inputs i = Inr iu" "encode_outputs p = Inr ou"
      "domain_encode e = Inr dv" "encode_inputs j = Inr iv" "encode_outputs q = Inr ov"
      "du @ (1 # iu @ ou @ u64_to_be_bytes f) = dv @ (1 # iv @ ov @ u64_to_be_bytes g)"
    by (auto simp: and_then_eq_Inr)
  have "d = e" and body: "iu @ ou @ u64_to_be_bytes f = iv @ ov @ u64_to_be_bytes g"
    using domain_code.prefix [OF enc(1,4,7)] by simp_all
  then show ?thesis using transfer_body_inject [OF enc(2,3,5,6) body] uv by simp
next
  fix i p f j q a g anc
  assume "u = UTransfer i p f" "v = UBurn j q a g anc"
  with u v show ?thesis using transfer_burn_preimages_differ by blast
next
  fix i p a f anc j q g
  assume "u = UBurn i p a f anc" "v = UTransfer j q g"
  with u v show ?thesis using transfer_burn_preimages_differ by blast
next
  fix i p a f anc j q b g anc'
  assume uv: "u = UBurn i p a f anc" "v = UBurn j q b g anc'"
  from u v uv obtain du iu ou xu dv iv ov xv
    where enc: "domain_encode d = Inr du" "encode_inputs i = Inr iu" "encode_outputs p = Inr ou"
      "encode_burn_anchor anc = Inr xu"
      "domain_encode e = Inr dv" "encode_inputs j = Inr iv" "encode_outputs q = Inr ov"
      "encode_burn_anchor anc' = Inr xv"
      "du @ ((if anc \<noteq> None then 3 else 2) # iu @ ou @ u64_to_be_bytes a @ u64_to_be_bytes f @ xu) =
       dv @ ((if anc' \<noteq> None then 3 else 2) # iv @ ov @ u64_to_be_bytes b @ u64_to_be_bytes g @ xv)"
    by (auto simp: result_simps)
  have "d = e" and tag: "(if anc \<noteq> None then 3 else 2 :: u8) = (if anc' \<noteq> None then 3 else 2)"
    and body: "iu @ ou @ u64_to_be_bytes a @ u64_to_be_bytes f @ xu =
      iv @ ov @ u64_to_be_bytes b @ u64_to_be_bytes g @ xv"
    using domain_code.prefix [OF enc(1,5,9)] by simp_all
  then have "i = j" "p = q" and tails: "u64_to_be_bytes a @ (u64_to_be_bytes f @ xu) =
      u64_to_be_bytes b @ (u64_to_be_bytes g @ xv)"
    using transfer_body_inject [OF enc(2,3,6,7) body] by simp_all
  then have "a = b" "f = g" "xu = xv" by (simp_all add: append_eq_same_length)
  moreover have "anc = None \<longleftrightarrow> anc' = None" using tag by (auto split: if_splits)
  ultimately show ?thesis
    using uv \<open>d = e\<close> \<open>i = j\<close> \<open>p = q\<close> enc(4,8) by (auto dest: encode_burn_anchor_inject)
qed

text \<open>
  A mine proof and an anchored burn share the tag byte 3. Their preimages still differ: the
  field after the tag is a recipient of 32 or 33 bytes in the first, and in the second the
  count of the inputs, each at least 72 bytes long, so that equal first fields force
  different lengths.
\<close>

lemma encode_input_length: "encode_input i = Inr b \<Longrightarrow> 76 \<le> length b"
  by (auto simp: encode_input_def result_simps size_constants)

lemma encode_mine_recipient_length:
  assumes "encode_mine_recipient cr recipient = Inr b"
  shows "\<exists>n \<in> {32, 33}. take 4 b = u32_to_be_bytes (word_of_nat n) \<and> length b = 4 + n"
proof (cases "decode_canonical_hex_array PUBLIC_KEY_BYTES recipient")
  case (Inr key)
  then have "encode_bytes key ''mine recipient'' = Inr b" and "length key = 32"
    using assms Inr by (simp_all add: encode_mine_recipient_def)
      (simp add: decode_canonical_hex_array_eq_Inr size_constants)
  then show ?thesis by (auto simp: encode_bytes_eq_Inr)
next
  case (Inl e)
  then obtain network a
    where "decode_versioned_address cr recipient network = Inr a"
      "encode_bytes (version_wire_id (addr_version a) # addr_payload a) ''mine recipient'' = Inr b"
    using assms by (auto simp: encode_mine_recipient_def result_simps Let_def)
  moreover from this(1) have "length (addr_payload a) = 32"
    by (rule decode_versioned_address_length)
  ultimately show ?thesis by (auto simp: result_simps)
qed

lemma concat_length_ge: "list_all2 (\<lambda>x b. n \<le> length b) xs bs \<Longrightarrow> n * length xs \<le> length (concat bs)"
  by (induction rule: list_all2_induct) auto

lemma encode_inputs_shape:
  assumes "encode_inputs ins = Inr b"
  shows "take 4 b = u32_to_be_bytes (word_of_nat (length ins))" and "length ins < 2 ^ 32"
    and "76 * length ins \<le> length b"
proof -
  obtain bs where len: "length ins < 2 ^ 32" and items: "try_map encode_input ins = Inr bs"
    and b: "b = u32_to_be_bytes (word_of_nat (length ins)) @ concat bs"
    using assms by (auto simp: encode_inputs_def result_simps)
  have "list_all2 (\<lambda>x b. 76 \<le> length b) ins bs"
    using items by (auto simp: try_map_eq_Inr elim!: list_all2_mono dest: encode_input_length)
  then have "76 * length ins \<le> length (concat bs)" by (rule concat_length_ge)
  with b show "76 * length ins \<le> length b" by simp
  from len show "length ins < 2 ^ 32" .
  from b show "take 4 b = u32_to_be_bytes (word_of_nat (length ins))" by simp
qed

lemma mine_burn_preimages_differ:
  assumes burn: "unsigned_signing_bytes (UBurn ins change a f anchor) d = Inr bs"
    and mine: "mine_signing_bytes cr e recipient anc salt nonce bits = Inr bs"
  shows False
proof -
  from burn mine obtain db iu ou xu dm r am
    where enc: "domain_encode d = Inr db" "encode_inputs ins = Inr iu" "domain_encode e = Inr dm"
      "encode_mine_recipient cr recipient = Inr r"
      "length am = 36"
      "db @ ((if anchor \<noteq> None then 3 else 2) # iu @ ou @ u64_to_be_bytes a @ u64_to_be_bytes f @ xu) =
       dm @ (3 # r @ am @ u64_to_be_bytes salt @ u64_to_be_bytes nonce @ u32_to_be_bytes bits)"
  proof -
    obtain db iu ou xu where "domain_encode d = Inr db" "encode_inputs ins = Inr iu"
      and b: "bs = db @ ((if anchor \<noteq> None then 3 else 2) # iu @ ou @ u64_to_be_bytes a @
        u64_to_be_bytes f @ xu)"
      using burn by (auto simp: and_then_eq_Inr)
    moreover obtain dm r ab am where "domain_encode e = Inr dm"
      "encode_mine_recipient cr recipient = Inr r"
      "decode_canonical_hex_array HASH_BYTES anc = Inr ab" "encode_bytes ab ''mine anchor'' = Inr am"
      and m: "bs = dm @ (3 # r @ am @ u64_to_be_bytes salt @ u64_to_be_bytes nonce @ u32_to_be_bytes bits)"
      using mine by (auto simp: mine_signing_bytes_def and_then_eq_Inr with_context_eq_Inr)
    moreover from this have "length am = 36"
      by (auto simp: encode_bytes_eq_Inr decode_canonical_hex_array_eq_Inr size_constants)
    ultimately show thesis using that by metis
  qed
  have eq: "iu @ ou @ u64_to_be_bytes a @ u64_to_be_bytes f @ xu =
      r @ am @ u64_to_be_bytes salt @ u64_to_be_bytes nonce @ u32_to_be_bytes bits"
    using domain_code.prefix [OF enc(1,3,6)] by simp
  obtain n where n: "n \<in> {32, 33}" "take 4 r = u32_to_be_bytes (word_of_nat n)" "length r = 4 + n"
    using encode_mine_recipient_length [OF enc(4)] by blast
  have "take 4 iu = take 4 r"
    using arg_cong [OF eq, of "take 4"] encode_inputs_shape [OF enc(2)] n(3)
    by (auto simp: enc(2) dest: arg_cong [of _ _ length])
  then have "length ins = n"
    using encode_inputs_shape [OF enc(2)] n(1,2) encode_len_inject [of "length ins" n] by auto
  then have "76 * 32 \<le> length iu" using encode_inputs_shape(3) [OF enc(2)] n(1) by auto
  moreover have "length iu \<le> length r + 36 + 20"
    using arg_cong [OF eq, of length] enc(5) by simp
  ultimately show False using n by auto
qed

end
