(* ===== verification/Mining.thy ===== *)
theory Mining
  imports Validation Transaction_Preimage
begin

text \<open>
  Proof of work for mine transactions: the Stratum header (\<open>src/domain/stratum.rs\<close>), the
  nonce search (\<open>src/domain/mining.rs\<close>), the difficulty test, and the verification of every
  kind of transaction signature (\<open>Transaction::verify_signature\<close>).
\<close>

unbundle bit_operations_syntax

section \<open>Stratum headers\<close>

definition STRATUM_MINE_VERSION :: bytes where "STRATUM_MINE_VERSION = [1, 0, 0, 0]"
definition STRATUM_MINE_NTIME :: bytes where "STRATUM_MINE_NTIME = [0, 0, 0, 0]"

record StratumMineTemplate =
  tpl_recipient :: string
  tpl_anchor :: string
  tpl_salt :: u64
  tpl_difficulty_bits :: u32
  tpl_coinbase_prefix :: bytes
  tpl_version_hex :: string
  tpl_prev_hash_hex :: string
  tpl_nbits_hex :: string
  tpl_ntime_hex :: string

definition coinb1_hex :: "StratumMineTemplate \<Rightarrow> string" where
  "coinb1_hex t = hex_encode (tpl_coinbase_prefix t)"

definition pack_stratum_nonce :: "bytes \<Rightarrow> bytes \<Rightarrow> u64" where
  "pack_stratum_nonce extranonce2 header_nonce =
     push_bit 32 (ucast (u32_from_be_bytes extranonce2)) OR ucast (u32_from_le_bytes header_nonce)"

definition unpack_stratum_nonce :: "u64 \<Rightarrow> bytes \<times> bytes" where
  "unpack_stratum_nonce nonce =
     (u32_to_be_bytes (ucast (drop_bit 32 nonce)), u32_to_le_bytes (ucast nonce))"

definition stratum_coinbase_prefix ::
  "crypto \<Rightarrow> TransactionSigningDomain \<Rightarrow> string \<Rightarrow> string \<Rightarrow> u64 \<Rightarrow> u32 \<Rightarrow> bytes result" where
  "stratum_coinbase_prefix cr d recipient anchor salt bits =
     (if chain_bound d then mine_signing_bytes cr d recipient anchor salt 0 bits
      else Inr (as_bytes (''iuna-stratum-mine:'' @ recipient @ '':'' @ anchor @ '':'' @
             dec (unat salt) @ '':'' @ dec (unat bits) @ '':'')))"

definition stratum_coinbase_bytes ::
  "crypto \<Rightarrow> TransactionSigningDomain \<Rightarrow> string \<Rightarrow> string \<Rightarrow> u64 \<Rightarrow> u64 \<Rightarrow> u32 \<Rightarrow> bytes result" where
  "stratum_coinbase_bytes cr d recipient anchor salt nonce bits =
     (let (extranonce2, _) = unpack_stratum_nonce nonce in
      and_then (stratum_coinbase_prefix cr d recipient anchor salt bits) (\<lambda>prefix.
        Inr (prefix @ [0, 0, 0, 0] @ extranonce2)))"

definition double_sha256 :: "crypto \<Rightarrow> bytes \<Rightarrow> bytes" where
  "double_sha256 cr bs = sha256 cr (sha256 cr bs)"

definition anchor_bytes_for :: "TransactionSigningDomain \<Rightarrow> string \<Rightarrow> bytes result" where
  "anchor_bytes_for d anchor =
     with_context ''mine transaction anchor is not hex''
       (if chain_bound d then decode_canonical_hex_array HASH_BYTES anchor
        else decode_hex_array HASH_BYTES anchor)"

text \<open>
  The five slices of the 80 byte header are disjoint and cover it, so the header is their
  concatenation.
\<close>

definition stratum_mine_header_bytes ::
  "crypto \<Rightarrow> TransactionSigningDomain \<Rightarrow> string \<Rightarrow> string \<Rightarrow> u64 \<Rightarrow> u64 \<Rightarrow> u32 \<Rightarrow> bytes result" where
  "stratum_mine_header_bytes cr d recipient anchor salt nonce bits =
     and_then (anchor_bytes_for d anchor) (\<lambda>anchor_bytes.
     and_then (stratum_coinbase_bytes cr d recipient anchor salt nonce bits) (\<lambda>coinbase.
     let merkle_root = double_sha256 cr coinbase;
         (_, header_nonce) = unpack_stratum_nonce nonce in
     Inr (STRATUM_MINE_VERSION @ anchor_bytes @ merkle_root @ STRATUM_MINE_NTIME @
          u32_to_le_bytes bits @ header_nonce)))"

definition stratum_mine_signature :: "crypto \<Rightarrow> bytes \<Rightarrow> string" where
  "stratum_mine_signature cr header = hex_encode (rev (double_sha256 cr header))"

definition stratum_mine_template ::
  "crypto \<Rightarrow> TransactionSigningDomain \<Rightarrow> string \<Rightarrow> string \<Rightarrow> u64 \<Rightarrow> u32 \<Rightarrow> StratumMineTemplate result" where
  "stratum_mine_template cr d recipient anchor salt bits =
     and_then
       (if is_ok (validate_address recipient ''mine recipient'') then Inr ()
        else
          (let network = (if starts_with recipient ''tiuna1'' then Testnet else Mainnet) in
           and_then (with_context ''mine recipient is invalid''
             (decode_versioned_address cr recipient network)) (\<lambda>decoded.
           if addr_version decoded \<noteq> HybridKeyCommitment
           then bail ''mine recipient must use a legacy or hybrid address'' else Inr ()))) (\<lambda>_.
     and_then (validate_hash anchor ''mine transaction anchor'') (\<lambda>_.
     and_then (anchor_bytes_for d anchor) (\<lambda>anchor_bytes.
     and_then (stratum_coinbase_prefix cr d recipient anchor salt bits) (\<lambda>prefix.
     Inr \<lparr>tpl_recipient = recipient, tpl_anchor = anchor, tpl_salt = salt,
          tpl_difficulty_bits = bits, tpl_coinbase_prefix = prefix,
          tpl_version_hex = hex_encode STRATUM_MINE_VERSION,
          tpl_prev_hash_hex = hex_encode anchor_bytes,
          tpl_nbits_hex = hex_encode (u32_to_le_bytes bits),
          tpl_ntime_hex = hex_encode STRATUM_MINE_NTIME\<rparr>))))"

section \<open>Difficulty\<close>

definition to_digit16 :: "char \<Rightarrow> nat option" where
  "to_digit16 c =
     (let n = of_char c :: nat in
      if 48 \<le> n \<and> n \<le> 57 then Some (n - 48)
      else if 97 \<le> n \<and> n \<le> 102 then Some (n - 87)
      else if 65 \<le> n \<and> n \<le> 70 then Some (n - 55)
      else None)"

definition hash_meets_difficulty :: "string \<Rightarrow> u32 \<Rightarrow> bool" where
  "hash_meets_difficulty hash difficulty_bits =
     (let full_zero_nibbles = unat (difficulty_bits div 4);
          remaining_bits = unat (difficulty_bits mod 4) in
      if length hash < full_zero_nibbles + (if 0 < remaining_bits then 1 else 0) then False
      else if \<not> list_all (\<lambda>c. c = CHR ''0'') (take full_zero_nibbles hash) then False
      else if remaining_bits = 0 then True
      else
        (if full_zero_nibbles < length hash
         then (case to_digit16 (hash ! full_zero_nibbles) of
                 None \<Rightarrow> False
               | Some v \<Rightarrow> v < 2 ^ (4 - remaining_bits))
         else False))"

section \<open>The nonce search\<close>

record MineSearchOutcome =
  mso_transaction :: "Transaction option"
  mso_next_nonce :: u64
  mso_attempts :: u64

record MineSearchWork =
  work_recipient :: string
  work_anchor :: string
  work_salt :: u64
  work_start_nonce :: u64
  work_max_attempts :: u64
  work_difficulty_bits :: u32
  work_signing_domain :: TransactionSigningDomain

definition mine_signature ::
  "crypto \<Rightarrow> TransactionSigningDomain \<Rightarrow> string \<Rightarrow> string \<Rightarrow> u64 \<Rightarrow> u64 \<Rightarrow> u32 \<Rightarrow> string result" where
  "mine_signature cr d recipient anchor salt nonce bits =
     (if chain_bound d
      then and_then (mine_signing_bytes cr d recipient anchor salt nonce bits)
        (\<lambda>bs. Inr (hex_hash_bytes cr bs))
      else Inr (hex_hash cr (mine_payload recipient anchor salt nonce bits)))"

lemma saturating_succ_less:
  assumes "a < (m :: 'a::len word)"
  shows "unat (saturating_add a 1) = unat a + 1"
proof -
  have "unat a < unat m" using assms by (simp add: word_less_nat_alt)
  then have "unat a + 1 \<le> 2 ^ LENGTH('a) - 1" using unat_less_power [of m] by linarith
  then show ?thesis by (simp add: arith_simps)
qed

function search_loop :: "crypto \<Rightarrow> MineSearchWork \<Rightarrow> u64 \<Rightarrow> u64 \<Rightarrow> MineSearchOutcome result" where
  "search_loop cr w attempts nonce =
     (if attempts < work_max_attempts w then
        and_then (mine_signature cr (work_signing_domain w) (work_recipient w) (work_anchor w)
          (work_salt w) nonce (work_difficulty_bits w)) (\<lambda>signature.
        let attempts' = saturating_add attempts 1;
            next_nonce = (case checked_add nonce 1 of Some n \<Rightarrow> n | None \<Rightarrow> 0) in
        if hash_meets_difficulty signature (work_difficulty_bits w)
        then Inr \<lparr>mso_transaction = Some (Mine (work_recipient w) (work_anchor w) (work_salt w)
                     nonce (work_difficulty_bits w) None signature),
                  mso_next_nonce = next_nonce, mso_attempts = attempts'\<rparr>
        else search_loop cr w attempts' next_nonce)
      else Inr \<lparr>mso_transaction = None, mso_next_nonce = nonce, mso_attempts = attempts\<rparr>)"
  by pat_completeness auto

termination
proof (relation "measure (\<lambda>(cr, w, attempts, nonce). unat (work_max_attempts w) - unat attempts)",
    goal_cases)
  case (2 cr w attempts nonce x xa xb)
  then show ?case
    using saturating_succ_less [of attempts "work_max_attempts w"]
    by (simp add: word_less_nat_alt)
qed simp

declare search_loop.simps [simp del]

definition search :: "crypto \<Rightarrow> MineSearchWork \<Rightarrow> MineSearchOutcome result" where
  "search cr w = search_loop cr w 0 (work_start_nonce w)"

section \<open>Signature verification\<close>

definition inputs_are_genesis_signed :: "Transaction \<Rightarrow> bool" where
  "inputs_are_genesis_signed tx = list_all (\<lambda>i. in_signature i = ''genesis'') (inputs tx)"

definition verify_mine_proof ::
  "crypto \<Rightarrow> TransactionSigningDomain \<Rightarrow> string \<Rightarrow> string \<Rightarrow> u64 \<Rightarrow> u64 \<Rightarrow> u32 \<Rightarrow>
     string option \<Rightarrow> string \<Rightarrow> unit result" where
  "verify_mine_proof cr d recipient anchor salt nonce bits proof_header sig =
     and_then
       (case proof_header of
          Some header_hex \<Rightarrow>
            and_then (stratum_mine_header_bytes cr d recipient anchor salt nonce bits) (\<lambda>header.
            if header_hex \<noteq> hex_encode header
            then bail ''mine transaction proof header is invalid''
            else Inr (stratum_mine_signature cr header))
        | None \<Rightarrow> mine_signature cr d recipient anchor salt nonce bits) (\<lambda>expected.
     if sig \<noteq> expected then bail ''mine transaction proof hash is invalid''
     else if \<not> hash_meets_difficulty sig bits
     then bail ''mine transaction proof does not meet difficulty''
     else Inr ())"

definition verify_spend_signature ::
  "crypto \<Rightarrow> Transaction \<Rightarrow> TransactionSigningDomain \<Rightarrow> unit result" where
  "verify_spend_signature cr tx d =
     (if starts_with (tx_signature tx) ''iuna-genesis-burn:'' \<or> inputs_are_genesis_signed tx
      then Inr ()
      else if \<not> list_all (\<lambda>i. in_signature i = tx_signature tx) (inputs tx)
      then bail ''transaction input signature does not match transaction signature''
      else
        and_then (with_context (''invalid public key for '' @ sender tx)
          (if chain_bound d then decode_canonical_hex_array PUBLIC_KEY_BYTES (sender tx)
           else decode_hex_array PUBLIC_KEY_BYTES (sender tx))) (\<lambda>public_key.
        and_then (with_context ''invalid signature hex''
          (if chain_bound d then decode_canonical_hex_array SIGNATURE_BYTES (tx_signature tx)
           else decode_hex_array SIGNATURE_BYTES (tx_signature tx))) (\<lambda>sig.
        and_then (if chain_bound d then tx_signing_bytes tx d
                  else Inr (as_bytes (signing_payload tx))) (\<lambda>payload.
        verify_ed25519 cr public_key payload sig ''transaction''))))"

fun verify_signature :: "crypto \<Rightarrow> Transaction \<Rightarrow> TransactionSigningDomain \<Rightarrow> unit result" where
  "verify_signature cr (Mine recipient anchor salt nonce bits proof_header sig) d =
     verify_mine_proof cr d recipient anchor salt nonce bits proof_header sig"
| "verify_signature cr (Transfer ins outs f sig) d =
     verify_spend_signature cr (Transfer ins outs f sig) d"
| "verify_signature cr (Burn ins change a f anchor sig) d =
     verify_spend_signature cr (Burn ins change a f anchor sig) d"

end
