(* ===== verification/Reveal.thy ===== *)
theory Reveal
  imports Mining
begin

text \<open>
  Burn bundles and the burn section of a block (\<open>src/domain/reveal.rs\<close>): a committee member
  signs a bundle of burns for a slot, and a block carries the union of the bundles as burns
  tagged with a bit mask of the slots that attested them.
\<close>

unbundle bit_operations_syntax

section \<open>Data\<close>

record BurnBundle =
  bb_height :: u64
  bb_prev_hash :: string
  bb_slot :: u8
  bb_member :: string
  bb_reward_address :: "string option"
  bb_burns :: "Transaction list"
  bb_burns_v2 :: "string list"
  bb_signature :: string

record BurnBundleSignature =
  bs_slot :: u8
  bs_member :: string
  bs_reward_address :: "string option"
  bs_signature :: string

record MaskedBurn =
  mb_burn :: Transaction
  mb_mask :: u8

record MaskedBurnV2 =
  mb2_envelope :: string
  mb2_mask :: u8

record BurnBundleSection =
  sec_signatures :: "BurnBundleSignature list"
  sec_burns :: "MaskedBurn list"
  sec_burns_v2 :: "MaskedBurnV2 list"

record BurnBundlePayload =
  bp_height :: u64
  bp_prev_hash :: string
  bp_slot :: u8
  bp_member :: string
  bp_reward_address :: "string option"
  bp_burns :: "Transaction list"
  bp_burns_v2 :: "string list"

record BurnCommitteeMember =
  cm_slot :: u8
  cm_root :: string
  cm_owner :: string
  cm_weight :: Amount

definition section_default :: BurnBundleSection where
  "section_default = \<lparr>sec_signatures = [], sec_burns = [], sec_burns_v2 = []\<rparr>"

abbreviation show_u64 :: "u64 \<Rightarrow> string" where "show_u64 n \<equiv> dec (unat n)"
abbreviation show_u32 :: "u32 \<Rightarrow> string" where "show_u32 n \<equiv> dec (unat n)"
abbreviation show_u8 :: "u8 \<Rightarrow> string" where "show_u8 n \<equiv> dec (unat n)"

section \<open>Canonical text and hashes\<close>

definition payload_canonical :: "BurnBundlePayload \<Rightarrow> string" where
  "payload_canonical p =
     (let burns = join ''|'' (map canonical (bp_burns p));
          burns_v2 = join ''|'' (bp_burns_v2 p) in
      if burns_v2 \<noteq> [] then
        ''iuna-burn-bundle-v3:'' @ show_u64 (bp_height p) @ '':'' @ bp_prev_hash p @ '':'' @
        show_u8 (bp_slot p) @ '':'' @ bp_member p @ '':'' @
        (case bp_reward_address p of None \<Rightarrow> [] | Some a \<Rightarrow> a) @ '':'' @ burns @ '':'' @ burns_v2
      else
        (case bp_reward_address p of
           Some address \<Rightarrow>
             ''iuna-burn-bundle-v2:'' @ show_u64 (bp_height p) @ '':'' @ bp_prev_hash p @ '':'' @
             show_u8 (bp_slot p) @ '':'' @ bp_member p @ '':'' @ address @ '':'' @ burns
         | None \<Rightarrow>
             ''iuna-burn-bundle-v1:'' @ show_u64 (bp_height p) @ '':'' @ bp_prev_hash p @ '':'' @
             show_u8 (bp_slot p) @ '':'' @ bp_member p @ '':'' @ burns))"

definition bundle_canonical_payload :: "BurnBundle \<Rightarrow> string" where
  "bundle_canonical_payload b =
     payload_canonical \<lparr>bp_height = bb_height b, bp_prev_hash = bb_prev_hash b, bp_slot = bb_slot b,
       bp_member = bb_member b, bp_reward_address = bb_reward_address b, bp_burns = bb_burns b,
       bp_burns_v2 = bb_burns_v2 b\<rparr>"

definition bundle_canonical :: "BurnBundle \<Rightarrow> string" where
  "bundle_canonical b = bundle_canonical_payload b @ '':'' @ bb_signature b"

definition bundle_hash :: "crypto \<Rightarrow> BurnBundle \<Rightarrow> string" where
  "bundle_hash cr b = hex_hash cr (bundle_canonical b)"

definition section_is_empty :: "BurnBundleSection \<Rightarrow> bool" where
  "section_is_empty s \<longleftrightarrow> sec_signatures s = [] \<and> sec_burns s = [] \<and> sec_burns_v2 s = []"

definition section_required_burns :: "BurnBundleSection \<Rightarrow> Transaction list" where
  "section_required_burns s = map mb_burn (sec_burns s)"

definition section_required_burns_v2 :: "BurnBundleSection \<Rightarrow> string list" where
  "section_required_burns_v2 s = map mb2_envelope (sec_burns_v2 s)"

definition included_bundle_count :: "BurnBundleSection \<Rightarrow> nat" where
  "included_bundle_count s = length (sec_signatures s)"

definition burn_bundle_slot_mask :: "u8 \<Rightarrow> u8 result" where
  "burn_bundle_slot_mask slot =
     (if BURN_COMMITTEE_SIZE \<le> unat slot \<or> 8 \<le> slot then bail ''burn bundle slot is invalid''
      else Inr (push_bit (unat slot) 1))"

definition slot_mask_or_zero :: "u8 \<Rightarrow> u8" where
  "slot_mask_or_zero slot = (case burn_bundle_slot_mask slot of Inr m \<Rightarrow> m | Inl _ \<Rightarrow> 0)"

definition burn_committee_mask :: u8 where
  "burn_committee_mask = foldl (\<lambda>m slot. m OR push_bit slot 1) 0 [0..<BURN_COMMITTEE_SIZE]"

definition section_expand :: "BurnBundleSection \<Rightarrow> u64 \<Rightarrow> string \<Rightarrow> BurnBundle list" where
  "section_expand s height prev_hash =
     map (\<lambda>signature.
       let slot_mask = slot_mask_or_zero (bs_slot signature) in
       \<lparr>bb_height = height, bb_prev_hash = prev_hash, bb_slot = bs_slot signature,
        bb_member = bs_member signature, bb_reward_address = bs_reward_address signature,
        bb_burns = map mb_burn (filter (\<lambda>m. mb_mask m AND slot_mask \<noteq> 0) (sec_burns s)),
        bb_burns_v2 = map mb2_envelope (filter (\<lambda>m. mb2_mask m AND slot_mask \<noteq> 0) (sec_burns_v2 s)),
        bb_signature = bs_signature signature\<rparr>) (sec_signatures s)"

definition default_burn_bundle_hash :: "crypto \<Rightarrow> nat \<Rightarrow> string" where
  "default_burn_bundle_hash cr slot = hex_hash cr (''iuna-default-burn-bundle-v1:'' @ dec slot)"

definition burn_bundle_hashes :: "crypto \<Rightarrow> BurnBundle list \<Rightarrow> string list" where
  "burn_bundle_hashes cr bundles =
     map (\<lambda>slot. case find (\<lambda>b. unat (bb_slot b) = slot) bundles of
                   Some b \<Rightarrow> bundle_hash cr b
                 | None \<Rightarrow> default_burn_bundle_hash cr slot) [0..<BURN_COMMITTEE_SIZE]"

definition show_masked_v2 :: "MaskedBurnV2 \<Rightarrow> string" where
  "show_masked_v2 m = show_u8 (mb2_mask m) @ '':'' @ mb2_envelope m"

definition finalizer_attestation_hash ::
  "crypto \<Rightarrow> u64 \<Rightarrow> string \<Rightarrow> string \<Rightarrow> MaskedBurn list \<Rightarrow> MaskedBurnV2 list \<Rightarrow> string" where
  "finalizer_attestation_hash cr height prev_hash finalizer burns burns_v2 =
     (let canonical_burns = join ''|'' (map (\<lambda>m. canonical (mb_burn m)) burns);
          canonical_burns_v2 = join ''|'' (map show_masked_v2 burns_v2) in
      if canonical_burns_v2 = [] then
        hex_hash cr (''iuna-finalizer-burn-attestation-v1:'' @ show_u64 height @ '':'' @ prev_hash @
          '':'' @ finalizer @ '':'' @ canonical_burns)
      else
        hex_hash cr (''iuna-finalizer-burn-attestation-v2:'' @ show_u64 height @ '':'' @ prev_hash @
          '':'' @ finalizer @ '':'' @ canonical_burns @ '':'' @ canonical_burns_v2))"

definition section_bundle_hashes ::
  "crypto \<Rightarrow> BurnBundleSection \<Rightarrow> u64 \<Rightarrow> string \<Rightarrow> string \<Rightarrow> string list" where
  "section_bundle_hashes cr s height prev_hash finalizer =
     (burn_bundle_hashes cr (section_expand s height prev_hash))
       [0 := finalizer_attestation_hash cr height prev_hash finalizer (sec_burns s) (sec_burns_v2 s)]"

definition show_signature :: "BurnBundleSignature \<Rightarrow> string" where
  "show_signature s =
     (case bs_reward_address s of
        Some address \<Rightarrow> show_u8 (bs_slot s) @ '':'' @ bs_member s @ '':'' @ address @ '':'' @ bs_signature s
      | None \<Rightarrow> show_u8 (bs_slot s) @ '':'' @ bs_member s @ '':'' @ bs_signature s)"

definition section_canonical :: "BurnBundleSection \<Rightarrow> string" where
  "section_canonical s =
     (let signatures = join ''|'' (map show_signature (sec_signatures s));
          burns = join ''|'' (map (\<lambda>m. show_u8 (mb_mask m) @ '':'' @ canonical (mb_burn m)) (sec_burns s));
          burns_v2 = join ''|'' (map show_masked_v2 (sec_burns_v2 s)) in
      if burns_v2 = [] then ''burn-bundle-section-v1:'' @ signatures @ '':burns:'' @ burns
      else ''burn-bundle-section-v2:'' @ signatures @ '':burns:'' @ burns @ '':burns-v2:'' @ burns_v2)"

definition canonical_burn_bundle_hashes :: "string list \<Rightarrow> string" where
  "canonical_burn_bundle_hashes hashes = join ''|'' hashes"

section \<open>Facts\<close>

lemma length_burn_bundle_hashes [simp]:
  "length (burn_bundle_hashes cr bundles) = BURN_COMMITTEE_SIZE"
  "length (section_bundle_hashes cr s height prev_hash finalizer) = BURN_COMMITTEE_SIZE"
  by (simp_all add: burn_bundle_hashes_def section_bundle_hashes_def)

lemma length_section_expand [simp]: "length (section_expand s h p) = length (sec_signatures s)"
  by (simp add: section_expand_def)

text \<open>The mask of a slot has exactly the bit of that slot.\<close>

lemma slot_mask_eq_Inr:
  "burn_bundle_slot_mask slot = Inr m \<longleftrightarrow> unat slot < BURN_COMMITTEE_SIZE \<and> m = push_bit (unat slot) 1"
proof -
  have "unat slot < 5 \<Longrightarrow> \<not> 8 \<le> slot" by (simp add: word_le_nat_alt)
  then show ?thesis
    by (auto simp: burn_bundle_slot_mask_def BURN_COMMITTEE_SIZE_def not_le)
qed

lemma masked_iff_bit:
  fixes m :: u8
  assumes "n < 8"
  shows "m AND push_bit n 1 \<noteq> 0 \<longleftrightarrow> bit m n"
proof
  assume "m AND push_bit n 1 \<noteq> 0"
  then obtain i where "bit (m AND push_bit n 1) i" by (auto simp: bit_eq_iff)
  then show "bit m n" by (auto simp: bit_simps)
next
  assume "bit m n"
  then have "bit (m AND push_bit n 1) n" using assms by (simp add: bit_simps)
  then show "m AND push_bit n 1 \<noteq> 0" by auto
qed

lemma expand_burn_iff:
  assumes "sig \<in> set (sec_signatures s)" and "unat (bs_slot sig) < BURN_COMMITTEE_SIZE"
    and "bundle \<in> set (section_expand s h p)" and "bb_slot bundle = bs_slot sig"
  shows "tx \<in> set (bb_burns bundle) \<longleftrightarrow>
    (\<exists>m\<in>set (sec_burns s). mb_burn m = tx \<and> bit (mb_mask m) (unat (bs_slot sig)))"
proof -
  have "burn_bundle_slot_mask (bs_slot sig) = Inr (push_bit (unat (bs_slot sig)) 1)"
    using assms(2) by (simp add: slot_mask_eq_Inr)
  then have "slot_mask_or_zero (bs_slot sig) = push_bit (unat (bs_slot sig)) 1"
    by (simp add: slot_mask_or_zero_def)
  moreover have "unat (bs_slot sig) < 8" using assms(2) by (simp add: BURN_COMMITTEE_SIZE_def)
  ultimately show ?thesis
    using assms(3,4) by (auto simp: section_expand_def masked_iff_bit [simplified] Let_def)
qed

end
