(* ===== verification/BTree_Map.thy ===== *)
theory BTree_Map
  imports Prelude
begin

text \<open>
  Rust's \<open>BTreeMap<K, V>\<close>: a finite map that is iterated in key order. A value of the type
  is the strictly increasing list of its entries, so two maps with the same lookups are
  equal, iteration order is the key order, and every operation computes. The last section
  states what a client that accounts for the entries' weights relies on, as a locale.
\<close>

section \<open>Sorted entry lists\<close>

definition strict_keys :: "('k::linorder \<times> 'v) list \<Rightarrow> bool" where
  "strict_keys xs \<longleftrightarrow> sorted_wrt (<) (map fst xs)"

fun entry_put :: "'k::linorder \<Rightarrow> 'v \<Rightarrow> ('k \<times> 'v) list \<Rightarrow> ('k \<times> 'v) list" where
  "entry_put k v [] = [(k, v)]"
| "entry_put k v (e # es) =
     (if k < fst e then (k, v) # e # es
      else if fst e < k then e # entry_put k v es
      else (k, v) # es)"

definition entry_drop :: "'k \<Rightarrow> ('k \<times> 'v) list \<Rightarrow> ('k \<times> 'v) list" where
  "entry_drop k es = filter (\<lambda>e. fst e \<noteq> k) es"

lemma strict_keys_Nil [simp]: "strict_keys []"
  by (simp add: strict_keys_def)

lemma strict_keys_Cons [simp]:
  "strict_keys (e # es) \<longleftrightarrow> (\<forall>e'\<in>set es. fst e < fst e') \<and> strict_keys es"
  by (auto simp: strict_keys_def)

lemma set_entry_put: "set (entry_put k v es) \<subseteq> insert (k, v) (set es)"
  by (induction es) auto

lemma strict_keys_entry_put: "strict_keys es \<Longrightarrow> strict_keys (entry_put k v es)"
proof (induction es)
  case (Cons e es)
  then show ?case using set_entry_put [of k v es] by fastforce
qed simp

lemma strict_keys_entry_drop: "strict_keys es \<Longrightarrow> strict_keys (entry_drop k es)"
  by (induction es) (auto simp: entry_drop_def)

lemma map_of_entry_put: "strict_keys es \<Longrightarrow> map_of (entry_put k v es) = (map_of es)(k \<mapsto> v)"
  by (induction es) (auto simp: fun_eq_iff)

lemma map_of_entry_drop: "map_of (entry_drop k es) = (map_of es)(k := None)"
  by (induction es) (auto simp: entry_drop_def fun_eq_iff)

lemma strict_keys_distinct: "strict_keys es \<Longrightarrow> distinct (map fst es)"
  by (auto simp: strict_keys_def strict_sorted_iff)

lemma entries_from_keys:
  "distinct (map fst es) \<Longrightarrow> map (\<lambda>k. (k, the (map_of es k))) (map fst es) = es"
proof (rule nth_equalityI)
  fix i
  assume "distinct (map fst es)" and "i < length (map (\<lambda>k. (k, the (map_of es k))) (map fst es))"
  then have "i < length es" and "map_of es (fst (es ! i)) = Some (snd (es ! i))"
    by (auto simp: map_of_eq_Some_iff)
  then show "map (\<lambda>k. (k, the (map_of es k))) (map fst es) ! i = es ! i"
    by simp
qed simp

lemma entries_ext:
  assumes "strict_keys xs" and "strict_keys ys" and "map_of xs = map_of ys"
  shows "xs = ys"
proof -
  have "set (map fst xs) = set (map fst ys)"
    using assms(3) by (metis dom_map_of_conv_image_fst list.set_map)
  then have "map fst xs = map fst ys"
    using assms(1,2) by (auto simp: strict_keys_def intro: strict_sorted_equal)
  then show ?thesis
    using assms entries_from_keys strict_keys_distinct by metis
qed

section \<open>The map type\<close>

typedef (overloaded) ('k::linorder, 'v) btree_map =
  "{es :: ('k \<times> 'v) list. strict_keys es}"
  morphisms bt_entries Abs_btree_map
  by (rule exI [of _ "[]"]) simp

setup_lifting type_definition_btree_map

lift_definition bt_empty :: "('k::linorder, 'v) btree_map" is "[]"
  by simp

lift_definition bt_get :: "('k::linorder, 'v) btree_map \<Rightarrow> 'k \<Rightarrow> 'v option" is map_of .

lift_definition bt_insert :: "'k::linorder \<Rightarrow> 'v \<Rightarrow> ('k, 'v) btree_map \<Rightarrow> ('k, 'v) btree_map"
  is entry_put
  by (rule strict_keys_entry_put)

lift_definition bt_remove :: "'k::linorder \<Rightarrow> ('k, 'v) btree_map \<Rightarrow> ('k, 'v) btree_map"
  is entry_drop
  by (rule strict_keys_entry_drop)

text \<open>Keys are compared by their order, as the tree does.\<close>

instantiation btree_map :: (linorder, equal) equal
begin

definition equal_btree_map :: "('a, 'b) btree_map \<Rightarrow> ('a, 'b) btree_map \<Rightarrow> bool" where
  "equal_btree_map m m' \<longleftrightarrow>
     list_all2 (\<lambda>(k, v) (k', v'). k \<le> k' \<and> k' \<le> k \<and> v = v') (bt_entries m) (bt_entries m')"

instance
proof
  fix m m' :: "('a, 'b) btree_map"
  have "(\<lambda>(k :: 'a, v :: 'b) (k', v'). k \<le> k' \<and> k' \<le> k \<and> v = v') = (=)"
    by (auto simp: fun_eq_iff)
  then show "equal_class.equal m m' \<longleftrightarrow> m = m'"
    by (simp add: equal_btree_map_def list.rel_eq bt_entries_inject)
qed

end

definition bt_contains_key :: "('k::linorder, 'v) btree_map \<Rightarrow> 'k \<Rightarrow> bool" where
  "bt_contains_key m k \<longleftrightarrow> bt_get m k \<noteq> None"

definition bt_keys :: "('k::linorder, 'v) btree_map \<Rightarrow> 'k list" where
  "bt_keys m = map fst (bt_entries m)"

definition bt_values :: "('k::linorder, 'v) btree_map \<Rightarrow> 'v list" where
  "bt_values m = map snd (bt_entries m)"

definition bt_is_empty :: "('k::linorder, 'v) btree_map \<Rightarrow> bool" where
  "bt_is_empty m \<longleftrightarrow> bt_entries m = []"

text \<open>\<open>collect::<BTreeMap<_, _>>\<close>: later entries replace earlier ones.\<close>

definition bt_of_list :: "('k::linorder \<times> 'v) list \<Rightarrow> ('k, 'v) btree_map" where
  "bt_of_list es = foldl (\<lambda>m e. bt_insert (fst e) (snd e) m) bt_empty es"

definition bt_sum :: "('k \<Rightarrow> 'v \<Rightarrow> nat) \<Rightarrow> ('k::linorder, 'v) btree_map \<Rightarrow> nat" where
  "bt_sum w m = sum_list (map (\<lambda>e. w (fst e) (snd e)) (bt_entries m))"

subsection \<open>Lookup laws\<close>

lemma bt_get_empty [simp]: "bt_get bt_empty k = None"
  by transfer simp

lemma bt_get_insert [simp]: "bt_get (bt_insert k v m) = (bt_get m)(k \<mapsto> v)"
  by transfer (rule map_of_entry_put)

lemma bt_get_remove [simp]: "bt_get (bt_remove k m) = (bt_get m)(k := None)"
  by transfer (rule map_of_entry_drop)

lemma bt_ext: "bt_get m = bt_get m' \<Longrightarrow> m = m'"
  by transfer (rule entries_ext)

lemma bt_entries_iff: "(k, v) \<in> set (bt_entries m) \<longleftrightarrow> bt_get m k = Some v"
  by transfer (simp add: strict_keys_distinct)

lemma bt_values_iff: "v \<in> set (bt_values m) \<longleftrightarrow> (\<exists>k. bt_get m k = Some v)"
  by (force simp: bt_values_def simp flip: bt_entries_iff)

lemma bt_keys_iff: "k \<in> set (bt_keys m) \<longleftrightarrow> bt_get m k \<noteq> None"
  by (force simp: bt_keys_def simp flip: bt_entries_iff)

lemma bt_keys_sorted: "sorted_wrt (<) (bt_keys m)"
  unfolding bt_keys_def by transfer (simp add: strict_keys_def)

lemma bt_contains_key_insert [simp]:
  "bt_contains_key (bt_insert k v m) k' \<longleftrightarrow> k' = k \<or> bt_contains_key m k'"
  by (auto simp: bt_contains_key_def)

lemma bt_contains_key_remove [simp]:
  "bt_contains_key (bt_remove k m) k' \<longleftrightarrow> k' \<noteq> k \<and> bt_contains_key m k'"
  by (auto simp: bt_contains_key_def)

lemma bt_remove_insert: "bt_get m k = None \<Longrightarrow> bt_remove k (bt_insert k v m) = m"
  by (rule bt_ext) (auto simp: fun_eq_iff)

lemma bt_insert_remove: "bt_get m k = Some v \<Longrightarrow> bt_insert k v (bt_remove k m) = m"
  by (rule bt_ext) (auto simp: fun_eq_iff)

subsection \<open>Weights\<close>

lemma entry_drop_idle: "k \<notin> fst ` set es \<Longrightarrow> entry_drop k es = es"
  by (auto simp: entry_drop_def image_iff intro!: filter_True)

lemma sum_entry_drop:
  assumes "strict_keys es"
  shows "sum_list (map f (entry_drop k es)) +
    (case map_of es k of None \<Rightarrow> 0 | Some v \<Rightarrow> f (k, v)) = (sum_list (map f es) :: nat)"
  using assms
proof (induction es)
  case (Cons e es)
  show ?case
  proof (cases "fst e = k")
    case True
    then have "entry_drop k es = es"
      using Cons.prems by (intro entry_drop_idle) auto
    moreover have "entry_drop k (e # es) = entry_drop k es"
      using True by (simp add: entry_drop_def)
    moreover have "e = (k, snd e)"
      using True by (simp add: prod_eq_iff)
    ultimately show ?thesis
      using True by (metis add.commute list.simps(9) map_of_Cons_code(2) option.simps(5) sum_list.Cons)
  next
    case False
    have "map_of (e # es) k = map_of es k"
      using False by (cases e) auto
    moreover have "entry_drop k (e # es) = e # entry_drop k es"
      using False by (simp add: entry_drop_def)
    ultimately show ?thesis using Cons by simp
  qed
qed (simp add: entry_drop_def)

lemma bt_sum_remove:
  "bt_sum w (bt_remove k m) + (case bt_get m k of None \<Rightarrow> 0 | Some v \<Rightarrow> w k v) = bt_sum w m"
  unfolding bt_sum_def by transfer (drule sum_entry_drop, auto split: option.splits)

lemma bt_sum_remove_Some: "bt_get m k = Some v \<Longrightarrow> bt_sum w m = bt_sum w (bt_remove k m) + w k v"
  using bt_sum_remove [of w k m] by simp

lemma sum_entry_put_fresh:
  "map_of es k = None \<Longrightarrow> sum_list (map f (entry_put k v es)) = f (k, v) + (sum_list (map f es) :: nat)"
  by (induction es) (auto split: if_splits)

lemma bt_sum_insert_None:
  "bt_get m k = None \<Longrightarrow> bt_sum w (bt_insert k v m) = bt_sum w m + w k v"
  unfolding bt_sum_def by transfer (simp add: sum_entry_put_fresh)

lemma bt_insert_insert [simp]: "bt_insert k v (bt_insert k v' m) = bt_insert k v m"
  by (rule bt_ext) (auto simp: fun_eq_iff)

lemma bt_insert_removed [simp]: "bt_insert k v (bt_remove k m) = bt_insert k v m"
  by (rule bt_ext) (auto simp: fun_eq_iff)

lemma bt_sum_insert:
  "bt_sum w (bt_insert k v m) + (case bt_get m k of None \<Rightarrow> 0 | Some v' \<Rightarrow> w k v') =
    bt_sum w m + w k v"
proof -
  have "bt_sum w (bt_insert k v (bt_remove k m)) = bt_sum w (bt_remove k m) + w k v"
    by (rule bt_sum_insert_None) simp
  then show ?thesis using bt_sum_remove [of w k m] by simp
qed

lemma bt_sum_empty [simp]: "bt_sum w bt_empty = 0"
  by (simp add: bt_sum_def bt_empty.rep_eq)

lemma bt_sum_ge: "bt_get m k = Some v \<Longrightarrow> w k v \<le> bt_sum w m"
  by (simp add: bt_sum_remove_Some)

lemma bt_sum_cong:
  "(\<And>k v. bt_get m k = Some v \<Longrightarrow> w k v = w' k v) \<Longrightarrow> bt_sum w m = bt_sum w' m"
  unfolding bt_sum_def
  by (intro arg_cong [where f = sum_list] map_cong) (auto simp: bt_entries_iff)

lemma bt_is_empty_iff: "bt_is_empty m \<longleftrightarrow> (\<forall>k. bt_get m k = None)"
proof
  assume "bt_is_empty m"
  then show "\<forall>k. bt_get m k = None"
    unfolding bt_is_empty_def by (metis bt_entries_iff list.distinct(1) list.set_cases not_None_eq)
next
  assume "\<forall>k. bt_get m k = None"
  then have "m = bt_empty" by (intro bt_ext) (auto simp: fun_eq_iff)
  then show "bt_is_empty m" by (simp add: bt_is_empty_def bt_empty.rep_eq)
qed

section \<open>The contract of a store whose entries carry weight\<close>

text \<open>
  A ledger moves value by deleting and adding entries of a keyed store. What it relies on is
  that a deletion takes exactly the weight of the deleted entry and an addition under a fresh
  key adds exactly the weight of the new entry. The lemmas for whole sequences of such moves
  are proved once here.
\<close>

locale weighted_store =
  fixes get :: "'m \<Rightarrow> 'k \<Rightarrow> 'v option"
    and put :: "'k \<Rightarrow> 'v \<Rightarrow> 'm \<Rightarrow> 'm"
    and del :: "'k \<Rightarrow> 'm \<Rightarrow> 'm"
    and weight :: "'m \<Rightarrow> nat"
    and w :: "'k \<Rightarrow> 'v \<Rightarrow> nat"
  assumes get_put: "get (put k v m) = (get m)(k \<mapsto> v)"
    and get_del: "get (del k m) = (get m)(k := None)"
    and weight_del: "get m k = Some v \<Longrightarrow> weight m = weight (del k m) + w k v"
    and weight_put: "get m k = None \<Longrightarrow> weight (put k v m) = weight m + w k v"
begin

definition put_all :: "('k \<times> 'v) list \<Rightarrow> 'm \<Rightarrow> 'm" where
  "put_all es m = foldl (\<lambda>m e. put (fst e) (snd e) m) m es"

definition del_all :: "'k list \<Rightarrow> 'm \<Rightarrow> 'm" where
  "del_all ks m = foldl (\<lambda>m k. del k m) m ks"

lemma put_all_simps [simp]:
  "put_all [] m = m"
  "put_all (e # es) m = put_all es (put (fst e) (snd e) m)"
  by (simp_all add: put_all_def)

lemma del_all_simps [simp]:
  "del_all [] m = m"
  "del_all (k # ks) m = del_all ks (del k m)"
  by (simp_all add: del_all_def)

lemma get_put_all_notin: "k \<notin> fst ` set es \<Longrightarrow> get (put_all es m) k = get m k"
  by (induction es arbitrary: m) (auto simp: get_put)

lemma get_put_all_in: "distinct (map fst es) \<Longrightarrow> (k, v) \<in> set es \<Longrightarrow> get (put_all es m) k = Some v"
proof (induction es arbitrary: m)
  case (Cons e es)
  show ?case
  proof (cases "e = (k, v)")
    case True
    then have "k \<notin> fst ` set es" using Cons.prems by auto
    then show ?thesis using True by (simp add: get_put_all_notin get_put)
  next
    case False
    then show ?thesis using Cons by auto
  qed
qed simp

lemma weight_put_all:
  assumes "distinct (map fst es)" and "\<forall>e\<in>set es. get m (fst e) = None"
  shows "weight (put_all es m) = weight m + (\<Sum>e\<leftarrow>es. w (fst e) (snd e))"
  using assms
proof (induction es arbitrary: m)
  case (Cons e es)
  have "\<forall>e'\<in>set es. get (put (fst e) (snd e) m) (fst e') = None"
    using Cons.prems by (auto simp: get_put fst_eq_Domain)
  then show ?case using Cons by (simp add: weight_put)
qed simp

lemma get_del_all: "get (del_all ks m) k = (if k \<in> set ks then None else get m k)"
  by (induction ks arbitrary: m) (auto simp: get_del)

lemma weight_del_all:
  assumes "distinct ks" and "\<forall>k\<in>set ks. get m k \<noteq> None"
  shows "weight m = weight (del_all ks m) + (\<Sum>k\<leftarrow>ks. w k (the (get m k)))"
  using assms
proof (induction ks arbitrary: m)
  case (Cons k ks)
  then obtain v where v: "get m k = Some v" by auto
  have "(\<Sum>j\<leftarrow>ks. w j (the (get (del k m) j))) = (\<Sum>j\<leftarrow>ks. w j (the (get m j)))"
    using Cons.prems(1) by (intro arg_cong [where f = sum_list] map_cong) (auto simp: get_del)
  moreover have "\<forall>j\<in>set ks. get (del k m) j \<noteq> None"
    using Cons.prems by (auto simp: get_del)
  ultimately show ?case
    using Cons.IH [of "del k m"] Cons.prems v by (simp add: weight_del [OF v])
qed simp

end

interpretation bt: weighted_store bt_get bt_insert bt_remove "bt_sum w" w for w
  by unfold_locales (simp_all add: bt_sum_remove_Some bt_sum_insert_None)

end
