(* ===== verification/Block.thy ===== *)
theory Block
  imports Reveal BTree_Map
begin

text \<open>
  Blocks and their hashes (\<open>src/domain/block.rs\<close>), the VDF seed of a block and the content
  commitment it binds (\<open>src/domain/ledger_ops.rs\<close>), and the launch profile
  (\<open>src/domain/profile.rs\<close>).
\<close>

section \<open>Launch profile\<close>

record LaunchProfile =
  profile_id :: string
  ticket_maturity_delay_heights :: u64
  ticket_expiry_window_heights :: u64
  mine_difficulty_bits :: u32
  burn_lineage_maturity_heights :: u64
  max_pending_transactions :: nat
  max_block_transactions :: nat
  max_block_bytes :: nat

definition profile_default :: LaunchProfile where
  "profile_default = \<lparr>profile_id = ''iuna-mainnet-candidate'',
     ticket_maturity_delay_heights = DEFAULT_TICKET_MATURITY_DELAY,
     ticket_expiry_window_heights = DEFAULT_TICKET_EXPIRY_WINDOW,
     mine_difficulty_bits = MINE_DIFFICULTY_BITS,
     burn_lineage_maturity_heights = BURN_LINEAGE_MATURITY_HEIGHTS,
     max_pending_transactions = MAX_PENDING_TRANSACTIONS,
     max_block_transactions = MAX_BLOCK_TRANSACTIONS,
     max_block_bytes = MAX_BLOCK_BYTES\<rparr>"

definition local_testnet :: LaunchProfile where
  "local_testnet = profile_default
     \<lparr>profile_id := ''iuna-local-testnet-v1'', burn_lineage_maturity_heights := 0\<rparr>"

definition profile_canonical :: "LaunchProfile \<Rightarrow> string" where
  "profile_canonical p =
     (if burn_lineage_maturity_heights p = BURN_LINEAGE_MATURITY_HEIGHTS then
        ''iuna-launch-profile:'' @ profile_id p @ '':'' @
        dec (unat (ticket_maturity_delay_heights p)) @ '':'' @
        dec (unat (ticket_expiry_window_heights p)) @ '':'' @
        dec (unat (mine_difficulty_bits p)) @ '':'' @ dec (max_pending_transactions p) @ '':'' @
        dec (max_block_transactions p) @ '':'' @ dec (max_block_bytes p)
      else
        ''iuna-launch-profile-v2:'' @ profile_id p @ '':'' @
        dec (unat (ticket_maturity_delay_heights p)) @ '':'' @
        dec (unat (ticket_expiry_window_heights p)) @ '':'' @
        dec (unat (mine_difficulty_bits p)) @ '':'' @
        dec (unat (burn_lineage_maturity_heights p)) @ '':'' @
        dec (max_pending_transactions p) @ '':'' @ dec (max_block_transactions p) @ '':'' @
        dec (max_block_bytes p))"

definition profile_hash :: "crypto \<Rightarrow> LaunchProfile \<Rightarrow> string" where
  "profile_hash cr p = hex_hash cr (profile_canonical p)"

section \<open>Blocks\<close>

datatype FinalizerMode = TicketMode | RecoveryMode

record LeaderProof =
  lp_ticket_id :: string
  lp_public_key :: string
  lp_signature :: string

record Block =
  height :: u64
  prev_hash :: string
  timestamp_ms :: u64
  miner :: string
  reward_address :: "string option"
  reward_address_signature :: "string option"
  finalizer_mode :: FinalizerMode
  finalizer_rank :: u32
  reward :: Amount
  vdf_rounds :: u64
  vdf_output :: string
  leader_proof :: "LeaderProof option"
  burn_bundle_section :: BurnBundleSection
  transactions :: "Transaction list"
  transactions_v2 :: "string list"
  block_hash :: string

fun fork_choice_rank :: "FinalizerMode \<Rightarrow> u8" where
  "fork_choice_rank TicketMode = 0"
| "fork_choice_rank RecoveryMode = 1"

definition canonical_burn_block_items :: "string \<Rightarrow> string" where
  "canonical_burn_block_items burn_section = ''burn-section-v1:'' @ burn_section"

definition show_leader_proof :: "LeaderProof option \<Rightarrow> string" where
  "show_leader_proof lp =
     (case lp of
        None \<Rightarrow> []
      | Some proof \<Rightarrow> lp_ticket_id proof @ '':'' @ lp_public_key proof @ '':'' @ lp_signature proof)"

definition content_text :: "Block \<Rightarrow> string" where
  "content_text b =
     (let txs = join ''|'' (map canonical (transactions b));
          txs_v2 = join ''|'' (transactions_v2 b);
          burn_section = canonical_burn_block_items (section_canonical (burn_bundle_section b));
          proof = show_leader_proof (leader_proof b) in
      case reward_address b of
        Some address \<Rightarrow>
          ''block-content-v6:'' @ show_u64 (height b) @ '':'' @ prev_hash b @ '':'' @
          show_u64 (timestamp_ms b) @ '':'' @ miner b @ '':'' @ address @ '':'' @
          (case reward_address_signature b of None \<Rightarrow> [] | Some s \<Rightarrow> s) @ '':'' @
          show_u32 (finalizer_rank b) @ '':'' @ show_u64 (reward b) @ '':'' @
          show_u64 (vdf_rounds b) @ '':'' @ proof @ '':'' @ txs @ '':'' @ txs_v2 @ '':'' @ burn_section
      | None \<Rightarrow>
          if transactions_v2 b = [] then
            ''block-content-v4:'' @ show_u64 (height b) @ '':'' @ prev_hash b @ '':'' @
            show_u64 (timestamp_ms b) @ '':'' @ miner b @ '':'' @ show_u32 (finalizer_rank b) @ '':'' @
            show_u64 (reward b) @ '':'' @ show_u64 (vdf_rounds b) @ '':'' @ proof @ '':'' @ txs @ '':'' @
            burn_section
          else
            ''block-content-v5:'' @ show_u64 (height b) @ '':'' @ prev_hash b @ '':'' @
            show_u64 (timestamp_ms b) @ '':'' @ miner b @ '':'' @ show_u32 (finalizer_rank b) @ '':'' @
            show_u64 (reward b) @ '':'' @ show_u64 (vdf_rounds b) @ '':'' @ proof @ '':'' @ txs @ '':'' @
            txs_v2 @ '':'' @ burn_section)"

definition content_hash :: "crypto \<Rightarrow> Block \<Rightarrow> string" where
  "content_hash cr b = hex_hash cr (content_text b)"

fun mode_text :: "FinalizerMode \<Rightarrow> string" where
  "mode_text TicketMode = ''ticket''"
| "mode_text RecoveryMode = ''recovery''"

definition vdf_content_commitment ::
  "crypto \<Rightarrow> u64 \<Rightarrow> string \<Rightarrow> string \<Rightarrow> string option \<Rightarrow> FinalizerMode \<Rightarrow> u32 \<Rightarrow> Amount \<Rightarrow> u64 \<Rightarrow>
     string option \<Rightarrow> BurnBundleSection \<Rightarrow> Transaction list \<Rightarrow> string list \<Rightarrow> string" where
  "vdf_content_commitment cr h prev mnr reward_addr mode rank rew rounds leader_ticket_id sec txs txs_v2 =
     (let ticket_id = (case leader_ticket_id of None \<Rightarrow> ''none'' | Some i \<Rightarrow> i);
          transaction_hash = hex_hash cr (''iuna-vdf-transactions-v1:'' @ join ''|'' (map canonical txs));
          burn_section_hash = hex_hash cr (''iuna-vdf-burn-section-v1:'' @ section_canonical sec);
          transaction_v2_hash = hex_hash cr (''iuna-vdf-transactions-v2:'' @ join ''|'' txs_v2) in
      case reward_addr of
        Some address \<Rightarrow>
          hex_hash cr (''iuna-vdf-content-v3:'' @ show_u64 h @ '':'' @ prev @ '':'' @ mnr @ '':'' @
            address @ '':'' @ mode_text mode @ '':'' @ show_u32 rank @ '':'' @ show_u64 rew @ '':'' @
            show_u64 rounds @ '':'' @ ticket_id @ '':'' @ transaction_hash @ '':'' @
            transaction_v2_hash @ '':'' @ burn_section_hash)
      | None \<Rightarrow>
          if txs_v2 = [] then
            hex_hash cr (''iuna-vdf-content-v1:'' @ show_u64 h @ '':'' @ prev @ '':'' @ mnr @ '':'' @
              mode_text mode @ '':'' @ show_u32 rank @ '':'' @ show_u64 rew @ '':'' @
              show_u64 rounds @ '':'' @ ticket_id @ '':'' @ transaction_hash @ '':'' @ burn_section_hash)
          else
            hex_hash cr (''iuna-vdf-content-v2:'' @ show_u64 h @ '':'' @ prev @ '':'' @ mnr @ '':'' @
              mode_text mode @ '':'' @ show_u32 rank @ '':'' @ show_u64 rew @ '':'' @
              show_u64 rounds @ '':'' @ ticket_id @ '':'' @ transaction_hash @ '':'' @
              transaction_v2_hash @ '':'' @ burn_section_hash))"

definition vdf_seed_for_child :: "crypto \<Rightarrow> string \<Rightarrow> u64 \<Rightarrow> string list \<Rightarrow> string \<Rightarrow> string" where
  "vdf_seed_for_child cr prev h bundle_hashes content_commitment =
     (if h < GRINDING_RESISTANCE_ACTIVATION_HEIGHT then
        hex_hash cr (''iuna-vdf-child:'' @ prev @ '':'' @ show_u64 h @ '':'' @
          canonical_burn_bundle_hashes bundle_hashes)
      else
        hex_hash cr (''iuna-vdf-child-v2:'' @ prev @ '':'' @ show_u64 h @ '':'' @ content_commitment @
          '':'' @ canonical_burn_bundle_hashes bundle_hashes))"

definition recovery_vdf_seed_for_child ::
  "crypto \<Rightarrow> string \<Rightarrow> u64 \<Rightarrow> u64 \<Rightarrow> string list \<Rightarrow> string \<Rightarrow> string" where
  "recovery_vdf_seed_for_child cr prev h ts bundle_hashes content_commitment =
     (if h < GRINDING_RESISTANCE_ACTIVATION_HEIGHT then
        hex_hash cr (''iuna-recovery-vdf-child:'' @ prev @ '':'' @ show_u64 h @ '':'' @ show_u64 ts @
          '':'' @ canonical_burn_bundle_hashes bundle_hashes)
      else
        hex_hash cr (''iuna-recovery-vdf-child-v2:'' @ prev @ '':'' @ show_u64 h @ '':'' @ show_u64 ts @
          '':'' @ content_commitment @ '':'' @ canonical_burn_bundle_hashes bundle_hashes))"

definition block_bundle_hashes :: "crypto \<Rightarrow> Block \<Rightarrow> string list" where
  "block_bundle_hashes cr b =
     section_bundle_hashes cr (burn_bundle_section b) (height b) (prev_hash b) (miner b)"

definition block_content_commitment :: "crypto \<Rightarrow> Block \<Rightarrow> string" where
  "block_content_commitment cr b =
     vdf_content_commitment cr (height b) (prev_hash b) (miner b) (reward_address b)
       (finalizer_mode b) (finalizer_rank b) (reward b) (vdf_rounds b)
       (map_option lp_ticket_id (leader_proof b)) (burn_bundle_section b) (transactions b)
       (transactions_v2 b)"

definition vdf_seed :: "crypto \<Rightarrow> Block \<Rightarrow> string" where
  "vdf_seed cr b =
     (case finalizer_mode b of
        TicketMode \<Rightarrow> vdf_seed_for_child cr (prev_hash b) (height b) (block_bundle_hashes cr b)
          (block_content_commitment cr b)
      | RecoveryMode \<Rightarrow> recovery_vdf_seed_for_child cr (prev_hash b) (height b) (timestamp_ms b)
          (block_bundle_hashes cr b) (block_content_commitment cr b))"

definition compute_hash :: "crypto \<Rightarrow> Block \<Rightarrow> string" where
  "compute_hash cr b =
     hex_hash cr (''block:'' @ content_hash cr b @ '':'' @ vdf_seed cr b @ '':'' @ vdf_output b)"

definition leader_proof_rank :: "crypto \<Rightarrow> LeaderProof \<Rightarrow> string" where
  "leader_proof_rank cr p =
     hex_hash cr (''iuna-leader-rank:'' @ lp_ticket_id p @ '':'' @ lp_signature p)"

record LeaderProofPayload =
  lpp_height :: u64
  lpp_prev_hash :: string
  lpp_finalizer_rank :: u32
  lpp_vdf_output :: string
  lpp_ticket_id :: string
  lpp_ticket_amount :: Amount
  lpp_ticket_owner :: string

definition leader_payload_canonical :: "LeaderProofPayload \<Rightarrow> string" where
  "leader_payload_canonical p =
     (if lpp_finalizer_rank p = 0 then
        ''iuna-leader-proof:'' @ show_u64 (lpp_height p) @ '':'' @ lpp_prev_hash p @ '':'' @
        lpp_vdf_output p @ '':'' @ lpp_ticket_id p @ '':'' @ show_u64 (lpp_ticket_amount p) @ '':'' @
        lpp_ticket_owner p
      else
        ''iuna-leader-proof-v2:'' @ show_u64 (lpp_height p) @ '':'' @ lpp_prev_hash p @ '':'' @
        show_u32 (lpp_finalizer_rank p) @ '':'' @ lpp_vdf_output p @ '':'' @ lpp_ticket_id p @ '':'' @
        show_u64 (lpp_ticket_amount p) @ '':'' @ lpp_ticket_owner p)"

definition reward_address_payload :: "u64 \<Rightarrow> string \<Rightarrow> string \<Rightarrow> string \<Rightarrow> string" where
  "reward_address_payload h prev mnr address =
     ''iuna-hybrid-reward-v1:'' @ show_u64 h @ '':'' @ prev @ '':'' @ mnr @ '':'' @ address"

definition required_burns :: "Block \<Rightarrow> Transaction list" where
  "required_burns b = section_required_burns (burn_bundle_section b)"

section \<open>Tickets as data\<close>

record BurnTicket =
  tk_id :: string
  tk_owner :: string
  tk_amount :: Amount
  tk_from :: u64
  tk_until :: u64

section \<open>Finishing a prepared block\<close>

text \<open>
  The wallet (\<open>src/domain/wallet.rs\<close>) signs with an Ed25519 seed derived from the phrase;
  its address is the public key in hexadecimal.
\<close>

record Wallet =
  wallet_address :: string
  signing_seed :: bytes

definition WALLET_SEED_DOMAIN :: string where "WALLET_SEED_DOMAIN = ''iuna-wallet-seed''"

definition derive_signing_seed :: "crypto \<Rightarrow> string \<Rightarrow> string \<Rightarrow> bytes" where
  "derive_signing_seed cr label seed = sha256 cr (as_bytes label @ as_bytes '':'' @ as_bytes seed)"

definition from_seed :: "crypto \<Rightarrow> string \<Rightarrow> Wallet" where
  "from_seed cr seed =
     (let s = derive_signing_seed cr WALLET_SEED_DOMAIN seed in
      \<lparr>wallet_address = hex_encode (ed25519_key_of_seed cr s), signing_seed = s\<rparr>)"

definition sign_bytes :: "crypto \<Rightarrow> Wallet \<Rightarrow> bytes \<Rightarrow> string" where
  "sign_bytes cr w payload = hex_encode (ed25519_sign cr (signing_seed w) payload)"

definition sign_payload :: "crypto \<Rightarrow> Wallet \<Rightarrow> string \<Rightarrow> string" where
  "sign_payload cr w payload = sign_bytes cr w (as_bytes payload)"

definition wallet_leader_proof :: "crypto \<Rightarrow> Wallet \<Rightarrow> LeaderProofPayload \<Rightarrow> LeaderProof" where
  "wallet_leader_proof cr w p =
     \<lparr>lp_ticket_id = lpp_ticket_id p, lp_public_key = wallet_address w,
      lp_signature = sign_payload cr w (leader_payload_canonical p)\<rparr>"

definition wallet_burn_bundle :: "crypto \<Rightarrow> Wallet \<Rightarrow> BurnBundlePayload \<Rightarrow> BurnBundle" where
  "wallet_burn_bundle cr w p =
     \<lparr>bb_height = bp_height p, bb_prev_hash = bp_prev_hash p, bb_slot = bp_slot p,
      bb_member = wallet_address w, bb_reward_address = bp_reward_address p, bb_burns = bp_burns p,
      bb_burns_v2 = bp_burns_v2 p, bb_signature = sign_payload cr w (payload_canonical p)\<rparr>"

fun unsigned_tx_inputs :: "UnsignedUtxoTransaction \<Rightarrow> UnsignedTxInput list" where
  "unsigned_tx_inputs (UTransfer ins outs f) = ins"
| "unsigned_tx_inputs (UBurn ins change a f anchor) = ins"

definition sign_transaction ::
  "crypto \<Rightarrow> UnsignedUtxoTransaction \<Rightarrow> Wallet \<Rightarrow> TransactionSigningDomain \<Rightarrow> Transaction result" where
  "sign_transaction cr u w d =
     and_then (if chain_bound d
               then and_then (unsigned_signing_bytes u d) (\<lambda>bs. Inr (sign_bytes cr w bs))
               else Inr (sign_payload cr w (unsigned_canonical u))) (\<lambda>sig.
     let signed_inputs = map (\<lambda>i. \<lparr>in_outpoint = uin_outpoint i, in_owner = uin_owner i,
                                   in_signature = sig\<rparr>) (unsigned_tx_inputs u) in
     Inr (case u of
            UTransfer ins outs f \<Rightarrow> Transfer signed_inputs outs f sig
          | UBurn ins change a f anchor \<Rightarrow> Burn signed_inputs change a f anchor sig))"

record PreparedBlock =
  pb_height :: u64
  pb_prev_hash :: string
  pb_timestamp_ms :: u64
  pb_miner :: string
  pb_reward_address :: "string option"
  pb_finalizer_mode :: FinalizerMode
  pb_finalizer_rank :: u32
  pb_reward :: Amount
  pb_vdf_rounds :: u64
  pb_vdf_seed :: string
  pb_leader_ticket :: "BurnTicket option"
  pb_burn_bundle_section :: BurnBundleSection
  pb_transactions :: "Transaction list"
  pb_transactions_v2 :: "string list"

definition finish_with_timestamp :: "crypto \<Rightarrow> PreparedBlock \<Rightarrow> Wallet \<Rightarrow> string \<Rightarrow> u64 \<Rightarrow> Block" where
  "finish_with_timestamp cr p w output ts =
     (let proof = map_option (\<lambda>t. wallet_leader_proof cr w
            \<lparr>lpp_height = pb_height p, lpp_prev_hash = pb_prev_hash p,
             lpp_finalizer_rank = pb_finalizer_rank p, lpp_vdf_output = output,
             lpp_ticket_id = tk_id t, lpp_ticket_amount = tk_amount t,
             lpp_ticket_owner = tk_owner t\<rparr>) (pb_leader_ticket p);
          address_signature = map_option (\<lambda>a. sign_payload cr w
            (reward_address_payload (pb_height p) (pb_prev_hash p) (pb_miner p) a)) (pb_reward_address p);
          b = \<lparr>height = pb_height p, prev_hash = pb_prev_hash p, timestamp_ms = ts,
               miner = pb_miner p, reward_address = pb_reward_address p,
               reward_address_signature = address_signature,
               finalizer_mode = pb_finalizer_mode p, finalizer_rank = pb_finalizer_rank p,
               reward = pb_reward p, vdf_rounds = pb_vdf_rounds p, vdf_output = output,
               leader_proof = proof, burn_bundle_section = pb_burn_bundle_section p,
               transactions = pb_transactions p, transactions_v2 = pb_transactions_v2 p,
               block_hash = []\<rparr> in
      b\<lparr>block_hash := compute_hash cr b\<rparr>)"

definition finish :: "crypto \<Rightarrow> PreparedBlock \<Rightarrow> Wallet \<Rightarrow> string \<Rightarrow> Block" where
  "finish cr p w output = finish_with_timestamp cr p w output (pb_timestamp_ms p)"

definition finish_at :: "crypto \<Rightarrow> PreparedBlock \<Rightarrow> Wallet \<Rightarrow> string \<Rightarrow> u64 \<Rightarrow> Block" where
  "finish_at cr p w output ts =
     finish_with_timestamp cr p w output
       (case pb_finalizer_mode p of
          TicketMode \<Rightarrow> max ts (pb_timestamp_ms p)
        | RecoveryMode \<Rightarrow> pb_timestamp_ms p)"

section \<open>Facts\<close>

lemma compute_hash_ignores_hash [simp]:
  "compute_hash cr (b\<lparr>block_hash := h\<rparr>) = compute_hash cr b"
proof -
  have "content_text (b\<lparr>block_hash := h\<rparr>) = content_text b"
    by (simp add: content_text_def Let_def cong: option.case_cong if_cong)
  moreover have "vdf_seed cr (b\<lparr>block_hash := h\<rparr>) = vdf_seed cr b"
    by (simp add: vdf_seed_def block_bundle_hashes_def block_content_commitment_def
        cong: FinalizerMode.case_cong)
  ultimately show ?thesis by (simp add: compute_hash_def content_hash_def)
qed

lemma finish_with_timestamp_hash:
  "compute_hash cr (finish_with_timestamp cr p w output ts) =
     block_hash (finish_with_timestamp cr p w output ts)"
  unfolding finish_with_timestamp_def Let_def compute_hash_ignores_hash by simp

lemma finish_hash_valid: "compute_hash cr (finish_at cr p w output ts) = block_hash (finish_at cr p w output ts)"
  by (simp add: finish_at_def finish_with_timestamp_hash)

end
