(* ===== verification/Wire_Codec.thy ===== *)
theory Wire_Codec
  imports Bytes Errors
begin

text \<open>
  The byte reader of \<open>src/domain/transaction_v2.rs\<close> and the interface of a wire codec: a
  decoder that reads back exactly what the encoder wrote and accepts nothing else. The locale
  carries the laws through sequencing, counted lists and optional values, so that the round
  trips of a wire format follow field by field.
\<close>

section \<open>The reader\<close>

text \<open>A reader is the remaining input; every operation returns its value and the rest.\<close>

type_synonym 'a reader = "bytes \<Rightarrow> ('a \<times> bytes) result"

definition reader_take :: "nat \<Rightarrow> string \<Rightarrow> bytes reader" where
  "reader_take n label bs =
     (if length bs < n then bail (''transaction v2 '' @ label @ '' is truncated'')
      else Inr (take n bs, drop n bs))"

definition reader_u8 :: "string \<Rightarrow> u8 reader" where
  "reader_u8 label bs = and_then (reader_take 1 label bs) (\<lambda>(v, r). Inr (hd v, r))"

definition reader_array :: "nat \<Rightarrow> string \<Rightarrow> bytes reader" where
  "reader_array n label bs =
     and_then (reader_take n label bs) (\<lambda>(v, r).
       with_context (label @ '' has an invalid fixed length'')
         (if length v = n then Inr (v, r) else bail ''could not convert slice to array''))"

definition u16_from_be_bytes :: "bytes \<Rightarrow> u16" where
  "u16_from_be_bytes bs = word_of_nat (from_be_bytes bs)"

definition u64_from_be_bytes :: "bytes \<Rightarrow> u64" where
  "u64_from_be_bytes bs = word_of_nat (from_be_bytes bs)"

definition reader_u16 :: "string \<Rightarrow> u16 reader" where
  "reader_u16 label bs = and_then (reader_array 2 label bs) (\<lambda>(v, r). Inr (u16_from_be_bytes v, r))"

definition reader_u32 :: "string \<Rightarrow> u32 reader" where
  "reader_u32 label bs = and_then (reader_array 4 label bs) (\<lambda>(v, r). Inr (u32_from_be_bytes v, r))"

definition reader_u64 :: "string \<Rightarrow> u64 reader" where
  "reader_u64 label bs = and_then (reader_array 8 label bs) (\<lambda>(v, r). Inr (u64_from_be_bytes v, r))"

definition reader_count :: "nat \<Rightarrow> string \<Rightarrow> nat reader" where
  "reader_count maximum label bs =
     and_then (reader_u32 label bs) (\<lambda>(n, r).
       if maximum < unat n then bail (''transaction v2 '' @ label @ '' exceeds '' @ dec maximum)
       else Inr (unat n, r))"

definition reader_length_prefixed :: "nat \<Rightarrow> string \<Rightarrow> bytes reader" where
  "reader_length_prefixed maximum label bs =
     and_then (reader_u32 label bs) (\<lambda>(n, r).
       if maximum < unat n
       then bail (''transaction v2 '' @ label @ '' exceeds '' @ dec maximum @ '' bytes'')
       else reader_take (unat n) label r)"

definition reader_finish :: "bytes \<Rightarrow> unit result" where
  "reader_finish bs = (if bs \<noteq> [] then bail ''transaction v2 contains trailing bytes'' else Inr ())"

text \<open>The loop \<open>for _ in 0..count { items.push(read(reader)?) }\<close>.\<close>

fun reader_many :: "nat \<Rightarrow> 'a reader \<Rightarrow> 'a list reader" where
  "reader_many 0 f bs = Inr ([], bs)"
| "reader_many (Suc n) f bs =
     and_then (f bs) (\<lambda>(x, r). and_then (reader_many n f r) (\<lambda>(xs, r'). Inr (x # xs, r')))"

definition encode_count :: "nat \<Rightarrow> string \<Rightarrow> bytes result" where
  "encode_count n label =
     (if n < 2 ^ 32 then Inr (u32_to_be_bytes (word_of_nat n)) else bail (label @ '' exceeds u32''))"

definition encode_prefixed :: "bytes \<Rightarrow> string \<Rightarrow> bytes result" where
  "encode_prefixed v label = and_then (encode_count (length v) label) (\<lambda>l. Inr (l @ v))"

section \<open>Codecs\<close>

locale codec =
  fixes enc :: "'a \<Rightarrow> bytes result" and decode :: "'a reader" and valid :: "'a \<Rightarrow> bool"
  assumes enc_total: "valid x \<Longrightarrow> \<exists>bs. enc x = Inr bs"
    and dec_enc: "valid x \<Longrightarrow> enc x = Inr bs \<Longrightarrow> decode (bs @ rest) = Inr (x, rest)"
    and enc_dec: "decode bs = Inr (x, rest) \<Longrightarrow> valid x \<and> (\<exists>p. enc x = Inr p \<and> bs = p @ rest)"
begin

lemma decE:
  assumes "decode bs = Inr (x, rest)"
  obtains p where "valid x" "enc x = Inr p" "bs = p @ rest"
  using enc_dec [OF assms] by blast

lemma decode_iff:
  "decode bs = Inr (x, rest) \<longleftrightarrow> valid x \<and> (\<exists>p. enc x = Inr p \<and> bs = p @ rest)"
  using enc_dec dec_enc by blast

lemma decode_all: "valid x \<Longrightarrow> enc x = Inr bs \<Longrightarrow> decode bs = Inr (x, [])"
  using dec_enc [of x bs "[]"] by simp

lemma enc_unique: "decode bs = Inr (x, []) \<Longrightarrow> enc x = Inr bs"
  using enc_dec by fastforce

lemma many_enc:
  assumes "\<forall>x\<in>set xs. valid x"
  shows "\<exists>ps. try_map enc xs = Inr ps \<and>
    (\<forall>rest. reader_many (length xs) decode (concat ps @ rest) = Inr (xs, rest))"
  using assms
proof (induction xs)
  case (Cons x xs)
  then obtain ps where ps: "try_map enc xs = Inr ps"
      "\<forall>rest. reader_many (length xs) decode (concat ps @ rest) = Inr (xs, rest)"
    by auto
  obtain p where p: "enc x = Inr p" using enc_total Cons.prems by auto
  then have "\<forall>rest. decode (p @ rest) = Inr (x, rest)" using dec_enc Cons.prems by auto
  with p ps show ?case by auto
qed simp

lemma many_dec:
  assumes "reader_many n decode bs = Inr (xs, rest)"
  shows "length xs = n \<and> (\<forall>x\<in>set xs. valid x) \<and> (\<exists>ps. try_map enc xs = Inr ps \<and> bs = concat ps @ rest)"
  using assms
proof (induction n arbitrary: bs xs)
  case (Suc n)
  then obtain x r ys where x: "decode bs = Inr (x, r)" and ys: "reader_many n decode r = Inr (ys, rest)"
    and xs: "xs = x # ys"
    by (auto simp: and_then_eq_Inr)
  obtain p where p: "valid x" "enc x = Inr p" "bs = p @ r" using x by (rule decE)
  obtain ps where ps: "try_map enc ys = Inr ps" "r = concat ps @ rest"
    and len: "length ys = n" and valid: "\<forall>x\<in>set ys. valid x"
    using Suc.IH [OF ys] by auto
  have "try_map enc xs = Inr (p # ps)" using xs p(2) ps(1) by simp
  moreover have "bs = concat (p # ps) @ rest" using p(3) ps(2) by simp
  ultimately show ?case using xs p(1) len valid by auto
qed simp

end

lemma codecI:
  assumes "\<And>x. valid x \<Longrightarrow> \<exists>bs. enc x = Inr bs \<and> (\<forall>rest. decode (bs @ rest) = Inr (x, rest))"
    and "\<And>bs x rest. decode bs = Inr (x, rest) \<Longrightarrow> valid x \<and> (\<exists>p. enc x = Inr p \<and> bs = p @ rest)"
  shows "codec enc decode valid"
proof
  fix x :: 'a and bs rest
  assume "valid x" and "enc x = Inr bs"
  then show "decode (bs @ rest) = Inr (x, rest)" using assms(1) [of x] by auto
qed (use assms in blast)+

lemma codec_iffI:
  assumes "\<And>x. valid x \<Longrightarrow> \<exists>bs. enc x = Inr bs"
    and "\<And>bs x rest. decode bs = Inr (x, rest) \<longleftrightarrow> valid x \<and> (\<exists>p. enc x = Inr p \<and> bs = p @ rest)"
  shows "codec enc decode valid"
proof (rule codecI)
  fix x assume "valid x"
  then show "\<exists>bs. enc x = Inr bs \<and> (\<forall>rest. decode (bs @ rest) = Inr (x, rest))"
    using assms(1) [of x] assms(2) by auto
qed (simp add: assms(2))

lemma codec_take: "codec Inr (reader_take n label) (\<lambda>bs. length bs = n)"
  by (rule codecI) (auto simp: reader_take_def if_bail_eq_Inr)

lemma codec_array: "codec Inr (reader_array n label) (\<lambda>bs. length bs = n)"
  by (rule codecI)
    (auto simp: reader_array_def reader_take_def if_bail_eq_Inr and_then_eq_Inr with_context_eq_Inr)

lemma codec_u8: "codec (\<lambda>b. Inr [b]) (reader_u8 label) (\<lambda>_. True)"
proof (rule codecI)
  fix bs x rest
  assume "reader_u8 label bs = Inr (x, rest)"
  then show "True \<and> (\<exists>p. Inr [x] = (Inr p :: bytes result) \<and> bs = p @ rest)"
    by (cases bs) (auto simp: reader_u8_def reader_take_def)
qed (auto simp: reader_u8_def reader_take_def)

text \<open>A codec seen through a bijection between the values and their images.\<close>

lemma codec_map:
  assumes c: "codec enc decode valid" and fg: "\<And>x. valid x \<Longrightarrow> g (f x) = x"
    and gf: "\<And>y. valid' y \<Longrightarrow> f (g y) = y" and w: "\<And>x. valid x \<Longrightarrow> valid' (f x)"
    and w': "\<And>y. valid' y \<Longrightarrow> valid (g y)"
  shows "codec (\<lambda>y. enc (g y)) (\<lambda>bs. and_then (decode bs) (\<lambda>(v, r). Inr (f v, r))) valid'"
proof (rule codecI)
  fix y assume y: "valid' y"
  then obtain bs where bs: "enc (g y) = Inr bs" using codec.enc_total [OF c] w' by blast
  moreover have "\<forall>rest. decode (bs @ rest) = Inr (g y, rest)"
    using codec.dec_enc [OF c] w' [OF y] bs by blast
  ultimately show "\<exists>bs. enc (g y) = Inr bs \<and>
      (\<forall>rest. and_then (decode (bs @ rest)) (\<lambda>(v, r). Inr (f v, r)) = Inr (y, rest))"
    using gf [OF y] by auto
next
  fix bs y rest
  assume "and_then (decode bs) (\<lambda>(v, r). Inr (f v, r)) = Inr (y, rest)"
  then obtain x where x: "decode bs = Inr (x, rest)" and y: "y = f x"
    by (auto simp: and_then_eq_Inr)
  then show "valid' y \<and> (\<exists>p. enc (g y) = Inr p \<and> bs = p @ rest)"
    using codec.enc_dec [OF c x] fg w by auto
qed

lemma codec_cong:
  assumes "codec enc decode valid" and "\<And>x. enc' x = enc x" and "\<And>bs. decode' bs = decode bs"
    and "\<And>x. valid' x = valid x"
  shows "codec enc' decode' valid'"
proof -
  have "enc' = enc" "decode' = decode" "valid' = valid" using assms(2-4) by auto
  with assms(1) show ?thesis by simp
qed

lemma u16_from_to_be_bytes [simp]: "u16_from_be_bytes (u16_to_be_bytes a) = a"
  using unat_less_power [of a]
  by (simp add: u16_from_be_bytes_def u16_to_be_bytes_def from_be_bytes_be_bytes)

lemma u64_from_to_be_bytes [simp]: "u64_from_be_bytes (u64_to_be_bytes a) = a"
  using unat_less_power [of a]
  by (simp add: u64_from_be_bytes_def u64_to_be_bytes_def from_be_bytes_be_bytes)

lemma u16_to_from_be_bytes: "length bs = 2 \<Longrightarrow> u16_to_be_bytes (u16_from_be_bytes bs) = bs"
  using from_be_bytes_bound [of bs] be_bytes_from_be_bytes [of bs]
  by (simp add: u16_from_be_bytes_def u16_to_be_bytes_def unat_of_nat)

lemma u64_to_from_be_bytes: "length bs = 8 \<Longrightarrow> u64_to_be_bytes (u64_from_be_bytes bs) = bs"
  using from_be_bytes_bound [of bs] be_bytes_from_be_bytes [of bs]
  by (simp add: u64_from_be_bytes_def u64_to_be_bytes_def unat_of_nat)

lemma codec_u16: "codec (\<lambda>w. Inr (u16_to_be_bytes w)) (reader_u16 label) (\<lambda>_. True)"
  unfolding reader_u16_def
  by (rule codec_cong [OF codec_map [OF codec_array [of 2], where f = u16_from_be_bytes
      and g = u16_to_be_bytes and valid' = "\<lambda>_. True"]]) (auto simp: u16_to_from_be_bytes reader_u16_def)

lemma codec_u32: "codec (\<lambda>w. Inr (u32_to_be_bytes w)) (reader_u32 label) (\<lambda>_. True)"
  by (rule codec_cong [OF codec_map [OF codec_array [of 4], where f = u32_from_be_bytes
      and g = u32_to_be_bytes and valid' = "\<lambda>_. True"]]) (auto simp: u32_to_from_be_bytes reader_u32_def)

lemma codec_u64: "codec (\<lambda>w. Inr (u64_to_be_bytes w)) (reader_u64 label) (\<lambda>_. True)"
  by (rule codec_cong [OF codec_map [OF codec_array [of 8], where f = u64_from_be_bytes
      and g = u64_to_be_bytes and valid' = "\<lambda>_. True"]]) (auto simp: u64_to_from_be_bytes reader_u64_def)

section \<open>Composition\<close>

text \<open>Two fields in a row.\<close>

lemma codec_pair:
  assumes a: "codec enc1 decode1 valid1" and b: "codec enc2 decode2 valid2"
  shows "codec (\<lambda>p. and_then (enc1 (fst p)) (\<lambda>u. and_then (enc2 (snd p)) (\<lambda>v. Inr (u @ v))))
    (\<lambda>bs. and_then (decode1 bs) (\<lambda>(x, r). and_then (decode2 r) (\<lambda>(y, r'). Inr ((x, y), r'))))
    (\<lambda>p. valid1 (fst p) \<and> valid2 (snd p))"
proof (rule codecI)
  fix p :: "'a \<times> 'b"
  assume v: "valid1 (fst p) \<and> valid2 (snd p)"
  then obtain u w where u: "enc1 (fst p) = Inr u" and w: "enc2 (snd p) = Inr w"
    using codec.enc_total [OF a] codec.enc_total [OF b] by blast
  moreover have "decode1 (u @ w @ rest) = Inr (fst p, w @ rest)" for rest
    using codec.dec_enc [OF a _ u] v by blast
  moreover have "decode2 (w @ rest) = Inr (snd p, rest)" for rest
    using codec.dec_enc [OF b _ w] v by blast
  ultimately show "\<exists>bs. and_then (enc1 (fst p)) (\<lambda>u. and_then (enc2 (snd p)) (\<lambda>v. Inr (u @ v))) = Inr bs \<and>
      (\<forall>rest. and_then (decode1 (bs @ rest)) (\<lambda>(x, r). and_then (decode2 r)
        (\<lambda>(y, r'). Inr ((x, y), r'))) = Inr (p, rest))"
    by auto
next
  fix bs :: bytes and p :: "'a \<times> 'b" and rest
  assume "and_then (decode1 bs) (\<lambda>(x, r). and_then (decode2 r) (\<lambda>(y, r'). Inr ((x, y), r'))) = Inr (p, rest)"
  then obtain r where 1: "decode1 bs = Inr (fst p, r)" and 2: "decode2 r = Inr (snd p, rest)"
    by (auto simp: and_then_eq_Inr)
  obtain u where "valid1 (fst p)" "enc1 (fst p) = Inr u" "bs = u @ r"
    using 1 by (rule codec.decE [OF a])
  moreover obtain w where "valid2 (snd p)" "enc2 (snd p) = Inr w" "r = w @ rest"
    using 2 by (rule codec.decE [OF b])
  ultimately show "(valid1 (fst p) \<and> valid2 (snd p)) \<and>
      (\<exists>q. and_then (enc1 (fst p)) (\<lambda>u. and_then (enc2 (snd p)) (\<lambda>v. Inr (u @ v))) = Inr q \<and> bs = q @ rest)"
    by auto
qed

text \<open>A count followed by that many items.\<close>

definition encode_list :: "('a \<Rightarrow> bytes result) \<Rightarrow> string \<Rightarrow> 'a list \<Rightarrow> bytes result" where
  "encode_list enc label xs =
     and_then (encode_count (length xs) label) (\<lambda>l.
     and_then (try_map enc xs) (\<lambda>ps. Inr (l @ concat ps)))"

definition reader_list :: "nat \<Rightarrow> string \<Rightarrow> 'a reader \<Rightarrow> 'a list reader" where
  "reader_list maximum label f bs =
     and_then (reader_count maximum label bs) (\<lambda>(n, r). reader_many n f r)"

lemma codec_count:
  assumes "maximum < 2 ^ 32"
  shows "codec (\<lambda>n. encode_count n label) (reader_count maximum label') (\<lambda>n. n \<le> maximum)"
proof (rule codecI)
  fix n assume n: "n \<le> maximum"
  then have "unat (word_of_nat n :: u32) = n"
    using assms by (simp add: unat_of_nat)
  then show "\<exists>bs. encode_count n label = Inr bs \<and>
      (\<forall>rest. reader_count maximum label' (bs @ rest) = Inr (n, rest))"
    using n assms codec.dec_enc [OF codec_u32]
    by (simp add: encode_count_def reader_count_def)
next
  fix bs n rest
  assume "reader_count maximum label' bs = Inr (n, rest)"
  then obtain w where w: "reader_u32 label' bs = Inr (w, rest)" and n: "n = unat w" "n \<le> maximum"
    by (auto simp: reader_count_def and_then_eq_Inr if_bail_eq_Inr)
  show "n \<le> maximum \<and> (\<exists>p. encode_count n label = Inr p \<and> bs = p @ rest)"
    using codec.enc_dec [OF codec_u32 w] n assms by (simp add: encode_count_def)
qed

lemma codec_list:
  assumes c: "codec enc decode valid" and m: "maximum < 2 ^ 32"
  shows "codec (encode_list enc label) (reader_list maximum label' decode)
    (\<lambda>xs. length xs \<le> maximum \<and> (\<forall>x\<in>set xs. valid x))"
proof (rule codecI)
  fix xs assume v: "length xs \<le> maximum \<and> (\<forall>x\<in>set xs. valid x)"
  obtain ps where "try_map enc xs = Inr ps"
      "\<forall>rest. reader_many (length xs) decode (concat ps @ rest) = Inr (xs, rest)"
    using codec.many_enc [OF c] v by blast
  moreover obtain l where l: "encode_count (length xs) label = Inr l"
    using codec.enc_total [OF codec_count [OF m, of label label']] v by blast
  moreover have "\<forall>rest. reader_count maximum label' (l @ rest) = Inr (length xs, rest)"
    using codec.dec_enc [OF codec_count [OF m] _ l] v by blast
  ultimately show "\<exists>bs. encode_list enc label xs = Inr bs \<and>
      (\<forall>rest. reader_list maximum label' decode (bs @ rest) = Inr (xs, rest))"
    by (auto simp: encode_list_def reader_list_def)
next
  fix bs xs rest
  assume "reader_list maximum label' decode bs = Inr (xs, rest)"
  then obtain n r where n: "reader_count maximum label' bs = Inr (n, r)"
    and xs: "reader_many n decode r = Inr (xs, rest)"
    by (auto simp: reader_list_def and_then_eq_Inr)
  show "(length xs \<le> maximum \<and> (\<forall>x\<in>set xs. valid x)) \<and>
      (\<exists>p. encode_list enc label xs = Inr p \<and> bs = p @ rest)"
    using codec.many_dec [OF c xs] codec.enc_dec [OF codec_count [OF m, of label label'] n]
    by (auto simp: encode_list_def)
qed

text \<open>A byte string behind its length.\<close>

lemma codec_prefixed:
  assumes m: "maximum < 2 ^ 32"
  shows "codec (\<lambda>v. encode_prefixed v label) (reader_length_prefixed maximum label')
    (\<lambda>v. length v \<le> maximum)"
proof (rule codecI)
  fix v :: bytes assume v: "length v \<le> maximum"
  then have "unat (word_of_nat (length v) :: u32) = length v"
    using m by (simp add: unat_of_nat)
  then show "\<exists>bs. encode_prefixed v label = Inr bs \<and>
      (\<forall>rest. reader_length_prefixed maximum label' (bs @ rest) = Inr (v, rest))"
    using v m codec.dec_enc [OF codec_u32]
    by (simp add: encode_prefixed_def encode_count_def reader_length_prefixed_def reader_take_def)
next
  fix bs v rest
  assume "reader_length_prefixed maximum label' bs = Inr (v, rest)"
  then obtain w r where w: "reader_u32 label' bs = Inr (w, r)" and le: "unat w \<le> maximum"
    and v: "reader_take (unat w) label' r = Inr (v, rest)"
    by (auto simp: reader_length_prefixed_def and_then_eq_Inr if_bail_eq_Inr)
  have len: "length v = unat w" and r: "r = v @ rest"
    using codec.enc_dec [OF codec_take v] by auto
  show "length v \<le> maximum \<and> (\<exists>p. encode_prefixed v label = Inr p \<and> bs = p @ rest)"
    using codec.enc_dec [OF codec_u32 w] le m len r
    by (simp add: encode_prefixed_def encode_count_def)
qed

text \<open>An optional value behind a presence marker.\<close>

definition encode_optional :: "('a \<Rightarrow> bytes result) \<Rightarrow> 'a option \<Rightarrow> bytes result" where
  "encode_optional enc v =
     (case v of None \<Rightarrow> Inr [0] | Some x \<Rightarrow> and_then (enc x) (\<lambda>p. Inr (1 # p)))"

definition reader_optional :: "string \<Rightarrow> 'a reader \<Rightarrow> 'a option reader" where
  "reader_optional label f bs =
     and_then (reader_u8 label bs) (\<lambda>(marker, r).
       if marker = 0 then Inr (None, r)
       else if marker = 1 then and_then (f r) (\<lambda>(x, r'). Inr (Some x, r'))
       else bail (label @ '' has invalid presence marker '' @ dec (unat marker)))"

lemma reader_u8_Cons [simp]: "reader_u8 label (b # r) = Inr (b, r)"
  by (simp add: reader_u8_def reader_take_def)

lemma reader_u8_eq_Inr: "reader_u8 label bs = Inr (b, r) \<longleftrightarrow> bs = b # r"
  by (cases bs) (auto simp: reader_u8_def reader_take_def)

lemma codec_optional:
  assumes c: "codec enc decode valid"
  shows "codec (encode_optional enc) (reader_optional label decode)
    (\<lambda>v. case v of None \<Rightarrow> True | Some x \<Rightarrow> valid x)"
proof (rule codecI)
  fix v assume v: "case v of None \<Rightarrow> True | Some x \<Rightarrow> valid x"
  show "\<exists>bs. encode_optional enc v = Inr bs \<and>
      (\<forall>rest. reader_optional label decode (bs @ rest) = Inr (v, rest))"
  proof (cases v)
    case (Some x)
    then obtain p where p: "enc x = Inr p" using v codec.enc_total [OF c] by auto
    then have "\<forall>rest. decode (p @ rest) = Inr (x, rest)"
      using codec.dec_enc [OF c _ p] v Some by auto
    then show ?thesis using Some p by (auto simp: encode_optional_def reader_optional_def)
  qed (auto simp: encode_optional_def reader_optional_def)
next
  fix bs v rest
  assume "reader_optional label decode bs = Inr (v, rest)"
  then consider "bs = 0 # rest" "v = None"
    | r x where "bs = 1 # r" "decode r = Inr (x, rest)" "v = Some x"
    by (auto simp: reader_optional_def and_then_eq_Inr reader_u8_eq_Inr split: if_splits)
  then show "(case v of None \<Rightarrow> True | Some x \<Rightarrow> valid x) \<and>
      (\<exists>p. encode_optional enc v = Inr p \<and> bs = p @ rest)"
  proof cases
    case 2
    then show ?thesis using codec.enc_dec [OF c 2(2)] by (auto simp: encode_optional_def)
  qed (simp add: encode_optional_def)
qed

end
