(* ===== verification/Transaction_V2.thy ===== *)
theory Transaction_V2
  imports Address Wire_Codec
begin

text \<open>
  Hybrid transactions (\<open>src/domain/transaction_v2.rs\<close>): the four kinds of transaction, shape
  validation, the authorization policies before and after aggregation, signature
  verification, and the canonical wire format with its decoder. Fixed size arrays are byte
  lists whose length the well-formedness predicates state.
\<close>

section \<open>Data\<close>

definition TRANSACTION_V2_TAG :: bytes where "TRANSACTION_V2_TAG = as_bytes ''IUNA-TX-V2''"
definition ADDRESS_V1_COMMITMENT_TAG :: bytes where
  "ADDRESS_V1_COMMITMENT_TAG = as_bytes ''IUNA-ADDRESS-V1''"
definition MAX_CHAIN_ID_BYTES :: nat where "MAX_CHAIN_ID_BYTES = 64"
definition MAX_V2_INPUTS :: nat where "MAX_V2_INPUTS = 1000"
definition MAX_V2_OUTPUTS :: nat where "MAX_V2_OUTPUTS = 1000"
definition STRATUM_PROOF_HEADER_BYTES :: nat where "STRATUM_PROOF_HEADER_BYTES = 80"
definition TRANSACTION_V2_WIRE_VERSION :: u16 where "TRANSACTION_V2_WIRE_VERSION = 2"
definition TRANSACTION_V2_ACTIVATION_HEIGHT :: "u64 option" where
  "TRANSACTION_V2_ACTIVATION_HEIGHT = Some 3000"
definition TRANSACTION_V2_AUTHORIZATION_AGGREGATION_ACTIVATION_HEIGHT :: u64 where
  "TRANSACTION_V2_AUTHORIZATION_AGGREGATION_ACTIVATION_HEIGHT = 4500"

record TransactionV2Domain =
  v2_chain_id :: string
  v2_genesis_hash :: bytes

record TransactionV2Input =
  v2in_txid :: bytes
  v2in_index :: u32
  v2in_owner :: VersionedAddress

datatype LegacyTransactionId = LegacyHash bytes | LegacySignature bytes

record TransactionV2LegacyInput =
  leg_id :: LegacyTransactionId
  leg_index :: u32
  leg_owner :: VersionedAddress

record TransactionV2Output =
  v2out_address :: VersionedAddress
  v2out_amount :: u64

record V2SpendingAuthorization =
  auth_public_key :: ProtocolPublicKey
  auth_signature :: ProtocolSignature

text \<open>
  \<open>V2Migration inputs outputs fee authorizations\<close>,
  \<open>V2Transfer inputs outputs fee authorizations\<close>,
  \<open>V2Burn inputs change amount fee anchor authorizations\<close> and
  \<open>V2Mine recipient anchor salt nonce difficulty_bits proof_header proof_hash\<close>.
\<close>

datatype TransactionV2 =
    V2Migration "TransactionV2LegacyInput list" "TransactionV2Output list" u64
      "V2SpendingAuthorization list"
  | V2Transfer "TransactionV2Input list" "TransactionV2Output list" u64
      "V2SpendingAuthorization list"
  | V2Burn "TransactionV2Input list" "TransactionV2Output list" u64 u64 "bytes option"
      "V2SpendingAuthorization list"
  | V2Mine VersionedAddress bytes u64 u64 u32 "bytes option" bytes

definition is_ascii :: "string \<Rightarrow> bool" where
  "is_ascii s = list_all (\<lambda>c. (of_char c :: nat) < 128) s"

definition v2_domain_new :: "string \<Rightarrow> bytes \<Rightarrow> TransactionV2Domain result" where
  "v2_domain_new chain_id genesis_hash =
     (if chain_id = [] \<or> MAX_CHAIN_ID_BYTES < length chain_id \<or> \<not> is_ascii chain_id
      then bail (''transaction v2 chain ID must contain 1..='' @ dec MAX_CHAIN_ID_BYTES @ '' ASCII bytes'')
      else Inr \<lparr>v2_chain_id = chain_id, v2_genesis_hash = genesis_hash\<rparr>)"

definition authorization_new ::
  "ProtocolPublicKey \<Rightarrow> ProtocolSignature \<Rightarrow> V2SpendingAuthorization result" where
  "authorization_new k s =
     (if pk_scheme k \<noteq> sig_scheme s
      then bail ''transaction v2 public key and signature schemes differ''
      else Inr \<lparr>auth_public_key = k, auth_signature = s\<rparr>)"

definition auth_scheme :: "V2SpendingAuthorization \<Rightarrow> SignatureScheme" where
  "auth_scheme a = pk_scheme (auth_public_key a)"

definition length_prefixed :: "bytes \<Rightarrow> bytes" where
  "length_prefixed bs = u32_to_be_bytes (word_of_nat (length bs)) @ bs"

definition public_key_commitment :: "crypto \<Rightarrow> ProtocolPublicKey \<Rightarrow> bytes" where
  "public_key_commitment cr k =
     sha256 cr (ADDRESS_V1_COMMITMENT_TAG @ [scheme_wire_id (pk_scheme k)] @
       (if pk_scheme k = HybridEd25519MlDsa44
        then length_prefixed (take 32 (pk_bytes k)) @ length_prefixed (drop 32 (pk_bytes k))
        else length_prefixed (pk_bytes k)))"

definition hybrid_key_commitment_address :: "crypto \<Rightarrow> ProtocolPublicKey \<Rightarrow> VersionedAddress result" where
  "hybrid_key_commitment_address cr k =
     (if pk_scheme k \<noteq> HybridEd25519MlDsa44
      then bail ''address v1 requires an Ed25519 + ML-DSA-44 public key''
      else Inr \<lparr>addr_version = HybridKeyCommitment, addr_payload = public_key_commitment cr k\<rparr>)"

definition committed_address :: "crypto \<Rightarrow> V2SpendingAuthorization \<Rightarrow> VersionedAddress result" where
  "committed_address cr a = hybrid_key_commitment_address cr (auth_public_key a)"

definition authorized_address :: "crypto \<Rightarrow> V2SpendingAuthorization \<Rightarrow> VersionedAddress result" where
  "authorized_address cr a =
     (case pk_scheme (auth_public_key a) of
        Ed25519 \<Rightarrow>
          (if length (pk_bytes (auth_public_key a)) = 32
           then Inr \<lparr>addr_version = Ed25519PublicKey, addr_payload = pk_bytes (auth_public_key a)\<rparr>
           else bail ''Ed25519 authorization has an invalid public key length'')
      | HybridEd25519MlDsa44 \<Rightarrow> hybrid_key_commitment_address cr (auth_public_key a)
      | MlDsa44 \<Rightarrow> bail ''ML-DSA-only transaction v2 authorizations are not supported'')"

section \<open>Accessors\<close>

fun v2_is_burn :: "TransactionV2 \<Rightarrow> bool" where
  "v2_is_burn (V2Burn ins change a f anchor auths) = True"
| "v2_is_burn _ = False"

fun v2_amount :: "TransactionV2 \<Rightarrow> u64" where
  "v2_amount (V2Burn ins change a f anchor auths) = a"
| "v2_amount _ = 0"

fun v2_burn_anchor :: "TransactionV2 \<Rightarrow> bytes option" where
  "v2_burn_anchor (V2Burn ins change a f anchor auths) = anchor"
| "v2_burn_anchor _ = None"

fun v2_fee :: "TransactionV2 \<Rightarrow> u64" where
  "v2_fee (V2Migration ins outs f auths) = f"
| "v2_fee (V2Transfer ins outs f auths) = f"
| "v2_fee (V2Burn ins change a f anchor auths) = f"
| "v2_fee (V2Mine recipient anchor salt nonce bits header hash) = 0"

fun v2_input_count :: "TransactionV2 \<Rightarrow> nat" where
  "v2_input_count (V2Migration ins outs f auths) = length ins"
| "v2_input_count (V2Transfer ins outs f auths) = length ins"
| "v2_input_count (V2Burn ins change a f anchor auths) = length ins"
| "v2_input_count (V2Mine recipient anchor salt nonce bits header hash) = 0"

fun v2_outputs :: "TransactionV2 \<Rightarrow> TransactionV2Output list" where
  "v2_outputs (V2Migration ins outs f auths) = outs"
| "v2_outputs (V2Transfer ins outs f auths) = outs"
| "v2_outputs (V2Burn ins change a f anchor auths) = change"
| "v2_outputs (V2Mine recipient anchor salt nonce bits header hash) = []"

fun authorizations :: "TransactionV2 \<Rightarrow> V2SpendingAuthorization list" where
  "authorizations (V2Migration ins outs f auths) = auths"
| "authorizations (V2Transfer ins outs f auths) = auths"
| "authorizations (V2Burn ins change a f anchor auths) = auths"
| "authorizations (V2Mine recipient anchor salt nonce bits header hash) = []"

text \<open>The order preserving removal of repeated owners.\<close>

definition unique_list :: "'a list \<Rightarrow> 'a list" where
  "unique_list xs = foldl (\<lambda>acc x. if x \<in> set acc then acc else acc @ [x]) [] xs"

fun all_input_owners :: "TransactionV2 \<Rightarrow> VersionedAddress list" where
  "all_input_owners (V2Migration ins outs f auths) = map leg_owner ins"
| "all_input_owners (V2Transfer ins outs f auths) = map v2in_owner ins"
| "all_input_owners (V2Burn ins change a f anchor auths) = map v2in_owner ins"
| "all_input_owners (V2Mine recipient anchor salt nonce bits header hash) = []"

definition input_owners :: "TransactionV2 \<Rightarrow> VersionedAddress list" where
  "input_owners tx = unique_list (all_input_owners tx)"

fun v2_is_mine :: "TransactionV2 \<Rightarrow> bool" where
  "v2_is_mine (V2Mine recipient anchor salt nonce bits header hash) = True"
| "v2_is_mine _ = False"

fun burn_legacy_owner :: "crypto \<Rightarrow> TransactionV2 \<Rightarrow> string option result" where
  "burn_legacy_owner cr (V2Burn ins change a f anchor auths) =
     (case ins of
        [] \<Rightarrow> bail ''transaction v2 burn has no owner''
      | i # _ \<Rightarrow>
          if list_ex (\<lambda>j. v2in_owner j \<noteq> v2in_owner i) ins
          then bail ''transaction v2 burn inputs must have one owner''
          else
            (case auths of
               [] \<Rightarrow> bail ''transaction v2 burn has no authorization''
             | auth # _ \<Rightarrow>
                 if auth_scheme auth \<noteq> HybridEd25519MlDsa44 \<or>
                    list_ex (\<lambda>c. pk_bytes (auth_public_key c) \<noteq> pk_bytes (auth_public_key auth)) auths
                 then bail ''transaction v2 burn must use one hybrid wallet identity''
                 else
                   and_then (committed_address cr auth) (\<lambda>addr.
                   if addr \<noteq> v2in_owner i
                   then bail ''transaction v2 burn authorization does not match its owner''
                   else Inr (Some (hex_encode (take 32 (pk_bytes (auth_public_key auth))))))))"
| "burn_legacy_owner cr tx = Inr None"

definition hybrid_legacy_owner_bindings ::
  "crypto \<Rightarrow> TransactionV2 \<Rightarrow> (VersionedAddress \<times> string) list result" where
  "hybrid_legacy_owner_bindings cr tx =
     try_fold (\<lambda>bindings auth.
       if auth_scheme auth \<noteq> HybridEd25519MlDsa44 then Inr bindings
       else
         and_then (authorized_address cr auth) (\<lambda>hybrid_owner.
         if hybrid_owner \<notin> set (input_owners tx) then Inr bindings
         else
           (let legacy_owner = hex_encode (take 32 (pk_bytes (auth_public_key auth))) in
            if (hybrid_owner, legacy_owner) \<in> set bindings then Inr bindings
            else Inr (bindings @ [(hybrid_owner, legacy_owner)]))))
     [] (authorizations tx)"

section \<open>Shape\<close>

fun validate_kind_shape :: "TransactionV2 \<Rightarrow> unit result" where
  "validate_kind_shape (V2Migration ins outs f auths) =
     (if ins = [] then bail ''transaction v2 migration requires at least one input''
      else if length outs \<noteq> 1 \<or> addr_version (v2out_address (hd outs)) \<noteq> HybridKeyCommitment
      then bail ''transaction v2 migration requires exactly one address-v1 output''
      else if \<not> distinct (map (\<lambda>i. (leg_id i, leg_index i)) ins)
      then bail ''transaction v2 migration contains a duplicate input''
      else Inr ())"
| "validate_kind_shape (V2Transfer ins outs f auths) =
     (if ins = [] \<or> outs = [] then bail ''transaction v2 transfer requires inputs and outputs''
      else if list_ex (\<lambda>o1. addr_version (v2out_address o1) \<noteq> HybridKeyCommitment) outs
      then bail ''transaction v2 transfer outputs must use address v1''
      else if \<not> distinct (map (\<lambda>i. (v2in_txid i, v2in_index i)) ins)
      then bail ''transaction v2 transfer contains a duplicate input''
      else Inr ())"
| "validate_kind_shape (V2Burn ins change a f anchor auths) =
     (if ins = [] \<or> a = 0 then bail ''transaction v2 burn requires inputs and a positive amount''
      else if list_ex (\<lambda>o1. addr_version (v2out_address o1) \<noteq> HybridKeyCommitment) change
      then bail ''transaction v2 burn change must use address v1''
      else if \<not> distinct (map (\<lambda>i. (v2in_txid i, v2in_index i)) ins)
      then bail ''transaction v2 burn contains a duplicate input''
      else Inr ())"
| "validate_kind_shape (V2Mine recipient anchor salt nonce bits header hash) = Inr ()"

definition validate_unsigned_shape :: "TransactionV2 \<Rightarrow> unit result" where
  "validate_unsigned_shape tx =
     (if MAX_V2_INPUTS < v2_input_count tx then bail ''transaction v2 has too many inputs''
      else if MAX_V2_OUTPUTS < length (v2_outputs tx) then bail ''transaction v2 has too many outputs''
      else if list_ex (\<lambda>o1. v2out_amount o1 = 0) (v2_outputs tx)
      then bail ''transaction v2 outputs must be greater than zero''
      else validate_kind_shape tx)"

definition validate_shape :: "TransactionV2 \<Rightarrow> unit result" where
  "validate_shape tx =
     and_then (validate_unsigned_shape tx) (\<lambda>_.
     if \<not> v2_is_mine tx \<and> length (authorizations tx) \<noteq> v2_input_count tx \<and>
        length (authorizations tx) \<noteq> length (input_owners tx)
     then bail ''transaction v2 authorization count is invalid''
     else Inr ())"

section \<open>Wire format\<close>

definition v2_encode_address :: "VersionedAddress \<Rightarrow> bytes result" where
  "v2_encode_address a = Inr (version_wire_id (addr_version a) # addr_payload a)"

definition v2_decode_address :: "string \<Rightarrow> VersionedAddress reader" where
  "v2_decode_address label bs =
     and_then (reader_u8 label bs) (\<lambda>(version_id, r).
     and_then (ok_or (''unsupported address version '' @ dec (unat version_id))
       (version_from_wire_id version_id)) (\<lambda>version.
     and_then (reader_array 32 label r) (\<lambda>(payload, r').
     Inr (\<lparr>addr_version = version, addr_payload = payload\<rparr>, r'))))"

definition encode_prefix :: "TransactionV2Domain \<Rightarrow> bytes result" where
  "encode_prefix d =
     and_then (encode_prefixed (as_bytes (v2_chain_id d)) ''chain ID'') (\<lambda>cid.
     Inr (TRANSACTION_V2_TAG @ u16_to_be_bytes TRANSACTION_V2_WIRE_VERSION @ cid @ v2_genesis_hash d))"

definition v2_encode_input :: "TransactionV2Input \<Rightarrow> bytes result" where
  "v2_encode_input i =
     and_then (v2_encode_address (v2in_owner i)) (\<lambda>owner.
     Inr (v2in_txid i @ u32_to_be_bytes (v2in_index i) @ owner))"

definition v2_encode_inputs :: "TransactionV2Input list \<Rightarrow> bytes result" where
  "v2_encode_inputs = encode_list v2_encode_input ''input count''"

definition v2_decode_input :: "TransactionV2Input reader" where
  "v2_decode_input bs =
     and_then (reader_array 32 ''input transaction ID'' bs) (\<lambda>(txid, r1).
     and_then (reader_u32 ''input output index'' r1) (\<lambda>(index, r2).
     and_then (v2_decode_address ''input owner'' r2) (\<lambda>(owner, r3).
     Inr (\<lparr>v2in_txid = txid, v2in_index = index, v2in_owner = owner\<rparr>, r3))))"

definition v2_decode_inputs :: "TransactionV2Input list reader" where
  "v2_decode_inputs = reader_list MAX_V2_INPUTS ''input count'' v2_decode_input"

fun encode_legacy_id :: "LegacyTransactionId \<Rightarrow> bytes result" where
  "encode_legacy_id (LegacyHash h) = Inr (0 # h)"
| "encode_legacy_id (LegacySignature s) = Inr (1 # s)"

definition decode_legacy_id :: "LegacyTransactionId reader" where
  "decode_legacy_id bs =
     and_then (reader_u8 ''legacy input ID kind'' bs) (\<lambda>(kind, r).
     if kind = 0
     then and_then (reader_array 32 ''legacy input hash'' r) (\<lambda>(h, r'). Inr (LegacyHash h, r'))
     else if kind = 1
     then and_then (reader_array 64 ''legacy input transaction signature'' r)
       (\<lambda>(s, r'). Inr (LegacySignature s, r'))
     else bail (''unsupported legacy input ID kind '' @ dec (unat kind)))"

definition encode_legacy_input :: "TransactionV2LegacyInput \<Rightarrow> bytes result" where
  "encode_legacy_input i =
     and_then (encode_legacy_id (leg_id i)) (\<lambda>id.
     and_then (v2_encode_address (leg_owner i)) (\<lambda>owner.
     Inr (id @ u32_to_be_bytes (leg_index i) @ owner)))"

definition encode_legacy_inputs :: "TransactionV2LegacyInput list \<Rightarrow> bytes result" where
  "encode_legacy_inputs = encode_list encode_legacy_input ''legacy input count''"

definition decode_legacy_input :: "TransactionV2LegacyInput reader" where
  "decode_legacy_input bs =
     and_then (decode_legacy_id bs) (\<lambda>(id, r1).
     and_then (reader_u32 ''legacy input output index'' r1) (\<lambda>(index, r2).
     and_then (v2_decode_address ''legacy input owner'' r2) (\<lambda>(owner, r3).
     Inr (\<lparr>leg_id = id, leg_index = index, leg_owner = owner\<rparr>, r3))))"

definition decode_legacy_inputs :: "TransactionV2LegacyInput list reader" where
  "decode_legacy_inputs = reader_list MAX_V2_INPUTS ''legacy input count'' decode_legacy_input"

definition v2_encode_output :: "TransactionV2Output \<Rightarrow> bytes result" where
  "v2_encode_output o1 =
     and_then (v2_encode_address (v2out_address o1)) (\<lambda>a. Inr (a @ u64_to_be_bytes (v2out_amount o1)))"

definition v2_encode_outputs :: "TransactionV2Output list \<Rightarrow> bytes result" where
  "v2_encode_outputs = encode_list v2_encode_output ''output count''"

definition v2_decode_output :: "TransactionV2Output reader" where
  "v2_decode_output bs =
     and_then (v2_decode_address ''output address'' bs) (\<lambda>(address, r1).
     and_then (reader_u64 ''output amount'' r1) (\<lambda>(amt, r2).
     Inr (\<lparr>v2out_address = address, v2out_amount = amt\<rparr>, r2)))"

definition v2_decode_outputs :: "TransactionV2Output list reader" where
  "v2_decode_outputs = reader_list MAX_V2_OUTPUTS ''output count'' v2_decode_output"

fun encode_unsigned_body :: "TransactionV2 \<Rightarrow> bytes result" where
  "encode_unsigned_body (V2Migration ins outs f auths) =
     and_then (encode_legacy_inputs ins) (\<lambda>i.
     and_then (v2_encode_outputs outs) (\<lambda>o1. Inr ([4] @ i @ o1 @ u64_to_be_bytes f)))"
| "encode_unsigned_body (V2Transfer ins outs f auths) =
     and_then (v2_encode_inputs ins) (\<lambda>i.
     and_then (v2_encode_outputs outs) (\<lambda>o1. Inr ([1] @ i @ o1 @ u64_to_be_bytes f)))"
| "encode_unsigned_body (V2Burn ins change a f anchor auths) =
     and_then (v2_encode_inputs ins) (\<lambda>i.
     and_then (v2_encode_outputs change) (\<lambda>o1.
     and_then (encode_optional Inr anchor) (\<lambda>anc.
     Inr ([2] @ i @ o1 @ u64_to_be_bytes a @ u64_to_be_bytes f @ anc))))"
| "encode_unsigned_body (V2Mine recipient anchor salt nonce bits header hash) =
     and_then (v2_encode_address recipient) (\<lambda>r.
     and_then (encode_optional Inr header) (\<lambda>h.
     Inr ([3] @ r @ anchor @ u64_to_be_bytes salt @ u64_to_be_bytes nonce @ u32_to_be_bytes bits @
          h @ hash)))"

definition v2_signing_bytes :: "TransactionV2 \<Rightarrow> TransactionV2Domain \<Rightarrow> bytes result" where
  "v2_signing_bytes tx d =
     and_then (validate_unsigned_shape tx) (\<lambda>_.
     and_then (encode_prefix d) (\<lambda>prefix.
     and_then (encode_unsigned_body tx) (\<lambda>body. Inr (prefix @ body))))"

definition encode_authorization :: "V2SpendingAuthorization \<Rightarrow> bytes result" where
  "encode_authorization a =
     and_then (encode_prefixed (pk_bytes (auth_public_key a)) ''authorization public key'') (\<lambda>k.
     and_then (encode_prefixed (sig_bytes (auth_signature a)) ''authorization signature'') (\<lambda>s.
     Inr ([scheme_wire_id (auth_scheme a)] @ k @ s)))"

definition v2_encode :: "TransactionV2 \<Rightarrow> TransactionV2Domain \<Rightarrow> bytes result" where
  "v2_encode tx d =
     and_then (validate_shape tx) (\<lambda>_.
     and_then (v2_signing_bytes tx d) (\<lambda>unsigned.
     and_then (encode_list encode_authorization ''authorization count'' (authorizations tx)) (\<lambda>auths.
     Inr (unsigned @ auths))))"

text \<open>\<open>std::str::from_utf8\<close> on the chain ID.\<close>

fun valid_utf8 :: "bytes \<Rightarrow> bool" where
  "valid_utf8 [] = True"
| "valid_utf8 (b # bs) =
     (let cont = (\<lambda>c :: u8. 0x80 \<le> c \<and> c \<le> 0xBF) in
      if b \<le> 0x7F then valid_utf8 bs
      else if 0xC2 \<le> b \<and> b \<le> 0xDF then
        (case bs of c # r \<Rightarrow> cont c \<and> valid_utf8 r | _ \<Rightarrow> False)
      else if 0xE0 \<le> b \<and> b \<le> 0xEF then
        (case bs of c # d # r \<Rightarrow>
             (if b = 0xE0 then 0xA0 \<le> c \<and> c \<le> 0xBF
              else if b = 0xED then 0x80 \<le> c \<and> c \<le> 0x9F
              else cont c) \<and> cont d \<and> valid_utf8 r
         | _ \<Rightarrow> False)
      else if 0xF0 \<le> b \<and> b \<le> 0xF4 then
        (case bs of c # d # e # r \<Rightarrow>
             (if b = 0xF0 then 0x90 \<le> c \<and> c \<le> 0xBF
              else if b = 0xF4 then 0x80 \<le> c \<and> c \<le> 0x8F
              else cont c) \<and> cont d \<and> cont e \<and> valid_utf8 r
         | _ \<Rightarrow> False)
      else False)"

datatype UnsignedDecoded =
    UDMigration "TransactionV2LegacyInput list" "TransactionV2Output list" u64
  | UDTransfer "TransactionV2Input list" "TransactionV2Output list" u64
  | UDBurn "TransactionV2Input list" "TransactionV2Output list" u64 u64 "bytes option"
  | UDMine VersionedAddress bytes u64 u64 u32 "bytes option" bytes

fun with_authorizations :: "UnsignedDecoded \<Rightarrow> V2SpendingAuthorization list \<Rightarrow> TransactionV2 result" where
  "with_authorizations (UDMigration ins outs f) auths = Inr (V2Migration ins outs f auths)"
| "with_authorizations (UDTransfer ins outs f) auths = Inr (V2Transfer ins outs f auths)"
| "with_authorizations (UDBurn ins change a f anchor) auths = Inr (V2Burn ins change a f anchor auths)"
| "with_authorizations (UDMine recipient anchor salt nonce bits header hash) auths =
     (if auths \<noteq> [] then bail ''mine transaction v2 cannot contain spending authorizations''
      else Inr (V2Mine recipient anchor salt nonce bits header hash))"

definition decode_prefix :: "TransactionV2Domain reader" where
  "decode_prefix bs =
     and_then (reader_take (length TRANSACTION_V2_TAG) ''transaction v2 tag'' bs) (\<lambda>(tag, r1).
     if tag \<noteq> TRANSACTION_V2_TAG then bail ''transaction v2 tag is invalid''
     else
       and_then (reader_u16 ''transaction version'' r1) (\<lambda>(version, r2).
       if version \<noteq> TRANSACTION_V2_WIRE_VERSION
       then bail (''unsupported transaction version '' @ dec (unat version))
       else
         and_then (reader_length_prefixed MAX_CHAIN_ID_BYTES ''chain ID'' r2) (\<lambda>(cid, r3).
         if \<not> valid_utf8 cid then bail ''transaction v2 chain ID is not UTF-8''
         else
           and_then (reader_array 32 ''genesis hash'' r3) (\<lambda>(genesis, r4).
           and_then (v2_domain_new (string_of_bytes cid) genesis) (\<lambda>d. Inr (d, r4))))))"

definition decode_transfer_body :: "UnsignedDecoded reader" where
  "decode_transfer_body bs =
     and_then (v2_decode_inputs bs) (\<lambda>(ins, r1).
     and_then (v2_decode_outputs r1) (\<lambda>(outs, r2).
     and_then (reader_u64 ''transfer fee'' r2) (\<lambda>(f, r3). Inr (UDTransfer ins outs f, r3))))"

definition decode_burn_body :: "UnsignedDecoded reader" where
  "decode_burn_body bs =
     and_then (v2_decode_inputs bs) (\<lambda>(ins, r1).
     and_then (v2_decode_outputs r1) (\<lambda>(change, r2).
     and_then (reader_u64 ''burn amount'' r2) (\<lambda>(a, r3).
     and_then (reader_u64 ''burn fee'' r3) (\<lambda>(f, r4).
     and_then (reader_optional ''burn anchor'' (reader_array 32 ''burn anchor'') r4) (\<lambda>(anchor, r5).
     Inr (UDBurn ins change a f anchor, r5))))))"

definition decode_mine_body :: "UnsignedDecoded reader" where
  "decode_mine_body bs =
     and_then (v2_decode_address ''mine recipient'' bs) (\<lambda>(recipient, r1).
     and_then (reader_array 32 ''mine anchor'' r1) (\<lambda>(anchor, r2).
     and_then (reader_u64 ''mine salt'' r2) (\<lambda>(salt, r3).
     and_then (reader_u64 ''mine nonce'' r3) (\<lambda>(nonce, r4).
     and_then (reader_u32 ''mine difficulty'' r4) (\<lambda>(bits, r5).
     and_then (reader_optional ''proof header''
       (reader_array STRATUM_PROOF_HEADER_BYTES ''proof header'') r5) (\<lambda>(header, r6).
     and_then (reader_array 32 ''proof hash'' r6) (\<lambda>(hash, r7).
     Inr (UDMine recipient anchor salt nonce bits header hash, r7))))))))"

definition decode_migration_body :: "UnsignedDecoded reader" where
  "decode_migration_body bs =
     and_then (decode_legacy_inputs bs) (\<lambda>(ins, r1).
     and_then (v2_decode_outputs r1) (\<lambda>(outs, r2).
     and_then (reader_u64 ''migration fee'' r2) (\<lambda>(f, r3). Inr (UDMigration ins outs f, r3))))"

definition decode_body :: "UnsignedDecoded reader" where
  "decode_body bs =
     and_then (reader_u8 ''transaction kind'' bs) (\<lambda>(kind, r).
     if kind = 1 then decode_transfer_body r
     else if kind = 2 then decode_burn_body r
     else if kind = 3 then decode_mine_body r
     else if kind = 4 then decode_migration_body r
     else bail (''unsupported transaction v2 kind '' @ dec (unat kind)))"

definition decode_authorization :: "V2SpendingAuthorization reader" where
  "decode_authorization bs =
     and_then (reader_u8 ''authorization scheme'' bs) (\<lambda>(scheme_id, r1).
     and_then (ok_or (''unknown signature scheme '' @ dec (unat scheme_id))
       (scheme_from_wire_id scheme_id)) (\<lambda>scheme.
     and_then (reader_length_prefixed (scheme_public_key_bytes scheme) ''authorization public key'' r1) (\<lambda>(k, r2).
     if length k \<noteq> scheme_public_key_bytes scheme
     then bail ''authorization public key has the wrong scheme-specific length''
     else
       and_then (reader_length_prefixed (scheme_signature_bytes scheme) ''authorization signature'' r2) (\<lambda>(s, r3).
       if length s \<noteq> scheme_signature_bytes scheme
       then bail ''authorization signature has the wrong scheme-specific length''
       else
         and_then (public_key_new scheme k) (\<lambda>pk.
         and_then (signature_new scheme s) (\<lambda>sig.
         and_then (authorization_new pk sig) (\<lambda>a. Inr (a, r3))))))))"

definition v2_decode :: "bytes \<Rightarrow> (TransactionV2Domain \<times> TransactionV2) result" where
  "v2_decode encoded =
     and_then (decode_prefix encoded) (\<lambda>(d, r1).
     and_then (decode_body r1) (\<lambda>(unsigned, r2).
     and_then (reader_list MAX_V2_INPUTS ''authorization count'' decode_authorization r2) (\<lambda>(auths, r3).
     and_then (reader_finish r3) (\<lambda>_.
     and_then (with_authorizations unsigned auths) (\<lambda>tx.
     and_then (validate_shape tx) (\<lambda>_. Inr (d, tx)))))))"

definition transaction_id :: "crypto \<Rightarrow> TransactionV2 \<Rightarrow> TransactionV2Domain \<Rightarrow> bytes result" where
  "transaction_id cr tx d = and_then (v2_encode tx d) (\<lambda>bs. Inr (sha256 cr bs))"

definition encoded_size_bytes :: "TransactionV2 \<Rightarrow> TransactionV2Domain \<Rightarrow> nat result" where
  "encoded_size_bytes tx d = and_then (v2_encode tx d) (\<lambda>bs. Inr (length bs))"

text \<open>\<open>usize\<close> is 64 bits wide: the checked operations fail from \<open>2 ^ 64\<close> on.\<close>

definition encoded_size_bytes_with_authorizations ::
  "TransactionV2 \<Rightarrow> TransactionV2Domain \<Rightarrow> SignatureScheme \<Rightarrow> nat \<Rightarrow> nat result" where
  "encoded_size_bytes_with_authorizations tx d scheme authorization_count =
     and_then (v2_signing_bytes tx d) (\<lambda>unsigned.
     let authorization_bytes = 1 + 4 + scheme_public_key_bytes scheme + 4 + scheme_signature_bytes scheme;
         total = length unsigned + 4 + authorization_bytes * authorization_count in
     if total < 2 ^ 64 then Inr total else bail ''transaction v2 encoded size overflows'')"

definition transaction_v2_is_active :: "u64 \<Rightarrow> bool" where
  "transaction_v2_is_active height =
     (case TRANSACTION_V2_ACTIVATION_HEIGHT of
        Some activation_height \<Rightarrow> activation_height \<le> height
      | None \<Rightarrow> False)"

definition ensure_transaction_v2_active :: "u64 \<Rightarrow> unit result" where
  "ensure_transaction_v2_active height =
     (if \<not> transaction_v2_is_active height
      then bail ''transaction v2 is recognized but not consensus-active'' else Inr ())"

section \<open>Authorization policy\<close>

definition owner_matches ::
  "crypto \<Rightarrow> AddressVersion \<Rightarrow> SignatureScheme \<Rightarrow> string \<Rightarrow>
     VersionedAddress \<times> V2SpendingAuthorization \<Rightarrow> unit result" where
  "owner_matches cr version scheme msg p =
     (if addr_version (fst p) \<noteq> version \<or> auth_scheme (snd p) \<noteq> scheme then bail msg
      else
        and_then (authorized_address cr (snd p)) (\<lambda>addr.
        if fst p \<noteq> addr then bail msg else Inr ()))"

definition validate_per_input ::
  "crypto \<Rightarrow> AddressVersion \<Rightarrow> SignatureScheme \<Rightarrow> string \<Rightarrow> VersionedAddress list \<Rightarrow>
     V2SpendingAuthorization list \<Rightarrow> unit result" where
  "validate_per_input cr version scheme msg owners auths =
     (if length auths \<noteq> length owners
      then bail (''transaction v2 requires exactly one authorization per input before '' @
                 ''authorization aggregation activation'')
      else try_all (owner_matches cr version scheme msg) (zip owners auths))"

fun validate_legacy_authorization_commitments :: "crypto \<Rightarrow> TransactionV2 \<Rightarrow> unit result" where
  "validate_legacy_authorization_commitments cr (V2Migration ins outs f auths) =
     validate_per_input cr Ed25519PublicKey Ed25519
       ''transaction v2 migration authorization does not match its legacy owner''
       (map leg_owner ins) auths"
| "validate_legacy_authorization_commitments cr (V2Transfer ins outs f auths) =
     validate_per_input cr HybridKeyCommitment HybridEd25519MlDsa44
       ''transaction v2 authorization does not match its hybrid owner commitment''
       (map v2in_owner ins) auths"
| "validate_legacy_authorization_commitments cr (V2Burn ins change a f anchor auths) =
     validate_per_input cr HybridKeyCommitment HybridEd25519MlDsa44
       ''transaction v2 authorization does not match its hybrid owner commitment''
       (map v2in_owner ins) auths"
| "validate_legacy_authorization_commitments cr (V2Mine recipient anchor salt nonce bits header hash) =
     Inr ()"

fun expected_authorization :: "TransactionV2 \<Rightarrow> (AddressVersion \<times> SignatureScheme) option" where
  "expected_authorization (V2Migration ins outs f auths) = Some (Ed25519PublicKey, Ed25519)"
| "expected_authorization (V2Transfer ins outs f auths) =
     Some (HybridKeyCommitment, HybridEd25519MlDsa44)"
| "expected_authorization (V2Burn ins change a f anchor auths) =
     Some (HybridKeyCommitment, HybridEd25519MlDsa44)"
| "expected_authorization (V2Mine recipient anchor salt nonce bits header hash) = None"

definition validate_aggregated_authorization_commitments :: "crypto \<Rightarrow> TransactionV2 \<Rightarrow> unit result" where
  "validate_aggregated_authorization_commitments cr tx =
     (if length (authorizations tx) \<noteq> length (input_owners tx)
      then bail ''transaction v2 requires exactly one authorization per unique input owner''
      else
        (case expected_authorization tx of
           None \<Rightarrow> Inr ()
         | Some (expected_version, expected_scheme) \<Rightarrow>
             and_then
               (try_fold (\<lambda>authorized_owners auth.
                  and_then (authorized_address cr auth) (\<lambda>owner.
                  if addr_version owner \<noteq> expected_version \<or> auth_scheme auth \<noteq> expected_scheme
                  then bail ''transaction v2 authorization does not match its input owner version''
                  else if owner \<notin> set (input_owners tx)
                  then bail ''transaction v2 authorization does not match any input owner''
                  else if owner \<in> set authorized_owners
                  then bail ''transaction v2 contains a duplicate authorization owner''
                  else Inr (authorized_owners @ [owner]))) [] (authorizations tx))
               (\<lambda>_. Inr ())))"

definition validate_authorization_commitments :: "crypto \<Rightarrow> TransactionV2 \<Rightarrow> unit result" where
  "validate_authorization_commitments cr tx =
     and_then (validate_shape tx) (\<lambda>_.
     if is_ok (validate_legacy_authorization_commitments cr tx) then Inr ()
     else validate_aggregated_authorization_commitments cr tx)"

definition validate_authorization_policy_at_height :: "crypto \<Rightarrow> TransactionV2 \<Rightarrow> u64 \<Rightarrow> unit result" where
  "validate_authorization_policy_at_height cr tx height =
     and_then (validate_shape tx) (\<lambda>_.
     if height < TRANSACTION_V2_AUTHORIZATION_AGGREGATION_ACTIVATION_HEIGHT
     then validate_legacy_authorization_commitments cr tx
     else validate_aggregated_authorization_commitments cr tx)"

definition verify_authorization :: "crypto \<Rightarrow> bytes \<Rightarrow> V2SpendingAuthorization \<Rightarrow> unit result" where
  "verify_authorization cr payload auth =
     (let key = pk_bytes (auth_public_key auth); sig = sig_bytes (auth_signature auth) in
      case auth_scheme auth of
        Ed25519 \<Rightarrow>
          (if length key \<noteq> 32 then bail ''Ed25519 authorization has an invalid public key length''
           else if length sig \<noteq> 64 then bail ''Ed25519 authorization has an invalid signature length''
           else verify_ed25519 cr key payload sig ''transaction v2 input'')
      | HybridEd25519MlDsa44 \<Rightarrow>
          (if length key < 32 then bail ''hybrid authorization public key is truncated''
           else if length sig < 64 then bail ''hybrid authorization signature is truncated''
           else
             and_then (verify_ed25519 cr (take 32 key) payload (take 64 sig)
               ''transaction v2 classical component'') (\<lambda>_.
             if length (drop 32 key) \<noteq> 1312 then bail ''hybrid ML-DSA public key has an invalid length''
             else if length (drop 64 sig) \<noteq> 2420 then bail ''hybrid ML-DSA signature has an invalid length''
             else verify_ml_dsa44 cr (drop 32 key) payload (drop 64 sig)
               ''transaction v2 post-quantum component''))
      | MlDsa44 \<Rightarrow> bail ''ML-DSA-only transaction v2 authorizations are not supported'')"

definition verify_authorizations :: "crypto \<Rightarrow> TransactionV2 \<Rightarrow> TransactionV2Domain \<Rightarrow> unit result" where
  "verify_authorizations cr tx d =
     and_then (validate_authorization_commitments cr tx) (\<lambda>_.
     and_then (v2_signing_bytes tx d) (\<lambda>payload.
     try_all (verify_authorization cr payload) (authorizations tx)))"

end
