(* ===== verification/Ticket.thy ===== *)
theory Ticket
  imports Block Transaction_V2
begin

text \<open>
  The burn lottery (\<open>src/domain/ticket.rs\<close>): tickets created by burns, the weighted draw that
  ranks the eligible tickets of a height, the timing rules of a rank, and the effect of a
  finalized block on the pending tickets.
\<close>

definition MISSED_FALLBACK_TICKET_INVALIDATION_HEIGHT :: u64 where
  "MISSED_FALLBACK_TICKET_INVALIDATION_HEIGHT = 300"

section \<open>The draw\<close>

definition ticket_is_eligible_for_height :: "BurnTicket \<Rightarrow> u64 \<Rightarrow> bool" where
  "ticket_is_eligible_for_height t h \<longleftrightarrow> tk_from t \<le> h \<and> h \<le> tk_until t"

definition draw_parent_randomness :: "crypto \<Rightarrow> Block \<Rightarrow> u64 \<Rightarrow> string" where
  "draw_parent_randomness cr parent target_height =
     (if GRINDING_RESISTANCE_ACTIVATION_HEIGHT \<le> target_height
      then vdf_seed cr parent @ '':'' @ vdf_output parent
      else block_hash parent @ '':'' @ vdf_output parent)"

definition ticket_draw_seed_from_randomness :: "string \<Rightarrow> u64 \<Rightarrow> u32 \<Rightarrow> string" where
  "ticket_draw_seed_from_randomness parent_randomness target_height rank =
     (if rank = 0 then ''iuna-ticket-draw:'' @ show_u64 target_height @ '':'' @ parent_randomness
      else ''iuna-ticket-draw-rank:'' @ show_u64 target_height @ '':'' @ show_u32 rank @ '':'' @
        parent_randomness)"

definition weighted_ticket_draw :: "crypto \<Rightarrow> string \<Rightarrow> u64 \<Rightarrow> u32 \<Rightarrow> u128 \<Rightarrow> u128" where
  "weighted_ticket_draw cr parent_randomness target_height rank total_weight =
     (let digest = sha256 cr (as_bytes (ticket_draw_seed_from_randomness parent_randomness target_height rank)) in
      word_of_nat (from_be_bytes (take 16 digest)) mod total_weight)"

text \<open>\<open>try_fold\<close> over the checked sum of the weights.\<close>

fun checked_weight :: "u128 \<Rightarrow> BurnTicket list \<Rightarrow> u128 option" where
  "checked_weight acc [] = Some acc"
| "checked_weight acc (t # ts) =
     Option.bind (checked_add acc (ucast (tk_amount t))) (\<lambda>acc'. checked_weight acc' ts)"

text \<open>The loop that walks the cumulative weights until the draw falls below.\<close>

fun pick_index :: "u128 \<Rightarrow> u128 \<Rightarrow> nat \<Rightarrow> BurnTicket list \<Rightarrow> nat option" where
  "pick_index draw cumulative index [] = None"
| "pick_index draw cumulative index (t # ts) =
     Option.bind (checked_add cumulative (ucast (tk_amount t))) (\<lambda>cumulative'.
       if draw < cumulative' then Some index else pick_index draw cumulative' (index + 1) ts)"

definition select_weighted_ticket_index ::
  "crypto \<Rightarrow> string \<Rightarrow> u64 \<Rightarrow> u32 \<Rightarrow> BurnTicket list \<Rightarrow> nat option" where
  "select_weighted_ticket_index cr parent_randomness target_height rank tickets =
     Option.bind (checked_weight 0 tickets) (\<lambda>total_weight.
       if total_weight = 0 then None
       else pick_index (weighted_ticket_draw cr parent_randomness target_height rank total_weight)
         0 0 tickets)"

definition list_remove :: "nat \<Rightarrow> 'a list \<Rightarrow> 'a list" where
  "list_remove i xs = take i xs @ drop (Suc i) xs"

lemma pick_index_bounds:
  "pick_index draw c i ts = Some k \<Longrightarrow> i \<le> k \<and> k < i + length ts"
proof (induction ts arbitrary: c i)
  case (Cons t ts)
  show ?case
  proof (cases "checked_add c (ucast (tk_amount t))")
    case (Some c')
    then show ?thesis using Cons.prems Cons.IH [of c' "i + 1"] by (auto split: if_splits)
  qed (use Cons.prems in simp)
qed simp

lemma select_index_bound:
  "select_weighted_ticket_index cr r h rank ts = Some k \<Longrightarrow> k < length ts"
  by (auto simp: select_weighted_ticket_index_def bind_eq_Some_conv split: if_splits
      dest!: pick_index_bounds)

lemma length_list_remove: "i < length xs \<Longrightarrow> length (list_remove i xs) < length xs"
  by (simp add: list_remove_def)

text \<open>The loop \<open>for rank in 0..\<close>: every round removes one ticket, so it ends.\<close>

function rank_loop :: "crypto \<Rightarrow> string \<Rightarrow> u64 \<Rightarrow> u32 \<Rightarrow> BurnTicket list \<Rightarrow> BurnTicket list" where
  "rank_loop cr parent_randomness target_height rank remaining =
     (case select_weighted_ticket_index cr parent_randomness target_height rank remaining of
        None \<Rightarrow> []
      | Some i \<Rightarrow> remaining ! i #
          rank_loop cr parent_randomness target_height (rank + 1) (list_remove i remaining))"
  by pat_completeness auto
termination
  by (relation "measure (\<lambda>(cr, r, h, rank, remaining). length remaining)")
    (auto dest!: select_index_bound length_list_remove)

declare rank_loop.simps [simp del]

definition ranked_tickets_for_parent_randomness ::
  "crypto \<Rightarrow> string \<Rightarrow> u64 \<Rightarrow> BurnTicket list \<Rightarrow> BurnTicket list" where
  "ranked_tickets_for_parent_randomness cr parent_randomness target_height tickets =
     rank_loop cr parent_randomness target_height 0
       (filter (\<lambda>t. ticket_is_eligible_for_height t target_height) tickets)"

definition ranked_tickets_for_height ::
  "crypto \<Rightarrow> Block \<Rightarrow> u64 \<Rightarrow> BurnTicket list \<Rightarrow> BurnTicket list" where
  "ranked_tickets_for_height cr parent target_height tickets =
     ranked_tickets_for_parent_randomness cr (draw_parent_randomness cr parent target_height)
       target_height tickets"

section \<open>Rank timing\<close>

definition vdf_rounds_for_finalizer_rank :: "u64 \<Rightarrow> u32 \<Rightarrow> u64 result" where
  "vdf_rounds_for_finalizer_rank base_rounds rank =
     and_then (ok_or ''finalizer rank overflows'' (checked_add rank 1)) (\<lambda>r.
     and_then (ok_or ''finalizer rank VDF rounds overflow'' (checked_mul base_rounds (ucast r))) (\<lambda>rounds.
     if MAX_VDF_ROUNDS < rounds then bail ''finalizer rank VDF rounds exceed maximum''
     else Inr rounds))"

definition finalizer_rank_slot_delay_ms :: "u32 \<Rightarrow> u64 result" where
  "finalizer_rank_slot_delay_ms rank =
     and_then (ok_or ''finalizer rank time slot overflow'' (checked_mul VDF_TARGET_BLOCK_MS 2)) (\<lambda>d.
     ok_or ''finalizer rank time slot overflow'' (checked_mul d (ucast rank)))"

definition ticket_block_min_timestamp :: "Block \<Rightarrow> u32 \<Rightarrow> u64 result" where
  "ticket_block_min_timestamp parent rank =
     (if rank = 0 then
        ok_or ''finalizer rank minimum timestamp overflow'' (checked_add (timestamp_ms parent) 1)
      else
        and_then (finalizer_rank_slot_delay_ms rank) (\<lambda>delay.
        ok_or ''finalizer rank minimum timestamp overflow'' (checked_add (timestamp_ms parent) delay)))"

definition base_vdf_rounds_for_finalizer_rank :: "u64 \<Rightarrow> u32 \<Rightarrow> u64" where
  "base_vdf_rounds_for_finalizer_rank rounds rank =
     rounds div ucast (max (saturating_add rank 1) 1)"

section \<open>Tickets created by blocks\<close>

definition ticket_window :: "u64 \<Rightarrow> LaunchProfile \<Rightarrow> (u64 \<times> u64) result" where
  "ticket_window block_height profile =
     and_then (ok_or (''ticket target height overflow at block '' @ show_u64 block_height)
       (checked_add block_height (ticket_maturity_delay_heights profile))) (\<lambda>target_height.
     and_then (ok_or (''ticket expiry height overflow at block '' @ show_u64 block_height)
       (checked_add target_height (ticket_expiry_window_heights profile - 1))) (\<lambda>eligible_until.
     Inr (target_height, eligible_until)))"

fun ticket_of_transaction :: "u64 \<Rightarrow> LaunchProfile \<Rightarrow> Transaction \<Rightarrow> BurnTicket list result" where
  "ticket_of_transaction h profile (Burn ins change a f anchor sig) =
     (case ins of
        [] \<Rightarrow> Inr []
      | i # _ \<Rightarrow>
          if a = 0 then Inr []
          else and_then (ticket_window h profile) (\<lambda>(from, until).
            Inr [\<lparr>tk_id = sig, tk_owner = in_owner i, tk_amount = a, tk_from = from, tk_until = until\<rparr>]))"
| "ticket_of_transaction h profile _ = Inr []"

definition tickets_created_by_transactions ::
  "u64 \<Rightarrow> Transaction list \<Rightarrow> LaunchProfile \<Rightarrow> BurnTicket list result" where
  "tickets_created_by_transactions block_height txs profile =
     (if ticket_expiry_window_heights profile = 0
      then bail ''ticket expiry window must be at least one height''
      else and_then (try_map (ticket_of_transaction block_height profile) txs) (\<lambda>ts. Inr (concat ts)))"

definition decode_envelope :: "string \<Rightarrow> (TransactionV2Domain \<times> TransactionV2) result" where
  "decode_envelope envelope =
     and_then (with_context ''transaction v2 envelope is not hexadecimal'' (decode_hex envelope)) v2_decode"

definition ticket_of_envelope :: "crypto \<Rightarrow> u64 \<Rightarrow> LaunchProfile \<Rightarrow> string \<Rightarrow> BurnTicket list result" where
  "ticket_of_envelope cr h profile envelope =
     and_then (decode_envelope envelope) (\<lambda>(d, tx).
     if \<not> v2_is_burn tx then Inr []
     else
       and_then (burn_legacy_owner cr tx) (\<lambda>owner_opt.
       and_then (ok_or ''transaction v2 burn owner is missing'' owner_opt) (\<lambda>owner.
       and_then (ticket_window h profile) (\<lambda>(from, until).
       and_then (transaction_id cr tx d) (\<lambda>txid.
       Inr [\<lparr>tk_id = hex_encode txid, tk_owner = owner, tk_amount = v2_amount tx,
             tk_from = from, tk_until = until\<rparr>])))))"

definition tickets_created_by_block :: "crypto \<Rightarrow> Block \<Rightarrow> LaunchProfile \<Rightarrow> BurnTicket list result" where
  "tickets_created_by_block cr b profile =
     and_then (tickets_created_by_transactions (height b) (transactions b) profile) (\<lambda>tickets.
     and_then (try_map (ticket_of_envelope cr (height b) profile) (transactions_v2 b)) (\<lambda>v2.
     Inr (tickets @ concat v2)))"

definition genesis_bootstrap_tickets ::
  "crypto \<Rightarrow> (string \<times> Amount \<times> string) list \<Rightarrow> LaunchProfile \<Rightarrow> Block \<Rightarrow> BurnTicket list result" where
  "genesis_bootstrap_tickets cr source_tickets profile genesis =
     Inr (concat (map (\<lambda>n. map (\<lambda>(owner, amt, source_id).
       \<lparr>tk_id = hex_hash cr (''iuna-genesis-bootstrap-ticket:'' @ block_hash genesis @ '':'' @ source_id @
                 '':'' @ dec n),
        tk_owner = owner, tk_amount = amt, tk_from = word_of_nat n, tk_until = word_of_nat n\<rparr>)
       source_tickets) [1..<Suc (unat (ticket_maturity_delay_heights profile))]))"

fun genesis_source :: "Transaction \<Rightarrow> (string \<times> Amount \<times> string) list" where
  "genesis_source (Burn ins change a f anchor sig) =
     (case ins of
        [] \<Rightarrow> []
      | i # _ \<Rightarrow> if 0 < a then [(in_owner i, a, sig)] else [])"
| "genesis_source _ = []"

definition genesis_tickets ::
  "crypto \<Rightarrow> (string, Amount) btree_map \<Rightarrow> Block \<Rightarrow> LaunchProfile \<Rightarrow> BurnTicket list result" where
  "genesis_tickets cr genesis_allocations genesis profile =
     (if ticket_maturity_delay_heights profile = 0 then tickets_created_by_block cr genesis profile
      else
        (let burn_tickets = concat (map genesis_source (transactions genesis)) in
         if burn_tickets \<noteq> [] then genesis_bootstrap_tickets cr burn_tickets profile genesis
         else
           (case find (\<lambda>e. 0 < snd e) (rev (bt_entries genesis_allocations)) of
              None \<Rightarrow> Inr []
            | Some (owner, amt) \<Rightarrow>
                genesis_bootstrap_tickets cr
                  [(owner, 1, hex_hash cr (''iuna-genesis-ticket:'' @ owner @ '':'' @ show_u64 amt @ '':'' @
                      block_hash genesis))] profile genesis)))"

section \<open>Effects of a finalized block\<close>

definition invalidated_ticket_ids ::
  "crypto \<Rightarrow> Block \<Rightarrow> Block \<Rightarrow> BurnTicket list \<Rightarrow> string \<Rightarrow> string list" where
  "invalidated_ticket_ids cr parent b tickets leader_ticket_id =
     (let ranked = ranked_tickets_for_height cr parent (height b) tickets in
      case position (\<lambda>t. tk_id t = leader_ticket_id) ranked of
        None \<Rightarrow> [leader_ticket_id]
      | Some finalizer_index \<Rightarrow>
          if height b < MISSED_FALLBACK_TICKET_INVALIDATION_HEIGHT \<or> finalizer_index = 0
          then [leader_ticket_id]
          else
            (let owners = map tk_owner (take (finalizer_index + 1) ranked) in
             map tk_id (filter (\<lambda>t. ticket_is_eligible_for_height t (height b) \<and>
               tk_owner t \<in> set owners) tickets)))"

definition consume_leader_ticket ::
  "crypto \<Rightarrow> Block \<Rightarrow> Block \<Rightarrow> BurnTicket list \<Rightarrow> BurnTicket list result" where
  "consume_leader_ticket cr parent b tickets =
     (case leader_proof b of
        None \<Rightarrow> bail ''block is missing leader proof''
      | Some proof \<Rightarrow>
          if \<not> list_ex (\<lambda>t. tk_id t = lp_ticket_id proof \<and> ticket_is_eligible_for_height t (height b)) tickets
          then bail (''leader ticket is not pending for block '' @ show_u64 (height b))
          else
            (let invalidated = invalidated_ticket_ids cr parent b tickets (lp_ticket_id proof) in
             Inr (filter (\<lambda>t. tk_id t \<notin> set invalidated \<and> height b < tk_until t) tickets)))"

definition apply_finalizer_ticket_effects ::
  "crypto \<Rightarrow> Block \<Rightarrow> Block \<Rightarrow> BurnTicket list \<Rightarrow> BurnTicket list result" where
  "apply_finalizer_ticket_effects cr parent b tickets =
     (case finalizer_mode b of
        TicketMode \<Rightarrow> consume_leader_ticket cr parent b tickets
      | RecoveryMode \<Rightarrow>
          Inr (filter (\<lambda>t. \<not> ticket_is_eligible_for_height t (height b) \<and> height b < tk_until t) tickets))"

definition mine_action_count :: "Block \<Rightarrow> u64" where
  "mine_action_count b = word_of_nat (length (filter is_mine (transactions b)))"

end
