(* ===== verification/Ledger_Ops.thy ===== *)
theory Ledger_Ops
  imports Ticket
begin

text \<open>
  The state-independent ledger operations (\<open>src/domain/ledger_ops.rs\<close>): field validation of
  transactions, the effect of a legacy transaction on the unspent outputs, fees and block
  rewards, leader proofs, and the selection of the best pending transaction.
\<close>

type_synonym utxos = "(OutPoint, TxOutput) btree_map"

section \<open>Field validation\<close>

definition validate_genesis_allocations :: "(string, Amount) btree_map \<Rightarrow> unit result" where
  "validate_genesis_allocations allocations =
     try_all (\<lambda>address. validate_address address ''genesis allocation'') (bt_keys allocations)"

definition validate_transaction_inputs :: "TxInput list \<Rightarrow> unit result" where
  "validate_transaction_inputs ins =
     try_all (\<lambda>i.
       and_then (validate_protocol_id (op_txid (in_outpoint i)) ''input outpoint txid'') (\<lambda>_.
       and_then (validate_address (in_owner i) ''input owner'') (\<lambda>_.
       validate_signature (in_signature i) ''input signature''))) ins"

definition validate_transaction_outputs :: "TxOutput list \<Rightarrow> unit result" where
  "validate_transaction_outputs outs =
     try_all (\<lambda>o1. validate_address (out_address o1) ''output recipient'') outs"

fun validate_genesis_burn_transaction :: "Transaction \<Rightarrow> unit result" where
  "validate_genesis_burn_transaction (Burn ins change a f anchor sig) =
     (if f \<noteq> 0 then bail ''genesis burn fee must be zero''
      else
        and_then (validate_hash sig ''genesis burn signature'') (\<lambda>_.
        and_then (validate_transaction_outputs change) (\<lambda>_.
        try_all (\<lambda>i.
          and_then (validate_hash (op_txid (in_outpoint i)) ''genesis burn input outpoint txid'') (\<lambda>_.
          and_then (validate_address (in_owner i) ''genesis burn input owner'') (\<lambda>_.
          if in_signature i \<noteq> ''genesis'' then bail ''genesis burn input signature is invalid''
          else Inr ()))) ins)))"
| "validate_genesis_burn_transaction _ = bail ''genesis only supports burn transactions''"

section \<open>Balances\<close>

definition credit_balance :: "(string, Amount) btree_map \<Rightarrow> TxOutput \<Rightarrow> (string, Amount) btree_map result" where
  "credit_balance balances o1 =
     (let balance = (case bt_get balances (out_address o1) of Some v \<Rightarrow> v | None \<Rightarrow> 0) in
      and_then (ok_or (''balance overflow for '' @ out_address o1)
        (checked_add balance (out_amount o1))) (\<lambda>v.
      Inr (bt_insert (out_address o1) v balances)))"

definition ensure_outputs_do_not_overflow :: "utxos \<Rightarrow> TxOutput list \<Rightarrow> unit result" where
  "ensure_outputs_do_not_overflow m outs =
     and_then (try_fold credit_balance bt_empty (bt_values m)) (\<lambda>balances.
     and_then (try_fold credit_balance balances outs) (\<lambda>_. Inr ()))"

section \<open>Spending\<close>

text \<open>One round of the input loop: the outpoints seen so far, the total, and the outputs.\<close>

definition spend_step ::
  "OutPoint set \<times> Amount \<times> utxos \<Rightarrow> TxInput \<Rightarrow> (OutPoint set \<times> Amount \<times> utxos) result" where
  "spend_step st i = (case st of (seen, running, m) \<Rightarrow>
     if in_outpoint i \<in> seen then bail ''duplicate input in transaction''
     else
       and_then (ok_or (''transaction spends missing output '' @ outpoint_id (in_outpoint i))
         (bt_get m (in_outpoint i))) (\<lambda>output.
       if out_address output \<noteq> in_owner i
       then bail ''transaction input owner does not match spent output''
       else
         and_then (ok_or ''transaction input total overflows''
           (checked_add running (out_amount output))) (\<lambda>running'.
         Inr (insert (in_outpoint i) seen, running', bt_remove (in_outpoint i) m))))"

definition spend_inputs :: "Transaction \<Rightarrow> utxos \<Rightarrow> (Amount \<times> utxos) result" where
  "spend_inputs tx m =
     and_then (try_fold spend_step ({}, 0, m) (inputs tx)) (\<lambda>(seen, input_total, m').
     Inr (input_total, m'))"

definition input_total_step ::
  "utxos \<Rightarrow> OutPoint set \<times> Amount \<Rightarrow> TxInput \<Rightarrow> (OutPoint set \<times> Amount) result" where
  "input_total_step m st i = (case st of (seen, running) \<Rightarrow>
     if in_outpoint i \<in> seen then bail ''duplicate input in transaction''
     else
       and_then (ok_or (''transaction spends missing output '' @ outpoint_id (in_outpoint i))
         (bt_get m (in_outpoint i))) (\<lambda>output.
       if out_address output \<noteq> in_owner i
       then bail ''transaction input owner does not match spent output''
       else
         and_then (ok_or ''transaction input total overflows''
           (checked_add running (out_amount output))) (\<lambda>running'.
         Inr (insert (in_outpoint i) seen, running'))))"

definition transaction_input_total :: "Transaction \<Rightarrow> utxos \<Rightarrow> Amount result" where
  "transaction_input_total tx m =
     and_then (try_fold (input_total_step m) ({}, 0) (inputs tx)) (\<lambda>(seen, input_total). Inr input_total)"

definition transaction_has_missing_inputs :: "Transaction \<Rightarrow> utxos \<Rightarrow> bool" where
  "transaction_has_missing_inputs tx m =
     list_ex (\<lambda>i. \<not> bt_contains_key m (in_outpoint i)) (inputs tx)"

definition transaction_inputs_available :: "Transaction \<Rightarrow> utxos \<Rightarrow> bool" where
  "transaction_inputs_available tx m = list_all (\<lambda>i. bt_contains_key m (in_outpoint i)) (inputs tx)"

definition ensure_single_input_owner_for_inputs :: "TxInput list \<Rightarrow> unit result" where
  "ensure_single_input_owner_for_inputs ins =
     (case ins of
        [] \<Rightarrow> bail ''transaction has no inputs''
      | first # _ \<Rightarrow>
          if list_ex (\<lambda>i. in_owner i \<noteq> in_owner first) ins
          then bail ''transaction inputs must have one owner'' else Inr ())"

definition ensure_single_input_owner :: "Transaction \<Rightarrow> unit result" where
  "ensure_single_input_owner tx =
     (if is_mine tx then Inr () else ensure_single_input_owner_for_inputs (inputs tx))"

definition outputs_total :: "TxOutput list \<Rightarrow> Amount result" where
  "outputs_total outs =
     try_fold (\<lambda>acc o1. ok_or ''transaction outputs overflow'' (checked_add acc (out_amount o1))) 0 outs"

definition required_total :: "Transaction \<Rightarrow> Amount result" where
  "required_total tx =
     and_then (outputs_total (outputs tx)) (\<lambda>output_total.
     and_then (ok_or ''transaction outputs plus fee overflow'' (checked_add output_total (fee tx))) (\<lambda>t.
     ok_or ''transaction outputs plus burn overflow'' (checked_add t (burned_amount tx))))"

text \<open>The outputs of a transaction with the outpoints they are created under.\<close>

definition output_entries :: "Transaction \<Rightarrow> (OutPoint \<times> TxOutput) list" where
  "output_entries tx =
     map (\<lambda>(index, o1). (OutPoint (tx_signature tx) (word_of_nat index), o1)) (enumerate 0 (outputs tx))"

definition insert_entries :: "(OutPoint \<times> TxOutput) list \<Rightarrow> utxos \<Rightarrow> utxos" where
  "insert_entries es m = foldl (\<lambda>m e. bt_insert (fst e) (snd e) m) m es"

fun apply_spend :: "Transaction \<Rightarrow> utxos \<Rightarrow> utxos result" where
  "apply_spend (Mine recipient anchor salt nonce bits header sig) m =
     (let output = \<lparr>out_address = recipient, out_amount = MINE_REWARD\<rparr> in
      and_then (ensure_outputs_do_not_overflow m [output]) (\<lambda>_.
      Inr (bt_insert (OutPoint sig 0) output m)))"
| "apply_spend tx m =
     and_then (ensure_single_input_owner tx) (\<lambda>_.
     and_then (spend_inputs tx m) (\<lambda>(input_total, m').
     and_then (required_total tx) (\<lambda>required.
     if input_total \<noteq> required then bail ''transaction inputs do not balance outputs, burn, and fee''
     else
       and_then (ensure_outputs_do_not_overflow m' (outputs tx)) (\<lambda>_.
       Inr (insert_entries (output_entries tx) m')))))"

definition apply_transaction ::
  "crypto \<Rightarrow> Transaction \<Rightarrow> utxos \<Rightarrow> TransactionSigningDomain \<Rightarrow> utxos result" where
  "apply_transaction cr tx m d =
     and_then (verify_signature cr tx d) (\<lambda>_. apply_spend tx m)"

definition apply_spendable_pending_transaction ::
  "crypto \<Rightarrow> Transaction \<Rightarrow> utxos \<Rightarrow> TransactionSigningDomain \<Rightarrow> utxos result" where
  "apply_spendable_pending_transaction cr tx m d =
     (if is_mine tx then bail ''pending mine outputs are not spendable''
      else
        and_then (verify_signature cr tx d) (\<lambda>_.
        and_then (ensure_single_input_owner tx) (\<lambda>_.
        and_then (transaction_input_total tx m) (\<lambda>input_total.
        and_then (required_total tx) (\<lambda>required.
        if input_total \<noteq> required then bail ''transaction inputs do not balance outputs, burn, and fee''
        else
          and_then (ensure_outputs_do_not_overflow m (outputs tx)) (\<lambda>_.
          Inr (insert_entries (output_entries tx)
                (foldl (\<lambda>m i. bt_remove (in_outpoint i) m) m (inputs tx)))))))))"

section \<open>Fees and rewards\<close>

definition validate_block_fee_policy :: "Block \<Rightarrow> unit result" where
  "validate_block_fee_policy b =
     try_all (\<lambda>tx. if fee tx = 0 then bail ''block transaction fee must be greater than zero''
                   else Inr ()) (transactions b)"

definition fee_reward :: "Transaction list \<Rightarrow> Amount result" where
  "fee_reward txs = try_fold (\<lambda>acc tx. ok_or ''block fees overflow'' (checked_add acc (fee tx))) 0 txs"

definition total_block_reward :: "Transaction list \<Rightarrow> Amount \<Rightarrow> Amount result" where
  "total_block_reward txs additional_finalizer_fees =
     and_then (fee_reward txs) (\<lambda>fees.
     ok_or ''block reward overflow'' (checked_add fees additional_finalizer_fees))"

definition reward_outpoint :: "string \<Rightarrow> OutPoint" where
  "reward_outpoint h = OutPoint h (- 1)"

definition committee_reward_outpoint :: "string \<Rightarrow> u8 \<Rightarrow> OutPoint" where
  "committee_reward_outpoint h slot =
     OutPoint h (saturating_sub (- 1) (word_of_nat (min (unat slot) (BURN_COMMITTEE_SIZE - 1))))"

definition reward_committee_slots :: "Block \<Rightarrow> u8 list" where
  "reward_committee_slots b =
     (if finalizer_mode b = TicketMode \<and> finalizer_rank b \<le> 1
      then map bs_slot (sec_signatures (burn_bundle_section b)) else [])"

definition reward_committee_members :: "Block \<Rightarrow> BurnCommitteeMember list \<Rightarrow> BurnCommitteeMember list" where
  "reward_committee_members b committee =
     List.map_filter (\<lambda>slot. find (\<lambda>m. cm_slot m = slot \<and> cm_owner m \<noteq> miner b) committee)
       (reward_committee_slots b)"

definition committee_reward_address :: "Block \<Rightarrow> BurnCommitteeMember \<Rightarrow> string" where
  "committee_reward_address b m =
     (case find (\<lambda>s. bs_slot s = cm_slot m) (sec_signatures (burn_bundle_section b)) of
        None \<Rightarrow> cm_owner m
      | Some s \<Rightarrow> (case bs_reward_address s of None \<Rightarrow> cm_owner m | Some a \<Rightarrow> a))"

text \<open>The loop over the members with what remains of the pool.\<close>

fun committee_shares :: "Block \<Rightarrow> Amount \<Rightarrow> BurnCommitteeMember list \<Rightarrow> (OutPoint \<times> TxOutput) list" where
  "committee_shares b remaining [] = []"
| "committee_shares b remaining (m # ms) =
     (let members_left = length (m # ms);
          share = (if members_left = 1 then remaining else remaining div word_of_nat members_left);
          remaining' = saturating_sub remaining share in
      (if share = 0 then []
       else [(committee_reward_outpoint (block_hash b) (cm_slot m),
              \<lparr>out_address = committee_reward_address b m, out_amount = share\<rparr>)]) @
      committee_shares b remaining' ms)"

definition reward_outputs_for_block ::
  "Block \<Rightarrow> BurnCommitteeMember list \<Rightarrow> (OutPoint \<times> TxOutput) list" where
  "reward_outputs_for_block b committee =
     (if reward b = 0 then []
      else
        (let members = reward_committee_members b committee;
             committee_pool = (if members = [] then 0 else reward b div 2);
             finalizer_amount = saturating_sub (reward b) committee_pool in
         (if 0 < finalizer_amount
          then [(reward_outpoint (block_hash b),
                 \<lparr>out_address = (case reward_address b of None \<Rightarrow> miner b | Some a \<Rightarrow> a),
                  out_amount = finalizer_amount\<rparr>)]
          else []) @
         committee_shares b committee_pool members))"

definition credit_reward_outputs :: "utxos \<Rightarrow> Block \<Rightarrow> BurnCommitteeMember list \<Rightarrow> utxos result" where
  "credit_reward_outputs m b committee =
     (let outs = reward_outputs_for_block b committee in
      and_then (ensure_outputs_do_not_overflow m (map snd outs)) (\<lambda>_.
      Inr (insert_entries outs m)))"

definition credit_reward_output :: "utxos \<Rightarrow> Block \<Rightarrow> utxos result" where
  "credit_reward_output m b = credit_reward_outputs m b []"

section \<open>Leader proofs\<close>

definition verify_address_signature ::
  "crypto \<Rightarrow> string \<Rightarrow> string \<Rightarrow> string \<Rightarrow> string \<Rightarrow> unit result" where
  "verify_address_signature cr address payload sig label =
     and_then (with_context (''invalid '' @ label @ '' public key '' @ address)
       (decode_hex_array PUBLIC_KEY_BYTES address)) (\<lambda>key.
     and_then (with_context (''invalid '' @ label @ '' signature hex'')
       (decode_hex_array SIGNATURE_BYTES sig)) (\<lambda>s.
     verify_ed25519 cr key (as_bytes payload) s label))"

definition verify_leader_signature :: "crypto \<Rightarrow> LeaderProof \<Rightarrow> LeaderProofPayload \<Rightarrow> unit result" where
  "verify_leader_signature cr proof payload =
     verify_address_signature cr (lp_public_key proof) (leader_payload_canonical payload)
       (lp_signature proof) ''leader''"

definition verify_leader_proof :: "crypto \<Rightarrow> Block \<Rightarrow> BurnTicket list \<Rightarrow> unit result" where
  "verify_leader_proof cr b tickets =
     (case leader_proof b of
        None \<Rightarrow> bail ''block is missing leader proof''
      | Some proof \<Rightarrow>
          if lp_public_key proof \<noteq> miner b
          then bail ''leader proof public key does not match block finalizer''
          else
            and_then (ok_or ''leader ticket is not pending for this height''
              (find (\<lambda>t. tk_id t = lp_ticket_id proof \<and> ticket_is_eligible_for_height t (height b)) tickets)) (\<lambda>t.
            if tk_owner t \<noteq> miner b then bail ''leader ticket owner does not match block finalizer''
            else if height b < tk_from t then bail ''leader ticket is not mature''
            else
              verify_leader_signature cr proof
                \<lparr>lpp_height = height b, lpp_prev_hash = prev_hash b,
                 lpp_finalizer_rank = finalizer_rank b, lpp_vdf_output = vdf_output b,
                 lpp_ticket_id = tk_id t, lpp_ticket_amount = tk_amount t,
                 lpp_ticket_owner = tk_owner t\<rparr>))"

section \<open>Burn requirements\<close>

definition envelope_transaction :: "string \<Rightarrow> TransactionV2 option" where
  "envelope_transaction envelope =
     Option.bind (ok (decode_hex envelope)) (\<lambda>encoded. map_option snd (ok (v2_decode encoded)))"

definition ensure_block_has_burn :: "Transaction list \<Rightarrow> string list \<Rightarrow> unit result" where
  "ensure_block_has_burn txs txs_v2 =
     (let has_v2_burn = list_ex (\<lambda>e. case envelope_transaction e of
            Some tx \<Rightarrow> v2_is_burn tx | None \<Rightarrow> False) txs_v2 in
      if \<not> list_ex is_burn txs \<and> \<not> has_v2_burn
      then bail ''block must include at least one burn transaction'' else Inr ())"

definition ensure_block_has_burn_from ::
  "crypto \<Rightarrow> Transaction list \<Rightarrow> string list \<Rightarrow> string \<Rightarrow> unit result" where
  "ensure_block_has_burn_from cr txs txs_v2 mnr =
     (let has_legacy_burn = list_ex (\<lambda>tx. is_burn tx \<and> sender tx = mnr) txs;
          has_v2_burn = list_ex (\<lambda>e. case envelope_transaction e of
            Some tx \<Rightarrow> (case burn_legacy_owner cr tx of Inr (Some owner) \<Rightarrow> owner = mnr | _ \<Rightarrow> False)
          | None \<Rightarrow> False) txs_v2 in
      if \<not> has_legacy_burn \<and> \<not> has_v2_burn
      then bail ''recovery block must include a burn from the finalizer'' else Inr ())"

definition ensure_valid_recovery_block :: "crypto \<Rightarrow> Block \<Rightarrow> Block \<Rightarrow> unit result" where
  "ensure_valid_recovery_block cr b parent =
     (if finalizer_rank b \<noteq> 0 then bail ''recovery block finalizer rank must be 0''
      else if leader_proof b \<noteq> None then bail ''recovery block must not carry a leader proof''
      else
        (let min_timestamp = saturating_add (timestamp_ms parent) RECOVERY_BLOCK_DELAY_MS in
         if timestamp_ms b < min_timestamp
         then bail (''recovery block is not available before timestamp '' @ show_u64 min_timestamp)
         else ensure_block_has_burn_from cr (transactions b) (transactions_v2 b) (miner b)))"

section \<open>Selection\<close>

datatype TransactionKind = BurnKind

definition fee_rate_key :: "Transaction \<Rightarrow> u128" where
  "fee_rate_key tx =
     (let size = canonical_transaction_size_bytes tx in
      if size = 0 then 0 else ucast (fee tx) * 1000000 div word_of_nat size)"

text \<open>The comparison of \<open>max_by\<close>: fee rate, then fee, then burns, then the smaller signature.\<close>

definition selection_key :: "Transaction \<Rightarrow> u128 \<times> Amount \<times> bool" where
  "selection_key tx = (fee_rate_key tx, fee tx, is_burn tx)"

definition prefers :: "Transaction \<Rightarrow> Transaction \<Rightarrow> bool" where
  "prefers left right \<longleftrightarrow>
     selection_key left < selection_key right \<or>
     (selection_key left = selection_key right \<and> tx_signature right \<le> tx_signature left)"

text \<open>\<open>max_by\<close> returns the last of the greatest elements.\<close>

fun max_by :: "('a \<Rightarrow> 'a \<Rightarrow> bool) \<Rightarrow> 'a list \<Rightarrow> 'a option" where
  "max_by le [] = None"
| "max_by le (x # xs) = Some (foldl (\<lambda>best y. if le best y then y else best) x xs)"

definition best_selectable_transaction_index ::
  "crypto \<Rightarrow> Transaction list \<Rightarrow> utxos \<Rightarrow> TransactionKind option \<Rightarrow> TransactionSigningDomain \<Rightarrow> nat option" where
  "best_selectable_transaction_index cr txs m required_kind d =
     map_option fst (max_by (\<lambda>l r. prefers (snd l) (snd r))
       (filter (\<lambda>(i, tx). is_ok (apply_transaction cr tx m d))
         (filter (\<lambda>(i, tx). required_kind = Some BurnKind \<longrightarrow> is_burn tx) (enumerate 0 txs))))"

definition prefers_burn :: "Transaction \<Rightarrow> Transaction \<Rightarrow> bool" where
  "prefers_burn left right \<longleftrightarrow>
     (fee_rate_key left, fee left) < (fee_rate_key right, fee right) \<or>
     ((fee_rate_key left, fee left) = (fee_rate_key right, fee right) \<and>
      tx_signature right \<le> tx_signature left)"

definition best_selectable_burn_from_index ::
  "crypto \<Rightarrow> Transaction list \<Rightarrow> utxos \<Rightarrow> string \<Rightarrow> TransactionSigningDomain \<Rightarrow> nat option" where
  "best_selectable_burn_from_index cr txs m owner d =
     map_option fst (max_by (\<lambda>l r. prefers_burn (snd l) (snd r))
       (filter (\<lambda>(i, tx). is_ok (apply_transaction cr tx m d))
         (filter (\<lambda>(i, tx). is_burn tx \<and> sender tx = owner) (enumerate 0 txs))))"

end
