(* ===== verification/Lineage.thy ===== *)
theory Lineage
  imports Ledger_Ops
begin

text \<open>
  The lineage index (\<open>src/domain/ledger_lineage.rs\<close>): every output that descends from a mined
  output carries its newest mined ancestor as root, and the ledger keeps the value of each root
  and its outputs by owner. The four maps that the code passes by mutable reference are one
  record here; \<open>apply_transaction_with_lineage\<close> is the version of transaction application
  that blocks use (\<open>src/domain/ledger_apply.rs\<close>).
\<close>

section \<open>Roots\<close>

datatype UtxoLineageRoot = UtxoLineageRoot (root_outpoint: OutPoint) (root_height: u64)

instantiation UtxoLineageRoot :: linorder
begin

definition less_eq_UtxoLineageRoot :: "UtxoLineageRoot \<Rightarrow> UtxoLineageRoot \<Rightarrow> bool" where
  "less_eq_UtxoLineageRoot a b \<longleftrightarrow> (root_outpoint a, root_height a) \<le> (root_outpoint b, root_height b)"

definition less_UtxoLineageRoot :: "UtxoLineageRoot \<Rightarrow> UtxoLineageRoot \<Rightarrow> bool" where
  "less_UtxoLineageRoot a b \<longleftrightarrow> (root_outpoint a, root_height a) < (root_outpoint b, root_height b)"

instance
  by standard (auto simp: less_eq_UtxoLineageRoot_def less_UtxoLineageRoot_def UtxoLineageRoot.expand)

end

type_synonym lineage_owner_values =
  "(UtxoLineageRoot, (string, (OutPoint, Amount) btree_map) btree_map) btree_map"

record LineageState =
  ls_utxos :: utxos
  ls_lineage :: "(OutPoint, UtxoLineageRoot) btree_map"
  ls_values :: "(UtxoLineageRoot, Amount) btree_map"
  ls_owners :: lineage_owner_values

section \<open>Index operations\<close>

definition subtract_lineage_value ::
  "(UtxoLineageRoot, Amount) btree_map \<Rightarrow> UtxoLineageRoot \<Rightarrow> Amount \<Rightarrow>
     (UtxoLineageRoot, Amount) btree_map result" where
  "subtract_lineage_value vs root amt =
     and_then (ok_or ''lineage index is missing spent root'' (bt_get vs root)) (\<lambda>v.
     and_then (ok_or ''lineage value underflows'' (checked_sub v amt)) (\<lambda>v'.
     Inr (if v' = 0 then bt_remove root vs else bt_insert root v' vs)))"

definition subtract_lineage_owner_value ::
  "lineage_owner_values \<Rightarrow> UtxoLineageRoot \<Rightarrow> string \<Rightarrow> OutPoint \<Rightarrow> lineage_owner_values result" where
  "subtract_lineage_owner_value los root owner p =
     and_then (ok_or ''lineage owner index is missing spent root'' (bt_get los root)) (\<lambda>owners.
     and_then (ok_or ''lineage owner index is missing spent owner'' (bt_get owners owner)) (\<lambda>outs.
     and_then (ok_or ''lineage owner index is missing spent output'' (bt_get outs p)) (\<lambda>_.
     let outs' = bt_remove p outs;
         owners' = (if bt_is_empty outs' then bt_remove owner owners else bt_insert owner outs' owners) in
     Inr (if bt_is_empty owners' then bt_remove root los else bt_insert root owners' los))))"

definition newest_lineage_root ::
  "UtxoLineageRoot option \<Rightarrow> UtxoLineageRoot option \<Rightarrow> UtxoLineageRoot option" where
  "newest_lineage_root l r =
     (case (l, r) of
        (None, None) \<Rightarrow> None
      | (Some root, None) \<Rightarrow> Some root
      | (None, Some root) \<Rightarrow> Some root
      | (Some left, Some right) \<Rightarrow>
          if (root_height left, root_outpoint left) < (root_height right, root_outpoint right)
          then Some right else Some left)"

fun output_lineage_root_for_transaction ::
  "Transaction \<Rightarrow> u64 \<Rightarrow> UtxoLineageRoot option \<Rightarrow> UtxoLineageRoot option" where
  "output_lineage_root_for_transaction (Mine recipient anchor salt nonce bits header sig) block_height inherited =
     Some (UtxoLineageRoot (OutPoint sig 0) block_height)"
| "output_lineage_root_for_transaction tx block_height inherited = inherited"

definition or_default :: "('k::linorder, ('l::linorder, 'v) btree_map) btree_map \<Rightarrow> 'k \<Rightarrow> ('l, 'v) btree_map" where
  "or_default m k = (case bt_get m k of Some x \<Rightarrow> x | None \<Rightarrow> bt_empty)"

text \<open>
  Adding an output to a root: the body shared by \<open>insert_output_with_lineage\<close> and
  \<open>attach_existing_output_lineage\<close>.
\<close>

definition index_output :: "OutPoint \<Rightarrow> TxOutput \<Rightarrow> UtxoLineageRoot \<Rightarrow> LineageState \<Rightarrow> LineageState result" where
  "index_output p o1 root st =
     (let v = (case bt_get (ls_values st) root of Some v \<Rightarrow> v | None \<Rightarrow> 0) in
      and_then (ok_or ''lineage value overflows'' (checked_add v (out_amount o1))) (\<lambda>v'.
      let owners = or_default (ls_owners st) root;
          outs = or_default owners (out_address o1) in
      Inr (st\<lparr>ls_lineage := bt_insert p root (ls_lineage st),
              ls_values := bt_insert root v' (ls_values st),
              ls_owners := bt_insert root (bt_insert (out_address o1)
                (bt_insert p (out_amount o1) outs) owners) (ls_owners st)\<rparr>)))"

definition insert_output_with_lineage ::
  "OutPoint \<Rightarrow> TxOutput \<Rightarrow> UtxoLineageRoot option \<Rightarrow> LineageState \<Rightarrow> LineageState result" where
  "insert_output_with_lineage p o1 root st =
     (if bt_contains_key (ls_utxos st) p
      then bail (''created output replaces existing UTXO '' @ outpoint_id p)
      else
        (let st' = st\<lparr>ls_utxos := bt_insert p o1 (ls_utxos st)\<rparr> in
         case root of None \<Rightarrow> Inr st' | Some r \<Rightarrow> index_output p o1 r st'))"

definition remove_spent_output_lineage ::
  "OutPoint \<Rightarrow> TxOutput \<Rightarrow> LineageState \<Rightarrow> (UtxoLineageRoot option \<times> LineageState) result" where
  "remove_spent_output_lineage p o1 st =
     (case bt_get (ls_lineage st) p of
        None \<Rightarrow> Inr (None, st)
      | Some root \<Rightarrow>
          and_then (subtract_lineage_value (ls_values st) root (out_amount o1)) (\<lambda>vs.
          and_then (subtract_lineage_owner_value (ls_owners st) root (out_address o1) p) (\<lambda>los.
          Inr (Some root, st\<lparr>ls_lineage := bt_remove p (ls_lineage st), ls_values := vs,
                             ls_owners := los\<rparr>))))"

definition attach_existing_output_lineage ::
  "OutPoint \<Rightarrow> TxOutput \<Rightarrow> UtxoLineageRoot \<Rightarrow> LineageState \<Rightarrow> LineageState result" where
  "attach_existing_output_lineage p o1 root st =
     (if bt_contains_key (ls_lineage st) p
      then bail ''created output replaces existing UTXO lineage''
      else index_output p o1 root st)"

section \<open>Transactions\<close>

definition spend_lineage_step ::
  "OutPoint set \<times> Amount \<times> UtxoLineageRoot option \<times> LineageState \<Rightarrow> TxInput \<Rightarrow>
     (OutPoint set \<times> Amount \<times> UtxoLineageRoot option \<times> LineageState) result" where
  "spend_lineage_step s i = (case s of (seen, running, inherited, st) \<Rightarrow>
     if in_outpoint i \<in> seen then bail ''duplicate input in transaction''
     else
       and_then (ok_or (''transaction spends missing output '' @ outpoint_id (in_outpoint i))
         (bt_get (ls_utxos st) (in_outpoint i))) (\<lambda>output.
       if out_address output \<noteq> in_owner i
       then bail ''transaction input owner does not match spent output''
       else
         and_then (ok_or ''transaction input total overflows''
           (checked_add running (out_amount output))) (\<lambda>running'.
         and_then (remove_spent_output_lineage (in_outpoint i) output
           (st\<lparr>ls_utxos := bt_remove (in_outpoint i) (ls_utxos st)\<rparr>)) (\<lambda>(root, st').
         Inr (insert (in_outpoint i) seen, running',
              (case root of None \<Rightarrow> inherited | Some r \<Rightarrow> newest_lineage_root inherited (Some r)), st')))))"

definition spend_inputs_with_lineage ::
  "Transaction \<Rightarrow> LineageState \<Rightarrow> (Amount \<times> UtxoLineageRoot option \<times> LineageState) result" where
  "spend_inputs_with_lineage tx st =
     and_then (try_fold spend_lineage_step ({}, 0, None, st) (inputs tx))
       (\<lambda>(seen, input_total, inherited, st'). Inr (input_total, inherited, st'))"

definition insert_outputs_with_lineage ::
  "(OutPoint \<times> TxOutput) list \<Rightarrow> UtxoLineageRoot option \<Rightarrow> LineageState \<Rightarrow> LineageState result" where
  "insert_outputs_with_lineage es root st =
     try_fold (\<lambda>st e. insert_output_with_lineage (fst e) (snd e) root st) st es"

definition apply_spend_with_lineage :: "Transaction \<Rightarrow> u64 \<Rightarrow> LineageState \<Rightarrow> LineageState result" where
  "apply_spend_with_lineage tx block_height st =
     (if is_mine tx then
        (let output = hd (outputs tx) in
         and_then (ensure_outputs_do_not_overflow (ls_utxos st) [output]) (\<lambda>_.
         insert_output_with_lineage (OutPoint (tx_signature tx) 0) output
           (output_lineage_root_for_transaction tx block_height None) st))
      else
        and_then (ensure_single_input_owner tx) (\<lambda>_.
        and_then (spend_inputs_with_lineage tx st) (\<lambda>(input_total, inherited, st').
        and_then (required_total tx) (\<lambda>required.
        if input_total \<noteq> required then bail ''transaction inputs do not balance outputs, burn, and fee''
        else
          and_then (ensure_outputs_do_not_overflow (ls_utxos st') (outputs tx)) (\<lambda>_.
          insert_outputs_with_lineage (output_entries tx) inherited st')))))"

definition apply_transaction_with_lineage ::
  "crypto \<Rightarrow> Transaction \<Rightarrow> u64 \<Rightarrow> LineageState \<Rightarrow> TransactionSigningDomain option \<Rightarrow> LineageState result" where
  "apply_transaction_with_lineage cr tx block_height st signing_domain =
     and_then (case signing_domain of Some d \<Rightarrow> verify_signature cr tx d | None \<Rightarrow> Inr ()) (\<lambda>_.
     apply_spend_with_lineage tx block_height st)"

end
