(* ===== verification/Mining_Facts.thy ===== *)
theory Mining_Facts
  imports Mining
begin

text \<open>
  What the proof-of-work code guarantees: the nonce packing is a bijection, the textual
  difficulty test is the numeric target comparison, the search is sound and exhaustive, and a
  transaction that passes \<open>verify_signature\<close> carries a real signature or proof.
\<close>

unbundle bit_operations_syntax

section \<open>Nonce packing\<close>

lemma pack_halves:
  fixes e h :: u32
  shows "ucast (drop_bit 32 (push_bit 32 (ucast e) OR ucast h :: u64)) = e"
    and "ucast (push_bit 32 (ucast e) OR ucast h :: u64) = h"
  by (rule bit_eqI, auto simp: bit_simps dest: bit_imp_le_length)+

lemma unpack_pack_nonce:
  assumes "length extranonce2 = 4" and "length header_nonce = 4"
  shows "unpack_stratum_nonce (pack_stratum_nonce extranonce2 header_nonce) = (extranonce2, header_nonce)"
  unfolding unpack_stratum_nonce_def pack_stratum_nonce_def pack_halves
  using assms by (simp add: u32_to_from_be_bytes u32_to_from_le_bytes)

lemma join_halves: "push_bit 32 (ucast (ucast (drop_bit 32 n) :: u32)) OR ucast (ucast n :: u32) = (n :: u64)"
  by (rule bit_eqI) (auto simp: bit_simps)

lemma pack_unpack_nonce:
  "(case unpack_stratum_nonce n of (e, h) \<Rightarrow> pack_stratum_nonce e h) = n"
  by (simp add: unpack_stratum_nonce_def pack_stratum_nonce_def join_halves)

section \<open>The difficulty test is a target comparison\<close>

definition nibble_string :: "nat list \<Rightarrow> string" where
  "nibble_string ns = map (\<lambda>n. HEX ! n) ns"

definition nibble_value :: "nat list \<Rightarrow> nat" where
  "nibble_value ns = foldl (\<lambda>acc n. acc * 16 + n) 0 ns"

definition nibbles_of :: "bytes \<Rightarrow> nat list" where
  "nibbles_of bs = concat (map (\<lambda>b. [unat (drop_bit 4 b), unat (b AND 0x0f)]) bs)"

lemma nibbles_of_bound: "\<forall>n\<in>set (nibbles_of bs). n < 16"
  by (auto simp: nibbles_of_def high_nibble_bound low_nibble_bound)

lemma hex_encode_nibbles: "hex_encode bs = nibble_string (nibbles_of bs)"
  by (induction bs) (auto simp: nibble_string_def nibbles_of_def)

lemma length_nibbles_of [simp]: "length (nibbles_of bs) = 2 * length bs"
  by (induction bs) (auto simp: nibbles_of_def)

lemma byte_of_nibbles: "unat (drop_bit 4 b) * 16 + unat (b AND 0x0f) = unat (b :: u8)"
  unfolding low_nibble_take_bit
  by (simp add: drop_bit_eq_div take_bit_eq_mod unat_div_distrib unat_mod_distrib)

lemma nibble_value_snoc2:
  "nibble_value (ns @ [a, b]) = nibble_value ns * 256 + (a * 16 + b)"
  by (simp add: nibble_value_def)

lemma nibble_value_nibbles_of: "nibble_value (nibbles_of bs) = from_be_bytes bs"
proof (induction bs rule: rev_induct)
  case (snoc b bs)
  have "nibbles_of (bs @ [b]) = nibbles_of bs @ [unat (drop_bit 4 b), unat (b AND 0x0f)]"
    by (simp add: nibbles_of_def)
  then show ?case using snoc byte_of_nibbles [of b] by (simp add: nibble_value_snoc2)
qed (simp add: nibble_value_def nibbles_of_def)

lemma nibble_value_Cons: "nibble_value (n # ns) = n * 16 ^ length ns + nibble_value ns"
proof -
  have "foldl (\<lambda>acc n. acc * 16 + n) m ns = m * 16 ^ length ns + nibble_value ns" for m
    by (induction ns arbitrary: m rule: rev_induct)
      (auto simp: nibble_value_def algebra_simps)
  from this [of n] show ?thesis by (simp add: nibble_value_def)
qed

lemma nibble_value_bound: "\<forall>n\<in>set ns. n < 16 \<Longrightarrow> nibble_value ns < 16 ^ length ns"
proof (induction ns)
  case (Cons n ns)
  then have "n * 16 ^ length ns + nibble_value ns < (n + 1) * 16 ^ length ns"
    by (simp add: algebra_simps)
  also have "\<dots> \<le> 16 * 16 ^ length ns"
    using Cons.prems by (intro mult_right_mono) auto
  finally show ?case by (simp add: nibble_value_Cons)
qed (simp add: nibble_value_def)

text \<open>The test on a digit string, with the difficulty split into nibbles and bits.\<close>

definition meets :: "string \<Rightarrow> nat \<Rightarrow> nat \<Rightarrow> bool" where
  "meets s q r \<longleftrightarrow>
     q + (if 0 < r then 1 else 0) \<le> length s \<and> (\<forall>c\<in>set (take q s). c = CHR ''0'') \<and>
     (r = 0 \<or> (case to_digit16 (s ! q) of None \<Rightarrow> False | Some v \<Rightarrow> v < 2 ^ (4 - r)))"

lemma hash_meets_difficulty_alt:
  "hash_meets_difficulty s d \<longleftrightarrow> meets s (unat d div 4) (unat d mod 4)"
  by (auto simp: hash_meets_difficulty_def meets_def Let_def unat_div_distrib unat_mod_distrib
      list_all_iff split: option.splits)

lemma meets_Suc: "meets (c # s) (Suc q) r \<longleftrightarrow> c = CHR ''0'' \<and> meets s q r"
  by (auto simp: meets_def)

lemma HEX_digit:
  assumes "n < 16"
  shows "to_digit16 (HEX ! n) = Some n" and "HEX ! n = CHR ''0'' \<longleftrightarrow> n = 0"
proof -
  have "\<forall>n\<in>set [0..<16]. to_digit16 (HEX ! n) = Some n \<and> (HEX ! n = CHR ''0'' \<longleftrightarrow> n = 0)"
    by code_simp
  then show "to_digit16 (HEX ! n) = Some n" "HEX ! n = CHR ''0'' \<longleftrightarrow> n = 0"
    using assms by simp_all
qed

lemma digit_target:
  fixes v N :: nat
  assumes "v < N" and "r \<le> 4"
  shows "n * N + v < 2 ^ (4 - r) * N \<longleftrightarrow> n < 2 ^ (4 - r)"
proof
  assume "n < 2 ^ (4 - r)"
  then have "(n + 1) * N \<le> 2 ^ (4 - r) * N" by (intro mult_right_mono) auto
  then show "n * N + v < 2 ^ (4 - r) * N" using assms(1) by (simp add: algebra_simps)
next
  assume "n * N + v < 2 ^ (4 - r) * N"
  then have "n * N < 2 ^ (4 - r) * N" by linarith
  then show "n < 2 ^ (4 - r)" by simp
qed

lemma meets_nibbles:
  assumes "\<forall>n\<in>set ns. n < 16" and "r < 4" and "4 * q + r \<le> 4 * length ns"
  shows "meets (nibble_string ns) q r \<longleftrightarrow> nibble_value ns < 2 ^ (4 * length ns - (4 * q + r))"
  using assms
proof (induction q arbitrary: ns)
  case 0
  show ?case
  proof (cases "r = 0")
    case True
    then show ?thesis
      using nibble_value_bound [OF 0(1)] by (simp add: meets_def power_mult)
  next
    case False
    then obtain n rest where ns: "ns = n # rest" using 0 by (cases ns) auto
    have exp: "(2::nat) ^ (4 * length ns - r) = 2 ^ (4 - r) * 16 ^ length rest"
    proof -
      have "4 * length ns - r = (4 - r) + 4 * length rest" using ns 0(2) by simp
      then show ?thesis by (simp add: power_add power_mult)
    qed
    show ?thesis
      using False 0 digit_target [OF nibble_value_bound, of rest r n]
      by (simp add: exp) (simp add: ns meets_def nibble_string_def HEX_digit nibble_value_Cons)
  qed
next
  case (Suc q)
  then obtain n rest where ns: "ns = n # rest" by (cases ns) auto
  have IH: "meets (nibble_string rest) q r \<longleftrightarrow>
      nibble_value rest < 2 ^ (4 * length rest - (4 * q + r))"
    using Suc ns by auto
  have exp: "4 * length ns - (4 * Suc q + r) = 4 * length rest - (4 * q + r)"
    using ns by simp
  have le: "(2::nat) ^ (4 * length rest - (4 * q + r)) \<le> 16 ^ length rest"
  proof -
    have "(2::nat) ^ (4 * length rest - (4 * q + r)) \<le> 2 ^ (4 * length rest)"
      by (intro power_increasing) auto
    then show ?thesis by (simp add: power_mult)
  qed
  have n: "n < 16" using Suc.prems ns by simp
  show ?case
  proof (cases "n = 0")
    case True
    then show ?thesis
      using IH exp n by (simp add: ns nibble_string_def meets_Suc HEX_digit nibble_value_Cons)
  next
    case False
    then have "16 ^ length rest \<le> n * 16 ^ length rest" by simp
    then have "\<not> nibble_value ns < 2 ^ (4 * length rest - (4 * q + r))"
      using le unfolding ns nibble_value_Cons by linarith
    then show ?thesis
      unfolding exp using False n by (simp add: ns nibble_string_def meets_Suc HEX_digit)
  qed
qed

lemma hash_meets_difficulty_target:
  assumes "unat d \<le> 8 * length bs"
  shows "hash_meets_difficulty (hex_encode bs) d \<longleftrightarrow>
    from_be_bytes bs < 2 ^ (8 * length bs - unat d)"
proof -
  have "meets (nibble_string (nibbles_of bs)) (unat d div 4) (unat d mod 4) \<longleftrightarrow>
      nibble_value (nibbles_of bs) < 2 ^ (4 * length (nibbles_of bs) -
        (4 * (unat d div 4) + unat d mod 4))"
    using assms by (intro meets_nibbles nibbles_of_bound) auto
  then show ?thesis
    by (simp add: hash_meets_difficulty_alt hex_encode_nibbles nibble_value_nibbles_of)
qed

section \<open>The search\<close>

definition work_signature :: "crypto \<Rightarrow> MineSearchWork \<Rightarrow> u64 \<Rightarrow> string result" where
  "work_signature cr w nonce =
     mine_signature cr (work_signing_domain w) (work_recipient w) (work_anchor w) (work_salt w)
       nonce (work_difficulty_bits w)"

definition nonce_fails :: "crypto \<Rightarrow> MineSearchWork \<Rightarrow> u64 \<Rightarrow> bool" where
  "nonce_fails cr w nonce \<longleftrightarrow>
     (\<exists>sig. work_signature cr w nonce = Inr sig \<and>
        \<not> hash_meets_difficulty sig (work_difficulty_bits w))"

definition work_mine :: "MineSearchWork \<Rightarrow> u64 \<Rightarrow> string \<Rightarrow> Transaction" where
  "work_mine w nonce sig =
     Mine (work_recipient w) (work_anchor w) (work_salt w) nonce (work_difficulty_bits w) None sig"

text \<open>The outcome after \<open>k\<close> further attempts from nonce \<open>n\<close>.\<close>

definition search_outcome :: "crypto \<Rightarrow> MineSearchWork \<Rightarrow> u64 \<Rightarrow> u64 \<Rightarrow> nat \<Rightarrow> MineSearchOutcome \<Rightarrow> bool" where
  "search_outcome cr w a n k out \<longleftrightarrow>
     unat (mso_attempts out) = unat a + k \<and> unat a + k \<le> unat (work_max_attempts w) \<and>
     mso_next_nonce out = n + word_of_nat k \<and>
     (case mso_transaction out of
        None \<Rightarrow> unat a + k = unat (work_max_attempts w) \<and> (\<forall>j<k. nonce_fails cr w (n + word_of_nat j))
      | Some tx \<Rightarrow> 0 < k \<and> (\<forall>j<k - 1. nonce_fails cr w (n + word_of_nat j)) \<and>
          (\<exists>sig. work_signature cr w (n + word_of_nat (k - 1)) = Inr sig \<and>
             hash_meets_difficulty sig (work_difficulty_bits w) \<and>
             tx = work_mine w (n + word_of_nat (k - 1)) sig))"

lemma next_nonce_wraps: "(case checked_add n 1 of Some m \<Rightarrow> m | None \<Rightarrow> 0) = n + (1 :: 'a::len word)"
proof (cases "checked_add n 1")
  case None
  then have "2 ^ LENGTH('a) \<le> unat n + 1" by (simp add: arith_simps)
  then have "unat n + 1 = 2 ^ LENGTH('a)" using unat_less_power [of n] by linarith
  then have "unat (n + 1) = 0" by (simp add: unat_word_ariths)
  then show ?thesis using None by (simp add: unat_eq_0)
next
  case (Some m)
  then show ?thesis by (simp add: checked_add_def split: if_splits)
qed

lemma search_outcome_step:
  assumes "nonce_fails cr w n" and "unat a' = unat a + 1" and "search_outcome cr w a' (n + 1) k out"
  shows "search_outcome cr w a n (Suc k) out"
proof -
  have shift: "nonce_fails cr w (n + word_of_nat j)"
    if "\<forall>i<m. nonce_fails cr w (n + 1 + word_of_nat i)" and "j < Suc m" for j m
    using that assms(1) by (cases j) (auto simp: add.assoc)
  have last: "n + word_of_nat k = n + 1 + word_of_nat (k - 1)" if "0 < k"
    using that by (cases k) auto
  show ?thesis
    using assms(2,3) shift [of k] shift [of "k - 1"] last
    unfolding search_outcome_def
    by (auto simp: add.assoc split: option.splits)
qed

lemma search_loop_outcome:
  assumes "search_loop cr w a n = Inr out" and "a \<le> work_max_attempts w"
  shows "\<exists>k. search_outcome cr w a n k out"
  using assms
proof (induction cr w a n arbitrary: out rule: search_loop.induct)
  case (1 cr w a n)
  show ?case
  proof (cases "a < work_max_attempts w")
    case False
    then have "unat a = unat (work_max_attempts w)" using "1.prems" by simp
    moreover have "out = \<lparr>mso_transaction = None, mso_next_nonce = n, mso_attempts = a\<rparr>"
      using "1.prems"(1) False by (simp add: search_loop.simps [of cr w a n])
    ultimately show ?thesis
      by (intro exI [of _ 0]) (simp add: search_outcome_def)
  next
    case True
    then obtain sig where sig: "work_signature cr w n = Inr sig"
      and rest: "(if hash_meets_difficulty sig (work_difficulty_bits w)
         then Inr \<lparr>mso_transaction = Some (work_mine w n sig),
                  mso_next_nonce = n + 1, mso_attempts = saturating_add a 1\<rparr>
         else search_loop cr w (saturating_add a 1) (n + 1)) = Inr out"
      using "1.prems"(1) unfolding work_mine_def work_signature_def
      by (auto simp: search_loop.simps [of cr w a n] and_then_eq_Inr next_nonce_wraps Let_def)
    have succ: "unat (saturating_add a 1) = unat a + 1" by (rule saturating_succ_less [OF True])
    then have le: "saturating_add a 1 \<le> work_max_attempts w"
      using True by (simp add: word_le_nat_alt word_less_nat_alt)
    show ?thesis
    proof (cases "hash_meets_difficulty sig (work_difficulty_bits w)")
      case hit: True
      then show ?thesis
        using rest sig succ le
        by (intro exI [of _ 1]) (auto simp: search_outcome_def word_le_nat_alt)
    next
      case miss: False
      then have "nonce_fails cr w n" using sig by (auto simp: nonce_fails_def)
      moreover obtain k where "search_outcome cr w (saturating_add a 1) (n + 1) k out"
        using "1.IH" [OF True, of sig "saturating_add a 1" "n + 1" out] sig rest miss le
        unfolding work_signature_def next_nonce_wraps by auto
      ultimately show ?thesis using search_outcome_step [OF _ succ] by blast
    qed
  qed
qed

lemma search_spec: "search cr w = Inr out \<Longrightarrow> \<exists>k. search_outcome cr w 0 (work_start_nonce w) k out"
  unfolding search_def by (rule search_loop_outcome) auto

text \<open>A mined transaction passes verification in the domain it was mined for.\<close>

lemma work_mine_verifies:
  assumes "work_signature cr w n = Inr sig"
    and "hash_meets_difficulty sig (work_difficulty_bits w)"
  shows "verify_signature cr (work_mine w n sig) (work_signing_domain w) = Inr ()"
  using assms by (simp add: work_mine_def verify_mine_proof_def work_signature_def)

section \<open>What verification establishes\<close>

definition genesis_exempt :: "Transaction \<Rightarrow> bool" where
  "genesis_exempt tx \<longleftrightarrow>
     starts_with (tx_signature tx) ''iuna-genesis-burn:'' \<or> inputs_are_genesis_signed tx"

definition spend_payload :: "Transaction \<Rightarrow> TransactionSigningDomain \<Rightarrow> bytes result" where
  "spend_payload tx d =
     (if chain_bound d then tx_signing_bytes tx d else Inr (as_bytes (signing_payload tx)))"

lemma verify_signature_spend:
  "\<not> is_mine tx \<Longrightarrow> verify_signature cr tx d = verify_spend_signature cr tx d"
  by (cases tx) auto

lemma verify_signature_authentic:
  assumes "verify_signature cr tx d = Inr ()" and "\<not> is_mine tx" and "\<not> genesis_exempt tx"
  shows "\<exists>key payload sig.
    decode_hex (sender tx) = Inr key \<and> length key = 32 \<and>
    decode_hex (tx_signature tx) = Inr sig \<and> length sig = 64 \<and>
    spend_payload tx d = Inr payload \<and> ed25519_verify cr key payload sig"
  using assms
  by (auto simp: verify_signature_spend verify_spend_signature_def genesis_exempt_def
      spend_payload_def result_simps size_constants split: if_splits)

lemma verify_signature_mine:
  assumes "verify_signature cr (Mine recipient anchor salt nonce bits header sig) d = Inr ()"
  shows "hash_meets_difficulty sig bits" and
    "header = None \<Longrightarrow> mine_signature cr d recipient anchor salt nonce bits = Inr sig" and
    "header = Some h \<Longrightarrow> \<exists>hb. stratum_mine_header_bytes cr d recipient anchor salt nonce bits = Inr hb
       \<and> h = hex_encode hb \<and> sig = stratum_mine_signature cr hb"
  using assms
  by (auto simp: verify_mine_proof_def and_then_eq_Inr if_bail_eq_Inr split: option.splits)

lemma stratum_header_length:
  assumes "stratum_mine_header_bytes cr d recipient anchor salt nonce bits = Inr hb" and "digest_ok cr"
  shows "length hb = 80"
  using assms
  by (auto simp: stratum_mine_header_bytes_def anchor_bytes_for_def and_then_eq_Inr Let_def
      unpack_stratum_nonce_def with_context_eq_Inr decode_hex_array_eq_Inr
      decode_canonical_hex_array_eq_Inr STRATUM_MINE_VERSION_def STRATUM_MINE_NTIME_def
      double_sha256_def digest_ok_def size_constants split: if_splits)

end
