(* ===== verification/Ledger_Ops_Facts.thy ===== *)
theory Ledger_Ops_Facts
  imports Ledger_Ops Mining_Facts
begin

text \<open>
  Conservation of value for the ledger operations: what spending takes, what outputs and
  rewards add, that no transaction creates value, that no balance overflows, and that a block
  reward is paid out exactly.
\<close>

section \<open>The value of an output set\<close>

definition utxo_total :: "utxos \<Rightarrow> nat" where
  "utxo_total m = bt_sum (\<lambda>_ o1. unat (out_amount o1)) m"

definition amounts :: "TxOutput list \<Rightarrow> nat" where
  "amounts outs = (\<Sum>o1\<leftarrow>outs. unat (out_amount o1))"

lemma amounts_simps [simp]:
  "amounts [] = 0"
  "amounts (o1 # outs) = unat (out_amount o1) + amounts outs"
  "amounts (outs @ outs') = amounts outs + amounts outs'"
  by (simp_all add: amounts_def)

lemma utxo_total_remove:
  "bt_get m p = Some o1 \<Longrightarrow> utxo_total m = utxo_total (bt_remove p m) + unat (out_amount o1)"
  unfolding utxo_total_def by (rule bt_sum_remove_Some)

lemma utxo_total_insert_fresh:
  "bt_get m p = None \<Longrightarrow> utxo_total (bt_insert p o1 m) = utxo_total m + unat (out_amount o1)"
  unfolding utxo_total_def by (rule bt_sum_insert_None)

lemma utxo_total_insert_le: "utxo_total (bt_insert p o1 m) \<le> utxo_total m + unat (out_amount o1)"
  unfolding utxo_total_def using bt_sum_insert [of "\<lambda>_ o1. unat (out_amount o1)" p o1 m] by linarith

lemma insert_entries_simps [simp]:
  "insert_entries [] m = m"
  "insert_entries (e # es) m = insert_entries es (bt_insert (fst e) (snd e) m)"
  by (simp_all add: insert_entries_def)

lemma insert_entries_put_all: "insert_entries es m = bt.put_all es m"
  by (simp add: insert_entries_def bt.put_all_def)

lemma insert_entries_le: "utxo_total (insert_entries es m) \<le> utxo_total m + amounts (map snd es)"
proof (induction es arbitrary: m)
  case (Cons e es)
  have "utxo_total (insert_entries es (bt_insert (fst e) (snd e) m))
      \<le> utxo_total (bt_insert (fst e) (snd e) m) + amounts (map snd es)"
    by (rule Cons.IH)
  then show ?case using utxo_total_insert_le [of "fst e" "snd e" m] by simp
qed simp

lemma insert_entries_fresh:
  assumes "distinct (map fst es)" and "\<forall>e\<in>set es. bt_get m (fst e) = None"
  shows "utxo_total (insert_entries es m) = utxo_total m + amounts (map snd es)"
  using bt.weight_put_all [OF assms, where w = "\<lambda>_ o1. unat (out_amount o1)"]
  by (simp add: utxo_total_def insert_entries_put_all amounts_def o_def)

section \<open>Spending inputs\<close>

lemma spend_step_eq_Inr:
  "spend_step (seen, running, m) i = Inr (seen', running', m') \<longleftrightarrow>
     in_outpoint i \<notin> seen \<and> seen' = insert (in_outpoint i) seen \<and> m' = bt_remove (in_outpoint i) m \<and>
     (\<exists>o1. bt_get m (in_outpoint i) = Some o1 \<and> out_address o1 = in_owner i \<and>
        unat running' = unat running + unat (out_amount o1))"
  by (auto simp: spend_step_def and_then_eq_Inr ok_or_eq_Inr if_bail_eq_Inr checked_add_eq_Some)

lemma spend_loop:
  assumes "try_fold spend_step (seen, running, m) ins = Inr (seen', running', m')"
  shows "utxo_total m + unat running = utxo_total m' + unat running' \<and>
    m' = bt.del_all (map in_outpoint ins) m \<and>
    distinct (map in_outpoint ins) \<and> set (map in_outpoint ins) \<inter> seen = {} \<and>
    (\<forall>i\<in>set ins. \<exists>o1. bt_get m (in_outpoint i) = Some o1 \<and> out_address o1 = in_owner i)"
  using assms
proof (induction ins arbitrary: seen running m)
  case (Cons i ins)
  obtain s1 r1 m1 where step: "spend_step (seen, running, m) i = Inr (s1, r1, m1)"
    and rest: "try_fold spend_step (s1, r1, m1) ins = Inr (seen', running', m')"
    using Cons.prems by (auto simp: and_then_eq_Inr)
  obtain o1 where o1: "bt_get m (in_outpoint i) = Some o1" "out_address o1 = in_owner i"
      "unat r1 = unat running + unat (out_amount o1)"
    and s1: "in_outpoint i \<notin> seen" "s1 = insert (in_outpoint i) seen" "m1 = bt_remove (in_outpoint i) m"
    using step by (auto simp: spend_step_eq_Inr)
  note IH = Cons.IH [OF rest]
  have "bt_get m (in_outpoint j) = Some o2" if "bt_get m1 (in_outpoint j) = Some o2" for j o2
    using that s1(3) by (auto split: if_splits)
  then have "\<forall>j\<in>set ins. \<exists>o2. bt_get m (in_outpoint j) = Some o2 \<and> out_address o2 = in_owner j"
    using IH by blast
  moreover have "utxo_total m + unat running = utxo_total m' + unat running'"
    using conjunct1 [OF IH] utxo_total_remove [OF o1(1)] o1(3) s1(3) by simp
  ultimately show ?case using IH o1 s1 by auto
qed simp

lemma spend_inputs_spec:
  assumes "spend_inputs tx m = Inr (input_total, m')"
  shows "utxo_total m = utxo_total m' + unat input_total"
    and "m' = bt.del_all (map in_outpoint (inputs tx)) m"
    and "distinct (map in_outpoint (inputs tx))"
    and "\<forall>i\<in>set (inputs tx). \<exists>o1. bt_get m (in_outpoint i) = Some o1 \<and> out_address o1 = in_owner i"
proof -
  obtain seen where fold: "try_fold spend_step ({}, 0, m) (inputs tx) = Inr (seen, input_total, m')"
    using assms by (auto simp: spend_inputs_def and_then_eq_Inr)
  from spend_loop [OF fold]
  show "utxo_total m = utxo_total m' + unat input_total"
    "m' = bt.del_all (map in_outpoint (inputs tx)) m" "distinct (map in_outpoint (inputs tx))"
    "\<forall>i\<in>set (inputs tx). \<exists>o1. bt_get m (in_outpoint i) = Some o1 \<and> out_address o1 = in_owner i"
    by auto
qed

lemma outputs_total_eq_Inr: "outputs_total outs = Inr t \<Longrightarrow> unat t = amounts outs"
proof -
  have "try_fold (\<lambda>acc o1. ok_or msg (checked_add acc (out_amount o1))) s outs = Inr t \<Longrightarrow>
      unat t = unat s + amounts outs" for msg s
    by (induction outs arbitrary: s) (auto simp: and_then_eq_Inr ok_or_eq_Inr checked_add_eq_Some)
  then show "outputs_total outs = Inr t \<Longrightarrow> unat t = amounts outs"
    by (fastforce simp: outputs_total_def)
qed

lemma required_total_eq_Inr:
  "required_total tx = Inr t \<Longrightarrow> unat t = amounts (outputs tx) + unat (fee tx) + unat (burned_amount tx)"
  by (auto simp: required_total_def and_then_eq_Inr ok_or_eq_Inr checked_add_eq_Some
      dest!: outputs_total_eq_Inr)

lemma snd_output_entries [simp]: "map snd (output_entries tx) = outputs tx"
  by (simp add: output_entries_def o_def case_prod_unfold map_snd_enumerate)

section \<open>No transaction creates value\<close>

lemma apply_spend_spendE:
  assumes "apply_spend tx m = Inr m'" and "\<not> is_mine tx"
  obtains input_total m1 where
    "spend_inputs tx m = Inr (input_total, m1)"
    "unat input_total = amounts (outputs tx) + unat (fee tx) + unat (burned_amount tx)"
    "ensure_single_input_owner tx = Inr ()"
    "ensure_outputs_do_not_overflow m1 (outputs tx) = Inr ()"
    "m' = insert_entries (output_entries tx) m1"
  using assms
  by (cases tx) (auto simp: and_then_eq_Inr if_bail_eq_Inr dest!: required_total_eq_Inr)

lemma apply_spend_conserves:
  assumes ok: "apply_spend tx m = Inr m'" and spend: "\<not> is_mine tx"
  shows "utxo_total m' + unat (fee tx) + unat (burned_amount tx) \<le> utxo_total m"
proof -
  obtain input_total m1 where sp: "spend_inputs tx m = Inr (input_total, m1)"
    and bal: "unat input_total = amounts (outputs tx) + unat (fee tx) + unat (burned_amount tx)"
    and m': "m' = insert_entries (output_entries tx) m1"
    using ok spend by (rule apply_spend_spendE)
  show ?thesis
    using spend_inputs_spec(1) [OF sp] bal insert_entries_le [of "output_entries tx" m1] m' by simp
qed

lemma output_entries_distinct:
  assumes "length (outputs tx) \<le> 2 ^ 32"
  shows "distinct (map fst (output_entries tx))"
proof -
  have keys: "map fst (output_entries tx) = map (\<lambda>n. OutPoint (tx_signature tx) (word_of_nat n)) [0..<length (outputs tx)]"
    by (rule nth_equalityI) (simp_all add: output_entries_def nth_enumerate_eq case_prod_unfold)
  have "inj_on (\<lambda>n. OutPoint (tx_signature tx) (word_of_nat n :: u32)) {0..<length (outputs tx)}"
    using assms by (auto simp: inj_on_def word_unat_eq_iff unat_of_nat)
  then show ?thesis by (simp add: keys distinct_map)
qed

lemma fst_output_entries: "e \<in> set (output_entries tx) \<Longrightarrow> op_txid (fst e) = tx_signature tx"
  by (auto simp: output_entries_def)

text \<open>
  With at most \<open>2 ^ 32\<close> outputs whose outpoints are not in use, the balance is exact.
\<close>

lemma apply_spend_exact:
  assumes ok: "apply_spend tx m = Inr m'" and spend: "\<not> is_mine tx"
    and len: "length (outputs tx) \<le> 2 ^ 32"
    and fresh: "\<forall>p. op_txid p = tx_signature tx \<longrightarrow> bt_get m p = None"
  shows "utxo_total m' + unat (fee tx) + unat (burned_amount tx) = utxo_total m"
proof -
  obtain input_total m1 where sp: "spend_inputs tx m = Inr (input_total, m1)"
    and bal: "unat input_total = amounts (outputs tx) + unat (fee tx) + unat (burned_amount tx)"
    and m': "m' = insert_entries (output_entries tx) m1"
    using ok spend by (rule apply_spend_spendE)
  have "\<forall>e\<in>set (output_entries tx). bt_get m1 (fst e) = None"
    using fresh fst_output_entries by (auto simp: spend_inputs_spec(2) [OF sp] bt.get_del_all)
  then have "utxo_total m' = utxo_total m1 + amounts (outputs tx)"
    using insert_entries_fresh [OF output_entries_distinct [OF len]] m' by simp
  then show ?thesis using spend_inputs_spec(1) [OF sp] bal by simp
qed

lemma apply_spend_mine:
  assumes "apply_spend tx m = Inr m'" and "is_mine tx"
  shows "utxo_total m' \<le> utxo_total m + unat MINE_REWARD"
    and "bt_get m (OutPoint (tx_signature tx) 0) = None \<Longrightarrow> utxo_total m' = utxo_total m + unat MINE_REWARD"
proof -
  obtain o1 where m': "m' = bt_insert (OutPoint (tx_signature tx) 0) o1 m" and o1: "out_amount o1 = MINE_REWARD"
    using assms by (cases tx) (auto simp: and_then_eq_Inr Let_def)
  show "utxo_total m' \<le> utxo_total m + unat MINE_REWARD"
    using utxo_total_insert_le [of _ o1 m] o1 m' by simp
  show "bt_get m (OutPoint (tx_signature tx) 0) = None \<Longrightarrow> utxo_total m' = utxo_total m + unat MINE_REWARD"
    using utxo_total_insert_fresh [of m _ o1] o1 m' by simp
qed

text \<open>A spent output is gone, unless the transaction re-creates the same outpoint.\<close>

lemma bt_get_insert_entries_notin: "p \<notin> fst ` set es \<Longrightarrow> bt_get (insert_entries es m) p = bt_get m p"
  by (simp add: insert_entries_put_all bt.get_put_all_notin)

lemma spent_outputs_gone:
  assumes ok: "apply_spend tx m = Inr m'" and spend: "\<not> is_mine tx" and i: "i \<in> set (inputs tx)"
    and other: "op_txid (in_outpoint i) \<noteq> tx_signature tx"
  shows "bt_get m' (in_outpoint i) = None"
    and "\<exists>o1. bt_get m (in_outpoint i) = Some o1 \<and> out_address o1 = sender tx"
proof -
  obtain input_total m1 where sp: "spend_inputs tx m = Inr (input_total, m1)"
    and single: "ensure_single_input_owner tx = Inr ()"
    and m': "m' = insert_entries (output_entries tx) m1"
    using ok spend by (rule apply_spend_spendE)
  have "in_outpoint i \<notin> fst ` set (output_entries tx)"
    using other fst_output_entries [of _ tx] by fastforce
  then show "bt_get m' (in_outpoint i) = None"
    using i by (simp add: m' bt_get_insert_entries_notin spend_inputs_spec(2) [OF sp] bt.get_del_all)
  obtain first rest where ins: "inputs tx = first # rest"
    using i by (cases "inputs tx") auto
  have "sender tx = in_owner first"
    using spend ins by (cases tx) (auto simp: first_owner_def)
  moreover have "in_owner i = in_owner first"
    using single spend ins i
    by (auto simp: ensure_single_input_owner_def ensure_single_input_owner_for_inputs_def
        if_bail_eq_Inr list_ex_iff)
  ultimately show "\<exists>o1. bt_get m (in_outpoint i) = Some o1 \<and> out_address o1 = sender tx"
    using spend_inputs_spec(4) [OF sp] i by auto
qed

section \<open>No balance overflows\<close>

definition addr_total :: "TxOutput list \<Rightarrow> string \<Rightarrow> nat" where
  "addr_total outs a = (\<Sum>o1\<leftarrow>outs. if out_address o1 = a then unat (out_amount o1) else 0)"

definition balance_of :: "(string, Amount) btree_map \<Rightarrow> string \<Rightarrow> nat" where
  "balance_of b a = (case bt_get b a of Some v \<Rightarrow> unat v | None \<Rightarrow> 0)"

lemma addr_total_simps [simp]:
  "addr_total [] a = 0"
  "addr_total (o1 # outs) a = (if out_address o1 = a then unat (out_amount o1) else 0) + addr_total outs a"
  "addr_total (outs @ outs') a = addr_total outs a + addr_total outs' a"
  by (simp_all add: addr_total_def)

lemma credit_balance_cases:
  "(\<exists>b'. credit_balance b o1 = Inr b') \<longleftrightarrow> balance_of b (out_address o1) + unat (out_amount o1) < 2 ^ 64"
  "credit_balance b o1 = Inr b' \<Longrightarrow>
     balance_of b' a = balance_of b a + (if out_address o1 = a then unat (out_amount o1) else 0)"
proof -
  let ?v = "case bt_get b (out_address o1) of Some v \<Rightarrow> v | None \<Rightarrow> 0"
  have v: "unat ?v = balance_of b (out_address o1)"
    by (simp add: balance_of_def split: option.splits)
  show "(\<exists>b'. credit_balance b o1 = Inr b') \<longleftrightarrow> balance_of b (out_address o1) + unat (out_amount o1) < 2 ^ 64"
    unfolding credit_balance_def Let_def checked_add_def v by simp
  assume "credit_balance b o1 = Inr b'"
  then obtain w where "checked_add ?v (out_amount o1) = Some w" "b' = bt_insert (out_address o1) w b"
    by (auto simp: credit_balance_def Let_def and_then_eq_Inr ok_or_eq_Inr)
  then show "balance_of b' a = balance_of b a + (if out_address o1 = a then unat (out_amount o1) else 0)"
    using v by (auto simp: checked_add_eq_Some balance_of_def)
qed

lemma addr_total_notin: "a \<notin> out_address ` set outs \<Longrightarrow> addr_total outs a = 0"
  by (induction outs) auto

lemma credit_fold_balance:
  "try_fold credit_balance b outs = Inr b' \<Longrightarrow> balance_of b' a = balance_of b a + addr_total outs a"
proof (induction outs arbitrary: b)
  case (Cons o1 outs)
  then obtain b1 where b1: "credit_balance b o1 = Inr b1" "try_fold credit_balance b1 outs = Inr b'"
    by (auto simp: and_then_eq_Inr)
  show ?case using Cons.IH [OF b1(2)] credit_balance_cases(2) [OF b1(1), of a] by simp
qed simp

lemma credit_fold_ok:
  assumes "\<forall>a. balance_of b a + addr_total outs a < 2 ^ 64"
  shows "\<exists>b'. try_fold credit_balance b outs = Inr b'"
  using assms
proof (induction outs arbitrary: b)
  case (Cons o1 outs)
  have "balance_of b (out_address o1) + unat (out_amount o1) < 2 ^ 64"
    using Cons.prems [rule_format, of "out_address o1"] by simp
  then obtain b1 where b1: "credit_balance b o1 = Inr b1"
    using credit_balance_cases(1) by blast
  have "balance_of b1 a + addr_total outs a < 2 ^ 64" for a
    using Cons.prems [rule_format, of a] credit_balance_cases(2) [OF b1, of a] by simp
  then show ?case using Cons.IH [of b1] b1 by simp
qed simp

lemma ensure_outputs_iff:
  "ensure_outputs_do_not_overflow m outs = Inr () \<longleftrightarrow>
     (\<forall>a. addr_total (bt_values m @ outs) a < 2 ^ 64)" (is "?L \<longleftrightarrow> ?R")
proof -
  have zero: "balance_of bt_empty a = 0" for a by (simp add: balance_of_def)
  show ?thesis
  proof
    assume ?L
    then obtain b b' where b: "try_fold credit_balance bt_empty (bt_values m) = Inr b"
      and b': "try_fold credit_balance b outs = Inr b'"
      by (auto simp: ensure_outputs_do_not_overflow_def and_then_eq_Inr)
    have "balance_of b' a = addr_total (bt_values m @ outs) a" for a
      using credit_fold_balance [OF b, of a] credit_fold_balance [OF b', of a] zero by simp
    moreover have "balance_of b' a < 2 ^ 64" for a
      using unat_less_power [where 'a = 64] by (simp add: balance_of_def split: option.splits)
    ultimately show ?R by metis
  next
    assume R: ?R
    have le: "addr_total (bt_values m) a < 2 ^ 64" for a
      using R [rule_format, of a] by simp
    then obtain b where b: "try_fold credit_balance bt_empty (bt_values m) = Inr b"
      using credit_fold_ok [of bt_empty "bt_values m"] zero by auto
    have "balance_of b a + addr_total outs a < 2 ^ 64" for a
      using R [rule_format, of a] credit_fold_balance [OF b, of a] zero by simp
    then obtain b' where "try_fold credit_balance b outs = Inr b'"
      using credit_fold_ok [of b outs] by auto
    with b show ?L by (simp add: ensure_outputs_do_not_overflow_def)
  qed
qed

section \<open>Block rewards\<close>

lemma unat_div_le: "unat (a div b) \<le> unat (a :: 'a::len word)"
  by (simp add: unat_div_distrib)

definition member_share :: "Amount \<Rightarrow> BurnCommitteeMember list \<Rightarrow> Amount" where
  "member_share remaining ms =
     (if length ms = 1 then remaining else remaining div word_of_nat (length ms))"

lemma committee_shares_Cons:
  "committee_shares b remaining (m # ms) =
     (if member_share remaining (m # ms) = 0 then []
      else [(committee_reward_outpoint (block_hash b) (cm_slot m),
             \<lparr>out_address = committee_reward_address b m, out_amount = member_share remaining (m # ms)\<rparr>)]) @
     committee_shares b (saturating_sub remaining (member_share remaining (m # ms))) ms"
  by (simp add: member_share_def Let_def)

declare committee_shares.simps(2) [simp del]

lemma committee_shares_sum:
  "ms \<noteq> [] \<Longrightarrow> amounts (map snd (committee_shares b remaining ms)) = unat remaining"
proof (induction ms arbitrary: remaining)
  case (Cons m ms)
  let ?share = "member_share remaining (m # ms)"
  have le: "unat ?share \<le> unat remaining"
    using unat_div_le by (auto simp: member_share_def)
  have head: "amounts (map snd (committee_shares b remaining (m # ms))) =
      unat ?share + amounts (map snd (committee_shares b (saturating_sub remaining ?share) ms))"
    by (simp add: committee_shares_Cons)
  show ?case
  proof (cases "ms = []")
    case True
    then show ?thesis unfolding head by (simp add: member_share_def)
  next
    case False
    then show ?thesis unfolding head using Cons.IH [OF False] le by (simp add: unat_saturating_sub)
  qed
qed simp

lemma reward_outputs_sum:
  "amounts (map snd (reward_outputs_for_block b committee)) = unat (reward b)"
proof -
  define members where "members = reward_committee_members b committee"
  define pool where "pool = (if members = [] then 0 else reward b div 2)"
  have "amounts (map snd (committee_shares b pool members)) = unat pool"
    using committee_shares_sum [of members b pool] by (auto simp: pool_def)
  moreover have "unat pool \<le> unat (reward b)"
    using unat_div_le [of "reward b" 2] by (simp add: pool_def)
  moreover define fin where "fin = saturating_sub (reward b) pool"
  ultimately have fin: "unat fin + unat pool = unat (reward b)" by (simp add: unat_saturating_sub)
  have pool_sum: "amounts (map snd (committee_shares b pool members)) = unat pool" by fact
  show ?thesis
  proof (cases "0 < fin")
    case True
    then show ?thesis
      using fin pool_sum
      by (simp add: reward_outputs_for_block_def Let_def members_def [symmetric] pool_def [symmetric]
          fin_def [symmetric])
  next
    case False
    then have "fin = 0" by (simp add: word_gt_0)
    then show ?thesis
      using fin pool_sum
      by (simp add: reward_outputs_for_block_def Let_def members_def [symmetric] pool_def [symmetric]
          fin_def [symmetric])
  qed
qed

lemma credit_reward_le:
  "credit_reward_outputs m b committee = Inr m' \<Longrightarrow> utxo_total m' \<le> utxo_total m + unat (reward b)"
  using insert_entries_le [of "reward_outputs_for_block b committee" m] reward_outputs_sum [of b committee]
  by (auto simp: credit_reward_outputs_def Let_def and_then_eq_Inr)

lemma fee_reward_eq_Inr: "fee_reward txs = Inr t \<Longrightarrow> unat t = (\<Sum>tx\<leftarrow>txs. unat (fee tx))"
proof -
  have "try_fold (\<lambda>acc tx. ok_or msg (checked_add acc (fee tx))) s txs = Inr t \<Longrightarrow>
      unat t = unat s + (\<Sum>tx\<leftarrow>txs. unat (fee tx))" for msg s
    by (induction txs arbitrary: s) (auto simp: and_then_eq_Inr ok_or_eq_Inr checked_add_eq_Some)
  then show "fee_reward txs = Inr t \<Longrightarrow> unat t = (\<Sum>tx\<leftarrow>txs. unat (fee tx))"
    by (fastforce simp: fee_reward_def)
qed

text \<open>Reward outpoints are distinct when the attesting slots are distinct and none is slot 0.\<close>

definition slots_ok :: "Block \<Rightarrow> bool" where
  "slots_ok b \<longleftrightarrow> distinct (map bs_slot (sec_signatures (burn_bundle_section b))) \<and>
     (\<forall>s\<in>set (sec_signatures (burn_bundle_section b)). 0 < bs_slot s \<and> unat (bs_slot s) < BURN_COMMITTEE_SIZE)"

lemma committee_outpoint_inject:
  assumes "unat s < BURN_COMMITTEE_SIZE" and "unat t < BURN_COMMITTEE_SIZE"
  shows "committee_reward_outpoint h s = committee_reward_outpoint h t \<longleftrightarrow> s = t"
    and "reward_outpoint h = committee_reward_outpoint h s \<longleftrightarrow> s = 0"
proof -
  have idx: "unat (saturating_sub (- 1) (word_of_nat (min (unat s) (BURN_COMMITTEE_SIZE - 1))) :: u32) =
      2 ^ 32 - 1 - unat s" if "unat s < BURN_COMMITTEE_SIZE" for s :: u8
  proof -
    have "min (unat s) (BURN_COMMITTEE_SIZE - 1) = unat s"
      using that by (simp add: BURN_COMMITTEE_SIZE_def)
    moreover have "unat (word_of_nat (unat s) :: u32) = unat s"
      using that by (subst unat_of_nat) (simp add: BURN_COMMITTEE_SIZE_def)
    ultimately show ?thesis
      by (simp only: unat_saturating_sub unsigned_minus_1_eq_mask mask_eq_exp_minus_1) simp
  qed
  have lt: "unat s < 5" "unat t < 5" using assms by (simp_all add: BURN_COMMITTEE_SIZE_def)
  have "committee_reward_outpoint h s = committee_reward_outpoint h t \<longleftrightarrow>
      (2 ^ 32 - 1 - unat s :: nat) = 2 ^ 32 - 1 - unat t"
    unfolding committee_reward_outpoint_def OutPoint.inject word_unat_eq_iff idx [OF assms(1)] idx [OF assms(2)]
    by simp
  also have "\<dots> \<longleftrightarrow> s = t" unfolding word_unat_eq_iff using lt by auto
  finally show "committee_reward_outpoint h s = committee_reward_outpoint h t \<longleftrightarrow> s = t" .
  have top: "unat (- 1 :: u32) = 2 ^ 32 - 1" by (simp add: unsigned_minus_1_eq_mask mask_eq_exp_minus_1)
  have "reward_outpoint h = committee_reward_outpoint h s \<longleftrightarrow> (2 ^ 32 - 1 :: nat) = 2 ^ 32 - 1 - unat s"
    unfolding committee_reward_outpoint_def reward_outpoint_def OutPoint.inject word_unat_eq_iff
      idx [OF assms(1)] top by simp
  also have "\<dots> \<longleftrightarrow> unat s = 0" using lt by auto
  finally show "reward_outpoint h = committee_reward_outpoint h s \<longleftrightarrow> s = 0" by (simp add: unat_eq_0)
qed

lemma committee_shares_keys:
  "distinct (map cm_slot ms) \<Longrightarrow> \<forall>m\<in>set ms. unat (cm_slot m) < BURN_COMMITTEE_SIZE \<Longrightarrow>
   distinct (map fst (committee_shares b remaining ms)) \<and>
   fst ` set (committee_shares b remaining ms) \<subseteq>
     (\<lambda>m. committee_reward_outpoint (block_hash b) (cm_slot m)) ` set ms"
proof (induction ms arbitrary: remaining)
  case (Cons m ms)
  let ?rest = "committee_shares b (saturating_sub remaining (member_share remaining (m # ms))) ms"
  have IH: "distinct (map fst ?rest)"
    "fst ` set ?rest \<subseteq> (\<lambda>m. committee_reward_outpoint (block_hash b) (cm_slot m)) ` set ms"
    using Cons.IH Cons.prems by auto
  have "committee_reward_outpoint (block_hash b) (cm_slot m) \<notin> fst ` set ?rest"
  proof
    assume "committee_reward_outpoint (block_hash b) (cm_slot m) \<in> fst ` set ?rest"
    then obtain m' where "m' \<in> set ms"
      "committee_reward_outpoint (block_hash b) (cm_slot m) = committee_reward_outpoint (block_hash b) (cm_slot m')"
      using IH(2) by auto
    then show False using Cons.prems committee_outpoint_inject(1) by auto
  qed
  then have "distinct (map fst (committee_shares b remaining (m # ms)))"
    using IH(1) by (simp add: committee_shares_Cons)
  moreover have "fst ` set (committee_shares b remaining (m # ms)) \<subseteq>
      insert (committee_reward_outpoint (block_hash b) (cm_slot m)) (fst ` set ?rest)"
    by (auto simp: committee_shares_Cons)
  ultimately show ?case using IH(2) by auto
qed simp

end
