(* ===== verification/Lineage_Facts.thy ===== *)
theory Lineage_Facts
  imports Lineage Ledger_Ops_Facts
begin

text \<open>
  Two facts about the lineage index. First, applying a transaction with lineage refines the
  plain application on the unspent outputs, and its balance is exact because it never replaces
  an output. Second, the index agrees with the outputs it describes, and every operation keeps
  that invariant.
\<close>

section \<open>Refinement\<close>

lemma index_output_utxos: "index_output p o1 root st = Inr st' \<Longrightarrow> ls_utxos st' = ls_utxos st"
  by (auto simp: index_output_def Let_def and_then_eq_Inr)

lemma insert_output_utxos:
  "insert_output_with_lineage p o1 root st = Inr st' \<Longrightarrow>
     bt_get (ls_utxos st) p = None \<and> ls_utxos st' = bt_insert p o1 (ls_utxos st)"
  by (auto simp: insert_output_with_lineage_def Let_def if_bail_eq_Inr bt_contains_key_def
      dest!: index_output_utxos split: option.splits)

lemma remove_spent_utxos:
  "remove_spent_output_lineage p o1 st = Inr (root, st') \<Longrightarrow> ls_utxos st' = ls_utxos st"
  by (auto simp: remove_spent_output_lineage_def and_then_eq_Inr split: option.splits)

lemma spend_lineage_step_refines:
  assumes "spend_lineage_step (seen, running, inh, st) i = Inr (seen', running', inh', st')"
  shows "spend_step (seen, running, ls_utxos st) i = Inr (seen', running', ls_utxos st')"
  using assms
  by (auto simp: spend_lineage_step_def spend_step_def and_then_eq_Inr ok_or_eq_Inr if_bail_eq_Inr
      dest!: remove_spent_utxos)

lemma spend_lineage_loop_refines:
  "try_fold spend_lineage_step (seen, running, inh, st) ins = Inr (seen', running', inh', st') \<Longrightarrow>
     try_fold spend_step (seen, running, ls_utxos st) ins = Inr (seen', running', ls_utxos st')"
proof (induction ins arbitrary: seen running inh st)
  case (Cons i ins)
  obtain s1 r1 h1 st1 where "spend_lineage_step (seen, running, inh, st) i = Inr (s1, r1, h1, st1)"
    and "try_fold spend_lineage_step (s1, r1, h1, st1) ins = Inr (seen', running', inh', st')"
    using Cons.prems by (auto simp: and_then_eq_Inr)
  then show ?case using Cons.IH spend_lineage_step_refines by fastforce
qed simp

lemma spend_inputs_refines:
  "spend_inputs_with_lineage tx st = Inr (input_total, inh, st') \<Longrightarrow>
     spend_inputs tx (ls_utxos st) = Inr (input_total, ls_utxos st')"
  by (auto simp: spend_inputs_with_lineage_def spend_inputs_def and_then_eq_Inr
      dest!: spend_lineage_loop_refines)

lemma insert_outputs_refines:
  assumes "insert_outputs_with_lineage es root st = Inr st'"
  shows "ls_utxos st' = insert_entries es (ls_utxos st) \<and> distinct (map fst es) \<and>
    (\<forall>e\<in>set es. bt_get (ls_utxos st) (fst e) = None)"
  using assms
proof (induction es arbitrary: st)
  case (Cons e es)
  obtain st1 where step: "insert_output_with_lineage (fst e) (snd e) root st = Inr st1"
    and rest: "insert_outputs_with_lineage es root st1 = Inr st'"
    using Cons.prems by (auto simp: insert_outputs_with_lineage_def and_then_eq_Inr)
  have st1: "bt_get (ls_utxos st) (fst e) = None" "ls_utxos st1 = bt_insert (fst e) (snd e) (ls_utxos st)"
    using insert_output_utxos [OF step] by auto
  note IH = Cons.IH [OF rest]
  have "fst e \<notin> fst ` set es"
  proof
    assume "fst e \<in> fst ` set es"
    then obtain e' where "e' \<in> set es" "fst e' = fst e" by auto
    then show False using IH st1(2) by (metis bt_get_insert fun_upd_same option.distinct(1))
  qed
  moreover have "\<forall>e'\<in>set es. bt_get (ls_utxos st) (fst e') = None"
  proof
    fix e' assume "e' \<in> set es"
    then show "bt_get (ls_utxos st) (fst e') = None"
      using IH st1(2) by (metis bt_get_insert fun_upd_apply option.distinct(1))
  qed
  ultimately show ?case using IH st1 by auto
qed (simp add: insert_outputs_with_lineage_def)

lemma apply_spend_non_mine:
  "\<not> is_mine tx \<Longrightarrow> apply_spend tx m =
     and_then (ensure_single_input_owner tx) (\<lambda>_.
     and_then (spend_inputs tx m) (\<lambda>(input_total, m').
     and_then (required_total tx) (\<lambda>required.
     if input_total \<noteq> required then bail ''transaction inputs do not balance outputs, burn, and fee''
     else
       and_then (ensure_outputs_do_not_overflow m' (outputs tx)) (\<lambda>_.
       Inr (insert_entries (output_entries tx) m')))))"
  by (induction tx) simp_all

lemma apply_spend_is_mine:
  "is_mine tx \<Longrightarrow> apply_spend tx m =
     and_then (ensure_outputs_do_not_overflow m [hd (outputs tx)]) (\<lambda>_.
     Inr (bt_insert (OutPoint (tx_signature tx) 0) (hd (outputs tx)) m))"
  by (cases tx) (simp_all add: Let_def)

lemma apply_with_lineage_refines:
  assumes "apply_spend_with_lineage tx h st = Inr st'"
  shows "apply_spend tx (ls_utxos st) = Inr (ls_utxos st')"
proof (cases "is_mine tx")
  case True
  then show ?thesis
    using assms
    by (auto simp: apply_spend_with_lineage_def apply_spend_is_mine Let_def and_then_eq_Inr
        dest!: insert_output_utxos)
next
  case False
  then show ?thesis
    using assms
    by (auto simp: apply_spend_with_lineage_def apply_spend_non_mine and_then_eq_Inr if_bail_eq_Inr
        dest!: insert_outputs_refines spend_inputs_refines)
qed

text \<open>What a transaction mints and what it takes out of the outputs.\<close>

definition minted :: "Transaction \<Rightarrow> nat" where
  "minted tx = (if is_mine tx then unat MINE_REWARD else 0)"

definition withdrawn :: "Transaction \<Rightarrow> nat" where
  "withdrawn tx = (if is_mine tx then 0 else unat (fee tx) + unat (burned_amount tx))"

lemma apply_with_lineage_exact:
  assumes "apply_spend_with_lineage tx h st = Inr st'"
  shows "utxo_total (ls_utxos st') + withdrawn tx = utxo_total (ls_utxos st) + minted tx"
proof (cases "is_mine tx")
  case True
  then have out: "out_amount (hd (outputs tx)) = MINE_REWARD" by (cases tx) auto
  have "bt_get (ls_utxos st) (OutPoint (tx_signature tx) 0) = None \<and>
      ls_utxos st' = bt_insert (OutPoint (tx_signature tx) 0) (hd (outputs tx)) (ls_utxos st)"
    using assms True
    by (auto simp: apply_spend_with_lineage_def Let_def and_then_eq_Inr dest!: insert_output_utxos)
  then show ?thesis
    using True out by (auto simp: utxo_total_insert_fresh minted_def withdrawn_def)
next
  case False
  then obtain input_total inh st1 required where
    spend: "spend_inputs_with_lineage tx st = Inr (input_total, inh, st1)"
    and req: "required_total tx = Inr required" "input_total = required"
    and ins: "insert_outputs_with_lineage (output_entries tx) inh st1 = Inr st'"
    using assms by (auto simp: apply_spend_with_lineage_def and_then_eq_Inr if_bail_eq_Inr)
  have "utxo_total (ls_utxos st') = utxo_total (ls_utxos st1) + amounts (outputs tx)"
    using insert_outputs_refines [OF ins] insert_entries_fresh by simp
  moreover have "utxo_total (ls_utxos st) = utxo_total (ls_utxos st1) + unat input_total"
    using spend_inputs_spec(1) [OF spend_inputs_refines [OF spend]] .
  ultimately show ?thesis
    using req required_total_eq_Inr [OF req(1)] False by (simp add: minted_def withdrawn_def)
qed

section \<open>The index invariant\<close>

definition amount_at :: "utxos \<Rightarrow> OutPoint \<Rightarrow> nat" where
  "amount_at m p = (case bt_get m p of Some o1 \<Rightarrow> unat (out_amount o1) | None \<Rightarrow> 0)"

text \<open>
  The invariant is stated relative to the outputs that the index describes, so that it can be
  followed through operations that change the outputs first and the index later.
\<close>

definition root_value :: "utxos \<Rightarrow> LineageState \<Rightarrow> UtxoLineageRoot \<Rightarrow> nat" where
  "root_value m st root = bt_sum (\<lambda>p r. if r = root then amount_at m p else 0) (ls_lineage st)"

definition indexed_value :: "LineageState \<Rightarrow> UtxoLineageRoot \<Rightarrow> nat" where
  "indexed_value st root = (case bt_get (ls_values st) root of Some v \<Rightarrow> unat v | None \<Rightarrow> 0)"

definition owner_entry :: "lineage_owner_values \<Rightarrow> UtxoLineageRoot \<Rightarrow> string \<Rightarrow> OutPoint \<Rightarrow> Amount option" where
  "owner_entry los root owner p =
     Option.bind (bt_get los root) (\<lambda>owners. Option.bind (bt_get owners owner) (\<lambda>outs. bt_get outs p))"

definition lineage_inv_on :: "utxos \<Rightarrow> LineageState \<Rightarrow> bool" where
  "lineage_inv_on m st \<longleftrightarrow>
     (\<forall>p root. bt_get (ls_lineage st) p = Some root \<longrightarrow> bt_get m p \<noteq> None) \<and>
     (\<forall>root. indexed_value st root = root_value m st root) \<and>
     (\<forall>root owner p amt. owner_entry (ls_owners st) root owner p = Some amt \<longleftrightarrow>
        bt_get (ls_lineage st) p = Some root \<and>
        bt_get m p = Some \<lparr>out_address = owner, out_amount = amt\<rparr>)"

definition lineage_inv :: "LineageState \<Rightarrow> bool" where
  "lineage_inv st \<longleftrightarrow> lineage_inv_on (ls_utxos st) st"

lemma lineage_inv_on_utxos [simp]: "lineage_inv_on m (st\<lparr>ls_utxos := m'\<rparr>) = lineage_inv_on m st"
  by (simp add: lineage_inv_on_def indexed_value_def root_value_def)

lemma lineage_inv_on_cong:
  assumes "lineage_inv_on m st" and "\<And>p root. bt_get (ls_lineage st) p = Some root \<Longrightarrow> bt_get m' p = bt_get m p"
  shows "lineage_inv_on m' st"
proof -
  have "root_value m' st root = root_value m st root" for root
    unfolding root_value_def using assms(2) by (auto simp: amount_at_def intro!: bt_sum_cong)
  then show ?thesis using assms by (auto simp: lineage_inv_on_def)
qed

lemma lineage_inv_on_fresh: "lineage_inv_on m st \<Longrightarrow> bt_get m p = None \<Longrightarrow> bt_get (ls_lineage st) p = None"
  by (auto simp: lineage_inv_on_def)

lemma owner_entry_insert:
  "owner_entry (bt_insert root (bt_insert owner (bt_insert p amt (or_default (or_default los root) owner))
     (or_default los root)) los) root' owner' p' =
   (if root' = root \<and> owner' = owner \<and> p' = p then Some amt else owner_entry los root' owner' p')"
  by (auto simp: owner_entry_def or_default_def split: option.splits)

lemma index_output_inv:
  assumes ok: "index_output p o1 root st = Inr st'" and inv: "lineage_inv_on m st"
    and p: "bt_get m p = Some o1" and none: "bt_get (ls_lineage st) p = None"
  shows "lineage_inv_on m st'"
proof -
  obtain v' where v': "unat v' = indexed_value st root + unat (out_amount o1)"
    and st': "st' = st\<lparr>ls_lineage := bt_insert p root (ls_lineage st),
        ls_values := bt_insert root v' (ls_values st),
        ls_owners := bt_insert root (bt_insert (out_address o1)
          (bt_insert p (out_amount o1) (or_default (or_default (ls_owners st) root) (out_address o1)))
          (or_default (ls_owners st) root)) (ls_owners st)\<rparr>"
    using ok
    by (auto simp: index_output_def Let_def and_then_eq_Inr ok_or_eq_Inr checked_add_eq_Some
        indexed_value_def split: option.splits)
  have val_eq: "root_value m st' r = root_value m st r + (if r = root then unat (out_amount o1) else 0)" for r
    using none p by (simp add: root_value_def st' bt_sum_insert_None amount_at_def)
  have indexed: "indexed_value st' r = indexed_value st r + (if r = root then unat (out_amount o1) else 0)" for r
    using v' by (simp add: indexed_value_def st')
  have owners: "owner_entry (ls_owners st') r owner q = Some amt \<longleftrightarrow>
      bt_get (ls_lineage st') q = Some r \<and>
      bt_get m q = Some \<lparr>out_address = owner, out_amount = amt\<rparr>" for r owner q amt
    using inv none p by (cases o1) (auto simp: lineage_inv_on_def st' owner_entry_insert split: if_splits)
  show ?thesis
    unfolding lineage_inv_on_def using inv val_eq indexed owners p by (auto simp: lineage_inv_on_def st')
qed

lemma insert_output_inv:
  assumes "insert_output_with_lineage p o1 root st = Inr st'" and inv: "lineage_inv st"
  shows "lineage_inv st'"
proof -
  define m where "m = bt_insert p o1 (ls_utxos st)"
  have fresh: "bt_get (ls_utxos st) p = None" and utxos: "ls_utxos st' = m"
    using insert_output_utxos [OF assms(1)] by (auto simp: m_def)
  have none: "bt_get (ls_lineage st) p = None"
    using inv fresh lineage_inv_on_fresh by (simp add: lineage_inv_def)
  have "lineage_inv_on m st"
    using inv unfolding lineage_inv_def
    by (rule lineage_inv_on_cong) (use none in \<open>auto simp: m_def split: if_splits\<close>)
  then have inv': "lineage_inv_on m (st\<lparr>ls_utxos := m\<rparr>)" by simp
  have p: "bt_get m p = Some o1" by (simp add: m_def)
  have "lineage_inv_on m st'"
  proof (cases root)
    case (Some r)
    then have "index_output p o1 r (st\<lparr>ls_utxos := m\<rparr>) = Inr st'"
      using assms(1) by (auto simp: insert_output_with_lineage_def Let_def if_bail_eq_Inr m_def)
    then show ?thesis by (rule index_output_inv [OF _ inv' p]) (simp add: none)
  next
    case None
    then have "st' = st\<lparr>ls_utxos := m\<rparr>"
      using assms(1) by (auto simp: insert_output_with_lineage_def Let_def if_bail_eq_Inr m_def)
    then show ?thesis using inv' by simp
  qed
  then show ?thesis by (simp add: lineage_inv_def utxos)
qed

lemma insert_outputs_inv:
  assumes "insert_outputs_with_lineage es root st = Inr st'" and "lineage_inv st"
  shows "lineage_inv st'"
  using assms insert_output_inv
  unfolding insert_outputs_with_lineage_def by (rule_tac try_fold_invariant [of _ _ es]) blast+

text \<open>Removing an output from the index.\<close>

lemma subtract_value_eq_Inr:
  assumes "subtract_lineage_value vs root amt = Inr vs'"
  shows "(case bt_get vs' r of Some v \<Rightarrow> unat v | None \<Rightarrow> 0) + (if r = root then unat amt else 0) =
    (case bt_get vs r of Some v \<Rightarrow> unat v | None \<Rightarrow> 0)"
  using assms
  by (auto simp: subtract_lineage_value_def and_then_eq_Inr ok_or_eq_Inr checked_sub_eq_Some
      split: if_splits)

lemma subtract_owner_eq_Inr:
  assumes "subtract_lineage_owner_value los root owner p = Inr los'"
  shows "owner_entry los' root' owner' p' =
    (if root' = root \<and> owner' = owner \<and> p' = p then None else owner_entry los root' owner' p')"
proof -
  obtain owners outs amt where o: "bt_get los root = Some owners" "bt_get owners owner = Some outs"
      "bt_get outs p = Some amt"
    and los': "los' = (let outs' = bt_remove p outs;
       owners' = (if bt_is_empty outs' then bt_remove owner owners else bt_insert owner outs' owners) in
       if bt_is_empty owners' then bt_remove root los else bt_insert root owners' los)"
    using assms by (auto simp: subtract_lineage_owner_value_def and_then_eq_Inr ok_or_eq_Inr Let_def)
  define owners' where "owners' = (if bt_is_empty (bt_remove p outs) then bt_remove owner owners
    else bt_insert owner (bt_remove p outs) owners)"
  have outs': "(case bt_get owners' q of Some os \<Rightarrow> bt_get os p' | None \<Rightarrow> None) =
      (if q = owner \<and> p' = p then None
       else (case bt_get owners q of Some os \<Rightarrow> bt_get os p' | None \<Rightarrow> None))" for q
    using o(2) by (auto simp: owners'_def bt_is_empty_iff split: option.splits if_splits)
  have empty: "bt_is_empty owners' \<Longrightarrow> (case bt_get owners' q of Some os \<Rightarrow> bt_get os p' | None \<Rightarrow> None) = None" for q
    by (simp add: bt_is_empty_iff)
  have entry: "owner_entry l r q p' = (case bt_get l r of None \<Rightarrow> None
      | Some os \<Rightarrow> (case bt_get os q of Some us \<Rightarrow> bt_get us p' | None \<Rightarrow> None))" for l r q
    by (auto simp: owner_entry_def split: option.splits)
  show ?thesis
  proof (cases "bt_is_empty owners'")
    case True
    then have "los' = bt_remove root los" by (simp add: los' owners'_def Let_def)
    then show ?thesis using empty [OF True, of owner'] outs' [of owner'] o(1) by (auto simp: entry)
  next
    case False
    then have "los' = bt_insert root owners' los" by (simp add: los' owners'_def Let_def)
    then show ?thesis using outs' [of owner'] o(1) by (auto simp: entry)
  qed
qed

text \<open>The index after the removal still describes the same outputs.\<close>

lemma remove_spent_inv_on:
  assumes ok: "remove_spent_output_lineage p o1 st = Inr (root, st')"
    and inv: "lineage_inv_on m st" and p: "bt_get m p = Some o1"
  shows "lineage_inv_on m st' \<and> bt_get (ls_lineage st') = (bt_get (ls_lineage st))(p := None)"
proof (cases "bt_get (ls_lineage st) p")
  case None
  then have "st' = st" using ok by (simp add: remove_spent_output_lineage_def)
  then show ?thesis using inv None by (auto simp: fun_eq_iff)
next
  case (Some r0)
  then obtain vs los where vs: "subtract_lineage_value (ls_values st) r0 (out_amount o1) = Inr vs"
    and los: "subtract_lineage_owner_value (ls_owners st) r0 (out_address o1) p = Inr los"
    and st': "st' = st\<lparr>ls_lineage := bt_remove p (ls_lineage st), ls_values := vs, ls_owners := los\<rparr>"
    using ok by (auto simp: remove_spent_output_lineage_def and_then_eq_Inr)
  have val_eq: "root_value m st' r + (if r = r0 then unat (out_amount o1) else 0) = root_value m st r" for r
    using bt_sum_remove_Some [OF Some, of "\<lambda>q r'. if r' = r then amount_at m q else 0"] p
    by (simp add: root_value_def st' amount_at_def)
  have "indexed_value st' r + (if r = r0 then unat (out_amount o1) else 0) = indexed_value st r" for r
    using subtract_value_eq_Inr [OF vs, of r] by (simp add: indexed_value_def st')
  then have "indexed_value st' r = root_value m st' r" for r
    using val_eq [of r] inv by (metis add_right_cancel lineage_inv_on_def)
  then show ?thesis
    using inv p Some unfolding lineage_inv_on_def st' by (auto simp: subtract_owner_eq_Inr [OF los])
qed

lemma remove_spent_inv:
  assumes ok: "remove_spent_output_lineage p o1 (st\<lparr>ls_utxos := bt_remove p (ls_utxos st)\<rparr>) = Inr (root, st')"
    and inv: "lineage_inv st" and p: "bt_get (ls_utxos st) p = Some o1"
  shows "lineage_inv st'"
proof -
  have "lineage_inv_on (ls_utxos st) (st\<lparr>ls_utxos := bt_remove p (ls_utxos st)\<rparr>)"
    using inv by (simp add: lineage_inv_def)
  from remove_spent_inv_on [OF ok this p]
  have st': "lineage_inv_on (ls_utxos st) st'" "bt_get (ls_lineage st') p = None" by auto
  moreover have "ls_utxos st' = bt_remove p (ls_utxos st)" using remove_spent_utxos [OF ok] by simp
  ultimately show ?thesis
    unfolding lineage_inv_def by (auto intro!: lineage_inv_on_cong [OF st'(1)])
qed

lemma spend_lineage_loop_inv:
  "try_fold spend_lineage_step (seen, running, inh, st) ins = Inr (seen', running', inh', st') \<Longrightarrow>
     lineage_inv st \<Longrightarrow> lineage_inv st'"
proof (induction ins arbitrary: seen running inh st)
  case (Cons i ins)
  obtain s1 r1 h1 st1 where step: "spend_lineage_step (seen, running, inh, st) i = Inr (s1, r1, h1, st1)"
    and rest: "try_fold spend_lineage_step (s1, r1, h1, st1) ins = Inr (seen', running', inh', st')"
    using Cons.prems(1) by (auto simp: and_then_eq_Inr)
  obtain o1 root where "bt_get (ls_utxos st) (in_outpoint i) = Some o1"
    "remove_spent_output_lineage (in_outpoint i) o1
       (st\<lparr>ls_utxos := bt_remove (in_outpoint i) (ls_utxos st)\<rparr>) = Inr (root, st1)"
    using step by (auto simp: spend_lineage_step_def and_then_eq_Inr ok_or_eq_Inr if_bail_eq_Inr)
  then have "lineage_inv st1" using remove_spent_inv Cons.prems(2) by blast
  then show ?case using Cons.IH rest by blast
qed simp

lemma apply_with_lineage_inv:
  assumes "apply_spend_with_lineage tx h st = Inr st'" and "lineage_inv st"
  shows "lineage_inv st'"
proof (cases "is_mine tx")
  case True
  then show ?thesis
    using assms by (auto simp: apply_spend_with_lineage_def Let_def and_then_eq_Inr intro: insert_output_inv)
next
  case False
  then obtain seen input_total inh st1 where
    "try_fold spend_lineage_step ({}, 0, None, st) (inputs tx) = Inr (seen, input_total, inh, st1)"
    "insert_outputs_with_lineage (output_entries tx) inh st1 = Inr st'"
    using assms(1)
    by (auto simp: apply_spend_with_lineage_def spend_inputs_with_lineage_def and_then_eq_Inr if_bail_eq_Inr)
  then show ?thesis using spend_lineage_loop_inv insert_outputs_inv assms(2) by blast
qed

text \<open>
  Under the invariant an output with a positive amount can always be taken out of the index;
  only an output of amount zero can be stuck.
\<close>

lemma remove_spent_progress:
  assumes inv: "lineage_inv_on m st" and p: "bt_get m p = Some o1" and pos: "0 < out_amount o1"
  shows "\<exists>root st'. remove_spent_output_lineage p o1 st = Inr (root, st')"
proof (cases "bt_get (ls_lineage st) p")
  case (Some r)
  have "unat (out_amount o1) \<le> root_value m st r"
    unfolding root_value_def using bt_sum_ge [OF Some, of "\<lambda>q r'. if r' = r then amount_at m q else 0"] p
    by (simp add: amount_at_def)
  then have le: "unat (out_amount o1) \<le> indexed_value st r" using inv by (simp add: lineage_inv_on_def)
  moreover have "0 < unat (out_amount o1)" using pos by (simp add: word_gt_0 unat_gt_0)
  ultimately obtain v where v: "bt_get (ls_values st) r = Some v" "unat (out_amount o1) \<le> unat v"
    by (auto simp: indexed_value_def split: option.splits)
  have "o1 = \<lparr>out_address = out_address o1, out_amount = out_amount o1\<rparr>" by simp
  then have "owner_entry (ls_owners st) r (out_address o1) p = Some (out_amount o1)"
    using inv Some p unfolding lineage_inv_on_def by metis
  then obtain owners outs where "bt_get (ls_owners st) r = Some owners"
    "bt_get owners (out_address o1) = Some outs" "bt_get outs p = Some (out_amount o1)"
    by (auto simp: owner_entry_def bind_eq_Some_conv)
  then show ?thesis
    using Some v
    by (simp add: remove_spent_output_lineage_def subtract_lineage_value_def
        subtract_lineage_owner_value_def checked_sub_def word_le_nat_alt Let_def)
qed (simp add: remove_spent_output_lineage_def)

end
