(* ===== verification/Transaction_V2_Wire.thy ===== *)
theory Transaction_V2_Wire
  imports Transaction_V2
begin

text \<open>
  The wire format of hybrid transactions is canonical: decoding inverts encoding, and a byte
  string that decodes is the only encoding of what it decodes to. Every field is an instance
  of the codec interface; the format composes them.
\<close>

section \<open>Well-formed values\<close>

text \<open>The lengths that the fixed size arrays of the source have by type.\<close>

definition address_ok :: "VersionedAddress \<Rightarrow> bool" where
  "address_ok a \<longleftrightarrow> length (addr_payload a) = 32"

definition v2_input_ok :: "TransactionV2Input \<Rightarrow> bool" where
  "v2_input_ok i \<longleftrightarrow> length (v2in_txid i) = 32 \<and> address_ok (v2in_owner i)"

fun legacy_id_ok :: "LegacyTransactionId \<Rightarrow> bool" where
  "legacy_id_ok (LegacyHash h) \<longleftrightarrow> length h = 32"
| "legacy_id_ok (LegacySignature s) \<longleftrightarrow> length s = 64"

definition legacy_input_ok :: "TransactionV2LegacyInput \<Rightarrow> bool" where
  "legacy_input_ok i \<longleftrightarrow> legacy_id_ok (leg_id i) \<and> address_ok (leg_owner i)"

definition v2_output_ok :: "TransactionV2Output \<Rightarrow> bool" where
  "v2_output_ok o1 \<longleftrightarrow> address_ok (v2out_address o1)"

definition authorization_ok :: "V2SpendingAuthorization \<Rightarrow> bool" where
  "authorization_ok a \<longleftrightarrow>
     pk_scheme (auth_public_key a) = sig_scheme (auth_signature a) \<and>
     length (pk_bytes (auth_public_key a)) = scheme_public_key_bytes (auth_scheme a) \<and>
     length (sig_bytes (auth_signature a)) = scheme_signature_bytes (auth_scheme a)"

definition v2_domain_ok :: "TransactionV2Domain \<Rightarrow> bool" where
  "v2_domain_ok d \<longleftrightarrow>
     v2_chain_id d \<noteq> [] \<and> length (v2_chain_id d) \<le> MAX_CHAIN_ID_BYTES \<and>
     is_ascii (v2_chain_id d) \<and> length (v2_genesis_hash d) = 32"

fun unsigned_ok :: "UnsignedDecoded \<Rightarrow> bool" where
  "unsigned_ok (UDMigration ins outs f) \<longleftrightarrow>
     length ins \<le> MAX_V2_INPUTS \<and> (\<forall>i\<in>set ins. legacy_input_ok i) \<and>
     length outs \<le> MAX_V2_OUTPUTS \<and> (\<forall>o1\<in>set outs. v2_output_ok o1)"
| "unsigned_ok (UDTransfer ins outs f) \<longleftrightarrow>
     length ins \<le> MAX_V2_INPUTS \<and> (\<forall>i\<in>set ins. v2_input_ok i) \<and>
     length outs \<le> MAX_V2_OUTPUTS \<and> (\<forall>o1\<in>set outs. v2_output_ok o1)"
| "unsigned_ok (UDBurn ins change a f anchor) \<longleftrightarrow>
     length ins \<le> MAX_V2_INPUTS \<and> (\<forall>i\<in>set ins. v2_input_ok i) \<and>
     length change \<le> MAX_V2_OUTPUTS \<and> (\<forall>o1\<in>set change. v2_output_ok o1) \<and>
     (case anchor of None \<Rightarrow> True | Some b \<Rightarrow> length b = 32)"
| "unsigned_ok (UDMine recipient anchor salt nonce bits header hash) \<longleftrightarrow>
     address_ok recipient \<and> length anchor = 32 \<and>
     (case header of None \<Rightarrow> True | Some b \<Rightarrow> length b = STRATUM_PROOF_HEADER_BYTES) \<and>
     length hash = 32"

fun unsigned_part :: "TransactionV2 \<Rightarrow> UnsignedDecoded" where
  "unsigned_part (V2Migration ins outs f auths) = UDMigration ins outs f"
| "unsigned_part (V2Transfer ins outs f auths) = UDTransfer ins outs f"
| "unsigned_part (V2Burn ins change a f anchor auths) = UDBurn ins change a f anchor"
| "unsigned_part (V2Mine recipient anchor salt nonce bits header hash) =
     UDMine recipient anchor salt nonce bits header hash"

definition v2_wf :: "TransactionV2 \<Rightarrow> bool" where
  "v2_wf tx \<longleftrightarrow> unsigned_ok (unsigned_part tx) \<and> (\<forall>a\<in>set (authorizations tx). authorization_ok a)"

section \<open>Field codecs\<close>

lemma version_from_wire_id_iff: "version_from_wire_id i = Some v \<longleftrightarrow> i = version_wire_id v"
  by (cases v) (auto simp: version_from_wire_id_def)

lemma scheme_from_wire_id_iff: "scheme_from_wire_id i = Some s \<longleftrightarrow> i = scheme_wire_id s"
  by (cases s) (auto simp: scheme_from_wire_id_def)

lemmas reader_iffs =
  codec.decode_iff [OF codec_array] codec.decode_iff [OF codec_u16] codec.decode_iff [OF codec_u32]
  codec.decode_iff [OF codec_u64] codec.decode_iff [OF codec_take] reader_u8_eq_Inr

interpretation address_codec: codec v2_encode_address "v2_decode_address label" address_ok for label
proof (rule codec_iffI)
  fix bs a rest
  show "v2_decode_address label bs = Inr (a, rest) \<longleftrightarrow>
      address_ok a \<and> (\<exists>p. v2_encode_address a = Inr p \<and> bs = p @ rest)"
    by (cases a) (auto simp: v2_decode_address_def v2_encode_address_def address_ok_def
        and_then_eq_Inr reader_iffs ok_or_eq_Inr version_from_wire_id_iff)
qed (simp add: v2_encode_address_def)

interpretation v2_input_codec: codec v2_encode_input v2_decode_input v2_input_ok
proof (rule codec_iffI)
  fix bs i rest
  show "v2_decode_input bs = Inr (i, rest) \<longleftrightarrow>
      v2_input_ok i \<and> (\<exists>p. v2_encode_input i = Inr p \<and> bs = p @ rest)"
    by (cases i) (auto simp: v2_decode_input_def v2_encode_input_def v2_input_ok_def
        and_then_eq_Inr reader_iffs address_codec.decode_iff v2_encode_address_def)
qed (simp add: v2_encode_input_def v2_encode_address_def)

interpretation legacy_id_codec: codec encode_legacy_id decode_legacy_id legacy_id_ok
proof (rule codec_iffI)
  fix bs i rest
  show "decode_legacy_id bs = Inr (i, rest) \<longleftrightarrow>
      legacy_id_ok i \<and> (\<exists>p. encode_legacy_id i = Inr p \<and> bs = p @ rest)"
    by (cases bs; cases i)
      (auto simp: decode_legacy_id_def and_then_eq_Inr reader_iffs split: if_splits)
next
  fix i assume "legacy_id_ok i"
  then show "\<exists>bs. encode_legacy_id i = Inr bs" by (cases i) auto
qed

interpretation legacy_input_codec: codec encode_legacy_input decode_legacy_input legacy_input_ok
proof (rule codec_iffI)
  fix bs i rest
  show "decode_legacy_input bs = Inr (i, rest) \<longleftrightarrow>
      legacy_input_ok i \<and> (\<exists>p. encode_legacy_input i = Inr p \<and> bs = p @ rest)"
    by (cases i) (auto simp: decode_legacy_input_def encode_legacy_input_def legacy_input_ok_def
        and_then_eq_Inr reader_iffs legacy_id_codec.decode_iff address_codec.decode_iff
        v2_encode_address_def)
next
  fix i assume "legacy_input_ok i"
  then show "\<exists>bs. encode_legacy_input i = Inr bs"
    by (cases "leg_id i") (auto simp: encode_legacy_input_def v2_encode_address_def)
qed

interpretation v2_output_codec: codec v2_encode_output v2_decode_output v2_output_ok
proof (rule codec_iffI)
  fix bs i rest
  show "v2_decode_output bs = Inr (i, rest) \<longleftrightarrow>
      v2_output_ok i \<and> (\<exists>p. v2_encode_output i = Inr p \<and> bs = p @ rest)"
    by (cases i) (auto simp: v2_decode_output_def v2_encode_output_def v2_output_ok_def
        and_then_eq_Inr reader_iffs address_codec.decode_iff v2_encode_address_def)
qed (simp add: v2_encode_output_def v2_encode_address_def)

lemma list_maxima: "MAX_V2_INPUTS < 2 ^ 32" "MAX_V2_OUTPUTS < 2 ^ 32" "MAX_CHAIN_ID_BYTES < 2 ^ 32"
  by (simp_all add: MAX_V2_INPUTS_def MAX_V2_OUTPUTS_def MAX_CHAIN_ID_BYTES_def)

interpretation v2_inputs_codec: codec v2_encode_inputs v2_decode_inputs
  "\<lambda>xs. length xs \<le> MAX_V2_INPUTS \<and> (\<forall>x\<in>set xs. v2_input_ok x)"
  unfolding v2_encode_inputs_def v2_decode_inputs_def
  by (rule codec_list [OF v2_input_codec.codec_axioms list_maxima(1)])

interpretation legacy_inputs_codec: codec encode_legacy_inputs decode_legacy_inputs
  "\<lambda>xs. length xs \<le> MAX_V2_INPUTS \<and> (\<forall>x\<in>set xs. legacy_input_ok x)"
  unfolding encode_legacy_inputs_def decode_legacy_inputs_def
  by (rule codec_list [OF legacy_input_codec.codec_axioms list_maxima(1)])

interpretation v2_outputs_codec: codec v2_encode_outputs v2_decode_outputs
  "\<lambda>xs. length xs \<le> MAX_V2_OUTPUTS \<and> (\<forall>x\<in>set xs. v2_output_ok x)"
  unfolding v2_encode_outputs_def v2_decode_outputs_def
  by (rule codec_list [OF v2_output_codec.codec_axioms list_maxima(2)])

interpretation optional_array_codec: codec "encode_optional Inr"
  "reader_optional label (reader_array n label)"
  "\<lambda>v. case v of None \<Rightarrow> True | Some b \<Rightarrow> length b = n" for label n
  by (rule codec_optional [OF codec_array])

lemma scheme_lengths: "scheme_public_key_bytes s < 2 ^ 32" "scheme_signature_bytes s < 2 ^ 32"
  by (cases s; simp)+

lemma prefixed_exact_iff:
  assumes "n < 2 ^ 32"
  shows "reader_length_prefixed n label bs = Inr (v, rest) \<and> length v = n \<longleftrightarrow>
    length v = n \<and> (\<exists>p. encode_prefixed v label' = Inr p \<and> bs = p @ rest)"
  using codec.decode_iff [OF codec_prefixed [OF assms, of label' label]] by auto

interpretation authorization_codec: codec encode_authorization decode_authorization authorization_ok
proof (rule codec_iffI)
  fix a assume "authorization_ok a"
  then have "length (pk_bytes (auth_public_key a)) < 2 ^ 32" "length (sig_bytes (auth_signature a)) < 2 ^ 32"
    using scheme_lengths by (auto simp: authorization_ok_def)
  then show "\<exists>bs. encode_authorization a = Inr bs"
    by (simp add: encode_authorization_def encode_prefixed_def encode_count_def)
next
  fix bs a rest
  obtain pk sig where a: "a = \<lparr>auth_public_key = pk, auth_signature = sig\<rparr>" by (cases a)
  obtain s k where pk: "pk = \<lparr>pk_scheme = s, pk_bytes = k\<rparr>" by (cases pk)
  obtain s' g where sig: "sig = \<lparr>sig_scheme = s', sig_bytes = g\<rparr>" by (cases sig)
  have decode: "decode_authorization bs = Inr (a, rest) \<longleftrightarrow> s = s' \<and>
      (\<exists>r1 r2. bs = scheme_wire_id s # r1 \<and>
        (reader_length_prefixed (scheme_public_key_bytes s) ''authorization public key'' r1 = Inr (k, r2)
          \<and> length k = scheme_public_key_bytes s) \<and>
        (reader_length_prefixed (scheme_signature_bytes s) ''authorization signature'' r2 = Inr (g, rest)
          \<and> length g = scheme_signature_bytes s))"
    unfolding a pk sig
    by (auto simp: decode_authorization_def and_then_eq_Inr if_bail_eq_Inr reader_u8_eq_Inr
        ok_or_eq_Inr scheme_from_wire_id_iff public_key_new_def signature_new_def
        validate_material_length_def authorization_new_def)
  show "decode_authorization bs = Inr (a, rest) \<longleftrightarrow>
      authorization_ok a \<and> (\<exists>p. encode_authorization a = Inr p \<and> bs = p @ rest)"
    unfolding decode prefixed_exact_iff [OF scheme_lengths(1), where label' = "''authorization public key''"]
      prefixed_exact_iff [OF scheme_lengths(2), where label' = "''authorization signature''"]
    by (auto simp: a pk sig authorization_ok_def auth_scheme_def encode_authorization_def and_then_eq_Inr)
qed

section \<open>The unsigned body\<close>

definition encode_unsigned :: "UnsignedDecoded \<Rightarrow> bytes result" where
  "encode_unsigned u = and_then (with_authorizations u []) encode_unsigned_body"

lemma encode_unsigned_part [simp]: "encode_unsigned (unsigned_part tx) = encode_unsigned_body tx"
  by (cases tx) (simp_all add: encode_unsigned_def)

lemma encode_unsigned_simps:
  "encode_unsigned (UDMigration legs outs f) = encode_unsigned_body (V2Migration legs outs f [])"
  "encode_unsigned (UDTransfer ins outs f) = encode_unsigned_body (V2Transfer ins outs f [])"
  "encode_unsigned (UDBurn ins change a f anc) = encode_unsigned_body (V2Burn ins change a f anc [])"
  "encode_unsigned (UDMine recipient anchor salt nonce bits header hash) =
     encode_unsigned_body (V2Mine recipient anchor salt nonce bits header hash)"
  by (simp_all add: encode_unsigned_def)

lemmas body_iffs = and_then_eq_Inr reader_iffs v2_inputs_codec.decode_iff
  legacy_inputs_codec.decode_iff v2_outputs_codec.decode_iff optional_array_codec.decode_iff
  address_codec.decode_iff

lemma decode_transfer_body_iff:
  "decode_transfer_body r = Inr (u, rest) \<longleftrightarrow>
     unsigned_ok u \<and> (\<exists>p. encode_unsigned u = Inr (1 # p) \<and> r = p @ rest)"
  by (cases u) (auto simp: decode_transfer_body_def body_iffs encode_unsigned_simps)

lemma decode_migration_body_iff:
  "decode_migration_body r = Inr (u, rest) \<longleftrightarrow>
     unsigned_ok u \<and> (\<exists>p. encode_unsigned u = Inr (4 # p) \<and> r = p @ rest)"
  by (cases u) (auto simp: decode_migration_body_def body_iffs encode_unsigned_simps)

lemma decode_burn_body_iff:
  "decode_burn_body r = Inr (u, rest) \<longleftrightarrow>
     unsigned_ok u \<and> (\<exists>p. encode_unsigned u = Inr (2 # p) \<and> r = p @ rest)"
  by (cases u) (auto simp: decode_burn_body_def body_iffs encode_unsigned_simps)

lemma decode_mine_body_iff:
  "decode_mine_body r = Inr (u, rest) \<longleftrightarrow>
     unsigned_ok u \<and> (\<exists>p. encode_unsigned u = Inr (3 # p) \<and> r = p @ rest)"
  by (cases u) (auto simp: decode_mine_body_def body_iffs encode_unsigned_simps v2_encode_address_def)

lemma encode_unsigned_kind:
  "encode_unsigned u = Inr p \<Longrightarrow> \<exists>k q. p = k # q \<and> (k = 1 \<or> k = 2 \<or> k = 3 \<or> k = 4)"
  by (cases u) (auto simp: encode_unsigned_simps and_then_eq_Inr)

lemma encode_optional_total: "\<exists>p. encode_optional Inr v = Inr p"
  by (cases v) (simp_all add: encode_optional_def)

lemma encode_unsigned_total:
  assumes "unsigned_ok u"
  shows "\<exists>bs. encode_unsigned u = Inr bs"
proof (cases u)
  case (UDMigration ins outs f)
  then obtain i o1 where "encode_legacy_inputs ins = Inr i" "v2_encode_outputs outs = Inr o1"
    using assms legacy_inputs_codec.enc_total [of ins] v2_outputs_codec.enc_total [of outs] by auto
  then show ?thesis by (simp add: UDMigration encode_unsigned_simps)
next
  case (UDTransfer ins outs f)
  then obtain i o1 where "v2_encode_inputs ins = Inr i" "v2_encode_outputs outs = Inr o1"
    using assms v2_inputs_codec.enc_total [of ins] v2_outputs_codec.enc_total [of outs] by auto
  then show ?thesis by (simp add: UDTransfer encode_unsigned_simps)
next
  case (UDBurn ins change a f anchor)
  then obtain i o1 where "v2_encode_inputs ins = Inr i" "v2_encode_outputs change = Inr o1"
    using assms v2_inputs_codec.enc_total [of ins] v2_outputs_codec.enc_total [of change] by auto
  moreover obtain p where "encode_optional Inr anchor = Inr p" using encode_optional_total by blast
  ultimately show ?thesis by (simp add: UDBurn encode_unsigned_simps)
next
  case (UDMine recipient anchor salt nonce bits header hash)
  obtain p where "encode_optional Inr header = Inr p" using encode_optional_total by blast
  then show ?thesis by (simp add: UDMine encode_unsigned_simps v2_encode_address_def)
qed

interpretation body_codec: codec encode_unsigned decode_body unsigned_ok
proof (rule codec_iffI)
  fix u assume "unsigned_ok u"
  then show "\<exists>bs. encode_unsigned u = Inr bs" by (rule encode_unsigned_total)
next
  fix bs u rest
  have "decode_body bs = Inr (u, rest) \<longleftrightarrow>
      (\<exists>k r. bs = k # r \<and> (k = 1 \<or> k = 2 \<or> k = 3 \<or> k = 4) \<and> unsigned_ok u \<and>
        (\<exists>p. encode_unsigned u = Inr (k # p) \<and> r = p @ rest))"
    by (cases bs)
      (auto simp: decode_body_def decode_transfer_body_iff decode_burn_body_iff decode_mine_body_iff
        decode_migration_body_iff reader_u8_def reader_take_def split: if_splits)
  then show "decode_body bs = Inr (u, rest) \<longleftrightarrow>
      unsigned_ok u \<and> (\<exists>p. encode_unsigned u = Inr p \<and> bs = p @ rest)"
    using encode_unsigned_kind [of u] by fastforce
qed

section \<open>The domain prefix\<close>

lemma string_of_as_bytes [simp]: "string_of_bytes (as_bytes s) = s"
  by (induction s) (simp_all add: string_of_bytes_def as_bytes_def of_char_mod_256 flip: of_char_of)

lemma as_bytes_string_of [simp]: "as_bytes (string_of_bytes bs) = bs"
proof (induction bs)
  case (Cons b bs)
  have "unat b < 256" using unat_less_power [of b] by simp
  then have "word_of_nat (of_char (char_of (unat b) :: char)) = b" by simp
  with Cons show ?case by (simp add: string_of_bytes_def as_bytes_def)
qed (simp add: string_of_bytes_def as_bytes_def)

lemma length_string_of_bytes [simp]: "length (string_of_bytes bs) = length bs"
  by (simp add: string_of_bytes_def)

lemma string_of_bytes_Nil [simp]: "string_of_bytes bs = [] \<longleftrightarrow> bs = []"
  by (simp add: string_of_bytes_def)

lemma ascii_valid_utf8: "is_ascii s \<Longrightarrow> valid_utf8 (as_bytes s)"
proof (induction s)
  case (Cons c s)
  then have c: "(of_char c :: nat) < 128" and IH: "valid_utf8 (as_bytes s)"
    by (simp_all add: is_ascii_def)
  have "(word_of_nat (of_char c) :: u8) \<le> 0x7F"
    using c by (simp add: word_le_nat_alt unat_of_nat)
  then show ?case using IH by (simp add: as_bytes_def Let_def)
qed (simp add: as_bytes_def)

lemmas chain_id_iff = codec.decode_iff [OF codec_prefixed [OF list_maxima(3), of "''chain ID''"]]

interpretation prefix_codec: codec encode_prefix decode_prefix v2_domain_ok
proof (rule codec_iffI)
  fix d assume "v2_domain_ok d"
  then show "\<exists>bs. encode_prefix d = Inr bs"
    using list_maxima(3) by (simp add: encode_prefix_def encode_prefixed_def encode_count_def v2_domain_ok_def)
next
  fix bs d rest
  obtain cid gen where d: "d = \<lparr>v2_chain_id = cid, v2_genesis_hash = gen\<rparr>" by (cases d)
  show "decode_prefix bs = Inr (d, rest) \<longleftrightarrow>
      v2_domain_ok d \<and> (\<exists>p. encode_prefix d = Inr p \<and> bs = p @ rest)" (is "?L \<longleftrightarrow> ?R")
  proof
    assume ?L
    then show ?R
      by (auto simp: d decode_prefix_def and_then_eq_Inr if_bail_eq_Inr reader_iffs v2_domain_new_def
          chain_id_iff v2_domain_ok_def encode_prefix_def)
  next
    assume ?R
    then obtain c where c: "encode_prefixed (as_bytes cid) ''chain ID'' = Inr c"
      and bs: "bs = TRANSACTION_V2_TAG @ u16_to_be_bytes TRANSACTION_V2_WIRE_VERSION @ c @ gen @ rest"
      and ok: "v2_domain_ok d"
      by (auto simp: d encode_prefix_def and_then_eq_Inr)
    have "reader_length_prefixed MAX_CHAIN_ID_BYTES ''chain ID'' (c @ gen @ rest) = Inr (as_bytes cid, gen @ rest)"
      using c ok by (simp add: chain_id_iff d v2_domain_ok_def)
    moreover have "reader_array 32 ''genesis hash'' (gen @ rest) = Inr (gen, rest)"
      using ok by (simp add: reader_iffs d v2_domain_ok_def)
    ultimately show ?L
      using ok ascii_valid_utf8 [of cid]
      by (simp add: bs d v2_domain_ok_def decode_prefix_def reader_take_def v2_domain_new_def
          codec.dec_enc [OF codec_u16])
  qed
qed

section \<open>Whole transactions\<close>

interpretation authorizations_codec: codec
  "encode_list encode_authorization ''authorization count''"
  "reader_list MAX_V2_INPUTS ''authorization count'' decode_authorization"
  "\<lambda>xs. length xs \<le> MAX_V2_INPUTS \<and> (\<forall>x\<in>set xs. authorization_ok x)"
  by (rule codec_list [OF authorization_codec.codec_axioms list_maxima(1)])

lemma unique_list_length: "length (unique_list xs) \<le> length xs"
  by (induction xs rule: rev_induct) (auto simp: unique_list_def)

lemma all_input_owners_length: "length (all_input_owners tx) = v2_input_count tx"
  by (cases tx) auto

lemma shape_authorization_count:
  assumes "validate_shape tx = Inr u"
  shows "length (authorizations tx) \<le> MAX_V2_INPUTS"
proof -
  have "v2_input_count tx \<le> MAX_V2_INPUTS"
    using assms by (auto simp: validate_shape_def validate_unsigned_shape_def and_then_eq_Inr if_bail_eq_Inr)
  moreover have "length (input_owners tx) \<le> v2_input_count tx"
    using unique_list_length [of "all_input_owners tx"] by (simp add: input_owners_def all_input_owners_length)
  moreover have "v2_is_mine tx \<Longrightarrow> authorizations tx = []" by (cases tx) auto
  ultimately show ?thesis
    using assms by (auto simp: validate_shape_def and_then_eq_Inr split: if_splits)
qed

lemma with_authorizations_iff:
  "with_authorizations u auths = Inr tx \<longleftrightarrow> u = unsigned_part tx \<and> auths = authorizations tx"
  by (cases u; cases tx) auto

lemma v2_encode_eq_Inr:
  "v2_encode tx d = Inr bs \<longleftrightarrow> validate_shape tx = Inr () \<and>
     (\<exists>p b a. encode_prefix d = Inr p \<and> encode_unsigned_body tx = Inr b \<and>
        encode_list encode_authorization ''authorization count'' (authorizations tx) = Inr a \<and>
        bs = p @ b @ a)"
  by (auto simp: v2_encode_def v2_signing_bytes_def and_then_eq_Inr validate_shape_def)

lemma v2_decode_iff:
  "v2_decode bs = Inr (d, tx) \<longleftrightarrow> v2_domain_ok d \<and> v2_wf tx \<and> v2_encode tx d = Inr bs"
proof -
  have "v2_decode bs = Inr (d, tx) \<longleftrightarrow>
      validate_shape tx = Inr () \<and> v2_domain_ok d \<and> unsigned_ok (unsigned_part tx) \<and>
      (length (authorizations tx) \<le> MAX_V2_INPUTS \<and> (\<forall>x\<in>set (authorizations tx). authorization_ok x)) \<and>
      (\<exists>p b a. encode_prefix d = Inr p \<and> encode_unsigned_body tx = Inr b \<and>
        encode_list encode_authorization ''authorization count'' (authorizations tx) = Inr a \<and>
        bs = p @ b @ a)"
    by (auto simp: v2_decode_def and_then_eq_Inr prefix_codec.decode_iff body_codec.decode_iff
        authorizations_codec.decode_iff reader_finish_def with_authorizations_iff if_bail_eq_Inr)
  then show ?thesis
    using shape_authorization_count [of tx] by (auto simp: v2_encode_eq_Inr v2_wf_def)
qed

lemma v2_encode_total:
  assumes "v2_wf tx" and "v2_domain_ok d" and "validate_shape tx = Inr ()"
  shows "\<exists>bs. v2_encode tx d = Inr bs"
proof -
  obtain p where "encode_prefix d = Inr p" using prefix_codec.enc_total [OF assms(2)] by blast
  moreover obtain b where "encode_unsigned_body tx = Inr b"
    using body_codec.enc_total [of "unsigned_part tx"] assms(1) by (auto simp: v2_wf_def)
  moreover obtain a where "encode_list encode_authorization ''authorization count'' (authorizations tx) = Inr a"
    using authorizations_codec.enc_total [of "authorizations tx"] assms(1)
      shape_authorization_count [OF assms(3)] by (auto simp: v2_wf_def)
  ultimately show ?thesis using assms(3) by (simp add: v2_encode_eq_Inr)
qed

lemma v2_encode_inject:
  assumes "v2_encode tx d = Inr bs" and "v2_encode tx' d' = Inr bs"
    and "v2_wf tx" "v2_wf tx'" "v2_domain_ok d" "v2_domain_ok d'"
  shows "tx = tx' \<and> d = d'"
  using assms v2_decode_iff [of bs d tx] v2_decode_iff [of bs d' tx'] by auto

text \<open>The signed bytes determine everything but the authorizations.\<close>

lemma v2_signing_bytes_inject:
  assumes "v2_signing_bytes tx d = Inr bs" and "v2_signing_bytes tx' d' = Inr bs"
    and "v2_wf tx" "v2_wf tx'" "v2_domain_ok d" "v2_domain_ok d'"
  shows "unsigned_part tx = unsigned_part tx' \<and> d = d'"
proof -
  obtain p b where p: "encode_prefix d = Inr p" and b: "encode_unsigned (unsigned_part tx) = Inr b"
    and bs: "bs = p @ b" using assms(1) by (auto simp: v2_signing_bytes_def and_then_eq_Inr)
  obtain p' b' where p': "encode_prefix d' = Inr p'" and b': "encode_unsigned (unsigned_part tx') = Inr b'"
    and bs': "bs = p' @ b'" using assms(2) by (auto simp: v2_signing_bytes_def and_then_eq_Inr)
  have "decode_prefix bs = Inr (d, b)" "decode_prefix bs = Inr (d', b')"
    using prefix_codec.dec_enc [OF assms(5) p, of b] prefix_codec.dec_enc [OF assms(6) p', of b'] bs bs'
    by simp_all
  then have eq: "(d, b) = (d', b')" by (metis sum.inject(2))
  have "decode_body b = Inr (unsigned_part tx, [])" "decode_body b' = Inr (unsigned_part tx', [])"
    using body_codec.decode_all b b' assms(3,4) by (auto simp: v2_wf_def)
  then show ?thesis using eq by auto
qed

section \<open>Sizes\<close>

lemma encode_prefixed_length: "encode_prefixed v label = Inr p \<Longrightarrow> length p = 4 + length v"
  by (auto simp: encode_prefixed_def encode_count_def and_then_eq_Inr if_bail_eq_Inr)

lemma encode_authorization_length:
  assumes "encode_authorization a = Inr p" and "authorization_ok a"
  shows "length p = 1 + 4 + scheme_public_key_bytes (auth_scheme a) + 4 + scheme_signature_bytes (auth_scheme a)"
  using assms
  by (auto simp: encode_authorization_def and_then_eq_Inr authorization_ok_def dest!: encode_prefixed_length)

lemma concat_uniform_length:
  "list_all2 (\<lambda>x p. f x = Inr p) xs ps \<Longrightarrow> \<forall>x\<in>set xs. \<forall>p. f x = Inr p \<longrightarrow> length p = n \<Longrightarrow>
    length (concat ps) = n * length xs"
  by (induction xs ps rule: list_all2_induct) auto

lemma encoded_size_agrees:
  assumes "v2_encode tx d = Inr bs" and "v2_wf tx" and "\<forall>a\<in>set (authorizations tx). auth_scheme a = scheme"
  shows "length bs = (case v2_signing_bytes tx d of Inr u \<Rightarrow> length u | Inl _ \<Rightarrow> 0) + 4 +
    (1 + 4 + scheme_public_key_bytes scheme + 4 + scheme_signature_bytes scheme) * length (authorizations tx)"
proof -
  obtain u a where u: "v2_signing_bytes tx d = Inr u"
    and a: "encode_list encode_authorization ''authorization count'' (authorizations tx) = Inr a"
    and bs: "bs = u @ a"
    using assms(1) by (auto simp: v2_encode_def and_then_eq_Inr)
  obtain l ps where l: "encode_count (length (authorizations tx)) ''authorization count'' = Inr l"
    and ps: "try_map encode_authorization (authorizations tx) = Inr ps" and al: "a = l @ concat ps"
    using a by (auto simp: encode_list_def and_then_eq_Inr)
  have "length (concat ps) =
      (1 + 4 + scheme_public_key_bytes scheme + 4 + scheme_signature_bytes scheme) * length (authorizations tx)"
  proof (rule concat_uniform_length [where f = encode_authorization])
    show "\<forall>x\<in>set (authorizations tx). \<forall>p. encode_authorization x = Inr p \<longrightarrow>
        length p = 1 + 4 + scheme_public_key_bytes scheme + 4 + scheme_signature_bytes scheme"
      using encode_authorization_length assms(2,3) by (auto simp: v2_wf_def)
  qed (use ps in \<open>simp add: try_map_eq_Inr\<close>)
  moreover have "length l = 4" using l by (auto simp: encode_count_def if_bail_eq_Inr)
  ultimately show ?thesis using u bs al by simp
qed

end
