(* ===== verification/Transaction_V2_Auth.thy ===== *)
theory Transaction_V2_Auth
  imports Transaction_V2_Wire
begin

text \<open>
  Who may spend a hybrid input: under either authorization policy, and for every kind of
  transaction that has inputs, each input owner is covered by an authorization whose address
  is that owner, and the verified signatures are over the signing bytes of this transaction
  in this domain.
\<close>

section \<open>Unique owners\<close>

lemma unique_list_snoc:
  "unique_list (xs @ [x]) = (if x \<in> set (unique_list xs) then unique_list xs else unique_list xs @ [x])"
  by (simp add: unique_list_def)

lemma set_unique_list [simp]: "set (unique_list xs) = set xs"
  by (induction xs rule: rev_induct) (auto simp: unique_list_snoc, simp add: unique_list_def)

lemma distinct_unique_list [simp]: "distinct (unique_list xs)"
  by (induction xs rule: rev_induct) (auto simp: unique_list_snoc, simp add: unique_list_def)

section \<open>Per input authorizations\<close>

lemma owner_matches_eq_Inr:
  "owner_matches cr version scheme msg p = Inr u \<longleftrightarrow>
     addr_version (fst p) = version \<and> auth_scheme (snd p) = scheme \<and>
     authorized_address cr (snd p) = Inr (fst p)"
  by (auto simp: owner_matches_def and_then_eq_Inr if_bail_eq_Inr)

lemma per_input_covers:
  assumes "validate_per_input cr version scheme msg owners auths = Inr u" and "owner \<in> set owners"
  shows "\<exists>a\<in>set auths. authorized_address cr a = Inr owner \<and> auth_scheme a = scheme \<and>
    addr_version owner = version"
proof -
  have len: "length auths = length owners"
    and all: "\<forall>p\<in>set (zip owners auths). owner_matches cr version scheme msg p = Inr ()"
    using assms(1) by (auto simp: validate_per_input_def if_bail_eq_Inr try_all_eq_Inr)
  obtain i where i: "i < length owners" "owner = owners ! i"
    using assms(2) by (auto simp: in_set_conv_nth)
  then have "(owners ! i, auths ! i) \<in> set (zip owners auths)"
    using len by (auto simp: set_zip)
  with all i len show ?thesis by (fastforce simp: owner_matches_eq_Inr)
qed

lemma legacy_policy_covers:
  assumes "validate_legacy_authorization_commitments cr tx = Inr u" and "owner \<in> set (all_input_owners tx)"
  shows "\<exists>a\<in>set (authorizations tx). authorized_address cr a = Inr owner \<and>
    expected_authorization tx = Some (addr_version owner, auth_scheme a)"
proof -
  obtain v s msg where exp: "expected_authorization tx = Some (v, s)"
    and ok: "validate_per_input cr v s msg (all_input_owners tx) (authorizations tx) = Inr ()"
    using assms by (cases tx) simp_all
  from per_input_covers [OF ok assms(2)] exp show ?thesis by auto
qed

section \<open>Aggregated authorizations\<close>

text \<open>The loop collects distinct owners, one per authorization.\<close>

definition aggregate_step ::
  "crypto \<Rightarrow> TransactionV2 \<Rightarrow> AddressVersion \<Rightarrow> SignatureScheme \<Rightarrow> VersionedAddress list \<Rightarrow>
     V2SpendingAuthorization \<Rightarrow> VersionedAddress list result" where
  "aggregate_step cr tx version scheme authorized_owners auth =
     and_then (authorized_address cr auth) (\<lambda>owner.
       if addr_version owner \<noteq> version \<or> auth_scheme auth \<noteq> scheme
       then bail ''transaction v2 authorization does not match its input owner version''
       else if owner \<notin> set (input_owners tx)
       then bail ''transaction v2 authorization does not match any input owner''
       else if owner \<in> set authorized_owners
       then bail ''transaction v2 contains a duplicate authorization owner''
       else Inr (authorized_owners @ [owner]))"

lemma aggregate_step_eq_Inr:
  "aggregate_step cr tx version scheme acc a = Inr owners \<longleftrightarrow>
     (\<exists>owner. authorized_address cr a = Inr owner \<and> auth_scheme a = scheme \<and>
        addr_version owner = version \<and> owner \<in> set (input_owners tx) \<and> owner \<notin> set acc \<and>
        owners = acc @ [owner])"
  by (auto simp: aggregate_step_def and_then_eq_Inr if_bail_eq_Inr)

lemma aggregate_loop:
  assumes "try_fold (aggregate_step cr tx version scheme) acc auths = Inr owners"
    and "distinct acc" and "set acc \<subseteq> set (input_owners tx)"
  shows "distinct owners \<and> set owners \<subseteq> set (input_owners tx) \<and>
    length owners = length acc + length auths \<and>
    (\<forall>o1\<in>set owners - set acc. \<exists>a\<in>set auths. authorized_address cr a = Inr o1 \<and>
       auth_scheme a = scheme \<and> addr_version o1 = version)"
  using assms
proof (induction auths arbitrary: acc)
  case (Cons a auths)
  then obtain owner where owner: "authorized_address cr a = Inr owner" "auth_scheme a = scheme"
      "addr_version owner = version" "owner \<in> set (input_owners tx)" "owner \<notin> set acc"
    and rest: "try_fold (aggregate_step cr tx version scheme) (acc @ [owner]) auths = Inr owners"
    by (auto simp: aggregate_step_eq_Inr and_then_eq_Inr)
  have "distinct (acc @ [owner])" "set (acc @ [owner]) \<subseteq> set (input_owners tx)"
    using Cons.prems owner by auto
  from Cons.IH [OF rest this] show ?case using owner by auto
qed simp

lemma aggregated_policy_covers:
  assumes ok: "validate_aggregated_authorization_commitments cr tx = Inr u" and mine: "\<not> v2_is_mine tx"
    and owner: "owner \<in> set (all_input_owners tx)"
  shows "\<exists>a\<in>set (authorizations tx). authorized_address cr a = Inr owner \<and>
    expected_authorization tx = Some (addr_version owner, auth_scheme a)"
proof -
  obtain version scheme where exp: "expected_authorization tx = Some (version, scheme)"
    using mine by (cases tx) auto
  have len: "length (authorizations tx) = length (input_owners tx)"
    using ok by (simp add: validate_aggregated_authorization_commitments_def if_bail_eq_Inr)
  obtain owners where fold: "try_fold (aggregate_step cr tx version scheme) [] (authorizations tx) = Inr owners"
    using ok exp
    by (auto simp: validate_aggregated_authorization_commitments_def aggregate_step_def [abs_def]
        if_bail_eq_Inr and_then_eq_Inr)
  have facts: "distinct owners" "set owners \<subseteq> set (input_owners tx)"
      "length owners = length (input_owners tx)"
      "\<forall>o1\<in>set owners. \<exists>a\<in>set (authorizations tx). authorized_address cr a = Inr o1 \<and>
         auth_scheme a = scheme \<and> addr_version o1 = version"
    using aggregate_loop [OF fold] len by auto
  have "card (set owners) = card (set (input_owners tx))"
    using distinct_card [OF facts(1)] distinct_card [of "input_owners tx"] facts(3)
    by (simp add: input_owners_def)
  then have "set owners = set (input_owners tx)"
    using facts(2) by (simp add: card_subset_eq)
  then have "owner \<in> set owners" using owner by (simp add: input_owners_def)
  with facts(4) exp show ?thesis by fastforce
qed

lemma policy_covers:
  assumes "validate_authorization_policy_at_height cr tx height = Inr u" and "\<not> v2_is_mine tx"
    and "owner \<in> set (all_input_owners tx)"
  shows "\<exists>a\<in>set (authorizations tx). authorized_address cr a = Inr owner \<and>
    expected_authorization tx = Some (addr_version owner, auth_scheme a)"
  using assms legacy_policy_covers aggregated_policy_covers
  by (auto simp: validate_authorization_policy_at_height_def and_then_eq_Inr split: if_splits)

lemma commitments_cover:
  assumes "validate_authorization_commitments cr tx = Inr u" and "\<not> v2_is_mine tx"
    and "owner \<in> set (all_input_owners tx)"
  shows "\<exists>a\<in>set (authorizations tx). authorized_address cr a = Inr owner \<and>
    expected_authorization tx = Some (addr_version owner, auth_scheme a)"
  using assms legacy_policy_covers aggregated_policy_covers
  by (auto simp: validate_authorization_commitments_def and_then_eq_Inr is_ok_iff split: if_splits)

section \<open>Verified signatures\<close>

text \<open>
  What a verified authorization says: both components of a hybrid authorization check, over
  the same payload.
\<close>

definition signature_holds :: "crypto \<Rightarrow> bytes \<Rightarrow> V2SpendingAuthorization \<Rightarrow> bool" where
  "signature_holds cr payload a \<longleftrightarrow>
     (let key = pk_bytes (auth_public_key a); sig = sig_bytes (auth_signature a) in
      case auth_scheme a of
        Ed25519 \<Rightarrow> ed25519_verify cr key payload sig
      | HybridEd25519MlDsa44 \<Rightarrow>
          ed25519_verify cr (take 32 key) payload (take 64 sig) \<and>
          ml_dsa44_verify cr (drop 32 key) payload [] (drop 64 sig)
      | MlDsa44 \<Rightarrow> False)"

lemma verify_authorization_holds:
  "verify_authorization cr payload a = Inr u \<Longrightarrow> signature_holds cr payload a"
  by (auto simp: verify_authorization_def signature_holds_def Let_def verify_ed25519_eq_Inr
      and_then_eq_Inr if_bail_eq_Inr verify_ml_dsa44_def verify_ml_dsa44_with_context_def
      split: SignatureScheme.splits)

lemma verified_owner_signed:
  assumes "verify_authorizations cr tx d = Inr u" and "\<not> v2_is_mine tx"
    and "owner \<in> set (all_input_owners tx)"
  shows "\<exists>a\<in>set (authorizations tx). \<exists>payload. authorized_address cr a = Inr owner \<and>
    v2_signing_bytes tx d = Inr payload \<and> signature_holds cr payload a \<and>
    expected_authorization tx = Some (addr_version owner, auth_scheme a)"
proof -
  obtain payload where com: "validate_authorization_commitments cr tx = Inr ()"
    and payload: "v2_signing_bytes tx d = Inr payload"
    and all: "\<forall>a\<in>set (authorizations tx). verify_authorization cr payload a = Inr ()"
    using assms(1) by (auto simp: verify_authorizations_def and_then_eq_Inr try_all_eq_Inr)
  from commitments_cover [OF com assms(2,3)] all payload verify_authorization_holds
  show ?thesis by fast
qed

end
