(* ===== verification/Ticket_Facts.thy ===== *)
theory Ticket_Facts
  imports Ticket "HOL-Library.Multiset"
begin

text \<open>
  The lottery is fair and complete: the draw gives every ticket as many of the possible values
  as it has weight, the ranking is a permutation of the eligible tickets that carry weight, and
  a finalized block consumes the ticket that won.
\<close>

section \<open>Weights\<close>

definition weight_of :: "BurnTicket list \<Rightarrow> nat" where
  "weight_of ts = (\<Sum>t\<leftarrow>ts. unat (tk_amount t))"

lemma weight_of_simps [simp]:
  "weight_of [] = 0"
  "weight_of (t # ts) = unat (tk_amount t) + weight_of ts"
  "weight_of (ts @ us) = weight_of ts + weight_of us"
  by (simp_all add: weight_of_def)

lemma unat_amount_u128 [simp]: "unat (ucast (a :: u64) :: u128) = unat a"
proof -
  have "unat a < 2 ^ 128" using unat_less_power [of a] by simp
  then show ?thesis by (simp add: unsigned_ucast_eq take_bit_nat_eq_self)
qed

lemma checked_weight_eq_Some:
  "checked_weight acc ts = Some w \<longleftrightarrow> unat w = unat acc + weight_of ts"
proof (induction ts arbitrary: acc)
  case (Cons t ts)
  show ?case
  proof
    assume "checked_weight acc (t # ts) = Some w"
    then show "unat w = unat acc + weight_of (t # ts)"
      by (auto simp: bind_eq_Some_conv checked_add_eq_Some Cons.IH)
  next
    assume w: "unat w = unat acc + weight_of (t # ts)"
    then have "unat acc + unat (ucast (tk_amount t) :: u128) < 2 ^ LENGTH(128)"
      using unat_less_power [of w] by simp
    then obtain c where c: "checked_add acc (ucast (tk_amount t)) = Some c"
      by (auto simp: checked_add_def)
    then have "unat c = unat acc + unat (tk_amount t)" by (simp add: checked_add_eq_Some)
    with w c show "checked_weight acc (t # ts) = Some w" by (simp add: Cons.IH)
  qed
qed (auto simp: word_unat_eq_iff)

lemma checked_weight_total:
  assumes "weight_of ts < 2 ^ 128"
  shows "checked_weight 0 ts = Some (word_of_nat (weight_of ts))"
  using assms by (simp add: checked_weight_eq_Some unat_of_nat)

section \<open>The draw\<close>

lemma pick_index_iff:
  assumes "unat c + weight_of ts < 2 ^ 128" and "unat c \<le> unat draw"
  shows "pick_index draw c i ts = Some k \<longleftrightarrow>
    i \<le> k \<and> k - i < length ts \<and> unat c + weight_of (take (k - i) ts) \<le> unat draw \<and>
    unat draw < unat c + weight_of (take (Suc (k - i)) ts)"
  using assms
proof (induction ts arbitrary: c i)
  case (Cons t ts)
  define c' where "c' = c + ucast (tk_amount t)"
  have lt: "unat c + unat (ucast (tk_amount t) :: u128) < 2 ^ LENGTH(128)"
    using Cons.prems by simp
  have c': "checked_add c (ucast (tk_amount t)) = Some c'" "unat c' = unat c + unat (tk_amount t)"
    using lt by (simp_all add: checked_add_def c'_def unat_word_ariths)
  show ?case
  proof (cases "draw < c'")
    case True
    then have d: "unat draw < unat c + unat (tk_amount t)" using c'(2) by (simp add: word_less_nat_alt)
    have "\<not> unat c + weight_of (take (Suc m) (t # ts)) \<le> unat draw" for m using d by simp
    then show ?thesis
      using True c' d Cons.prems(2) by (cases "k - i") auto
  next
    case False
    then have d: "unat c' \<le> unat draw" by (simp add: word_less_nat_alt)
    have prem: "unat c' + weight_of ts < 2 ^ 128" using Cons.prems(1) c'(2) by simp
    have "pick_index draw c i (t # ts) = pick_index draw c' (i + 1) ts"
      using False c'(1) by simp
    also have "\<dots> = Some k \<longleftrightarrow> i + 1 \<le> k \<and> k - (i + 1) < length ts \<and>
        unat c' + weight_of (take (k - (i + 1)) ts) \<le> unat draw \<and>
        unat draw < unat c' + weight_of (take (Suc (k - (i + 1))) ts)"
      by (rule Cons.IH [OF prem d])
    also have "\<dots> \<longleftrightarrow> i \<le> k \<and> k - i < length (t # ts) \<and>
        unat c + weight_of (take (k - i) (t # ts)) \<le> unat draw \<and>
        unat draw < unat c + weight_of (take (Suc (k - i)) (t # ts))"
    proof (cases "k - i")
      case 0
      then show ?thesis using d c'(2) by auto
    next
      case (Suc m)
      then have "k - (i + 1) = m" by simp
      with Suc show ?thesis using c'(2) by auto
    qed
    finally show ?thesis .
  qed
qed simp

lemma weight_take_Suc: "k < length ts \<Longrightarrow> weight_of (take (Suc k) ts) = weight_of (take k ts) + unat (tk_amount (ts ! k))"
  by (simp add: take_Suc_conv_app_nth)

lemma weight_take_le: "weight_of (take k ts) \<le> weight_of ts"
  using weight_of_simps(3) [of "take k ts" "drop k ts"] by simp

text \<open>Every ticket wins for exactly as many draws as its weight.\<close>

lemma draw_fair:
  assumes "weight_of ts < 2 ^ 128" and "k < length ts"
  shows "card {n. n < weight_of ts \<and> pick_index (word_of_nat n) 0 0 ts = Some k} = unat (tk_amount (ts ! k))"
proof -
  have "{n. n < weight_of ts \<and> pick_index (word_of_nat n) 0 0 ts = Some k} =
      {weight_of (take k ts) ..< weight_of (take (Suc k) ts)}"
    using assms weight_take_le [of "Suc k" ts] by (auto simp: pick_index_iff unat_of_nat)
  then show ?thesis using assms(2) by (simp add: weight_take_Suc)
qed

text \<open>A draw below the total weight always selects a ticket, and one that has weight.\<close>

lemma draw_selects:
  assumes "weight_of ts < 2 ^ 128" and "unat draw < weight_of ts"
  shows "\<exists>k. pick_index draw 0 0 ts = Some k"
proof -
  have "\<exists>k<length ts. weight_of (take k ts) \<le> n \<and> n < weight_of (take (Suc k) ts)"
    if "n < weight_of ts" for n
    using that
  proof (induction ts rule: rev_induct)
    case (snoc t ts)
    show ?case
    proof (cases "n < weight_of ts")
      case True
      then obtain k where k: "k < length ts" "weight_of (take k ts) \<le> n" "n < weight_of (take (Suc k) ts)"
        using snoc.IH by blast
      then show ?thesis by (intro exI [of _ k]) simp
    next
      case False
      then show ?thesis using snoc.prems by (intro exI [of _ "length ts"]) simp
    qed
  qed simp
  from this [OF assms(2)] show ?thesis using assms(1) by (auto simp: pick_index_iff)
qed

lemma picked_has_weight:
  assumes "pick_index draw 0 0 ts = Some k" and "weight_of ts < 2 ^ 128"
  shows "k < length ts \<and> 0 < tk_amount (ts ! k)"
proof -
  have "k < length ts" "weight_of (take k ts) < weight_of (take (Suc k) ts)"
    using assms by (auto simp: pick_index_iff)
  then show ?thesis by (auto simp: weight_take_Suc word_gt_0)
qed

lemma select_index_None:
  assumes "weight_of ts < 2 ^ 128"
  shows "select_weighted_ticket_index cr r h rank ts = None \<longleftrightarrow> weight_of ts = 0"
proof -
  let ?w = "word_of_nat (weight_of ts) :: u128"
  have w: "unat ?w = weight_of ts" using assms by (simp add: unat_of_nat)
  show ?thesis
  proof (cases "weight_of ts = 0")
    case False
    have "unat (weighted_ticket_draw cr r h rank ?w) < weight_of ts"
      using False w by (simp add: weighted_ticket_draw_def Let_def unat_mod_distrib)
    then obtain k where "pick_index (weighted_ticket_draw cr r h rank ?w) 0 0 ts = Some k"
      using draw_selects [OF assms] by blast
    moreover have "?w \<noteq> 0" using False w by auto
    ultimately show ?thesis
      using False by (simp add: select_weighted_ticket_index_def checked_weight_total [OF assms])
  qed (simp add: select_weighted_ticket_index_def checked_weight_total [OF assms])
qed

lemma select_index_Some:
  assumes "weight_of ts < 2 ^ 128" and "select_weighted_ticket_index cr r h rank ts = Some k"
  shows "k < length ts \<and> 0 < tk_amount (ts ! k)"
proof -
  obtain draw where "pick_index draw 0 0 ts = Some k"
    using assms(2) by (auto simp: select_weighted_ticket_index_def bind_eq_Some_conv split: if_splits)
  then show ?thesis using picked_has_weight assms(1) by blast
qed

section \<open>The ranking\<close>

lemma mset_list_remove: "i < length xs \<Longrightarrow> mset xs = add_mset (xs ! i) (mset (list_remove i xs))"
proof -
  assume "i < length xs"
  from arg_cong [OF id_take_nth_drop [OF this], of mset]
  have "mset xs = mset (take i xs) + mset (xs ! i # drop (Suc i) xs)" by (simp only: mset_append)
  then show ?thesis
    by (simp only: list_remove_def mset_append mset.simps union_mset_add_mset_right)
qed

lemma weight_of_mset: "mset xs = mset ys \<Longrightarrow> weight_of xs = weight_of ys"
  unfolding weight_of_def by (simp only: sum_mset_sum_list [symmetric] mset_map)

lemma weight_list_remove:
  "i < length ts \<Longrightarrow> weight_of ts = unat (tk_amount (ts ! i)) + weight_of (list_remove i ts)"
  using weight_of_mset [of ts "ts ! i # list_remove i ts"] mset_list_remove [of i ts] by simp

lemma weight_of_eq_0: "weight_of ts = 0 \<longleftrightarrow> (\<forall>t\<in>set ts. tk_amount t = 0)"
  by (induction ts) (auto simp: unat_eq_0)

lemma rank_loop_permutation:
  "weight_of ts < 2 ^ 128 \<Longrightarrow> mset (rank_loop cr r h rank ts) = mset (filter (\<lambda>t. 0 < tk_amount t) ts)"
proof (induction cr r h rank ts rule: rank_loop.induct)
  case (1 cr r h rank ts)
  show ?case
  proof (cases "select_weighted_ticket_index cr r h rank ts")
    case None
    then have "\<forall>t\<in>set ts. tk_amount t = 0"
      using select_index_None "1.prems" by (simp add: weight_of_eq_0)
    then show ?thesis using None by (simp add: rank_loop.simps [of cr r h rank ts] filter_empty_conv)
  next
    case (Some i)
    then have i: "i < length ts" "0 < tk_amount (ts ! i)"
      using select_index_Some "1.prems" by blast+
    have "mset (rank_loop cr r h (rank + 1) (list_remove i ts)) =
        mset (filter (\<lambda>t. 0 < tk_amount t) (list_remove i ts))"
      using "1.IH" [OF Some] "1.prems" weight_list_remove [OF i(1)] by simp
    then show ?thesis
      using Some i mset_list_remove [OF i(1)]
      by (simp add: rank_loop.simps [of cr r h rank ts] mset_filter)
  qed
qed

lemma ranked_permutation:
  assumes "weight_of tickets < 2 ^ 128"
  shows "mset (ranked_tickets_for_parent_randomness cr r h tickets) =
    mset (filter (\<lambda>t. ticket_is_eligible_for_height t h \<and> 0 < tk_amount t) tickets)"
proof -
  have "weight_of (filter P tickets) \<le> weight_of tickets" for P
    by (induction tickets) auto
  then have "weight_of (filter (\<lambda>t. ticket_is_eligible_for_height t h) tickets) < 2 ^ 128"
    using assms le_less_trans by blast
  then show ?thesis
    by (simp add: ranked_tickets_for_parent_randomness_def rank_loop_permutation conj_commute)
qed

text \<open>A list of fewer than \<open>2 ^ 64\<close> tickets cannot overflow the 128 bit weight.\<close>

lemma weight_bound: "length ts < 2 ^ 64 \<Longrightarrow> weight_of ts < 2 ^ 128"
proof -
  assume len: "length ts < 2 ^ 64"
  have "weight_of ts \<le> length ts * (2 ^ 64 - 1)"
  proof (induction ts)
    case (Cons t ts)
    have "unat (tk_amount t) \<le> 2 ^ 64 - 1" using unat_less_power [of "tk_amount t"] by simp
    then show ?case using Cons by simp
  qed simp
  also have "\<dots> \<le> (2 ^ 64 - 1) * (2 ^ 64 - 1)" using len by (intro mult_right_mono) auto
  also have "\<dots> < (2 ^ 128 :: nat)" by simp
  finally show ?thesis .
qed

section \<open>Consumption\<close>

lemma position_Some: "position P xs = Some i \<Longrightarrow> i < length xs \<and> P (xs ! i)"
  by (induction xs arbitrary: i) (auto split: if_splits)

lemma rank_loop_subset: "set (rank_loop cr r h rank ts) \<subseteq> set ts"
proof (induction cr r h rank ts rule: rank_loop.induct)
  case (1 cr r h rank ts)
  have "set (list_remove i ts) \<subseteq> set ts" for i
    by (auto simp: list_remove_def dest: in_set_takeD in_set_dropD)
  then show ?case
    using 1 select_index_bound [of cr r h rank ts]
    by (force simp: rank_loop.simps [of cr r h rank ts] split: option.splits)
qed

lemma ranked_subset:
  "t \<in> set (ranked_tickets_for_height cr parent h ts) \<Longrightarrow> t \<in> set ts \<and> ticket_is_eligible_for_height t h"
  unfolding ranked_tickets_for_height_def ranked_tickets_for_parent_randomness_def
  using rank_loop_subset by fastforce

lemma winner_invalidated: "leader \<in> set (invalidated_ticket_ids cr parent b tickets leader)"
proof (cases "position (\<lambda>t. tk_id t = leader) (ranked_tickets_for_height cr parent (height b) tickets)")
  case None
  then show ?thesis by (simp add: invalidated_ticket_ids_def)
next
  case (Some i)
  define ranked where "ranked = ranked_tickets_for_height cr parent (height b) tickets"
  have i: "i < length ranked" "tk_id (ranked ! i) = leader"
    using position_Some [OF Some] by (auto simp: ranked_def)
  then have win: "ranked ! i \<in> set tickets" "ticket_is_eligible_for_height (ranked ! i) (height b)"
    using ranked_subset [of "ranked ! i" cr parent "height b" tickets] by (auto simp: ranked_def)
  have "ranked ! i \<in> set (take (i + 1) ranked)"
    using i(1) by (simp add: take_Suc_conv_app_nth)
  then have "tk_owner (ranked ! i) \<in> tk_owner ` set (take (i + 1) ranked)" by blast
  with win i(2) have "leader \<in> tk_id ` {t \<in> set tickets. ticket_is_eligible_for_height t (height b) \<and>
      tk_owner t \<in> tk_owner ` set (take (i + 1) ranked)}" by blast
  then show ?thesis
    using Some by (auto simp: invalidated_ticket_ids_def Let_def ranked_def [symmetric])
qed

lemma consumed_ticket_gone:
  assumes "consume_leader_ticket cr parent b tickets = Inr tickets'"
    and "leader_proof b = Some proof"
  shows "\<forall>t\<in>set tickets'. height b < tk_until t \<and> tk_id t \<noteq> lp_ticket_id proof"
    and "set tickets' \<subseteq> set tickets"
    and "\<exists>t\<in>set tickets. tk_id t = lp_ticket_id proof \<and> ticket_is_eligible_for_height t (height b)"
proof -
  show "\<exists>t\<in>set tickets. tk_id t = lp_ticket_id proof \<and> ticket_is_eligible_for_height t (height b)"
    using assms by (auto simp: consume_leader_ticket_def if_bail_eq_Inr list_ex_iff)
  have "tickets' = filter (\<lambda>t. tk_id t \<notin> set (invalidated_ticket_ids cr parent b tickets (lp_ticket_id proof)) \<and>
      height b < tk_until t) tickets"
    using assms by (auto simp: consume_leader_ticket_def Let_def if_bail_eq_Inr)
  then show "\<forall>t\<in>set tickets'. height b < tk_until t \<and> tk_id t \<noteq> lp_ticket_id proof"
    "set tickets' \<subseteq> set tickets"
    using winner_invalidated by auto
qed

end
