(* ===== verification/Examples.thy ===== *)
theory Examples
  imports Lineage_Facts Transaction_V2_Auth Ticket_Facts Wallet_Facts
begin

text \<open>
  Concrete inputs of the development's operations, and the evaluation of the operations on them.
  The root theory applies its properties to these inputs. The crypto parameter is the instance
  \<open>toy_crypto\<close>, whose public key is its seed and whose signature is the key followed by the
  first bytes of the payload. Identifiers that the operation at hand does not decode are short
  strings, so that every evaluation is done by the simplifier.
\<close>

section \<open>A legacy spend\<close>

definition ex_utxos :: utxos where
  "ex_utxos = bt_insert (OutPoint ''aa'' 0) \<lparr>out_address = ''bob'', out_amount = 9\<rparr> bt_empty"

definition ex_genesis_burn :: Transaction where
  "ex_genesis_burn = Burn
     [\<lparr>in_outpoint = OutPoint ''aa'' 0, in_owner = ''bob'', in_signature = ''genesis''\<rparr>]
     [\<lparr>out_address = ''bob'', out_amount = 4\<rparr>] 5 0 None ''s''"

definition ex_after_burn :: utxos where
  "ex_after_burn = bt_insert (OutPoint ''s'' 0) \<lparr>out_address = ''bob'', out_amount = 4\<rparr> bt_empty"

lemma ex_burn_applies:
  "apply_transaction toy_crypto ex_genesis_burn ex_utxos domain_legacy = Inr ex_after_burn"
  by code_simp

definition ex_root :: UtxoLineageRoot where
  "ex_root = UtxoLineageRoot (OutPoint ''aa'' 0) 3"

definition ex_lineage :: LineageState where
  "ex_lineage = \<lparr>ls_utxos = ex_utxos,
     ls_lineage = bt_insert (OutPoint ''aa'' 0) ex_root bt_empty,
     ls_values = bt_insert ex_root 9 bt_empty,
     ls_owners = bt_insert ex_root (bt_insert ''bob'' (bt_insert (OutPoint ''aa'' 0) 9 bt_empty) bt_empty) bt_empty\<rparr>"

definition ex_lineage_after :: LineageState where
  "ex_lineage_after = \<lparr>ls_utxos = ex_after_burn,
     ls_lineage = bt_insert (OutPoint ''s'' 0) ex_root bt_empty,
     ls_values = bt_insert ex_root 4 bt_empty,
     ls_owners = bt_insert ex_root (bt_insert ''bob'' (bt_insert (OutPoint ''s'' 0) 4 bt_empty) bt_empty) bt_empty\<rparr>"

lemma ex_lineage_applies:
  "apply_transaction_with_lineage toy_crypto ex_genesis_burn 7 ex_lineage (Some domain_legacy) =
     Inr ex_lineage_after"
  by code_simp

section \<open>A version 2 migration\<close>

definition ex_key :: bytes where
  "ex_key = replicate 32 7"

definition ex_domain :: TransactionV2Domain where
  "ex_domain = \<lparr>v2_chain_id = ''iuna'', v2_genesis_hash = replicate 32 1\<rparr>"

definition ex_auth :: V2SpendingAuthorization where
  "ex_auth = \<lparr>auth_public_key = \<lparr>pk_scheme = Ed25519, pk_bytes = ex_key\<rparr>,
     auth_signature = \<lparr>sig_scheme = Ed25519,
       sig_bytes = ex_key @ as_bytes ''IUNA-TX-V2'' @ [0, 2, 0, 0, 0, 4] @ as_bytes ''iuna'' @ replicate 12 1\<rparr>\<rparr>"

definition ex_owner :: VersionedAddress where
  "ex_owner = \<lparr>addr_version = Ed25519PublicKey, addr_payload = ex_key\<rparr>"

definition ex_migration :: TransactionV2 where
  "ex_migration = V2Migration
     [\<lparr>leg_id = LegacyHash (replicate 32 3), leg_index = 0, leg_owner = ex_owner\<rparr>]
     [\<lparr>v2out_address = \<lparr>addr_version = HybridKeyCommitment, addr_payload = replicate 32 9\<rparr>,
       v2out_amount = 5\<rparr>]
     1 [ex_auth]"

lemma ex_migration_verifies: "verify_authorizations toy_crypto ex_migration ex_domain = Inr ()"
  by code_simp

lemma ex_migration_owner: "ex_owner \<in> set (all_input_owners ex_migration)" "\<not> v2_is_mine ex_migration"
  by (simp_all add: ex_migration_def)

lemma ex_migration_wf: "v2_wf ex_migration" "v2_domain_ok ex_domain" "validate_shape ex_migration = Inr ()"
  by code_simp+

definition ex_migration_unsigned :: TransactionV2 where
  "ex_migration_unsigned = V2Migration
     [\<lparr>leg_id = LegacyHash (replicate 32 3), leg_index = 0, leg_owner = ex_owner\<rparr>]
     [\<lparr>v2out_address = \<lparr>addr_version = HybridKeyCommitment, addr_payload = replicate 32 9\<rparr>,
       v2out_amount = 5\<rparr>]
     1 []"

lemma is_okD: "is_ok r \<Longrightarrow> r = Inr (projr r)"
  by (cases r) (auto simp: is_ok_def)

lemma ex_migration_signing:
  "v2_signing_bytes ex_migration ex_domain = Inr (projr (v2_signing_bytes ex_migration_unsigned ex_domain))"
  "v2_signing_bytes ex_migration_unsigned ex_domain = Inr (projr (v2_signing_bytes ex_migration_unsigned ex_domain))"
  by code_simp+

lemma ex_migration_unsigned_wf: "v2_wf ex_migration_unsigned"
  by code_simp

definition ex_envelope :: bytes where
  "ex_envelope = projr (v2_encode ex_migration ex_domain)"

lemma ex_migration_encodes:
  "v2_encode ex_migration ex_domain = Inr ex_envelope" "length ex_envelope < 2 ^ 64"
  by code_simp+

section \<open>A signed legacy transfer\<close>

definition ex_wallet :: Wallet where
  "ex_wallet = from_seed toy_crypto ''seed''"

definition ex_unsigned :: UnsignedUtxoTransaction where
  "ex_unsigned = UTransfer
     [\<lparr>uin_outpoint = OutPoint (hex_encode (replicate 32 3)) 0, uin_owner = wallet_address ex_wallet\<rparr>]
     [\<lparr>out_address = hex_encode ex_key, out_amount = 4\<rparr>] 1"

definition ex_signing_domain :: TransactionSigningDomain where
  "ex_signing_domain = domain_new ''iuna'' (hex_encode (replicate 32 1))"

definition ex_signed :: "TransactionSigningDomain \<Rightarrow> Transaction" where
  "ex_signed d = projr (sign_transaction toy_crypto ex_unsigned ex_wallet d)"

lemma ex_unsigned_bytes:
  "unsigned_signing_bytes ex_unsigned ex_signing_domain =
     Inr (projr (unsigned_signing_bytes ex_unsigned ex_signing_domain))"
proof (rule is_okD)
  have key: "wallet_address ex_wallet = hex_encode (pad_to 32 (derive_signing_seed toy_crypto WALLET_SEED_DOMAIN ''seed''))"
    by (simp add: ex_wallet_def from_seed_def toy_crypto_def Let_def)
  show "is_ok (unsigned_signing_bytes ex_unsigned ex_signing_domain)"
    by (simp add: ex_unsigned_def ex_signing_domain_def key is_ok_def domain_new_def domain_encode_def
        encode_bytes_def encode_len_def encode_inputs_def encode_outputs_def encode_input_def
        encode_output_def PUBLIC_KEY_BYTES_def HASH_BYTES_def ex_key_def)
qed

lemma ex_signs:
  "sign_transaction toy_crypto ex_unsigned ex_wallet ex_signing_domain = Inr (ex_signed ex_signing_domain)"
  unfolding ex_signed_def
proof (rule is_okD)
  show "is_ok (sign_transaction toy_crypto ex_unsigned ex_wallet ex_signing_domain)"
    using ex_unsigned_bytes by (auto simp: sign_transaction_def is_ok_def and_then_def Let_def split: sum.splits)
qed

section \<open>Proof-of-work search\<close>

definition ex_work :: MineSearchWork where
  "ex_work = \<lparr>work_recipient = ''bob'', work_anchor = ''a'', work_salt = 1, work_start_nonce = 5,
     work_max_attempts = 3, work_difficulty_bits = 0, work_signing_domain = domain_legacy\<rparr>"

definition ex_search :: MineSearchOutcome where
  "ex_search = \<lparr>mso_transaction = Some (work_mine ex_work 5
       (hex_hash toy_crypto (mine_payload ''bob'' ''a'' 1 5 0))),
     mso_next_nonce = 6, mso_attempts = 1\<rparr>"

lemma ex_search_finds: "search toy_crypto ex_work = Inr ex_search"
  unfolding search_def
  by (subst search_loop.simps) (simp add: ex_work_def ex_search_def mine_signature_def
      domain_legacy_def work_mine_def hash_meets_difficulty_def Let_def saturating_add_def checked_add_def)

section \<open>Tickets\<close>

definition ex_ticket :: BurnTicket where
  "ex_ticket = \<lparr>tk_id = ''t'', tk_owner = ''bob'', tk_amount = 3, tk_from = 1, tk_until = 9\<rparr>"

definition ex_tickets :: "BurnTicket list" where
  "ex_tickets = [ex_ticket, ex_ticket\<lparr>tk_id := ''u'', tk_amount := 2\<rparr>]"

definition ex_parent :: Block where
  "ex_parent = \<lparr>height = 4, prev_hash = ''p'', timestamp_ms = 0, miner = ''bob'',
     reward_address = None, reward_address_signature = None, finalizer_mode = TicketMode,
     finalizer_rank = 0, reward = 0, vdf_rounds = 0, vdf_output = ''v'', leader_proof = None,
     burn_bundle_section = section_default, transactions = [], transactions_v2 = [], block_hash = ''h''\<rparr>"

definition ex_proof :: LeaderProof where
  "ex_proof = \<lparr>lp_ticket_id = ''t'', lp_public_key = ''k'', lp_signature = ''g''\<rparr>"

definition ex_child :: Block where
  "ex_child = ex_parent\<lparr>height := 5, leader_proof := Some ex_proof\<rparr>"

definition ex_consumed :: "BurnTicket list" where
  "ex_consumed = projr (consume_leader_ticket toy_crypto ex_parent ex_child ex_tickets)"

lemma ex_consumes: "consume_leader_ticket toy_crypto ex_parent ex_child ex_tickets = Inr ex_consumed"
  unfolding ex_consumed_def
  by (rule is_okD) (simp add: consume_leader_ticket_def ex_child_def ex_proof_def ex_tickets_def
      ex_ticket_def ticket_is_eligible_for_height_def is_ok_def Let_def)

section \<open>A committee section\<close>

definition ex_bundle_signature :: BurnBundleSignature where
  "ex_bundle_signature = \<lparr>bs_slot = 1, bs_member = ''bob'', bs_reward_address = None, bs_signature = ''g''\<rparr>"

definition ex_section :: BurnBundleSection where
  "ex_section = \<lparr>sec_signatures = [ex_bundle_signature],
     sec_burns = [\<lparr>mb_burn = ex_genesis_burn, mb_mask = 2\<rparr>], sec_burns_v2 = []\<rparr>"

definition ex_bundle :: BurnBundle where
  "ex_bundle = hd (section_expand ex_section 5 ''p'')"

end
