(* ===== verification/Fork.thy ===== *)
theory Fork
  imports Block
begin

text \<open>
  The data of fork choice: \<open>domain/fork.rs\<close>, the leader score of \<open>domain/block.rs\<close> and the two
  finality tests of \<open>domain/ledger_chain.rs\<close>.
\<close>

record ForkPoint =
  common_ancestor_height :: u64

record FinalityCheckpoint =
  cp_height :: u64
  cp_hash :: string

definition first_diverging_height :: "ForkPoint \<Rightarrow> u64" where
  "first_diverging_height p = common_ancestor_height p + 1"

datatype LeaderScore = LeaderScore (ls_mode_rank: u8) (ls_finalizer_rank: u32) (ls_proof_rank: string)

instantiation LeaderScore :: linorder
begin

definition less_eq_LeaderScore :: "LeaderScore \<Rightarrow> LeaderScore \<Rightarrow> bool" where
  "s \<le> t \<longleftrightarrow>
     ls_mode_rank s < ls_mode_rank t \<or> ls_mode_rank s = ls_mode_rank t \<and>
     (ls_finalizer_rank s < ls_finalizer_rank t \<or> ls_finalizer_rank s = ls_finalizer_rank t \<and>
      ls_proof_rank s \<le> ls_proof_rank t)"

definition less_LeaderScore :: "LeaderScore \<Rightarrow> LeaderScore \<Rightarrow> bool" where
  "(s :: LeaderScore) < t \<longleftrightarrow> s \<le> t \<and> \<not> t \<le> s"

instance
proof
  fix s t u :: LeaderScore
  show "s < t \<longleftrightarrow> s \<le> t \<and> \<not> t \<le> s" by (rule less_LeaderScore_def)
  show "s \<le> s" by (simp add: less_eq_LeaderScore_def)
  show "s \<le> t \<Longrightarrow> t \<le> u \<Longrightarrow> s \<le> u" by (auto simp: less_eq_LeaderScore_def)
  show "s \<le> t \<Longrightarrow> t \<le> s \<Longrightarrow> s = t"
    by (cases s; cases t) (auto simp: less_eq_LeaderScore_def)
  show "s \<le> t \<or> t \<le> s" by (auto simp: less_eq_LeaderScore_def)
qed

end

datatype ForkQuality = LocalBetter | RemoteBetter | EqualQuality

datatype ForkChoice = KeepLocal | SwitchToCandidate

text \<open>\<open>ForkQuality::from(local.cmp(remote))\<close>.\<close>

definition quality_of_scores :: "LeaderScore \<Rightarrow> LeaderScore \<Rightarrow> ForkQuality" where
  "quality_of_scores l r =
     (if l < r then LocalBetter else if l = r then EqualQuality else RemoteBetter)"

definition leader_score :: "crypto \<Rightarrow> Block \<Rightarrow> LeaderScore" where
  "leader_score cr b =
     LeaderScore (fork_choice_rank (finalizer_mode b)) (finalizer_rank b)
       (case leader_proof b of Some proof \<Rightarrow> leader_proof_rank cr proof | None \<Rightarrow> block_hash b)"

text \<open>The first position at which two forks differ decides.\<close>

fun compare_forks :: "crypto \<Rightarrow> Block list \<Rightarrow> Block list \<Rightarrow> ForkQuality" where
  "compare_forks cr (l # ls) (r # rs) =
     (if leader_score cr l = leader_score cr r then compare_forks cr ls rs
      else quality_of_scores (leader_score cr l) (leader_score cr r))"
| "compare_forks cr _ _ = EqualQuality"

definition objective_finality_quality ::
  "FinalityCheckpoint option \<Rightarrow> FinalityCheckpoint option \<Rightarrow> ForkQuality" where
  "objective_finality_quality local remote =
     (case (local, remote) of
        (None, None) \<Rightarrow> EqualQuality
      | (None, Some _) \<Rightarrow> RemoteBetter
      | (Some _, None) \<Rightarrow> LocalBetter
      | (Some l, Some r) \<Rightarrow>
          if cp_height l < cp_height r then RemoteBetter
          else if cp_height r < cp_height l then LocalBetter
          else if cp_hash l = cp_hash r then EqualQuality
          else if cp_hash r < cp_hash l then RemoteBetter else LocalBetter)"

definition fork_rewrites_finalized_history :: "u64 \<Rightarrow> u64 \<Rightarrow> bool" where
  "fork_rewrites_finalized_history local_height ancestor =
     (ancestor < saturating_sub local_height FORK_FINALITY_DEPTH)"

section \<open>Symmetry\<close>

fun flip :: "ForkQuality \<Rightarrow> ForkQuality" where
  "flip LocalBetter = RemoteBetter"
| "flip RemoteBetter = LocalBetter"
| "flip EqualQuality = EqualQuality"

lemma quality_of_scores_flip: "quality_of_scores r l = flip (quality_of_scores l r)"
  by (auto simp: quality_of_scores_def not_less)

lemma compare_forks_flip: "compare_forks cr rs ls = flip (compare_forks cr ls rs)"
proof (induction cr ls rs rule: compare_forks.induct)
  case (1 cr l ls r rs)
  then show ?case using quality_of_scores_flip [of "leader_score cr r" "leader_score cr l"] by simp
qed (auto simp: neq_Nil_conv)

lemma objective_finality_flip:
  "objective_finality_quality r l = flip (objective_finality_quality l r)"
  by (cases l; cases r) (auto simp: objective_finality_quality_def)

end
