(* ===== verification/Compact.thy ===== *)
theory Compact
  imports Ticket
begin

text \<open>
  The compact block encoding of \<open>adapters/chain_store/compact.rs\<close>: the tables of addresses and
  protocol identifiers that an encoder grows as it writes, the body of a block, and the context a
  ledger keeps to measure the consensus size of blocks. A writer is a function from the tables to
  the bytes it appends and the grown tables.
\<close>

definition COMPACT_SNAPSHOT_VERSION :: u8 where "COMPACT_SNAPSHOT_VERSION = 9"
definition TRANSACTION_V2_COMPACT_SNAPSHOT_VERSION :: u8 where "TRANSACTION_V2_COMPACT_SNAPSHOT_VERSION = 8"
definition HYBRID_REWARD_COMPACT_SNAPSHOT_VERSION :: u8 where "HYBRID_REWARD_COMPACT_SNAPSHOT_VERSION = 9"

definition VDF_SOLUTION_PREFIX :: string where
  "VDF_SOLUTION_PREFIX = ''classgroup-wesolowski-bqfc-v1:''"

record EncodeTables =
  et_addresses :: "(string, u64) btree_map"
  et_protocol_ids :: "(string, u64) btree_map"

definition tables_default :: EncodeTables where
  "tables_default = \<lparr>et_addresses = bt_empty, et_protocol_ids = bt_empty\<rparr>"

definition entry_or_insert :: "string \<Rightarrow> (string, u64) btree_map \<Rightarrow> (string, u64) btree_map" where
  "entry_or_insert v m =
     (if bt_contains_key m v then m else bt_insert v (word_of_nat (length (bt_entries m))) m)"

definition register_address :: "string \<Rightarrow> EncodeTables \<Rightarrow> EncodeTables" where
  "register_address v t = t\<lparr>et_addresses := entry_or_insert v (et_addresses t)\<rparr>"

definition register_protocol_id :: "string \<Rightarrow> EncodeTables \<Rightarrow> EncodeTables" where
  "register_protocol_id v t = t\<lparr>et_protocol_ids := entry_or_insert v (et_protocol_ids t)\<rparr>"

section \<open>Writers\<close>

type_synonym writer = "EncodeTables \<Rightarrow> (bytes \<times> EncodeTables) result"

definition write_bytes :: "bytes \<Rightarrow> writer" where
  "write_bytes bs t = Inr (bs, t)"

definition write_then :: "writer \<Rightarrow> writer \<Rightarrow> writer" where
  "write_then f g t =
     and_then (f t) (\<lambda>(a, t'). and_then (g t') (\<lambda>(b, t''). Inr (a @ b, t'')))"

definition write_all :: "writer list \<Rightarrow> writer" where
  "write_all fs = foldr write_then fs (write_bytes [])"

definition write_check :: "unit result \<Rightarrow> writer" where
  "write_check r t = and_then r (\<lambda>_. Inr ([], t))"

definition write_u8 :: "u8 \<Rightarrow> writer" where
  "write_u8 v = write_bytes [v]"

definition write_bool :: "bool \<Rightarrow> writer" where
  "write_bool b = write_u8 (if b then 1 else 0)"

function varint_bytes :: "u64 \<Rightarrow> bytes" where
  "varint_bytes v =
     (if 0x80 \<le> v then (ucast v OR 0x80) # varint_bytes (drop_bit 7 v) else [ucast v])"
  by pat_completeness auto
termination
proof (relation "measure unat")
  fix v :: u64
  assume "0x80 \<le> v"
  then have "128 \<le> unat v" by (simp add: word_le_nat_alt)
  then show "(drop_bit 7 v, v) \<in> measure unat"
    by (simp add: drop_bit_eq_div unat_div_distrib)
qed simp

declare varint_bytes.simps [simp del]

definition write_varint :: "u64 \<Rightarrow> writer" where
  "write_varint v = write_bytes (varint_bytes v)"

definition write_string :: "string \<Rightarrow> writer" where
  "write_string s = write_bytes (varint_bytes (word_of_nat (length s)) @ as_bytes s)"

definition write_hex :: "string \<Rightarrow> writer" where
  "write_hex s t =
     and_then (decode_hex s) (\<lambda>bs. Inr (varint_bytes (word_of_nat (length bs)) @ bs, t))"

definition write_fixed_hex :: "nat \<Rightarrow> string \<Rightarrow> string \<Rightarrow> writer" where
  "write_fixed_hex n s label t =
     and_then (with_context (''invalid '' @ label) (decode_hex s)) (\<lambda>bs.
     if length bs \<noteq> n
     then bail (''invalid '' @ label @ '': expected '' @ dec n @ '' bytes, got '' @ dec (length bs))
     else Inr (bs, t))"

definition write_address :: "string \<Rightarrow> writer" where
  "write_address s t =
     (case bt_get (et_addresses t) s of
        Some i \<Rightarrow> Inr (0 # varint_bytes i, t)
      | None \<Rightarrow>
          and_then (if is_ok (decode_hex s)
                    then write_all [write_u8 1, write_fixed_hex 32 s ''address''] t
                    else write_all [write_u8 2, write_string s] t) (\<lambda>(bs, t').
          Inr (bs, register_address s t')))"

definition write_protocol_id_ref :: "string \<Rightarrow> writer" where
  "write_protocol_id_ref s t =
     (case bt_get (et_protocol_ids t) s of
        Some i \<Rightarrow> Inr (0 # varint_bytes i, t)
      | None \<Rightarrow>
          and_then (with_context ''invalid protocol id'' (decode_hex s)) (\<lambda>bs.
          if length bs = 32 then Inr (1 # bs, register_protocol_id s t)
          else if length bs = 64 then Inr (2 # bs, register_protocol_id s t)
          else bail (''invalid protocol id: expected 32 or 64 bytes, got '' @ dec (length bs))))"

definition is_ascii_hexdigit :: "char \<Rightarrow> bool" where
  "is_ascii_hexdigit c \<longleftrightarrow> c \<in> set ''0123456789abcdefABCDEF''"

definition write_compact_vdf_output :: "string \<Rightarrow> writer" where
  "write_compact_vdf_output s =
     (if starts_with s VDF_SOLUTION_PREFIX
      then write_all [write_u8 2, write_hex (drop (length VDF_SOLUTION_PREFIX) s)]
      else if even (length s) \<and> s \<noteq> [] \<and> list_all is_ascii_hexdigit s
      then write_all [write_u8 1, write_hex s]
      else write_all [write_u8 0, write_string s])"

section \<open>Transactions\<close>

definition common_input_owner :: "TxInput list \<Rightarrow> string result" where
  "common_input_owner ins =
     (case ins of
        [] \<Rightarrow> bail ''stored transaction has no inputs''
      | i # _ \<Rightarrow>
          if list_ex (\<lambda>j. in_owner j \<noteq> in_owner i) ins
          then bail ''stored transaction inputs have different owners''
          else Inr (in_owner i))"

definition ensure_input_signatures :: "TxInput list \<Rightarrow> string \<Rightarrow> unit result" where
  "ensure_input_signatures ins sig =
     (if list_ex (\<lambda>i. in_signature i \<noteq> sig) ins
      then bail ''stored transaction input signature differs from transaction signature''
      else Inr ())"

definition write_outpoints :: "TxInput list \<Rightarrow> writer" where
  "write_outpoints ins =
     write_all (write_varint (word_of_nat (length ins)) #
       concat (map (\<lambda>i. [write_protocol_id_ref (op_txid (in_outpoint i)),
                          write_varint (ucast (op_index (in_outpoint i)))]) ins))"

definition write_outputs :: "TxOutput list \<Rightarrow> writer" where
  "write_outputs outs =
     write_all (write_varint (word_of_nat (length outs)) #
       concat (map (\<lambda>o1. [write_address (out_address o1), write_varint (out_amount o1)]) outs))"

definition write_optional :: "('a \<Rightarrow> writer) \<Rightarrow> 'a option \<Rightarrow> writer" where
  "write_optional f v = (case v of Some x \<Rightarrow> f x | None \<Rightarrow> write_bytes [])"

definition burn_change_mode :: "string \<Rightarrow> TxOutput list \<Rightarrow> u8" where
  "burn_change_mode owner change =
     (case change of
        [] \<Rightarrow> 0
      | [output] \<Rightarrow> (if out_address output = owner then 1 else 2)
      | _ \<Rightarrow> 2)"

fun write_transaction :: "Transaction \<Rightarrow> writer" where
  "write_transaction (Transfer ins outs f sig) t =
     and_then (common_input_owner ins) (\<lambda>owner.
     write_all [write_u8 0, write_outpoints ins, write_address owner, write_outputs outs,
       write_varint f, write_fixed_hex 64 sig ''transfer signature'',
       write_check (ensure_input_signatures ins sig)] t)"
| "write_transaction (Burn ins change a f anchor sig) t =
     and_then (common_input_owner ins) (\<lambda>owner.
     let genesis = list_all (\<lambda>i. in_signature i = ''genesis'') ins;
         mode = burn_change_mode owner change in
     write_all [write_u8 1,
       write_check (if genesis then Inr () else ensure_input_signatures ins sig),
       write_u8 (mode OR push_bit 2 (if genesis then 1 else 0) OR
                 push_bit 3 (if anchor \<noteq> None then 1 else 0)),
       write_outpoints ins, write_address owner,
       (if mode = 0 then write_bytes []
        else if mode = 1 then write_varint (out_amount (hd change))
        else write_outputs change),
       write_varint a, write_varint f, write_optional write_protocol_id_ref anchor,
       (if genesis then write_fixed_hex 32 sig ''genesis burn signature''
        else write_fixed_hex 64 sig ''burn signature'')] t)"
| "write_transaction (Mine recipient anchor salt nonce bits header sig) t =
     write_all [write_u8 2, write_address recipient, write_protocol_id_ref anchor,
       write_varint salt, write_varint nonce, write_varint (ucast bits),
       write_bool (header \<noteq> None),
       write_optional (\<lambda>h. write_fixed_hex 80 h ''mine proof header'') header,
       write_fixed_hex 32 sig ''mine signature''] t"

section \<open>Blocks\<close>

definition write_bundle_signature :: "u8 \<Rightarrow> BurnBundleSignature \<Rightarrow> writer" where
  "write_bundle_signature version s =
     write_all [write_varint (ucast (bs_slot s)), write_address (bs_member s),
       (if HYBRID_REWARD_COMPACT_SNAPSHOT_VERSION \<le> version
        then write_all [write_bool (bs_reward_address s \<noteq> None),
          write_optional write_address (bs_reward_address s)]
        else write_check (ensure (bs_reward_address s = None) (''compact snapshot version '' @
          dec (unat version) @ '' cannot encode a committee reward address''))),
       write_fixed_hex 64 (bs_signature s) ''burn bundle signature'']"

definition write_masked :: "nat option \<Rightarrow> string \<Rightarrow> u8 \<Rightarrow> writer" where
  "write_masked transaction_index missing bundle_mask t =
     and_then (ok_or missing transaction_index) (\<lambda>i.
     write_all [write_varint (word_of_nat i), write_u8 bundle_mask] t)"

definition write_burn_bundle_section :: "Block \<Rightarrow> u8 \<Rightarrow> writer" where
  "write_burn_bundle_section b version =
     (let s = burn_bundle_section b in
      write_all (
        [write_varint (word_of_nat (length (sec_signatures s)))] @
        map (write_bundle_signature version) (sec_signatures s) @
        [write_varint (word_of_nat (length (sec_burns s)))] @
        map (\<lambda>m. write_masked (position (\<lambda>tx. tx = mb_burn m) (transactions b))
          ''burn bundle transaction is missing from block transactions'' (mb_mask m)) (sec_burns s) @
        (if HYBRID_REWARD_COMPACT_SNAPSHOT_VERSION \<le> version
         then write_varint (word_of_nat (length (sec_burns_v2 s))) #
           map (\<lambda>m. write_masked (position (\<lambda>e. e = mb2_envelope m) (transactions_v2 b))
             ''transaction v2 burn bundle envelope is missing from block'' (mb2_mask m)) (sec_burns_v2 s)
         else [write_check (ensure (sec_burns_v2 s = []) (''compact snapshot version '' @
           dec (unat version) @ '' cannot encode transaction v2 burn attestations''))])))"

fun finalizer_mode_code :: "FinalizerMode \<Rightarrow> u8" where
  "finalizer_mode_code TicketMode = 0"
| "finalizer_mode_code RecoveryMode = 1"

definition write_block_header :: "Block \<Rightarrow> u8 \<Rightarrow> writer" where
  "write_block_header b version =
     write_all [write_varint (timestamp_ms b), write_address (miner b),
       (if HYBRID_REWARD_COMPACT_SNAPSHOT_VERSION \<le> version
        then write_all [write_bool (reward_address b \<noteq> None),
          write_optional write_address (reward_address b),
          write_bool (reward_address_signature b \<noteq> None),
          write_optional (\<lambda>s. write_fixed_hex 64 s ''reward address signature'') (reward_address_signature b)]
        else write_check (ensure (reward_address b = None \<and> reward_address_signature b = None)
          (''compact snapshot version '' @ dec (unat version) @ '' cannot encode a hybrid reward address''))),
       write_u8 (finalizer_mode_code (finalizer_mode b)),
       write_varint (ucast (finalizer_rank b)), write_varint (reward b), write_varint (vdf_rounds b),
       write_compact_vdf_output (vdf_output b),
       write_bool (leader_proof b \<noteq> None),
       write_optional (\<lambda>proof. write_all [write_protocol_id_ref (lp_ticket_id proof),
         write_address (lp_public_key proof),
         write_fixed_hex 64 (lp_signature proof) ''leader signature'']) (leader_proof b),
       write_varint (word_of_nat (length (transactions b)))]"

definition write_block_transaction :: "Transaction \<Rightarrow> writer" where
  "write_block_transaction tx t =
     and_then (write_transaction tx t) (\<lambda>(bs, t'). Inr (bs, register_protocol_id (tx_signature tx) t'))"

definition write_transactions_v2 :: "Block \<Rightarrow> u8 \<Rightarrow> writer" where
  "write_transactions_v2 b version =
     (if TRANSACTION_V2_COMPACT_SNAPSHOT_VERSION \<le> version
      then write_all (write_varint (word_of_nat (length (transactions_v2 b))) #
        map write_hex (transactions_v2 b))
      else write_check (ensure (transactions_v2 b = []) (''compact snapshot version '' @
        dec (unat version) @ '' cannot encode transaction v2 envelopes'')))"

record CompactBlockSizeBreakdown =
  total_bytes :: nat
  header_and_proof_bytes :: nat
  transaction_bytes :: nat
  transfer_bytes :: nat
  burn_bytes :: nat
  mine_bytes :: nat
  burn_bundle_bytes :: nat

fun is_transfer :: "Transaction \<Rightarrow> bool" where
  "is_transfer (Transfer _ _ _ _) = True"
| "is_transfer _ = False"

text \<open>The transactions one by one, keeping the bytes of each for the breakdown.\<close>

fun write_each :: "Transaction list \<Rightarrow> EncodeTables \<Rightarrow> (bytes list \<times> EncodeTables) result" where
  "write_each [] t = Inr ([], t)"
| "write_each (tx # txs) t =
     and_then (write_block_transaction tx t) (\<lambda>(bs, t').
     and_then (write_each txs t') (\<lambda>(bss, t''). Inr (bs # bss, t'')))"

definition kind_bytes :: "(Transaction \<Rightarrow> bool) \<Rightarrow> Transaction list \<Rightarrow> bytes list \<Rightarrow> nat" where
  "kind_bytes k txs items = (\<Sum>(tx, bs)\<leftarrow>zip txs items. if k tx then length bs else 0)"

definition encode_block_body_for_version ::
  "Block \<Rightarrow> u8 \<Rightarrow> EncodeTables \<Rightarrow> (bytes \<times> CompactBlockSizeBreakdown \<times> EncodeTables) result" where
  "encode_block_body_for_version b version t =
     and_then (write_block_header b version t) (\<lambda>(header, t1).
     and_then (write_each (transactions b) t1) (\<lambda>(items, t2).
     and_then (write_transactions_v2 b version t2) (\<lambda>(envelopes, t3).
     and_then (write_burn_bundle_section b version t3) (\<lambda>(section, t4).
     let txs = concat items in
     Inr (header @ txs @ envelopes @ section,
          \<lparr>total_bytes = length header + length txs + length envelopes + length section,
           header_and_proof_bytes = length header,
           transaction_bytes = length txs + length envelopes,
           transfer_bytes = kind_bytes is_transfer (transactions b) items,
           burn_bytes = kind_bytes is_burn (transactions b) items,
           mine_bytes = kind_bytes is_mine (transactions b) items,
           burn_bundle_bytes = length section\<rparr>, t4)))))"

section \<open>The context of a ledger\<close>

record CompactBlockContext =
  ctx_tables :: EncodeTables
  ctx_breakdowns :: "(string, CompactBlockSizeBreakdown) btree_map"

definition context_default :: CompactBlockContext where
  "context_default = \<lparr>ctx_tables = tables_default, ctx_breakdowns = bt_empty\<rparr>"

definition block_size_version :: "Block \<Rightarrow> u8" where
  "block_size_version b =
     (if reward_address b \<noteq> None \<or> reward_address_signature b \<noteq> None \<or>
         sec_burns_v2 (burn_bundle_section b) \<noteq> [] \<or>
         list_ex (\<lambda>s. bs_reward_address s \<noteq> None) (sec_signatures (burn_bundle_section b))
      then HYBRID_REWARD_COMPACT_SNAPSHOT_VERSION
      else if transactions_v2 b = [] then TRANSACTION_V2_COMPACT_SNAPSHOT_VERSION - 1
      else TRANSACTION_V2_COMPACT_SNAPSHOT_VERSION)"

definition block_size_breakdown :: "CompactBlockContext \<Rightarrow> Block \<Rightarrow> CompactBlockSizeBreakdown result" where
  "block_size_breakdown ctx b =
     and_then (encode_block_body_for_version b (block_size_version b) (ctx_tables ctx))
       (\<lambda>(_, breakdown, _). Inr breakdown)"

definition block_size_bytes :: "CompactBlockContext \<Rightarrow> Block \<Rightarrow> nat result" where
  "block_size_bytes ctx b = and_then (block_size_breakdown ctx b) (\<lambda>d. Inr (total_bytes d))"

definition append_block :: "Block \<Rightarrow> CompactBlockContext \<Rightarrow> CompactBlockContext result" where
  "append_block b ctx =
     and_then (encode_block_body_for_version b COMPACT_SNAPSHOT_VERSION (ctx_tables ctx))
       (\<lambda>(_, breakdown, t).
     Inr \<lparr>ctx_tables = register_protocol_id (block_hash b) t,
          ctx_breakdowns = bt_insert (block_hash b) breakdown (ctx_breakdowns ctx)\<rparr>)"

definition context_for_chain :: "(string, Amount) btree_map \<Rightarrow> Block list \<Rightarrow> CompactBlockContext result" where
  "context_for_chain genesis_allocations blocks =
     try_fold (\<lambda>ctx b. append_block b ctx)
       (context_default\<lparr>ctx_tables := fold register_address (bt_keys genesis_allocations) tables_default\<rparr>)
       blocks"

section \<open>Size limits of a transaction\<close>

definition vdf_solution_placeholder :: string where
  "vdf_solution_placeholder = VDF_SOLUTION_PREFIX @ replicate 400 CHR ''f''"

definition selection_block ::
  "Transaction list \<Rightarrow> string list \<Rightarrow> FinalizerMode \<Rightarrow> BurnBundleSection \<Rightarrow> Block" where
  "selection_block txs envelopes mode section =
     \<lparr>height = - 1, prev_hash = replicate 64 CHR ''f'', timestamp_ms = - 1,
      miner = replicate 64 CHR ''f'', reward_address = None, reward_address_signature = None,
      finalizer_mode = mode, finalizer_rank = 0, reward = - 1, vdf_rounds = - 1,
      vdf_output = vdf_solution_placeholder,
      leader_proof = (if mode = TicketMode
        then Some \<lparr>lp_ticket_id = replicate 64 CHR ''f'', lp_public_key = replicate 64 CHR ''f'',
                   lp_signature = replicate 128 CHR ''f''\<rparr> else None),
      burn_bundle_section = section, transactions = txs, transactions_v2 = envelopes,
      block_hash = replicate 64 CHR ''f''\<rparr>"

definition estimated_block_selection_size_bytes ::
  "CompactBlockContext \<Rightarrow> Transaction list \<Rightarrow> string list \<Rightarrow> FinalizerMode \<Rightarrow> BurnBundleSection \<Rightarrow> nat result" where
  "estimated_block_selection_size_bytes ctx txs envelopes mode section =
     block_size_bytes ctx (selection_block txs envelopes mode section)"

definition ensure_transaction_fits_empty_block :: "CompactBlockContext \<Rightarrow> Transaction \<Rightarrow> nat \<Rightarrow> unit result" where
  "ensure_transaction_fits_empty_block ctx tx max_bytes =
     and_then (estimated_block_selection_size_bytes ctx [tx] [] TicketMode section_default) (\<lambda>n.
     if max_bytes < n then bail ''transaction exceeds max block size'' else Inr ())"

definition ensure_transaction_v2_fits_empty_block :: "CompactBlockContext \<Rightarrow> string \<Rightarrow> nat \<Rightarrow> unit result" where
  "ensure_transaction_v2_fits_empty_block ctx envelope max_bytes =
     and_then (estimated_block_selection_size_bytes ctx [] [envelope] TicketMode section_default) (\<lambda>n.
     if max_bytes < n then bail ''transaction v2 exceeds max block size'' else Inr ())"

end
