(* ===== verification/Vdf.thy ===== *)
theory Vdf
  imports Compact
begin

text \<open>
  The delay function seen from the ledger, from \<open>domain/vdf/mod.rs\<close> and
  \<open>domain/vdf/wesolowski.rs\<close>: the solution format, the verification of a solution through the
  class group crate (a parameter, the record \<open>classgroup\<close>), and the retargeting of the number of
  rounds from observed block times.
\<close>

section \<open>Verification\<close>

text \<open>
  The functions of the \<open>kyn_vdf\<close> crate the code calls. A discriminant is an integer, a form its
  three coefficients; a failing call is \<open>None\<close>.
\<close>

record classgroup =
  cg_create_discriminant :: "bytes \<Rightarrow> nat \<Rightarrow> int option"
  cg_generator :: "int \<Rightarrow> (int \<times> int \<times> int) option"
  cg_deserialize_form :: "int \<Rightarrow> bytes \<Rightarrow> (int \<times> int \<times> int) option"
  cg_serialize_form :: "int \<times> int \<times> int \<Rightarrow> nat \<Rightarrow> bytes option"
  cg_verify_wesolowski ::
    "int \<Rightarrow> int \<times> int \<times> int \<Rightarrow> int \<times> int \<times> int \<Rightarrow> int \<times> int \<times> int \<Rightarrow> u64 \<Rightarrow> bool option"

definition DISCRIMINANT_BITS :: nat where "DISCRIMINANT_BITS = 1024"
definition FORM_BYTES :: nat where "FORM_BYTES = 100"
definition SOLUTION_BYTES :: nat where "SOLUTION_BYTES = FORM_BYTES * 2"

definition canonical_form :: "classgroup \<Rightarrow> int \<Rightarrow> bytes \<Rightarrow> (int \<times> int \<times> int) option" where
  "canonical_form cg discriminant bs =
     Option.bind (cg_deserialize_form cg discriminant bs) (\<lambda>form.
     Option.bind (cg_serialize_form cg form DISCRIMINANT_BITS) (\<lambda>again.
     if again = bs then Some form else None))"

definition wesolowski_verify :: "classgroup \<Rightarrow> bytes \<Rightarrow> u64 \<Rightarrow> bytes \<Rightarrow> bool" where
  "wesolowski_verify cg seed rounds solution =
     (if rounds = 0 \<or> length solution \<noteq> SOLUTION_BYTES then False
      else case cg_create_discriminant cg seed DISCRIMINANT_BITS of
        None \<Rightarrow> False
      | Some discriminant \<Rightarrow>
          (case cg_generator cg discriminant of
             None \<Rightarrow> False
           | Some generator \<Rightarrow>
               (case (canonical_form cg discriminant (take FORM_BYTES solution),
                      canonical_form cg discriminant (drop FORM_BYTES solution)) of
                  (Some output, Some proof) \<Rightarrow>
                    (case cg_verify_wesolowski cg discriminant generator output proof rounds of
                       Some r \<Rightarrow> r | None \<Rightarrow> False)
                | _ \<Rightarrow> False)))"

definition encode_vdf_solution :: "bytes \<Rightarrow> string" where
  "encode_vdf_solution solution = VDF_SOLUTION_PREFIX @ hex_encode solution"

definition decode_vdf_solution :: "string \<Rightarrow> bytes option" where
  "decode_vdf_solution solution =
     (if starts_with solution VDF_SOLUTION_PREFIX
      then Option.bind (ok (decode_hex (drop (length VDF_SOLUTION_PREFIX) solution))) (\<lambda>bs.
        if length bs = SOLUTION_BYTES then Some bs else None)
      else None)"

definition verify_vdf :: "classgroup \<Rightarrow> string \<Rightarrow> u64 \<Rightarrow> string \<Rightarrow> bool" where
  "verify_vdf cg seed rounds solution =
     (case decode_vdf_solution solution of
        None \<Rightarrow> False
      | Some bs \<Rightarrow> wesolowski_verify cg (as_bytes seed) rounds bs)"

section \<open>Retargeting\<close>

definition MIN_VDF_ROUNDS :: u64 where "MIN_VDF_ROUNDS = 1"
definition VDF_RETARGET_WINDOW_BLOCKS :: nat where "VDF_RETARGET_WINDOW_BLOCKS = 20"
definition MAX_VDF_RETARGET_STEP_PERCENT :: u128 where "MAX_VDF_RETARGET_STEP_PERCENT = 2"
definition VDF_RETARGET_DEADBAND_PERCENT :: u128 where "VDF_RETARGET_DEADBAND_PERCENT = 10"
definition MIN_VDF_RETARGET_OBSERVED_BLOCK_MS :: u64 where
  "MIN_VDF_RETARGET_OBSERVED_BLOCK_MS = VDF_TARGET_BLOCK_MS div 4"
definition MAX_VDF_RETARGET_OBSERVED_BLOCK_MS :: u64 where
  "MAX_VDF_RETARGET_OBSERVED_BLOCK_MS = VDF_TARGET_BLOCK_MS * 4"

text \<open>\<open>Ord::clamp\<close> panics when its bounds are crossed.\<close>

definition clamp :: "'a::linorder \<Rightarrow> 'a \<Rightarrow> 'a \<Rightarrow> 'a result" where
  "clamp x lo hi =
     (if hi < lo then panic ''clamp bounds are crossed''
      else Inr (if x < lo then lo else if hi < x then hi else x))"

definition retarget_vdf_rounds :: "u64 \<Rightarrow> u64 \<Rightarrow> u64 result" where
  "retarget_vdf_rounds current_rounds observed_block_ms =
     (let current = ucast current_rounds :: u128;
          observed = ucast (max observed_block_ms 1) :: u128;
          tgt = ucast VDF_TARGET_BLOCK_MS :: u128;
          deadband = tgt * VDF_RETARGET_DEADBAND_PERCENT div 100 in
      if saturating_sub tgt deadband \<le> observed \<and> observed \<le> saturating_add tgt deadband
      then Inr current_rounds
      else
        (let raw_adjusted = current * tgt div observed;
             max_step = max (current * MAX_VDF_RETARGET_STEP_PERCENT div 100) 1;
             min_next = max (saturating_sub current max_step) (ucast MIN_VDF_ROUNDS);
             max_next = min (saturating_add current max_step) (ucast MAX_VDF_ROUNDS) in
         and_then (clamp raw_adjusted min_next max_next) (\<lambda>r. Inr (ucast r))))"

definition clamped_vdf_retarget_observed_block_ms :: "u64 \<Rightarrow> u64 result" where
  "clamped_vdf_retarget_observed_block_ms observed =
     clamp observed MIN_VDF_RETARGET_OBSERVED_BLOCK_MS MAX_VDF_RETARGET_OBSERVED_BLOCK_MS"

definition vdf_retarget_observed_block_ms :: "Block \<Rightarrow> Block \<Rightarrow> u64 option result" where
  "vdf_retarget_observed_block_ms parent child =
     (if finalizer_mode child \<noteq> TicketMode then Inr None
      else if finalizer_rank child \<noteq> 0 then Inr None
      else and_then (clamped_vdf_retarget_observed_block_ms (timestamp_ms child - timestamp_ms parent))
        (\<lambda>v. Inr (Some v)))"

definition average_vdf_retarget_observation :: "u64 list \<Rightarrow> u64 option" where
  "average_vdf_retarget_observation observations =
     (let count = word_of_nat (length observations) :: u128;
          sum = sum_list (map (\<lambda>o1. ucast o1 :: u128) observations) in
      if 0 < count then Some (ucast (sum div count)) else None)"

text \<open>\<open>windows(2).rev()\<close>: the adjacent pairs of a chain, newest first.\<close>

definition adjacent_rev :: "'a list \<Rightarrow> ('a \<times> 'a) list" where
  "adjacent_rev xs = rev (zip xs (tl xs))"

definition recent_vdf_retarget_average_observed_block_ms :: "Block list \<Rightarrow> u64 option result" where
  "recent_vdf_retarget_average_observed_block_ms chain =
     and_then (try_map (\<lambda>(parent, child). vdf_retarget_observed_block_ms parent child)
       (filter (\<lambda>(parent, child). 0 < height parent) (adjacent_rev chain))) (\<lambda>observed.
     Inr (average_vdf_retarget_observation (take VDF_RETARGET_WINDOW_BLOCKS (List.map_filter id observed))))"

section \<open>Properties\<close>

lemma retarget_constants:
  "unat VDF_TARGET_BLOCK_MS = 600000" "unat MAX_VDF_ROUNDS = 2 ^ 63 - 1"
  "VDF_TARGET_BLOCK_MS * 4 = 2400000" "VDF_TARGET_BLOCK_MS div 4 = 150000"
  by (simp_all add: VDF_TARGET_BLOCK_MS_def MAX_VDF_ROUNDS_def)

text \<open>The clamp of an observed block time never panics.\<close>

lemma clamped_observation:
  "\<exists>v. clamped_vdf_retarget_observed_block_ms ms = Inr v \<and> 150000 \<le> v \<and> v \<le> 2400000"
  by (auto simp: clamped_vdf_retarget_observed_block_ms_def clamp_def MIN_VDF_RETARGET_OBSERVED_BLOCK_MS_def
      MAX_VDF_RETARGET_OBSERVED_BLOCK_MS_def retarget_constants not_less)

end
