(* ===== verification/Mine_Policy.thy ===== *)
theory Mine_Policy
  imports Ledger_Ops
begin

text \<open>
  The proof-of-work policy of \<open>domain/mine_policy.rs\<close>: retargeting of the difficulty from the
  number of mine actions in a window, and the limit on mine actions per anchor.
\<close>

definition MINE_RETARGET_WINDOW_BLOCKS :: u64 where "MINE_RETARGET_WINDOW_BLOCKS = 10"
definition MINE_MAX_RETARGET_STEP_BITS :: u32 where "MINE_MAX_RETARGET_STEP_BITS = 2"
definition MINE_MIN_DIFFICULTY_BITS :: u32 where "MINE_MIN_DIFFICULTY_BITS = 10"
definition MINE_MAX_ANCHOR_AGE_BLOCKS :: u64 where
  "MINE_MAX_ANCHOR_AGE_BLOCKS = MINE_RETARGET_WINDOW_BLOCKS"
definition MINE_TARGET_ACTIONS_PER_BLOCK :: u64 where "MINE_TARGET_ACTIONS_PER_BLOCK = 1"

text \<open>
  The doubling loop. Its threshold starts at a positive denominator and doubles without
  overflow, so the first conjunct of the condition always holds.
\<close>

function log2_loop :: "u64 \<Rightarrow> u64 \<Rightarrow> u32 \<Rightarrow> u32" where
  "log2_loop numerator threshold step =
     (if threshold \<noteq> 0 \<and> threshold \<le> numerator div 2
      then log2_loop numerator (saturating_mul threshold 2) (saturating_add step 1)
      else step)"
  by pat_completeness auto
termination
proof (relation "measure (\<lambda>(numerator, threshold, step). unat numerator - unat threshold)")
  fix numerator threshold :: u64 and step :: u32
  assume "threshold \<noteq> 0 \<and> threshold \<le> numerator div 2"
  then have "0 < unat threshold" "unat threshold \<le> unat numerator div 2"
    by (auto simp: word_le_nat_alt unat_div_distrib unat_gt_0)
  moreover from this have "unat threshold * 2 < 2 ^ 64"
    using unat_less_power [of numerator] by simp
  ultimately show "((numerator, saturating_mul threshold 2, saturating_add step 1), numerator, threshold, step)
      \<in> measure (\<lambda>(numerator, threshold, step). unat numerator - unat threshold)"
    by (simp add: unat_saturating_mul)
qed simp

declare log2_loop.simps [simp del]

definition floor_log2_ratio :: "u64 \<Rightarrow> u64 \<Rightarrow> u32" where
  "floor_log2_ratio numerator denominator =
     (if denominator = 0 \<or> numerator \<le> denominator then 0
      else log2_loop numerator denominator 0)"

definition retarget_mine_difficulty_bits :: "u32 \<Rightarrow> u64 \<Rightarrow> u32" where
  "retarget_mine_difficulty_bits current mine_actions =
     (let tgt = saturating_mul MINE_RETARGET_WINDOW_BLOCKS MINE_TARGET_ACTIONS_PER_BLOCK in
      if tgt = 0 \<or> mine_actions = tgt then max current MINE_MIN_DIFFICULTY_BITS
      else
        (let step =
           (if tgt < mine_actions then min (floor_log2_ratio mine_actions tgt) MINE_MAX_RETARGET_STEP_BITS
            else if mine_actions = 0 then MINE_MAX_RETARGET_STEP_BITS
            else min (floor_log2_ratio tgt mine_actions) MINE_MAX_RETARGET_STEP_BITS) in
         if step = 0 then max current MINE_MIN_DIFFICULTY_BITS
         else if tgt < mine_actions then max (saturating_add current step) MINE_MIN_DIFFICULTY_BITS
         else max (saturating_sub current step) MINE_MIN_DIFFICULTY_BITS))"

section \<open>Anchors\<close>

fun mine_anchor :: "Transaction \<Rightarrow> string option" where
  "mine_anchor (Mine recipient anchor salt nonce bits header sig) = Some anchor"
| "mine_anchor _ = None"

definition anchor_limit_step ::
  "(string, nat) btree_map \<Rightarrow> Transaction \<Rightarrow> (string, nat) btree_map result" where
  "anchor_limit_step counts tx =
     (case mine_anchor tx of
        None \<Rightarrow> Inr counts
      | Some anchor \<Rightarrow>
          (let count = (case bt_get counts anchor of Some n \<Rightarrow> n | None \<Rightarrow> 0) + 1 in
           if MINE_ACTIONS_PER_ANCHOR_LIMIT < count
           then bail ''block exceeds mine actions per anchor limit''
           else Inr (bt_insert anchor count counts)))"

definition ensure_mine_anchor_limit :: "u64 \<Rightarrow> Transaction list \<Rightarrow> unit result" where
  "ensure_mine_anchor_limit h txs =
     and_then (try_fold anchor_limit_step bt_empty txs) (\<lambda>_. Inr ())"

definition anchor_count :: "string \<Rightarrow> Transaction list \<Rightarrow> nat" where
  "anchor_count anchor txs = length (filter (\<lambda>tx. mine_anchor tx = Some anchor) txs)"

definition mine_anchor_count_before_height :: "Block list \<Rightarrow> string \<Rightarrow> u64 \<Rightarrow> nat" where
  "mine_anchor_count_before_height chain anchor h =
     sum_list (map (\<lambda>b. anchor_count anchor (transactions b)) (takeWhile (\<lambda>b. height b \<le> h) chain))"

section \<open>Properties\<close>

lemma log2_loop_spec:
  assumes "0 < unat threshold" and "unat threshold \<le> unat numerator"
    and "unat threshold * 2 ^ (64 - unat step) \<ge> 2 ^ 64" and "unat step \<le> 64"
  shows "\<exists>k. unat (log2_loop numerator threshold step) = unat step + k \<and>
    unat threshold * 2 ^ k \<le> unat numerator \<and> unat numerator < unat threshold * 2 ^ (k + 1)"
  using assms
proof (induction numerator threshold step rule: log2_loop.induct)
  case (1 numerator threshold step)
  show ?case
  proof (cases "threshold \<le> numerator div 2")
    case True
    then have le: "unat threshold * 2 \<le> unat numerator"
      by (auto simp: word_le_nat_alt unat_div_distrib)
    then have small: "unat threshold * 2 < 2 ^ 64" using unat_less_power [of numerator] by simp
    have pos: "0 < 64 - unat step"
    proof (rule ccontr)
      assume "\<not> 0 < 64 - unat step"
      then show False using 1(4) small by simp
    qed
    have t2: "unat (saturating_mul threshold 2) = unat threshold * 2"
      using small by (simp add: unat_saturating_mul)
    have s1: "unat (saturating_add step 1) = unat step + 1"
      using pos by (simp add: unat_saturating_add)
    have "64 - unat step = Suc (64 - (unat step + 1))" using pos by simp
    then have pow: "(2::nat) ^ (64 - unat step) = 2 * 2 ^ (64 - (unat step + 1))"
      by (simp only: power_Suc)
    have nz: "threshold \<noteq> 0" using 1(2) by auto
    have "2 ^ 64 \<le> unat (saturating_mul threshold 2) * 2 ^ (64 - unat (saturating_add step 1))"
      using 1(4) unfolding t2 s1 pow by (simp add: mult.assoc)
    then obtain k where "unat (log2_loop numerator (saturating_mul threshold 2) (saturating_add step 1)) =
        unat step + 1 + k" "unat threshold * 2 * 2 ^ k \<le> unat numerator"
        "unat numerator < unat threshold * 2 * 2 ^ (k + 1)"
      using 1(1) nz True le pos 1(2) unfolding t2 s1 by force
    then show ?thesis
      using nz True by (intro exI [of _ "k + 1"]) (simp add: log2_loop.simps [of numerator threshold step])
  next
    case False
    then have "unat numerator < unat threshold * 2"
      by (auto simp: not_le word_less_nat_alt unat_div_distrib)
    then show ?thesis
      using False 1(3) by (intro exI [of _ 0]) (simp add: log2_loop.simps [of numerator threshold step])
  qed
qed

text \<open>The loop computes the integer logarithm of the ratio.\<close>

lemma floor_log2_ratio_spec:
  assumes "0 < unat d" and "unat d \<le> unat n"
  shows "unat d * 2 ^ unat (floor_log2_ratio n d) \<le> unat n \<and>
    unat n < unat d * 2 ^ (unat (floor_log2_ratio n d) + 1)"
proof (cases "n \<le> d")
  case True
  then have "unat n = unat d" using assms by (simp add: word_le_nat_alt)
  then show ?thesis using True assms by (simp add: floor_log2_ratio_def)
next
  case False
  then show ?thesis
    using log2_loop_spec [of d n 0] assms by (auto simp: floor_log2_ratio_def)
qed

text \<open>
  A retarget moves the difficulty by at most two bits, never below the minimum, up only after
  more than twice the target and down only after at most half of it.
\<close>

lemma retarget_step:
  fixes current :: u32
  shows "unat (max (saturating_add current step) lo) \<le> max (unat current + unat step) (unat lo)"
    and "unat (max (saturating_sub current step) lo) \<ge> unat current - unat step"
  by (auto simp: max_def unat_saturating_add unat_saturating_sub word_le_nat_alt)

lemma max_ge_min: "MINE_MIN_DIFFICULTY_BITS \<le> max x MINE_MIN_DIFFICULTY_BITS"
  by simp

lemma retarget_at_least_minimum: "MINE_MIN_DIFFICULTY_BITS \<le> retarget_mine_difficulty_bits current n"
  by (simp add: retarget_mine_difficulty_bits_def Let_def)

lemma retarget_target: "saturating_mul MINE_RETARGET_WINDOW_BLOCKS MINE_TARGET_ACTIONS_PER_BLOCK = 10"
  by (simp add: saturating_mul_def MINE_RETARGET_WINDOW_BLOCKS_def MINE_TARGET_ACTIONS_PER_BLOCK_def)

lemma retarget_bounded:
  assumes "MINE_MIN_DIFFICULTY_BITS \<le> current"
  shows "unat (retarget_mine_difficulty_bits current n) \<le> unat current + 2 \<and>
    unat current \<le> unat (retarget_mine_difficulty_bits current n) + 2"
proof -
  have two: "unat (min x MINE_MAX_RETARGET_STEP_BITS) \<le> 2" for x
    by (auto simp: min_def MINE_MAX_RETARGET_STEP_BITS_def word_le_nat_alt)
  have "unat MINE_MAX_RETARGET_STEP_BITS \<le> 2" by (simp add: MINE_MAX_RETARGET_STEP_BITS_def)
  have up: "unat (max (saturating_add current s) MINE_MIN_DIFFICULTY_BITS) \<le> unat current + 2 \<and>
      unat current \<le> unat (max (saturating_add current s) MINE_MIN_DIFFICULTY_BITS) + 2"
    if "unat s \<le> 2" for s
    using that assms unat_less_power [of current]
    by (auto simp: max_def unat_saturating_add word_le_nat_alt)
  have down: "unat (max (saturating_sub current s) MINE_MIN_DIFFICULTY_BITS) \<le> unat current + 2 \<and>
      unat current \<le> unat (max (saturating_sub current s) MINE_MIN_DIFFICULTY_BITS) + 2"
    if "unat s \<le> 2" for s
    using that assms by (auto simp: max_def unat_saturating_sub word_le_nat_alt)
  have same: "max current MINE_MIN_DIFFICULTY_BITS = current" using assms by simp
  show ?thesis
    unfolding retarget_mine_difficulty_bits_def Let_def same
    using up [OF two] down [OF two] down [of MINE_MAX_RETARGET_STEP_BITS] \<open>unat MINE_MAX_RETARGET_STEP_BITS \<le> 2\<close>
    by auto
qed

text \<open>The anchor limit is the bound it names, for every anchor.\<close>

lemma anchor_count_simps [simp]:
  "anchor_count a [] = 0"
  "anchor_count a (tx # txs) = (if mine_anchor tx = Some a then 1 else 0) + anchor_count a txs"
  by (simp_all add: anchor_count_def)

definition counted :: "(string, nat) btree_map \<Rightarrow> string \<Rightarrow> nat" where
  "counted counts a = (case bt_get counts a of Some n \<Rightarrow> n | None \<Rightarrow> 0)"

lemma anchor_limit_step_eq_Inr:
  "anchor_limit_step counts tx = Inr counts' \<longleftrightarrow>
     (case mine_anchor tx of None \<Rightarrow> counts' = counts
      | Some a \<Rightarrow> counted counts a < MINE_ACTIONS_PER_ANCHOR_LIMIT \<and>
          counts' = bt_insert a (counted counts a + 1) counts)"
  by (auto simp: anchor_limit_step_def counted_def Let_def if_bail_eq_Inr split: option.splits)

lemma anchor_limit_fold:
  assumes "\<forall>a. counted counts a \<le> MINE_ACTIONS_PER_ANCHOR_LIMIT"
  shows "(\<exists>counts'. try_fold anchor_limit_step counts txs = Inr counts') \<longleftrightarrow>
    (\<forall>a. counted counts a + anchor_count a txs \<le> MINE_ACTIONS_PER_ANCHOR_LIMIT)"
  using assms
proof (induction txs arbitrary: counts)
  case (Cons tx txs)
  show ?case
  proof (cases "mine_anchor tx")
    case None
    then have "anchor_limit_step counts tx = Inr counts" by (simp add: anchor_limit_step_eq_Inr)
    then show ?thesis using Cons None by simp
  next
    case (Some a)
    show ?thesis
    proof (cases "counted counts a < MINE_ACTIONS_PER_ANCHOR_LIMIT")
      case True
      let ?c = "bt_insert a (counted counts a + 1) counts"
      have step: "anchor_limit_step counts tx = Inr ?c" using True Some by (simp add: anchor_limit_step_eq_Inr)
      have c: "counted ?c b = counted counts b + (if b = a then 1 else 0)" for b
        by (simp add: counted_def)
      then have "\<forall>b. counted ?c b \<le> MINE_ACTIONS_PER_ANCHOR_LIMIT" using Cons.prems True by auto
      moreover have "counted ?c b + anchor_count b txs = counted counts b + anchor_count b (tx # txs)" for b
        unfolding c using Some by simp
      ultimately show ?thesis using Cons.IH [of ?c] step by simp
    next
      case False
      then have "\<not> (\<exists>c. anchor_limit_step counts tx = Inr c)" using Some by (simp add: anchor_limit_step_eq_Inr)
      moreover have "\<not> counted counts a + anchor_count a (tx # txs) \<le> MINE_ACTIONS_PER_ANCHOR_LIMIT"
        using False Some by simp
      ultimately show ?thesis by (auto simp del: anchor_count_simps simp: and_then_eq_Inr)
    qed
  qed
qed (simp add: counted_def)

lemma anchor_limit_iff:
  "ensure_mine_anchor_limit h txs = Inr () \<longleftrightarrow> (\<forall>a. anchor_count a txs \<le> MINE_ACTIONS_PER_ANCHOR_LIMIT)"
  using anchor_limit_fold [of bt_empty txs]
  by (auto simp: ensure_mine_anchor_limit_def and_then_eq_Inr counted_def)

end
