(* ===== verification/Ledger_V2_Ops.thy ===== *)
theory Ledger_V2_Ops
  imports Lineage
begin

text \<open>
  The state transition of version 2 transactions, from \<open>domain/ledger_v2.rs\<close>: spending of legacy
  and hybrid inputs, creation of outputs, the variant that maintains the lineage index, and the
  decoding of the hexadecimal envelopes a block carries. From \<open>domain/ledger_apply.rs\<close> the
  bindings of hybrid addresses to legacy identities.
\<close>

fun legacy_transaction_id_hex :: "LegacyTransactionId \<Rightarrow> string" where
  "legacy_transaction_id_hex (LegacyHash v) = hex_encode v"
| "legacy_transaction_id_hex (LegacySignature v) = hex_encode v"

definition internal_address :: "crypto \<Rightarrow> VersionedAddress \<Rightarrow> AddressNetwork \<Rightarrow> string result" where
  "internal_address cr a network =
     (case addr_version a of
        Ed25519PublicKey \<Rightarrow> Inr (hex_encode (addr_payload a))
      | HybridKeyCommitment \<Rightarrow> encode_versioned_address cr a network)"

definition legacy_input_outpoint :: "TransactionV2LegacyInput \<Rightarrow> OutPoint" where
  "legacy_input_outpoint i = OutPoint (legacy_transaction_id_hex (leg_id i)) (leg_index i)"

definition v2_input_outpoint :: "TransactionV2Input \<Rightarrow> OutPoint" where
  "v2_input_outpoint i = OutPoint (hex_encode (v2in_txid i)) (v2in_index i)"

fun transaction_v2_outpoints :: "TransactionV2 \<Rightarrow> OutPoint list" where
  "transaction_v2_outpoints (V2Migration ins outs f auths) = map legacy_input_outpoint ins"
| "transaction_v2_outpoints (V2Transfer ins outs f auths) = map v2_input_outpoint ins"
| "transaction_v2_outpoints (V2Burn ins change a f anchor auths) = map v2_input_outpoint ins"
| "transaction_v2_outpoints (V2Mine recipient anchor salt nonce bits header hash) = []"

section \<open>Spending\<close>

definition v2_spend_step ::
  "crypto \<Rightarrow> string \<Rightarrow> u64 \<times> utxos \<Rightarrow> OutPoint \<times> VersionedAddress \<times> AddressNetwork \<Rightarrow> (u64 \<times> utxos) result" where
  "v2_spend_step cr mismatch s input = (case s of (spent, m) \<Rightarrow> case input of (p, owner, network) \<Rightarrow>
     and_then (ok_or (''transaction v2 input '' @ outpoint_id p @ '' is not spendable'') (bt_get m p)) (\<lambda>output.
     and_then (internal_address cr owner network) (\<lambda>expected_owner.
     if out_address output \<noteq> expected_owner then bail mismatch
     else
       and_then (ok_or ''transaction v2 input value overflows''
         (checked_add spent (out_amount output))) (\<lambda>spent'.
       Inr (spent', bt_remove p m)))))"

definition spend_legacy_inputs :: "crypto \<Rightarrow> TransactionV2LegacyInput list \<Rightarrow> utxos \<Rightarrow> (u64 \<times> utxos) result" where
  "spend_legacy_inputs cr ins m =
     try_fold (v2_spend_step cr ''transaction v2 legacy input owner does not match the referenced output'')
       (0, m) (map (\<lambda>i. (legacy_input_outpoint i, leg_owner i, Mainnet)) ins)"

definition spend_v2_inputs :: "crypto \<Rightarrow> TransactionV2Input list \<Rightarrow> AddressNetwork \<Rightarrow> utxos \<Rightarrow> (u64 \<times> utxos) result" where
  "spend_v2_inputs cr ins network m =
     try_fold (v2_spend_step cr ''transaction v2 input owner does not match the referenced output'')
       (0, m) (map (\<lambda>i. (v2_input_outpoint i, v2in_owner i, network)) ins)"

definition sum_outputs :: "TransactionV2Output list \<Rightarrow> u64 result" where
  "sum_outputs outs =
     try_fold (\<lambda>running o1. ok_or ''transaction v2 output value overflows''
       (checked_add running (v2out_amount o1))) 0 outs"

fun v2_burned :: "TransactionV2 \<Rightarrow> u64" where
  "v2_burned (V2Burn ins change a f anchor auths) = a"
| "v2_burned _ = 0"

text \<open>The inputs of each kind, with the checks the kind needs before they are spent.\<close>

fun spend_transaction_v2_inputs ::
  "crypto \<Rightarrow> TransactionV2 \<Rightarrow> AddressNetwork \<Rightarrow> utxos \<Rightarrow> (u64 \<times> utxos) result" where
  "spend_transaction_v2_inputs cr (V2Migration ins outs f auths) network m = spend_legacy_inputs cr ins m"
| "spend_transaction_v2_inputs cr (V2Transfer ins outs f auths) network m = spend_v2_inputs cr ins network m"
| "spend_transaction_v2_inputs cr (V2Burn ins change a f anchor auths) network m =
     and_then (burn_legacy_owner cr (V2Burn ins change a f anchor auths)) (\<lambda>_.
     spend_v2_inputs cr ins network m)"
| "spend_transaction_v2_inputs cr (V2Mine recipient anchor salt nonce bits header hash) network m =
     bail ''transaction v2 mining is not integrated into live proof consensus''"

definition insert_v2_output ::
  "crypto \<Rightarrow> string \<Rightarrow> AddressNetwork \<Rightarrow> utxos \<Rightarrow> nat \<times> TransactionV2Output \<Rightarrow> utxos result" where
  "insert_v2_output cr txid network m e =
     (if fst e \<ge> 2 ^ 32 then bail ''transaction v2 output index exceeds u32''
      else
        and_then (internal_address cr (v2out_address (snd e)) network) (\<lambda>a.
        let p = OutPoint txid (word_of_nat (fst e)) in
        if bt_contains_key m p then bail ''transaction v2 recreates an existing outpoint''
        else Inr (bt_insert p \<lparr>out_address = a, out_amount = v2out_amount (snd e)\<rparr> m)))"

definition apply_transaction_v2_to_utxos_with_policy ::
  "crypto \<Rightarrow> TransactionV2 \<Rightarrow> TransactionV2Domain \<Rightarrow> AddressNetwork \<Rightarrow> bool \<Rightarrow> utxos \<Rightarrow> utxos result" where
  "apply_transaction_v2_to_utxos_with_policy cr tx d network verify m =
     and_then (spend_transaction_v2_inputs cr tx network m) (\<lambda>(spent, m').
     and_then (sum_outputs (v2_outputs tx)) (\<lambda>credited.
     and_then (ok_or ''transaction v2 output value plus fee overflows''
       (checked_add credited (v2_fee tx))) (\<lambda>with_fee.
     and_then (ok_or ''transaction v2 output value plus burn overflows''
       (checked_add with_fee (v2_burned tx))) (\<lambda>required.
     if spent \<noteq> required then bail ''transaction v2 input value does not equal outputs plus fee''
     else
       and_then (if verify then verify_authorizations cr tx d else Inr ()) (\<lambda>_.
       and_then (transaction_id cr tx d) (\<lambda>txid.
       try_fold (insert_v2_output cr (hex_encode txid) network) m' (enumerate 0 (v2_outputs tx))))))))"

definition apply_transaction_v2_to_utxos ::
  "crypto \<Rightarrow> TransactionV2 \<Rightarrow> TransactionV2Domain \<Rightarrow> AddressNetwork \<Rightarrow> utxos \<Rightarrow> utxos result" where
  "apply_transaction_v2_to_utxos cr tx d network m =
     apply_transaction_v2_to_utxos_with_policy cr tx d network True m"

definition apply_prevalidated_transaction_v2_to_utxos ::
  "crypto \<Rightarrow> TransactionV2 \<Rightarrow> TransactionV2Domain \<Rightarrow> AddressNetwork \<Rightarrow> utxos \<Rightarrow> utxos result" where
  "apply_prevalidated_transaction_v2_to_utxos cr tx d network m =
     apply_transaction_v2_to_utxos_with_policy cr tx d network False m"

definition transaction_v2_inputs_are_confirmed :: "TransactionV2 \<Rightarrow> utxos \<Rightarrow> bool" where
  "transaction_v2_inputs_are_confirmed tx m = list_all (bt_contains_key m) (transaction_v2_outpoints tx)"

section \<open>The lineage index\<close>

definition v2_unindex_step ::
  "UtxoLineageRoot option \<times> LineageState \<Rightarrow> OutPoint \<times> TxOutput \<Rightarrow>
     (UtxoLineageRoot option \<times> LineageState) result" where
  "v2_unindex_step s e = (case s of (inherited, st) \<Rightarrow>
     and_then (remove_spent_output_lineage (fst e) (snd e) st) (\<lambda>(root, st').
     Inr (newest_lineage_root inherited root, st')))"

definition v2_attach_step ::
  "string \<Rightarrow> UtxoLineageRoot \<Rightarrow> LineageState \<Rightarrow> nat \<times> TransactionV2Output \<Rightarrow> LineageState result" where
  "v2_attach_step txid root st e =
     (if fst e \<ge> 2 ^ 32 then bail ''transaction v2 output index exceeds u32''
      else
        (let p = OutPoint txid (word_of_nat (fst e)) in
         and_then (ok_or ''transaction v2 output is missing after application'' (bt_get (ls_utxos st) p))
           (\<lambda>internal. attach_existing_output_lineage p internal root st)))"

definition v2_spent_outputs :: "utxos \<Rightarrow> OutPoint list \<Rightarrow> (OutPoint \<times> TxOutput) list result" where
  "v2_spent_outputs m spent =
     try_map (\<lambda>p.
       and_then (ok_or (''transaction v2 input '' @ outpoint_id p @ '' is not spendable'') (bt_get m p))
         (\<lambda>output. Inr (p, output))) spent"

definition apply_transaction_v2_with_lineage ::
  "crypto \<Rightarrow> TransactionV2 \<Rightarrow> TransactionV2Domain \<Rightarrow> AddressNetwork \<Rightarrow> bool \<Rightarrow> LineageState \<Rightarrow> LineageState result" where
  "apply_transaction_v2_with_lineage cr tx d network verify st =
     and_then (v2_spent_outputs (ls_utxos st) (transaction_v2_outpoints tx)) (\<lambda>spent_outputs.
     and_then (apply_transaction_v2_to_utxos_with_policy cr tx d network verify (ls_utxos st)) (\<lambda>m.
     and_then (try_fold v2_unindex_step (None, st\<lparr>ls_utxos := m\<rparr>) spent_outputs) (\<lambda>(inherited, st').
     case inherited of
       None \<Rightarrow> Inr st'
     | Some root \<Rightarrow>
         and_then (transaction_id cr tx d) (\<lambda>txid.
         try_fold (v2_attach_step (hex_encode txid) root) st' (enumerate 0 (v2_outputs tx))))))"

section \<open>Envelopes and identities\<close>

definition decode_canonical_transaction_v2_envelope ::
  "string \<Rightarrow> TransactionV2Domain \<Rightarrow> TransactionV2 result" where
  "decode_canonical_transaction_v2_envelope envelope expected_domain =
     and_then (with_context ''transaction v2 envelope is not hexadecimal'' (decode_hex envelope)) (\<lambda>bs.
     if hex_encode bs \<noteq> envelope
     then bail ''transaction v2 envelope is not canonical lowercase hexadecimal''
     else
       and_then (v2_decode bs) (\<lambda>(d, tx).
       if d \<noteq> expected_domain then bail ''transaction v2 belongs to a different chain domain''
       else
         and_then (v2_encode tx expected_domain) (\<lambda>again.
         if again \<noteq> bs then bail ''transaction v2 envelope is not canonically encoded''
         else Inr tx)))"

definition record_hybrid_legacy_owner_bindings ::
  "crypto \<Rightarrow> (string, string) btree_map \<Rightarrow> TransactionV2 \<Rightarrow> AddressNetwork \<Rightarrow> (string, string) btree_map result" where
  "record_hybrid_legacy_owner_bindings cr bindings tx network =
     and_then (hybrid_legacy_owner_bindings cr tx) (\<lambda>pairs.
     try_fold (\<lambda>bindings (hybrid_owner, legacy_owner).
       and_then (encode_versioned_address cr hybrid_owner network) (\<lambda>hybrid.
       case bt_get bindings hybrid of
         Some existing \<Rightarrow>
           if existing \<noteq> legacy_owner
           then bail ''hybrid address is bound to conflicting legacy identities'' else Inr bindings
       | None \<Rightarrow> Inr (bt_insert hybrid legacy_owner bindings))) bindings pairs)"

end
