(* ===== verification/Ledger_State.thy ===== *)
theory Ledger_State
  imports Fork Vdf Mine_Policy Ledger_V2_Ops
begin

text \<open>
  The ledger of \<open>domain/ledger_state.rs\<close> and the parts of it that answer questions about the
  chain: queries and the burn committee (\<open>domain/ledger_queries.rs\<close>), the address and draw
  indexes (\<open>domain/ledger_history_index.rs\<close>), retargeting and ticket selection
  (\<open>domain/ledger_consensus.rs\<close>). The four lineage maps are the record \<open>LineageState\<close>; a
  \<open>BTreeSet\<close> that is only extended and tested is a set. The chain always holds the genesis block,
  so that its first and last block exist.
\<close>

record ResidentTicketDraw =
  rd_block_hash :: string
  rd_parent_randomness :: string
  rd_eligible_tickets :: "BurnTicket list"

record Ledger =
  chain :: "Block list"
  history_pruned :: bool
  genesis_allocations :: "(string, Amount) btree_map"
  lineage :: LineageState
  hybrid_legacy_owners :: "(string, string) btree_map"
  tickets :: "BurnTicket list"
  mined_transaction_ids :: "string set"
  pending :: "Transaction list"
  orphans :: "Transaction list"
  pending_bytes :: nat
  orphan_bytes :: nat
  pending_v2 :: "TransactionV2 list"
  pending_v2_bytes :: nat
  mine_reward :: Amount
  mine_difficulty_windows :: "u32 list"
  initial_vdf_rounds :: u64
  ledger_vdf_rounds :: u64
  launch_profile :: LaunchProfile
  compact_block_context :: CompactBlockContext
  objective_finality_checkpoint :: "FinalityCheckpoint option"
  confirmed_hybrid_used_addresses :: "VersionedAddress set"
  confirmed_hybrid_spent_addresses :: "VersionedAddress set"
  confirmed_hybrid_authored_addresses :: "(bytes, VersionedAddress list) btree_map"
  vdf_retarget_observations :: "u64 list"
  ticket_draw_horizon :: u64
  resident_ticket_draws :: "(u64, ResidentTicketDraw) btree_map"

abbreviation ledger_utxos :: "Ledger \<Rightarrow> utxos" where
  "ledger_utxos lg \<equiv> ls_utxos (lineage lg)"

section \<open>The chain\<close>

definition tip :: "Ledger \<Rightarrow> Block" where
  "tip lg = last (chain lg)"

definition ledger_height :: "Ledger \<Rightarrow> u64" where
  "ledger_height lg = height (tip lg)"

definition tip_hash :: "Ledger \<Rightarrow> string" where
  "tip_hash lg = block_hash (tip lg)"

definition ledger_genesis_hash :: "Ledger \<Rightarrow> string" where
  "ledger_genesis_hash lg = block_hash (hd (chain lg))"

definition transaction_signing_domain_at :: "Ledger \<Rightarrow> u64 \<Rightarrow> TransactionSigningDomain" where
  "transaction_signing_domain_at lg h =
     domain_for_height (profile_id (launch_profile lg)) (ledger_genesis_hash lg) h"

definition transaction_v2_domain :: "Ledger \<Rightarrow> TransactionV2Domain result" where
  "transaction_v2_domain lg =
     and_then (with_context ''ledger genesis hash is not a 32-byte hexadecimal value''
       (decode_hex_array 32 (ledger_genesis_hash lg))) (\<lambda>gen.
     v2_domain_new (profile_id (launch_profile lg)) gen)"

definition ledger_network :: "Ledger \<Rightarrow> AddressNetwork" where
  "ledger_network lg = from_profile_id (profile_id (launch_profile lg))"

definition decode_transaction_v2 :: "Ledger \<Rightarrow> bytes \<Rightarrow> TransactionV2 result" where
  "decode_transaction_v2 lg encoded =
     and_then (v2_decode encoded) (\<lambda>(d, tx).
     and_then (transaction_v2_domain lg) (\<lambda>own.
     if d \<noteq> own then bail ''transaction v2 belongs to a different chain domain'' else Inr tx))"

definition has_transaction :: "Ledger \<Rightarrow> string \<Rightarrow> bool" where
  "has_transaction lg sig =
     (sig \<in> mined_transaction_ids lg \<or> list_ex (\<lambda>tx. tx_signature tx = sig) (pending lg @ orphans lg))"

definition consensus_block_size_bytes :: "Ledger \<Rightarrow> Block \<Rightarrow> nat result" where
  "consensus_block_size_bytes lg b = block_size_bytes (compact_block_context lg) b"

text \<open>A block in the resident window: the genesis block or an entry of the contiguous tail.\<close>

definition resident_block_at_height :: "Ledger \<Rightarrow> u64 \<Rightarrow> Block option" where
  "resident_block_at_height lg h =
     (case chain lg of
        [] \<Rightarrow> None
      | genesis # tail \<Rightarrow>
          if h = height genesis then Some genesis
          else
            (case tail of
               [] \<Rightarrow> None
             | first_tail # _ \<Rightarrow>
                 Option.bind (checked_sub h (height first_tail)) (\<lambda>offset.
                 if unat offset < length tail \<and> height (tail ! unat offset) = h
                 then Some (tail ! unat offset) else None)))"

function locator_loop :: "Block list \<Rightarrow> nat \<Rightarrow> nat \<Rightarrow> nat \<Rightarrow> string list" where
  "locator_loop blocks index step count =
     block_hash (blocks ! index) #
       (if index = 0 then []
        else locator_loop blocks (index - Suc step)
          (if 10 < Suc count then 2 * Suc step - 1 else step) (Suc count))"
  by pat_completeness auto
termination
  by (relation "measure (\<lambda>(blocks, index, step, count). index)") auto

text \<open>
  Hashes from the tip back to genesis, densely at first and then in doubling strides. The stride
  of the loop is one more than its argument, so that every round moves towards genesis.
\<close>

definition block_locator :: "Ledger \<Rightarrow> string list" where
  "block_locator lg = locator_loop (chain lg) (length (chain lg) - 1) 0 0"

section \<open>Retargeting and tickets\<close>

definition next_vdf_rounds_after_tip :: "Ledger \<Rightarrow> u64 result" where
  "next_vdf_rounds_after_tip lg =
     (if chain lg = [] \<or> ledger_height lg < 2 then Inr (ledger_vdf_rounds lg)
      else
        and_then (if vdf_retarget_observations lg = []
                  then recent_vdf_retarget_average_observed_block_ms (chain lg)
                  else Inr (average_vdf_retarget_observation (vdf_retarget_observations lg))) (\<lambda>average.
        case average of
          None \<Rightarrow> Inr (ledger_vdf_rounds lg)
        | Some average_observed_ms \<Rightarrow>
            retarget_vdf_rounds
              (base_vdf_rounds_for_finalizer_rank (vdf_rounds (tip lg)) (finalizer_rank (tip lg)))
              average_observed_ms))"

definition record_vdf_retarget_observation :: "Ledger \<Rightarrow> Block \<Rightarrow> Ledger result" where
  "record_vdf_retarget_observation lg b =
     (let parent = tip lg in
      if height parent = 0 then Inr lg
      else
        and_then (vdf_retarget_observed_block_ms parent b) (\<lambda>observed.
        case observed of
          None \<Rightarrow> Inr lg
        | Some v \<Rightarrow>
            (let obs = vdf_retarget_observations lg @ [v] in
             Inr (lg\<lparr>vdf_retarget_observations := drop (length obs - VDF_RETARGET_WINDOW_BLOCKS) obs\<rparr>))))"

definition ticket_for_finalizer_rank :: "crypto \<Rightarrow> Ledger \<Rightarrow> u64 \<Rightarrow> u32 \<Rightarrow> BurnTicket option" where
  "ticket_for_finalizer_rank cr lg h rank =
     (let ranked = ranked_tickets_for_height cr (tip lg) h (tickets lg) in
      if unat rank < length ranked then Some (ranked ! unat rank) else None)"

definition finalizer_rank_count_for_next_block :: "crypto \<Rightarrow> Ledger \<Rightarrow> nat" where
  "finalizer_rank_count_for_next_block cr lg =
     length (ranked_tickets_for_height cr (tip lg) (ledger_height lg + 1) (tickets lg))"

definition finalizer_ticket_for_miner :: "crypto \<Rightarrow> Ledger \<Rightarrow> u64 \<Rightarrow> string \<Rightarrow> (u32 \<times> BurnTicket) option" where
  "finalizer_ticket_for_miner cr lg h owner =
     (let ranked = ranked_tickets_for_height cr (tip lg) h (tickets lg) in
      Option.bind (position (\<lambda>t. tk_owner t = owner) ranked) (\<lambda>rank.
      if rank < 2 ^ 32 then Some (word_of_nat rank, ranked ! rank) else None))"

definition burn_weights_for_next_block :: "Ledger \<Rightarrow> string list \<Rightarrow> u64 \<times> u64" where
  "burn_weights_for_next_block lg owners =
     (let target_height = saturating_add (ledger_height lg) 1 in
      foldl (\<lambda>(total, wallet) t.
        (saturating_add total (tk_amount t),
         saturating_add wallet (if tk_owner t \<in> set owners then tk_amount t else 0)))
        (0, 0)
        (filter (\<lambda>t. tk_from t \<le> target_height \<and> target_height \<le> tk_until t) (tickets lg)))"

definition expected_vdf_rounds_for_block :: "Ledger \<Rightarrow> Block \<Rightarrow> u64 result" where
  "expected_vdf_rounds_for_block lg b =
     (case finalizer_mode b of
        TicketMode \<Rightarrow> vdf_rounds_for_finalizer_rank (ledger_vdf_rounds lg) (finalizer_rank b)
      | RecoveryMode \<Rightarrow> vdf_rounds_for_finalizer_rank (ledger_vdf_rounds lg) 0)"

section \<open>Mining difficulty\<close>

definition window_actions :: "Block list \<Rightarrow> u64 \<Rightarrow> u64" where
  "window_actions blocks window =
     (let window_end = saturating_mul window MINE_RETARGET_WINDOW_BLOCKS;
          window_start = window_end + 1 - MINE_RETARGET_WINDOW_BLOCKS in
      sum_list (map mine_action_count
        (filter (\<lambda>b. window_start \<le> height b \<and> height b \<le> window_end) blocks)))"

definition mine_difficulty_windows_for_chain :: "Block list \<Rightarrow> u32 \<Rightarrow> u64 \<Rightarrow> u32 list" where
  "mine_difficulty_windows_for_chain blocks initial_difficulty anchor_height =
     foldl (\<lambda>ds n. ds @ [retarget_mine_difficulty_bits (last ds) (window_actions blocks (word_of_nat n))])
       [initial_difficulty] [1..<Suc (unat (anchor_height div MINE_RETARGET_WINDOW_BLOCKS))]"

definition mine_difficulty_bits_for_anchor_height :: "Ledger \<Rightarrow> u64 \<Rightarrow> u32" where
  "mine_difficulty_bits_for_anchor_height lg anchor_height =
     (let index = unat (anchor_height div MINE_RETARGET_WINDOW_BLOCKS) in
      if index < length (mine_difficulty_windows lg) then mine_difficulty_windows lg ! index
      else last (mine_difficulty_windows_for_chain (chain lg)
             (mine_difficulty_bits (launch_profile lg)) anchor_height))"

definition update_mine_difficulty_cache_after_tip :: "Ledger \<Rightarrow> Ledger" where
  "update_mine_difficulty_cache_after_tip lg =
     (let h = ledger_height lg in
      if h = 0 \<or> h mod MINE_RETARGET_WINDOW_BLOCKS \<noteq> 0 then lg
      else if unat (h div MINE_RETARGET_WINDOW_BLOCKS) + 1 \<le> length (mine_difficulty_windows lg) then lg
      else
        (let mine_actions = sum_list (map mine_action_count
               (take (unat MINE_RETARGET_WINDOW_BLOCKS) (rev (chain lg))));
             previous = (if mine_difficulty_windows lg = [] then mine_difficulty_bits (launch_profile lg)
                         else last (mine_difficulty_windows lg)) in
         lg\<lparr>mine_difficulty_windows :=
              mine_difficulty_windows lg @ [retarget_mine_difficulty_bits previous mine_actions]\<rparr>))"
end
