(* ===== verification/Committee.thy ===== *)
theory Committee
  imports Ledger_State
begin

text \<open>
  The burn committee of \<open>domain/ledger_queries.rs\<close>: the finalizer in slot 0, and up to four
  lineages of matured mined value, drawn with logarithmic weight among those whose owner holds an
  eligible ticket and was not skipped.
\<close>

record LineageCommitteeCandidate =
  lc_root :: UtxoLineageRoot
  lc_value :: Amount
  lc_weight :: u64
  lc_owner :: string

fun bit_length :: "nat \<Rightarrow> nat" where
  "bit_length n = (if n = 0 then 0 else Suc (bit_length (n div 2)))"

declare bit_length.simps [simp del]

definition leading_zeros :: "u128 \<Rightarrow> nat" where
  "leading_zeros w = 128 - bit_length (unat w)"

definition lineage_committee_weight :: "Amount \<Rightarrow> u64" where
  "lineage_committee_weight v =
     (let one_plus_value = (ucast v :: u128) + 1 in
      128 - word_of_nat (leading_zeros one_plus_value) - 1)"

definition lineage_committee_draw_seed :: "crypto \<Rightarrow> Block \<Rightarrow> u64 \<Rightarrow> u8 \<Rightarrow> string" where
  "lineage_committee_draw_seed cr parent target_height slot =
     ''iuna-burn-lineage-draw-v1:'' @ show_u64 target_height @ '':'' @
     draw_parent_randomness cr parent target_height @ '':'' @ show_u8 slot"

fun checked_lineage_weight :: "u128 \<Rightarrow> LineageCommitteeCandidate list \<Rightarrow> u128 option" where
  "checked_lineage_weight acc [] = Some acc"
| "checked_lineage_weight acc (c # cs) =
     Option.bind (checked_add acc (ucast (lc_weight c))) (\<lambda>t. checked_lineage_weight t cs)"

fun pick_lineage :: "u128 \<Rightarrow> u128 \<Rightarrow> nat \<Rightarrow> LineageCommitteeCandidate list \<Rightarrow> nat option" where
  "pick_lineage draw cumulative i [] = None"
| "pick_lineage draw cumulative i (c # cs) =
     Option.bind (checked_add cumulative (ucast (lc_weight c))) (\<lambda>acc.
     if draw < acc then Some i else pick_lineage draw acc (Suc i) cs)"

definition u128_from_be_bytes :: "bytes \<Rightarrow> u128" where
  "u128_from_be_bytes bs = word_of_nat (from_be_bytes bs)"

definition select_weighted_lineage_index ::
  "crypto \<Rightarrow> Block \<Rightarrow> u64 \<Rightarrow> u8 \<Rightarrow> LineageCommitteeCandidate list \<Rightarrow> nat option" where
  "select_weighted_lineage_index cr parent target_height slot candidates =
     Option.bind (checked_lineage_weight 0 candidates) (\<lambda>total_weight.
     if total_weight = 0 then None
     else
       (let digest = sha256 cr (as_bytes (lineage_committee_draw_seed cr parent target_height slot));
            draw = u128_from_be_bytes (take 16 digest) mod total_weight in
        pick_lineage draw 0 0 candidates))"

section \<open>Owners of a lineage\<close>

definition committee_identity_for_lineage_owner :: "Ledger \<Rightarrow> string \<Rightarrow> string" where
  "committee_identity_for_lineage_owner lg owner =
     (if saturating_add (ledger_height lg) 1 < HYBRID_LINEAGE_IDENTITY_ACTIVATION_HEIGHT then owner
      else case bt_get (hybrid_legacy_owners lg) owner of Some legacy \<Rightarrow> legacy | None \<Rightarrow> owner)"

definition lineage_root_has_owner :: "Ledger \<Rightarrow> UtxoLineageRoot \<Rightarrow> string \<Rightarrow> bool" where
  "lineage_root_has_owner lg root owner =
     (case bt_get (ls_owners (lineage lg)) root of
        None \<Rightarrow> False
      | Some owners \<Rightarrow>
          list_ex (\<lambda>(lineage_owner, outs). \<not> bt_is_empty outs \<and>
            committee_identity_for_lineage_owner lg lineage_owner = owner) (bt_entries owners))"

text \<open>The largest output of an owner, the smallest outpoint winning ties.\<close>

definition largest_output :: "(OutPoint, Amount) btree_map \<Rightarrow> (OutPoint \<times> Amount) option" where
  "largest_output outs =
     max_by (\<lambda>l r. snd l < snd r \<or> snd l = snd r \<and> fst r \<le> fst l) (bt_entries outs)"

definition representative_owner_for_lineage_root ::
  "Ledger \<Rightarrow> UtxoLineageRoot \<Rightarrow> string set \<Rightarrow> string set \<Rightarrow> string option" where
  "representative_owner_for_lineage_root lg root skipped_owners eligible_ticket_owners =
     Option.bind (bt_get (ls_owners (lineage lg)) root) (\<lambda>owners.
     map_option fst (max_by (\<lambda>(idl, al, pl) (idr, ar, pr).
         al < ar \<or> al = ar \<and> (pr < pl \<or> pr = pl \<and> idr \<le> idl))
       (List.map_filter (\<lambda>(owner, outs).
          map_option (\<lambda>(p, amt). (committee_identity_for_lineage_owner lg owner, amt, p))
            (largest_output outs))
          (filter (\<lambda>(owner, outs).
             committee_identity_for_lineage_owner lg owner \<in> eligible_ticket_owners \<and>
             committee_identity_for_lineage_owner lg owner \<notin> skipped_owners \<and>
             \<not> bt_is_empty outs) (bt_entries owners)))))"

definition eligible_lineage_candidates :: "Ledger \<Rightarrow> string set \<Rightarrow> LineageCommitteeCandidate list" where
  "eligible_lineage_candidates lg skipped_owners =
     List.map_filter (\<lambda>(root, v).
       let weight = lineage_committee_weight v in
       if 0 < weight
       then Some \<lparr>lc_root = root, lc_value = v, lc_weight = weight, lc_owner = []\<rparr> else None)
       (filter (\<lambda>(root, v). 0 < v \<and>
          saturating_add (root_height root) (burn_lineage_maturity_heights (launch_profile lg))
            \<le> ledger_height lg \<and>
          \<not> (\<exists>owner\<in>skipped_owners. lineage_root_has_owner lg root owner))
          (bt_entries (ls_values (lineage lg))))"

section \<open>The committee\<close>

definition with_representative ::
  "Ledger \<Rightarrow> string set \<Rightarrow> string set \<Rightarrow> LineageCommitteeCandidate \<Rightarrow> LineageCommitteeCandidate option" where
  "with_representative lg skipped eligible c =
     map_option (\<lambda>owner. c\<lparr>lc_owner := owner\<rparr>)
       (representative_owner_for_lineage_root lg (lc_root c) skipped eligible)"

fun committee_loop ::
  "crypto \<Rightarrow> Ledger \<Rightarrow> u64 \<Rightarrow> string set \<Rightarrow> nat list \<Rightarrow> string set \<Rightarrow> LineageCommitteeCandidate list \<Rightarrow>
     BurnCommitteeMember list" where
  "committee_loop cr lg h eligible [] skipped remaining = []"
| "committee_loop cr lg h eligible (slot # slots) skipped remaining =
     (case select_weighted_lineage_index cr (tip lg) h (word_of_nat slot) remaining of
        None \<Rightarrow> []
      | Some index \<Rightarrow>
          (let selected = remaining ! index;
               skipped' = insert (lc_owner selected) skipped;
               remaining' = List.map_filter (\<lambda>c.
                 if lc_root c = lc_root selected then None
                 else with_representative lg skipped' eligible c) (list_remove index remaining) in
           \<lparr>cm_slot = word_of_nat slot, cm_root = outpoint_id (root_outpoint (lc_root selected)),
            cm_owner = lc_owner selected, cm_weight = lc_value selected\<rparr> #
           committee_loop cr lg h eligible slots skipped' remaining'))"

definition lineage_burn_committee_for_height ::
  "crypto \<Rightarrow> Ledger \<Rightarrow> u64 \<Rightarrow> BurnTicket list \<Rightarrow> u32 \<Rightarrow> BurnCommitteeMember list" where
  "lineage_burn_committee_for_height cr lg h ranked rank =
     (if length ranked \<le> unat rank then []
      else
        (let finalizer = ranked ! unat rank;
             eligible_ticket_owners = set (map tk_owner ranked);
             skipped_owners = insert (tk_owner finalizer) (set (map tk_owner (take (unat rank) ranked)));
             remaining = List.map_filter (with_representative lg skipped_owners eligible_ticket_owners)
               (eligible_lineage_candidates lg skipped_owners) in
         \<lparr>cm_slot = 0, cm_root = tk_id finalizer, cm_owner = tk_owner finalizer,
          cm_weight = tk_amount finalizer\<rparr> #
         committee_loop cr lg h eligible_ticket_owners [1..<BURN_COMMITTEE_SIZE] skipped_owners remaining))"

definition burn_committee_for_ticket_block :: "crypto \<Rightarrow> Ledger \<Rightarrow> u64 \<Rightarrow> u32 \<Rightarrow> BurnCommitteeMember list" where
  "burn_committee_for_ticket_block cr lg h rank =
     lineage_burn_committee_for_height cr lg h (ranked_tickets_for_height cr (tip lg) h (tickets lg)) rank"

definition burn_committee_for_next_ticket_block :: "crypto \<Rightarrow> Ledger \<Rightarrow> u32 \<Rightarrow> BurnCommitteeMember list" where
  "burn_committee_for_next_ticket_block cr lg rank =
     burn_committee_for_ticket_block cr lg (ledger_height lg + 1) rank"

definition burn_committee_for_block :: "crypto \<Rightarrow> Ledger \<Rightarrow> Block \<Rightarrow> BurnCommitteeMember list" where
  "burn_committee_for_block cr lg b =
     (case finalizer_mode b of
        TicketMode \<Rightarrow> burn_committee_for_ticket_block cr lg (height b) (finalizer_rank b)
      | RecoveryMode \<Rightarrow> [\<lparr>cm_slot = 0, cm_root = block_hash b, cm_owner = miner b, cm_weight = 0\<rparr>])"

section \<open>Properties\<close>

text \<open>The members of a committee sit in the slots 0 to 4 in order, and no owner sits twice.\<close>

definition committee_ok :: "BurnCommitteeMember list \<Rightarrow> bool" where
  "committee_ok ms \<longleftrightarrow>
     map cm_slot ms = map word_of_nat [0..<length ms] \<and> length ms \<le> BURN_COMMITTEE_SIZE \<and>
     distinct (map cm_owner ms)"

lemma max_by_member: "max_by le xs = Some x \<Longrightarrow> x \<in> set xs"
proof -
  have "foldl (\<lambda>best y. if le best y then y else best) y ys \<in> set (y # ys)" for y ys
    by (induction ys arbitrary: y) auto
  then show "max_by le xs = Some x \<Longrightarrow> x \<in> set xs" by (cases xs) fastforce+
qed

lemma representative_not_skipped:
  assumes "representative_owner_for_lineage_root lg root skipped eligible = Some owner"
  shows "owner \<notin> skipped \<and> owner \<in> eligible"
  using assms
  by (auto simp: representative_owner_for_lineage_root_def bind_eq_Some_conv List.map_filter_def
      dest!: max_by_member)

lemma with_representative_Some:
  "with_representative lg skipped eligible c = Some c' \<Longrightarrow>
     lc_owner c' \<notin> skipped \<and> lc_owner c' \<in> eligible \<and> lc_root c' = lc_root c"
  by (auto simp: with_representative_def dest!: representative_not_skipped)

lemma set_map_filter: "set (List.map_filter f xs) = {y. \<exists>x\<in>set xs. f x = Some y}"
  by (force simp: List.map_filter_def image_iff)

lemma pick_lineage_bound: "pick_lineage draw acc i cs = Some k \<Longrightarrow> i \<le> k \<and> k < i + length cs"
  by (induction draw acc i cs rule: pick_lineage.induct)
    (fastforce simp: bind_eq_Some_conv split: if_splits)+

lemma select_lineage_bound: "select_weighted_lineage_index cr parent h slot cs = Some k \<Longrightarrow> k < length cs"
  by (auto simp: select_weighted_lineage_index_def bind_eq_Some_conv Let_def
      dest!: pick_lineage_bound split: if_splits)

lemma committee_loop_ok:
  assumes "\<forall>c\<in>set remaining. lc_owner c \<notin> skipped \<and> lc_owner c \<in> eligible"
  shows "length (committee_loop cr lg h eligible slots skipped remaining) \<le> length slots \<and>
    map cm_slot (committee_loop cr lg h eligible slots skipped remaining) =
      map word_of_nat (take (length (committee_loop cr lg h eligible slots skipped remaining)) slots) \<and>
    distinct (map cm_owner (committee_loop cr lg h eligible slots skipped remaining)) \<and>
    set (map cm_owner (committee_loop cr lg h eligible slots skipped remaining)) \<subseteq> eligible - skipped"
  using assms
proof (induction slots arbitrary: skipped remaining)
  case (Cons slot slots)
  show ?case
  proof (cases "select_weighted_lineage_index cr (tip lg) h (word_of_nat slot) remaining")
    case (Some index)
    define selected where "selected = remaining ! index"
    define skipped' where "skipped' = insert (lc_owner selected) skipped"
    define remaining' where "remaining' = List.map_filter (\<lambda>c.
      if lc_root c = lc_root selected then None
      else with_representative lg skipped' eligible c) (list_remove index remaining)"
    have "selected \<in> set remaining"
      using select_lineage_bound [OF Some] by (simp add: selected_def)
    then have sel: "lc_owner selected \<notin> skipped" "lc_owner selected \<in> eligible" using Cons.prems by auto
    have rest: "\<forall>c\<in>set remaining'. lc_owner c \<notin> skipped' \<and> lc_owner c \<in> eligible"
      by (auto simp: remaining'_def set_map_filter dest!: with_representative_Some split: if_splits)
    have unfold: "committee_loop cr lg h eligible (slot # slots) skipped remaining =
        \<lparr>cm_slot = word_of_nat slot, cm_root = outpoint_id (root_outpoint (lc_root selected)),
         cm_owner = lc_owner selected, cm_weight = lc_value selected\<rparr> #
        committee_loop cr lg h eligible slots skipped' remaining'"
      unfolding remaining'_def skipped'_def selected_def by (simp add: Some Let_def)
    show ?thesis
      using Cons.IH [OF rest] sel unfolding unfold skipped'_def by auto
  qed simp
qed simp

lemma ticket_committee_ok: "committee_ok (burn_committee_for_ticket_block cr lg h rank)"
proof -
  define ranked where "ranked = ranked_tickets_for_height cr (tip lg) h (tickets lg)"
  show ?thesis
  proof (cases "length ranked \<le> unat rank")
    case True
    then show ?thesis
      by (simp add: burn_committee_for_ticket_block_def lineage_burn_committee_for_height_def
          ranked_def committee_ok_def)
  next
    case False
    define skipped where "skipped = insert (tk_owner (ranked ! unat rank)) (set (map tk_owner (take (unat rank) ranked)))"
    define remaining where "remaining = List.map_filter (with_representative lg skipped (set (map tk_owner ranked)))
               (eligible_lineage_candidates lg skipped)"
    let ?loop = "committee_loop cr lg h (set (map tk_owner ranked)) [1..<BURN_COMMITTEE_SIZE] skipped remaining"
    have "\<forall>c\<in>set remaining. lc_owner c \<notin> skipped \<and> lc_owner c \<in> set (map tk_owner ranked)"
      by (auto simp: remaining_def set_map_filter dest!: with_representative_Some)
    from committee_loop_ok [OF this, of cr lg h "[1..<BURN_COMMITTEE_SIZE]"]
    have loop: "length ?loop \<le> BURN_COMMITTEE_SIZE - 1"
      "map cm_slot ?loop = map word_of_nat (take (length ?loop) [1..<BURN_COMMITTEE_SIZE])"
      "distinct (map cm_owner ?loop)" "set (map cm_owner ?loop) \<inter> skipped = {}" by auto
    have eq: "burn_committee_for_ticket_block cr lg h rank =
        \<lparr>cm_slot = 0, cm_root = tk_id (ranked ! unat rank), cm_owner = tk_owner (ranked ! unat rank),
         cm_weight = tk_amount (ranked ! unat rank)\<rparr> # ?loop"
      using False by (simp add: burn_committee_for_ticket_block_def lineage_burn_committee_for_height_def
          ranked_def skipped_def remaining_def Let_def)
    have "take n [1..<BURN_COMMITTEE_SIZE] = [1..<1 + n]" if "n \<le> BURN_COMMITTEE_SIZE - 1" for n
      using that by (cases n) (auto simp: take_upt BURN_COMMITTEE_SIZE_def simp del: upt_Suc)
    then have "take (length ?loop) [1..<BURN_COMMITTEE_SIZE] = [1..<1 + length ?loop]"
      using loop(1) by blast
    then have "map cm_slot ?loop = map word_of_nat [1..<Suc (length ?loop)]" using loop(2) by simp
    moreover have "tk_owner (ranked ! unat rank) \<notin> set (map cm_owner ?loop)"
      using loop(4) by (auto simp: skipped_def)
    ultimately show ?thesis
      unfolding committee_ok_def eq using loop(1,3) by (simp add: upt_conv_Cons del: upt_Suc)
        (simp add: BURN_COMMITTEE_SIZE_def)
  qed
qed

lemma committee_for_block_ok: "committee_ok (burn_committee_for_block cr lg b)"
proof (cases "finalizer_mode b")
  case TicketMode
  then show ?thesis by (simp add: burn_committee_for_block_def ticket_committee_ok)
next
  case RecoveryMode
  then show ?thesis by (simp add: burn_committee_for_block_def committee_ok_def BURN_COMMITTEE_SIZE_def)
qed

end
