(* ===== verification/Ledger_Terms.thy ===== *)
theory Ledger_Terms
  imports Ledger_State
begin

text \<open>
  The rules a transaction has to satisfy against the chain, from \<open>domain/ledger_pending.rs\<close> and
  \<open>domain/ledger_v2.rs\<close>: field validation, mine anchors and difficulty, burn anchors for the next
  block and for the pending pool, and the signing domain of a pending transaction.
\<close>

definition validate_mine_recipient :: "crypto \<Rightarrow> Ledger \<Rightarrow> string \<Rightarrow> unit result" where
  "validate_mine_recipient cr lg recipient =
     (let next_height = saturating_add (ledger_height lg) 1 in
      if HYBRID_REWARD_ACTIVATION_HEIGHT \<le> next_height
      then
        and_then (decode_versioned_address cr recipient (ledger_network lg)) (\<lambda>a.
        if addr_version a \<noteq> HybridKeyCommitment
        then bail (''mine reward must use a hybrid address at height '' @ show_u64 next_height)
        else Inr ())
      else validate_address recipient ''mine recipient'')"

definition validate_mine_terms :: "Ledger \<Rightarrow> string \<Rightarrow> u32 \<Rightarrow> unit result" where
  "validate_mine_terms lg anchor bits =
     (case find (\<lambda>b. block_hash b = anchor) (chain lg) of
        None \<Rightarrow> reject MineAnchorNotOnChain
      | Some anchor_block \<Rightarrow>
          if MINE_MAX_ANCHOR_AGE_BLOCKS < saturating_sub (ledger_height lg) (height anchor_block)
          then bail ''mine transaction anchor is too old''
          else
            (let required_difficulty = mine_difficulty_bits_for_anchor_height lg (height anchor_block) in
             if bits \<noteq> required_difficulty
             then bail (''mine transaction difficulty is invalid: got '' @ show_u32 bits @ '', required '' @
               show_u32 required_difficulty @ '' at anchor height '' @ show_u64 (height anchor_block))
             else Inr ()))"

fun validate_transaction_terms :: "crypto \<Rightarrow> Ledger \<Rightarrow> Transaction \<Rightarrow> unit result" where
  "validate_transaction_terms cr lg (Transfer ins outs f sig) =
     (if f = 0 then bail ''transfer transaction fee must be greater than zero''
      else
        and_then (validate_transaction_inputs ins) (\<lambda>_.
        and_then (validate_transaction_outputs outs) (\<lambda>_.
        validate_signature sig ''transaction signature'')))"
| "validate_transaction_terms cr lg (Burn ins change a f anchor sig) =
     (if f = 0 then bail ''burn transaction fee must be greater than zero''
      else
        and_then (validate_transaction_inputs ins) (\<lambda>_.
        and_then (validate_transaction_outputs change) (\<lambda>_.
        and_then (case anchor of Some anc \<Rightarrow> validate_hash anc ''burn transaction anchor'' | None \<Rightarrow> Inr ()) (\<lambda>_.
        validate_signature sig ''transaction signature''))))"
| "validate_transaction_terms cr lg (Mine recipient anchor salt nonce bits header sig) =
     and_then (validate_mine_recipient cr lg recipient) (\<lambda>_.
     and_then (validate_hash anchor ''mine transaction anchor'') (\<lambda>_.
     and_then (validate_hash sig ''mine transaction proof hash'') (\<lambda>_.
     and_then (case header of Some h \<Rightarrow> validate_stratum_header h | None \<Rightarrow> Inr ()) (\<lambda>_.
     validate_mine_terms lg anchor bits))))"

section \<open>Burn anchors\<close>

definition validate_transaction_anchor_for_block :: "Ledger \<Rightarrow> Transaction \<Rightarrow> u64 \<Rightarrow> unit result" where
  "validate_transaction_anchor_for_block lg tx h =
     (if \<not> is_burn tx then Inr ()
      else if h < TIP_BOUND_BURN_ACTIVATION_HEIGHT
      then (if burn_anchor tx \<noteq> None then bail ''burn transaction anchor is not active yet'' else Inr ())
      else
        and_then (ok_or ''burn transaction is missing its chain anchor'' (burn_anchor tx)) (\<lambda>anchor.
        if anchor \<noteq> prev_hash (tip lg)
        then bail ''burn transaction anchor does not match the block grandparent'' else Inr ()))"

definition validate_transaction_anchor_for_pending :: "Ledger \<Rightarrow> Transaction \<Rightarrow> unit result" where
  "validate_transaction_anchor_for_pending lg tx =
     (if \<not> is_burn tx then Inr ()
      else
        (let next_height = saturating_add (ledger_height lg) 1;
             following_height = saturating_add (ledger_height lg) 2;
             anchor = burn_anchor tx in
         if next_height < TIP_BOUND_BURN_ACTIVATION_HEIGHT \<and> anchor = None then Inr ()
         else if TIP_BOUND_BURN_ACTIVATION_HEIGHT \<le> next_height \<and> anchor = Some (prev_hash (tip lg))
         then Inr ()
         else if TIP_BOUND_BURN_ACTIVATION_HEIGHT \<le> following_height \<and> anchor = Some (tip_hash lg)
         then Inr ()
         else reject BurnAnchorOutsidePendingWindow))"

definition transaction_is_eligible_for_next_block :: "Ledger \<Rightarrow> Transaction \<Rightarrow> bool" where
  "transaction_is_eligible_for_next_block lg tx =
     is_ok (validate_transaction_anchor_for_block lg tx (saturating_add (ledger_height lg) 1))"

definition transaction_signing_domain_for_pending :: "Ledger \<Rightarrow> Transaction \<Rightarrow> TransactionSigningDomain" where
  "transaction_signing_domain_for_pending lg tx =
     (let h = (if is_burn tx \<and> burn_anchor tx = Some (tip_hash lg) \<and>
                  TIP_BOUND_BURN_ACTIVATION_HEIGHT \<le> saturating_add (ledger_height lg) 2
               then saturating_add (ledger_height lg) 2 else saturating_add (ledger_height lg) 1) in
      transaction_signing_domain_at lg h)"

definition validate_transaction_v2_anchor_for_block :: "Ledger \<Rightarrow> TransactionV2 \<Rightarrow> u64 \<Rightarrow> unit result" where
  "validate_transaction_v2_anchor_for_block lg tx h =
     (if \<not> v2_is_burn tx then Inr ()
      else
        and_then (ok_or ''transaction v2 burn is missing its chain anchor'' (v2_burn_anchor tx)) (\<lambda>anchor.
        and_then (with_context ''block grandparent hash is invalid''
          (decode_hex_array 32 (prev_hash (tip lg)))) (\<lambda>expected.
        if TIP_BOUND_BURN_ACTIVATION_HEIGHT \<le> h \<and> anchor \<noteq> expected
        then bail ''transaction v2 burn anchor does not match the block grandparent'' else Inr ())))"

definition validate_transaction_v2_anchor_for_pending :: "Ledger \<Rightarrow> TransactionV2 \<Rightarrow> unit result" where
  "validate_transaction_v2_anchor_for_pending lg tx =
     (if \<not> v2_is_burn tx then Inr ()
      else
        and_then (ok_or ''transaction v2 burn is missing its chain anchor'' (v2_burn_anchor tx)) (\<lambda>anchor.
        and_then (with_context ''tip hash is invalid'' (decode_hex_array 32 (tip_hash lg))) (\<lambda>t.
        and_then (with_context ''tip parent hash is invalid''
          (decode_hex_array 32 (prev_hash (tip lg)))) (\<lambda>parent.
        if anchor \<noteq> t \<and> anchor \<noteq> parent then reject BurnAnchorOutsidePendingWindow else Inr ()))))"

definition transaction_v2_is_eligible_for_next_block :: "Ledger \<Rightarrow> TransactionV2 \<Rightarrow> bool" where
  "transaction_v2_is_eligible_for_next_block lg tx =
     is_ok (validate_transaction_v2_anchor_for_block lg tx (saturating_add (ledger_height lg) 1))"

section \<open>Properties\<close>

text \<open>
  A transaction that passes the field rules cannot use the exemption for genesis burns: its
  inputs and its own signature are real signatures. So it spends only with a signature of its
  sender.
\<close>

lemma terms_not_genesis_exempt:
  assumes "validate_transaction_terms cr lg tx = Inr ()" and "\<not> is_mine tx" and "inputs tx \<noteq> []"
  shows "\<not> (starts_with (tx_signature tx) ''iuna-genesis-burn:'' \<or> inputs_are_genesis_signed tx)"
proof -
  have sig: "validate_signature (tx_signature tx) ''transaction signature'' = Inr ()"
    and ins: "validate_transaction_inputs (inputs tx) = Inr ()"
    using assms(1,2) by (cases tx; auto simp: and_then_eq_Inr if_bail_eq_Inr)+
  obtain bs where hex: "decode_hex (tx_signature tx) = Inr bs" and len: "length bs = 64"
    using sig by (auto simp: validators_eq_Inr)
  have "\<not> starts_with (tx_signature tx) ''iuna-genesis-burn:''"
  proof
    assume "starts_with (tx_signature tx) ''iuna-genesis-burn:''"
    then obtain rest where "tx_signature tx = CHR ''i'' # CHR ''u'' # rest"
      by (cases "tx_signature tx"; cases "tl (tx_signature tx)") (auto simp: starts_with_def)
    then have "decode_hex_pairs (105 # 117 # as_bytes rest) = Inr bs"
      using hex by (auto simp: decode_hex_def as_bytes_def split: if_splits)
    then show False by (simp add: hex_value_def)
  qed
  moreover have "length (in_signature i) = 128" if "i \<in> set (inputs tx)" for i
    using ins that validate_signature_length
    by (fastforce simp: validate_transaction_inputs_def try_all_eq_Inr and_then_eq_Inr)
  then have "\<not> inputs_are_genesis_signed tx"
    using assms(3) by (fastforce simp: inputs_are_genesis_signed_def list_all_iff neq_Nil_conv)
  ultimately show ?thesis by blast
qed

text \<open>A burn that is eligible for the next block is in the window of the pending pool.\<close>

lemma block_anchor_is_pending:
  assumes "validate_transaction_anchor_for_block lg tx (saturating_add (ledger_height lg) 1) = Inr ()"
  shows "validate_transaction_anchor_for_pending lg tx = Inr ()"
  using assms
  by (auto simp: validate_transaction_anchor_for_block_def validate_transaction_anchor_for_pending_def
      Let_def and_then_eq_Inr ok_or_eq_Inr if_bail_eq_Inr split: if_splits)

end
