(* ===== verification/Ledger_Reveal.thy ===== *)
theory Ledger_Reveal
  imports Committee Ledger_Terms
begin

text \<open>
  Burn bundles against the ledger (\<open>domain/ledger_reveal.rs\<close>): the checks of the burn section of
  a block, of the bundles a finalizer collects for the next block, the number of explicit
  committee signatures a block needs, and when a block certifies its parent. The sizes of the
  JSON renderings are produced by a library; they are fields of the parameter \<open>host\<close>, together
  with the cryptographic primitives and the class group.
\<close>

unbundle bit_operations_syntax

record host =
  h_crypto :: crypto
  h_classgroup :: classgroup
  h_transaction_json_len :: "Transaction \<Rightarrow> nat result"
  h_bundle_json_len :: "BurnBundle \<Rightarrow> nat result"

section \<open>Reward addresses\<close>

definition validate_reward_address :: "crypto \<Rightarrow> Ledger \<Rightarrow> u64 \<Rightarrow> string option \<Rightarrow> string \<Rightarrow> unit result" where
  "validate_reward_address cr lg h address label =
     (if h < HYBRID_REWARD_ACTIVATION_HEIGHT
      then
        (if address \<noteq> None
         then bail (label @ '' hybrid reward address is not active before height '' @
           show_u64 HYBRID_REWARD_ACTIVATION_HEIGHT)
         else Inr ())
      else
        and_then (ok_or (label @ '' hybrid reward address is required'') address) (\<lambda>a.
        and_then (decode_versioned_address cr a (ledger_network lg)) (\<lambda>decoded.
        if addr_version decoded \<noteq> HybridKeyCommitment
        then bail (label @ '' reward address must use address v1'') else Inr ())))"

section \<open>Quorums\<close>

definition objective_finality_quorum :: "nat \<Rightarrow> nat" where
  "objective_finality_quorum committee_size =
     (if committee_size = 0 then 0 else committee_size * 2 div 3 + 1)"

definition required_explicit_burn_signatures :: "u64 \<Rightarrow> FinalizerMode \<Rightarrow> u32 \<Rightarrow> nat \<Rightarrow> nat" where
  "required_explicit_burn_signatures h mode rank committee_size =
     (if committee_size = 0 then 0
      else case mode of
        TicketMode \<Rightarrow>
          if rank = 0 \<and> OBJECTIVE_FINALITY_ACTIVATION_HEIGHT \<le> h
          then objective_finality_quorum committee_size - 1
          else if rank = 0 then min committee_size 3 - 1
          else if rank = 1 then min committee_size 2 - 1
          else 0
      | RecoveryMode \<Rightarrow> 0)"

definition block_certifies_parent :: "Block \<Rightarrow> nat \<Rightarrow> bool" where
  "block_certifies_parent b committee_size \<longleftrightarrow>
     OBJECTIVE_FINALITY_ACTIVATION_HEIGHT < height b \<and> finalizer_mode b = TicketMode \<and>
     finalizer_rank b = 0 \<and> 0 < committee_size \<and>
     objective_finality_quorum committee_size \<le> length (sec_signatures (burn_bundle_section b)) + 1"

definition matching_burn_by_signature :: "Transaction \<Rightarrow> Transaction list \<Rightarrow> Transaction option" where
  "matching_burn_by_signature attested txs =
     find (\<lambda>tx. is_burn tx \<and> tx_signature tx = tx_signature attested \<and> canonical tx = canonical attested) txs"

section \<open>Ordered loops\<close>

text \<open>The order of burns in a bundle: falling fees, then rising identifiers.\<close>

definition out_of_order :: "(Amount \<times> string) option \<Rightarrow> Amount \<times> string \<Rightarrow> bool" where
  "out_of_order previous key =
     (case previous of
        None \<Rightarrow> False
      | Some (previous_fee, previous_id) \<Rightarrow>
          previous_fee < fst key \<or> (fst key = previous_fee \<and> snd key < previous_id))"

definition committee_map :: "BurnCommitteeMember list \<Rightarrow> (u8, BurnCommitteeMember) btree_map" where
  "committee_map committee = bt_of_list (map (\<lambda>m. (cm_slot m, m)) committee)"

section \<open>The burn section of a block\<close>

definition section_signature_step ::
  "crypto \<Rightarrow> Ledger \<Rightarrow> u64 \<Rightarrow> (u8, BurnCommitteeMember) btree_map \<Rightarrow>
     u8 set \<times> string set \<times> u8 \<Rightarrow> BurnBundleSignature \<Rightarrow> (u8 set \<times> string set \<times> u8) result" where
  "section_signature_step cr lg h committee st sig = (case st of (slots, members, included_mask) \<Rightarrow>
     if BURN_COMMITTEE_SIZE \<le> unat (bs_slot sig) then bail ''burn bundle slot is invalid''
     else if bs_slot sig = 0 then bail ''finalizer burn attestation is implicit''
     else if bs_slot sig \<in> slots then bail ''duplicate burn bundle slot''
     else if bs_member sig \<in> members then bail ''duplicate burn bundle member''
     else
       and_then (ok_or ''burn bundle slot is not assigned'' (bt_get committee (bs_slot sig))) (\<lambda>member.
       if bs_member sig \<noteq> cm_owner member then bail ''burn bundle member is not assigned to slot''
       else
         and_then (validate_reward_address cr lg h (bs_reward_address sig) ''committee member'') (\<lambda>_.
         and_then (burn_bundle_slot_mask (bs_slot sig)) (\<lambda>m.
         Inr (insert (bs_slot sig) slots, insert (bs_member sig) members, included_mask OR m)))))"

definition section_burn_step ::
  "crypto \<Rightarrow> Ledger \<Rightarrow> Block \<Rightarrow> u8 \<Rightarrow> string set \<times> (Amount \<times> string) option \<Rightarrow> MaskedBurn \<Rightarrow>
     (string set \<times> (Amount \<times> string) option) result" where
  "section_burn_step cr lg b included_mask st masked = (case st of (seen, previous) \<Rightarrow>
     let burn = mb_burn masked; key = (fee burn, tx_signature burn) in
     if mb_mask masked AND NOT burn_committee_mask \<noteq> 0
     then bail ''masked burn references an invalid burn bundle slot''
     else if mb_mask masked AND NOT included_mask \<noteq> 0
     then bail ''masked burn references a missing burn bundle signature''
     else if tx_signature burn \<in> seen then bail ''duplicate burn in burn bundle section''
     else if \<not> is_burn burn then bail ''burn bundle section contains a non-burn transaction''
     else if matching_burn_by_signature burn (transactions b) = None
     then bail ''attested burn is not included in the block''
     else
       and_then (validate_transaction_terms cr lg burn) (\<lambda>_.
       if out_of_order previous key then bail ''burn bundle section is not fee ordered''
       else Inr (insert (tx_signature burn) seen, Some key)))"

definition section_burn_v2_step ::
  "crypto \<Rightarrow> Ledger \<Rightarrow> Block \<Rightarrow> TransactionV2Domain \<Rightarrow> u8 \<Rightarrow> string set \<Rightarrow> MaskedBurnV2 \<Rightarrow> string set result" where
  "section_burn_v2_step cr lg b d included_mask seen masked =
     (if mb2_mask masked AND NOT burn_committee_mask \<noteq> 0
      then bail ''masked transaction v2 burn references an invalid burn bundle slot''
      else if mb2_mask masked AND NOT included_mask \<noteq> 0
      then bail ''masked transaction v2 burn references a missing burn bundle signature''
      else
        and_then (decode_canonical_transaction_v2_envelope (mb2_envelope masked) d) (\<lambda>burn.
        if \<not> v2_is_burn burn then bail ''burn bundle section contains a non-burn transaction v2''
        else
          and_then (transaction_id cr burn d) (\<lambda>txid.
          let i = hex_encode txid in
          if i \<in> seen then bail ''duplicate transaction v2 burn in burn bundle section''
          else if mb2_envelope masked \<notin> set (transactions_v2 b)
          then bail ''attested transaction v2 burn is not included in the block''
          else
            and_then (validate_transaction_v2_anchor_for_block lg burn (height b)) (\<lambda>_.
            Inr (insert i seen)))))"

definition check_expanded_bundle :: "host \<Rightarrow> BurnBundle \<Rightarrow> unit result" where
  "check_expanded_bundle hs bundle =
     and_then (h_bundle_json_len hs bundle) (\<lambda>size.
     if MAX_BURN_BUNDLE_BYTES < size then bail ''burn bundle exceeds max size''
     else
       verify_address_signature (h_crypto hs) (bb_member bundle) (bundle_canonical_payload bundle)
         (bb_signature bundle) ''burn bundle'')"

definition slots_rise :: "u8 list \<Rightarrow> bool" where
  "slots_rise slots = list_all (\<lambda>(s, t). s < t) (zip slots (tl slots))"

definition validate_burn_bundle_section_for_block :: "host \<Rightarrow> Ledger \<Rightarrow> Block \<Rightarrow> unit result" where
  "validate_burn_bundle_section_for_block hs lg b =
     (let cr = h_crypto hs; sec = burn_bundle_section b; sigs = sec_signatures sec in
      if BURN_COMMITTEE_SIZE - 1 < length sigs then bail ''block has too many burn bundle signatures''
      else if \<not> slots_rise (map bs_slot sigs) then bail ''burn bundle signatures are not in slot order''
      else
        (let committee = committee_map (burn_committee_for_block cr lg b) in
         and_then (try_fold (section_signature_step cr lg (height b) committee) ({}, {}, 0) sigs)
           (\<lambda>(slots, members, included_mask).
         let required = required_explicit_burn_signatures (height b) (finalizer_mode b)
               (finalizer_rank b) (length (bt_entries committee)) in
         if length sigs < required
         then bail (''block has too few burn bundle signatures: got '' @ dec (length sigs) @
           '', need '' @ dec required)
         else
           and_then (try_fold (section_burn_step cr lg b included_mask) ({}, None) (sec_burns sec)) (\<lambda>_.
           and_then (transaction_v2_domain lg) (\<lambda>d.
           and_then (try_fold (section_burn_v2_step cr lg b d included_mask) {} (sec_burns_v2 sec)) (\<lambda>_.
           try_all (check_expanded_bundle hs) (section_expand sec (height b) (prev_hash b))))))))"

section \<open>Bundles for the next block\<close>

definition bundle_burn_step ::
  "crypto \<Rightarrow> Ledger \<Rightarrow> u64 \<Rightarrow> string set \<times> (Amount \<times> string) option \<Rightarrow> Transaction \<Rightarrow>
     (string set \<times> (Amount \<times> string) option) result" where
  "bundle_burn_step cr lg h st burn = (case st of (seen, previous) \<Rightarrow>
     let key = (fee burn, tx_signature burn) in
     if tx_signature burn \<in> seen then bail ''duplicate burn in burn bundle''
     else if \<not> is_burn burn then bail ''burn bundle contains a non-burn transaction''
     else
       and_then (validate_transaction_terms cr lg burn) (\<lambda>_.
       and_then (validate_transaction_anchor_for_block lg burn h) (\<lambda>_.
       if out_of_order previous key then bail ''burn bundle is not fee ordered''
       else Inr (insert (tx_signature burn) seen, Some key))))"

definition bundle_burn_v2_step ::
  "crypto \<Rightarrow> Ledger \<Rightarrow> u64 \<Rightarrow> TransactionV2Domain \<Rightarrow> string set \<times> (Amount \<times> string) option \<Rightarrow> string \<Rightarrow>
     (string set \<times> (Amount \<times> string) option) result" where
  "bundle_burn_v2_step cr lg h d st envelope = (case st of (seen, previous) \<Rightarrow>
     and_then (decode_canonical_transaction_v2_envelope envelope d) (\<lambda>burn.
     if \<not> v2_is_burn burn then bail ''burn bundle contains a non-burn transaction v2''
     else
       and_then (transaction_id cr burn d) (\<lambda>txid.
       let i = hex_encode txid; key = (v2_fee burn, i) in
       if i \<in> seen then bail ''duplicate transaction v2 burn in burn bundle''
       else
         and_then (validate_transaction_v2_anchor_for_block lg burn h) (\<lambda>_.
         if out_of_order previous key then bail ''transaction v2 burn bundle is not fee ordered''
         else Inr (insert i seen, Some key)))))"

definition precheck_burn_bundle_for_block ::
  "host \<Rightarrow> Ledger \<Rightarrow> u64 \<Rightarrow> string \<Rightarrow> (u8, BurnCommitteeMember) btree_map \<Rightarrow> BurnBundle \<Rightarrow> unit result" where
  "precheck_burn_bundle_for_block hs lg expected_height expected_prev_hash committee bundle =
     (let cr = h_crypto hs in
      if bb_height bundle \<noteq> expected_height then bail ''burn bundle height is invalid''
      else if bb_prev_hash bundle \<noteq> expected_prev_hash then reject BurnBundleParentMismatch
      else if BURN_COMMITTEE_SIZE \<le> unat (bb_slot bundle) then bail ''burn bundle slot is invalid''
      else
        and_then (ok_or ''burn bundle slot is not assigned'' (bt_get committee (bb_slot bundle))) (\<lambda>member.
        if bb_member bundle \<noteq> cm_owner member then bail ''burn bundle member is not assigned to slot''
        else
          and_then (validate_reward_address cr lg expected_height (bb_reward_address bundle)
            ''committee member'') (\<lambda>_.
          and_then (check_expanded_bundle hs bundle) (\<lambda>_.
          and_then (try_fold (bundle_burn_step cr lg expected_height) ({}, None) (bb_burns bundle)) (\<lambda>_.
          and_then (transaction_v2_domain lg) (\<lambda>d.
          and_then (try_fold (bundle_burn_v2_step cr lg expected_height d) ({}, None)
            (bb_burns_v2 bundle)) (\<lambda>_. Inr ())))))))"

definition bundle_burn_is_pending :: "Ledger \<Rightarrow> Transaction \<Rightarrow> unit result" where
  "bundle_burn_is_pending lg burn =
     (if matching_burn_by_signature burn (pending lg) = None
      then bail ''burn bundle references a burn that is not in the mempool'' else Inr ())"

definition bundle_burn_v2_is_pending ::
  "crypto \<Rightarrow> Ledger \<Rightarrow> TransactionV2Domain \<Rightarrow> string \<Rightarrow> unit result" where
  "bundle_burn_v2_is_pending cr lg d envelope =
     and_then (decode_canonical_transaction_v2_envelope envelope d) (\<lambda>burn.
     and_then (transaction_id cr burn d) (\<lambda>txid.
     if list_ex (\<lambda>p. ok (transaction_id cr p d) = Some txid) (pending_v2 lg) then Inr ()
     else bail ''burn bundle references a transaction v2 burn that is not in the mempool''))"

definition collect_bundle_step ::
  "host \<Rightarrow> Ledger \<Rightarrow> u64 \<Rightarrow> string \<Rightarrow> (u8, BurnCommitteeMember) btree_map \<Rightarrow> TransactionV2Domain \<Rightarrow>
     string set \<Rightarrow> BurnBundle \<Rightarrow> string set result" where
  "collect_bundle_step hs lg h prev committee d members bundle =
     (if bb_member bundle \<in> members then bail ''duplicate burn bundle member''
      else
        and_then (precheck_burn_bundle_for_block hs lg h prev committee bundle) (\<lambda>_.
        and_then (try_all (bundle_burn_is_pending lg) (bb_burns bundle)) (\<lambda>_.
        and_then (try_all (bundle_burn_v2_is_pending (h_crypto hs) lg d) (bb_burns_v2 bundle)) (\<lambda>_.
        Inr (insert (bb_member bundle) members)))))"

definition validate_burn_bundles_for_committee ::
  "host \<Rightarrow> Ledger \<Rightarrow> u64 \<Rightarrow> string \<Rightarrow> (u8, BurnCommitteeMember) btree_map \<Rightarrow> BurnBundle list \<Rightarrow>
     BurnBundle list result" where
  "validate_burn_bundles_for_committee hs lg h prev committee bundles =
     (if BURN_COMMITTEE_SIZE < length bundles then bail ''block has too many burn bundles''
      else
        (let ordered = sort_key bb_slot bundles in
         if list_ex (\<lambda>(s, t). s = t) (zip (map bb_slot ordered) (tl (map bb_slot ordered)))
         then bail ''duplicate burn bundle slot''
         else
           and_then (transaction_v2_domain lg) (\<lambda>d.
           and_then (try_fold (collect_bundle_step hs lg h prev committee d) {} ordered) (\<lambda>_.
           Inr ordered))))"

text \<open>The loops over the ranks keep the first success, or else the first error.\<close>

fun first_success :: "error \<Rightarrow> ('a \<Rightarrow> 'b result) \<Rightarrow> 'a list \<Rightarrow> 'b result" where
  "first_success none f [] = Inl none"
| "first_success none f (x # xs) =
     (case f x of
        Inr y \<Rightarrow> Inr y
      | Inl e \<Rightarrow> (case first_success none f xs of Inr y \<Rightarrow> Inr y | Inl _ \<Rightarrow> Inl e))"

definition next_rank_committees :: "crypto \<Rightarrow> Ledger \<Rightarrow> (u8, BurnCommitteeMember) btree_map list" where
  "next_rank_committees cr lg =
     map (\<lambda>rank. committee_map (burn_committee_for_next_ticket_block cr lg (word_of_nat rank)))
       [0..<min (finalizer_rank_count_for_next_block cr lg) BURN_COMMITTEE_SIZE]"

definition validate_burn_bundles_for_any_next_ticket_block ::
  "host \<Rightarrow> Ledger \<Rightarrow> u64 \<Rightarrow> string \<Rightarrow> BurnBundle list \<Rightarrow> BurnBundle list result" where
  "validate_burn_bundles_for_any_next_ticket_block hs lg h prev bundles =
     first_success (Message ''no ticket committee is available'')
       (\<lambda>committee. validate_burn_bundles_for_committee hs lg h prev committee bundles)
       (next_rank_committees (h_crypto hs) lg)"

definition validate_next_block_burn_bundles :: "host \<Rightarrow> Ledger \<Rightarrow> BurnBundle list \<Rightarrow> BurnBundle list result" where
  "validate_next_block_burn_bundles hs lg bundles =
     validate_burn_bundles_for_any_next_ticket_block hs lg (height (tip lg) + 1) (tip_hash lg) bundles"

definition precheck_next_block_burn_bundle :: "host \<Rightarrow> Ledger \<Rightarrow> BurnBundle \<Rightarrow> unit result" where
  "precheck_next_block_burn_bundle hs lg bundle =
     first_success (Message ''burn bundle slot is not assigned'')
       (\<lambda>committee. precheck_burn_bundle_for_block hs lg (height (tip lg) + 1) (tip_hash lg) committee bundle)
       (next_rank_committees (h_crypto hs) lg)"

definition validate_next_block_burn_bundles_for_finalizer_rank ::
  "host \<Rightarrow> Ledger \<Rightarrow> u32 \<Rightarrow> BurnBundle list \<Rightarrow> BurnBundle list result" where
  "validate_next_block_burn_bundles_for_finalizer_rank hs lg rank bundles =
     (let h = height (tip lg) + 1;
          committee = committee_map (burn_committee_for_next_ticket_block (h_crypto hs) lg rank) in
      and_then (validate_burn_bundles_for_committee hs lg h (tip_hash lg) committee bundles) (\<lambda>validated.
      let required = required_explicit_burn_signatures h TicketMode rank (length (bt_entries committee));
          explicit = length (filter (\<lambda>bundle. bb_slot bundle \<noteq> 0) validated) in
      if explicit < required
      then bail (''not enough burn bundle signatures collected: got '' @ dec explicit @ '', need '' @
        dec required)
      else Inr validated))"

section \<open>Assembling the burn section\<close>

definition merge_burn ::
  "u8 \<Rightarrow> (string, MaskedBurn) btree_map \<Rightarrow> Transaction \<Rightarrow> (string, MaskedBurn) btree_map" where
  "merge_burn slot_mask by_signature burn =
     (case bt_get by_signature (tx_signature burn) of
        Some masked \<Rightarrow> bt_insert (tx_signature burn) (masked\<lparr>mb_mask := mb_mask masked OR slot_mask\<rparr>) by_signature
      | None \<Rightarrow> bt_insert (tx_signature burn) \<lparr>mb_burn = burn, mb_mask = slot_mask\<rparr> by_signature)"

definition merge_burn_v2 ::
  "u8 \<Rightarrow> (string, MaskedBurnV2) btree_map \<Rightarrow> string \<Rightarrow> (string, MaskedBurnV2) btree_map" where
  "merge_burn_v2 slot_mask by_id envelope =
     (case bt_get by_id envelope of
        Some masked \<Rightarrow> bt_insert envelope (masked\<lparr>mb2_mask := mb2_mask masked OR slot_mask\<rparr>) by_id
      | None \<Rightarrow> bt_insert envelope \<lparr>mb2_envelope = envelope, mb2_mask = slot_mask\<rparr> by_id)"

definition bundle_mask :: "BurnBundle \<Rightarrow> u8" where
  "bundle_mask bundle = (if bb_slot bundle = 0 then 0 else slot_mask_or_zero (bb_slot bundle))"

text \<open>Falling fees, then rising identifiers: the complement of a fee falls when the fee rises.\<close>

definition burn_order :: "Amount \<Rightarrow> string \<Rightarrow> Amount \<times> string" where
  "burn_order f i = (NOT f, i)"

definition burn_bundle_section_from_bundles :: "crypto \<Rightarrow> Ledger \<Rightarrow> BurnBundle list \<Rightarrow> BurnBundleSection result" where
  "burn_bundle_section_from_bundles cr lg bundles =
     (let sigs = map (\<lambda>b. \<lparr>bs_slot = bb_slot b, bs_member = bb_member b,
                           bs_reward_address = bb_reward_address b, bs_signature = bb_signature b\<rparr>)
                   (filter (\<lambda>b. bb_slot b \<noteq> 0) bundles);
          by_signature = foldl (\<lambda>acc b. foldl (merge_burn (bundle_mask b)) acc (bb_burns b)) bt_empty bundles;
          by_id = foldl (\<lambda>acc b. foldl (merge_burn_v2 (bundle_mask b)) acc (bb_burns_v2 b)) bt_empty bundles in
      and_then (transaction_v2_domain lg) (\<lambda>d.
      and_then (try_map (\<lambda>masked.
        and_then (decode_canonical_transaction_v2_envelope (mb2_envelope masked) d) (\<lambda>burn.
        and_then (transaction_id cr burn d) (\<lambda>txid.
        Inr (burn_order (v2_fee burn) (hex_encode txid), masked)))) (bt_values by_id)) (\<lambda>burns_v2.
      Inr \<lparr>sec_signatures = sigs,
           sec_burns = sort_key (\<lambda>m. burn_order (fee (mb_burn m)) (tx_signature (mb_burn m)))
             (bt_values by_signature),
           sec_burns_v2 = map snd (sort_key fst burns_v2)\<rparr>)))"

section \<open>Properties\<close>

lemma bt_of_list_get: "bt_get (bt_of_list es) k = map_of (rev es) k"
proof -
  have "bt_get (foldl (\<lambda>m e. bt_insert (fst e) (snd e) m) m es) = bt_get m ++ map_of (rev es)" for m
    by (induction es arbitrary: m) (auto simp: fun_eq_iff map_add_def split: option.splits)
  then show ?thesis by (simp add: bt_of_list_def map_add_def split: option.splits)
qed

lemma committee_map_member:
  assumes "bt_get (committee_map ms) slot = Some m"
  shows "m \<in> set ms \<and> cm_slot m = slot"
  using map_of_SomeD [OF assms [unfolded committee_map_def bt_of_list_get]] by auto

text \<open>Two quorums of one committee share more than a third of its members.\<close>

lemma quorum_le: "0 < n \<Longrightarrow> objective_finality_quorum n \<le> n"
  by (simp add: objective_finality_quorum_def)

lemma quorum_overlap:
  assumes "finite C" "A \<subseteq> C" "B \<subseteq> C"
    and "objective_finality_quorum (card C) \<le> card A" "objective_finality_quorum (card C) \<le> card B"
    and "C \<noteq> {}"
  shows "card C < 3 * card (A \<inter> B)"
proof -
  have fin: "finite A" "finite B" using assms finite_subset by auto
  have pos: "0 < card C" using assms(1,6) by (simp add: card_gt_0_iff)
  have "card A + card B = card (A \<union> B) + card (A \<inter> B)"
    using card_Un_Int [OF fin] .
  moreover have "card (A \<union> B) \<le> card C" using assms(1-3) by (simp add: card_mono)
  moreover have "card C * 2 div 3 + 1 \<le> card A" "card C * 2 div 3 + 1 \<le> card B"
    using assms(4,5) pos by (simp_all add: objective_finality_quorum_def)
  ultimately show ?thesis by linarith
qed

lemma section_signature_fold:
  assumes "try_fold (section_signature_step cr lg h committee) (slots, members, k) sigs = Inr (slots', members', k')"
  shows "distinct (map bs_slot sigs) \<and> distinct (map bs_member sigs) \<and>
    bs_slot ` set sigs \<inter> slots = {} \<and> bs_member ` set sigs \<inter> members = {} \<and>
    (\<forall>s\<in>set sigs. bs_slot s \<noteq> 0 \<and>
       (\<exists>m. bt_get committee (bs_slot s) = Some m \<and> cm_owner m = bs_member s))"
  using assms
proof (induction sigs arbitrary: slots members k)
  case (Cons s sigs)
  obtain st where step: "section_signature_step cr lg h committee (slots, members, k) s = Inr st"
    and rest: "try_fold (section_signature_step cr lg h committee) st sigs = Inr (slots', members', k')"
    using Cons.prems by (auto simp: and_then_eq_Inr)
  obtain k1 where st: "st = (insert (bs_slot s) slots, insert (bs_member s) members, k1)"
    and here: "bs_slot s \<noteq> 0" "bs_slot s \<notin> slots" "bs_member s \<notin> members"
      "\<exists>m. bt_get committee (bs_slot s) = Some m \<and> cm_owner m = bs_member s"
    using step
    by (auto simp: section_signature_step_def and_then_eq_Inr ok_or_eq_Inr if_bail_eq_Inr split: if_splits)
  show ?case using Cons.IH [OF rest [unfolded st]] here by auto
qed simp

text \<open>
  What an accepted burn section guarantees: its signers are distinct members of the committee,
  each in its slot, none of them in the finalizer's, there are enough of them, and each one's
  signature verifies on the bundle rebuilt from the section.
\<close>

lemma section_accepted:
  assumes "validate_burn_bundle_section_for_block hs lg b = Inr ()"
  defines "sigs \<equiv> sec_signatures (burn_bundle_section b)"
    and "committee \<equiv> burn_committee_for_block (h_crypto hs) lg b"
  shows "distinct (map bs_slot sigs)" and "distinct (map bs_member sigs)"
    and "\<And>s. s \<in> set sigs \<Longrightarrow>
      bs_slot s \<noteq> 0 \<and> (\<exists>m\<in>set committee. cm_slot m = bs_slot s \<and> cm_owner m = bs_member s)"
    and "\<And>bun. bun \<in> set (section_expand (burn_bundle_section b) (height b) (prev_hash b)) \<Longrightarrow>
      verify_address_signature (h_crypto hs) (bb_member bun) (bundle_canonical_payload bun)
        (bb_signature bun) ''burn bundle'' = Inr ()"
    and "required_explicit_burn_signatures (height b) (finalizer_mode b) (finalizer_rank b)
      (length (bt_entries (committee_map committee))) \<le> length sigs"
proof -
  obtain slots members k
    where fold: "try_fold (section_signature_step (h_crypto hs) lg (height b) (committee_map committee))
        ({}, {}, 0) sigs = Inr (slots, members, k)"
      and enough: "\<not> length sigs < required_explicit_burn_signatures (height b) (finalizer_mode b)
        (finalizer_rank b) (length (bt_entries (committee_map committee)))"
      and bundles: "try_all (check_expanded_bundle hs)
        (section_expand (burn_bundle_section b) (height b) (prev_hash b)) = Inr ()"
    using assms(1) unfolding validate_burn_bundle_section_for_block_def Let_def sigs_def committee_def
    by (auto simp: and_then_eq_Inr if_bail_eq_Inr split: if_splits)
  note facts = section_signature_fold [OF fold]
  show "distinct (map bs_slot sigs)" "distinct (map bs_member sigs)" using facts by auto
  show "bs_slot s \<noteq> 0 \<and> (\<exists>m\<in>set committee. cm_slot m = bs_slot s \<and> cm_owner m = bs_member s)"
    if "s \<in> set sigs" for s
    using facts that committee_map_member by blast
  show "verify_address_signature (h_crypto hs) (bb_member bun) (bundle_canonical_payload bun)
      (bb_signature bun) ''burn bundle'' = Inr ()"
    if "bun \<in> set (section_expand (burn_bundle_section b) (height b) (prev_hash b))" for bun
    using bundles that
    by (auto simp: try_all_eq_Inr check_expanded_bundle_def and_then_eq_Inr if_bail_eq_Inr)
  show "required_explicit_burn_signatures (height b) (finalizer_mode b) (finalizer_rank b)
      (length (bt_entries (committee_map committee))) \<le> length sigs"
    using enough by simp
qed

text \<open>Every attested burn of an accepted section is in the block.\<close>

lemma section_burns_included:
  assumes "validate_burn_bundle_section_for_block hs lg b = Inr ()"
    and "masked \<in> set (sec_burns (burn_bundle_section b))"
  shows "\<exists>tx\<in>set (transactions b). is_burn tx \<and> tx_signature tx = tx_signature (mb_burn masked) \<and>
    canonical tx = canonical (mb_burn masked)"
proof -
  obtain k st
    where fold: "try_fold (section_burn_step (h_crypto hs) lg b k) ({}, None)
      (sec_burns (burn_bundle_section b)) = Inr st"
    using assms(1) unfolding validate_burn_bundle_section_for_block_def Let_def
    by (auto simp: and_then_eq_Inr if_bail_eq_Inr split: if_splits)
  have "\<forall>masked\<in>set burns. matching_burn_by_signature (mb_burn masked) (transactions b) \<noteq> None"
    if "try_fold (section_burn_step (h_crypto hs) lg b k) s burns = Inr st" for burns s
    using that
    by (induction burns arbitrary: s)
      (auto simp: and_then_eq_Inr section_burn_step_def Let_def if_bail_eq_Inr split: if_splits)
  then show ?thesis
    using fold assms(2) unfolding matching_burn_by_signature_def
    by (fastforce simp: find_None_iff)
qed

end
