(* ===== verification/Ledger_Pending.thy ===== *)
theory Ledger_Pending
  imports Ledger_Reveal
begin

text \<open>
  The pending pool seen from the confirmed state (\<open>domain/ledger_pending.rs\<close>,
  \<open>domain/ledger_v2.rs\<close>): which pending transactions still apply and in which order, the unspent
  outputs after them, the admission of a new transaction, and the promotion of orphans. An
  operation that mutates its argument returns the new state beside its result, because the
  mutation stays visible when the call fails.
\<close>

section \<open>Results with state\<close>

definition st_then :: "'a result \<times> 's \<Rightarrow> ('a \<Rightarrow> 's \<Rightarrow> 'b result \<times> 's) \<Rightarrow> 'b result \<times> 's" where
  "st_then r f = (case r of (Inl e, s) \<Rightarrow> (Inl e, s) | (Inr x, s) \<Rightarrow> f x s)"

definition st_check :: "'a result \<Rightarrow> 's \<Rightarrow> ('a \<Rightarrow> 'b result \<times> 's) \<Rightarrow> 'b result \<times> 's" where
  "st_check r s f = (case r of Inl e \<Rightarrow> (Inl e, s) | Inr x \<Rightarrow> f x)"

lemma st_then_simps [simp]:
  "st_then (Inl e, s) f = (Inl e, s)"
  "st_then (Inr x, s) f = f x s"
  by (simp_all add: st_then_def)

lemma st_check_simps [simp]:
  "st_check (Inl e) s f = (Inl e, s)"
  "st_check (Inr x) s f = f x"
  by (simp_all add: st_check_def)

lemma st_check_eq: "st_check r s f = (q, s') \<longleftrightarrow>
    (\<exists>e. r = Inl e \<and> q = Inl e \<and> s' = s) \<or> (\<exists>x. r = Inr x \<and> f x = (q, s'))"
  by (cases r) auto

lemma st_then_eq: "st_then r f = (q, s') \<longleftrightarrow>
    (\<exists>e. r = (Inl e, s') \<and> q = Inl e) \<or> (\<exists>x s. r = (Inr x, s) \<and> f x s = (q, s'))"
  by (cases r; cases "fst r") (auto simp: st_then_def)

lemma st_check_pred:
  assumes "\<And>e. P (Inl e, s)" and "\<And>x. r = Inr x \<Longrightarrow> P (f x)"
  shows "P (st_check r s f)"
  using assms by (cases r) auto

lemma if_pred: "(b \<Longrightarrow> P x) \<Longrightarrow> (\<not> b \<Longrightarrow> P y) \<Longrightarrow> P (if b then x else y)"
  by simp

section \<open>Applying a transaction in place\<close>

text \<open>
  The input loop removes an output before it checks its owner, so that a failing transaction
  leaves the outputs it has already taken out of the map.
\<close>

fun spend_in_place ::
  "OutPoint set \<Rightarrow> Amount \<Rightarrow> TxInput list \<Rightarrow> utxos \<Rightarrow> Amount result \<times> utxos" where
  "spend_in_place seen running [] m = (Inr running, m)"
| "spend_in_place seen running (i # is) m =
     (if in_outpoint i \<in> seen then (bail ''duplicate input in transaction'', m)
      else case bt_get m (in_outpoint i) of
        None \<Rightarrow> (bail (''transaction spends missing output '' @ outpoint_id (in_outpoint i)), m)
      | Some output \<Rightarrow>
          (let m' = bt_remove (in_outpoint i) m in
           if out_address output \<noteq> in_owner i
           then (bail ''transaction input owner does not match spent output'', m')
           else case checked_add running (out_amount output) of
             None \<Rightarrow> (bail ''transaction input total overflows'', m')
           | Some running' \<Rightarrow> spend_in_place (insert (in_outpoint i) seen) running' is m'))"

fun apply_spend_in_place :: "Transaction \<Rightarrow> utxos \<Rightarrow> unit result \<times> utxos" where
  "apply_spend_in_place (Mine recipient anchor salt nonce bits header sig) m =
     (let output = \<lparr>out_address = recipient, out_amount = MINE_REWARD\<rparr> in
      st_check (ensure_outputs_do_not_overflow m [output]) m (\<lambda>_.
      (Inr (), bt_insert (OutPoint sig 0) output m)))"
| "apply_spend_in_place tx m =
     st_check (ensure_single_input_owner tx) m (\<lambda>_.
     st_then (spend_in_place {} 0 (inputs tx) m) (\<lambda>input_total m'.
     st_check (required_total tx) m' (\<lambda>required.
     if input_total \<noteq> required
     then (bail ''transaction inputs do not balance outputs, burn, and fee'', m')
     else
       st_check (ensure_outputs_do_not_overflow m' (outputs tx)) m' (\<lambda>_.
       (Inr (), insert_entries (output_entries tx) m')))))"

definition apply_transaction_in_place ::
  "crypto \<Rightarrow> Transaction \<Rightarrow> utxos \<Rightarrow> TransactionSigningDomain \<Rightarrow> unit result \<times> utxos" where
  "apply_transaction_in_place cr tx m d =
     st_check (verify_signature cr tx d) m (\<lambda>_. apply_spend_in_place tx m)"

section \<open>The applicable part of the pool\<close>

definition mine_anchor_is_full :: "Ledger \<Rightarrow> (string, nat) btree_map \<Rightarrow> Transaction \<Rightarrow> bool" where
  "mine_anchor_is_full lg selected tx =
     (case mine_anchor tx of
        None \<Rightarrow> False
      | Some anchor \<Rightarrow>
          MINE_ACTIONS_PER_ANCHOR_LIMIT \<le>
            mine_anchor_count_before_height (chain lg) anchor (ledger_height lg) +
            (case bt_get selected anchor of Some n \<Rightarrow> n | None \<Rightarrow> 0))"

definition count_mine_anchor :: "(string, nat) btree_map \<Rightarrow> Transaction \<Rightarrow> (string, nat) btree_map" where
  "count_mine_anchor selected tx =
     (case mine_anchor tx of
        None \<Rightarrow> selected
      | Some anchor \<Rightarrow>
          bt_insert anchor (case bt_get selected anchor of Some n \<Rightarrow> n + 1 | None \<Rightarrow> 1) selected)"

text \<open>The conjunction that admits a transaction; a later conjunct runs only when the earlier hold.\<close>

definition try_pending :: "crypto \<Rightarrow> Ledger \<Rightarrow> Transaction \<Rightarrow> utxos \<Rightarrow> bool \<times> utxos" where
  "try_pending cr lg tx m =
     (if transaction_inputs_available tx m \<and> is_ok (validate_transaction_terms cr lg tx) \<and>
         is_ok (validate_transaction_anchor_for_pending lg tx)
      then
        (case apply_transaction_in_place cr tx m (transaction_signing_domain_for_pending lg tx) of
           (r, m') \<Rightarrow> (is_ok r, m'))
      else (False, m))"

text \<open>One pass: the transactions that applied, those left over, and the state after them.\<close>

fun pending_pass ::
  "crypto \<Rightarrow> Ledger \<Rightarrow> Transaction list \<Rightarrow> utxos \<Rightarrow> (string, nat) btree_map \<Rightarrow>
     Transaction list \<times> Transaction list \<times> utxos \<times> (string, nat) btree_map" where
  "pending_pass cr lg [] m selected = ([], [], m, selected)"
| "pending_pass cr lg (tx # txs) m selected =
     (if mine_anchor_is_full lg selected tx then pending_pass cr lg txs m selected
      else case try_pending cr lg tx m of
        (True, m') \<Rightarrow>
          (case pending_pass cr lg txs m' (count_mine_anchor selected tx) of
             (valid, left, rest) \<Rightarrow> (tx # valid, left, rest))
      | (False, m') \<Rightarrow>
          (case pending_pass cr lg txs m' selected of
             (valid, left, rest) \<Rightarrow> (valid, tx # left, rest)))"

lemma pending_pass_length:
  "pending_pass cr lg txs m selected = (valid, left, rest) \<Longrightarrow> length valid + length left \<le> length txs"
  by (induction txs arbitrary: m selected valid left rest)
    (fastforce split: if_splits prod.splits bool.splits)+

function pending_rounds ::
  "crypto \<Rightarrow> Ledger \<Rightarrow> Transaction list \<Rightarrow> utxos \<Rightarrow> (string, nat) btree_map \<Rightarrow> Transaction list" where
  "pending_rounds cr lg remaining m selected =
     (case pending_pass cr lg remaining m selected of
        (valid, left, m', selected') \<Rightarrow>
          if remaining = [] \<or> valid = [] then []
          else valid @ pending_rounds cr lg left m' selected')"
  by pat_completeness auto
termination
  by (relation "measure (\<lambda>(cr, lg, remaining, m, selected). length remaining)")
    (auto dest!: sym [THEN pending_pass_length] simp flip: length_greater_0_conv)

declare pending_rounds.simps [simp del]

definition valid_pending_transactions :: "crypto \<Rightarrow> Ledger \<Rightarrow> Transaction list" where
  "valid_pending_transactions cr lg = pending_rounds cr lg (pending lg) (ledger_utxos lg) bt_empty"

definition utxos_after_valid_pending :: "crypto \<Rightarrow> Ledger \<Rightarrow> utxos result" where
  "utxos_after_valid_pending cr lg =
     try_fold (\<lambda>m tx. apply_transaction cr tx m (transaction_signing_domain_for_pending lg tx))
       (ledger_utxos lg) (valid_pending_transactions cr lg)"

definition utxos_after_spendable_pending :: "crypto \<Rightarrow> Ledger \<Rightarrow> utxos" where
  "utxos_after_spendable_pending cr lg =
     foldl (\<lambda>m tx.
       if is_mine tx then m
       else case apply_spendable_pending_transaction cr tx m (transaction_signing_domain_for_pending lg tx) of
         Inr m' \<Rightarrow> m' | Inl _ \<Rightarrow> m) (ledger_utxos lg) (valid_pending_transactions cr lg)"

definition utxos_after_all_spendable_pending :: "crypto \<Rightarrow> Ledger \<Rightarrow> utxos result" where
  "utxos_after_all_spendable_pending cr lg =
     (let m = utxos_after_spendable_pending cr lg in
      if pending_v2 lg = [] then Inr m
      else
        and_then (transaction_v2_domain lg) (\<lambda>d.
        try_fold (\<lambda>m tx. apply_prevalidated_transaction_v2_to_utxos cr tx d (ledger_network lg) m)
          m (pending_v2 lg)))"
end
