(* ===== verification/Mempool.thy ===== *)
theory Mempool
  imports Ledger_Pending
begin

text \<open>
  The operations on the pools of the ledger: admission of legacy transactions with eviction
  (\<open>domain/ledger_mempool.rs\<close>), promotion of orphans (\<open>domain/ledger_pending.rs\<close>) and the pool of
  version 2 transactions (\<open>domain/ledger_v2.rs\<close>). Sizes in the pools are lengths of JSON
  renderings, a field of the parameter \<open>host\<close>; \<open>usize\<close> sums are checked at 64 bits.
\<close>

section \<open>Sizes\<close>

definition usize_checked_add :: "nat \<Rightarrow> nat \<Rightarrow> nat option" where
  "usize_checked_add a b = (if a + b < 2 ^ 64 then Some (a + b) else None)"

definition usize_saturating_add :: "nat \<Rightarrow> nat \<Rightarrow> nat" where
  "usize_saturating_add a b = min (a + b) (2 ^ 64 - 1)"

definition pending_pool_item_bytes :: "host \<Rightarrow> Transaction \<Rightarrow> nat result" where
  "pending_pool_item_bytes hs tx =
     with_context ''failed to serialize pending item for size check'' (h_transaction_json_len hs tx)"

definition serialized_pool_len :: "host \<Rightarrow> Transaction list \<Rightarrow> nat result" where
  "serialized_pool_len hs txs =
     try_fold (\<lambda>n tx.
       and_then (pending_pool_item_bytes hs tx) (\<lambda>len.
       ok_or ''pending pool byte size overflow'' (usize_checked_add n len))) 0 txs"

definition ensure_pending_pool_bytes :: "host \<Rightarrow> string \<Rightarrow> nat \<Rightarrow> Transaction \<Rightarrow> nat \<Rightarrow> nat result" where
  "ensure_pending_pool_bytes hs label existing_bytes candidate max_bytes =
     and_then (pending_pool_item_bytes hs candidate) (\<lambda>candidate_bytes.
     and_then (ok_or ''pending pool byte size overflow'' (usize_checked_add existing_bytes candidate_bytes))
       (\<lambda>total_bytes.
     if max_bytes < total_bytes then bail (label @ '' byte limit exceeded'') else Inr candidate_bytes))"

definition refresh_pending_pool_byte_counters :: "host \<Rightarrow> Ledger \<Rightarrow> unit result \<times> Ledger" where
  "refresh_pending_pool_byte_counters hs lg =
     st_check (serialized_pool_len hs (pending lg)) lg (\<lambda>p.
     let lg' = lg\<lparr>pending_bytes := p\<rparr> in
     st_check (serialized_pool_len hs (orphans lg')) lg' (\<lambda>orph.
     (Inr (), lg'\<lparr>orphan_bytes := orph\<rparr>)))"

section \<open>Admission against the pools\<close>

definition validate_mine_anchor_available :: "Ledger \<Rightarrow> Transaction \<Rightarrow> unit result" where
  "validate_mine_anchor_available lg tx =
     (case mine_anchor tx of
        None \<Rightarrow> Inr ()
      | Some anchor \<Rightarrow>
          (let known_count =
             mine_anchor_count_before_height (chain lg) anchor (ledger_height lg) +
             anchor_count anchor (pending lg) +
             length (filter (\<lambda>t. mine_anchor t = Some anchor \<and> tx_signature t \<noteq> tx_signature tx) (orphans lg)) in
           if MINE_ACTIONS_PER_ANCHOR_LIMIT \<le> known_count then reject MineAnchorLimitReached else Inr ()))"

definition validate_new_transaction :: "crypto \<Rightarrow> Ledger \<Rightarrow> Transaction \<Rightarrow> unit result" where
  "validate_new_transaction cr lg tx =
     and_then (validate_transaction_terms cr lg tx) (\<lambda>_.
     and_then (validate_transaction_anchor_for_pending lg tx) (\<lambda>_.
     and_then (ensure_transaction_fits_empty_block (compact_block_context lg) tx
       (max_block_bytes (launch_profile lg))) (\<lambda>_.
     and_then (validate_mine_anchor_available lg tx) (\<lambda>_.
     and_then (apply_transaction cr tx (utxos_after_spendable_pending cr lg)
       (transaction_signing_domain_for_pending lg tx)) (\<lambda>_. Inr ())))))"

definition transaction_conflicts_with_pending_v2 :: "Ledger \<Rightarrow> Transaction \<Rightarrow> bool" where
  "transaction_conflicts_with_pending_v2 lg tx =
     list_ex (\<lambda>legacy_input.
       list_ex (\<lambda>p. case p of
           V2Migration ins outs f auths \<Rightarrow>
             list_ex (\<lambda>v2_input.
               leg_index v2_input = op_index (in_outpoint legacy_input) \<and>
               legacy_transaction_id_hex (leg_id v2_input) = op_txid (in_outpoint legacy_input)) ins
         | _ \<Rightarrow> False) (pending_v2 lg)) (inputs tx)"

section \<open>Promotion of orphans\<close>

text \<open>
  The scan for an orphan to promote. The candidates share one map of unspent outputs: one that
  fails to apply, or applies but does not fit, leaves its changes there for the next.
\<close>

fun find_promotion ::
  "host \<Rightarrow> Ledger \<Rightarrow> nat \<Rightarrow> Transaction list \<Rightarrow> utxos \<Rightarrow> (nat \<times> nat) option result" where
  "find_promotion hs lg index [] m = Inr None"
| "find_promotion hs lg index (tx # txs) m =
     (if transaction_inputs_spent_by tx (pending lg) \<or> transaction_has_missing_inputs tx m \<or>
         \<not> is_ok (validate_new_transaction (h_crypto hs) lg tx)
      then find_promotion hs lg (index + 1) txs m
      else
        (case apply_transaction_in_place (h_crypto hs) tx m (transaction_signing_domain_for_pending lg tx) of
           (r, m') \<Rightarrow>
             if \<not> is_ok r then find_promotion hs lg (index + 1) txs m'
             else
               and_then (pending_pool_item_bytes hs tx) (\<lambda>tx_bytes.
               and_then (ok_or ''pending pool byte size overflow''
                 (usize_checked_add (pending_bytes lg) tx_bytes)) (\<lambda>promoted_bytes.
               if MAX_PENDING_POOL_BYTES < promoted_bytes then find_promotion hs lg (index + 1) txs m'
               else Inr (Some (index, tx_bytes))))))"

definition promote_at :: "Ledger \<Rightarrow> nat \<Rightarrow> nat \<Rightarrow> Ledger" where
  "promote_at lg index tx_bytes =
     lg\<lparr>orphans := take index (orphans lg) @ drop (index + 1) (orphans lg),
        orphan_bytes := orphan_bytes lg - tx_bytes,
        pending := pending lg @ [orphans lg ! index],
        pending_bytes := usize_saturating_add (pending_bytes lg) tx_bytes\<rparr>"

lemma find_promotion_index:
  "find_promotion hs lg index txs m = Inr (Some (i, len)) \<Longrightarrow> index \<le> i \<and> i < index + length txs"
  by (induction txs arbitrary: index m)
    (fastforce simp: and_then_eq_Inr split: if_splits prod.splits)+

function promote_orphan_transactions :: "host \<Rightarrow> Ledger \<Rightarrow> unit result \<times> Ledger" where
  "promote_orphan_transactions hs lg =
     (if MAX_PENDING_TRANSACTIONS \<le> length (pending lg) then (Inr (), lg)
      else
        (case and_then (utxos_after_valid_pending (h_crypto hs) lg)
                (\<lambda>m. find_promotion hs lg 0 (orphans lg) m) of
           Inl e \<Rightarrow> (Inl e, lg)
         | Inr None \<Rightarrow> (Inr (), lg)
         | Inr (Some (index, tx_bytes)) \<Rightarrow>
             promote_orphan_transactions hs (promote_at lg index tx_bytes)))"
  by pat_completeness auto
termination
  by (relation "measure (\<lambda>(hs, lg). length (orphans lg))")
    (auto simp: promote_at_def and_then_eq_Inr dest!: find_promotion_index)

declare promote_orphan_transactions.simps [simp del]

text \<open>What every promotion keeps, the whole loop keeps.\<close>

lemma promote_invariant:
  assumes "P lg"
    and "\<And>lg m i n. P lg \<Longrightarrow> length (pending lg) < MAX_PENDING_TRANSACTIONS \<Longrightarrow>
      utxos_after_valid_pending (h_crypto hs) lg = Inr m \<Longrightarrow>
      find_promotion hs lg 0 (orphans lg) m = Inr (Some (i, n)) \<Longrightarrow> P (promote_at lg i n)"
  shows "P (snd (promote_orphan_transactions hs lg))"
  using assms
proof (induction hs lg rule: promote_orphan_transactions.induct)
  case (1 hs lg)
  show ?case
  proof (cases "MAX_PENDING_TRANSACTIONS \<le> length (pending lg)")
    case True
    then show ?thesis using 1(2) by (simp add: promote_orphan_transactions.simps [of hs lg])
  next
    case less: False
    show ?thesis
    proof (cases "and_then (utxos_after_valid_pending (h_crypto hs) lg)
        (\<lambda>m. find_promotion hs lg 0 (orphans lg) m)")
      case (Inl e)
      then show ?thesis using less 1(2) by (simp add: promote_orphan_transactions.simps [of hs lg])
    next
      case ok: (Inr found)
      show ?thesis
      proof (cases found)
        case None
        then show ?thesis using less ok 1(2) by (simp add: promote_orphan_transactions.simps [of hs lg])
      next
        case (Some e)
        obtain i n where e: "e = (i, n)" by fastforce
        then have "P (promote_at lg i n)"
          using 1(2,3) less ok Some by (auto simp: and_then_eq_Inr not_le)
        then have "P (snd (promote_orphan_transactions hs (promote_at lg i n)))"
          using 1(1) [OF less ok Some] e 1(3) by blast
        then show ?thesis using less ok Some e by (simp add: promote_orphan_transactions.simps [of hs lg])
      qed
    qed
  qed
qed

section \<open>Eviction\<close>

text \<open>
  Pending transactions linked by a spend, in either direction, form packages that are evicted as
  a whole. The adjacency list of an index keeps the order in which the loop pushes the edges.
\<close>

definition by_signature_index :: "Transaction list \<Rightarrow> (string, nat) btree_map" where
  "by_signature_index txs = bt_of_list (map (\<lambda>(index, tx). (tx_signature tx, index)) (enumerate 0 txs))"

definition parent_indices :: "(string, nat) btree_map \<Rightarrow> Transaction \<Rightarrow> nat list" where
  "parent_indices by_signature tx =
     List.map_filter (\<lambda>i. bt_get by_signature (op_txid (in_outpoint i))) (inputs tx)"

definition eviction_edges :: "Transaction list \<Rightarrow> nat list list" where
  "eviction_edges txs =
     foldl (\<lambda>edges (index, tx).
       foldl (\<lambda>edges parent.
         let edges' = edges[index := edges ! index @ [parent]] in
         edges'[parent := edges' ! parent @ [index]])
         edges (parent_indices (by_signature_index txs) tx))
       (replicate (length txs) []) (enumerate 0 txs)"

text \<open>
  The inner loop over the neighbours of an index marks and pushes those not yet visited; the
  stack is kept with its top first.
\<close>

fun visit_adjacent :: "nat list \<Rightarrow> bool list \<Rightarrow> nat list \<Rightarrow> bool list \<times> nat list" where
  "visit_adjacent [] visited stack = (visited, stack)"
| "visit_adjacent (a # as) visited stack =
     (if a < length visited \<and> \<not> visited ! a
      then visit_adjacent as (visited[a := True]) (a # stack)
      else visit_adjacent as visited stack)"

definition unvisited :: "bool list \<Rightarrow> nat" where
  "unvisited visited = length (filter Not visited)"

lemma unvisited_update:
  "a < length visited \<Longrightarrow> \<not> visited ! a \<Longrightarrow> Suc (unvisited (visited[a := True])) = unvisited visited"
  unfolding unvisited_def
  by (induction visited arbitrary: a) (auto simp: nth_Cons split: nat.splits)

lemma visit_adjacent_measure:
  "visit_adjacent as visited stack = (visited', stack') \<Longrightarrow>
    unvisited visited' + length stack' = unvisited visited + length stack"
proof (induction as arbitrary: visited stack)
  case (Cons a as)
  then show ?case by (auto simp: unvisited_update [symmetric] split: if_splits)
qed simp

function collect_package ::
  "nat list list \<Rightarrow> bool list \<Rightarrow> nat list \<Rightarrow> nat list \<Rightarrow> bool list \<times> nat list" where
  "collect_package edges visited [] indices = (visited, indices)"
| "collect_package edges visited (index # stack) indices =
     (case visit_adjacent (edges ! index) visited stack of
        (visited', stack') \<Rightarrow> collect_package edges visited' stack' (indices @ [index]))"
  by pat_completeness auto
termination
  by (relation "measure (\<lambda>(edges, visited, stack, indices). unvisited visited + length stack)")
    (auto dest!: sym [THEN visit_adjacent_measure])

definition package_step ::
  "nat list list \<Rightarrow> bool list \<times> nat list list \<Rightarrow> nat \<Rightarrow> bool list \<times> nat list list" where
  "package_step edges st start = (case st of (visited, components) \<Rightarrow>
     if visited ! start then st
     else
       (case collect_package edges (visited[start := True]) [start] [] of
          (visited', indices) \<Rightarrow> (visited', components @ [indices])))"

definition pending_components :: "Transaction list \<Rightarrow> nat list list" where
  "pending_components txs =
     snd (foldl (package_step (eviction_edges txs)) (replicate (length txs) False, []) [0..<length txs])"

record EvictionPackage =
  ep_signatures :: "string set"
  ep_fee :: u128
  ep_economic_bytes :: u128
  ep_pending_bytes :: nat
  ep_pending_count :: nat
  ep_tie_break :: string

definition make_package :: "host \<Rightarrow> Transaction list \<Rightarrow> nat list \<Rightarrow> EvictionPackage result" where
  "make_package hs txs indices =
     (let members = map (\<lambda>i. txs ! i) indices in
      and_then (try_fold (\<lambda>running tx.
        and_then (pending_pool_item_bytes hs tx) (\<lambda>len.
        ok_or ''pending eviction package byte size overflow'' (usize_checked_add running len))) 0 members) (\<lambda>n.
      Inr \<lparr>ep_signatures = set (map tx_signature members),
           ep_fee = sum_list (map (\<lambda>tx. ucast (fee tx)) members),
           ep_economic_bytes = sum_list (map (\<lambda>tx. word_of_nat (canonical_transaction_size_bytes tx)) members),
           ep_pending_bytes = n,
           ep_pending_count = length indices,
           ep_tie_break = (case sort (map tx_signature members) of [] \<Rightarrow> [] | s # _ \<Rightarrow> s)\<rparr>))"

text \<open>The comparison of two packages: fee rate, then fee, then the least signature.\<close>

definition package_le :: "EvictionPackage \<Rightarrow> EvictionPackage \<Rightarrow> bool" where
  "package_le l r =
     (let lk = saturating_mul (ep_fee l) (ep_economic_bytes r);
          rk = saturating_mul (ep_fee r) (ep_economic_bytes l) in
      lk < rk \<or> (lk = rk \<and> (ep_fee l < ep_fee r \<or>
        (ep_fee l = ep_fee r \<and> ep_tie_break l \<le> ep_tie_break r))))"

fun insert_package :: "EvictionPackage \<Rightarrow> EvictionPackage list \<Rightarrow> EvictionPackage list" where
  "insert_package p [] = [p]"
| "insert_package p (q # qs) = (if package_le p q then p # q # qs else q # insert_package p qs)"

definition sort_packages :: "EvictionPackage list \<Rightarrow> EvictionPackage list" where
  "sort_packages ps = foldr insert_package ps []"

definition room_for :: "nat \<Rightarrow> nat \<Rightarrow> nat \<Rightarrow> bool" where
  "room_for candidate_bytes remaining_count remaining_bytes \<longleftrightarrow>
     remaining_count < MAX_PENDING_TRANSACTIONS \<and>
     (case usize_checked_add remaining_bytes candidate_bytes of
        Some n \<Rightarrow> n \<le> MAX_PENDING_POOL_BYTES | None \<Rightarrow> False)"

text \<open>
  The loop over the packages, cheapest first: it stops when the candidate fits, or at the first
  package whose fee rate the candidate does not exceed.
\<close>

fun evict_loop ::
  "u128 \<Rightarrow> u128 \<Rightarrow> nat \<Rightarrow> EvictionPackage list \<Rightarrow> nat \<times> nat \<times> string set \<Rightarrow> nat \<times> nat \<times> string set" where
  "evict_loop candidate_fee candidate_economic_bytes candidate_bytes [] st = st"
| "evict_loop candidate_fee candidate_economic_bytes candidate_bytes (p # ps) st =
     (case st of (remaining_count, remaining_bytes, evicted) \<Rightarrow>
        if room_for candidate_bytes remaining_count remaining_bytes then st
        else if saturating_mul candidate_fee (ep_economic_bytes p) \<le>
                saturating_mul (ep_fee p) candidate_economic_bytes then st
        else
          evict_loop candidate_fee candidate_economic_bytes candidate_bytes ps
            (remaining_count - ep_pending_count p, remaining_bytes - ep_pending_bytes p,
             evicted \<union> ep_signatures p))"

fun orphan_pass :: "Transaction list \<Rightarrow> string set \<Rightarrow> string set" where
  "orphan_pass [] evicted = evicted"
| "orphan_pass (tx # txs) evicted =
     orphan_pass txs
       (if tx_signature tx \<notin> evicted \<and> list_ex (\<lambda>i. op_txid (in_outpoint i) \<in> evicted) (inputs tx)
        then insert (tx_signature tx) evicted else evicted)"

lemma orphan_pass_extends: "evicted \<subseteq> orphan_pass orphs evicted"
proof (induction orphs arbitrary: evicted)
  case (Cons tx txs)
  show ?case
    by (simp only: orphan_pass.simps) (rule subset_trans [OF _ Cons.IH], auto)
qed simp

lemma orphan_pass_bounded: "orphan_pass orphs evicted \<subseteq> evicted \<union> tx_signature ` set orphs"
proof (induction orphs arbitrary: evicted)
  case (Cons tx txs)
  show ?case
    by (simp only: orphan_pass.simps) (rule subset_trans [OF Cons.IH], auto)
qed simp

function extend_with_orphan_descendants :: "string set \<Rightarrow> Transaction list \<Rightarrow> string set" where
  "extend_with_orphan_descendants evicted orphs =
     (let evicted' = orphan_pass orphs evicted in
      if evicted' = evicted then evicted else extend_with_orphan_descendants evicted' orphs)"
  by pat_completeness auto
termination
proof (relation "measure (\<lambda>(evicted, orphs). card (tx_signature ` set orphs - evicted))", goal_cases)
  case (2 evicted orphs evicted')
  then have "tx_signature ` set orphs - evicted' \<subset> tx_signature ` set orphs - evicted"
    using orphan_pass_extends [of evicted orphs] orphan_pass_bounded [of orphs evicted] by blast
  then show ?case by (simp add: psubset_card_mono)
qed simp

declare extend_with_orphan_descendants.simps [simp del]

definition pending_eviction_plan ::
  "host \<Rightarrow> Transaction list \<Rightarrow> Transaction list \<Rightarrow> Transaction \<Rightarrow> nat \<Rightarrow> string set result" where
  "pending_eviction_plan hs txs orphs candidate candidate_bytes =
     (if MAX_PENDING_POOL_BYTES < candidate_bytes then bail ''mempool byte limit exceeded''
      else
        (let protected = set (parent_indices (by_signature_index txs) candidate) in
         and_then (try_map (make_package hs txs)
           (filter (\<lambda>indices. set indices \<inter> protected = {}) (pending_components txs))) (\<lambda>packages.
         and_then (serialized_pool_len hs txs) (\<lambda>pool_bytes.
         case evict_loop (ucast (fee candidate)) (word_of_nat (canonical_transaction_size_bytes candidate))
                candidate_bytes (sort_packages packages) (length txs, pool_bytes, {}) of
           (remaining_count, remaining_bytes, evicted) \<Rightarrow>
             if room_for candidate_bytes remaining_count remaining_bytes
             then Inr (extend_with_orphan_descendants evicted orphs)
             else bail ''mempool is full and candidate fee rate does not exceed an evictable package''))))"

definition pending_room_required :: "Ledger \<Rightarrow> nat \<Rightarrow> bool" where
  "pending_room_required lg candidate_bytes \<longleftrightarrow>
     MAX_PENDING_TRANSACTIONS \<le> length (pending lg) \<or>
     (case usize_checked_add (pending_bytes lg) candidate_bytes of
        None \<Rightarrow> True | Some n \<Rightarrow> MAX_PENDING_POOL_BYTES < n)"

definition make_pending_room :: "host \<Rightarrow> Ledger \<Rightarrow> Transaction \<Rightarrow> nat \<Rightarrow> unit result \<times> Ledger" where
  "make_pending_room hs lg candidate candidate_bytes =
     (if \<not> pending_room_required lg candidate_bytes then (Inr (), lg)
      else
        st_check (pending_eviction_plan hs (pending lg) (orphans lg) candidate candidate_bytes) lg (\<lambda>evicted.
        refresh_pending_pool_byte_counters hs
          (lg\<lparr>pending := filter (\<lambda>tx. tx_signature tx \<notin> evicted) (pending lg),
              orphans := filter (\<lambda>tx. tx_signature tx \<notin> evicted) (orphans lg)\<rparr>)))"

text \<open>The backup taken before an eviction, and what a failed replacement puts back.\<close>

definition restore_pending :: "bool \<Rightarrow> Ledger \<Rightarrow> Ledger \<Rightarrow> Ledger" where
  "restore_pending backed_up before lg =
     (if backed_up
      then lg\<lparr>pending := pending before, orphans := orphans before,
              pending_bytes := pending_bytes before, orphan_bytes := orphan_bytes before\<rparr>
      else lg)"

section \<open>Submission\<close>

definition admit_orphan :: "host \<Rightarrow> Ledger \<Rightarrow> Transaction \<Rightarrow> TransactionSubmitOutcome result \<times> Ledger" where
  "admit_orphan hs lg tx =
     (if MAX_ORPHAN_TRANSACTIONS \<le> length (orphans lg)
      then (bail ''orphan transaction pool is full'', lg)
      else
        st_check (ensure_pending_pool_bytes hs ''orphan transaction pool'' (orphan_bytes lg) tx
          MAX_PENDING_POOL_BYTES) lg (\<lambda>candidate_bytes.
        (Inr Added, lg\<lparr>orphans := orphans lg @ [tx],
                       orphan_bytes := usize_saturating_add (orphan_bytes lg) candidate_bytes\<rparr>)))"

text \<open>The second half of the admission, once room has been made in \<open>lg1\<close>.\<close>

definition admit_pending ::
  "host \<Rightarrow> Ledger \<Rightarrow> bool \<Rightarrow> Transaction \<Rightarrow> TransactionSigningDomain \<Rightarrow> nat \<Rightarrow> Ledger \<Rightarrow>
     TransactionSubmitOutcome result \<times> Ledger" where
  "admit_pending hs lg backed_up tx d candidate_bytes lg1 =
     (case utxos_after_valid_pending (h_crypto hs) lg1 of
        Inl e \<Rightarrow> (Inl e, restore_pending backed_up lg lg1)
      | Inr m \<Rightarrow>
          if transaction_has_missing_inputs tx m
          then (bail ''mempool replacement removed a candidate dependency'', restore_pending backed_up lg lg1)
          else
            (case apply_transaction (h_crypto hs) tx m d of
               Inl e \<Rightarrow> (Inl e, restore_pending backed_up lg lg1)
             | Inr _ \<Rightarrow>
                 (case promote_orphan_transactions hs
                         (lg1\<lparr>pending := pending lg1 @ [tx],
                              pending_bytes := usize_saturating_add (pending_bytes lg1) candidate_bytes\<rparr>) of
                    (Inl e, lg2) \<Rightarrow> (Inl e, restore_pending backed_up lg lg2)
                  | (Inr _, lg2) \<Rightarrow> (Inr Added, lg2))))"

definition admit_candidate ::
  "host \<Rightarrow> Ledger \<Rightarrow> Transaction \<Rightarrow> TransactionSigningDomain \<Rightarrow> nat \<Rightarrow>
     TransactionSubmitOutcome result \<times> Ledger" where
  "admit_candidate hs lg tx d candidate_bytes =
     (let backed_up = pending_room_required lg candidate_bytes in
      case make_pending_room hs lg tx candidate_bytes of
        (Inl e, lg1) \<Rightarrow> (Inl e, restore_pending backed_up lg lg1)
      | (Inr _, lg1) \<Rightarrow> admit_pending hs lg backed_up tx d candidate_bytes lg1)"

definition submit_transaction_with_outcome ::
  "host \<Rightarrow> Ledger \<Rightarrow> Transaction \<Rightarrow> TransactionSubmitOutcome result \<times> Ledger" where
  "submit_transaction_with_outcome hs lg tx =
     (let cr = h_crypto hs in
      if has_transaction lg (tx_signature tx) then (Inr AlreadyKnown, lg)
      else
        st_check (validate_transaction_terms cr lg tx) lg (\<lambda>_.
        st_check (validate_transaction_anchor_for_pending lg tx) lg (\<lambda>_.
        let d = transaction_signing_domain_for_pending lg tx in
        st_check (verify_signature cr tx d) lg (\<lambda>_.
        st_check (ensure_transaction_fits_empty_block (compact_block_context lg) tx
          (max_block_bytes (launch_profile lg))) lg (\<lambda>_.
        st_check (validate_mine_anchor_available lg tx) lg (\<lambda>_.
        if transaction_inputs_spent_by tx (pending lg) \<or> transaction_inputs_spent_by tx (orphans lg) \<or>
           transaction_conflicts_with_pending_v2 lg tx
        then (Inr ConflictsWithPending, lg)
        else
          st_check (utxos_after_valid_pending cr lg) lg (\<lambda>m.
          if transaction_has_missing_inputs tx m then admit_orphan hs lg tx
          else
            st_check (apply_transaction cr tx m d) lg (\<lambda>_.
            st_check (pending_pool_item_bytes hs tx) lg (\<lambda>candidate_bytes.
            admit_candidate hs lg tx d candidate_bytes)))))))))"

definition submit_transaction :: "host \<Rightarrow> Ledger \<Rightarrow> Transaction \<Rightarrow> bool result \<times> Ledger" where
  "submit_transaction hs lg tx =
     st_then (submit_transaction_with_outcome hs lg tx) (\<lambda>outcome lg'. (Inr (outcome_added outcome), lg'))"

text \<open>
  Inserting a transaction ahead of the pool: the pool is emptied, the transaction submitted, and
  the displaced transactions are submitted again in their order, whatever comes of each.
\<close>

definition resubmit_all :: "host \<Rightarrow> Transaction list \<Rightarrow> Ledger \<Rightarrow> Ledger" where
  "resubmit_all hs txs lg = foldl (\<lambda>lg tx. snd (submit_transaction hs lg tx)) lg txs"

definition prioritize_transaction_for_block_building ::
  "host \<Rightarrow> Ledger \<Rightarrow> Transaction \<Rightarrow> bool result \<times> Ledger" where
  "prioritize_transaction_for_block_building hs lg tx =
     (let displaced = pending lg @ orphans lg in
      st_then (submit_transaction hs
        (lg\<lparr>pending := [], orphans := [], pending_bytes := 0, orphan_bytes := 0\<rparr>) tx) (\<lambda>added lg1.
      if \<not> added then (Inr False, lg1) else (Inr True, resubmit_all hs displaced lg1)))"

definition reserve_transaction_inputs :: "crypto \<Rightarrow> Ledger \<Rightarrow> Transaction \<Rightarrow> Ledger result" where
  "reserve_transaction_inputs cr lg tx =
     and_then (validate_new_transaction cr lg tx) (\<lambda>_.
     and_then (spend_inputs_with_lineage tx (lineage lg)) (\<lambda>(input_total, root, st).
     Inr (lg\<lparr>lineage := st\<rparr>)))"

section \<open>Version 2 transactions\<close>

definition validated_v2_utxos_at_height :: "crypto \<Rightarrow> Ledger \<Rightarrow> TransactionV2 \<Rightarrow> u64 \<Rightarrow> utxos result" where
  "validated_v2_utxos_at_height cr lg tx h =
     and_then (ensure_transaction_v2_active h) (\<lambda>_.
     and_then (validate_authorization_policy_at_height cr tx h) (\<lambda>_.
     and_then (transaction_v2_domain lg) (\<lambda>d.
     apply_transaction_v2_to_utxos cr tx d (ledger_network lg) (ledger_utxos lg))))"

definition validate_transaction_v2_at_height :: "crypto \<Rightarrow> Ledger \<Rightarrow> TransactionV2 \<Rightarrow> u64 \<Rightarrow> unit result" where
  "validate_transaction_v2_at_height cr lg tx h =
     and_then (validate_transaction_v2_anchor_for_block lg tx h) (\<lambda>_.
     and_then (validated_v2_utxos_at_height cr lg tx h) (\<lambda>_. Inr ()))"

text \<open>An input is reserved when it is confirmed, or an output of a pending transaction.\<close>

definition v2_input_is_reserved :: "crypto \<Rightarrow> Ledger \<Rightarrow> TransactionV2Domain \<Rightarrow> OutPoint \<Rightarrow> bool" where
  "v2_input_is_reserved cr lg d p \<longleftrightarrow>
     bt_contains_key (ledger_utxos lg) p \<or>
     list_ex (\<lambda>tx. case transaction_id cr tx d of
         Inl _ \<Rightarrow> False
       | Inr txid \<Rightarrow> hex_encode txid = op_txid p \<and> unat (op_index p) < length (v2_outputs tx)) (pending_v2 lg)"

definition submit_transaction_v2_at_height ::
  "crypto \<Rightarrow> Ledger \<Rightarrow> TransactionV2 \<Rightarrow> u64 \<Rightarrow> TransactionSubmitOutcome result \<times> Ledger" where
  "submit_transaction_v2_at_height cr lg tx h =
     st_check (ensure_transaction_v2_active h) lg (\<lambda>_.
     st_check (validate_authorization_policy_at_height cr tx h) lg (\<lambda>_.
     st_check (validate_transaction_v2_anchor_for_pending lg tx) lg (\<lambda>_.
     st_check (transaction_v2_domain lg) lg (\<lambda>d.
     st_check (transaction_id cr tx d) lg (\<lambda>txid.
     if list_ex (\<lambda>p. ok (transaction_id cr p d) = Some txid) (pending_v2 lg) then (Inr AlreadyKnown, lg)
     else if v2_fee tx = 0 then (bail ''public transaction v2 fee must be greater than zero'', lg)
     else
       st_check (v2_encode tx d) lg (\<lambda>encoded.
       st_check (ensure_transaction_v2_fits_empty_block (compact_block_context lg) (hex_encode encoded)
         (max_block_bytes (launch_profile lg))) lg (\<lambda>_.
       if max_pending_transactions (launch_profile lg) \<le> length (pending lg) + length (pending_v2 lg)
       then (bail ''mempool is full'', lg)
       else if (case usize_checked_add (usize_saturating_add (pending_bytes lg) (pending_v2_bytes lg))
                       (length encoded) of None \<Rightarrow> True | Some n \<Rightarrow> MAX_PENDING_POOL_BYTES < n)
       then (bail ''mempool byte limit exceeded'', lg)
       else
         st_check (utxos_after_all_spendable_pending cr lg) lg (\<lambda>m.
         let missing = filter (\<lambda>p. \<not> bt_contains_key m p) (transaction_v2_outpoints tx) in
         if missing \<noteq> [] \<and> list_all (v2_input_is_reserved cr lg d) missing
         then (Inl (Context (''transaction v2 input '' @ outpoint_id (hd missing) @ '' is already reserved'')
                 (Validation MempoolConflict)), lg)
         else
           st_check (apply_transaction_v2_to_utxos cr tx d (ledger_network lg) m) lg (\<lambda>_.
           (Inr Added, lg\<lparr>pending_v2 := pending_v2 lg @ [tx],
                          pending_v2_bytes := usize_saturating_add (pending_v2_bytes lg) (length encoded)\<rparr>))))))))))"

definition submit_transaction_v2 ::
  "crypto \<Rightarrow> Ledger \<Rightarrow> TransactionV2 \<Rightarrow> TransactionSubmitOutcome result \<times> Ledger" where
  "submit_transaction_v2 cr lg tx =
     submit_transaction_v2_at_height cr lg tx (saturating_add (ledger_height lg) 1)"

definition prioritize_transaction_v2_for_block_building ::
  "crypto \<Rightarrow> Ledger \<Rightarrow> TransactionV2 \<Rightarrow> bool result \<times> Ledger" where
  "prioritize_transaction_v2_for_block_building cr lg tx =
     (let displaced = pending_v2 lg in
      st_then (submit_transaction_v2 cr (lg\<lparr>pending_v2 := [], pending_v2_bytes := 0\<rparr>) tx) (\<lambda>outcome lg1.
      if \<not> outcome_added outcome then (Inr False, lg1)
      else (Inr True, foldl (\<lambda>lg tx. snd (submit_transaction_v2 cr lg tx)) lg1 displaced)))"

text \<open>
  Revalidation keeps each pending transaction that still applies after those kept before it. An
  error inside the loop leaves the part that was kept so far.
\<close>

fun revalidate_loop ::
  "crypto \<Rightarrow> u64 \<Rightarrow> TransactionV2Domain \<Rightarrow> TransactionV2 list \<Rightarrow> utxos \<Rightarrow> Ledger \<Rightarrow> unit result \<times> Ledger" where
  "revalidate_loop cr h d [] m lg = (Inr (), lg)"
| "revalidate_loop cr h d (tx # txs) m lg =
     st_check (encoded_size_bytes tx d) lg (\<lambda>n.
     case and_then (validate_transaction_v2_anchor_for_pending lg tx) (\<lambda>_.
          and_then (validate_authorization_policy_at_height cr tx h) (\<lambda>_.
          apply_prevalidated_transaction_v2_to_utxos cr tx d (ledger_network lg) m)) of
       Inl _ \<Rightarrow> revalidate_loop cr h d txs m lg
     | Inr m' \<Rightarrow>
         revalidate_loop cr h d txs m'
           (lg\<lparr>pending_v2 := pending_v2 lg @ [tx],
               pending_v2_bytes := usize_saturating_add (pending_v2_bytes lg) n\<rparr>))"

definition revalidate_pending_v2_at_height :: "crypto \<Rightarrow> Ledger \<Rightarrow> u64 \<Rightarrow> unit result \<times> Ledger" where
  "revalidate_pending_v2_at_height cr lg h =
     (if \<not> is_ok (ensure_transaction_v2_active h)
      then (Inr (), lg\<lparr>pending_v2 := [], pending_v2_bytes := 0\<rparr>)
      else
        st_check (transaction_v2_domain lg) lg (\<lambda>d.
        revalidate_loop cr h d (pending_v2 lg) (utxos_after_spendable_pending cr lg)
          (lg\<lparr>pending_v2 := [], pending_v2_bytes := 0\<rparr>)))"

definition revalidate_pending_v2 :: "crypto \<Rightarrow> Ledger \<Rightarrow> unit result \<times> Ledger" where
  "revalidate_pending_v2 cr lg =
     revalidate_pending_v2_at_height cr lg (saturating_add (ledger_height lg) 1)"

end
