(* ===== verification/Ledger_Index.thy ===== *)
theory Ledger_Index
  imports Ledger_State
begin

text \<open>
  The indexes of \<open>domain/ledger_history_index.rs\<close> that survive pruning: the hybrid addresses that
  confirmed blocks used, spent or authored, and the ticket draws of recent blocks.
\<close>

definition RESIDENT_TICKET_DRAW_BLOCKS :: u64 where "RESIDENT_TICKET_DRAW_BLOCKS = 128"

record BlockAddressEffects =
  eff_used :: "VersionedAddress list"
  eff_spent :: "VersionedAddress list"
  eff_authored :: "(bytes \<times> VersionedAddress) list"

definition effects_default :: BlockAddressEffects where
  "effects_default = \<lparr>eff_used = [], eff_spent = [], eff_authored = []\<rparr>"

definition push_unique_address :: "VersionedAddress list \<Rightarrow> VersionedAddress \<Rightarrow> VersionedAddress list" where
  "push_unique_address addresses a = (if a \<in> set addresses then addresses else addresses @ [a])"

definition hybrid_address_of :: "crypto \<Rightarrow> AddressNetwork \<Rightarrow> string \<Rightarrow> VersionedAddress option" where
  "hybrid_address_of cr network s =
     (case decode_versioned_address cr s network of
        Inr a \<Rightarrow> if addr_version a = HybridKeyCommitment then Some a else None
      | Inl _ \<Rightarrow> None)"

definition collect_legacy_hybrid_outputs ::
  "crypto \<Rightarrow> Transaction \<Rightarrow> AddressNetwork \<Rightarrow> VersionedAddress list \<Rightarrow> VersionedAddress list" where
  "collect_legacy_hybrid_outputs cr tx network used =
     foldl push_unique_address used
       (List.map_filter (\<lambda>o1. hybrid_address_of cr network (out_address o1)) (outputs tx))"

fun collect_v2_output_addresses :: "TransactionV2 \<Rightarrow> VersionedAddress list \<Rightarrow> VersionedAddress list" where
  "collect_v2_output_addresses (V2Mine recipient anchor salt nonce bits header hash) used =
     push_unique_address used recipient"
| "collect_v2_output_addresses tx used =
     foldl push_unique_address used (map v2out_address (v2_outputs tx))"

fun collect_v2_input_addresses :: "TransactionV2 \<Rightarrow> VersionedAddress list \<Rightarrow> VersionedAddress list" where
  "collect_v2_input_addresses (V2Transfer ins outs f auths) spent =
     foldl push_unique_address spent (map v2in_owner ins)"
| "collect_v2_input_addresses (V2Burn ins change a f anchor auths) spent =
     foldl push_unique_address spent (map v2in_owner ins)"
| "collect_v2_input_addresses _ spent = spent"

definition for_block_outputs :: "crypto \<Rightarrow> Block \<Rightarrow> AddressNetwork \<Rightarrow> BlockAddressEffects" where
  "for_block_outputs cr b network =
     (let used = (case Option.bind (reward_address b) (hybrid_address_of cr network) of
                    Some a \<Rightarrow> [a] | None \<Rightarrow> []) in
      effects_default\<lparr>eff_used :=
        foldl (\<lambda>used tx. collect_legacy_hybrid_outputs cr tx network used) used (transactions b)\<rparr>)"

definition record_authored_spend ::
  "crypto \<Rightarrow> TransactionV2Input list \<Rightarrow> V2SpendingAuthorization list \<Rightarrow> VersionedAddress list \<Rightarrow>
     BlockAddressEffects \<Rightarrow> BlockAddressEffects" where
  "record_authored_spend cr ins auths change eff =
     foldl (\<lambda>eff auth.
       let key = pk_bytes (auth_public_key auth) in
       if auth_scheme auth \<noteq> HybridEd25519MlDsa44 \<or> length key < 32 then eff
       else case authorized_address cr auth of
         Inl _ \<Rightarrow> eff
       | Inr owner \<Rightarrow>
           if \<not> list_ex (\<lambda>i. v2in_owner i = owner) ins then eff
           else eff\<lparr>eff_authored := eff_authored eff @
             (take 32 key, owner) # map (\<lambda>a. (take 32 key, a)) change\<rparr>) eff auths"

definition record_transaction_v2 :: "crypto \<Rightarrow> TransactionV2 \<Rightarrow> BlockAddressEffects \<Rightarrow> BlockAddressEffects" where
  "record_transaction_v2 cr tx eff0 =
     (let eff = eff0\<lparr>eff_used := collect_v2_output_addresses tx (eff_used eff0),
                     eff_spent := collect_v2_input_addresses tx (eff_spent eff0)\<rparr> in
      case tx of
        V2Migration ins outs f auths \<Rightarrow>
          foldl (\<lambda>eff auth.
            let key = pk_bytes (auth_public_key auth) in
            if auth_scheme auth = Ed25519 \<and> length key = 32
            then eff\<lparr>eff_authored := eff_authored eff @ map (\<lambda>o1. (key, v2out_address o1)) outs\<rparr>
            else eff) eff auths
      | V2Transfer ins outs f auths \<Rightarrow>
          record_authored_spend cr ins auths (map v2out_address (drop 1 outs)) eff
      | V2Burn ins change a f anchor auths \<Rightarrow>
          record_authored_spend cr ins auths (map v2out_address change) eff
      | V2Mine _ _ _ _ _ _ _ \<Rightarrow> eff)"

definition commit_authored ::
  "(bytes, VersionedAddress list) btree_map \<Rightarrow> bytes \<times> VersionedAddress \<Rightarrow>
     (bytes, VersionedAddress list) btree_map" where
  "commit_authored authored e =
     (let addresses = (case bt_get authored (fst e) of Some as \<Rightarrow> as | None \<Rightarrow> []) in
      bt_insert (fst e) (push_unique_address addresses (snd e)) authored)"

definition commit_block_address_effects :: "Ledger \<Rightarrow> BlockAddressEffects \<Rightarrow> Ledger" where
  "commit_block_address_effects lg eff =
     lg\<lparr>confirmed_hybrid_used_addresses := confirmed_hybrid_used_addresses lg \<union> set (eff_used eff),
        confirmed_hybrid_spent_addresses := confirmed_hybrid_spent_addresses lg \<union> set (eff_spent eff),
        confirmed_hybrid_authored_addresses :=
          foldl commit_authored (confirmed_hybrid_authored_addresses lg) (eff_authored eff)\<rparr>"

definition index_unapplied_block_addresses :: "crypto \<Rightarrow> Ledger \<Rightarrow> Block \<Rightarrow> Ledger result" where
  "index_unapplied_block_addresses cr lg b =
     (let eff = for_block_outputs cr b (ledger_network lg) in
      if transactions_v2 b = [] then Inr (commit_block_address_effects lg eff)
      else
        and_then (transaction_v2_domain lg) (\<lambda>d.
        and_then (try_fold (\<lambda>eff envelope.
          and_then (with_context ''invalid confirmed transaction-v2 hex'' (decode_hex envelope)) (\<lambda>bs.
          and_then (v2_decode bs) (\<lambda>(decoded_domain, tx).
          Inr (if decoded_domain = d then record_transaction_v2 cr tx eff else eff))))
          eff (transactions_v2 b)) (\<lambda>eff'.
        Inr (commit_block_address_effects lg eff'))))"

section \<open>Ticket draws\<close>

definition ticket_draw_before :: "crypto \<Rightarrow> Ledger \<Rightarrow> Block \<Rightarrow> ResidentTicketDraw option" where
  "ticket_draw_before cr lg b =
     (if saturating_add (height b) RESIDENT_TICKET_DRAW_BLOCKS \<le> ticket_draw_horizon lg then None
      else Some \<lparr>rd_block_hash = block_hash b,
                 rd_parent_randomness = draw_parent_randomness cr (tip lg) (height b),
                 rd_eligible_tickets = filter (\<lambda>t. ticket_is_eligible_for_height t (height b)) (tickets lg)\<rparr>)"

definition record_ticket_draw :: "Ledger \<Rightarrow> u64 \<Rightarrow> ResidentTicketDraw option \<Rightarrow> Ledger" where
  "record_ticket_draw lg h draw =
     (case draw of
        None \<Rightarrow> lg
      | Some d \<Rightarrow>
          (let draws = bt_insert h d (resident_ticket_draws lg);
               oldest_retained = saturating_sub h (RESIDENT_TICKET_DRAW_BLOCKS - 1) in
           lg\<lparr>resident_ticket_draws :=
                bt_of_list (dropWhile (\<lambda>e. fst e < oldest_retained) (bt_entries draws))\<rparr>))"

record BurnLeaderRank =
  blr_rank :: u32
  blr_ticket_id :: string
  blr_owner :: string
  blr_amount :: Amount
  blr_from :: u64
  blr_until :: u64

definition cached_burn_leader_ranks :: "crypto \<Rightarrow> Ledger \<Rightarrow> u64 \<Rightarrow> string \<Rightarrow> BurnLeaderRank list option" where
  "cached_burn_leader_ranks cr lg h hash =
     Option.bind (bt_get (resident_ticket_draws lg) h) (\<lambda>draw.
     if rd_block_hash draw \<noteq> hash then None
     else Some (map (\<lambda>(rank, t).
       \<lparr>blr_rank = word_of_nat rank, blr_ticket_id = tk_id t, blr_owner = tk_owner t,
        blr_amount = tk_amount t, blr_from = tk_from t, blr_until = tk_until t\<rparr>)
       (enumerate 0 (ranked_tickets_for_parent_randomness cr (rd_parent_randomness draw) h
                  (rd_eligible_tickets draw)))))"

end
