(* ===== verification/Ledger_Apply.thy ===== *)
theory Ledger_Apply
  imports Mempool Ledger_Index
begin

text \<open>
  The application of a block to the ledger (\<open>domain/ledger_apply.rs\<close>): the checks that need no
  delay proof, the transition of the confirmed state, and the repair of the pools afterwards.
  The checks and the transition work on copies, so that a failure there returns the ledger
  unchanged; the pools are repaired after the block has become the tip, and an error there
  leaves the block applied.
\<close>

section \<open>Checks without the delay proof\<close>

definition transaction_v2_fees :: "Ledger \<Rightarrow> string list \<Rightarrow> Amount result" where
  "transaction_v2_fees lg envelopes =
     and_then (transaction_v2_domain lg) (\<lambda>d.
     try_fold (\<lambda>running envelope.
       and_then (decode_canonical_transaction_v2_envelope envelope d) (\<lambda>tx.
       if v2_fee tx = 0 then bail ''block transaction v2 fee must be greater than zero''
       else ok_or ''block transaction v2 fees overflow'' (checked_add running (v2_fee tx)))) 0 envelopes)"

definition expected_reward_for_next_block ::
  "Ledger \<Rightarrow> Transaction list \<Rightarrow> string list \<Rightarrow> BurnBundleSection \<Rightarrow> Amount result" where
  "expected_reward_for_next_block lg txs txs_v2 sec =
     and_then (transaction_v2_fees lg txs_v2) (\<lambda>v2_fees. total_block_reward txs v2_fees)"

definition expected_reward_for_block :: "Ledger \<Rightarrow> Block \<Rightarrow> Amount result" where
  "expected_reward_for_block lg b =
     and_then (transaction_v2_fees lg (transactions_v2 b)) (\<lambda>v2_fees.
     total_block_reward (transactions b) v2_fees)"

definition median_time_past :: "Ledger \<Rightarrow> u64" where
  "median_time_past lg =
     (let stamps = sort (map timestamp_ms (take BLOCK_MEDIAN_TIME_PAST_WINDOW (rev (chain lg)))) in
      stamps ! (length stamps div 2))"

definition replay_step ::
  "crypto \<Rightarrow> Ledger \<Rightarrow> TransactionV2Domain \<Rightarrow> string set \<Rightarrow> string \<Rightarrow> string set result" where
  "replay_step cr lg d ids envelope =
     and_then (decode_canonical_transaction_v2_envelope envelope d) (\<lambda>tx.
     and_then (transaction_id cr tx d) (\<lambda>txid.
     let i = hex_encode txid in
     if i \<in> ids then bail ''duplicate transaction v2 in block''
     else if i \<in> mined_transaction_ids lg then bail ''block replays a previously mined transaction v2''
     else Inr (insert i ids)))"

definition ensure_block_transactions_are_not_replays :: "crypto \<Rightarrow> Ledger \<Rightarrow> Block \<Rightarrow> unit result" where
  "ensure_block_transactions_are_not_replays cr lg b =
     (if height b < TRANSACTION_REPLAY_PROTECTION_ACTIVATION_HEIGHT then Inr ()
      else if list_ex (\<lambda>tx. tx_signature tx \<in> mined_transaction_ids lg) (transactions b)
      then bail ''block replays a previously mined transaction''
      else
        and_then (transaction_v2_domain lg) (\<lambda>d.
        and_then (try_fold (replay_step cr lg d) {} (transactions_v2 b)) (\<lambda>_. Inr ())))"

definition check_reward_address_signature :: "crypto \<Rightarrow> Block \<Rightarrow> unit result" where
  "check_reward_address_signature cr b =
     (if height b < HYBRID_REWARD_ACTIVATION_HEIGHT
      then
        (if reward_address_signature b \<noteq> None
         then bail ''finalizer reward address signature is not active yet'' else Inr ())
      else
        and_then (ok_or ''finalizer hybrid reward address is required'' (reward_address b)) (\<lambda>a.
        and_then (ok_or ''finalizer reward address signature is required'' (reward_address_signature b)) (\<lambda>sig.
        verify_address_signature cr (miner b) (reward_address_payload (height b) (prev_hash b) (miner b) a)
          sig ''finalizer reward address'')))"

definition check_block_timestamp :: "Ledger \<Rightarrow> Block \<Rightarrow> u64 \<Rightarrow> unit result" where
  "check_block_timestamp lg b now_ms =
     (if timestamp_ms b \<le> timestamp_ms (tip lg) then bail ''block timestamp must increase''
      else
        and_then
          (if finalizer_mode b = TicketMode
           then
             and_then (ticket_block_min_timestamp (tip lg) (finalizer_rank b)) (\<lambda>min_timestamp.
             if timestamp_ms b < min_timestamp
             then reject (BlockBeforeFinalizerRankSlot (finalizer_rank b) min_timestamp) else Inr ())
           else Inr ()) (\<lambda>_.
        if timestamp_ms b \<le> median_time_past lg then bail ''block timestamp must exceed median time past''
        else if saturating_add now_ms MAX_BLOCK_TIMESTAMP_FUTURE_DRIFT_MS < timestamp_ms b
        then reject BlockTimestampTooFarInFuture else Inr ()))"

definition check_block_finalizer :: "crypto \<Rightarrow> Ledger \<Rightarrow> Block \<Rightarrow> unit result" where
  "check_block_finalizer cr lg b =
     (case finalizer_mode b of
        TicketMode \<Rightarrow>
          and_then (ok_or ''no selected ticket for block finalizer rank''
            (ticket_for_finalizer_rank cr lg (height b) (finalizer_rank b))) (\<lambda>selected_ticket.
          if tk_owner selected_ticket \<noteq> miner b
          then bail (''block finalizer '' @ miner b @ '' is not selected for rank '' @
            show_u32 (finalizer_rank b))
          else if (case leader_proof b of None \<Rightarrow> True | Some proof \<Rightarrow> lp_ticket_id proof \<noteq> tk_id selected_ticket)
          then bail ''block does not prove the selected leader ticket''
          else verify_leader_proof cr b (tickets lg))
      | RecoveryMode \<Rightarrow> ensure_valid_recovery_block cr b (tip lg))"

text \<open>The content of a block that extends the tip.\<close>

definition check_block_content :: "host \<Rightarrow> Ledger \<Rightarrow> Block \<Rightarrow> unit result" where
  "check_block_content hs lg b =
     (if max_block_transactions (launch_profile lg) < length (transactions b) + length (transactions_v2 b)
      then bail ''block has too many transactions''
      else
        and_then (if transactions_v2 b \<noteq> [] then ensure_transaction_v2_active (height b) else Inr ()) (\<lambda>_.
        and_then (consensus_block_size_bytes lg b) (\<lambda>size.
        if max_block_bytes (launch_profile lg) < size then bail ''block exceeds max block size''
        else
          and_then (ensure_mine_anchor_limit (height b) (transactions b)) (\<lambda>_.
          and_then (ensure_block_has_burn (transactions b) (transactions_v2 b)) (\<lambda>_.
          and_then (validate_block_fee_policy b) (\<lambda>_.
          and_then (validate_burn_bundle_section_for_block hs lg b) (\<lambda>_.
          check_block_finalizer (h_crypto hs) lg b)))))))"

definition precheck_new_block :: "host \<Rightarrow> Ledger \<Rightarrow> Block \<Rightarrow> u64 \<Rightarrow> unit result" where
  "precheck_new_block hs lg b now_ms =
     (let cr = h_crypto hs; expected_height = height (tip lg) + 1 in
      if height b \<noteq> expected_height then reject (UnexpectedBlockHeight expected_height (height b))
      else if prev_hash b \<noteq> block_hash (tip lg) then reject BlockDoesNotExtendLocalTip
      else if compute_hash cr b \<noteq> block_hash b then bail ''block hash is invalid''
      else
        and_then (validate_reward_address cr lg (height b) (reward_address b) ''finalizer'') (\<lambda>_.
        and_then (check_reward_address_signature cr b) (\<lambda>_.
        and_then (ensure_block_transactions_are_not_replays cr lg b) (\<lambda>_.
        and_then (expected_reward_for_block lg b) (\<lambda>expected_reward.
        if reward b \<noteq> expected_reward then bail ''block reward is invalid''
        else
          and_then (expected_vdf_rounds_for_block lg b) (\<lambda>expected_vdf_rounds.
          if vdf_rounds b \<noteq> expected_vdf_rounds then bail ''block VDF rounds are invalid''
          else
            and_then (check_block_timestamp lg b now_ms) (\<lambda>_.
            check_block_content hs lg b)))))))"

text \<open>\<open>False\<close> stands for a block that is already part of the chain.\<close>

definition precheck_block_without_vdf_at :: "host \<Rightarrow> Ledger \<Rightarrow> Block \<Rightarrow> u64 \<Rightarrow> bool result" where
  "precheck_block_without_vdf_at hs lg b now_ms =
     (if height b \<le> height (tip lg)
      then
        and_then (ok_or (''local chain has no block at height '' @ show_u64 (height b))
          (find (\<lambda>known. height known = height b) (chain lg))) (\<lambda>existing.
        if block_hash existing = block_hash b then Inr False
        else reject (BlockConflictsWithLocalChain (height b)))
      else and_then (precheck_new_block hs lg b now_ms) (\<lambda>_. Inr True))"

section \<open>The transition of the confirmed state\<close>

definition block_transaction_step ::
  "crypto \<Rightarrow> Ledger \<Rightarrow> Block \<Rightarrow> string set \<times> LineageState \<Rightarrow> Transaction \<Rightarrow> (string set \<times> LineageState) result" where
  "block_transaction_step cr lg b st tx = (case st of (signatures, ls) \<Rightarrow>
     if tx_signature tx \<in> signatures then bail ''duplicate transaction in block''
     else
       and_then (validate_transaction_terms cr lg tx) (\<lambda>_.
       and_then (validate_transaction_anchor_for_block lg tx (height b)) (\<lambda>_.
       and_then (apply_transaction_with_lineage cr tx (height b) ls
         (Some (transaction_signing_domain_at lg (height b)))) (\<lambda>ls'.
       Inr (insert (tx_signature tx) signatures, ls')))))"

record V2Progress =
  v2p_effects :: BlockAddressEffects
  v2p_ids :: "string set"
  v2p_lineage :: LineageState
  v2p_owners :: "(string, string) btree_map"

definition block_envelope_step ::
  "crypto \<Rightarrow> Ledger \<Rightarrow> Block \<Rightarrow> TransactionV2Domain \<Rightarrow> V2Progress \<Rightarrow> string \<Rightarrow> V2Progress result" where
  "block_envelope_step cr lg b d p envelope =
     and_then (decode_canonical_transaction_v2_envelope envelope d) (\<lambda>tx.
     and_then (validate_transaction_v2_anchor_for_block lg tx (height b)) (\<lambda>_.
     and_then (validate_authorization_policy_at_height cr tx (height b)) (\<lambda>_.
     and_then (transaction_id cr tx d) (\<lambda>txid.
     let i = hex_encode txid in
     if i \<in> v2p_ids p then bail ''duplicate transaction v2 in block''
     else
       and_then (apply_transaction_v2_with_lineage cr tx d (ledger_network lg) True (v2p_lineage p)) (\<lambda>ls.
       and_then (record_hybrid_legacy_owner_bindings cr (v2p_owners p) tx (ledger_network lg)) (\<lambda>owners.
       Inr \<lparr>v2p_effects = record_transaction_v2 cr tx (v2p_effects p), v2p_ids = insert i (v2p_ids p),
            v2p_lineage = ls, v2p_owners = owners\<rparr>))))))"

definition start_progress :: "crypto \<Rightarrow> Ledger \<Rightarrow> Block \<Rightarrow> LineageState \<Rightarrow> V2Progress" where
  "start_progress cr lg b ls =
     \<lparr>v2p_effects = for_block_outputs cr b (ledger_network lg), v2p_ids = {}, v2p_lineage = ls,
      v2p_owners = hybrid_legacy_owners lg\<rparr>"

definition block_ticket_effects :: "crypto \<Rightarrow> Ledger \<Rightarrow> Block \<Rightarrow> BurnTicket list result" where
  "block_ticket_effects cr lg b =
     and_then (apply_finalizer_ticket_effects cr (tip lg) b (tickets lg)) (\<lambda>ts.
     and_then (tickets_created_by_block cr b (launch_profile lg)) (\<lambda>created. Inr (ts @ created)))"

definition certified_parent :: "crypto \<Rightarrow> Ledger \<Rightarrow> Block \<Rightarrow> FinalityCheckpoint option" where
  "certified_parent cr lg b =
     (if block_certifies_parent b (length (burn_committee_for_block cr lg b))
      then Some \<lparr>cp_height = height (tip lg), cp_hash = block_hash (tip lg)\<rparr> else None)"

text \<open>
  The block becomes the tip: what the two apply paths commit in common once the new unspent
  outputs, tickets and indexes are computed.
\<close>

definition commit_block ::
  "crypto \<Rightarrow> Ledger \<Rightarrow> Block \<Rightarrow> V2Progress \<Rightarrow> BurnTicket list \<Rightarrow> utxos \<Rightarrow> CompactBlockContext \<Rightarrow> Ledger result" where
  "commit_block cr lg b p ts m ctx =
     (let lg1 = commit_block_address_effects
            (lg\<lparr>lineage := (v2p_lineage p)\<lparr>ls_utxos := m\<rparr>, hybrid_legacy_owners := v2p_owners p,
                tickets := ts, compact_block_context := ctx,
                mined_transaction_ids := mined_transaction_ids lg \<union> set (map tx_signature (transactions b)) \<union>
                  v2p_ids p\<rparr>) (v2p_effects p);
          lg2 = record_ticket_draw lg1 (height b) (ticket_draw_before cr lg b) in
      and_then (record_vdf_retarget_observation lg2 b) (\<lambda>lg3.
      let lg4 = update_mine_difficulty_cache_after_tip (lg3\<lparr>chain := chain lg3 @ [b]\<rparr>) in
      Inr (case certified_parent cr lg b of
             Some cp \<Rightarrow> lg4\<lparr>objective_finality_checkpoint := Some cp\<rparr> | None \<Rightarrow> lg4)))"

definition block_transition :: "crypto \<Rightarrow> Ledger \<Rightarrow> Block \<Rightarrow> Ledger result" where
  "block_transition cr lg b =
     and_then (try_fold (block_transaction_step cr lg b) ({}, lineage lg) (transactions b)) (\<lambda>(signatures, ls).
     and_then (transaction_v2_domain lg) (\<lambda>d.
     and_then (try_fold (block_envelope_step cr lg b d) (start_progress cr lg b ls) (transactions_v2 b)) (\<lambda>p.
     and_then (expected_reward_for_block lg b) (\<lambda>expected_reward.
     if reward b \<noteq> expected_reward then bail ''block reward is invalid''
     else
       and_then (block_ticket_effects cr lg b) (\<lambda>ts.
       and_then (credit_reward_outputs (ls_utxos (v2p_lineage p)) b (burn_committee_for_block cr lg b)) (\<lambda>m.
       and_then (append_block b (compact_block_context lg)) (\<lambda>ctx.
       commit_block cr lg b p ts m ctx)))))))"

section \<open>Repair of the pools\<close>

definition still_valid :: "crypto \<Rightarrow> Ledger \<Rightarrow> string set \<Rightarrow> Transaction \<Rightarrow> bool" where
  "still_valid cr lg mined tx \<longleftrightarrow>
     tx_signature tx \<notin> mined \<and> is_ok (validate_transaction_terms cr lg tx) \<and>
     is_ok (validate_transaction_anchor_for_pending lg tx) \<and>
     is_ok (verify_signature cr tx (transaction_signing_domain_for_pending lg tx))"

definition filter_pools :: "crypto \<Rightarrow> Ledger \<Rightarrow> Block \<Rightarrow> Ledger" where
  "filter_pools cr lg b =
     (let mined = set (map tx_signature (transactions b)) in
      lg\<lparr>pending := filter (\<lambda>tx. still_valid cr lg mined tx \<and> transaction_inputs_available tx (ledger_utxos lg))
           (pending lg),
         orphans := filter (still_valid cr lg mined) (orphans lg)\<rparr>)"

definition repair_pools :: "host \<Rightarrow> Ledger \<Rightarrow> Block \<Rightarrow> unit result \<times> Ledger" where
  "repair_pools hs lg b =
     st_then (refresh_pending_pool_byte_counters hs (filter_pools (h_crypto hs) lg b)) (\<lambda>_ lg1.
     st_then (promote_orphan_transactions hs lg1) (\<lambda>_ lg2.
     st_then (revalidate_pending_v2 (h_crypto hs) lg2) (\<lambda>_ lg3.
     st_check (next_vdf_rounds_after_tip lg3) lg3 (\<lambda>rounds.
     (Inr (), lg3\<lparr>ledger_vdf_rounds := rounds\<rparr>)))))"

definition apply_block_with_vdf_policy :: "host \<Rightarrow> Ledger \<Rightarrow> Block \<Rightarrow> bool \<Rightarrow> u64 \<Rightarrow> unit result \<times> Ledger" where
  "apply_block_with_vdf_policy hs lg b should_verify_vdf now_ms =
     st_check (precheck_block_without_vdf_at hs lg b now_ms) lg (\<lambda>is_new.
     if \<not> is_new then (Inr (), lg)
     else if should_verify_vdf \<and>
       \<not> verify_vdf (h_classgroup hs) (vdf_seed (h_crypto hs) b) (vdf_rounds b) (vdf_output b)
     then (bail ''block VDF output is invalid'', lg)
     else
       st_check (block_transition (h_crypto hs) lg b) lg (\<lambda>lg1.
       repair_pools hs lg1 b))"

definition apply_block_at :: "host \<Rightarrow> Ledger \<Rightarrow> Block \<Rightarrow> u64 \<Rightarrow> unit result \<times> Ledger" where
  "apply_block_at hs lg b now_ms = apply_block_with_vdf_policy hs lg b True now_ms"

definition apply_preverified_block_at :: "host \<Rightarrow> Ledger \<Rightarrow> Block \<Rightarrow> u64 \<Rightarrow> unit result \<times> Ledger" where
  "apply_preverified_block_at hs lg b now_ms = apply_block_with_vdf_policy hs lg b False now_ms"

definition apply_self_produced_block_at :: "host \<Rightarrow> Ledger \<Rightarrow> Block \<Rightarrow> u64 \<Rightarrow> unit result \<times> Ledger" where
  "apply_self_produced_block_at hs lg b now_ms =
     (case apply_preverified_block_at hs lg b now_ms of
        (Inl e, candidate) \<Rightarrow> (Inl e, lg) | (Inr _, candidate) \<Rightarrow> (Inr (), candidate))"

section \<open>Blocks that were verified before\<close>

text \<open>
  Restoring a snapshot: the transition without signature checks. The callers discard the ledger
  when it fails, so that only the result of a success is modelled.
\<close>

definition trusted_envelope_step ::
  "crypto \<Rightarrow> Ledger \<Rightarrow> TransactionV2Domain \<Rightarrow> V2Progress \<Rightarrow> string \<Rightarrow> V2Progress result" where
  "trusted_envelope_step cr lg d p envelope =
     and_then (decode_canonical_transaction_v2_envelope envelope d) (\<lambda>tx.
     and_then (transaction_id cr tx d) (\<lambda>txid.
     and_then (apply_transaction_v2_with_lineage cr tx d (ledger_network lg) False (v2p_lineage p)) (\<lambda>ls.
     and_then (record_hybrid_legacy_owner_bindings cr (v2p_owners p) tx (ledger_network lg)) (\<lambda>owners.
     Inr \<lparr>v2p_effects = record_transaction_v2 cr tx (v2p_effects p),
          v2p_ids = insert (hex_encode txid) (v2p_ids p), v2p_lineage = ls, v2p_owners = owners\<rparr>))))"

definition apply_trusted_block_at :: "crypto \<Rightarrow> Ledger \<Rightarrow> Block \<Rightarrow> Ledger result" where
  "apply_trusted_block_at cr lg b =
     and_then (try_fold (\<lambda>ls tx. apply_transaction_with_lineage cr tx (height b) ls None) (lineage lg)
       (transactions b)) (\<lambda>ls.
     and_then (transaction_v2_domain lg) (\<lambda>d.
     and_then (try_fold (trusted_envelope_step cr lg d) (start_progress cr lg b ls) (transactions_v2 b)) (\<lambda>p.
     and_then (block_ticket_effects cr lg b) (\<lambda>ts.
     and_then (credit_reward_outputs (ls_utxos (v2p_lineage p)) b (burn_committee_for_block cr lg b)) (\<lambda>m.
     and_then (append_block b (compact_block_context lg)) (\<lambda>ctx.
     and_then (commit_block cr lg b p ts m ctx) (\<lambda>lg1.
     and_then (next_vdf_rounds_after_tip lg1) (\<lambda>rounds.
     Inr (lg1\<lparr>ledger_vdf_rounds := rounds\<rparr>)))))))))"

end
