(* ===== verification/Ledger_V2_Facts.thy ===== *)
theory Ledger_V2_Facts
  imports Ledger_V2_Ops Lineage_Facts Transaction_V2_Auth
begin

text \<open>
  Properties of the version 2 transition: the inputs exist and belong to the owners the
  transaction names, value is conserved exactly, the lineage variant yields the same outputs and
  keeps the lineage index exact, and the canonicity checks of an envelope are implied by decoding.
\<close>

section \<open>Spending\<close>

lemma v2_spend_step_eq_Inr:
  "v2_spend_step cr msg (spent, m) (p, owner, network) = Inr (spent', m') \<longleftrightarrow>
     m' = bt_remove p m \<and>
     (\<exists>o1. bt_get m p = Some o1 \<and> internal_address cr owner network = Inr (out_address o1) \<and>
           unat spent' = unat spent + unat (out_amount o1))"
  by (auto simp: v2_spend_step_def and_then_eq_Inr ok_or_eq_Inr if_bail_eq_Inr checked_add_eq_Some)

lemma v2_spend_loop:
  assumes "try_fold (v2_spend_step cr msg) (spent, m) es = Inr (spent', m')"
  shows "utxo_total m + unat spent = utxo_total m' + unat spent' \<and>
    m' = bt.del_all (map fst es) m \<and> distinct (map fst es) \<and>
    (\<forall>(p, owner, network)\<in>set es. \<exists>o1. bt_get m p = Some o1 \<and>
       internal_address cr owner network = Inr (out_address o1))"
  using assms
proof (induction es arbitrary: spent m)
  case (Cons e es)
  obtain p owner network where e: "e = (p, owner, network)" by (cases e)
  obtain s1 m1 where step: "v2_spend_step cr msg (spent, m) e = Inr (s1, m1)"
    and rest: "try_fold (v2_spend_step cr msg) (s1, m1) es = Inr (spent', m')"
    using Cons.prems by (auto simp: and_then_eq_Inr)
  obtain o1 where o1: "bt_get m p = Some o1" "internal_address cr owner network = Inr (out_address o1)"
      "unat s1 = unat spent + unat (out_amount o1)" and m1: "m1 = bt_remove p m"
    using step unfolding e v2_spend_step_eq_Inr by blast
  note IH = Cons.IH [OF rest]
  have present: "bt_get m q = Some o2 \<and> q \<noteq> p" if "bt_get m1 q = Some o2" for q o2
    using that m1 by (auto split: if_splits)
  have "p \<notin> set (map fst es)" using IH present by fastforce
  moreover have "\<forall>(q, owner, network)\<in>set es. \<exists>o2. bt_get m q = Some o2 \<and>
       internal_address cr owner network = Inr (out_address o2)"
    using IH present by fast
  moreover have "utxo_total m + unat spent = utxo_total m' + unat spent'"
    using conjunct1 [OF IH] utxo_total_remove [OF o1(1)] o1(3) m1 by simp
  ultimately show ?case using IH o1 m1 by (auto simp: e)
qed simp

lemmas v2_spend_defs = spend_legacy_inputs_def spend_v2_inputs_def

lemma spend_transaction_v2_spec:
  assumes "spend_transaction_v2_inputs cr tx network m = Inr (spent, m')"
  shows "utxo_total m = utxo_total m' + unat spent"
    and "m' = bt.del_all (transaction_v2_outpoints tx) m"
    and "distinct (transaction_v2_outpoints tx)"
    and "\<forall>p\<in>set (transaction_v2_outpoints tx). bt_get m p \<noteq> None"
    and "\<not> v2_is_mine tx"
proof -
  have "utxo_total m = utxo_total m' + unat spent \<and> m' = bt.del_all (transaction_v2_outpoints tx) m \<and>
    distinct (transaction_v2_outpoints tx) \<and> (\<forall>p\<in>set (transaction_v2_outpoints tx). bt_get m p \<noteq> None) \<and>
    \<not> v2_is_mine tx"
    using assms by (cases tx) (auto simp: v2_spend_defs and_then_eq_Inr comp_def dest!: v2_spend_loop, blast+)
  then show "utxo_total m = utxo_total m' + unat spent" "m' = bt.del_all (transaction_v2_outpoints tx) m"
    "distinct (transaction_v2_outpoints tx)" "\<forall>p\<in>set (transaction_v2_outpoints tx). bt_get m p \<noteq> None"
    "\<not> v2_is_mine tx" by blast+
qed

text \<open>
  The inputs a transaction claims, with the address each owner has on the network the input is
  checked against.
\<close>

fun v2_claims :: "TransactionV2 \<Rightarrow> AddressNetwork \<Rightarrow> (OutPoint \<times> VersionedAddress \<times> AddressNetwork) list" where
  "v2_claims (V2Migration ins outs f auths) network =
     map (\<lambda>i. (legacy_input_outpoint i, leg_owner i, Mainnet)) ins"
| "v2_claims (V2Transfer ins outs f auths) network =
     map (\<lambda>i. (v2_input_outpoint i, v2in_owner i, network)) ins"
| "v2_claims (V2Burn ins change a f anchor auths) network =
     map (\<lambda>i. (v2_input_outpoint i, v2in_owner i, network)) ins"
| "v2_claims (V2Mine recipient anchor salt nonce bits header hash) network = []"

lemma map_fst_v2_claims: "map fst (v2_claims tx network) = transaction_v2_outpoints tx"
  by (cases tx) (simp_all add: comp_def)

lemma v2_claims_owner: "(p, owner, n) \<in> set (v2_claims tx network) \<Longrightarrow> owner \<in> set (all_input_owners tx)"
  by (cases tx) auto

lemma v2_spend_owned:
  assumes "spend_transaction_v2_inputs cr tx network m = Inr (spent, m')"
    and "(p, owner, n) \<in> set (v2_claims tx network)"
  shows "\<exists>o1. bt_get m p = Some o1 \<and> internal_address cr owner n = Inr (out_address o1)"
  using assms by (cases tx) (auto simp: v2_spend_defs and_then_eq_Inr dest!: v2_spend_loop)

section \<open>Outputs\<close>

definition v2_amounts :: "TransactionV2Output list \<Rightarrow> nat" where
  "v2_amounts outs = (\<Sum>o1\<leftarrow>outs. unat (v2out_amount o1))"

lemma v2_amounts_simps [simp]:
  "v2_amounts [] = 0"
  "v2_amounts (o1 # outs) = unat (v2out_amount o1) + v2_amounts outs"
  by (simp_all add: v2_amounts_def)

lemma sum_outputs_loop:
  "try_fold (\<lambda>running o1. ok_or msg (checked_add running (v2out_amount o1))) s outs = Inr t \<Longrightarrow>
     unat t = unat s + v2_amounts outs"
  by (induction outs arbitrary: s) (auto simp: and_then_eq_Inr ok_or_eq_Inr checked_add_eq_Some)

lemma sum_outputs_eq_Inr: "sum_outputs outs = Inr t \<Longrightarrow> unat t = v2_amounts outs"
  by (auto simp: sum_outputs_def dest!: sum_outputs_loop)

lemma insert_v2_output_eq_Inr:
  "insert_v2_output cr txid network m e = Inr m' \<longleftrightarrow>
     fst e < 2 ^ 32 \<and> bt_get m (OutPoint txid (word_of_nat (fst e))) = None \<and>
     (\<exists>a. internal_address cr (v2out_address (snd e)) network = Inr a \<and>
          m' = bt_insert (OutPoint txid (word_of_nat (fst e)))
                 \<lparr>out_address = a, out_amount = v2out_amount (snd e)\<rparr> m)"
  by (auto simp: insert_v2_output_def and_then_eq_Inr if_bail_eq_Inr Let_def bt_contains_key_def)

lemma insert_v2_outputs_spec:
  "try_fold (insert_v2_output cr txid network) m es = Inr m' \<Longrightarrow>
     utxo_total m' = utxo_total m + v2_amounts (map snd es) \<and>
     (\<forall>p. bt_get m p \<noteq> None \<longrightarrow> bt_get m' p = bt_get m p)"
proof (induction es arbitrary: m)
  case (Cons e es)
  obtain m1 where step: "insert_v2_output cr txid network m e = Inr m1"
    and rest: "try_fold (insert_v2_output cr txid network) m1 es = Inr m'"
    using Cons.prems by (auto simp: and_then_eq_Inr)
  note IH = Cons.IH [OF rest]
  have m1: "utxo_total m1 = utxo_total m + unat (v2out_amount (snd e))"
    and kept: "\<forall>p. bt_get m p \<noteq> None \<longrightarrow> bt_get m1 p = bt_get m p"
    using step by (auto simp: insert_v2_output_eq_Inr utxo_total_insert_fresh)
  from IH kept have "\<forall>p. bt_get m p \<noteq> None \<longrightarrow> bt_get m' p = bt_get m p" by metis
  then show ?case using IH m1 by simp
qed simp

lemma map_snd_enumerate [simp]: "map snd (enumerate n xs) = xs"
  by (induction xs arbitrary: n) auto

section \<open>The transition\<close>

lemma v2_applyE:
  assumes "apply_transaction_v2_to_utxos_with_policy cr tx d network verify m = Inr m'"
  obtains spent m1 txid where
    "spend_transaction_v2_inputs cr tx network m = Inr (spent, m1)"
    "unat spent = v2_amounts (v2_outputs tx) + unat (v2_fee tx) + unat (v2_burned tx)"
    "verify \<longrightarrow> verify_authorizations cr tx d = Inr ()"
    "transaction_id cr tx d = Inr txid"
    "try_fold (insert_v2_output cr (hex_encode txid) network) m1 (enumerate 0 (v2_outputs tx)) = Inr m'"
  using assms
  by (auto simp: apply_transaction_v2_to_utxos_with_policy_def and_then_eq_Inr ok_or_eq_Inr
      if_bail_eq_Inr checked_add_eq_Some dest!: sum_outputs_eq_Inr split: if_splits)

lemma v2_apply_exact:
  assumes "apply_transaction_v2_to_utxos_with_policy cr tx d network verify m = Inr m'"
  shows "utxo_total m' + unat (v2_fee tx) + unat (v2_burned tx) = utxo_total m"
  using assms
proof (rule v2_applyE)
  fix spent m1 txid
  assume spend: "spend_transaction_v2_inputs cr tx network m = Inr (spent, m1)"
    and spent: "unat spent = v2_amounts (v2_outputs tx) + unat (v2_fee tx) + unat (v2_burned tx)"
    and ins: "try_fold (insert_v2_output cr (hex_encode txid) network) m1 (enumerate 0 (v2_outputs tx)) = Inr m'"
  show ?thesis
    using spend_transaction_v2_spec(1) [OF spend] insert_v2_outputs_spec [OF ins] spent by simp
qed

lemma v2_apply_authorized:
  assumes ok: "apply_transaction_v2_to_utxos_with_policy cr tx d network True m = Inr m'"
    and claim: "(p, owner, n) \<in> set (v2_claims tx network)"
  shows "\<exists>o1. \<exists>a\<in>set (authorizations tx). \<exists>payload.
    bt_get m p = Some o1 \<and> internal_address cr owner n = Inr (out_address o1) \<and>
    authorized_address cr a = Inr owner \<and> v2_signing_bytes tx d = Inr payload \<and>
    signature_holds cr payload a"
  using ok
proof (rule v2_applyE)
  fix spent m1
  assume spend: "spend_transaction_v2_inputs cr tx network m = Inr (spent, m1)"
    and verify: "True \<longrightarrow> verify_authorizations cr tx d = Inr ()"
  have "\<exists>a\<in>set (authorizations tx). \<exists>payload. authorized_address cr a = Inr owner \<and>
      v2_signing_bytes tx d = Inr payload \<and> signature_holds cr payload a"
    using verified_owner_signed [of cr tx d "()" owner] verify spend_transaction_v2_spec(5) [OF spend]
      v2_claims_owner [OF claim] by blast
  then show ?thesis using v2_spend_owned [OF spend claim] by blast
qed

section \<open>The lineage variant\<close>

lemma unindex_loop_utxos:
  "try_fold v2_unindex_step (inh, st) es = Inr (inh', st') \<Longrightarrow> ls_utxos st' = ls_utxos st"
  by (induction es arbitrary: inh st)
    (auto simp: v2_unindex_step_def and_then_eq_Inr dest!: remove_spent_utxos)

lemma attach_step_eq_Inr:
  "v2_attach_step txid root st e = Inr st' \<longleftrightarrow> fst e < 2 ^ 32 \<and>
     (\<exists>o1. bt_get (ls_utxos st) (OutPoint txid (word_of_nat (fst e))) = Some o1 \<and>
        bt_get (ls_lineage st) (OutPoint txid (word_of_nat (fst e))) = None \<and>
        index_output (OutPoint txid (word_of_nat (fst e))) o1 root st = Inr st')"
  by (auto simp: v2_attach_step_def attach_existing_output_lineage_def and_then_eq_Inr ok_or_eq_Inr
      if_bail_eq_Inr Let_def bt_contains_key_def)

lemma attach_loop_utxos:
  "try_fold (v2_attach_step txid root) st es = Inr st' \<Longrightarrow> ls_utxos st' = ls_utxos st"
  by (induction es arbitrary: st) (auto simp: and_then_eq_Inr attach_step_eq_Inr dest!: index_output_utxos)

lemma v2_spent_outputs_eq_Inr:
  "v2_spent_outputs m ps = Inr es \<longleftrightarrow>
     list_all2 (\<lambda>p e. bt_get m p = Some (snd e) \<and> fst e = p) ps es"
proof -
  have "and_then (ok_or msg (bt_get m p)) (\<lambda>output. Inr (p, output)) = Inr e \<longleftrightarrow>
      bt_get m p = Some (snd e) \<and> fst e = p" for msg p e
    by (cases e) (auto simp: and_then_eq_Inr ok_or_eq_Inr)
  then show ?thesis by (simp only: v2_spent_outputs_def try_map_eq_Inr)
qed

lemma v2_lineageE:
  assumes "apply_transaction_v2_with_lineage cr tx d network verify st = Inr st'"
  obtains es m inh st1 where
    "apply_transaction_v2_to_utxos_with_policy cr tx d network verify (ls_utxos st) = Inr m"
    "v2_spent_outputs (ls_utxos st) (transaction_v2_outpoints tx) = Inr es"
    "try_fold v2_unindex_step (None, st\<lparr>ls_utxos := m\<rparr>) es = Inr (inh, st1)"
    "(inh = None \<and> st' = st1) \<or> (\<exists>root txid. inh = Some root \<and>
       try_fold (v2_attach_step txid root) st1 (enumerate 0 (v2_outputs tx)) = Inr st')"
proof -
  obtain es m inh st1 where ok: "apply_transaction_v2_to_utxos_with_policy cr tx d network verify (ls_utxos st) = Inr m"
    "v2_spent_outputs (ls_utxos st) (transaction_v2_outpoints tx) = Inr es"
    "try_fold v2_unindex_step (None, st\<lparr>ls_utxos := m\<rparr>) es = Inr (inh, st1)"
    and rest: "(case inh of None \<Rightarrow> Inr st1 | Some root \<Rightarrow> and_then (transaction_id cr tx d) (\<lambda>txid.
      try_fold (v2_attach_step (hex_encode txid) root) st1 (enumerate 0 (v2_outputs tx)))) = Inr st'"
    using assms by (auto simp: apply_transaction_v2_with_lineage_def and_then_eq_Inr)
  have "(inh = None \<and> st' = st1) \<or> (\<exists>root txid. inh = Some root \<and>
       try_fold (v2_attach_step txid root) st1 (enumerate 0 (v2_outputs tx)) = Inr st')"
    using rest by (cases inh) (auto simp: and_then_eq_Inr)
  with ok show thesis by (rule that)
qed

lemma v2_lineage_refines:
  assumes "apply_transaction_v2_with_lineage cr tx d network verify st = Inr st'"
  shows "apply_transaction_v2_to_utxos_with_policy cr tx d network verify (ls_utxos st) = Inr (ls_utxos st')"
  using assms by (rule v2_lineageE) (auto dest!: unindex_loop_utxos attach_loop_utxos)

lemma unindex_loop_inv:
  assumes "try_fold v2_unindex_step (inh, st) es = Inr (inh', st')" and "lineage_inv_on m st"
    and "\<forall>e\<in>set es. bt_get m (fst e) = Some (snd e)"
  shows "lineage_inv_on m st' \<and>
    (\<forall>p root. bt_get (ls_lineage st') p = Some root \<longrightarrow>
       p \<notin> fst ` set es \<and> bt_get (ls_lineage st) p = Some root)"
  using assms
proof (induction es arbitrary: inh st)
  case (Cons e es)
  obtain inh1 st1 where first: "v2_unindex_step (inh, st) e = Inr (inh1, st1)"
    and rest: "try_fold v2_unindex_step (inh1, st1) es = Inr (inh', st')"
    using Cons.prems(1) by (auto simp: and_then_eq_Inr)
  obtain root where step: "remove_spent_output_lineage (fst e) (snd e) st = Inr (root, st1)"
    using first by (auto simp: v2_unindex_step_def and_then_eq_Inr)
  have st1: "lineage_inv_on m st1 \<and> bt_get (ls_lineage st1) = (bt_get (ls_lineage st))(fst e := None)"
    using remove_spent_inv_on [OF step Cons.prems(2)] Cons.prems(3) by simp
  have "p \<noteq> fst e \<and> bt_get (ls_lineage st) p = Some r" if "bt_get (ls_lineage st1) p = Some r" for p r
    using that st1 by (auto split: if_splits)
  then show ?case
    using Cons.IH [OF rest conjunct1 [OF st1]] Cons.prems(3) by auto
qed simp

lemma attach_loop_inv:
  assumes "try_fold (v2_attach_step txid root) st es = Inr st'" and "lineage_inv st"
  shows "lineage_inv st'"
proof (rule try_fold_invariant [where P = lineage_inv, OF assms])
  fix s e s'
  assume step: "v2_attach_step txid root s e = Inr s'" and inv: "lineage_inv s"
  obtain o1 where "bt_get (ls_utxos s) (OutPoint txid (word_of_nat (fst e))) = Some o1"
    "bt_get (ls_lineage s) (OutPoint txid (word_of_nat (fst e))) = None"
    "index_output (OutPoint txid (word_of_nat (fst e))) o1 root s = Inr s'"
    using step by (auto simp: attach_step_eq_Inr)
  then show "lineage_inv s'"
    using inv index_output_inv index_output_utxos unfolding lineage_inv_def by metis
qed

lemma v2_kept_outputs:
  assumes "apply_transaction_v2_to_utxos_with_policy cr tx d network verify m = Inr m'"
    and "bt_get m p \<noteq> None" and "p \<notin> set (transaction_v2_outpoints tx)"
  shows "bt_get m' p = bt_get m p"
  using assms(1)
proof (rule v2_applyE)
  fix spent m1 txid
  assume spend: "spend_transaction_v2_inputs cr tx network m = Inr (spent, m1)"
    and ins: "try_fold (insert_v2_output cr (hex_encode txid) network) m1 (enumerate 0 (v2_outputs tx)) = Inr m'"
  have "bt_get m1 p = bt_get m p"
    using spend_transaction_v2_spec(2) [OF spend] assms(3) by (simp add: bt.get_del_all)
  then show ?thesis using insert_v2_outputs_spec [OF ins] assms(2) by auto
qed

lemma v2_lineage_inv:
  assumes "apply_transaction_v2_with_lineage cr tx d network verify st = Inr st'" and inv: "lineage_inv st"
  shows "lineage_inv st'"
  using assms(1)
proof (rule v2_lineageE)
  fix es m inh st1
  assume ok: "apply_transaction_v2_to_utxos_with_policy cr tx d network verify (ls_utxos st) = Inr m"
    and es: "v2_spent_outputs (ls_utxos st) (transaction_v2_outpoints tx) = Inr es"
    and unindex: "try_fold v2_unindex_step (None, st\<lparr>ls_utxos := m\<rparr>) es = Inr (inh, st1)"
    and result: "(inh = None \<and> st' = st1) \<or> (\<exists>root txid. inh = Some root \<and>
       try_fold (v2_attach_step txid root) st1 (enumerate 0 (v2_outputs tx)) = Inr st')"
  have keys: "fst ` set es = set (transaction_v2_outpoints tx)"
    using es unfolding v2_spent_outputs_eq_Inr by (induction rule: list_all2_induct) auto
  have entries: "\<forall>e\<in>set es. bt_get (ls_utxos st) (fst e) = Some (snd e)"
    using es unfolding v2_spent_outputs_eq_Inr by (induction rule: list_all2_induct) auto
  have st1: "lineage_inv_on (ls_utxos st) st1 \<and>
    (\<forall>p root. bt_get (ls_lineage st1) p = Some root \<longrightarrow>
       p \<notin> set (transaction_v2_outpoints tx) \<and> bt_get (ls_lineage st) p = Some root)"
    using unindex_loop_inv [OF unindex _ entries] inv keys by (simp add: lineage_inv_def)
  have "lineage_inv_on m st1"
  proof (rule lineage_inv_on_cong [OF conjunct1 [OF st1]])
    fix p root
    assume p: "bt_get (ls_lineage st1) p = Some root"
    then have "bt_get (ls_utxos st) p \<noteq> None"
      using st1 unfolding lineage_inv_on_def by blast
    then show "bt_get m p = bt_get (ls_utxos st) p"
      using v2_kept_outputs [OF ok] st1 p by blast
  qed
  then have "lineage_inv st1"
    using unindex_loop_utxos [OF unindex] by (simp add: lineage_inv_def)
  then show ?thesis using result attach_loop_inv by blast
qed

section \<open>Envelopes\<close>

text \<open>
  The re-encoding check of an envelope never fires: decoding already implies it.
\<close>

lemma decode_envelope_iff:
  "decode_canonical_transaction_v2_envelope envelope d = Inr tx \<longleftrightarrow>
     v2_domain_ok d \<and> v2_wf tx \<and> (\<exists>bs. v2_encode tx d = Inr bs \<and> envelope = hex_encode bs)"
  by (auto simp: decode_canonical_transaction_v2_envelope_def and_then_eq_Inr with_context_eq_Inr
      if_bail_eq_Inr v2_decode_iff)

end
