(* ===== verification/Ledger_Apply_Facts.thy ===== *)
theory Ledger_Apply_Facts
  imports Ledger_Apply Ledger_V2_Facts
begin

text \<open>
  What the application of a block guarantees: the confirmed state moves as a whole or not at all,
  the block extends the chain, value is conserved, the lineage index stays exact, and restoring
  a verified block reproduces the state that verification produced.
\<close>

section \<open>The confirmed state\<close>

text \<open>The ledger without its pools and without the rounds derived for the next block.\<close>

definition confirmed :: "Ledger \<Rightarrow> Ledger" where
  "confirmed lg = lg\<lparr>pending := [], orphans := [], pending_bytes := 0, orphan_bytes := 0,
     pending_v2 := [], pending_v2_bytes := 0, ledger_vdf_rounds := 0\<rparr>"

lemma confirmed_pools [simp]:
  "confirmed (lg\<lparr>pending := p\<rparr>) = confirmed lg"
  "confirmed (lg\<lparr>orphans := p\<rparr>) = confirmed lg"
  "confirmed (lg\<lparr>pending_bytes := n\<rparr>) = confirmed lg"
  "confirmed (lg\<lparr>orphan_bytes := n\<rparr>) = confirmed lg"
  "confirmed (lg\<lparr>pending_v2 := q\<rparr>) = confirmed lg"
  "confirmed (lg\<lparr>pending_v2_bytes := n\<rparr>) = confirmed lg"
  "confirmed (lg\<lparr>ledger_vdf_rounds := r\<rparr>) = confirmed lg"
  by (simp_all add: confirmed_def)

lemma confirmed_keeps [simp]:
  "chain (confirmed lg) = chain lg" "lineage (confirmed lg) = lineage lg"
  "tickets (confirmed lg) = tickets lg"
  "mined_transaction_ids (confirmed lg) = mined_transaction_ids lg"
  "objective_finality_checkpoint (confirmed lg) = objective_finality_checkpoint lg"
  "launch_profile (confirmed lg) = launch_profile lg"
  "genesis_allocations (confirmed lg) = genesis_allocations lg"
  "history_pruned (confirmed lg) = history_pruned lg"
  by (simp_all add: confirmed_def)

lemma refresh_confirmed: "confirmed (snd (refresh_pending_pool_byte_counters hs lg)) = confirmed lg"
  by (auto simp: refresh_pending_pool_byte_counters_def st_check_def Let_def split: sum.splits)

lemma promote_at_confirmed [simp]: "confirmed (promote_at lg i n) = confirmed lg"
  by (simp add: promote_at_def)

lemma promote_confirmed: "confirmed (snd (promote_orphan_transactions hs lg)) = confirmed lg"
  by (rule promote_invariant) simp_all

lemma revalidate_loop_confirmed: "confirmed (snd (revalidate_loop cr h d txs m lg)) = confirmed lg"
  by (induction cr h d txs m lg rule: revalidate_loop.induct)
    (auto simp: st_check_def split: sum.splits)

lemma revalidate_confirmed: "confirmed (snd (revalidate_pending_v2 cr lg)) = confirmed lg"
  by (auto simp: revalidate_pending_v2_def revalidate_pending_v2_at_height_def st_check_def
      revalidate_loop_confirmed split: sum.splits)

lemma filter_pools_confirmed [simp]: "confirmed (filter_pools cr lg b) = confirmed lg"
  by (simp add: filter_pools_def Let_def)

lemma st_then_confirmed:
  assumes "confirmed (snd r) = c" and "\<And>x s. confirmed s = c \<Longrightarrow> confirmed (snd (f x s)) = c"
  shows "confirmed (snd (st_then r f)) = c"
  using assms by (cases r; cases "fst r") auto

lemma repair_confirmed: "confirmed (snd (repair_pools hs lg b)) = confirmed lg"
  unfolding repair_pools_def
  by (intro st_then_confirmed)
    (simp_all add: refresh_confirmed promote_confirmed revalidate_confirmed st_check_def split: sum.splits)

text \<open>
  The outcome of applying a block: the ledger is untouched, or every check has passed and the
  confirmed state is that of the transition, whatever happened to the pools.
\<close>

lemma repair_confirmedD: "repair_pools hs lg b = (r, lg') \<Longrightarrow> confirmed lg' = confirmed lg"
  using repair_confirmed [of hs lg b] by simp

lemma apply_block_atomic:
  assumes "apply_block_with_vdf_policy hs lg b v now = (r, lg')"
  shows "lg' = lg \<or> (precheck_block_without_vdf_at hs lg b now = Inr True \<and>
    (\<exists>lg1. block_transition (h_crypto hs) lg b = Inr lg1 \<and> confirmed lg' = confirmed lg1))"
  using assms
  by (auto simp: apply_block_with_vdf_policy_def st_check_def dest!: repair_confirmedD
      split: sum.splits if_splits)

lemma apply_block_ok:
  assumes "apply_block_with_vdf_policy hs lg b v now = (Inr u, lg')" and "height (tip lg) < height b"
  shows "precheck_new_block hs lg b now = Inr ()"
    and "v \<Longrightarrow> verify_vdf (h_classgroup hs) (vdf_seed (h_crypto hs) b) (vdf_rounds b) (vdf_output b)"
    and "\<exists>lg1. block_transition (h_crypto hs) lg b = Inr lg1 \<and> confirmed lg' = confirmed lg1"
  using assms
  by (auto simp: apply_block_with_vdf_policy_def precheck_block_without_vdf_at_def st_check_def
      and_then_eq_Inr and_then_eq_Inl dest!: repair_confirmedD split: sum.splits if_splits)

section \<open>The transition\<close>

lemma address_effects_keep [simp]:
  "chain (commit_block_address_effects lg eff) = chain lg"
  "lineage (commit_block_address_effects lg eff) = lineage lg"
  "tickets (commit_block_address_effects lg eff) = tickets lg"
  "mined_transaction_ids (commit_block_address_effects lg eff) = mined_transaction_ids lg"
  "objective_finality_checkpoint (commit_block_address_effects lg eff) = objective_finality_checkpoint lg"
  "launch_profile (commit_block_address_effects lg eff) = launch_profile lg"
  "pending (commit_block_address_effects lg eff) = pending lg"
  "orphans (commit_block_address_effects lg eff) = orphans lg"
  "pending_bytes (commit_block_address_effects lg eff) = pending_bytes lg"
  "orphan_bytes (commit_block_address_effects lg eff) = orphan_bytes lg"
  by (simp_all add: commit_block_address_effects_def)

lemma ticket_draw_keeps [simp]:
  "chain (record_ticket_draw lg h dr) = chain lg"
  "lineage (record_ticket_draw lg h dr) = lineage lg"
  "tickets (record_ticket_draw lg h dr) = tickets lg"
  "mined_transaction_ids (record_ticket_draw lg h dr) = mined_transaction_ids lg"
  "objective_finality_checkpoint (record_ticket_draw lg h dr) = objective_finality_checkpoint lg"
  "launch_profile (record_ticket_draw lg h dr) = launch_profile lg"
  "pending (record_ticket_draw lg h dr) = pending lg"
  "orphans (record_ticket_draw lg h dr) = orphans lg"
  "pending_bytes (record_ticket_draw lg h dr) = pending_bytes lg"
  "orphan_bytes (record_ticket_draw lg h dr) = orphan_bytes lg"
  by (simp_all add: record_ticket_draw_def Let_def split: option.splits)

lemma retarget_observation_keeps:
  assumes "record_vdf_retarget_observation lg b = Inr lg'"
  shows "chain lg' = chain lg" "lineage lg' = lineage lg" "tickets lg' = tickets lg"
    "mined_transaction_ids lg' = mined_transaction_ids lg"
    "objective_finality_checkpoint lg' = objective_finality_checkpoint lg"
    "launch_profile lg' = launch_profile lg" "pending lg' = pending lg" "orphans lg' = orphans lg"
    "pending_bytes lg' = pending_bytes lg" "orphan_bytes lg' = orphan_bytes lg"
  using assms
  by (auto simp: record_vdf_retarget_observation_def Let_def and_then_eq_Inr split: if_splits option.splits)

lemma difficulty_cache_keeps [simp]:
  "chain (update_mine_difficulty_cache_after_tip lg) = chain lg"
  "lineage (update_mine_difficulty_cache_after_tip lg) = lineage lg"
  "tickets (update_mine_difficulty_cache_after_tip lg) = tickets lg"
  "mined_transaction_ids (update_mine_difficulty_cache_after_tip lg) = mined_transaction_ids lg"
  "objective_finality_checkpoint (update_mine_difficulty_cache_after_tip lg) = objective_finality_checkpoint lg"
  "launch_profile (update_mine_difficulty_cache_after_tip lg) = launch_profile lg"
  "pending (update_mine_difficulty_cache_after_tip lg) = pending lg"
  "orphans (update_mine_difficulty_cache_after_tip lg) = orphans lg"
  "pending_bytes (update_mine_difficulty_cache_after_tip lg) = pending_bytes lg"
  "orphan_bytes (update_mine_difficulty_cache_after_tip lg) = orphan_bytes lg"
  by (simp_all add: update_mine_difficulty_cache_after_tip_def Let_def)

lemma commit_block_spec:
  assumes "commit_block cr lg b p ts m ctx = Inr lg'"
  shows "chain lg' = chain lg @ [b]" and "lineage lg' = (v2p_lineage p)\<lparr>ls_utxos := m\<rparr>"
    and "tickets lg' = ts" and "launch_profile lg' = launch_profile lg"
    and "mined_transaction_ids lg' =
      mined_transaction_ids lg \<union> set (map tx_signature (transactions b)) \<union> v2p_ids p"
    and "objective_finality_checkpoint lg' =
      (case certified_parent cr lg b of Some cp \<Rightarrow> Some cp | None \<Rightarrow> objective_finality_checkpoint lg)"
    and "pending lg' = pending lg" "orphans lg' = orphans lg"
    and "pending_bytes lg' = pending_bytes lg" "orphan_bytes lg' = orphan_bytes lg"
proof -
  obtain lg3 where obs: "record_vdf_retarget_observation (record_ticket_draw
        (commit_block_address_effects
          (lg\<lparr>lineage := (v2p_lineage p)\<lparr>ls_utxos := m\<rparr>, hybrid_legacy_owners := v2p_owners p,
              tickets := ts, compact_block_context := ctx,
              mined_transaction_ids := mined_transaction_ids lg \<union> set (map tx_signature (transactions b)) \<union>
                v2p_ids p\<rparr>) (v2p_effects p)) (height b) (ticket_draw_before cr lg b)) b = Inr lg3"
    and lg': "lg' = (case certified_parent cr lg b of
        Some cp \<Rightarrow> (update_mine_difficulty_cache_after_tip (lg3\<lparr>chain := chain lg3 @ [b]\<rparr>))
          \<lparr>objective_finality_checkpoint := Some cp\<rparr>
      | None \<Rightarrow> update_mine_difficulty_cache_after_tip (lg3\<lparr>chain := chain lg3 @ [b]\<rparr>))"
    using assms unfolding commit_block_def Let_def and_then_eq_Inr by blast
  note keeps = retarget_observation_keeps [OF obs]
  show "chain lg' = chain lg @ [b]" "lineage lg' = (v2p_lineage p)\<lparr>ls_utxos := m\<rparr>"
    "tickets lg' = ts" "launch_profile lg' = launch_profile lg"
    "mined_transaction_ids lg' =
      mined_transaction_ids lg \<union> set (map tx_signature (transactions b)) \<union> v2p_ids p"
    "objective_finality_checkpoint lg' =
      (case certified_parent cr lg b of Some cp \<Rightarrow> Some cp | None \<Rightarrow> objective_finality_checkpoint lg)"
    "pending lg' = pending lg" "orphans lg' = orphans lg"
    "pending_bytes lg' = pending_bytes lg" "orphan_bytes lg' = orphan_bytes lg"
    unfolding lg' by (simp_all add: keeps split: option.splits)
qed

lemma block_transitionE:
  assumes "block_transition cr lg b = Inr lg'"
  obtains signatures ls d p ts m ctx where
    "try_fold (block_transaction_step cr lg b) ({}, lineage lg) (transactions b) = Inr (signatures, ls)"
    "transaction_v2_domain lg = Inr d"
    "try_fold (block_envelope_step cr lg b d) (start_progress cr lg b ls) (transactions_v2 b) = Inr p"
    "expected_reward_for_block lg b = Inr (reward b)"
    "block_ticket_effects cr lg b = Inr ts"
    "credit_reward_outputs (ls_utxos (v2p_lineage p)) b (burn_committee_for_block cr lg b) = Inr m"
    "append_block b (compact_block_context lg) = Inr ctx"
    "commit_block cr lg b p ts m ctx = Inr lg'"
  using assms by (auto simp: block_transition_def and_then_eq_Inr if_bail_eq_Inr)

lemma transaction_step_eq_Inr:
  "block_transaction_step cr lg b (signatures, ls) tx = Inr (signatures', ls') \<longleftrightarrow>
    tx_signature tx \<notin> signatures \<and> signatures' = insert (tx_signature tx) signatures \<and>
    validate_transaction_terms cr lg tx = Inr () \<and>
    validate_transaction_anchor_for_block lg tx (height b) = Inr () \<and>
    apply_transaction_with_lineage cr tx (height b) ls
      (Some (transaction_signing_domain_at lg (height b))) = Inr ls'"
  by (auto simp: block_transaction_step_def and_then_eq_Inr if_bail_eq_Inr)

lemma envelope_step_eq_Inr:
  "block_envelope_step cr lg b d p envelope = Inr p' \<longleftrightarrow>
    (\<exists>tx txid. decode_canonical_transaction_v2_envelope envelope d = Inr tx \<and>
      validate_transaction_v2_anchor_for_block lg tx (height b) = Inr () \<and>
      validate_authorization_policy_at_height cr tx (height b) = Inr () \<and>
      transaction_id cr tx d = Inr txid \<and> hex_encode txid \<notin> v2p_ids p \<and>
      apply_transaction_v2_with_lineage cr tx d (ledger_network lg) True (v2p_lineage p) = Inr (v2p_lineage p') \<and>
      record_hybrid_legacy_owner_bindings cr (v2p_owners p) tx (ledger_network lg) = Inr (v2p_owners p') \<and>
      v2p_effects p' = record_transaction_v2 cr tx (v2p_effects p) \<and>
      v2p_ids p' = insert (hex_encode txid) (v2p_ids p))"
  by (cases p') (auto simp: block_envelope_step_def and_then_eq_Inr if_bail_eq_Inr Let_def)

subsection \<open>Value\<close>

text \<open>What a block mints and burns: mine transactions mint their reward and the finalizer's fee.\<close>

definition block_minted :: "Block \<Rightarrow> nat" where
  "block_minted b = (\<Sum>tx\<leftarrow>transactions b. if is_mine tx then unat MINE_REWARD + unat (fee tx) else 0)"

definition envelope_value :: "TransactionV2Domain \<Rightarrow> (TransactionV2 \<Rightarrow> u64) \<Rightarrow> string \<Rightarrow> nat" where
  "envelope_value d f envelope =
     (case decode_canonical_transaction_v2_envelope envelope d of Inr tx \<Rightarrow> unat (f tx) | Inl _ \<Rightarrow> 0)"

definition block_burned :: "Ledger \<Rightarrow> Block \<Rightarrow> nat" where
  "block_burned lg b =
     (\<Sum>tx\<leftarrow>transactions b. unat (burned_amount tx)) +
     (case transaction_v2_domain lg of
        Inr d \<Rightarrow> (\<Sum>e\<leftarrow>transactions_v2 b. envelope_value d v2_burned e) | Inl _ \<Rightarrow> 0)"

lemma burned_amount_mine: "is_mine tx \<Longrightarrow> burned_amount tx = 0"
  by (cases tx) auto

lemma transaction_loop_value:
  assumes "try_fold (block_transaction_step cr lg b) (signatures, ls) txs = Inr (signatures', ls')"
  shows "utxo_total (ls_utxos ls') + (\<Sum>tx\<leftarrow>txs. unat (fee tx)) + (\<Sum>tx\<leftarrow>txs. unat (burned_amount tx)) =
    utxo_total (ls_utxos ls) + (\<Sum>tx\<leftarrow>txs. if is_mine tx then unat MINE_REWARD + unat (fee tx) else 0)"
  using assms
proof (induction txs arbitrary: signatures ls)
  case (Cons tx txs)
  obtain s1 ls1 where step: "block_transaction_step cr lg b (signatures, ls) tx = Inr (s1, ls1)"
    and rest: "try_fold (block_transaction_step cr lg b) (s1, ls1) txs = Inr (signatures', ls')"
    using Cons.prems by (auto simp: and_then_eq_Inr)
  have "utxo_total (ls_utxos ls1) + withdrawn tx = utxo_total (ls_utxos ls) + minted tx"
    using step apply_with_lineage_exact
    by (auto simp: transaction_step_eq_Inr apply_transaction_with_lineage_def and_then_eq_Inr)
  then show ?case
    using Cons.IH [OF rest] by (auto simp: withdrawn_def minted_def burned_amount_mine split: if_splits)
qed simp

lemma envelope_loop_value:
  assumes "try_fold (block_envelope_step cr lg b d) p es = Inr p'"
  shows "utxo_total (ls_utxos (v2p_lineage p')) + (\<Sum>e\<leftarrow>es. envelope_value d v2_fee e) +
    (\<Sum>e\<leftarrow>es. envelope_value d v2_burned e) = utxo_total (ls_utxos (v2p_lineage p))"
  using assms
proof (induction es arbitrary: p)
  case (Cons e es)
  obtain p1 where step: "block_envelope_step cr lg b d p e = Inr p1"
    and rest: "try_fold (block_envelope_step cr lg b d) p1 es = Inr p'"
    using Cons.prems by (auto simp: and_then_eq_Inr)
  obtain tx where dec: "decode_canonical_transaction_v2_envelope e d = Inr tx"
    and app: "apply_transaction_v2_with_lineage cr tx d (ledger_network lg) True (v2p_lineage p) =
      Inr (v2p_lineage p1)"
    using step by (auto simp: envelope_step_eq_Inr)
  show ?case
    using v2_apply_exact [OF v2_lineage_refines [OF app]] Cons.IH [OF rest] dec
    by (simp add: envelope_value_def)
qed simp

lemma v2_fees_value:
  assumes "transaction_v2_fees lg es = Inr total_fees" and "transaction_v2_domain lg = Inr d"
  shows "unat total_fees = (\<Sum>e\<leftarrow>es. envelope_value d v2_fee e)"
proof -
  have "unat t' = unat t + (\<Sum>e\<leftarrow>es. envelope_value d v2_fee e)"
    if "try_fold (\<lambda>running envelope.
       and_then (decode_canonical_transaction_v2_envelope envelope d) (\<lambda>tx.
       if v2_fee tx = 0 then bail ''block transaction v2 fee must be greater than zero''
       else ok_or ''block transaction v2 fees overflow'' (checked_add running (v2_fee tx)))) t es = Inr t'"
    for t t'
    using that
    by (induction es arbitrary: t)
      (auto simp: and_then_eq_Inr if_bail_eq_Inr ok_or_eq_Inr checked_add_eq_Some envelope_value_def)
  from this [of 0 total_fees] show ?thesis
    using assms by (simp add: transaction_v2_fees_def)
qed

lemma expected_reward_value:
  assumes "expected_reward_for_block lg b = Inr r" and "transaction_v2_domain lg = Inr d"
  shows "unat r = (\<Sum>tx\<leftarrow>transactions b. unat (fee tx)) + (\<Sum>e\<leftarrow>transactions_v2 b. envelope_value d v2_fee e)"
  using assms(1) v2_fees_value [OF _ assms(2)] fee_reward_eq_Inr
  by (auto simp: expected_reward_for_block_def total_block_reward_def and_then_eq_Inr ok_or_eq_Inr
      checked_add_eq_Some)

lemma block_supply:
  assumes "block_transition cr lg b = Inr lg'"
  shows "utxo_total (ledger_utxos lg') + block_burned lg b \<le> utxo_total (ledger_utxos lg) + block_minted b"
  using assms
proof (rule block_transitionE)
  fix signatures ls d p ts m ctx
  assume txs: "try_fold (block_transaction_step cr lg b) ({}, lineage lg) (transactions b) = Inr (signatures, ls)"
    and d: "transaction_v2_domain lg = Inr d"
    and es: "try_fold (block_envelope_step cr lg b d) (start_progress cr lg b ls) (transactions_v2 b) = Inr p"
    and reward: "expected_reward_for_block lg b = Inr (reward b)"
    and credit: "credit_reward_outputs (ls_utxos (v2p_lineage p)) b (burn_committee_for_block cr lg b) = Inr m"
    and commit: "commit_block cr lg b p ts m ctx = Inr lg'"
  have "ledger_utxos lg' = m" using commit_block_spec(2) [OF commit] by simp
  moreover have "v2p_lineage (start_progress cr lg b ls) = ls" by (simp add: start_progress_def)
  ultimately show ?thesis
    using transaction_loop_value [OF txs] envelope_loop_value [OF es] credit_reward_le [OF credit]
      expected_reward_value [OF reward d] d
    by (simp add: block_minted_def block_burned_def)
qed

subsection \<open>The lineage index\<close>

lemma transaction_loop_inv:
  assumes "try_fold (block_transaction_step cr lg b) (signatures, ls) txs = Inr (signatures', ls')"
    and "lineage_inv ls"
  shows "lineage_inv ls'"
  using try_fold_invariant [where P = "\<lambda>s. lineage_inv (snd s)", OF assms(1)] assms(2)
    apply_with_lineage_inv
  by (fastforce simp: transaction_step_eq_Inr apply_transaction_with_lineage_def and_then_eq_Inr)

lemma envelope_loop_inv:
  assumes "try_fold (block_envelope_step cr lg b d) p es = Inr p'" and "lineage_inv (v2p_lineage p)"
  shows "lineage_inv (v2p_lineage p')"
  by (rule try_fold_invariant [where P = "\<lambda>p. lineage_inv (v2p_lineage p)", OF assms])
    (auto simp: envelope_step_eq_Inr intro: v2_lineage_inv)

lemma committee_shares_txid: "e \<in> set (committee_shares b r ms) \<Longrightarrow> op_txid (fst e) = block_hash b"
  by (induction b r ms rule: committee_shares.induct)
    (auto simp: Let_def committee_reward_outpoint_def split: if_splits)

lemma reward_outputs_txid: "e \<in> set (reward_outputs_for_block b ms) \<Longrightarrow> op_txid (fst e) = block_hash b"
  by (auto simp: reward_outputs_for_block_def Let_def reward_outpoint_def committee_shares_txid
      split: if_splits)

lemma block_lineage_inv:
  assumes "block_transition cr lg b = Inr lg'" and "lineage_inv (lineage lg)"
    and fresh: "\<And>p root. bt_get (ls_lineage (lineage lg')) p = Some root \<Longrightarrow> op_txid p \<noteq> block_hash b"
  shows "lineage_inv (lineage lg')"
  using assms(1)
proof (rule block_transitionE)
  fix signatures ls d p ts m ctx
  assume txs: "try_fold (block_transaction_step cr lg b) ({}, lineage lg) (transactions b) = Inr (signatures, ls)"
    and es: "try_fold (block_envelope_step cr lg b d) (start_progress cr lg b ls) (transactions_v2 b) = Inr p"
    and credit: "credit_reward_outputs (ls_utxos (v2p_lineage p)) b (burn_committee_for_block cr lg b) = Inr m"
    and commit: "commit_block cr lg b p ts m ctx = Inr lg'"
  have lg': "lineage lg' = (v2p_lineage p)\<lparr>ls_utxos := m\<rparr>" by (rule commit_block_spec(2) [OF commit])
  have inv: "lineage_inv (v2p_lineage p)"
    using envelope_loop_inv [OF es] transaction_loop_inv [OF txs assms(2)] by (simp add: start_progress_def)
  have m: "m = insert_entries (reward_outputs_for_block b (burn_committee_for_block cr lg b))
      (ls_utxos (v2p_lineage p))"
    using credit by (auto simp: credit_reward_outputs_def Let_def and_then_eq_Inr)
  have "lineage_inv_on m (v2p_lineage p)"
  proof (rule lineage_inv_on_cong [OF inv [unfolded lineage_inv_def]])
    fix q root assume "bt_get (ls_lineage (v2p_lineage p)) q = Some root"
    then have "op_txid q \<noteq> block_hash b" using fresh lg' by simp
    then have "q \<notin> fst ` set (reward_outputs_for_block b (burn_committee_for_block cr lg b))"
      using reward_outputs_txid by fastforce
    then show "bt_get m q = bt_get (ls_utxos (v2p_lineage p)) q"
      unfolding m by (rule bt_get_insert_entries_notin)
  qed
  then show ?thesis unfolding lg' lineage_inv_def by simp
qed

subsection \<open>Identifiers\<close>

lemma transaction_loop_ids:
  assumes "try_fold (block_transaction_step cr lg b) (signatures, ls) txs = Inr (signatures', ls')"
  shows "distinct (map tx_signature txs) \<and> tx_signature ` set txs \<inter> signatures = {} \<and>
    (\<forall>tx\<in>set txs. validate_transaction_terms cr lg tx = Inr () \<and>
      verify_signature cr tx (transaction_signing_domain_at lg (height b)) = Inr ())"
  using assms
proof (induction txs arbitrary: signatures ls)
  case (Cons tx txs)
  obtain s1 ls1 where step: "block_transaction_step cr lg b (signatures, ls) tx = Inr (s1, ls1)"
    and rest: "try_fold (block_transaction_step cr lg b) (s1, ls1) txs = Inr (signatures', ls')"
    using Cons.prems by (auto simp: and_then_eq_Inr)
  show ?case
    using step Cons.IH [OF rest]
    by (auto simp: transaction_step_eq_Inr apply_transaction_with_lineage_def and_then_eq_Inr)
qed simp

text \<open>The identifier of an envelope, as the replay check and the index of mined identifiers use it.\<close>

definition envelope_id :: "crypto \<Rightarrow> TransactionV2Domain \<Rightarrow> string \<Rightarrow> string" where
  "envelope_id cr d envelope =
     (case and_then (decode_canonical_transaction_v2_envelope envelope d) (\<lambda>tx. transaction_id cr tx d) of
        Inr txid \<Rightarrow> hex_encode txid | Inl _ \<Rightarrow> [])"

lemma envelope_loop_ids:
  assumes "try_fold (block_envelope_step cr lg b d) p es = Inr p'"
  shows "v2p_ids p' = v2p_ids p \<union> envelope_id cr d ` set es \<and> distinct (map (envelope_id cr d) es)
    \<and> envelope_id cr d ` set es \<inter> v2p_ids p = {}"
  using assms
proof (induction es arbitrary: p)
  case (Cons e es)
  obtain p1 where step: "block_envelope_step cr lg b d p e = Inr p1"
    and rest: "try_fold (block_envelope_step cr lg b d) p1 es = Inr p'"
    using Cons.prems by (auto simp: and_then_eq_Inr)
  obtain tx txid where "decode_canonical_transaction_v2_envelope e d = Inr tx" "transaction_id cr tx d = Inr txid"
    and fresh: "hex_encode txid \<notin> v2p_ids p" and ids: "v2p_ids p1 = insert (hex_encode txid) (v2p_ids p)"
    using step unfolding envelope_step_eq_Inr by blast
  then have "envelope_id cr d e = hex_encode txid" by (simp add: envelope_id_def)
  then show ?case using Cons.IH [OF rest] fresh unfolding ids by auto
qed simp

lemma replay_loop:
  assumes "try_fold (replay_step cr lg d) ids es = Inr ids'"
  shows "envelope_id cr d ` set es \<inter> mined_transaction_ids lg = {}"
  using assms
proof (induction es arbitrary: ids)
  case (Cons e es)
  obtain s where step: "replay_step cr lg d ids e = Inr s" and rest: "try_fold (replay_step cr lg d) s es = Inr ids'"
    using Cons.prems by (auto simp: and_then_eq_Inr)
  have "envelope_id cr d e \<notin> mined_transaction_ids lg"
    using step by (auto simp: replay_step_def and_then_eq_Inr if_bail_eq_Inr Let_def envelope_id_def)
  then show ?case using Cons.IH [OF rest] by auto
qed simp

text \<open>Every identifier a block confirms, of both transaction formats.\<close>

definition block_ids :: "crypto \<Rightarrow> Ledger \<Rightarrow> Block \<Rightarrow> string set" where
  "block_ids cr lg b = tx_signature ` set (transactions b) \<union>
     (case transaction_v2_domain lg of
        Inr d \<Rightarrow> envelope_id cr d ` set (transactions_v2 b) | Inl _ \<Rightarrow> {})"

lemma block_ids_recorded:
  assumes "block_transition cr lg b = Inr lg'"
  shows "mined_transaction_ids lg' = mined_transaction_ids lg \<union> block_ids cr lg b"
  using assms
proof (rule block_transitionE)
  fix signatures ls d p ts m ctx
  assume d: "transaction_v2_domain lg = Inr d"
    and es: "try_fold (block_envelope_step cr lg b d) (start_progress cr lg b ls) (transactions_v2 b) = Inr p"
    and commit: "commit_block cr lg b p ts m ctx = Inr lg'"
  show ?thesis
    using commit_block_spec(5) [OF commit] envelope_loop_ids [OF es] d
    by (auto simp: block_ids_def start_progress_def)
qed

lemma no_replay:
  assumes "ensure_block_transactions_are_not_replays cr lg b = Inr ()"
    and "TRANSACTION_REPLAY_PROTECTION_ACTIVATION_HEIGHT \<le> height b"
  shows "block_ids cr lg b \<inter> mined_transaction_ids lg = {}"
proof -
  obtain d ids where d: "transaction_v2_domain lg = Inr d"
    and loop: "try_fold (replay_step cr lg d) {} (transactions_v2 b) = Inr ids"
    and legacy: "\<not> list_ex (\<lambda>tx. tx_signature tx \<in> mined_transaction_ids lg) (transactions b)"
    using assms
    by (auto simp: ensure_block_transactions_are_not_replays_def and_then_eq_Inr if_bail_eq_Inr
        split: if_splits)
  show ?thesis
    using replay_loop [OF loop] legacy d by (auto simp: block_ids_def list_ex_iff)
qed

lemma block_transactions_checked:
  assumes "block_transition cr lg b = Inr lg'"
  shows "distinct (map tx_signature (transactions b))"
    and "\<And>tx. tx \<in> set (transactions b) \<Longrightarrow> validate_transaction_terms cr lg tx = Inr ()"
    and "\<And>tx. tx \<in> set (transactions b) \<Longrightarrow>
      verify_signature cr tx (transaction_signing_domain_at lg (height b)) = Inr ()"
proof -
  obtain signatures ls where
    "try_fold (block_transaction_step cr lg b) ({}, lineage lg) (transactions b) = Inr (signatures, ls)"
    using assms by (rule block_transitionE)
  note checked = transaction_loop_ids [OF this]
  show "distinct (map tx_signature (transactions b))" using checked by blast
  show "validate_transaction_terms cr lg tx = Inr ()" if "tx \<in> set (transactions b)" for tx
    using checked that by blast
  show "verify_signature cr tx (transaction_signing_domain_at lg (height b)) = Inr ()"
    if "tx \<in> set (transactions b)" for tx
    using checked that by blast
qed

subsection \<open>The chain\<close>

lemma block_extends_chain:
  assumes "block_transition cr lg b = Inr lg'"
  shows "chain lg' = chain lg @ [b]"
  using assms by (rule block_transitionE) (rule commit_block_spec(1))

lemma precheck_linked:
  assumes "precheck_new_block hs lg b now = Inr ()"
  shows "height b = height (tip lg) + 1" and "prev_hash b = block_hash (tip lg)"
    and "compute_hash (h_crypto hs) b = block_hash b"
    and "ensure_block_transactions_are_not_replays (h_crypto hs) lg b = Inr ()"
    and "check_block_timestamp lg b now = Inr ()"
    and "check_block_content hs lg b = Inr ()"
  using assms
  by (auto simp: precheck_new_block_def Let_def and_then_eq_Inr if_bail_eq_Inr split: if_splits)

lemma timestamp_increases:
  assumes "check_block_timestamp lg b now = Inr ()"
  shows "timestamp_ms (tip lg) < timestamp_ms b" and "median_time_past lg < timestamp_ms b"
    and "timestamp_ms b \<le> saturating_add now MAX_BLOCK_TIMESTAMP_FUTURE_DRIFT_MS"
  using assms
  by (auto simp: check_block_timestamp_def and_then_eq_Inr if_bail_eq_Inr not_le not_less split: if_splits)

subsection \<open>Restoring verified blocks\<close>

lemma lineage_without_signature:
  "apply_transaction_with_lineage cr tx h ls (Some d) = Inr ls' \<Longrightarrow>
    apply_transaction_with_lineage cr tx h ls None = Inr ls'"
  by (auto simp: apply_transaction_with_lineage_def and_then_eq_Inr)

lemma v2_without_signature:
  "apply_transaction_v2_with_lineage cr tx d network True st = Inr st' \<Longrightarrow>
    apply_transaction_v2_with_lineage cr tx d network False st = Inr st'"
  by (auto simp: apply_transaction_v2_with_lineage_def apply_transaction_v2_to_utxos_with_policy_def
      and_then_eq_Inr if_bail_eq_Inr split: if_splits)

lemma trusted_transactions:
  "try_fold (block_transaction_step cr lg b) (signatures, ls) txs = Inr (signatures', ls') \<Longrightarrow>
    try_fold (\<lambda>ls tx. apply_transaction_with_lineage cr tx (height b) ls None) ls txs = Inr ls'"
  by (induction txs arbitrary: signatures ls)
    (auto simp: and_then_eq_Inr transaction_step_eq_Inr dest!: lineage_without_signature)

lemma trusted_envelope_step_eq:
  assumes "block_envelope_step cr lg b d p e = Inr p'"
  shows "trusted_envelope_step cr lg d p e = Inr p'"
  using assms v2_without_signature
  by (cases p') (auto simp: trusted_envelope_step_def envelope_step_eq_Inr and_then_eq_Inr)

lemma trusted_envelopes:
  "try_fold (block_envelope_step cr lg b d) p es = Inr p' \<Longrightarrow>
    try_fold (trusted_envelope_step cr lg d) p es = Inr p'"
  by (induction es arbitrary: p) (auto simp: and_then_eq_Inr dest!: trusted_envelope_step_eq)

lemma trusted_reproduces:
  assumes "block_transition cr lg b = Inr lg1" and "next_vdf_rounds_after_tip lg1 = Inr rounds"
  shows "apply_trusted_block_at cr lg b = Inr (lg1\<lparr>ledger_vdf_rounds := rounds\<rparr>)"
  using assms(1)
  by (rule block_transitionE)
    (simp add: apply_trusted_block_at_def trusted_transactions trusted_envelopes assms(2))

lemma transition_keeps_pools:
  assumes "block_transition cr lg b = Inr lg'"
  shows "pending lg' = pending lg \<and> orphans lg' = orphans lg \<and>
    pending_bytes lg' = pending_bytes lg \<and> orphan_bytes lg' = orphan_bytes lg"
proof -
  obtain p ts m ctx where "commit_block cr lg b p ts m ctx = Inr lg'"
    using assms by (rule block_transitionE)
  from commit_block_spec(7-10) [OF this] show ?thesis by simp
qed

end
