(* ===== verification/Pending_Facts.thy ===== *)
theory Pending_Facts
  imports Ledger_Pending Ledger_Apply_Facts
begin

text \<open>
  The applicable part of the pending pool always applies: whatever the pool holds, replaying the
  transactions that a pass over it selected succeeds as long as the supply fits the amount type.
  A selected transaction was tried on outputs that earlier failures may have reduced, so the proof
  carries the relation "every output of the trial state is an output of the replay state".
\<close>

lemma spend_in_place_ok:
  "spend_in_place seen running ins m = (Inr t, m') \<Longrightarrow>
     try_fold spend_step (seen, running, m) ins = Inr (in_outpoint ` set ins \<union> seen, t, m')"
  by (induction ins arbitrary: seen running m)
    (auto simp: spend_step_def bail_def ok_or_def Let_def split: if_splits option.splits)

lemma remove_below: "bt_get (bt_remove p m) \<subseteq>\<^sub>m bt_get m"
  by (auto simp: map_le_def)

lemma spend_in_place_below: "bt_get (snd (spend_in_place seen running ins m)) \<subseteq>\<^sub>m bt_get m"
proof (induction ins arbitrary: seen running m)
  case (Cons i ins)
  have "bt_get (snd (spend_in_place s r ins (bt_remove p m))) \<subseteq>\<^sub>m bt_get m" for s r p
    using Cons remove_below by (rule map_le_trans)
  then show ?case
    using remove_below by (auto simp: Let_def split: option.splits)
qed simp

lemma apply_spend_in_place_ok:
  "apply_spend_in_place tx m = (Inr u, m') \<Longrightarrow> apply_spend tx m = Inr m'"
  by (cases tx) (auto simp: st_check_eq st_then_eq bail_def Let_def spend_inputs_def
      dest!: spend_in_place_ok split: if_splits)

lemma apply_spend_in_place_fails:
  assumes "apply_spend_in_place tx m = (Inl e, m')"
  shows "bt_get m' \<subseteq>\<^sub>m bt_get m"
  using assms spend_in_place_below [of "{}" 0 "inputs tx" m]
  by (cases tx) (auto simp: st_check_eq st_then_eq bail_def Let_def split: if_splits)

lemma spend_loop_mono:
  assumes "try_fold spend_step (seen, running, m) ins = Inr (seen', t, m')" and "bt_get m \<subseteq>\<^sub>m bt_get r"
  shows "\<exists>r'. try_fold spend_step (seen, running, r) ins = Inr (seen', t, r') \<and> bt_get m' \<subseteq>\<^sub>m bt_get r'"
  using assms
proof (induction ins arbitrary: seen running m r)
  case (Cons i ins)
  obtain s1 t1 m1 where step: "spend_step (seen, running, m) i = Inr (s1, t1, m1)"
    and rest: "try_fold spend_step (s1, t1, m1) ins = Inr (seen', t, m')"
    using Cons.prems(1) by (auto simp: and_then_eq_Inr)
  have le: "bt_get m1 \<subseteq>\<^sub>m bt_get (bt_remove (in_outpoint i) r)"
    using step Cons.prems(2) by (auto simp: spend_step_eq_Inr map_le_def)
  have "spend_step (seen, running, r) i = Inr (s1, t1, bt_remove (in_outpoint i) r)"
    using step Cons.prems(2) by (auto simp: spend_step_eq_Inr map_le_def dom_def)
  then show ?case
    using Cons.IH [OF rest le] by simp
qed auto

lemma addr_total_le: "addr_total outs a \<le> amounts outs"
  by (induction outs) auto

lemma utxo_total_values: "utxo_total m = amounts (bt_values m)"
  by (simp add: utxo_total_def amounts_def bt_sum_def bt_values_def case_prod_unfold comp_def)

lemma room_under_supply:
  assumes "utxo_total m + amounts outs < 2 ^ 64"
  shows "ensure_outputs_do_not_overflow m outs = Inr ()"
  unfolding ensure_outputs_iff
proof
  fix a
  show "addr_total (bt_values m @ outs) a < 2 ^ 64"
    using assms addr_total_le [of "bt_values m @ outs" a] by (simp add: utxo_total_values)
qed

lemma insert_entries_mono: "bt_get m \<subseteq>\<^sub>m bt_get r \<Longrightarrow> bt_get (insert_entries es m) \<subseteq>\<^sub>m bt_get (insert_entries es r)"
  by (induction es arbitrary: m r) (auto simp: map_le_def)

lemma apply_spend_mono:
  assumes "apply_spend tx m = Inr m'" and le: "bt_get m \<subseteq>\<^sub>m bt_get r"
    and bound: "utxo_total r + minted tx < 2 ^ 64"
  shows "\<exists>r'. apply_spend tx r = Inr r' \<and> bt_get m' \<subseteq>\<^sub>m bt_get r' \<and> utxo_total r' \<le> utxo_total r + minted tx"
proof (cases "is_mine tx")
  case True
  then obtain recipient anchor salt nonce bits header sig where tx: "tx = Mine recipient anchor salt nonce bits header sig"
    by (cases tx) auto
  let ?o = "\<lparr>out_address = recipient, out_amount = MINE_REWARD\<rparr>"
  have "m' = bt_insert (OutPoint sig 0) ?o m"
    using assms(1) by (auto simp: tx and_then_eq_Inr Let_def)
  moreover have "apply_spend tx r = Inr (bt_insert (OutPoint sig 0) ?o r)"
    using room_under_supply [of r "[?o]"] bound by (simp add: tx minted_def)
  moreover have "utxo_total (bt_insert (OutPoint sig 0) ?o r) \<le> utxo_total r + minted tx"
    using utxo_total_insert_le [of "OutPoint sig 0" ?o r] by (simp add: tx minted_def)
  ultimately show ?thesis
    using le by (auto simp: map_le_def)
next
  case False
  obtain t m1 req where parts: "ensure_single_input_owner tx = Inr ()" "spend_inputs tx m = Inr (t, m1)"
    "required_total tx = Inr t" "m' = insert_entries (output_entries tx) m1"
    using assms(1) False by (cases tx) (auto simp: and_then_eq_Inr split: if_splits)
  obtain r1 where r1: "spend_inputs tx r = Inr (t, r1)" "bt_get m1 \<subseteq>\<^sub>m bt_get r1"
    using parts(2) spend_loop_mono [OF _ le, of "{}" 0 "inputs tx"]
    by (fastforce simp: spend_inputs_def and_then_eq_Inr)
  have total: "utxo_total r1 + amounts (outputs tx) \<le> utxo_total r"
    using spend_inputs_spec(1) [OF r1(1)] required_total_eq_Inr [OF parts(3)] by simp
  then have "ensure_outputs_do_not_overflow r1 (outputs tx) = Inr ()"
    using bound by (intro room_under_supply) simp
  then have "apply_spend tx r = Inr (insert_entries (output_entries tx) r1)"
    using parts r1 False by (cases tx) auto
  moreover have "utxo_total (insert_entries (output_entries tx) r1) \<le> utxo_total r"
    using insert_entries_le [of "output_entries tx" r1] total by simp
  ultimately show ?thesis
    using parts(4) insert_entries_mono [OF r1(2)] by auto
qed

definition pool_minted :: "Transaction list \<Rightarrow> nat" where
  "pool_minted txs = (\<Sum>tx\<leftarrow>txs. minted tx)"

lemma pool_minted_simps [simp]:
  "pool_minted [] = 0" "pool_minted (tx # txs) = minted tx + pool_minted txs"
  by (simp_all add: pool_minted_def)

text \<open>The trial of a transaction: a success is repeated by the replay, a failure only loses outputs.\<close>

lemma try_pending_cases:
  assumes "try_pending cr lg tx m = (b, m')" and le: "bt_get m \<subseteq>\<^sub>m bt_get r"
    and bound: "utxo_total r + minted tx < 2 ^ 64"
  shows "if b then \<exists>r'. apply_transaction cr tx r (transaction_signing_domain_for_pending lg tx) = Inr r' \<and>
      bt_get m' \<subseteq>\<^sub>m bt_get r' \<and> utxo_total r' \<le> utxo_total r + minted tx
    else bt_get m' \<subseteq>\<^sub>m bt_get m"
proof -
  let ?d = "transaction_signing_domain_for_pending lg tx"
  consider (skip) "\<not> b" "m' = m" | (run) q where "apply_transaction_in_place cr tx m ?d = (q, m')" "b = is_ok q"
    using assms(1) by (auto simp: try_pending_def split: if_splits prod.splits)
  then show ?thesis
  proof cases
    case run
    consider (bad) e where "q = Inl e" "m' = m" | (spend) "verify_signature cr tx ?d = Inr ()" "apply_spend_in_place tx m = (q, m')"
      using run(1) by (auto simp: apply_transaction_in_place_def st_check_eq)
    then show ?thesis
    proof cases
      case spend
      show ?thesis
      proof (cases q)
        case (Inl e)
        then show ?thesis using apply_spend_in_place_fails spend(2) run(2) by (simp add: is_ok_def)
      next
        case (Inr u)
        then have "apply_spend tx m = Inr m'" using spend(2) by (intro apply_spend_in_place_ok) simp
        from apply_spend_mono [OF this le bound] show ?thesis
          using spend(1) Inr run(2) by (simp add: is_ok_def apply_transaction_def)
      qed
    qed (use run(2) in \<open>simp add: is_ok_def\<close>)
  qed simp
qed

lemma pending_pass_replays:
  assumes "pending_pass cr lg txs m selected = (valid, left, m', selected')" and "bt_get m \<subseteq>\<^sub>m bt_get r"
    and "utxo_total r + pool_minted txs < 2 ^ 64"
  shows "\<exists>r'. try_fold (\<lambda>m tx. apply_transaction cr tx m (transaction_signing_domain_for_pending lg tx)) r valid = Inr r' \<and>
    bt_get m' \<subseteq>\<^sub>m bt_get r' \<and> utxo_total r' + pool_minted left \<le> utxo_total r + pool_minted txs"
  using assms
proof (induction txs arbitrary: m selected valid left m' selected' r)
  case (Cons tx txs)
  show ?case
  proof (cases "mine_anchor_is_full lg selected tx")
    case True
    then show ?thesis using Cons.IH [of m selected valid left m' selected' r] Cons.prems by fastforce
  next
    case False
    obtain b m1 where t: "try_pending cr lg tx m = (b, m1)" by force
    have bound: "utxo_total r + minted tx < 2 ^ 64" using Cons.prems(3) by simp
    note c = try_pending_cases [OF t Cons.prems(2) bound]
    show ?thesis
    proof (cases b)
      case True
      obtain r1 where r1: "apply_transaction cr tx r (transaction_signing_domain_for_pending lg tx) = Inr r1"
        "bt_get m1 \<subseteq>\<^sub>m bt_get r1" "utxo_total r1 \<le> utxo_total r + minted tx"
        using c True by auto
      obtain valid1 where v: "valid = tx # valid1"
        and p: "pending_pass cr lg txs m1 (count_mine_anchor selected tx) = (valid1, left, m', selected')"
        using Cons.prems(1) False t True by (auto split: prod.splits)
      have "utxo_total r1 + pool_minted txs < 2 ^ 64" using r1(3) Cons.prems(3) by simp
      from Cons.IH [OF p r1(2) this] show ?thesis
        using r1 by (auto simp: v)
    next
      case fail: False
      obtain left1 where v: "left = tx # left1"
        and p: "pending_pass cr lg txs m1 selected = (valid, left1, m', selected')"
        using Cons.prems(1) False t fail by (auto split: prod.splits)
      have "bt_get m1 \<subseteq>\<^sub>m bt_get r" using c fail Cons.prems(2) by (auto intro: map_le_trans)
      from Cons.IH [OF p this] show ?thesis
        using Cons.prems(3) by (auto simp: v)
    qed
  qed
qed auto

lemma pending_rounds_replay:
  assumes "bt_get m \<subseteq>\<^sub>m bt_get r" and "utxo_total r + pool_minted txs < 2 ^ 64"
  shows "\<exists>r'. try_fold (\<lambda>m tx. apply_transaction cr tx m (transaction_signing_domain_for_pending lg tx)) r
    (pending_rounds cr lg txs m selected) = Inr r'"
  using assms
proof (induction cr lg txs m selected arbitrary: r rule: pending_rounds.induct)
  case (1 cr lg txs m selected)
  obtain valid left m' selected' where p: "pending_pass cr lg txs m selected = (valid, left, m', selected')"
    using prod_cases4 by blast
  from pending_pass_replays [OF p "1.prems"] obtain r' where
    r': "try_fold (\<lambda>m tx. apply_transaction cr tx m (transaction_signing_domain_for_pending lg tx)) r valid = Inr r'"
    "bt_get m' \<subseteq>\<^sub>m bt_get r'" "utxo_total r' + pool_minted left \<le> utxo_total r + pool_minted txs" by blast
  show ?case
  proof (cases "txs = [] \<or> valid = []")
    case True
    then show ?thesis using p by (subst pending_rounds.simps) auto
  next
    case False
    have "utxo_total r' + pool_minted left < 2 ^ 64" using r'(3) "1.prems"(2) by simp
    from "1.IH" [OF p [symmetric] refl refl False r'(2) this] show ?thesis
      using p False r'(1) by (subst pending_rounds.simps) (auto simp: try_fold_append)
  qed
qed

lemma pool_always_replays:
  assumes "utxo_total (ledger_utxos lg) + pool_minted (pending lg) < 2 ^ 64"
  shows "\<exists>m. utxos_after_valid_pending cr lg = Inr m"
  unfolding utxos_after_valid_pending_def valid_pending_transactions_def
  using assms by (intro pending_rounds_replay) simp_all

end
