(* ===== verification/Genesis.thy ===== *)
theory Genesis
  imports Ledger_Ops_Facts
begin

text \<open>
  The genesis block of \<open>domain/genesis.rs\<close> and the genesis burns of \<open>domain/transaction.rs\<close>:
  construction, validation and the unspent outputs they create.
\<close>

definition genesis_allocation_outpoint :: "crypto \<Rightarrow> string \<Rightarrow> OutPoint" where
  "genesis_allocation_outpoint cr address = OutPoint (hex_hash cr (''iuna-genesis-allocation:'' @ address)) 0"

definition genesis_burn_with_change :: "crypto \<Rightarrow> string \<Rightarrow> Amount \<Rightarrow> TxOutput list \<Rightarrow> Transaction" where
  "genesis_burn_with_change cr from amt change =
     (let input = \<lparr>in_outpoint = genesis_allocation_outpoint cr from, in_owner = from,
                    in_signature = ''genesis''\<rparr>;
          unsigned = UBurn [without_signature input] change amt 0 None;
          sig = hex_hash cr (''iuna-genesis-burn:'' @ unsigned_canonical unsigned) in
      Burn [input] change amt 0 None sig)"

definition genesis_burn :: "crypto \<Rightarrow> string \<Rightarrow> Amount \<Rightarrow> Transaction" where
  "genesis_burn cr from amt = genesis_burn_with_change cr from amt []"

definition genesis_burn_with_allocation ::
  "crypto \<Rightarrow> string \<Rightarrow> Amount \<Rightarrow> Amount \<Rightarrow> Transaction result" where
  "genesis_burn_with_allocation cr from amt allocation =
     (if allocation < amt then bail ''genesis burn exceeds allocation''
      else
        (let change_amount = allocation - amt;
             change = (if 0 < change_amount then [\<lparr>out_address = from, out_amount = change_amount\<rparr>] else []) in
         Inr (genesis_burn_with_change cr from amt change)))"

section \<open>The block\<close>

fun burn_from :: "Transaction \<Rightarrow> string option" where
  "burn_from (Burn ins change a f anchor sig) = (case ins of [] \<Rightarrow> None | i # _ \<Rightarrow> Some (in_owner i))"
| "burn_from _ = None"

definition genesis_miner :: "(string, Amount) btree_map \<Rightarrow> Transaction list \<Rightarrow> string" where
  "genesis_miner allocations txs =
     (case find (bt_contains_key allocations) (List.map_filter burn_from txs) of
        Some from \<Rightarrow> from
      | None \<Rightarrow> (case bt_keys allocations of address # _ \<Rightarrow> address | [] \<Rightarrow> ''genesis''))"

definition genesis_reward :: "(string, Amount) btree_map \<Rightarrow> Transaction list \<Rightarrow> Amount" where
  "genesis_reward allocations txs =
     (if bt_is_empty allocations \<or> txs = [] then 0 else BLOCK_REWARD)"

text \<open>
  The \<open>Debug\<close> text of the allocations. Their addresses are hexadecimal, which the quoting of
  strings leaves unchanged.
\<close>

definition debug_allocations :: "(string, Amount) btree_map \<Rightarrow> string" where
  "debug_allocations allocations =
     ''{'' @ join '', '' (map (\<lambda>(address, amt).
       [CHR 0x22] @ address @ [CHR 0x22] @ '': '' @ dec (unat amt)) (bt_entries allocations)) @ ''}''"

definition build_genesis_block :: "crypto \<Rightarrow> (string, Amount) btree_map \<Rightarrow> Transaction list \<Rightarrow> Block" where
  "build_genesis_block cr allocations txs =
     (let output = hex_hash cr (''iuna-genesis-vdf:'' @ debug_allocations allocations @ '':'' @
            join ''|'' (map canonical txs));
          genesis = \<lparr>height = 0, prev_hash = replicate 64 CHR ''0'', timestamp_ms = 0,
            miner = genesis_miner allocations txs, reward_address = None,
            reward_address_signature = None, finalizer_mode = TicketMode, finalizer_rank = 0,
            reward = genesis_reward allocations txs, vdf_rounds = 0, vdf_output = output,
            leader_proof = None, burn_bundle_section = section_default, transactions = txs,
            transactions_v2 = [], block_hash = []\<rparr> in
      genesis\<lparr>block_hash := compute_hash cr genesis\<rparr>)"

definition validate_genesis_block :: "crypto \<Rightarrow> Block \<Rightarrow> unit result" where
  "validate_genesis_block cr b =
     (if height b \<noteq> 0 then bail ''genesis block height must be 0''
      else if prev_hash b \<noteq> replicate 64 CHR ''0'' then bail ''genesis block prev_hash must be all zeroes''
      else if timestamp_ms b \<noteq> 0 then bail ''genesis block timestamp must be 0''
      else if miner b = ''genesis'' \<and> reward b \<noteq> 0
      then bail ''genesis placeholder miner must not receive a reward''
      else if miner b \<noteq> ''genesis'' \<and> reward b \<noteq> 0 \<and> reward b \<noteq> BLOCK_REWARD
      then bail ''genesis block reward is invalid''
      else if vdf_rounds b \<noteq> 0 then bail ''genesis block VDF rounds must be 0''
      else if leader_proof b \<noteq> None then bail ''genesis block must not carry a leader proof''
      else if \<not> section_is_empty (burn_bundle_section b)
      then bail ''genesis block must not carry burn bundle attestations''
      else if compute_hash cr b \<noteq> block_hash b then bail ''genesis block hash is invalid''
      else Inr ())"

section \<open>The unspent outputs\<close>

definition genesis_allocation_utxos :: "crypto \<Rightarrow> (string, Amount) btree_map \<Rightarrow> utxos" where
  "genesis_allocation_utxos cr allocations =
     bt_of_list (map (\<lambda>(address, amt).
       (genesis_allocation_outpoint cr address, \<lparr>out_address = address, out_amount = amt\<rparr>))
       (filter (\<lambda>(address, amt). 0 < amt) (bt_entries allocations)))"

definition apply_genesis_transaction :: "crypto \<Rightarrow> utxos \<Rightarrow> Transaction \<Rightarrow> utxos result" where
  "apply_genesis_transaction cr m tx =
     (if is_burn tx
      then and_then (validate_genesis_burn_transaction tx) (\<lambda>_. apply_transaction cr tx m domain_legacy)
      else bail ''genesis only supports burn transactions'')"

definition utxos_after_genesis :: "crypto \<Rightarrow> (string, Amount) btree_map \<Rightarrow> Block \<Rightarrow> utxos result" where
  "utxos_after_genesis cr allocations genesis =
     and_then (try_fold (apply_genesis_transaction cr) (genesis_allocation_utxos cr allocations)
       (transactions genesis)) (\<lambda>m. credit_reward_output m genesis)"

definition balances_from_utxos :: "utxos \<Rightarrow> (string, Amount) btree_map" where
  "balances_from_utxos m =
     fold (\<lambda>o1 balances.
       let balance = (case bt_get balances (out_address o1) of Some v \<Rightarrow> v | None \<Rightarrow> 0) in
       bt_insert (out_address o1) (saturating_add balance (out_amount o1)) balances)
       (bt_values m) bt_empty"

section \<open>Properties\<close>

lemma hash_update: "compute_hash cr (g\<lparr>block_hash := compute_hash cr g\<rparr>) = block_hash (g\<lparr>block_hash := compute_hash cr g\<rparr>)"
  by simp

lemma genesis_hash_valid: "compute_hash cr (build_genesis_block cr al txs) = block_hash (build_genesis_block cr al txs)"
  unfolding build_genesis_block_def Let_def by (rule hash_update)

lemma genesis_miner_allocated:
  assumes "\<not> bt_is_empty al"
  shows "bt_contains_key al (genesis_miner al txs)"
proof (cases "find (bt_contains_key al) (List.map_filter burn_from txs)")
  case None
  obtain a as where "bt_keys al = a # as"
    using assms by (auto simp: bt_is_empty_def bt_keys_def neq_Nil_conv)
  moreover from this have "bt_contains_key al a"
    using bt_keys_iff [of a al] by (simp add: bt_contains_key_def)
  ultimately show ?thesis using None by (simp add: genesis_miner_def)
next
  case (Some a)
  then have "bt_contains_key al a" by (auto simp: find_Some_iff)
  then show ?thesis using Some by (simp add: genesis_miner_def)
qed

lemma built_genesis_valid:
  assumes "validate_genesis_allocations al = Inr ()"
  shows "validate_genesis_block cr (build_genesis_block cr al txs) = Inr ()"
proof -
  let ?b = "build_genesis_block cr al txs"
  have "genesis_reward al txs = 0 \<or> length (genesis_miner al txs) = 64"
  proof (cases "bt_is_empty al")
    case False
    have "bt_contains_key al (genesis_miner al txs)" by (rule genesis_miner_allocated [OF False])
    then have "genesis_miner al txs \<in> set (bt_keys al)"
      by (simp add: bt_contains_key_def bt_keys_iff)
    then have "validate_address (genesis_miner al txs) ''genesis allocation'' = Inr ()"
      using assms by (simp add: validate_genesis_allocations_def try_all_eq_Inr)
    then show ?thesis using validate_address_length by blast
  qed (simp add: genesis_reward_def)
  then have "\<not> (miner ?b = ''genesis'' \<and> reward ?b \<noteq> 0)"
    by (auto simp: build_genesis_block_def Let_def)
  moreover have "reward ?b = 0 \<or> reward ?b = BLOCK_REWARD"
    by (simp add: build_genesis_block_def Let_def genesis_reward_def)
  ultimately show ?thesis
    using genesis_hash_valid [of cr al txs]
    by (auto simp: validate_genesis_block_def build_genesis_block_def Let_def section_is_empty_def
        section_default_def)
qed

definition allocated :: "(string, Amount) btree_map \<Rightarrow> nat" where
  "allocated al = (\<Sum>a\<leftarrow>bt_values al. unat a)"

lemma bt_of_list_total: "utxo_total (bt_of_list es) \<le> amounts (map snd es)"
proof -
  have "utxo_total (insert_entries es m) \<le> utxo_total m + amounts (map snd es)" for m
    by (rule insert_entries_le)
  moreover have "bt_of_list es = insert_entries es bt_empty"
    by (simp add: bt_of_list_def insert_entries_def)
  moreover have "utxo_total bt_empty = 0" by (simp add: utxo_total_def)
  ultimately show ?thesis by (metis add_0)
qed

lemma genesis_allocation_total: "utxo_total (genesis_allocation_utxos cr al) \<le> allocated al"
proof -
  have "amounts (map (\<lambda>e. \<lparr>out_address = f e, out_amount = snd e\<rparr>) es) = (\<Sum>e\<leftarrow>es. unat (snd e))"
    for f and es :: "(string \<times> Amount) list"
    by (induction es) auto
  moreover have "(\<Sum>e\<leftarrow>filter P es. unat (snd e)) \<le> (\<Sum>e\<leftarrow>es. unat (snd e))"
    for P and es :: "(string \<times> Amount) list"
    by (induction es) auto
  ultimately show ?thesis
    using bt_of_list_total [of "map (\<lambda>(address, amt). (genesis_allocation_outpoint cr address,
        \<lparr>out_address = address, out_amount = amt\<rparr>)) (filter (\<lambda>(address, amt). 0 < amt) (bt_entries al))"]
    by (simp add: genesis_allocation_utxos_def allocated_def bt_values_def comp_def split_beta)
      (metis (no_types, lifting) le_trans)
qed

lemma genesis_burns_le:
  assumes "try_fold (apply_genesis_transaction cr) m txs = Inr m'"
  shows "utxo_total m' + (\<Sum>tx\<leftarrow>txs. unat (burned_amount tx)) \<le> utxo_total m"
  using assms
proof (induction txs arbitrary: m)
  case (Cons tx txs)
  obtain m1 where step: "apply_genesis_transaction cr m tx = Inr m1"
    and rest: "try_fold (apply_genesis_transaction cr) m1 txs = Inr m'"
    using Cons.prems by (auto simp: and_then_eq_Inr)
  have "apply_spend tx m = Inr m1" and "\<not> is_mine tx"
    using step by (cases tx; auto simp: apply_genesis_transaction_def apply_transaction_def and_then_eq_Inr)+
  from apply_spend_conserves [OF this] Cons.IH [OF rest] show ?case by simp
qed simp

lemma genesis_supply:
  assumes "utxos_after_genesis cr al genesis = Inr m"
  shows "utxo_total m + (\<Sum>tx\<leftarrow>transactions genesis. unat (burned_amount tx)) \<le> allocated al + unat (reward genesis)"
proof -
  obtain m1 where burns: "try_fold (apply_genesis_transaction cr) (genesis_allocation_utxos cr al)
      (transactions genesis) = Inr m1" and credit: "credit_reward_outputs m1 genesis [] = Inr m"
    using assms by (auto simp: utxos_after_genesis_def credit_reward_output_def and_then_eq_Inr)
  show ?thesis
    using genesis_burns_le [OF burns] credit_reward_le [OF credit] genesis_allocation_total [of cr al] by simp
qed

end
