(* ===== verification/Ledger_Chain.thy ===== *)
theory Ledger_Chain
  imports Ledger_Apply Genesis
begin

text \<open>
  The life of a ledger (\<open>domain/ledger_chain.rs\<close>): creation from genesis data, restoration from a
  snapshot of blocks, the choice between the local chain and a candidate, and the switch to a
  better chain, which carries the transactions of the abandoned blocks and pools over.
\<close>

record GenesisBurn =
  gb_from :: string
  gb_amount :: Amount

record ChainSnapshot =
  snap_genesis_allocations :: "(string, Amount) btree_map"
  snap_vdf_rounds :: u64
  snap_launch_profile :: LaunchProfile
  snap_blocks :: "Block list"

section \<open>Creation\<close>

definition genesis_ledger ::
  "(string, Amount) btree_map \<Rightarrow> Block \<Rightarrow> utxos \<Rightarrow> BurnTicket list \<Rightarrow> u64 \<Rightarrow> LaunchProfile \<Rightarrow>
     CompactBlockContext \<Rightarrow> Ledger" where
  "genesis_ledger allocations genesis m ts rounds profile ctx =
     \<lparr>chain = [genesis], history_pruned = False, genesis_allocations = allocations,
      lineage = \<lparr>ls_utxos = m, ls_lineage = bt_empty, ls_values = bt_empty, ls_owners = bt_empty\<rparr>,
      hybrid_legacy_owners = bt_empty, tickets = ts,
      mined_transaction_ids = set (map tx_signature (transactions genesis)),
      pending = [], orphans = [], pending_bytes = 0, orphan_bytes = 0, pending_v2 = [],
      pending_v2_bytes = 0, mine_reward = MINE_REWARD,
      mine_difficulty_windows = [mine_difficulty_bits profile], initial_vdf_rounds = rounds,
      ledger_vdf_rounds = rounds, launch_profile = profile, compact_block_context = ctx,
      objective_finality_checkpoint = None, confirmed_hybrid_used_addresses = {},
      confirmed_hybrid_spent_addresses = {}, confirmed_hybrid_authored_addresses = bt_empty,
      vdf_retarget_observations = [], ticket_draw_horizon = 0, resident_ticket_draws = bt_empty\<rparr>"

definition new_with_genesis_transactions ::
  "crypto \<Rightarrow> (string, Amount) btree_map \<Rightarrow> Transaction list \<Rightarrow> u64 \<Rightarrow> LaunchProfile \<Rightarrow> Ledger result" where
  "new_with_genesis_transactions cr allocations txs rounds profile =
     and_then (validate_genesis_allocations allocations) (\<lambda>_.
     let genesis = build_genesis_block cr allocations txs in
     and_then (utxos_after_genesis cr allocations genesis) (\<lambda>m.
     and_then (genesis_tickets cr allocations genesis profile) (\<lambda>ts.
     and_then (if bt_is_empty allocations then Inr context_default
               else context_for_chain allocations [genesis]) (\<lambda>ctx.
     index_unapplied_block_addresses cr (genesis_ledger allocations genesis m ts rounds profile ctx) genesis))))"

definition new_with_genesis_burns_and_profile ::
  "crypto \<Rightarrow> (string, Amount) btree_map \<Rightarrow> GenesisBurn list \<Rightarrow> u64 \<Rightarrow> LaunchProfile \<Rightarrow> Ledger result" where
  "new_with_genesis_burns_and_profile cr allocations burns rounds profile =
     and_then (try_map (\<lambda>burn.
       genesis_burn_with_allocation cr (gb_from burn) (gb_amount burn)
         (case bt_get allocations (gb_from burn) of Some a \<Rightarrow> a | None \<Rightarrow> 0)) burns) (\<lambda>txs.
     new_with_genesis_transactions cr allocations txs rounds profile)"

section \<open>Restoration\<close>

definition result_state :: "'a result \<times> Ledger \<Rightarrow> Ledger result" where
  "result_state r = (case r of (Inl e, _) \<Rightarrow> Inl e | (Inr _, lg) \<Rightarrow> Inr lg)"

definition at_least :: "u64 option \<Rightarrow> u64 \<Rightarrow> bool" where
  "at_least bound h = (case bound of None \<Rightarrow> False | Some k \<Rightarrow> k \<le> h)"

definition restore_block ::
  "host \<Rightarrow> u64 option \<Rightarrow> u64 option \<Rightarrow> u64 option \<Rightarrow> u64 \<Rightarrow> Ledger \<Rightarrow> Block \<Rightarrow> Ledger result" where
  "restore_block hs trusted_before revalidate_from verify_vdf_from now_ms lg b =
     (if (case trusted_before of None \<Rightarrow> False | Some k \<Rightarrow> height b < k)
      then apply_trusted_block_at (h_crypto hs) lg b
      else if at_least revalidate_from (height b)
      then
        (if at_least verify_vdf_from (height b) then result_state (apply_block_at hs lg b now_ms)
         else result_state (apply_preverified_block_at hs lg b now_ms))
      else result_state (apply_preverified_block_at hs lg b now_ms))"

definition from_snapshot_with_revalidation_policy ::
  "host \<Rightarrow> ChainSnapshot \<Rightarrow> u64 option \<Rightarrow> u64 option \<Rightarrow> u64 option \<Rightarrow> u64 \<Rightarrow> Ledger result" where
  "from_snapshot_with_revalidation_policy hs snap trusted_before revalidate_from verify_vdf_from now_ms =
     (let cr = h_crypto hs; allocations = snap_genesis_allocations snap;
          profile = snap_launch_profile snap in
      case snap_blocks snap of
        [] \<Rightarrow> bail ''chain snapshot is empty''
      | genesis # rest \<Rightarrow>
          and_then (validate_genesis_allocations allocations) (\<lambda>_.
          and_then (validate_genesis_block cr genesis) (\<lambda>_.
          if genesis \<noteq> build_genesis_block cr allocations (transactions genesis)
          then bail ''chain snapshot genesis does not match its allocations and transactions''
          else
            and_then (utxos_after_genesis cr allocations genesis) (\<lambda>m.
            and_then (context_for_chain allocations [genesis]) (\<lambda>ctx.
            and_then (index_unapplied_block_addresses cr
              (genesis_ledger allocations genesis m [] (snap_vdf_rounds snap) profile ctx) genesis) (\<lambda>lg0.
            and_then (genesis_tickets cr allocations (tip lg0) profile) (\<lambda>ts.
            try_fold (restore_block hs trusted_before revalidate_from verify_vdf_from now_ms)
              (lg0\<lparr>tickets := ts, ticket_draw_horizon := height (last (genesis # rest))\<rparr>) rest))))))
     )"

definition from_snapshot_with_vdf_policy :: "host \<Rightarrow> ChainSnapshot \<Rightarrow> bool \<Rightarrow> u64 \<Rightarrow> Ledger result" where
  "from_snapshot_with_vdf_policy hs snap verify now_ms =
     from_snapshot_with_revalidation_policy hs snap None (Some 0) (if verify then Some 0 else None) now_ms"

text \<open>The build without the end-to-end feature, where delay proofs follow the revalidated blocks.\<close>

definition from_persisted_snapshot_revalidating_from ::
  "host \<Rightarrow> ChainSnapshot \<Rightarrow> u64 option \<Rightarrow> Ledger result" where
  "from_persisted_snapshot_revalidating_from hs snap revalidate_from =
     from_snapshot_with_revalidation_policy hs snap
       (Some (case revalidate_from of Some h \<Rightarrow> h | None \<Rightarrow> - 1)) revalidate_from revalidate_from (- 1)"

definition ledger_snapshot :: "Ledger \<Rightarrow> ChainSnapshot" where
  "ledger_snapshot lg =
     \<lparr>snap_genesis_allocations = genesis_allocations lg, snap_vdf_rounds = initial_vdf_rounds lg,
      snap_launch_profile = launch_profile lg, snap_blocks = chain lg\<rparr>"

section \<open>Fork choice\<close>

definition validate_snapshot_identity :: "Ledger \<Rightarrow> ChainSnapshot \<Rightarrow> u64 result" where
  "validate_snapshot_identity lg snap =
     (case snap_blocks snap of
        [] \<Rightarrow> bail ''chain snapshot is empty''
      | genesis # _ \<Rightarrow>
          if snap_vdf_rounds snap \<noteq> initial_vdf_rounds lg
          then bail ''chain snapshot initial VDF rounds do not match local chain''
          else if snap_launch_profile snap \<noteq> launch_profile lg
          then bail ''chain snapshot launch profile does not match local chain''
          else if snap_genesis_allocations snap \<noteq> genesis_allocations lg
          then bail ''chain snapshot genesis allocations do not match local chain''
          else if block_hash genesis \<noteq> ledger_genesis_hash lg
          then bail ''chain snapshot genesis does not match local chain''
          else Inr (height (last (snap_blocks snap))))"

definition same_block :: "Block \<Rightarrow> Block \<Rightarrow> bool" where
  "same_block l r \<longleftrightarrow> height r = height l \<and> block_hash r = block_hash l"

definition fork_point_with_candidate :: "Ledger \<Rightarrow> Ledger \<Rightarrow> ForkPoint result" where
  "fork_point_with_candidate lg candidate =
     (if ledger_genesis_hash candidate \<noteq> ledger_genesis_hash lg
      then bail ''candidate chain has no common genesis block''
      else
        and_then (ok_or ''candidate chain has no common block in the resident fork window''
          (find (\<lambda>l. list_ex (same_block l) (chain candidate)) (rev (chain lg)))) (\<lambda>l.
        Inr \<lparr>common_ancestor_height = height l\<rparr>))"

definition blocks_since :: "Ledger \<Rightarrow> ForkPoint \<Rightarrow> Block list" where
  "blocks_since lg p = filter (\<lambda>b. first_diverging_height p \<le> height b) (chain lg)"

definition fork_quality :: "crypto \<Rightarrow> Ledger \<Rightarrow> Ledger \<Rightarrow> ForkPoint \<Rightarrow> ForkQuality" where
  "fork_quality cr lg candidate p = compare_forks cr (blocks_since lg p) (blocks_since candidate p)"

definition choose_fork_with_local_blocks ::
  "crypto \<Rightarrow> Ledger \<Rightarrow> Ledger \<Rightarrow> ForkPoint \<Rightarrow> Block list \<Rightarrow> ForkChoice" where
  "choose_fork_with_local_blocks cr lg candidate p local_fork_blocks =
     (let local_height = ledger_height lg; remote_height = ledger_height candidate;
          by_height =
            (if local_height < remote_height then SwitchToCandidate
             else if remote_height < local_height then KeepLocal
             else case compare_forks cr local_fork_blocks (blocks_since candidate p) of
               RemoteBetter \<Rightarrow> SwitchToCandidate | _ \<Rightarrow> KeepLocal) in
      if remote_height = local_height \<and> tip_hash candidate = tip_hash lg then KeepLocal
      else if first_diverging_height p < OBJECTIVE_FINALITY_ACTIVATION_HEIGHT
      then
        (if OBJECTIVE_FINALITY_ACTIVATION_HEIGHT \<le> local_height \<or>
            fork_rewrites_finalized_history local_height (common_ancestor_height p)
         then KeepLocal else by_height)
      else
        (case objective_finality_quality (objective_finality_checkpoint lg)
                (objective_finality_checkpoint candidate) of
           RemoteBetter \<Rightarrow> SwitchToCandidate
         | LocalBetter \<Rightarrow> KeepLocal
         | EqualQuality \<Rightarrow> by_height))"

definition choose_fork :: "crypto \<Rightarrow> Ledger \<Rightarrow> Ledger \<Rightarrow> ForkPoint \<Rightarrow> ForkChoice" where
  "choose_fork cr lg candidate p =
     (let local_height = ledger_height lg; remote_height = ledger_height candidate;
          by_height =
            (if local_height < remote_height then SwitchToCandidate
             else if remote_height < local_height then KeepLocal
             else case fork_quality cr lg candidate p of
               RemoteBetter \<Rightarrow> SwitchToCandidate | _ \<Rightarrow> KeepLocal) in
      if remote_height = local_height \<and> tip_hash candidate = tip_hash lg then KeepLocal
      else if first_diverging_height p < OBJECTIVE_FINALITY_ACTIVATION_HEIGHT
      then
        (if OBJECTIVE_FINALITY_ACTIVATION_HEIGHT \<le> local_height \<or>
            fork_rewrites_finalized_history local_height (common_ancestor_height p)
         then KeepLocal else by_height)
      else
        (case objective_finality_quality (objective_finality_checkpoint lg)
                (objective_finality_checkpoint candidate) of
           RemoteBetter \<Rightarrow> SwitchToCandidate
         | LocalBetter \<Rightarrow> KeepLocal
         | EqualQuality \<Rightarrow> by_height))"

section \<open>Switching\<close>

definition carry_transactions :: "host \<Rightarrow> string set \<Rightarrow> Transaction list \<Rightarrow> Ledger \<Rightarrow> Ledger" where
  "carry_transactions hs mined txs candidate =
     foldl (\<lambda>lg tx. snd (submit_transaction hs lg tx)) candidate
       (filter (\<lambda>tx. tx_signature tx \<notin> mined) txs)"

text \<open>The version 2 transactions of the abandoned blocks that still decode for this chain.\<close>

definition stale_v2 :: "Ledger \<Rightarrow> Block list \<Rightarrow> TransactionV2 list" where
  "stale_v2 lg stale_blocks =
     List.map_filter (\<lambda>envelope.
       Option.bind (ok (decode_hex envelope)) (\<lambda>bs. ok (decode_transaction_v2 lg bs)))
       (concat (map transactions_v2 stale_blocks))"

definition v2_already_mined :: "crypto \<Rightarrow> Ledger \<Rightarrow> TransactionV2 \<Rightarrow> bool" where
  "v2_already_mined cr candidate tx =
     (case and_then (transaction_v2_domain candidate) (\<lambda>d. transaction_id cr tx d) of
        Inl _ \<Rightarrow> False | Inr txid \<Rightarrow> hex_encode txid \<in> mined_transaction_ids candidate)"

definition carry_v2 :: "crypto \<Rightarrow> TransactionV2 list \<Rightarrow> Ledger \<Rightarrow> Ledger" where
  "carry_v2 cr txs candidate =
     foldl (\<lambda>lg tx. if v2_already_mined cr lg tx then lg else snd (submit_transaction_v2 cr lg tx))
       candidate txs"

definition replace_with_better_chain :: "host \<Rightarrow> Ledger \<Rightarrow> Ledger \<Rightarrow> Block list \<Rightarrow> Ledger" where
  "replace_with_better_chain hs lg candidate stale_blocks =
     (let carry_forward = pending lg @ orphans lg @ concat (map transactions stale_blocks);
          mined = set (map tx_signature (concat (map transactions (chain candidate))));
          candidate1 = carry_transactions hs mined carry_forward candidate in
      carry_v2 (h_crypto hs) (stale_v2 lg stale_blocks @ pending_v2 lg) candidate1)"

definition extend_from_snapshot_with_vdf_policy ::
  "host \<Rightarrow> Ledger \<Rightarrow> ChainSnapshot \<Rightarrow> bool \<Rightarrow> u64 \<Rightarrow> (bool \<times> Ledger) result" where
  "extend_from_snapshot_with_vdf_policy hs lg snap verify now_ms =
     and_then (validate_snapshot_identity lg snap) (\<lambda>_.
     and_then (from_snapshot_with_vdf_policy hs snap verify now_ms) (\<lambda>candidate.
     and_then (fork_point_with_candidate lg candidate) (\<lambda>p.
     if choose_fork (h_crypto hs) lg candidate p = KeepLocal then Inr (False, lg)
     else Inr (True, replace_with_better_chain hs lg candidate (blocks_since lg p)))))"

text \<open>The persisted blocks of the local fork follow each other from the common ancestor.\<close>

fun contiguous_from :: "string \<Rightarrow> u64 \<Rightarrow> Block list \<Rightarrow> bool" where
  "contiguous_from previous_hash expected_height [] = True"
| "contiguous_from previous_hash expected_height (b # bs) \<longleftrightarrow>
     height b = expected_height \<and> prev_hash b = previous_hash \<and>
     contiguous_from (block_hash b) (saturating_add expected_height 1) bs"

definition adopt_prevalidated_fork ::
  "host \<Rightarrow> Ledger \<Rightarrow> Ledger \<Rightarrow> string \<Rightarrow> Block list \<Rightarrow> (bool \<times> Ledger) result" where
  "adopt_prevalidated_fork hs lg candidate common_ancestor_hash local_fork_blocks =
     (if initial_vdf_rounds candidate \<noteq> initial_vdf_rounds lg \<or>
         launch_profile candidate \<noteq> launch_profile lg \<or>
         genesis_allocations candidate \<noteq> genesis_allocations lg \<or>
         ledger_genesis_hash candidate \<noteq> ledger_genesis_hash lg
      then bail ''candidate fork identity does not match local chain''
      else
        and_then (ok_or ''candidate fork is missing its requested common ancestor''
          (find (\<lambda>b. block_hash b = common_ancestor_hash) (chain candidate))) (\<lambda>ancestor.
        let p = \<lparr>common_ancestor_height = height ancestor\<rparr> in
        if \<not> contiguous_from common_ancestor_hash (first_diverging_height p) local_fork_blocks
        then bail ''persisted local fork blocks are not contiguous from the common ancestor''
        else if ledger_height candidate = ledger_height lg \<and>
          (local_fork_blocks = [] \<or> block_hash (last local_fork_blocks) \<noteq> tip_hash lg)
        then bail ''persisted local fork does not reach the equal-height local tip''
        else if choose_fork_with_local_blocks (h_crypto hs) lg candidate p local_fork_blocks = KeepLocal
        then Inr (False, lg)
        else Inr (True, replace_with_better_chain hs lg candidate local_fork_blocks)))"

section \<open>Properties of fork choice\<close>

text \<open>Of two ledgers that compare themselves from the same fork point, at most one switches.\<close>

lemma choose_fork_antisym:
  assumes "choose_fork cr lg candidate p = SwitchToCandidate"
  shows "choose_fork cr candidate lg p = KeepLocal"
proof -
  have flips: "fork_quality cr candidate lg p = flip (fork_quality cr lg candidate p)"
    "objective_finality_quality (objective_finality_checkpoint candidate) (objective_finality_checkpoint lg) =
      flip (objective_finality_quality (objective_finality_checkpoint lg) (objective_finality_checkpoint candidate))"
    by (simp_all add: fork_quality_def compare_forks_flip [of cr "blocks_since candidate p"]
        objective_finality_flip [of "objective_finality_checkpoint candidate"])
  show ?thesis
    using assms unfolding choose_fork_def Let_def flips
    by (auto split: if_splits ForkQuality.splits)
qed

text \<open>
  A node switches only when it gives up nothing that is final: below the activation height the
  fork is shallow, above it the candidate's checkpoint is not worse than its own.
\<close>

lemma choose_fork_finality:
  assumes "choose_fork cr lg candidate p = SwitchToCandidate"
  shows "first_diverging_height p < OBJECTIVE_FINALITY_ACTIVATION_HEIGHT \<and>
      ledger_height lg < OBJECTIVE_FINALITY_ACTIVATION_HEIGHT \<and>
      \<not> fork_rewrites_finalized_history (ledger_height lg) (common_ancestor_height p) \<or>
    OBJECTIVE_FINALITY_ACTIVATION_HEIGHT \<le> first_diverging_height p \<and>
      objective_finality_quality (objective_finality_checkpoint lg) (objective_finality_checkpoint candidate)
        \<noteq> LocalBetter"
  using assms unfolding choose_fork_def Let_def
  by (auto simp: not_le not_less split: if_splits ForkQuality.splits)

lemma choose_fork_progress:
  assumes "choose_fork cr lg candidate p = SwitchToCandidate"
    and "objective_finality_quality (objective_finality_checkpoint lg) (objective_finality_checkpoint candidate)
      = EqualQuality"
  shows "ledger_height lg < ledger_height candidate \<or>
    ledger_height lg = ledger_height candidate \<and> fork_quality cr lg candidate p = RemoteBetter"
  using assms unfolding choose_fork_def Let_def by (auto split: if_splits ForkQuality.splits)

end
