(* ===== verification/Mempool_Facts.thy ===== *)
theory Mempool_Facts
  imports Mempool "HOL-Library.Multiset"
begin

text \<open>
  Properties of the pools: submissions leave the confirmed state alone, the pools keep their
  limits and their byte counters are exact, no two pool transactions spend the same output, and
  an eviction makes the room it promises at the cost of cheaper transactions only.
\<close>

section \<open>Eviction packages\<close>

lemma visit_adjacent_spec:
  assumes "visit_adjacent as visited stack = (visited', stack')"
  shows "\<exists>new. stack' = new @ stack \<and> distinct new \<and>
    (\<forall>a\<in>set new. a < length visited \<and> \<not> visited ! a) \<and> length visited' = length visited \<and>
    (\<forall>a<length visited. visited' ! a \<longleftrightarrow> visited ! a \<or> a \<in> set new)"
  using assms
proof (induction as arbitrary: visited stack)
  case (Cons a as)
  show ?case
  proof (cases "a < length visited \<and> \<not> visited ! a")
    case True
    then have "visit_adjacent as (visited[a := True]) (a # stack) = (visited', stack')"
      using Cons.prems by simp
    from Cons.IH [OF this] obtain new where new: "stack' = new @ a # stack" "distinct new"
      "\<forall>c\<in>set new. c < length visited \<and> \<not> visited[a := True] ! c" "length visited' = length visited"
      "\<forall>c<length visited. visited' ! c \<longleftrightarrow> visited[a := True] ! c \<or> c \<in> set new"
      by auto
    have "a \<notin> set new" using new(3) True by auto
    then show ?thesis
      using new True by (intro exI [of _ "new @ [a]"]) (auto simp: nth_list_update split: if_splits)
  next
    case False
    then show ?thesis using Cons by auto
  qed
qed auto

lemma collect_package_spec:
  assumes "collect_package edges visited stack indices = (visited', indices')"
    and "distinct stack" and "\<forall>a\<in>set stack. a < length visited \<and> visited ! a"
  shows "\<exists>added. indices' = indices @ added \<and> distinct added \<and> set stack \<subseteq> set added \<and>
    (\<forall>a\<in>set added. a \<in> set stack \<or> a < length visited \<and> \<not> visited ! a) \<and>
    length visited' = length visited \<and>
    (\<forall>a<length visited. visited' ! a \<longleftrightarrow> visited ! a \<or> a \<in> set added)"
  using assms
proof (induction edges visited stack indices rule: collect_package.induct)
  case (2 edges visited index stack indices)
  obtain visited1 stack1 where adj: "visit_adjacent (edges ! index) visited stack = (visited1, stack1)"
    by fastforce
  from visit_adjacent_spec [OF adj] obtain new where new: "stack1 = new @ stack" "distinct new"
    "\<forall>a\<in>set new. a < length visited \<and> \<not> visited ! a" "length visited1 = length visited"
    "\<forall>a<length visited. visited1 ! a \<longleftrightarrow> visited ! a \<or> a \<in> set new"
    by blast
  have stack: "distinct stack1" "\<forall>a\<in>set stack1. a < length visited1 \<and> visited1 ! a"
    using new 2(3,4) by auto
  have "collect_package edges visited1 stack1 (indices @ [index]) = (visited', indices')"
    using 2(2) adj by simp
  from 2(1) [OF adj [symmetric] this stack] obtain added where added:
    "indices' = (indices @ [index]) @ added" "distinct added" "set stack1 \<subseteq> set added"
    "\<forall>a\<in>set added. a \<in> set stack1 \<or> a < length visited1 \<and> \<not> visited1 ! a"
    "length visited' = length visited1"
    "\<forall>a<length visited1. visited' ! a \<longleftrightarrow> visited1 ! a \<or> a \<in> set added"
    by blast
  have index: "index < length visited" "visited ! index" "index \<notin> set stack" using 2(3,4) by auto
  have "index \<notin> set added" using added(4) new index by auto
  moreover have "a \<in> set (index # stack) \<or> a < length visited \<and> \<not> visited ! a" if "a \<in> set added" for a
    using added(4) new that by fastforce
  moreover have "visited' ! a \<longleftrightarrow> visited ! a \<or> a \<in> set (index # added)" if "a < length visited" for a
    using added(3,6) new index that by auto
  ultimately show ?case
    using added new(1,4) by (intro exI [of _ "index # added"]) auto
qed auto

text \<open>The packages partition part of the pool: no index is in two of them.\<close>

lemma package_fold_spec:
  assumes "foldl (package_step edges) (visited, comps) starts = (visited', comps')"
    and "distinct (concat comps)" and "\<forall>i\<in>set (concat comps). i < length visited \<and> visited ! i"
    and "\<forall>i\<in>set starts. i < length visited"
  shows "distinct (concat comps') \<and> (\<forall>i\<in>set (concat comps'). i < length visited \<and> visited' ! i) \<and>
    length visited' = length visited"
  using assms
proof (induction starts arbitrary: visited comps)
  case (Cons start starts)
  show ?case
  proof (cases "visited ! start")
    case True
    then have "package_step edges (visited, comps) start = (visited, comps)"
      by (simp add: package_step_def del: collect_package.simps)
    then have "foldl (package_step edges) (visited, comps) starts = (visited', comps')"
      using Cons.prems(1) by simp
    from Cons.IH [OF this Cons.prems(2,3)] show ?thesis using Cons.prems(4) by simp
  next
    case False
    have start: "start < length visited" using Cons.prems(4) by simp
    obtain visited1 indices
      where col: "collect_package edges (visited[start := True]) [start] [] = (visited1, indices)"
      by fastforce
    from collect_package_spec [OF col] start have spec: "distinct indices"
      "\<forall>a\<in>set indices. a = start \<or> a < length visited \<and> \<not> visited[start := True] ! a"
      "length visited1 = length visited"
      "\<forall>a<length visited. visited1 ! a \<longleftrightarrow> visited[start := True] ! a \<or> a \<in> set indices"
      by auto
    have new: "\<not> visited ! a \<and> a < length visited" if "a \<in> set indices" for a
      using spec(2) that False start by (auto simp: nth_list_update split: if_splits)
    have old: "visited1 ! a" if "a < length visited" "visited ! a" for a
      using spec(4) that start by (cases "a = start") auto
    have "package_step edges (visited, comps) start = (visited1, comps @ [indices])"
      unfolding package_step_def using False col by (simp del: collect_package.simps)
    then have "foldl (package_step edges) (visited1, comps @ [indices]) starts = (visited', comps')"
      using Cons.prems(1) by simp
    moreover have "distinct (concat (comps @ [indices]))"
      using Cons.prems(2,3) spec(1) new by fastforce
    moreover have "\<forall>i\<in>set (concat (comps @ [indices])). i < length visited1 \<and> visited1 ! i"
      using Cons.prems(3) old new spec(3,4) by auto
    ultimately show ?thesis using Cons.IH [of visited1 "comps @ [indices]"] Cons.prems(4) spec(3) by simp
  qed
qed auto

lemma components_partition:
  "distinct (concat (pending_components txs))"
  "i \<in> set (concat (pending_components txs)) \<Longrightarrow> i < length txs"
proof -
  obtain visited' comps' where fold: "foldl (package_step (eviction_edges txs))
      (replicate (length txs) False, []) [0..<length txs] = (visited', comps')" by fastforce
  from package_fold_spec [OF fold] show "distinct (concat (pending_components txs))"
    "i \<in> set (concat (pending_components txs)) \<Longrightarrow> i < length txs"
    using fold by (auto simp: pending_components_def)
qed

section \<open>Room\<close>

definition item_len :: "host \<Rightarrow> Transaction \<Rightarrow> nat" where
  "item_len hs tx = (case pending_pool_item_bytes hs tx of Inr n \<Rightarrow> n | Inl _ \<Rightarrow> 0)"

definition pool_len :: "host \<Rightarrow> Transaction list \<Rightarrow> nat" where
  "pool_len hs txs = (\<Sum>tx\<leftarrow>txs. item_len hs tx)"

lemma pool_len_simps [simp]:
  "pool_len hs [] = 0" "pool_len hs (tx # txs) = item_len hs tx + pool_len hs txs"
  "pool_len hs (txs @ txs') = pool_len hs txs + pool_len hs txs'"
  by (simp_all add: pool_len_def)

lemma usize_checked_add_eq_Some: "usize_checked_add a b = Some c \<longleftrightarrow> c = a + b \<and> a + b < 2 ^ 64"
  by (auto simp: usize_checked_add_def)

lemma byte_sum:
  "try_fold (\<lambda>n tx. and_then (pending_pool_item_bytes hs tx) (\<lambda>len.
     ok_or msg (usize_checked_add n len))) n0 txs = Inr n \<Longrightarrow> n = n0 + pool_len hs txs"
proof (induction txs arbitrary: n0)
  case (Cons tx txs)
  then obtain len where "pending_pool_item_bytes hs tx = Inr len"
    and "try_fold (\<lambda>n tx. and_then (pending_pool_item_bytes hs tx) (\<lambda>len.
      ok_or msg (usize_checked_add n len))) (n0 + len) txs = Inr n"
    by (auto simp: and_then_eq_Inr ok_or_eq_Inr usize_checked_add_eq_Some)
  with Cons.IH [of "n0 + len"] show ?case by (simp add: item_len_def)
qed simp

lemma serialized_pool_len_eq_Inr: "serialized_pool_len hs txs = Inr n \<Longrightarrow> n = pool_len hs txs"
  using byte_sum [of hs _ 0] by (simp add: serialized_pool_len_def)

text \<open>A package stands for the transactions at its indices.\<close>

definition stands_for :: "host \<Rightarrow> Transaction list \<Rightarrow> nat list \<Rightarrow> EvictionPackage \<Rightarrow> bool" where
  "stands_for hs txs indices p \<longleftrightarrow>
     ep_signatures p = (\<lambda>i. tx_signature (txs ! i)) ` set indices \<and>
     ep_pending_count p = length indices \<and>
     ep_pending_bytes p = (\<Sum>i\<leftarrow>indices. item_len hs (txs ! i)) \<and>
     ep_fee p = (\<Sum>i\<leftarrow>indices. ucast (fee (txs ! i))) \<and>
     ep_economic_bytes p = (\<Sum>i\<leftarrow>indices. word_of_nat (canonical_transaction_size_bytes (txs ! i)))"

lemma make_package_stands: "make_package hs txs indices = Inr p \<Longrightarrow> stands_for hs txs indices p"
  by (auto simp: make_package_def Let_def and_then_eq_Inr stands_for_def pool_len_def comp_def
      dest!: byte_sum)

lemma evict_loop_takes:
  assumes "evict_loop cf ce cb ps (cnt, len, evicted) = (cnt', len', evicted')"
  shows "\<exists>taken. (\<exists>rest. ps = taken @ rest) \<and>
    cnt' = cnt - (\<Sum>p\<leftarrow>taken. ep_pending_count p) \<and> len' = len - (\<Sum>p\<leftarrow>taken. ep_pending_bytes p) \<and>
    evicted' = evicted \<union> (\<Union>p\<in>set taken. ep_signatures p) \<and>
    (\<forall>p\<in>set taken. saturating_mul (ep_fee p) ce < saturating_mul cf (ep_economic_bytes p))"
  using assms
proof (induction ps arbitrary: cnt len evicted)
  case (Cons p ps)
  show ?case
  proof (cases "room_for cb cnt len \<or> saturating_mul cf (ep_economic_bytes p) \<le> saturating_mul (ep_fee p) ce")
    case True
    then show ?thesis using Cons.prems by (intro exI [of _ "[]"]) (auto split: if_splits)
  next
    case False
    then have "evict_loop cf ce cb ps (cnt - ep_pending_count p, len - ep_pending_bytes p,
        evicted \<union> ep_signatures p) = (cnt', len', evicted')"
      using Cons.prems by simp
    from Cons.IH [OF this] obtain taken rest where "ps = taken @ rest"
      "cnt' = cnt - ep_pending_count p - (\<Sum>p\<leftarrow>taken. ep_pending_count p)"
      "len' = len - ep_pending_bytes p - (\<Sum>p\<leftarrow>taken. ep_pending_bytes p)"
      "evicted' = evicted \<union> ep_signatures p \<union> (\<Union>p\<in>set taken. ep_signatures p)"
      "\<forall>p\<in>set taken. saturating_mul (ep_fee p) ce < saturating_mul cf (ep_economic_bytes p)"
      by blast
    then show ?thesis using False by (intro exI [of _ "p # taken"]) auto
  qed
qed simp

lemma extend_extends: "evicted \<subseteq> extend_with_orphan_descendants evicted orphs"
proof (induction evicted orphs rule: extend_with_orphan_descendants.induct)
  case (1 evicted orphs)
  then show ?case
    using orphan_pass_extends [of evicted orphs]
    by (simp add: extend_with_orphan_descendants.simps [of evicted orphs] Let_def) blast
qed

lemma mset_sort_packages [simp]: "mset (sort_packages ps) = mset ps"
proof -
  have "mset (insert_package p qs) = add_mset p (mset qs)" for p qs
    by (induction qs) auto
  then show ?thesis unfolding sort_packages_def by (induction ps) auto
qed

lemma distinct_concat_filter: "distinct (concat xs) \<Longrightarrow> distinct (concat (filter P xs))"
  by (induction xs) auto

text \<open>What a list keeps after the elements at some indices are dropped.\<close>

lemma filter_sum_le:
  assumes "I \<subseteq> {..<length xs}" and "\<forall>i\<in>I. \<not> P (xs ! i)"
  shows "sum_list (map f (filter P xs)) + (\<Sum>i\<in>I. f (xs ! i)) \<le> (sum_list (map f xs) :: nat)"
proof -
  have fin: "finite I" using assms(1) finite_subset by blast
  have "sum_list (map f (filter P xs)) = sum_list (map (\<lambda>x. if P x then f x else 0) xs)"
    by (rule sum_list_map_filter')
  also have "\<dots> = (\<Sum>i<length xs. if P (xs ! i) then f (xs ! i) else 0)"
    by (simp add: sum_list_sum_nth atLeast0LessThan)
  also have "\<dots> = (\<Sum>i\<in>{..<length xs} - I. if P (xs ! i) then f (xs ! i) else 0) +
      (\<Sum>i\<in>I. if P (xs ! i) then f (xs ! i) else 0)"
    using assms(1) fin by (simp add: sum.subset_diff add.commute)
  also have "\<dots> \<le> (\<Sum>i\<in>{..<length xs} - I. f (xs ! i)) + 0"
    using assms(2) by (intro add_mono sum_mono) (auto simp: sum.neutral)
  finally have "sum_list (map f (filter P xs)) + (\<Sum>i\<in>I. f (xs ! i)) \<le>
      (\<Sum>i\<in>{..<length xs} - I. f (xs ! i)) + (\<Sum>i\<in>I. f (xs ! i))" by simp
  also have "\<dots> = sum_list (map f xs)"
    using assms(1) fin by (simp add: sum.subset_diff [symmetric] sum_list_sum_nth atLeast0LessThan)
  finally show ?thesis .
qed

text \<open>
  The transactions an eviction plan removes, as a set of indices of the pool: they leave room for
  the candidate, none of them is a parent of the candidate, and they belong to packages with a
  lower fee rate.
\<close>

lemma eviction_plan_indices:
  assumes "pending_eviction_plan hs txs orphs candidate n = Inr evicted"
  obtains I packages where "I \<subseteq> {..<length txs}"
    "(\<lambda>i. tx_signature (txs ! i)) ` I \<subseteq> evicted"
    "room_for n (length txs - card I) (pool_len hs txs - (\<Sum>i\<in>I. item_len hs (txs ! i)))"
    "I \<inter> set (parent_indices (by_signature_index txs) candidate) = {}"
    "I = (\<Union>(set ` set (map fst packages)))"
    "\<forall>(indices, p)\<in>set packages. stands_for hs txs indices p \<and>
      saturating_mul (ep_fee p) (word_of_nat (canonical_transaction_size_bytes candidate)) <
      saturating_mul (ucast (fee candidate)) (ep_economic_bytes p)"
    "evicted = extend_with_orphan_descendants ((\<lambda>i. tx_signature (txs ! i)) ` I) orphs"
proof -
  define comps where "comps = filter (\<lambda>indices. set indices \<inter>
    set (parent_indices (by_signature_index txs) candidate) = {}) (pending_components txs)"
  obtain packages pool_bytes
    where made: "try_map (make_package hs txs) comps = Inr packages"
      and pool: "serialized_pool_len hs txs = Inr pool_bytes"
      and chosen: "(case evict_loop (ucast (fee candidate))
          (word_of_nat (canonical_transaction_size_bytes candidate)) n (sort_packages packages)
          (length txs, pool_bytes, {}) of (cnt, len, ev) \<Rightarrow>
        if room_for n cnt len then Inr (extend_with_orphan_descendants ev orphs)
        else bail ''mempool is full and candidate fee rate does not exceed an evictable package'') = Inr evicted"
    using assms unfolding pending_eviction_plan_def Let_def comps_def [symmetric]
    by (simp add: and_then_eq_Inr if_bail_eq_Inr) blast
  obtain cnt len ev
    where loop: "evict_loop (ucast (fee candidate)) (word_of_nat (canonical_transaction_size_bytes candidate))
        n (sort_packages packages) (length txs, pool_bytes, {}) = (cnt, len, ev)"
    by (cases "evict_loop (ucast (fee candidate)) (word_of_nat (canonical_transaction_size_bytes candidate))
        n (sort_packages packages) (length txs, pool_bytes, {})") blast
  have room: "room_for n cnt len" and evicted: "evicted = extend_with_orphan_descendants ev orphs"
    using chosen unfolding loop by (simp_all add: if_bail_eq_Inr)
  have "list_all2 (stands_for hs txs) comps packages"
    using made by (auto simp: try_map_eq_Inr elim!: list_all2_mono dest: make_package_stands)
  then have "list_all2 (\<lambda>p i. stands_for hs txs i p) packages comps"
    by (simp add: list_all2_conv_all_nth)
  from list_all2_reorder_left_invariance [OF this mset_sort_packages] obtain idx
    where idx: "list_all2 (\<lambda>p i. stands_for hs txs i p) (sort_packages packages) idx" "mset idx = mset comps"
    by blast
  from evict_loop_takes [OF loop] obtain taken rest where taken: "sort_packages packages = taken @ rest"
    "cnt = length txs - (\<Sum>p\<leftarrow>taken. ep_pending_count p)" "len = pool_bytes - (\<Sum>p\<leftarrow>taken. ep_pending_bytes p)"
    "ev = (\<Union>p\<in>set taken. ep_signatures p)"
    "\<forall>p\<in>set taken. saturating_mul (ep_fee p) (word_of_nat (canonical_transaction_size_bytes candidate)) <
      saturating_mul (ucast (fee candidate)) (ep_economic_bytes p)"
    by auto
  obtain J K where J: "idx = J @ K" "list_all2 (\<lambda>p i. stands_for hs txs i p) taken J"
    using idx(1) unfolding taken(1) by (auto simp: list_all2_append1)
  define I where "I = set (concat J)"
  have "mset (concat idx) = mset (concat comps)"
    using idx(2) by (simp add: mset_concat flip: sum_mset_sum_list)
  then have dist: "distinct (concat idx)" and sub: "set (concat idx) = set (concat comps)"
    using components_partition(1) distinct_concat_filter mset_eq_imp_distinct_iff mset_eq_setD
    unfolding comps_def by blast+
  have distJ: "distinct (concat J)" using dist unfolding J(1) by simp
  have "I \<subseteq> {..<length txs}"
    using sub components_partition(2) unfolding I_def J(1) comps_def by fastforce
  moreover have cnt: "(\<Sum>p\<leftarrow>taken. ep_pending_count p) = card I"
  proof -
    have "(\<Sum>p\<leftarrow>taken. ep_pending_count p) = length (concat J)"
      using J(2) by (induction rule: list_all2_induct) (auto simp: stands_for_def)
    then show ?thesis using distinct_card [OF distJ] unfolding I_def by simp
  qed
  moreover have len: "(\<Sum>p\<leftarrow>taken. ep_pending_bytes p) = (\<Sum>i\<in>I. item_len hs (txs ! i))"
  proof -
    have "(\<Sum>p\<leftarrow>taken. ep_pending_bytes p) = (\<Sum>i\<leftarrow>concat J. item_len hs (txs ! i))"
      using J(2) by (induction rule: list_all2_induct) (auto simp: stands_for_def)
    then show ?thesis using sum_list_distinct_conv_sum_set [OF distJ] unfolding I_def by simp
  qed
  moreover have ev: "ev = (\<lambda>i. tx_signature (txs ! i)) ` I"
  proof -
    have "(\<Union>p\<in>set taken. ep_signatures p) = (\<lambda>i. tx_signature (txs ! i)) ` set (concat J)"
      using J(2) by (induction rule: list_all2_induct) (auto simp: stands_for_def)
    then show ?thesis by (simp add: taken(4) I_def)
  qed
  moreover have "I \<inter> set (parent_indices (by_signature_index txs) candidate) = {}"
    using sub unfolding I_def J(1) comps_def by auto
  moreover have "I = (\<Union>(set ` set (map fst (zip J taken))))"
    using list_all2_lengthD [OF J(2)] by (simp add: I_def)
  moreover have "\<forall>(indices, p)\<in>set (zip J taken). stands_for hs txs indices p \<and>
      saturating_mul (ep_fee p) (word_of_nat (canonical_transaction_size_bytes candidate)) <
      saturating_mul (ucast (fee candidate)) (ep_economic_bytes p)"
    using J(2) taken(5) by (auto simp: list_all2_conv_all_nth in_set_zip)
  moreover have "room_for n (length txs - card I) (pool_len hs txs - (\<Sum>i\<in>I. item_len hs (txs ! i)))"
    using room unfolding taken(2,3) cnt len serialized_pool_len_eq_Inr [OF pool] .
  moreover have "(\<lambda>i. tx_signature (txs ! i)) ` I \<subseteq> evicted"
    using extend_extends unfolding evicted ev .
  moreover have "evicted = extend_with_orphan_descendants ((\<lambda>i. tx_signature (txs ! i)) ` I) orphs"
    unfolding evicted ev ..
  ultimately show ?thesis by (intro that [of I "zip J taken"])
qed

lemma room_for_iff: "room_for n k len \<longleftrightarrow> k < MAX_PENDING_TRANSACTIONS \<and> len + n \<le> MAX_PENDING_POOL_BYTES"
  by (auto simp: room_for_def usize_checked_add_def MAX_PENDING_POOL_BYTES_def)

lemma eviction_makes_room:
  assumes "pending_eviction_plan hs txs orphs candidate n = Inr evicted"
  shows "room_for n (length (filter (\<lambda>tx. tx_signature tx \<notin> evicted) txs))
    (pool_len hs (filter (\<lambda>tx. tx_signature tx \<notin> evicted) txs))"
  using assms
proof (rule eviction_plan_indices)
  fix I packages
  assume I: "I \<subseteq> {..<length txs}" "(\<lambda>i. tx_signature (txs ! i)) ` I \<subseteq> evicted"
    and room: "room_for n (length txs - card I) (pool_len hs txs - (\<Sum>i\<in>I. item_len hs (txs ! i)))"
  have gone: "\<forall>i\<in>I. \<not> tx_signature (txs ! i) \<notin> evicted" using I(2) by blast
  have "length (filter (\<lambda>tx. tx_signature tx \<notin> evicted) txs) + card I \<le> length txs"
    using filter_sum_le [OF I(1) gone, of "\<lambda>_. 1"] by (simp add: sum_list_triv)
  moreover have "pool_len hs (filter (\<lambda>tx. tx_signature tx \<notin> evicted) txs) +
      (\<Sum>i\<in>I. item_len hs (txs ! i)) \<le> pool_len hs txs"
    using filter_sum_le [OF I(1) gone, of "item_len hs"] by (simp add: pool_len_def)
  ultimately show ?thesis using room unfolding room_for_iff by linarith
qed

section \<open>The invariant of the pools\<close>

text \<open>
  The limits hold, the byte counters are the sizes of the pools, and no two transactions of the
  pools spend the same output.
\<close>

definition spends :: "Transaction \<Rightarrow> OutPoint set" where
  "spends tx = in_outpoint ` set (inputs tx)"

definition conflict_free :: "Transaction list \<Rightarrow> bool" where
  "conflict_free txs \<longleftrightarrow> sorted_wrt (\<lambda>t u. spends t \<inter> spends u = {}) txs"

definition pool_inv :: "host \<Rightarrow> Ledger \<Rightarrow> bool" where
  "pool_inv hs lg \<longleftrightarrow>
     length (pending lg) \<le> MAX_PENDING_TRANSACTIONS \<and> length (orphans lg) \<le> MAX_ORPHAN_TRANSACTIONS \<and>
     pending_bytes lg = pool_len hs (pending lg) \<and> orphan_bytes lg = pool_len hs (orphans lg) \<and>
     pending_bytes lg \<le> MAX_PENDING_POOL_BYTES \<and> orphan_bytes lg \<le> MAX_PENDING_POOL_BYTES \<and>
     conflict_free (pending lg @ orphans lg)"

lemma spent_by_iff: "transaction_inputs_spent_by tx txs \<longleftrightarrow> (\<exists>u\<in>set txs. spends tx \<inter> spends u \<noteq> {})"
  by (auto simp: transaction_inputs_spent_by_def pending_spent_outpoints_def list_ex_iff spends_def)

lemma conflict_free_append:
  "conflict_free (xs @ ys) \<longleftrightarrow> conflict_free xs \<and> conflict_free ys \<and>
    (\<forall>x\<in>set xs. \<forall>y\<in>set ys. spends x \<inter> spends y = {})"
  by (auto simp: conflict_free_def sorted_wrt_append)

lemma conflict_free_Cons:
  "conflict_free (x # xs) \<longleftrightarrow> conflict_free xs \<and> (\<forall>y\<in>set xs. spends x \<inter> spends y = {})"
  by (auto simp: conflict_free_def)

lemma conflict_free_filter: "conflict_free xs \<Longrightarrow> conflict_free (filter P xs)"
  by (simp add: conflict_free_def sorted_wrt_filter)

lemma conflict_free_single [simp]: "conflict_free [x]" "conflict_free []"
  by (simp_all add: conflict_free_def)

lemma pool_len_filter_le: "pool_len hs (filter P xs) \<le> pool_len hs xs"
  by (induction xs) auto

lemma saturating_small: "a + b \<le> MAX_PENDING_POOL_BYTES \<Longrightarrow> usize_saturating_add a b = a + b"
  by (simp add: usize_saturating_add_def MAX_PENDING_POOL_BYTES_def)

lemma find_promotion_fits:
  "find_promotion hs lg index txs m = Inr (Some (i, n)) \<Longrightarrow>
    n = item_len hs (txs ! (i - index)) \<and> pending_bytes lg + n \<le> MAX_PENDING_POOL_BYTES \<and>
    \<not> transaction_inputs_spent_by (txs ! (i - index)) (pending lg)"
proof (induction txs arbitrary: index m)
  case (Cons tx txs)
  note found = Cons.prems
  show ?case
  proof (cases "i = index")
    case True
    then show ?thesis
      using found find_promotion_index [of hs lg "index + 1" txs _ i n]
      by (fastforce simp: and_then_eq_Inr ok_or_eq_Inr usize_checked_add_eq_Some item_len_def
          split: if_splits prod.splits)
  next
    case False
    then obtain m' where "find_promotion hs lg (index + 1) txs m' = Inr (Some (i, n))"
      using found by (auto simp: and_then_eq_Inr split: if_splits prod.splits)
    moreover from find_promotion_index [OF this] have "i - index = Suc (i - (index + 1))" by arith
    ultimately show ?thesis using Cons.IH by simp
  qed
qed simp

lemma promote_at_inv:
  assumes "pool_inv hs lg" and "length (pending lg) < MAX_PENDING_TRANSACTIONS"
    and found: "find_promotion hs lg 0 (orphans lg) m = Inr (Some (i, n))"
  shows "pool_inv hs (promote_at lg i n)"
proof -
  have i: "i < length (orphans lg)" using find_promotion_index [OF found] by simp
  note fits = find_promotion_fits [OF found, simplified]
  have split: "orphans lg = take i (orphans lg) @ orphans lg ! i # drop (i + 1) (orphans lg)"
    using i by (simp add: id_take_nth_drop)
  have len: "pool_len hs (orphans lg) =
      pool_len hs (take i (orphans lg) @ drop (i + 1) (orphans lg)) + item_len hs (orphans lg ! i)"
    by (subst split) simp
  have "conflict_free (pending lg @ take i (orphans lg) @ orphans lg ! i # drop (i + 1) (orphans lg))"
    using assms(1) split by (simp add: pool_inv_def)
  then have "conflict_free ((pending lg @ [orphans lg ! i]) @ take i (orphans lg) @ drop (i + 1) (orphans lg))"
    unfolding conflict_free_append conflict_free_Cons set_append set_simps
    using conflict_free_single(2) by blast
  then show ?thesis
    using assms(1,2) fits len i
    by (auto simp: pool_inv_def promote_at_def saturating_small)
qed

lemma promote_inv: "pool_inv hs lg \<Longrightarrow> pool_inv hs (snd (promote_orphan_transactions hs lg))"
  by (rule promote_invariant [where P = "pool_inv hs"]) (auto intro: promote_at_inv)

section \<open>Submission\<close>

text \<open>Everything but the two legacy pools.\<close>

definition outside_pools :: "Ledger \<Rightarrow> Ledger" where
  "outside_pools lg = lg\<lparr>pending := [], orphans := [], pending_bytes := 0, orphan_bytes := 0\<rparr>"

lemma outside_pools_updates [simp]:
  "outside_pools (lg\<lparr>pending := p\<rparr>) = outside_pools lg"
  "outside_pools (lg\<lparr>orphans := p\<rparr>) = outside_pools lg"
  "outside_pools (lg\<lparr>pending_bytes := n\<rparr>) = outside_pools lg"
  "outside_pools (lg\<lparr>orphan_bytes := n\<rparr>) = outside_pools lg"
  by (simp_all add: outside_pools_def)

lemma outside_pools_keeps [simp]:
  "chain (outside_pools lg) = chain lg" "lineage (outside_pools lg) = lineage lg"
  "tickets (outside_pools lg) = tickets lg" "pending_v2 (outside_pools lg) = pending_v2 lg"
  "mined_transaction_ids (outside_pools lg) = mined_transaction_ids lg"
  by (simp_all add: outside_pools_def)

lemma same_pools:
  "outside_pools lg = outside_pools lg' \<Longrightarrow> pending lg = pending lg' \<Longrightarrow> orphans lg = orphans lg' \<Longrightarrow>
    pending_bytes lg = pending_bytes lg' \<Longrightarrow> orphan_bytes lg = orphan_bytes lg' \<Longrightarrow> lg = lg'"
  by (cases lg; cases lg') (simp add: outside_pools_def)

lemma refresh_outside: "outside_pools (snd (refresh_pending_pool_byte_counters hs lg)) = outside_pools lg"
  by (auto simp: refresh_pending_pool_byte_counters_def st_check_def Let_def split: sum.splits)

lemma promote_outside: "outside_pools (snd (promote_orphan_transactions hs lg)) = outside_pools lg"
  by (rule promote_invariant) (simp_all add: promote_at_def)

lemma room_outside: "outside_pools (snd (make_pending_room hs lg tx n)) = outside_pools lg"
  by (auto simp: make_pending_room_def st_check_def refresh_outside split: sum.splits)

lemma restore_outside [simp]: "outside_pools (restore_pending c lg lg1) = outside_pools lg1"
  by (simp add: restore_pending_def)

lemma admit_outside:
  "outside_pools (snd (admit_orphan hs lg tx)) = outside_pools lg"
  "outside_pools (snd (admit_pending hs lg c tx d n lg1)) = outside_pools lg1"
  using promote_outside [of hs "lg1\<lparr>pending := pending lg1 @ [tx],
    pending_bytes := usize_saturating_add (pending_bytes lg1) n\<rparr>"]
  by (auto simp: admit_orphan_def admit_pending_def st_check_def split: sum.splits prod.splits)

text \<open>The ways a submission can end, besides an error or an answer that leaves the ledger alone.\<close>

lemma submit_cases:
  assumes "submit_transaction_with_outcome hs lg tx = (r, lg')"
  shows "(lg' = lg \<and> r \<noteq> Inr Added) \<or>
    (\<not> transaction_inputs_spent_by tx (pending lg) \<and> \<not> transaction_inputs_spent_by tx (orphans lg) \<and>
      (admit_orphan hs lg tx = (r, lg') \<or>
       (\<exists>n d. pending_pool_item_bytes hs tx = Inr n \<and> admit_candidate hs lg tx d n = (r, lg'))))"
proof (cases "has_transaction lg (tx_signature tx) \<or> transaction_inputs_spent_by tx (pending lg) \<or>
    transaction_inputs_spent_by tx (orphans lg) \<or> transaction_conflicts_with_pending_v2 lg tx")
  case True
  then show ?thesis
    using assms by (auto simp: submit_transaction_with_outcome_def Let_def st_check_def
        split: if_splits sum.splits)
next
  case False
  then show ?thesis
    using assms unfolding submit_transaction_with_outcome_def Let_def
    by (auto simp: st_check_eq split: if_splits)
qed

lemma candidate_outside: "outside_pools (snd (admit_candidate hs lg tx d n)) = outside_pools lg"
  using room_outside [of hs lg tx n] admit_outside(2)
  by (auto simp: admit_candidate_def Let_def split: prod.splits sum.splits)

lemma submit_outside:
  assumes "submit_transaction_with_outcome hs lg tx = (r, lg')"
  shows "outside_pools lg' = outside_pools lg"
  using submit_cases [OF assms] admit_outside(1) [of hs lg tx] candidate_outside [of hs lg tx]
  by (metis snd_conv)

text \<open>After room has been made the candidate fits, and the pools are what they were less evictions.\<close>

lemma room_made:
  assumes "make_pending_room hs lg tx n = (Inr (), lg1)" and "pool_inv hs lg"
  shows "pool_inv hs lg1 \<and> length (pending lg1) < MAX_PENDING_TRANSACTIONS \<and>
    pending_bytes lg1 + n \<le> MAX_PENDING_POOL_BYTES \<and>
    set (pending lg1) \<subseteq> set (pending lg) \<and> set (orphans lg1) \<subseteq> set (orphans lg)"
proof (cases "pending_room_required lg n")
  case False
  then have "lg1 = lg" using assms(1) by (simp add: make_pending_room_def)
  then show ?thesis
    using False assms(2)
    by (auto simp: pending_room_required_def usize_checked_add_def split: if_splits)
next
  case True
  obtain evicted where plan: "pending_eviction_plan hs (pending lg) (orphans lg) tx n = Inr evicted"
    and refresh: "refresh_pending_pool_byte_counters hs
      (lg\<lparr>pending := filter (\<lambda>tx. tx_signature tx \<notin> evicted) (pending lg),
          orphans := filter (\<lambda>tx. tx_signature tx \<notin> evicted) (orphans lg)\<rparr>) = (Inr (), lg1)"
    using assms(1) True by (auto simp: make_pending_room_def st_check_eq)
  have lg1: "pending lg1 = filter (\<lambda>tx. tx_signature tx \<notin> evicted) (pending lg)"
      "orphans lg1 = filter (\<lambda>tx. tx_signature tx \<notin> evicted) (orphans lg)"
      "pending_bytes lg1 = pool_len hs (pending lg1)" "orphan_bytes lg1 = pool_len hs (orphans lg1)"
    using refresh
    by (auto simp: refresh_pending_pool_byte_counters_def Let_def st_check_eq dest!: serialized_pool_len_eq_Inr)
  have inv: "pool_inv hs lg" by fact
  have "conflict_free (filter (\<lambda>tx. tx_signature tx \<notin> evicted) (pending lg @ orphans lg))"
    using inv by (intro conflict_free_filter) (simp add: pool_inv_def)
  moreover have "length (orphans lg1) \<le> MAX_ORPHAN_TRANSACTIONS"
    using inv length_filter_le [of "\<lambda>tx. tx_signature tx \<notin> evicted" "orphans lg"]
    unfolding lg1 pool_inv_def by linarith
  moreover have "pool_len hs (orphans lg1) \<le> pool_len hs (orphans lg)"
    unfolding lg1 by (rule pool_len_filter_le)
  ultimately show ?thesis
    using eviction_makes_room [OF plan] inv lg1 unfolding room_for_iff pool_inv_def by auto
qed

lemma restored:
  assumes "outside_pools lg1 = outside_pools lg" and "\<not> c \<Longrightarrow> lg1 = lg"
  shows "restore_pending c lg lg1 = lg"
proof (cases c)
  case True
  have "outside_pools (restore_pending c lg lg1) = outside_pools lg"
    by (simp only: restore_outside assms(1))
  then show ?thesis
    by (rule same_pools) (simp_all add: restore_pending_def True)
next
  case False
  then show ?thesis by (simp add: assms(2) restore_pending_def)
qed

lemma pending_pushed:
  assumes "pool_inv hs lg1" and "length (pending lg1) < MAX_PENDING_TRANSACTIONS"
    and "pending_bytes lg1 + n \<le> MAX_PENDING_POOL_BYTES" and "pending_pool_item_bytes hs tx = Inr n"
    and "\<not> transaction_inputs_spent_by tx (pending lg1)" "\<not> transaction_inputs_spent_by tx (orphans lg1)"
  shows "pool_inv hs (lg1\<lparr>pending := pending lg1 @ [tx],
    pending_bytes := usize_saturating_add (pending_bytes lg1) n\<rparr>)"
proof -
  have "conflict_free (pending lg1 @ orphans lg1)" using assms(1) by (simp add: pool_inv_def)
  then have "conflict_free ((pending lg1 @ [tx]) @ orphans lg1)"
    using assms(5,6) unfolding spent_by_iff conflict_free_append set_append set_simps
    using conflict_free_single(1) by blast
  then show ?thesis
    using assms(1-4) by (auto simp: pool_inv_def saturating_small item_len_def)
qed

lemma spent_by_subset:
  "set txs' \<subseteq> set txs \<Longrightarrow> \<not> transaction_inputs_spent_by tx txs \<Longrightarrow> \<not> transaction_inputs_spent_by tx txs'"
  by (auto simp: spent_by_iff)

lemma admit_orphan_inv:
  assumes "admit_orphan hs lg tx = (r, lg')" and "pool_inv hs lg"
    and "\<not> transaction_inputs_spent_by tx (pending lg)" "\<not> transaction_inputs_spent_by tx (orphans lg)"
  shows "pool_inv hs lg'"
proof -
  have "conflict_free (pending lg @ orphans lg)" using assms(2) by (simp add: pool_inv_def)
  then have "conflict_free (pending lg @ orphans lg @ [tx])"
    using assms(3,4) unfolding spent_by_iff conflict_free_append set_append set_simps
    using conflict_free_single(1) by blast
  then show ?thesis
    using assms(1,2)
    by (auto simp: admit_orphan_def st_check_eq ensure_pending_pool_bytes_def and_then_eq_Inr ok_or_eq_Inr
        usize_checked_add_eq_Some pool_inv_def if_bail_eq_Inr saturating_small item_len_def not_less
        split: if_splits)
qed

lemma admit_candidate_inv:
  assumes "admit_candidate hs lg tx d n = (r, lg')" and inv: "pool_inv hs lg"
    and n: "pending_pool_item_bytes hs tx = Inr n"
    and free: "\<not> transaction_inputs_spent_by tx (pending lg)" "\<not> transaction_inputs_spent_by tx (orphans lg)"
  shows "pool_inv hs lg'"
proof -
  define c where "c = pending_room_required lg n"
  obtain r1 lg1 where room: "make_pending_room hs lg tx n = (r1, lg1)" by fastforce
  have out: "outside_pools lg1 = outside_pools lg" using room_outside [of hs lg tx n] room by simp
  have same: "lg1 = lg" if "\<not> c" using room that by (simp add: make_pending_room_def c_def)
  have undone: "restore_pending c lg lg1 = lg" by (rule restored [OF out same])
  show ?thesis
  proof (cases r1)
    case (Inl e)
    then show ?thesis using assms(1) room undone inv by (simp add: admit_candidate_def c_def)
  next
    case (Inr u)
    then have made: "make_pending_room hs lg tx n = (Inr (), lg1)" using room by simp
    note lg1 = room_made [OF made inv]
    define lg2 where "lg2 = lg1\<lparr>pending := pending lg1 @ [tx],
      pending_bytes := usize_saturating_add (pending_bytes lg1) n\<rparr>"
    have inv2: "pool_inv hs lg2"
      unfolding lg2_def using lg1 n free spent_by_subset by (intro pending_pushed) blast+
    obtain r3 lg3 where promoted: "promote_orphan_transactions hs lg2 = (r3, lg3)" by fastforce
    have inv3: "pool_inv hs lg3" using promote_inv [OF inv2] promoted by simp
    have "outside_pools lg3 = outside_pools lg"
      using promote_outside [of hs lg2] promoted out by (simp add: lg2_def)
    then have "restore_pending c lg lg3 = lg \<or> restore_pending c lg lg3 = lg3"
      using restored [of lg3 lg c] by (cases c) (auto simp: restore_pending_def)
    then have "pool_inv hs (restore_pending c lg lg3)" using inv inv3 by auto
    moreover have "admit_pending hs lg c tx d n lg1 = (r, lg')"
      using assms(1) made by (simp add: admit_candidate_def c_def)
    ultimately show ?thesis
      using undone inv inv3 promoted
      by (auto simp: admit_pending_def lg2_def [symmetric] split: sum.splits if_splits)
  qed
qed

lemma submit_inv:
  assumes "submit_transaction_with_outcome hs lg tx = (r, lg')" and "pool_inv hs lg"
  shows "pool_inv hs lg'"
  using submit_cases [OF assms(1)] admit_orphan_inv admit_candidate_inv assms(2) by blast

section \<open>Who is evicted\<close>

lemma extend_bounded: "extend_with_orphan_descendants evicted orphs \<subseteq> evicted \<union> tx_signature ` set orphs"
proof (induction evicted orphs rule: extend_with_orphan_descendants.induct)
  case (1 evicted orphs)
  then show ?case
    using orphan_pass_bounded [of orphs evicted]
    by (simp add: extend_with_orphan_descendants.simps [of evicted orphs] Let_def) blast
qed

lemma evicted_index:
  assumes "i < length txs" and "tx_signature (txs ! i) \<in> extend_with_orphan_descendants
      ((\<lambda>i. tx_signature (txs ! i)) ` I) orphs"
    and "I \<subseteq> {..<length txs}" and "distinct (map tx_signature (txs @ orphs))"
  shows "i \<in> I"
proof -
  have "tx_signature (txs ! i) \<notin> tx_signature ` set orphs"
    using nth_mem [OF assms(1)] assms(4) by auto
  then obtain j where j: "j \<in> I" "tx_signature (txs ! i) = tx_signature (txs ! j)"
    using assms(2) extend_bounded by blast
  then have "i = j"
    using assms(1,3,4) nth_eq_iff_index_eq [of "map tx_signature txs" i j] by auto
  then show ?thesis using j by simp
qed

lemma by_signature_index_nth:
  assumes "distinct (map tx_signature txs)" and "i < length txs"
  shows "bt_get (by_signature_index txs) (tx_signature (txs ! i)) = Some i"
proof -
  have keys: "map fst (map (\<lambda>(index, tx). (tx_signature tx, index)) (enumerate 0 txs)) = map tx_signature txs"
    by (rule nth_equalityI) (simp_all add: nth_enumerate_eq)
  have "map_of (rev (map (\<lambda>(index, tx). (tx_signature tx, index)) (enumerate 0 txs))) (tx_signature (txs ! i)) = Some i"
  proof (rule map_of_is_SomeI)
    show "distinct (map fst (rev (map (\<lambda>(index, tx). (tx_signature tx, index)) (enumerate 0 txs))))"
      using assms(1) unfolding rev_map [symmetric] keys by simp
    show "(tx_signature (txs ! i), i) \<in> set (rev (map (\<lambda>(index, tx). (tx_signature tx, index)) (enumerate 0 txs)))"
      using assms(2) by (force simp: in_set_enumerate_eq)
  qed
  then show ?thesis by (simp add: by_signature_index_def bt_of_list_get)
qed

text \<open>
  A pending transaction is only evicted with a package whose fee rate is below the candidate's,
  and a parent of the candidate is never evicted.
\<close>

lemma eviction_is_fair:
  assumes "pending_eviction_plan hs txs orphs candidate n = Inr evicted"
    and "distinct (map tx_signature (txs @ orphs))" and "i < length txs"
    and "tx_signature (txs ! i) \<in> evicted"
  shows "\<exists>indices p. i \<in> set indices \<and> stands_for hs txs indices p \<and>
      saturating_mul (ep_fee p) (word_of_nat (canonical_transaction_size_bytes candidate)) <
      saturating_mul (ucast (fee candidate)) (ep_economic_bytes p)"
    and "tx_signature (txs ! i) \<notin> (\<lambda>inp. op_txid (in_outpoint inp)) ` set (inputs candidate)"
proof -
  from assms(1) obtain I packages where I: "I \<subseteq> {..<length txs}"
    "I \<inter> set (parent_indices (by_signature_index txs) candidate) = {}"
    "I = (\<Union>(set ` set (map fst packages)))"
    "\<forall>(indices, p)\<in>set packages. stands_for hs txs indices p \<and>
      saturating_mul (ep_fee p) (word_of_nat (canonical_transaction_size_bytes candidate)) <
      saturating_mul (ucast (fee candidate)) (ep_economic_bytes p)"
    "evicted = extend_with_orphan_descendants ((\<lambda>i. tx_signature (txs ! i)) ` I) orphs"
    by (rule eviction_plan_indices)
  have i: "i \<in> I" using evicted_index [OF assms(3) _ I(1) assms(2)] assms(4) I(5) by simp
  then obtain indices p where p: "(indices, p) \<in> set packages" "i \<in> set indices" using I(3) by auto
  from p(1) I(4) have "stands_for hs txs indices p \<and>
      saturating_mul (ep_fee p) (word_of_nat (canonical_transaction_size_bytes candidate)) <
      saturating_mul (ucast (fee candidate)) (ep_economic_bytes p)"
    by blast
  with p(2) show "\<exists>indices p. i \<in> set indices \<and> stands_for hs txs indices p \<and>
      saturating_mul (ep_fee p) (word_of_nat (canonical_transaction_size_bytes candidate)) <
      saturating_mul (ucast (fee candidate)) (ep_economic_bytes p)"
    by blast
  have "distinct (map tx_signature txs)" using assms(2) by simp
  note found = by_signature_index_nth [OF this assms(3)]
  show "tx_signature (txs ! i) \<notin> (\<lambda>inp. op_txid (in_outpoint inp)) ` set (inputs candidate)"
  proof
    assume "tx_signature (txs ! i) \<in> (\<lambda>inp. op_txid (in_outpoint inp)) ` set (inputs candidate)"
    then have "i \<in> set (parent_indices (by_signature_index txs) candidate)"
      using found unfolding parent_indices_def set_map_filter by force
    then show False using i I(2) by blast
  qed
qed

end
