(* ===== verification/Ledger_Steps.thy ===== *)
theory Ledger_Steps
  imports Ledger_Apply_Facts Mempool_Facts
begin

text \<open>
  The ledger as a state machine: a node submits transactions of both formats and applies blocks,
  in any order and whatever each call returns. Invariants of the reachable states follow by rule
  induction: the chain only grows and stays linked, the pools keep their limits, and the supply
  is bounded by what the blocks minted.
\<close>

section \<open>Operations that keep a frame and an invariant\<close>

text \<open>
  The contract of the operations that work on the pools: a part of the ledger they never touch
  and an invariant they keep. Both then hold after any sequence of calls.
\<close>

locale ledger_operation =
  fixes run :: "Ledger \<Rightarrow> 'i \<Rightarrow> 'r \<times> Ledger"
    and frame :: "Ledger \<Rightarrow> 'f"
    and inv :: "Ledger \<Rightarrow> bool"
  assumes run_frame: "frame (snd (run lg i)) = frame lg"
    and run_inv: "inv lg \<Longrightarrow> inv (snd (run lg i))"
begin

lemma run_all_frame: "frame (foldl (\<lambda>lg i. snd (run lg i)) lg is) = frame lg"
  by (induction "is" arbitrary: lg) (simp_all add: run_frame)

lemma run_all_inv: "inv lg \<Longrightarrow> inv (foldl (\<lambda>lg i. snd (run lg i)) lg is)"
  by (induction "is" arbitrary: lg) (simp_all add: run_inv)

end

interpretation legacy_submission: ledger_operation
  "submit_transaction_with_outcome hs" outside_pools "pool_inv hs" for hs
proof
  fix lg tx
  obtain r lg' where run: "submit_transaction_with_outcome hs lg tx = (r, lg')" by fastforce
  show "outside_pools (snd (submit_transaction_with_outcome hs lg tx)) = outside_pools lg"
    using submit_outside [OF run] run by simp
  show "pool_inv hs (snd (submit_transaction_with_outcome hs lg tx))" if "pool_inv hs lg"
    using submit_inv [OF run that] run by simp
qed

text \<open>The pool of version 2 transactions: the rest of the ledger, and the limits of the profile.\<close>

definition outside_v2_pool :: "Ledger \<Rightarrow> Ledger" where
  "outside_v2_pool lg = lg\<lparr>pending_v2 := [], pending_v2_bytes := 0\<rparr>"

lemma outside_v2_pool_updates [simp]:
  "outside_v2_pool (lg\<lparr>pending_v2 := p\<rparr>) = outside_v2_pool lg"
  "outside_v2_pool (lg\<lparr>pending_v2_bytes := n\<rparr>) = outside_v2_pool lg"
  by (simp_all add: outside_v2_pool_def)

definition v2_pool_inv :: "Ledger \<Rightarrow> bool" where
  "v2_pool_inv lg \<longleftrightarrow>
     (pending_v2 lg \<noteq> [] \<longrightarrow>
        length (pending lg) + length (pending_v2 lg) \<le> max_pending_transactions (launch_profile lg) \<and>
        pending_v2_bytes lg \<le> MAX_PENDING_POOL_BYTES) \<and>
     (\<forall>tx\<in>set (pending_v2 lg). v2_fee tx \<noteq> 0)"

definition v2_submission_effect :: "Ledger \<Rightarrow> TransactionV2 \<Rightarrow> 'r \<times> Ledger \<Rightarrow> bool" where
  "v2_submission_effect lg tx res \<longleftrightarrow> snd res = lg \<or>
     (\<exists>n. snd res = lg\<lparr>pending_v2 := pending_v2 lg @ [tx],
                       pending_v2_bytes := usize_saturating_add (pending_v2_bytes lg) n\<rparr> \<and>
      v2_fee tx \<noteq> 0 \<and>
      length (pending lg) + length (pending_v2 lg) < max_pending_transactions (launch_profile lg) \<and>
      usize_saturating_add (pending_bytes lg) (pending_v2_bytes lg) + n \<le> MAX_PENDING_POOL_BYTES)"

lemma submit_v2_effect: "v2_submission_effect lg tx (submit_transaction_v2 cr lg tx)"
  unfolding submit_transaction_v2_def submit_transaction_v2_at_height_def Let_def
  by (intro st_check_pred [where P = "v2_submission_effect lg tx"] if_pred [where P = "v2_submission_effect lg tx"])
    (auto simp: v2_submission_effect_def usize_checked_add_def split: if_splits)

interpretation v2_submission: ledger_operation
  "submit_transaction_v2 cr" outside_v2_pool v2_pool_inv for cr
proof
  fix lg tx
  note effect = submit_v2_effect [of lg tx cr, unfolded v2_submission_effect_def]
  show "outside_v2_pool (snd (submit_transaction_v2 cr lg tx)) = outside_v2_pool lg"
    using effect by auto
  show "v2_pool_inv (snd (submit_transaction_v2 cr lg tx))" if "v2_pool_inv lg"
    using effect that
    by (auto simp: v2_pool_inv_def usize_saturating_add_def MAX_PENDING_POOL_BYTES_def)
qed

section \<open>The pools after a block\<close>

text \<open>
  Serializing a transaction to JSON in memory does not fail: the derived serializers of the
  source return no error of their own.
\<close>

definition json_total :: "host \<Rightarrow> bool" where
  "json_total hs \<longleftrightarrow> (\<forall>tx. is_ok (h_transaction_json_len hs tx))"

lemma item_len_total: "json_total hs \<Longrightarrow> pending_pool_item_bytes hs tx = Inr (item_len hs tx)"
  by (auto simp: json_total_def item_len_def pending_pool_item_bytes_def is_ok_iff split: sum.splits)
    (metis Inl_Inr_False with_context_Inr)

lemma serialized_pool_len_total:
  assumes "json_total hs" and "pool_len hs txs < 2 ^ 64"
  shows "serialized_pool_len hs txs = Inr (pool_len hs txs)"
proof -
  have "try_fold (\<lambda>n tx. and_then (pending_pool_item_bytes hs tx) (\<lambda>len.
      ok_or ''pending pool byte size overflow'' (usize_checked_add n len))) n0 txs = Inr (n0 + pool_len hs txs)"
    if "n0 + pool_len hs txs < 2 ^ 64" for n0
    using that by (induction txs arbitrary: n0) (simp_all add: item_len_total [OF assms(1)] usize_checked_add_def)
  from this [of 0] show ?thesis using assms(2) by (simp add: serialized_pool_len_def)
qed

lemma revalidate_loop_keeps_pools:
  "pending (snd (revalidate_loop cr h d txs m lg)) = pending lg \<and>
   orphans (snd (revalidate_loop cr h d txs m lg)) = orphans lg \<and>
   pending_bytes (snd (revalidate_loop cr h d txs m lg)) = pending_bytes lg \<and>
   orphan_bytes (snd (revalidate_loop cr h d txs m lg)) = orphan_bytes lg"
  by (induction cr h d txs m lg rule: revalidate_loop.induct) (auto simp: st_check_def split: sum.splits)

lemma revalidate_keeps_pools:
  "pending (snd (revalidate_pending_v2 cr lg)) = pending lg \<and>
   orphans (snd (revalidate_pending_v2 cr lg)) = orphans lg \<and>
   pending_bytes (snd (revalidate_pending_v2 cr lg)) = pending_bytes lg \<and>
   orphan_bytes (snd (revalidate_pending_v2 cr lg)) = orphan_bytes lg"
  by (auto simp: revalidate_pending_v2_def revalidate_pending_v2_at_height_def st_check_def
      revalidate_loop_keeps_pools split: sum.splits)

lemma repair_inv:
  assumes "json_total hs" and "pool_inv hs lg" and "repair_pools hs lg b = (r, lg')"
  shows "pool_inv hs lg'"
proof -
  define lg0 where "lg0 = filter_pools (h_crypto hs) lg b"
  obtain P Q where lg0: "pending lg0 = filter P (pending lg)" "orphans lg0 = filter Q (orphans lg)"
    unfolding lg0_def filter_pools_def Let_def by simp
  have small: "pool_len hs (pending lg0) \<le> MAX_PENDING_POOL_BYTES" "pool_len hs (orphans lg0) \<le> MAX_PENDING_POOL_BYTES"
    "length (pending lg0) \<le> MAX_PENDING_TRANSACTIONS" "length (orphans lg0) \<le> MAX_ORPHAN_TRANSACTIONS"
    using assms(2) unfolding lg0 pool_inv_def
    by (auto intro: le_trans [OF pool_len_filter_le] le_trans [OF length_filter_le])
  have free: "conflict_free (pending lg0 @ orphans lg0)"
    using assms(2) conflict_free_filter unfolding lg0 pool_inv_def by (auto simp: conflict_free_append)
  define lg1 where "lg1 = lg0\<lparr>pending_bytes := pool_len hs (pending lg0), orphan_bytes := pool_len hs (orphans lg0)\<rparr>"
  have "refresh_pending_pool_byte_counters hs lg0 = (Inr (), lg1)"
    using serialized_pool_len_total [OF assms(1)] small
    by (simp add: refresh_pending_pool_byte_counters_def lg1_def MAX_PENDING_POOL_BYTES_def)
  moreover have "pool_inv hs lg1" using small free by (simp add: lg1_def pool_inv_def)
  moreover obtain r2 lg2 where promoted: "promote_orphan_transactions hs lg1 = (r2, lg2)" by fastforce
  moreover have "pool_inv hs (snd (revalidate_pending_v2 (h_crypto hs) lg2)) = pool_inv hs lg2"
    using revalidate_keeps_pools [of "h_crypto hs" lg2] by (simp add: pool_inv_def)
  ultimately show ?thesis
    using assms(3) promote_inv [of hs lg1]
    unfolding repair_pools_def lg0_def [symmetric]
    by (auto simp: st_then_eq st_check_eq pool_inv_def)
qed

section \<open>The state machine\<close>

inductive ledger_step :: "host \<Rightarrow> Ledger \<Rightarrow> Ledger \<Rightarrow> bool" for hs where
  submit: "submit_transaction_with_outcome hs lg tx = (r, lg') \<Longrightarrow> ledger_step hs lg lg'"
| submit_v2: "submit_transaction_v2 (h_crypto hs) lg tx2 = (r, lg') \<Longrightarrow> ledger_step hs lg lg'"
| apply_block: "apply_block_with_vdf_policy hs lg b v now = (u, lg') \<Longrightarrow> ledger_step hs lg lg'"

inductive_cases ledger_stepE: "ledger_step hs lg lg'"

text \<open>
  A linked chain: heights count up, each block names the hash of its predecessor and carries the
  hash of its own content, and time moves forward.
\<close>

definition follows :: "crypto \<Rightarrow> Block \<Rightarrow> Block \<Rightarrow> bool" where
  "follows cr parent b \<longleftrightarrow>
     unat (height b) = unat (height parent) + 1 \<and> prev_hash b = block_hash parent \<and>
     compute_hash cr b = block_hash b \<and> timestamp_ms parent < timestamp_ms b"

definition chain_linked :: "crypto \<Rightarrow> Block list \<Rightarrow> bool" where
  "chain_linked cr bs \<longleftrightarrow> bs \<noteq> [] \<and> successively (follows cr) bs"

lemma chain_linked_append:
  "chain_linked cr bs \<Longrightarrow> follows cr (last bs) b \<Longrightarrow> chain_linked cr (bs @ [b])"
  by (auto simp: chain_linked_def successively_append_iff)

lemma successor_height:
  assumes "height (tip lg) < height b" and "height b = height (tip lg) + 1"
  shows "unat (height b) = unat (height (tip lg)) + 1"
proof -
  have "1 + height (tip lg) \<noteq> 0" using assms by (auto simp: add.commute)
  then show ?thesis using unatSuc [of "height (tip lg)"] assms(2) by (simp add: add.commute)
qed

lemma precheck_follows:
  assumes "precheck_block_without_vdf_at hs lg b now = Inr True"
  shows "follows (h_crypto hs) (tip lg) b"
proof -
  have new: "height (tip lg) < height b" and ok: "precheck_new_block hs lg b now = Inr ()"
    using assms by (auto simp: precheck_block_without_vdf_at_def and_then_eq_Inr split: if_splits)
  note linked = precheck_linked [OF ok]
  show ?thesis
    using linked(1-3) timestamp_increases(1) [OF linked(5)] successor_height [OF new linked(1)]
    by (simp add: follows_def)
qed

text \<open>Value minted by a list of blocks.\<close>

definition minted_by :: "Block list \<Rightarrow> nat" where
  "minted_by bs = (\<Sum>b\<leftarrow>bs. block_minted b)"

definition node_inv :: "host \<Rightarrow> Ledger \<Rightarrow> Ledger \<Rightarrow> bool" where
  "node_inv hs lg0 lg \<longleftrightarrow>
     chain_linked (h_crypto hs) (chain lg) \<and> pool_inv hs lg \<and>
     (\<exists>bs. chain lg = chain lg0 @ bs \<and>
       utxo_total (ledger_utxos lg) \<le> utxo_total (ledger_utxos lg0) + minted_by bs)"

lemma node_inv_frame:
  assumes "node_inv hs lg0 lg" and "chain lg' = chain lg" "lineage lg' = lineage lg" and "pool_inv hs lg'"
  shows "node_inv hs lg0 lg'"
  using assms by (simp add: node_inv_def)

lemma block_keeps_node_inv:
  assumes "json_total hs" and run: "apply_block_with_vdf_policy hs lg b v now = (u, lg')"
    and inv: "node_inv hs lg0 lg"
  shows "node_inv hs lg0 lg'"
proof -
  have "lg' = lg \<or> (precheck_block_without_vdf_at hs lg b now = Inr True \<and>
      (\<exists>lg1. block_transition (h_crypto hs) lg b = Inr lg1 \<and> repair_pools hs lg1 b = (u, lg')))"
    using run by (auto simp: apply_block_with_vdf_policy_def st_check_eq split: if_splits)
  then show ?thesis
  proof (elim disjE conjE exE)
    fix lg1
    assume pre: "precheck_block_without_vdf_at hs lg b now = Inr True"
      and trans: "block_transition (h_crypto hs) lg b = Inr lg1" and repair: "repair_pools hs lg1 b = (u, lg')"
    have chain: "chain lg1 = chain lg @ [b]" by (rule block_extends_chain [OF trans])
    have keeps: "chain lg' = chain lg1" "lineage lg' = lineage lg1"
      using repair_confirmedD [OF repair] confirmed_keeps(1,2) by metis+
    obtain bs where bs: "chain lg = chain lg0 @ bs"
        "utxo_total (ledger_utxos lg) \<le> utxo_total (ledger_utxos lg0) + minted_by bs"
      using inv by (auto simp: node_inv_def)
    have "pool_inv hs lg1" using inv transition_keeps_pools [OF trans] by (simp add: node_inv_def pool_inv_def)
    then have "pool_inv hs lg'" by (rule repair_inv [OF assms(1) _ repair])
    moreover have "chain_linked (h_crypto hs) (chain lg')"
      using inv precheck_follows [OF pre] chain_linked_append
      unfolding keeps(1) chain node_inv_def tip_def by blast
    moreover have "utxo_total (ledger_utxos lg') \<le> utxo_total (ledger_utxos lg0) + minted_by (bs @ [b])"
      using block_supply [OF trans] bs(2) keeps(2) by (simp add: minted_by_def)
    moreover have "chain lg' = chain lg0 @ (bs @ [b])" using keeps chain bs(1) by simp
    ultimately show ?thesis unfolding node_inv_def by blast
  qed (use inv in simp)
qed

lemma step_keeps_node_inv:
  assumes "ledger_step hs lg lg'" and "json_total hs" and inv: "node_inv hs lg0 lg"
  shows "node_inv hs lg0 lg'"
  using assms(1)
proof (cases rule: ledger_step.cases)
  case (submit tx r)
  have "outside_pools lg' = outside_pools lg" by (rule submit_outside [OF submit])
  then have "chain lg' = chain lg" "lineage lg' = lineage lg"
    using outside_pools_keeps(1,2) by metis+
  then show ?thesis using inv submit_inv [OF submit] by (auto intro: node_inv_frame simp: node_inv_def)
next
  case (submit_v2 tx r)
  then show ?thesis
    using inv submit_v2_effect [of lg tx "h_crypto hs"] unfolding v2_submission_effect_def
    by (auto simp: node_inv_def pool_inv_def)
next
  case (apply_block b v now u)
  then show ?thesis using block_keeps_node_inv assms(2) inv by blast
qed

lemma reachable_node_inv:
  assumes "(ledger_step hs)\<^sup>*\<^sup>* lg lg'" and "json_total hs" and "node_inv hs lg0 lg"
  shows "node_inv hs lg0 lg'"
  using assms by (induction rule: rtranclp_induct) (auto intro: step_keeps_node_inv)

end
