(* ===== verification/Ledger_Chain_Facts.thy ===== *)
theory Ledger_Chain_Facts
  imports Ledger_Chain Ledger_Steps
begin

text \<open>
  Properties of whole ledgers: a new ledger starts the invariants of the state machine, two nodes
  find the same fork point, a switch adopts the candidate's confirmed state and leaves the pools
  within their limits, and a restored ledger consists of the snapshot's blocks, linked.
\<close>

section \<open>New ledgers\<close>

lemma index_unapplied_keeps:
  assumes "index_unapplied_block_addresses cr lg b = Inr lg'"
  shows "chain lg' = chain lg" "lineage lg' = lineage lg" "tickets lg' = tickets lg"
    "mined_transaction_ids lg' = mined_transaction_ids lg"
    "objective_finality_checkpoint lg' = objective_finality_checkpoint lg"
    "launch_profile lg' = launch_profile lg" "pending lg' = pending lg" "orphans lg' = orphans lg"
    "pending_bytes lg' = pending_bytes lg" "orphan_bytes lg' = orphan_bytes lg"
  using assms
  by (auto simp: index_unapplied_block_addresses_def Let_def and_then_eq_Inr split: if_splits)

lemma empty_pools_inv: "pending lg = [] \<Longrightarrow> orphans lg = [] \<Longrightarrow> pending_bytes lg = 0 \<Longrightarrow>
    orphan_bytes lg = 0 \<Longrightarrow> pool_inv hs lg"
  by (simp add: pool_inv_def)

lemma empty_lineage_inv: "lineage_inv \<lparr>ls_utxos = m, ls_lineage = bt_empty, ls_values = bt_empty, ls_owners = bt_empty\<rparr>"
  by (simp add: lineage_inv_def lineage_inv_on_def indexed_value_def root_value_def owner_entry_def)

lemma new_ledgerE:
  assumes "new_with_genesis_transactions cr allocations txs rounds profile = Inr lg"
  obtains m where "chain lg = [build_genesis_block cr allocations txs]"
    "utxos_after_genesis cr allocations (build_genesis_block cr allocations txs) = Inr m"
    "lineage lg = \<lparr>ls_utxos = m, ls_lineage = bt_empty, ls_values = bt_empty, ls_owners = bt_empty\<rparr>"
    "pending lg = []" "orphans lg = []" "pending_bytes lg = 0" "orphan_bytes lg = 0"
    "validate_genesis_allocations allocations = Inr ()"
proof -
  obtain m ts ctx where valid: "validate_genesis_allocations allocations = Inr ()"
    and m: "utxos_after_genesis cr allocations (build_genesis_block cr allocations txs) = Inr m"
    and lg: "index_unapplied_block_addresses cr (genesis_ledger allocations
      (build_genesis_block cr allocations txs) m ts rounds profile ctx)
      (build_genesis_block cr allocations txs) = Inr lg"
    using assms unfolding new_with_genesis_transactions_def Let_def and_then_eq_Inr by auto
  show ?thesis
    using that [of m] index_unapplied_keeps [OF lg] m valid by (simp add: genesis_ledger_def)
qed

lemma new_ledger_node_inv:
  assumes "new_with_genesis_transactions (h_crypto hs) allocations txs rounds profile = Inr lg"
  shows "node_inv hs lg lg"
  using assms
  by (rule new_ledgerE)
    (simp add: node_inv_def chain_linked_def minted_by_def empty_pools_inv)

section \<open>Fork points\<close>

lemma chain_heights_increase:
  assumes "successively (follows cr) bs"
  shows "sorted_wrt (\<lambda>b c. unat (height b) < unat (height c)) bs"
proof -
  have "successively (\<lambda>b c. unat (height b) < unat (height c)) bs"
    using assms by (rule successively_mono) (simp add: follows_def)
  then show ?thesis by (simp add: successively_conv_sorted_wrt transp_def)
qed

text \<open>The search from the tip finds the highest shared block.\<close>

lemma find_rev_highest:
  assumes "sorted_wrt (\<lambda>b c. unat (height b) < unat (height c)) bs" and "find P (rev bs) = Some l"
    and "b \<in> set bs" and "P b"
  shows "unat (height b) \<le> unat (height l)"
proof -
  obtain i where i: "i < length bs" "P (rev bs ! i)" "l = rev bs ! i" "\<forall>j<i. \<not> P (rev bs ! j)"
    using assms(2) by (auto simp: find_Some_iff)
  obtain k where k: "k < length bs" "b = rev bs ! k"
    using assms(3) by (metis in_set_conv_nth length_rev set_rev)
  then have "i \<le> k" using i(4) assms(4) not_less by blast
  moreover have "sorted_wrt (\<lambda>c b. unat (height b) < unat (height c)) (rev bs)"
    using assms(1) by (simp add: sorted_wrt_rev)
  ultimately show ?thesis
    using sorted_wrt_nth_less [of _ "rev bs" i k] i(3) k by (cases "i = k") force+
qed

lemma find_member: "find P xs = Some x \<Longrightarrow> x \<in> set xs \<and> P x"
  by (auto simp: find_Some_iff)

definition shared_with :: "Ledger \<Rightarrow> Block \<Rightarrow> bool" where
  "shared_with other b \<longleftrightarrow> list_ex (same_block b) (chain other)"

lemma shared_partner:
  assumes "shared_with other b" and "b \<in> set (chain lg)"
  shows "\<exists>c\<in>set (chain other). height c = height b \<and> shared_with lg c"
proof -
  obtain c where "c \<in> set (chain other)" "same_block b c"
    using assms(1) by (auto simp: shared_with_def list_ex_iff)
  moreover from this have "same_block c b" by (simp add: same_block_def)
  ultimately show ?thesis
    using assms(2) by (intro bexI [of _ c]) (auto simp: shared_with_def list_ex_iff same_block_def)
qed

lemma fork_point_eq_Inr:
  "fork_point_with_candidate lg candidate = Inr p \<longleftrightarrow>
    ledger_genesis_hash candidate = ledger_genesis_hash lg \<and>
    (\<exists>l. find (shared_with candidate) (rev (chain lg)) = Some l \<and> p = \<lparr>common_ancestor_height = height l\<rparr>)"
  unfolding fork_point_with_candidate_def shared_with_def
  by (auto simp: and_then_eq_Inr ok_or_eq_Inr)

lemma fork_point_symmetric:
  assumes "successively (follows cr) (chain lg)" and "successively (follows cr) (chain candidate)"
    and "fork_point_with_candidate lg candidate = Inr p"
  shows "fork_point_with_candidate candidate lg = Inr p"
proof -
  note up = chain_heights_increase [OF assms(1)] chain_heights_increase [OF assms(2)]
  obtain l where gen: "ledger_genesis_hash candidate = ledger_genesis_hash lg"
    and l: "find (shared_with candidate) (rev (chain lg)) = Some l"
    and p: "p = \<lparr>common_ancestor_height = height l\<rparr>"
    using assms(3) by (auto simp: fork_point_eq_Inr)
  obtain c where c: "c \<in> set (chain candidate)" "height c = height l" "shared_with lg c"
    using shared_partner find_member [OF l] by fastforce
  then obtain r where r: "find (shared_with lg) (rev (chain candidate)) = Some r"
    by (cases "find (shared_with lg) (rev (chain candidate))") (auto simp: find_None_iff)
  obtain k where k: "k \<in> set (chain lg)" "height k = height r" "shared_with candidate k"
    using shared_partner find_member [OF r] by fastforce
  have "unat (height l) \<le> unat (height r)" using find_rev_highest [OF up(2) r c(1,3)] c(2) by simp
  moreover have "unat (height r) \<le> unat (height l)" using find_rev_highest [OF up(1) l k(1,3)] k(2) by simp
  ultimately have "height r = height l" by (simp add: word_unat_eq_iff)
  then show ?thesis using gen r p by (simp add: fork_point_eq_Inr)
qed

text \<open>Two nodes that exchange their ledgers never both switch.\<close>

lemma no_mutual_switch:
  assumes "successively (follows cr) (chain lg)" and "successively (follows cr) (chain candidate)"
    and "fork_point_with_candidate lg candidate = Inr p" and "fork_point_with_candidate candidate lg = Inr q"
    and "choose_fork cr lg candidate p = SwitchToCandidate"
  shows "choose_fork cr candidate lg q = KeepLocal"
  using fork_point_symmetric [OF assms(1-3)] assms(4) choose_fork_antisym [OF assms(5)] by simp

section \<open>Switching\<close>

lemma confirmed_outside [simp]: "confirmed (outside_pools lg) = confirmed lg"
  "confirmed (outside_v2_pool lg) = confirmed lg"
  by (simp_all add: confirmed_def outside_pools_def outside_v2_pool_def)

lemma outside_confirmed:
  "outside_pools lg = outside_pools lg' \<Longrightarrow> confirmed lg = confirmed lg'"
  "outside_v2_pool lg = outside_v2_pool lg' \<Longrightarrow> confirmed lg = confirmed lg'"
  by (metis confirmed_outside(1), metis confirmed_outside(2))

lemma snd_submit: "snd (submit_transaction hs lg tx) = snd (submit_transaction_with_outcome hs lg tx)"
  by (cases "submit_transaction_with_outcome hs lg tx"; cases "fst (submit_transaction_with_outcome hs lg tx)")
    (auto simp: submit_transaction_def)

text \<open>Carrying transactions over works on the pools alone.\<close>

interpretation carried: ledger_operation "submit_transaction hs" confirmed "pool_inv hs" for hs
  by unfold_locales
    (simp_all add: snd_submit legacy_submission.run_inv outside_confirmed(1) [OF legacy_submission.run_frame])

definition carry_v2_step :: "crypto \<Rightarrow> Ledger \<Rightarrow> TransactionV2 \<Rightarrow> unit \<times> Ledger" where
  "carry_v2_step cr lg tx =
     ((), if v2_already_mined cr lg tx then lg else snd (submit_transaction_v2 cr lg tx))"

interpretation carried_v2: ledger_operation "carry_v2_step cr" confirmed "pool_inv hs" for cr hs
proof
  fix lg tx
  show "confirmed (snd (carry_v2_step cr lg tx)) = confirmed lg"
    by (simp add: carry_v2_step_def outside_confirmed(2) [OF v2_submission.run_frame])
  show "pool_inv hs (snd (carry_v2_step cr lg tx))" if "pool_inv hs lg"
    using that submit_v2_effect [of lg tx cr]
    by (auto simp: carry_v2_step_def v2_submission_effect_def pool_inv_def)
qed

lemma carry_v2_fold: "carry_v2 cr txs lg = foldl (\<lambda>lg tx. snd (carry_v2_step cr lg tx)) lg txs"
  by (simp add: carry_v2_def carry_v2_step_def)

lemma replace_adopts:
  "confirmed (replace_with_better_chain hs lg candidate stale) = confirmed candidate"
  "pool_inv hs candidate \<Longrightarrow> pool_inv hs (replace_with_better_chain hs lg candidate stale)"
  by (simp_all add: replace_with_better_chain_def Let_def carry_v2_fold carry_transactions_def
      carried_v2.run_all_frame carried.run_all_frame carried_v2.run_all_inv carried.run_all_inv)

section \<open>Restoration\<close>

lemma restore_is_step:
  assumes "restore_block hs None rf vf now lg b = Inr lg'"
  shows "ledger_step hs lg lg'" and "chain lg' = chain lg \<or> chain lg' = chain lg @ [b]"
proof -
  obtain v u where run: "apply_block_with_vdf_policy hs lg b v now = (Inr u, lg')"
    using assms
    by (auto simp: restore_block_def result_state_def apply_block_at_def apply_preverified_block_at_def
        split: if_splits prod.splits sum.splits)
  show "ledger_step hs lg lg'" by (rule ledger_step.apply_block [OF run])
  show "chain lg' = chain lg \<or> chain lg' = chain lg @ [b]"
    using apply_block_atomic [OF run] block_extends_chain by (metis confirmed_keeps(1))
qed

lemma restore_reaches:
  assumes "try_fold (restore_block hs None rf vf now) lg bs = Inr lg'"
  shows "(ledger_step hs)\<^sup>*\<^sup>* lg lg' \<and> set (chain lg') \<subseteq> set (chain lg) \<union> set bs"
  using assms
proof (induction bs arbitrary: lg)
  case (Cons b bs)
  obtain lg1 where step: "restore_block hs None rf vf now lg b = Inr lg1"
    and rest: "try_fold (restore_block hs None rf vf now) lg1 bs = Inr lg'"
    using Cons.prems by (auto simp: and_then_eq_Inr)
  have "(ledger_step hs)\<^sup>*\<^sup>* lg lg'"
    using restore_is_step(1) [OF step] Cons.IH [OF rest] by (simp add: converse_rtranclp_into_rtranclp)
  moreover have "set (chain lg1) \<subseteq> set (chain lg) \<union> {b}" using restore_is_step(2) [OF step] by auto
  ultimately show ?case using Cons.IH [OF rest] by auto
qed simp

text \<open>
  A ledger restored from an untrusted snapshot is reachable from its genesis ledger, so that it
  has every invariant of the state machine, and holds blocks of the snapshot only.
\<close>

lemma restored_ledger:
  assumes "from_snapshot_with_vdf_policy hs snap verify now = Inr lg" and "json_total hs"
  shows "chain_linked (h_crypto hs) (chain lg) \<and> set (chain lg) \<subseteq> set (snap_blocks snap) \<and>
    hd (chain lg) = hd (snap_blocks snap) \<and>
    utxo_total (ledger_utxos lg) \<le> allocated (snap_genesis_allocations snap) +
      unat (reward (hd (chain lg))) + minted_by (tl (chain lg))"
proof -
  define al where "al = snap_genesis_allocations snap"
  obtain genesis rest where blocks: "snap_blocks snap = genesis # rest"
    using assms(1) by (cases "snap_blocks snap")
      (auto simp: from_snapshot_with_vdf_policy_def from_snapshot_with_revalidation_policy_def Let_def)
  obtain m ctx lg0 ts where m: "utxos_after_genesis (h_crypto hs) al genesis = Inr m"
    and lg0: "index_unapplied_block_addresses (h_crypto hs) (genesis_ledger al genesis m []
      (snap_vdf_rounds snap) (snap_launch_profile snap) ctx) genesis = Inr lg0"
    and run: "try_fold (restore_block hs None (Some 0) (if verify then Some 0 else None) now)
      (lg0\<lparr>tickets := ts, ticket_draw_horizon := height (last (genesis # rest))\<rparr>) rest = Inr lg"
    using assms(1) blocks
    unfolding from_snapshot_with_vdf_policy_def from_snapshot_with_revalidation_policy_def Let_def al_def
    by (auto simp: and_then_eq_Inr if_bail_eq_Inr)
  define lg1 where "lg1 = lg0\<lparr>tickets := ts, ticket_draw_horizon := height (last (genesis # rest))\<rparr>"
  have lg1: "chain lg1 = [genesis]" "ledger_utxos lg1 = m" "node_inv hs lg1 lg1"
    using index_unapplied_keeps [OF lg0]
    by (simp_all add: lg1_def genesis_ledger_def node_inv_def chain_linked_def minted_by_def empty_pools_inv)
  note reach = restore_reaches [OF run [folded lg1_def]]
  from reachable_node_inv [OF _ assms(2) lg1(3)] reach
  have inv: "node_inv hs lg1 lg" by blast
  then obtain bs where "chain lg = genesis # bs" "utxo_total (ledger_utxos lg) \<le> utxo_total m + minted_by bs"
    "chain_linked (h_crypto hs) (chain lg)"
    using lg1 by (auto simp: node_inv_def)
  moreover have "set (chain lg) \<subseteq> set (snap_blocks snap)" using reach lg1(1) blocks by auto
  moreover have "utxo_total m \<le> allocated al + unat (reward genesis)"
    using genesis_supply [OF m] by simp
  ultimately show ?thesis by (simp add: blocks al_def)
qed

end
