(* ===== verification/Block_Facts.thy ===== *)
theory Block_Facts
  imports Pending_Facts Ledger_Chain_Facts Ticket_Facts
begin

text \<open>
  What acceptance of a block says of its parts: the signatures behind its spends, the errors that
  send a node into fork recovery, the fixed point that the promotion of orphans reaches, and the
  limit of the lineage index at outputs without value.
\<close>

section \<open>Spends of an accepted block\<close>

lemma try_fold_step:
  "try_fold f s xs = Inr s' \<Longrightarrow> x \<in> set xs \<Longrightarrow> \<exists>s1 s2. f s1 x = Inr s2"
  by (induction xs arbitrary: s) (auto simp: and_then_eq_Inr)

lemma spend_has_owner:
  assumes "apply_spend_with_lineage tx h st = Inr st'" and "\<not> is_mine tx"
  shows "inputs tx \<noteq> [] \<and> (\<forall>i\<in>set (inputs tx). in_owner i = sender tx)"
proof -
  have "ensure_single_input_owner tx = Inr ()"
    using assms by (auto simp: apply_spend_with_lineage_def and_then_eq_Inr)
  then show ?thesis
    using assms(2) by (cases tx) (auto simp: ensure_single_input_owner_def
        ensure_single_input_owner_for_inputs_def first_owner_def list_ex_iff split: list.splits if_splits)
qed

lemma block_spend_signed:
  assumes ok: "block_transition cr lg b = Inr lg'" and tx: "tx \<in> set (transactions b)" and spend: "\<not> is_mine tx"
  shows "\<exists>key payload sig. decode_hex (sender tx) = Inr key \<and> length key = 32 \<and>
    decode_hex (tx_signature tx) = Inr sig \<and> length sig = 64 \<and>
    spend_payload tx (transaction_signing_domain_at lg (height b)) = Inr payload \<and>
    ed25519_verify cr key payload sig"
    and "\<forall>i\<in>set (inputs tx). in_owner i = sender tx"
proof -
  from ok obtain signatures ls where loop:
    "try_fold (block_transaction_step cr lg b) ({}, lineage lg) (transactions b) = Inr (signatures, ls)"
    by (rule block_transitionE) (rule that)
  obtain s1 s2 where "block_transaction_step cr lg b s1 tx = Inr s2"
    using try_fold_step [OF loop tx] by blast
  then obtain ls1 ls2 where "apply_transaction_with_lineage cr tx (height b) ls1
      (Some (transaction_signing_domain_at lg (height b))) = Inr ls2"
    by (cases s1; cases s2) (auto simp: transaction_step_eq_Inr)
  then have "apply_spend_with_lineage tx (height b) ls1 = Inr ls2"
    by (auto simp: apply_transaction_with_lineage_def and_then_eq_Inr)
  note owner = spend_has_owner [OF this spend]
  then show "\<forall>i\<in>set (inputs tx). in_owner i = sender tx" by simp
  have "\<not> genesis_exempt tx"
    using terms_not_genesis_exempt [OF block_transactions_checked(2) [OF ok tx] spend] owner
    by (simp add: genesis_exempt_def)
  from verify_signature_authentic [OF block_transactions_checked(3) [OF ok tx] spend this]
  show "\<exists>key payload sig. decode_hex (sender tx) = Inr key \<and> length key = 32 \<and>
    decode_hex (tx_signature tx) = Inr sig \<and> length sig = 64 \<and>
    spend_payload tx (transaction_signing_domain_at lg (height b)) = Inr payload \<and>
    ed25519_verify cr key payload sig" by blast
qed

section \<open>Blocks that do not extend the tip\<close>

lemma off_tip_rejected:
  assumes "height (tip lg) < height b"
    and "height b \<noteq> height (tip lg) + 1 \<or> prev_hash b \<noteq> block_hash (tip lg)"
  shows "\<exists>e. apply_block_with_vdf_policy hs lg b v now = (Inl (Validation e), lg) \<and> requests_fork_recovery e"
  using assms
  by (auto simp: apply_block_with_vdf_policy_def precheck_block_without_vdf_at_def precheck_new_block_def
      reject_def Let_def)

lemma known_height_decided:
  assumes "height b \<le> height (tip lg)" and "find (\<lambda>known. height known = height b) (chain lg) = Some known"
  shows "apply_block_with_vdf_policy hs lg b v now =
    (if block_hash known = block_hash b then Inr ()
     else Inl (Validation (BlockConflictsWithLocalChain (height b))), lg)"
  using assms
  by (simp add: apply_block_with_vdf_policy_def precheck_block_without_vdf_at_def reject_def)

section \<open>Promotion of orphans\<close>

lemma promote_at_mset:
  assumes "i < length (orphans lg)"
  shows "mset (pending (promote_at lg i n) @ orphans (promote_at lg i n)) = mset (pending lg @ orphans lg)"
  using mset_list_remove [OF assms] by (simp add: promote_at_def Let_def list_remove_def)

lemma promotion_moves:
  "mset (pending (snd (promote_orphan_transactions hs lg)) @ orphans (snd (promote_orphan_transactions hs lg))) =
     mset (pending lg @ orphans lg)"
proof (rule promote_invariant [where P = "\<lambda>s. mset (pending s @ orphans s) = mset (pending lg @ orphans lg)"])
  fix s m i n
  assume "mset (pending s @ orphans s) = mset (pending lg @ orphans lg)"
    and "find_promotion hs s 0 (orphans s) m = Inr (Some (i, n))"
  then show "mset (pending (promote_at s i n) @ orphans (promote_at s i n)) = mset (pending lg @ orphans lg)"
    using find_promotion_index [of hs s 0 "orphans s" m i n] promote_at_mset by fastforce
qed simp

lemma promotion_complete:
  assumes "promote_orphan_transactions hs lg = (Inr (), lg')"
  shows "MAX_PENDING_TRANSACTIONS \<le> length (pending lg') \<or>
    (\<exists>m. utxos_after_valid_pending (h_crypto hs) lg' = Inr m \<and> find_promotion hs lg' 0 (orphans lg') m = Inr None)"
  using assms
proof (induction hs lg rule: promote_orphan_transactions.induct)
  case (1 hs lg)
  show ?case
  proof (cases "MAX_PENDING_TRANSACTIONS \<le> length (pending lg)")
    case True
    then show ?thesis using "1.prems" by (subst (asm) promote_orphan_transactions.simps) simp
  next
    case False
    show ?thesis
    proof (cases "and_then (utxos_after_valid_pending (h_crypto hs) lg) (\<lambda>m. find_promotion hs lg 0 (orphans lg) m)")
      case (Inl e)
      then show ?thesis using "1.prems" False by (subst (asm) promote_orphan_transactions.simps) simp
    next
      case (Inr found)
      show ?thesis
      proof (cases found)
        case None
        then show ?thesis using "1.prems" False Inr
          by (subst (asm) promote_orphan_transactions.simps) (auto simp: and_then_eq_Inr)
      next
        case (Some p)
        obtain i n where p: "p = (i, n)" by force
        have "promote_orphan_transactions hs (promote_at lg i n) = (Inr (), lg')"
          using "1.prems" False Inr Some p by (subst (asm) promote_orphan_transactions.simps) simp
        then show ?thesis using "1.IH" False Inr Some p by simp
      qed
    qed
  qed
qed

section \<open>Outputs without value\<close>

text \<open>
  When the outputs with a value of a lineage root are spent, the root leaves the table of values
  although outputs without value still carry it; those can no longer be spent.
\<close>

lemma root_dropped:
  assumes "remove_spent_output_lineage p o1 st = Inr (Some root, st')"
    and "bt_get (ls_values st) root = Some (out_amount o1)"
    and "bt_get (ls_lineage st) q = Some root" and "q \<noteq> p"
  shows "remove_spent_output_lineage q o2 st' = bail ''lineage index is missing spent root''"
  using assms
  by (auto simp: remove_spent_output_lineage_def subtract_lineage_value_def and_then_eq_Inr checked_sub_def
      split: option.splits)

end
