(* ===== verification/Chain_Examples.thy ===== *)
theory Chain_Examples
  imports Examples Block_Facts
begin

text \<open>
  A concrete node: a ledger of one genesis block with one allocation, and a recovery block on top of
  it that burns a part of the allocation. The crypto parameter \<open>flat_crypto\<close> has a constant digest
  and accepts every signature, so that the operations are evaluated by the simplifier on all their
  other inputs.
\<close>

definition flat_crypto :: crypto where
  "flat_crypto = \<lparr>sha256 = (\<lambda>_. replicate 32 0), ed25519_key_ok = (\<lambda>_. True), ed25519_key_weak = (\<lambda>_. False),
     ed25519_key_of_seed = pad_to 32, ed25519_sign = (\<lambda>_ _. replicate 64 0), ed25519_verify = (\<lambda>_ _ _. True),
     ml_dsa44_sig_ok = (\<lambda>_. True), ml_dsa44_verify = (\<lambda>_ _ _ _. True),
     ml_dsa44_key_of_seed = pad_to 1312, ml_dsa44_sign = toy_ml_dsa44_sign\<rparr>"
definition flat_id :: string where "flat_id = hex_encode (replicate 32 0)"
definition flat_key :: string where "flat_key = hex_encode (replicate 32 7)"
definition flat_signature :: string where "flat_signature = hex_encode (replicate 64 0)"
definition flat_allocations :: "(string, Amount) btree_map" where "flat_allocations = bt_insert flat_key 100 bt_empty"
definition flat_classgroup :: classgroup where
  "flat_classgroup = \<lparr>cg_create_discriminant = (\<lambda>_ _. Some 1), cg_generator = (\<lambda>_. Some (1, 1, 1)),
     cg_deserialize_form = (\<lambda>_ _. Some (1, 1, 1)), cg_serialize_form = (\<lambda>_ _. Some (replicate 100 0)),
     cg_verify_wesolowski = (\<lambda>_ _ _ _ _. Some True)\<rparr>"

definition flat_host :: host where
  "flat_host = \<lparr>h_crypto = flat_crypto, h_classgroup = flat_classgroup,
     h_transaction_json_len = (\<lambda>_. Inr 10), h_bundle_json_len = (\<lambda>_. Inr 10)\<rparr>"

definition flat_genesis :: Block where
  "flat_genesis = \<lparr>height = 0, prev_hash = flat_id, timestamp_ms = 0, miner = flat_key, reward_address = None,
     reward_address_signature = None, finalizer_mode = TicketMode, finalizer_rank = 0, reward = 0, vdf_rounds = 0,
     vdf_output = flat_id, leader_proof = None, burn_bundle_section = section_default, transactions = [],
     transactions_v2 = [], block_hash = flat_id\<rparr>"
definition flat_ticket :: "u64 \<Rightarrow> BurnTicket" where
  "flat_ticket h = \<lparr>tk_id = flat_id, tk_owner = flat_key, tk_amount = 1, tk_from = h, tk_until = h\<rparr>"
definition flat_breakdown :: CompactBlockSizeBreakdown where
  "flat_breakdown = \<lparr>total_bytes = 49, header_and_proof_bytes = 45, transaction_bytes = 1, transfer_bytes = 0, burn_bytes = 0,
    mine_bytes = 0, burn_bundle_bytes = 3\<rparr>"
definition flat_ledger :: Ledger where
  "flat_ledger = \<lparr>chain = [flat_genesis], history_pruned = False, genesis_allocations = flat_allocations,
     lineage = \<lparr>ls_utxos = bt_insert (OutPoint flat_id 0) \<lparr>out_address = flat_key, out_amount = 100\<rparr> bt_empty,
       ls_lineage = bt_empty, ls_values = bt_empty, ls_owners = bt_empty\<rparr>,
     hybrid_legacy_owners = bt_empty, tickets = [flat_ticket 1, flat_ticket 2, flat_ticket 3], mined_transaction_ids = {},
     pending = [], orphans = [], pending_bytes = 0, orphan_bytes = 0, pending_v2 = [], pending_v2_bytes = 0,
     mine_reward = MINE_REWARD, mine_difficulty_windows = [12], initial_vdf_rounds = 5, ledger_vdf_rounds = 5,
     launch_profile = local_testnet,
     compact_block_context = \<lparr>ctx_tables = \<lparr>et_addresses = bt_insert flat_key 0 bt_empty, et_protocol_ids = bt_insert flat_id 0 bt_empty\<rparr>,
       ctx_breakdowns = bt_insert flat_id flat_breakdown bt_empty\<rparr>,
     objective_finality_checkpoint = None, confirmed_hybrid_used_addresses = {},
     confirmed_hybrid_spent_addresses = {}, confirmed_hybrid_authored_addresses = bt_empty,
     vdf_retarget_observations = [], ticket_draw_horizon = 1, resident_ticket_draws = bt_empty\<rparr>"
definition flat_burn :: Transaction where
  "flat_burn = Burn
     [\<lparr>in_outpoint = OutPoint flat_id 0, in_owner = flat_key, in_signature = flat_signature\<rparr>]
     [\<lparr>out_address = flat_key, out_amount = 89\<rparr>] 10 1 None flat_signature"

definition flat_block :: Block where
  "flat_block = \<lparr>height = 1, prev_hash = flat_id, timestamp_ms = 86400000, miner = flat_key,
     reward_address = None, reward_address_signature = None, finalizer_mode = RecoveryMode,
     finalizer_rank = 0, reward = 1, vdf_rounds = 5, vdf_output = encode_vdf_solution (replicate 200 0), leader_proof = None,
     burn_bundle_section = section_default, transactions = [flat_burn], transactions_v2 = [], block_hash = flat_id\<rparr>"

lemma flat_hash [simp]: "hex_hash flat_crypto s = flat_id" "hex_hash_bytes flat_crypto bs = flat_id"
  by (simp_all add: hex_hash_def hex_hash_bytes_def flat_crypto_def flat_id_def)

lemma decode_flat [simp]:
  "decode_hex flat_id = Inr (replicate 32 0)" "decode_hex flat_key = Inr (replicate 32 7)"
  "decode_hex flat_signature = Inr (replicate 64 0)"
  by (simp_all only: flat_id_def flat_key_def flat_signature_def decode_hex_hex_encode)

lemma flat_distinct [simp]:
  "flat_id \<noteq> flat_key" "flat_key \<noteq> flat_id" "flat_id \<noteq> flat_signature" "flat_signature \<noteq> flat_id"
  "flat_key \<noteq> flat_signature" "flat_signature \<noteq> flat_key"
  by (simp_all add: flat_id_def flat_key_def flat_signature_def)

lemma flat_not_genesis [simp]: "flat_signature \<noteq> ''genesis''"
  "\<not> starts_with flat_signature ''iuna-genesis-burn:''"
  by (simp_all add: flat_signature_def starts_with_def HEX_def eval_nat_numeral)

lemma flat_validates [simp]:
  "validate_hash flat_id l = Inr ()" "validate_address flat_key l = Inr ()"
  "validate_signature flat_signature l = Inr ()" "validate_protocol_id flat_id l = Inr ()"
  by (simp_all add: validate_hash_def validate_address_def validate_signature_def validate_protocol_id_def
      decode_hex_array_def HASH_BYTES_def PUBLIC_KEY_BYTES_def SIGNATURE_BYTES_def)

lemma flat_terms: "validate_transaction_terms flat_crypto flat_ledger flat_burn = Inr ()"
  by (simp add: flat_burn_def validate_transaction_inputs_def validate_transaction_outputs_def)

lemma flat_varints: "varint_bytes 86400000 = [128, 184, 153, 41]" "varint_bytes 0 = [0]" "varint_bytes 1 = [1]"
    "varint_bytes 5 = [5]" "varint_bytes 10 = [10]" "varint_bytes 89 = [89]" "varint_bytes 200 = [200, 1]"
    "varint_bytes 32 = [32]"
  by code_simp+

lemmas flat_writers = write_all_def write_then_def write_bytes_def write_varint_def write_u8_def write_bool_def
  write_check_def write_address_def write_protocol_id_ref_def write_fixed_hex_def write_hex_def
  write_outpoints_def write_outputs_def write_optional_def write_compact_vdf_output_def common_input_owner_def
  ensure_input_signatures_def burn_change_mode_def flat_varints

lemma flat_solution [simp]:
  "starts_with (encode_vdf_solution bs) VDF_SOLUTION_PREFIX"
  "drop (length VDF_SOLUTION_PREFIX) (encode_vdf_solution bs) = hex_encode bs"
  by (simp_all add: starts_with_def encode_vdf_solution_def)

lemma flat_versions [simp]:
  "\<not> HYBRID_REWARD_COMPACT_SNAPSHOT_VERSION \<le> 7" "\<not> TRANSACTION_V2_COMPACT_SNAPSHOT_VERSION \<le> 7"
  "HYBRID_REWARD_COMPACT_SNAPSHOT_VERSION \<le> 9" "TRANSACTION_V2_COMPACT_SNAPSHOT_VERSION \<le> 9"
  by code_simp+

definition flat_tables :: EncodeTables where
  "flat_tables = ctx_tables (compact_block_context flat_ledger)"

lemmas flat_block_writers = write_block_header_def write_block_transaction_def write_transactions_v2_def
  write_burn_bundle_section_def section_default_def ensure_def

lemma flat_encodes:
  assumes "v = 7 \<or> v = 9"
  shows "\<exists>bs d t. encode_block_body_for_version flat_block v flat_tables = Inr (bs, d, t) \<and> total_bytes d \<le> 1000"
  using assms
  by (auto simp: encode_block_body_for_version_def flat_block_writers flat_block_def flat_burn_def flat_tables_def flat_ledger_def flat_writers Let_def)

lemma flat_size: "\<exists>n. consensus_block_size_bytes flat_ledger flat_block = Inr n \<and> n \<le> 1000"
  using flat_encodes [of 7]
  by (auto simp: consensus_block_size_bytes_def block_size_bytes_def block_size_breakdown_def
      flat_tables_def [symmetric] block_size_version_def flat_block_def section_default_def TRANSACTION_V2_COMPACT_SNAPSHOT_VERSION_def)

lemma flat_append: "\<exists>ctx. append_block flat_block (compact_block_context flat_ledger) = Inr ctx"
  using flat_encodes [of 9] by (auto simp: append_block_def flat_tables_def COMPACT_SNAPSHOT_VERSION_def)

lemma flat_domain:
  "transaction_v2_domain flat_ledger = Inr \<lparr>v2_chain_id = profile_id local_testnet, v2_genesis_hash = replicate 32 0\<rparr>"
  by (simp add: transaction_v2_domain_def flat_ledger_def ledger_genesis_hash_def flat_genesis_def decode_hex_array_def
     v2_domain_new_def local_testnet_def MAX_CHAIN_ID_BYTES_def is_ascii_def)

definition flat_lineage :: LineageState where
  "flat_lineage = \<lparr>ls_utxos = bt_insert (OutPoint flat_signature 0) \<lparr>out_address = flat_key, out_amount = 89\<rparr> bt_empty,
     ls_lineage = bt_empty, ls_values = bt_empty, ls_owners = bt_empty\<rparr>"

lemma flat_verifies: "verify_signature flat_crypto flat_burn domain_legacy = Inr ()"
  by (simp add: flat_burn_def verify_spend_signature_def first_owner_def inputs_are_genesis_signed_def domain_legacy_def
     decode_hex_array_def PUBLIC_KEY_BYTES_def SIGNATURE_BYTES_def verify_ed25519_def flat_crypto_def)

lemma bt_empty_entries [simp]: "bt_entries bt_empty = []" "bt_entries (bt_insert k v bt_empty) = [(k, v)]"
  by (simp_all add: bt_empty.rep_eq bt_insert.rep_eq)

lemma single_map [simp]:
  "bt_remove k (bt_insert k v bt_empty) = bt_empty" "bt_values bt_empty = []" "bt_values (bt_insert k v bt_empty) = [v]"
  "\<not> bt_contains_key bt_empty k"
  by (simp_all add: bt_remove_insert bt_values_def bt_contains_key_def)

definition flat_spent :: LineageState where
  "flat_spent = \<lparr>ls_utxos = bt_empty, ls_lineage = bt_empty, ls_values = bt_empty, ls_owners = bt_empty\<rparr>"

lemma flat_spends: "spend_inputs_with_lineage flat_burn (lineage flat_ledger) = Inr (100, None, flat_spent)"
  by (simp add: spend_inputs_with_lineage_def spend_lineage_step_def flat_burn_def flat_ledger_def flat_spent_def
      remove_spent_output_lineage_def checked_add_def)

lemma flat_required: "required_total flat_burn = Inr 100"
  by (simp add: required_total_def outputs_total_def checked_add_def flat_burn_def)

lemma flat_room: "ensure_outputs_do_not_overflow bt_empty [\<lparr>out_address = flat_key, out_amount = 89\<rparr>] = Inr ()"
  by (simp add: ensure_outputs_do_not_overflow_def credit_balance_def checked_add_def)

lemma flat_inserts: "insert_outputs_with_lineage (output_entries flat_burn) None flat_spent = Inr flat_lineage"
  by (simp add: insert_outputs_with_lineage_def output_entries_def flat_burn_def insert_output_with_lineage_def
      flat_spent_def flat_lineage_def)

lemma flat_burn_applies:
  "apply_transaction_with_lineage flat_crypto flat_burn 1 (lineage flat_ledger) (Some domain_legacy) = Inr flat_lineage"
proof -
  have parts: "\<not> is_mine flat_burn" "outputs flat_burn = [\<lparr>out_address = flat_key, out_amount = 89\<rparr>]"
    "ensure_single_input_owner flat_burn = Inr ()" "ls_utxos flat_spent = bt_empty"
    by (simp_all add: flat_burn_def ensure_single_input_owner_def ensure_single_input_owner_for_inputs_def flat_spent_def)
  show ?thesis
    by (simp add: apply_transaction_with_lineage_def apply_spend_with_lineage_def flat_verifies parts flat_spends
        flat_required flat_room flat_inserts)
qed

lemma flat_anchor: "validate_transaction_anchor_for_block flat_ledger flat_burn 1 = Inr ()"
  by (simp add: validate_transaction_anchor_for_block_def flat_burn_def TIP_BOUND_BURN_ACTIVATION_HEIGHT_def)

lemma flat_tip [simp]: "tip flat_ledger = flat_genesis" "chain flat_ledger = [flat_genesis]"
  by (simp_all add: tip_def flat_ledger_def)

lemma flat_genesis_fields [simp]:
  "height flat_genesis = 0" "block_hash flat_genesis = flat_id" "timestamp_ms flat_genesis = 0"
  by (simp_all add: flat_genesis_def)

lemma flat_block_fields [simp]:
  "transactions flat_block = [flat_burn]" "transactions_v2 flat_block = []" "height flat_block = 1"
  "finalizer_mode flat_block = RecoveryMode" "prev_hash flat_block = flat_id" "block_hash flat_block = flat_id"
  "reward flat_block = 1" "vdf_rounds flat_block = 5" "reward_address flat_block = None"
  "reward_address_signature flat_block = None" "timestamp_ms flat_block = 86400000" "miner flat_block = flat_key"
  "finalizer_rank flat_block = 0" "leader_proof flat_block = None" "burn_bundle_section flat_block = section_default"
  by (simp_all add: flat_block_def)

lemma flat_burn_fields [simp]:
  "fee flat_burn = 1" "is_burn flat_burn" "\<not> is_mine flat_burn" "tx_signature flat_burn = flat_signature"
  "mine_anchor flat_burn = None" "sender flat_burn = flat_key"
  by (simp_all add: flat_burn_def first_owner_def)

lemma flat_timestamp: "check_block_timestamp flat_ledger flat_block 86400000 = Inr ()"
  by (simp add: check_block_timestamp_def median_time_past_def saturating_add_def checked_add_def BLOCK_MEDIAN_TIME_PAST_WINDOW_def
     MAX_BLOCK_TIMESTAMP_FUTURE_DRIFT_MS_def)

lemma flat_reward: "expected_reward_for_block flat_ledger flat_block = Inr 1"
  by (simp add: expected_reward_for_block_def transaction_v2_fees_def total_block_reward_def
      fee_reward_def checked_add_def flat_domain)

lemma flat_committee:
  "burn_committee_for_block flat_crypto flat_ledger flat_block =
     [\<lparr>cm_slot = 0, cm_root = flat_id, cm_owner = flat_key, cm_weight = 0\<rparr>]"
  by (simp add: burn_committee_for_block_def)

lemma flat_replays: "ensure_block_transactions_are_not_replays flat_crypto flat_ledger flat_block = Inr ()"
  by (simp add: ensure_block_transactions_are_not_replays_def TRANSACTION_REPLAY_PROTECTION_ACTIVATION_HEIGHT_def)

lemma flat_policy: "validate_block_fee_policy flat_block = Inr ()" "ensure_mine_anchor_limit 1 [flat_burn] = Inr ()"
  "ensure_block_has_burn [flat_burn] [] = Inr ()"
  by (simp_all add: validate_block_fee_policy_def ensure_mine_anchor_limit_def anchor_limit_step_def ensure_block_has_burn_def)

lemma flat_recovery: "ensure_valid_recovery_block flat_crypto flat_block flat_genesis = Inr ()"
  by (simp add: ensure_valid_recovery_block_def saturating_add_def checked_add_def RECOVERY_BLOCK_DELAY_MS_def
     VDF_TARGET_BLOCK_MS_def Let_def
     ensure_block_has_burn_from_def)

lemma flat_rounds: "expected_vdf_rounds_for_block flat_ledger flat_block = Inr 5"
  by (simp add: expected_vdf_rounds_for_block_def vdf_rounds_for_finalizer_rank_def flat_ledger_def
     checked_add_def checked_mul_def MAX_VDF_ROUNDS_def)

lemma flat_section: "validate_burn_bundle_section_for_block flat_host flat_ledger flat_block = Inr ()"
  by (simp add: validate_burn_bundle_section_for_block_def section_default_def slots_rise_def required_explicit_burn_signatures_def
     flat_host_def flat_domain section_expand_def BURN_COMMITTEE_SIZE_def Let_def)

lemma flat_tickets: "is_ok (block_ticket_effects flat_crypto flat_ledger flat_block)"
  by (simp add: block_ticket_effects_def apply_finalizer_ticket_effects_def tickets_created_by_block_def
      tickets_created_by_transactions_def ticket_window_def flat_block_def flat_burn_def flat_ledger_def
      local_testnet_def profile_default_def DEFAULT_TICKET_EXPIRY_WINDOW_def DEFAULT_TICKET_MATURITY_DELAY_def
      ticket_is_eligible_for_height_def flat_ticket_def is_ok_def Let_def checked_add_def)
lemma flat_overflow:
  "\<exists>m. credit_reward_outputs (ls_utxos flat_lineage) flat_block
     [\<lparr>cm_slot = 0, cm_root = flat_id, cm_owner = flat_key, cm_weight = 0\<rparr>] = Inr m"
  by (simp add: credit_reward_outputs_def reward_outputs_for_block_def reward_committee_members_def flat_lineage_def
     ensure_outputs_do_not_overflow_def credit_balance_def checked_add_def Let_def reward_committee_slots_def
     saturating_sub_def)

lemma flat_step:
   "block_transaction_step flat_crypto flat_ledger flat_block ({}, lineage flat_ledger) flat_burn = Inr ({tx_signature flat_burn}, flat_lineage)"
proof -
  have "transaction_signing_domain_at flat_ledger 1 = domain_legacy"
    by (simp add: transaction_signing_domain_at_def domain_for_height_def TRANSACTION_SIGNING_V1_ACTIVATION_HEIGHT_def
        word_le_nat_alt)
  then show ?thesis
    using flat_terms flat_anchor flat_burn_applies by (simp add: block_transaction_step_def flat_block_def)
qed

lemma flat_transition: "is_ok (block_transition flat_crypto flat_ledger flat_block)"
proof -
  have obs: "record_vdf_retarget_observation lg flat_block = Inr lg" if "chain lg = [flat_genesis]" for lg
    using that by (simp add: record_vdf_retarget_observation_def tip_def flat_genesis_def)
  obtain ts where ts: "block_ticket_effects flat_crypto flat_ledger flat_block = Inr ts"
    using flat_tickets by (auto simp: is_ok_def split: sum.splits)
  obtain m where m: "credit_reward_outputs (ls_utxos flat_lineage) flat_block
      [\<lparr>cm_slot = 0, cm_root = flat_id, cm_owner = flat_key, cm_weight = 0\<rparr>] = Inr m"
    using flat_overflow by blast
  obtain ctx where ctx: "append_block flat_block (compact_block_context flat_ledger) = Inr ctx"
    using flat_append by blast
  have chain: "chain flat_ledger = [flat_genesis]" by (simp add: flat_ledger_def)
  show ?thesis
    by (simp add: block_transition_def flat_step flat_domain flat_reward ts m ctx start_progress_def
        commit_block_def flat_committee obs chain is_ok_def Let_def split: option.splits)
qed

definition flat_after :: Ledger where
  "flat_after = projr (block_transition flat_crypto flat_ledger flat_block)"

lemma flat_block_transition: "block_transition flat_crypto flat_ledger flat_block = Inr flat_after"
  unfolding flat_after_def by (rule is_okD [OF flat_transition])

lemma flat_host_fields [simp]: "h_crypto flat_host = flat_crypto" "h_classgroup flat_host = flat_classgroup"
  by (simp_all add: flat_host_def)

lemma flat_content: "check_block_content flat_host flat_ledger flat_block = Inr ()"
proof -
  obtain n where n: "consensus_block_size_bytes flat_ledger flat_block = Inr n" "n \<le> 1000"
    using flat_size by blast
  have profile: "max_block_bytes (launch_profile flat_ledger) = 1000000" "max_block_transactions (launch_profile flat_ledger) = 1000"
    by (simp_all add: flat_ledger_def local_testnet_def profile_default_def MAX_BLOCK_BYTES_def MAX_BLOCK_TRANSACTIONS_def)
  show ?thesis
    using n(2) by (simp add: check_block_content_def check_block_finalizer_def n(1) profile flat_policy flat_section
        flat_recovery)
qed

lemma flat_precheck: "precheck_block_without_vdf_at flat_host flat_ledger flat_block 86400000 = Inr True"
proof -
  have "validate_reward_address flat_crypto flat_ledger 1 None ''finalizer'' = Inr ()"
    "check_reward_address_signature flat_crypto flat_block = Inr ()"
    by (simp_all add: validate_reward_address_def check_reward_address_signature_def HYBRID_REWARD_ACTIVATION_HEIGHT_def)
  then show ?thesis
    by (simp add: precheck_block_without_vdf_at_def precheck_new_block_def flat_replays flat_reward flat_rounds
        flat_timestamp flat_content compute_hash_def)
qed

lemma no_orphans_promotion:
  assumes "pending lg = []" "orphans lg = []"
  shows "promote_orphan_transactions hs lg = (Inr (), lg)"
  using assms by (subst promote_orphan_transactions.simps)
    (simp add: utxos_after_valid_pending_def valid_pending_transactions_def pending_rounds.simps)

lemma empty_pools_repair:
  assumes "pending lg = []" "orphans lg = []" "ledger_height lg = 1"
  shows "\<exists>lg'. repair_pools hs lg b = (Inr (), lg')"
proof -
  have inactive: "ensure_transaction_v2_active (saturating_add 1 1) = bail ''transaction v2 is recognized but not consensus-active''"
    by code_simp
  show ?thesis
    using assms
    by (simp add: inactive repair_pools_def filter_pools_def refresh_pending_pool_byte_counters_def serialized_pool_len_def
        Let_def no_orphans_promotion revalidate_pending_v2_def revalidate_pending_v2_at_height_def is_ok_def bail_def
        next_vdf_rounds_after_tip_def ledger_height_def tip_def)
qed

lemma flat_vdf: "verify_vdf flat_classgroup seed 5 (vdf_output flat_block)"
  by (simp add: verify_vdf_def decode_vdf_solution_def flat_block_def wesolowski_verify_def SOLUTION_BYTES_def
      FORM_BYTES_def flat_classgroup_def canonical_form_def)

lemma flat_accepted: "\<exists>lg. apply_block_at flat_host flat_ledger flat_block 86400000 = (Inr (), lg)"
proof -
  have "pending flat_after = []" "orphans flat_after = []" "ledger_height flat_after = 1"
    using transition_keeps_pools [OF flat_block_transition] block_extends_chain [OF flat_block_transition]
    by (simp_all add: flat_ledger_def ledger_height_def tip_def)
  from empty_pools_repair [OF this] obtain lg where "repair_pools flat_host flat_after flat_block = (Inr (), lg)" by blast
  then show ?thesis
    using flat_block_transition
    by (simp add: apply_block_at_def apply_block_with_vdf_policy_def flat_precheck flat_vdf)
qed

section \<open>The node around the block\<close>

lemma flat_genesis_built: "build_genesis_block flat_crypto flat_allocations [] = flat_genesis"
  by (simp add: build_genesis_block_def flat_genesis_def genesis_miner_def genesis_reward_def flat_allocations_def
      bt_is_empty_def bt_keys_def compute_hash_def flat_id_def HEX_def eval_nat_numeral Let_def)

lemma flat_id_text [simp]:
  "length flat_id = 64" "flat_id \<noteq> []" "list_all is_ascii_hexdigit flat_id" "\<not> starts_with flat_id VDF_SOLUTION_PREFIX"
  by (simp_all add: flat_id_def is_ascii_hexdigit_def HEX_def eval_nat_numeral starts_with_def VDF_SOLUTION_PREFIX_def)

lemma flat_context: "context_for_chain flat_allocations [flat_genesis] = Inr (compact_block_context flat_ledger)"
  by (simp add: context_for_chain_def append_block_def encode_block_body_for_version_def flat_block_writers
      flat_genesis_def flat_writers flat_ledger_def COMPACT_SNAPSHOT_VERSION_def context_default_def tables_default_def
      flat_allocations_def bt_keys_def register_address_def register_protocol_id_def entry_or_insert_def kind_bytes_def
      flat_breakdown_def Let_def numeral_3_eq_3)

definition flat_snapshot :: ChainSnapshot where
  "flat_snapshot = \<lparr>snap_genesis_allocations = flat_allocations, snap_vdf_rounds = 5,
     snap_launch_profile = local_testnet, snap_blocks = [flat_genesis, flat_block]\<rparr>"

lemma flat_genesis_utxos:
  "utxos_after_genesis flat_crypto flat_allocations flat_genesis = Inr (ledger_utxos flat_ledger)"
  by (simp add: utxos_after_genesis_def flat_genesis_def genesis_allocation_utxos_def flat_allocations_def
      genesis_allocation_outpoint_def bt_of_list_def credit_reward_output_def credit_reward_outputs_def flat_ledger_def
      reward_outputs_for_block_def ensure_outputs_do_not_overflow_def credit_balance_def checked_add_def Let_def)

lemma flat_genesis_tickets: "genesis_tickets flat_crypto flat_allocations flat_genesis local_testnet = Inr (tickets flat_ledger)"
  by (simp add: genesis_tickets_def flat_genesis_def local_testnet_def profile_default_def flat_allocations_def
      genesis_bootstrap_tickets_def DEFAULT_TICKET_MATURITY_DELAY_def flat_ledger_def flat_ticket_def upt_rec)


lemma flat_after_fields: "chain flat_after = [flat_genesis, flat_block]" "ls_lineage (lineage flat_after) = bt_empty"
  "launch_profile flat_after = local_testnet"
proof -
  show "chain flat_after = [flat_genesis, flat_block]"
    using block_extends_chain [OF flat_block_transition] by simp
  show "ls_lineage (lineage flat_after) = bt_empty" "launch_profile flat_after = local_testnet"
    using flat_block_transition
  proof (atomize (full), elim block_transitionE)
    fix signatures ls d p ts m ctx
    assume loops: "try_fold (block_transaction_step flat_crypto flat_ledger flat_block) ({}, lineage flat_ledger)
        (transactions flat_block) = Inr (signatures, ls)"
      "try_fold (block_envelope_step flat_crypto flat_ledger flat_block d) (start_progress flat_crypto flat_ledger flat_block ls)
        (transactions_v2 flat_block) = Inr p"
      and commit: "commit_block flat_crypto flat_ledger flat_block p ts m ctx = Inr flat_after"
    have "ls = flat_lineage" using loops(1) by (simp add: flat_step)
    then have "v2p_lineage p = flat_lineage" using loops(2) by (auto simp: start_progress_def)
    then show "ls_lineage (lineage flat_after) = bt_empty \<and> launch_profile flat_after = local_testnet"
      using commit_block_spec(2,4) [OF commit] by (simp add: flat_lineage_def flat_ledger_def)
  qed
qed

lemma flat_restored:
  "\<exists>lg. from_snapshot_with_vdf_policy flat_host flat_snapshot True 86400000 = Inr lg"
proof -
  let ?ctx = "compact_block_context flat_ledger"
  have valid: "validate_genesis_allocations flat_allocations = Inr ()"
    by (simp add: validate_genesis_allocations_def flat_allocations_def bt_keys_def)
  have genesis: "validate_genesis_block flat_crypto flat_genesis = Inr ()"
    using built_genesis_valid [OF valid, of flat_crypto "[]"] by (simp add: flat_genesis_built)
  have txs: "transactions flat_genesis = []" "transactions_v2 flat_genesis = []" "reward_address flat_genesis = None"
    by (simp_all add: flat_genesis_def)
  let ?lg0 = "genesis_ledger flat_allocations flat_genesis (ledger_utxos flat_ledger) [] 5 local_testnet ?ctx"
  have index: "index_unapplied_block_addresses flat_crypto ?lg0 flat_genesis = Inr ?lg0"
    by (simp add: index_unapplied_block_addresses_def txs commit_block_address_effects_def for_block_outputs_def
        effects_default_def genesis_ledger_def)
  have start: "?lg0\<lparr>tickets := tickets flat_ledger, ticket_draw_horizon := 1\<rparr> = flat_ledger"
    by (simp add: genesis_ledger_def flat_ledger_def txs local_testnet_def profile_default_def MINE_DIFFICULTY_BITS_def)
  have tip0: "tip ?lg0 = flat_genesis" by (simp add: genesis_ledger_def tip_def)
  obtain lg where "apply_block_at flat_host flat_ledger flat_block 86400000 = (Inr (), lg)"
    using flat_accepted by blast
  then show ?thesis
    using start
    by (simp add: from_snapshot_with_vdf_policy_def from_snapshot_with_revalidation_policy_def flat_snapshot_def valid
        genesis flat_genesis_built txs flat_genesis_utxos flat_context index tip0 flat_genesis_tickets restore_block_def
        at_least_def result_state_def)
qed

lemma flat_node_inv: "node_inv flat_host flat_ledger flat_ledger"
proof -
  have "pool_inv flat_host flat_ledger"
    by (rule empty_pools_inv) (simp_all add: flat_ledger_def)
  then show ?thesis
    by (simp add: node_inv_def chain_linked_def minted_by_def)
qed

lemma flat_json_total: "json_total flat_host"
  by (simp add: json_total_def flat_host_def is_ok_def)

section \<open>An eviction and a version 2 spend\<close>

definition heavy_host :: host where
  "heavy_host = flat_host\<lparr>h_transaction_json_len := (\<lambda>tx. Inr (if fee tx = 1 then MAX_PENDING_POOL_BYTES else 10))\<rparr>"

definition cheap_transfer :: Transaction where "cheap_transfer = Transfer [] [] 1 ''a''"
definition rich_transfer :: Transaction where "rich_transfer = Transfer [] [] 9 ''b''"

lemma cheap_sizes: "canonical_transaction_size_bytes cheap_transfer = 68" "canonical_transaction_size_bytes rich_transfer = 68"
  by (simp_all add: cheap_transfer_def rich_transfer_def compact_len_def signature_size_bytes_def compact_inputs_size_bytes_def compact_outputs_size_bytes_def SIGNATURE_BYTES_def compact_len_loop.simps word_le_nat_alt)

lemma cheap_package: "make_package heavy_host [cheap_transfer] [0] = Inr \<lparr>ep_signatures = {''a''}, ep_fee = 1,
    ep_economic_bytes = 68, ep_pending_bytes = MAX_PENDING_POOL_BYTES, ep_pending_count = 1, ep_tie_break = ''a''\<rparr>"
  by (simp add: make_package_def pending_pool_item_bytes_def heavy_host_def usize_checked_add_def MAX_PENDING_POOL_BYTES_def cheap_sizes with_context_def)
    (simp add: cheap_transfer_def)

lemma cheap_components: "pending_components [cheap_transfer] = [[0]]"
  by code_simp

lemma rich_parents: "parent_indices i rich_transfer = []"
  by (simp add: parent_indices_def rich_transfer_def map_filter_def)

lemma evicts_cheap: "pending_eviction_plan heavy_host [cheap_transfer] [] rich_transfer 10 = Inr {''a''}"
proof -
  have "serialized_pool_len heavy_host [cheap_transfer] = Inr MAX_PENDING_POOL_BYTES"
    by (simp add: serialized_pool_len_def pending_pool_item_bytes_def heavy_host_def usize_checked_add_def MAX_PENDING_POOL_BYTES_def cheap_transfer_def with_context_def)
  moreover have "fee rich_transfer = 9" by (simp add: rich_transfer_def)
  ultimately show ?thesis
    by (simp add: pending_eviction_plan_def cheap_components rich_parents cheap_package cheap_sizes sort_packages_def room_for_def usize_checked_add_def MAX_PENDING_POOL_BYTES_def MAX_PENDING_TRANSACTIONS_def saturating_mul_def extend_with_orphan_descendants.simps)
qed

definition ex_v2_utxos :: utxos where
  "ex_v2_utxos = bt_insert (OutPoint (hex_encode (replicate 32 3)) 0)
     \<lparr>out_address = hex_encode ex_key, out_amount = 6\<rparr> bt_empty"
lemma ex_converts: "is_ok (convert_bits (replicate 32 9) 8 5 True)"
  using convert_bits_bytes by (auto simp: is_ok_iff)

lemma ex_v2_applies:
  "\<exists>m. apply_transaction_v2_to_utxos_with_policy toy_crypto ex_migration ex_domain Mainnet True ex_v2_utxos = Inr m"
proof -
  have owner: "internal_address toy_crypto ex_owner network = Inr (hex_encode ex_key)" for network
    by (simp add: internal_address_def ex_owner_def)
  have spend: "spend_transaction_v2_inputs toy_crypto ex_migration Mainnet ex_v2_utxos = Inr (6, bt_empty)"
    by (simp add: ex_migration_def spend_legacy_inputs_def v2_spend_step_def owner
        legacy_input_outpoint_def ex_v2_utxos_def checked_add_def)
  obtain conv where conv: "convert_bits (replicate 32 9) 8 5 True = Inr conv"
    using ex_converts by (auto simp: is_ok_def split: sum.splits)
  have outs: "v2_outputs ex_migration = [\<lparr>v2out_address =
      \<lparr>addr_version = HybridKeyCommitment, addr_payload = replicate 32 9\<rparr>, v2out_amount = 5\<rparr>]"
    "v2_fee ex_migration = 1" "v2_burned ex_migration = 0"
    by (simp_all add: ex_migration_def)
  obtain txid where txid: "transaction_id toy_crypto ex_migration ex_domain = Inr txid"
    using ex_migration_encodes(1) by (simp add: transaction_id_def)
  show ?thesis
    by (simp add: apply_transaction_v2_to_utxos_with_policy_def spend outs sum_outputs_def checked_add_def
        ex_migration_verifies txid insert_v2_output_def internal_address_def encode_versioned_address_def conv Let_def)
qed

section \<open>A fork\<close>

lemma flat_switches:
  "choose_fork flat_crypto flat_ledger flat_after \<lparr>common_ancestor_height = 0\<rparr> = SwitchToCandidate"
  by (simp add: choose_fork_def ledger_height_def tip_def flat_after_fields first_diverging_height_def
      OBJECTIVE_FINALITY_ACTIVATION_HEIGHT_def fork_rewrites_finalized_history_def saturating_sub_def)

section \<open>Outputs without value\<close>

text \<open>
  Two unspent outputs of one root, the second without value, and a transaction that spends both.
\<close>

definition ex_zero_lineage :: LineageState where
  "ex_zero_lineage = \<lparr>
     ls_utxos = bt_insert (OutPoint ''aa'' 1) \<lparr>out_address = ''bob'', out_amount = 0\<rparr> ex_utxos,
     ls_lineage = bt_insert (OutPoint ''aa'' 1) ex_root (bt_insert (OutPoint ''aa'' 0) ex_root bt_empty),
     ls_values = bt_insert ex_root 9 bt_empty,
     ls_owners = bt_insert ex_root (bt_insert ''bob'' (bt_insert (OutPoint ''aa'' 1) 0
       (bt_insert (OutPoint ''aa'' 0) 9 bt_empty)) bt_empty) bt_empty\<rparr>"

definition ex_zero_burn :: Transaction where
  "ex_zero_burn = Burn
     [\<lparr>in_outpoint = OutPoint ''aa'' 0, in_owner = ''bob'', in_signature = ''genesis''\<rparr>,
      \<lparr>in_outpoint = OutPoint ''aa'' 1, in_owner = ''bob'', in_signature = ''genesis''\<rparr>]
     [\<lparr>out_address = ''bob'', out_amount = 4\<rparr>] 5 0 None ''s''"

lemma ex_zero_applies: "is_ok (apply_transaction toy_crypto ex_zero_burn (ls_utxos ex_zero_lineage) domain_legacy)"
  by code_simp

lemma ex_zero_rejected:
  "apply_transaction_with_lineage toy_crypto ex_zero_burn 7 ex_zero_lineage (Some domain_legacy) =
     bail ''lineage index is missing spent root''"
  by code_simp

lemma ex_zero_inv: "lineage_inv ex_zero_lineage"
  by (auto simp: lineage_inv_def lineage_inv_on_def ex_zero_lineage_def ex_utxos_def root_value_def
      indexed_value_def owner_entry_def amount_at_def bt_sum_insert_None split: if_splits option.splits)

end
