(* ===== verification/Component_Results.thy ===== *)
theory Component_Results
  imports Chain_Examples
begin

text \<open>
  Results on single components that the blocks and nodes build on, with an application to the
  concrete inputs of \<open>Examples\<close> after each result that has a hypothesis.
\<close>

text \<open>
  No transaction creates value. Applying a legacy transaction never increases the total of
  the unspent outputs beyond what it mints: a transfer or burn leaves at most what was there
  minus its fee and the amount it burns, a mine transaction adds at most the mining reward.
\<close>

lemma apply_transaction_no_inflation:
  assumes "apply_transaction cr tx m d = Inr m'"
  shows "utxo_total m' + (if is_mine tx then 0 else unat (fee tx) + unat (burned_amount tx))
    \<le> utxo_total m + (if is_mine tx then unat MINE_REWARD else 0)"
proof -
  have ok: "apply_spend tx m = Inr m'"
    using assms by (auto simp: apply_transaction_def and_then_eq_Inr)
  show ?thesis
    using apply_spend_conserves [OF ok] apply_spend_mine(1) [OF ok] by auto
qed

lemma apply_transaction_no_inflation_witness:
  "utxo_total ex_after_burn + 5 \<le> utxo_total ex_utxos"
  using apply_transaction_no_inflation [OF ex_burn_applies] by (simp add: ex_genesis_burn_def)

text \<open>
  Every transaction keeps the lineage index exact: each indexed output is unspent, the value
  recorded for a root is the sum of its unspent outputs, and the owner table holds precisely the
  indexed outputs under their root, owner and amount.
\<close>

lemma lineage_invariant_preserved:
  assumes "apply_transaction_with_lineage cr tx h st d = Inr st'" and "lineage_inv st"
  shows "lineage_inv st'"
  using assms apply_with_lineage_inv
  by (auto simp: apply_transaction_with_lineage_def and_then_eq_Inr)

lemma ex_lineage_inv: "lineage_inv ex_lineage"
  by (auto simp: lineage_inv_def lineage_inv_on_def ex_lineage_def ex_utxos_def root_value_def
      indexed_value_def owner_entry_def amount_at_def bt_sum_insert_None split: if_splits option.splits)

lemma lineage_invariant_preserved_witness: "lineage_inv ex_lineage_after"
  by (rule lineage_invariant_preserved [OF ex_lineage_applies ex_lineage_inv])

text \<open>
  The outputs of a transaction are accepted exactly when no address would end up with a
  balance of 2 to the 64 or more.
\<close>

lemma output_overflow_check_exact:
  "ensure_outputs_do_not_overflow m outs = Inr () \<longleftrightarrow> (\<forall>a. addr_total (bt_values m @ outs) a < 2 ^ 64)"
  by (rule ensure_outputs_iff)

text \<open>
  Whoever owns an input has signed. When the authorizations of a version 2 transaction
  verify, every owner of an input has an authorization of the scheme its address version demands,
  whose key belongs to the address and whose signatures verify on the signing bytes.
\<close>

lemma v2_inputs_are_authorized:
  assumes "verify_authorizations cr tx d = Inr ()" and "\<not> v2_is_mine tx"
    and "owner \<in> set (all_input_owners tx)"
  shows "\<exists>a\<in>set (authorizations tx). \<exists>payload.
    authorized_address cr a = Inr owner \<and> v2_signing_bytes tx d = Inr payload \<and>
    signature_holds cr payload a \<and> expected_authorization tx = Some (addr_version owner, auth_scheme a)"
  using assms by (rule verified_owner_signed)

lemma v2_inputs_are_authorized_witness:
  "\<exists>a\<in>set (authorizations ex_migration). authorized_address toy_crypto a = Inr ex_owner"
  using v2_inputs_are_authorized [OF ex_migration_verifies ex_migration_owner(2,1)] by blast

text \<open>
  The fee estimate is exact: for a transaction whose authorizations all use one scheme, the
  size of the encoding is the size of the signing bytes, the count and the fixed size of each
  authorization of that scheme.
\<close>

lemma v2_encoded_size_exact:
  assumes "v2_encode tx d = Inr bs" and "v2_wf tx"
    and "\<forall>a\<in>set (authorizations tx). auth_scheme a = scheme" and "length bs < 2 ^ 64"
  shows "encoded_size_bytes_with_authorizations tx d scheme (length (authorizations tx)) = Inr (length bs)"
proof -
  obtain u where "v2_signing_bytes tx d = Inr u"
    using assms(1) by (auto simp: v2_encode_def and_then_eq_Inr)
  then show ?thesis
    using encoded_size_agrees [OF assms(1-3)] assms(4)
    by (simp add: encoded_size_bytes_with_authorizations_def Let_def)
qed

lemma v2_encoded_size_exact_witness:
  "encoded_size_bytes_with_authorizations ex_migration ex_domain Ed25519 1 = Inr (length ex_envelope)"
  using v2_encoded_size_exact [OF ex_migration_encodes(1) ex_migration_wf(1) _ ex_migration_encodes(2)]
  by (simp add: ex_migration_def ex_auth_def auth_scheme_def)

text \<open>
  The two halves a stratum miner varies and the nonce of the proof are in bijection.
\<close>

lemma stratum_nonce_bijection:
  assumes "length extranonce2 = 4" and "length header_nonce = 4"
  shows "unpack_stratum_nonce (pack_stratum_nonce extranonce2 header_nonce) = (extranonce2, header_nonce) \<and>
    (case unpack_stratum_nonce n of (e, h) \<Rightarrow> pack_stratum_nonce e h) = n"
  using unpack_pack_nonce [OF assms] pack_unpack_nonce by simp

lemma stratum_nonce_bijection_witness:
  "unpack_stratum_nonce (pack_stratum_nonce [1, 2, 3, 4] [5, 6, 7, 8]) = ([1, 2, 3, 4], [5, 6, 7, 8])"
  using stratum_nonce_bijection [of "[1, 2, 3, 4]" "[5, 6, 7, 8]"] by simp

text \<open>
  The tagged key and signature format is canonical: a byte string decodes to a scheme and a
  payload exactly when it is their encoding and the payload fits the length field.
\<close>

lemma signature_material_canonical:
  "decode_material bs = Inr (s, payload) \<longleftrightarrow> bs = encode_material s payload \<and> length payload < 2 ^ 32"
  using decode_encode_material encode_decode_material decode_material_length by blast

text \<open>
  The size model charges each compact integer the least number of seven-bit groups that
  holds it, and at least one.
\<close>

lemma compact_length_minimal:
  "1 \<le> compact_len v \<and> unat v < 128 ^ compact_len v \<and>
    (compact_len v = 1 \<or> 128 ^ (compact_len v - 1) \<le> unat v)"
  using compact_len_pos [of v] compact_len_upper [of v] compact_len_lower [of v] by linarith

text \<open>
  The fee floor for a transfer is sound: no transfer with an output has a smaller economic
  size than the minimum computed from its number of inputs.
\<close>

lemma transfer_size_floor:
  assumes "outs \<noteq> []"
  shows "minimum_transfer_economic_size_bytes (length ins) \<le>
    canonical_transaction_size_bytes (Transfer ins outs f sig)"
  using assms by (rule transfer_size_lower)

lemma transfer_size_floor_witness:
  "minimum_transfer_economic_size_bytes 0 \<le>
    canonical_transaction_size_bytes (Transfer [] [\<lparr>out_address = ''bob'', out_amount = 1\<rparr>] 1 ''s'')"
  using transfer_size_floor [of "[\<lparr>out_address = ''bob'', out_amount = 1\<rparr>]" "[]" 1 "''s''"] by simp

text \<open>
  Two quorums of a committee share more than a third of it, so that two conflicting certificates
  expose at least that many members who signed both.
\<close>

lemma quorums_intersect:
  assumes "finite C" and "C \<noteq> {}" and "A \<subseteq> C" and "B \<subseteq> C"
    and "objective_finality_quorum (card C) \<le> card A" and "objective_finality_quorum (card C) \<le> card B"
  shows "card C < 3 * card (A \<inter> B)"
  using assms by (intro quorum_overlap)

lemma quorums_intersect_witness:
  "card {0 :: nat, 1, 2, 3, 4} < 3 * card ({0 :: nat, 1, 2, 3} \<inter> {1, 2, 3, 4})"
  by (rule quorums_intersect) (auto simp: objective_finality_quorum_def)

text \<open>
  A hash meets a difficulty of d bits exactly when, read as a big-endian number, it is below
  2 to the power of its length in bits minus d.
\<close>

lemma difficulty_is_a_target:
  assumes "unat d \<le> 8 * length bs"
  shows "hash_meets_difficulty (hex_encode bs) d \<longleftrightarrow> from_be_bytes bs < 2 ^ (8 * length bs - unat d)"
  using assms by (rule hash_meets_difficulty_target)

lemma difficulty_is_a_target_witness:
  "hash_meets_difficulty (hex_encode [0, 9]) 10 = (from_be_bytes [0, 9] < 2 ^ 6)"
  using difficulty_is_a_target [of 10 "[0, 9]"] by simp

text \<open>
  A proof of work is never a signature payload: although anchored burns and mine proofs
  share their type tag, no byte string is the preimage of both.
\<close>

lemma burn_and_mine_preimages_disjoint:
  "\<not> (unsigned_signing_bytes (UBurn ins change a f anchor) d = Inr bs \<and>
       mine_signing_bytes cr e recipient anc salt nonce bits = Inr bs)"
  using mine_burn_preimages_differ by blast

text \<open>
  A committee member's bundle, rebuilt from the compact section of a block, contains a burn
  exactly when the burn's mask has the bit of the member's slot.
\<close>

lemma bundle_expansion_exact:
  assumes "sig \<in> set (sec_signatures s)" and "unat (bs_slot sig) < BURN_COMMITTEE_SIZE"
    and "bundle \<in> set (section_expand s h p)" and "bb_slot bundle = bs_slot sig"
  shows "tx \<in> set (bb_burns bundle) \<longleftrightarrow>
    (\<exists>m\<in>set (sec_burns s). mb_burn m = tx \<and> bit (mb_mask m) (unat (bs_slot sig)))"
  using assms by (rule expand_burn_iff)

lemma bundle_expansion_exact_witness: "ex_genesis_burn \<in> set (bb_burns ex_bundle)"
  using bundle_expansion_exact [of ex_bundle_signature ex_section ex_bundle 5 "''p''" ex_genesis_burn]
  by (simp add: ex_bundle_def ex_section_def section_expand_def ex_bundle_signature_def
      BURN_COMMITTEE_SIZE_def Let_def bit_simps)

text \<open>
  The proof-of-work difficulty moves by at most two bits per window, up or down, and never
  below its minimum.
\<close>

lemma mine_difficulty_moves_slowly:
  assumes "MINE_MIN_DIFFICULTY_BITS \<le> current"
  shows "unat (retarget_mine_difficulty_bits current n) \<le> unat current + 2 \<and>
    unat current \<le> unat (retarget_mine_difficulty_bits current n) + 2 \<and>
    MINE_MIN_DIFFICULTY_BITS \<le> retarget_mine_difficulty_bits current n"
  using retarget_bounded [OF assms] retarget_at_least_minimum by blast

lemma mine_difficulty_moves_slowly_witness:
  "unat (retarget_mine_difficulty_bits 12 100) \<le> 14"
  using mine_difficulty_moves_slowly [of 12 100] by (simp add: MINE_MIN_DIFFICULTY_BITS_def)

text \<open>
  The nonce search reports what it did: it makes at most the allowed attempts, every nonce
  before the last failed the target, the nonce to continue with follows the last one tried
  (wrapping at 2 to the 64), and a transaction is returned exactly when the last nonce met it.
\<close>

lemma search_reports_first_hit:
  assumes "search cr w = Inr out"
  shows "\<exists>k. search_outcome cr w 0 (work_start_nonce w) k out"
  using assms by (rule search_spec)

lemma search_reports_first_hit_witness:
  "\<exists>k. search_outcome toy_crypto ex_work 0 5 k ex_search"
  using search_reports_first_hit [OF ex_search_finds] by (simp add: ex_work_def)

text \<open>
  The bytes a legacy signature covers determine the chain domain and the unsigned
  transaction.
\<close>

lemma legacy_signature_binds_transaction:
  assumes "unsigned_signing_bytes u d = Inr bs" and "unsigned_signing_bytes v e = Inr bs"
  shows "u = v \<and> d = e"
  using assms by (rule unsigned_preimage_inject)

lemma legacy_signature_binds_transaction_witness:
  "\<exists>bs. {(v, e). unsigned_signing_bytes v e = Inr bs} = {(ex_unsigned, ex_signing_domain)}"
  using legacy_signature_binds_transaction [OF _ ex_unsigned_bytes] ex_unsigned_bytes by blast

text \<open>
  The burn committee of every block is well formed: its members sit in the slots from 0 on, in
  order and at most as many as there are slots, and no owner sits twice.
\<close>

lemma block_committee_well_formed:
  "committee_ok (burn_committee_for_block cr lg b)"
  by (rule committee_for_block_ok)

text \<open>
  An applied transfer or burn spends what its sender owns, once: every input named an
  existing output owned by the sender, and that output is gone afterwards unless the transaction
  recreates it under its own identifier.
\<close>

lemma applied_inputs_are_spent:
  assumes "apply_transaction cr tx m d = Inr m'" and "\<not> is_mine tx" and "i \<in> set (inputs tx)"
    and "op_txid (in_outpoint i) \<noteq> tx_signature tx"
  shows "bt_get m' (in_outpoint i) = None \<and>
    (\<exists>o1. bt_get m (in_outpoint i) = Some o1 \<and> out_address o1 = sender tx)"
proof -
  have "apply_spend tx m = Inr m'"
    using assms(1) by (auto simp: apply_transaction_def and_then_eq_Inr)
  then show ?thesis using spent_outputs_gone assms(2-4) by blast
qed

lemma applied_inputs_are_spent_witness:
  "bt_get ex_after_burn (OutPoint ''aa'' 0) = None"
  using applied_inputs_are_spent [OF ex_burn_applies, of "hd (inputs ex_genesis_burn)"]
  by (simp add: ex_genesis_burn_def)

text \<open>
  A genesis block built from valid allocations is well formed, and the unspent outputs it starts
  the chain with are covered by the allocations and its reward, less what its burns destroy.
\<close>

lemma built_genesis_well_formed:
  assumes "validate_genesis_allocations allocations = Inr ()"
    and "utxos_after_genesis cr allocations (build_genesis_block cr allocations txs) = Inr m"
  shows "validate_genesis_block cr (build_genesis_block cr allocations txs) = Inr () \<and>
    utxo_total m + (\<Sum>tx\<leftarrow>transactions (build_genesis_block cr allocations txs). unat (burned_amount tx)) \<le>
      allocated allocations + unat (reward (build_genesis_block cr allocations txs))"
  using built_genesis_valid [OF assms(1)] genesis_supply [OF assms(2)] by blast

lemma built_genesis_well_formed_witness:
  "validate_genesis_block flat_crypto flat_genesis = Inr ()"
proof -
  have "validate_genesis_allocations flat_allocations = Inr ()"
    by (simp add: validate_genesis_allocations_def flat_allocations_def bt_keys_def)
  from built_genesis_well_formed [OF this, of flat_crypto "[]"] show ?thesis
    using flat_genesis_utxos by (simp add: flat_genesis_built)
qed

end
