(* ===== verification/Hybrid_Wallet.thy ===== *)
theory Hybrid_Wallet
  imports Ledger_Pending
begin

text \<open>
  The hybrid keys of a wallet (\<open>domain/wallet.rs\<close>) and the discovery of its addresses
  (\<open>domain/ledger_builders.rs\<close>). A child key is derived from the ML-DSA seed, a branch and an
  index. The wallet caches the keys it has derived and remembers how far each branch is in use;
  the source keeps both behind locks and atomics, so every operation that writes them returns the
  wallet. A clone of a wallet shares these cells, and a call is modelled as if it ran alone.
\<close>

section \<open>Child keys\<close>

datatype HybridAddressBranch = External | Reward

instantiation HybridAddressBranch :: linorder
begin

definition less_eq_HybridAddressBranch :: "HybridAddressBranch \<Rightarrow> HybridAddressBranch \<Rightarrow> bool" where
  "less_eq_HybridAddressBranch a b \<longleftrightarrow> a = External \<or> b = Reward"

definition less_HybridAddressBranch :: "HybridAddressBranch \<Rightarrow> HybridAddressBranch \<Rightarrow> bool" where
  "less_HybridAddressBranch a b \<longleftrightarrow> a = External \<and> b = Reward"

instance
proof
  fix a b c :: HybridAddressBranch
  show "a < b \<longleftrightarrow> a \<le> b \<and> \<not> b \<le> a" "a \<le> a" "a \<le> b \<Longrightarrow> b \<le> c \<Longrightarrow> a \<le> c"
    "a \<le> b \<Longrightarrow> b \<le> a \<Longrightarrow> a = b" "a \<le> b \<or> b \<le> a"
    by (cases a; cases b; auto simp: less_eq_HybridAddressBranch_def less_HybridAddressBranch_def)+
qed

end

fun branch_domain_label :: "HybridAddressBranch \<Rightarrow> string" where
  "branch_domain_label External = ''external''"
| "branch_domain_label Reward = ''reward''"

definition WALLET_ML_DSA44_SEED_DOMAIN :: string where
  "WALLET_ML_DSA44_SEED_DOMAIN = ''iuna-wallet-ml-dsa44-seed-v1''"

definition WALLET_ML_DSA44_CHILD_SEED_DOMAIN :: string where
  "WALLET_ML_DSA44_CHILD_SEED_DOMAIN = ''iuna-wallet-ml-dsa44-child-seed-v1''"

definition derive_child_signing_seed :: "crypto \<Rightarrow> bytes \<Rightarrow> HybridAddressBranch \<Rightarrow> u32 \<Rightarrow> bytes" where
  "derive_child_signing_seed cr parent branch index =
     sha256 cr (as_bytes WALLET_ML_DSA44_CHILD_SEED_DOMAIN @ as_bytes '':'' @
       as_bytes (branch_domain_label branch) @ as_bytes '':'' @ u32_to_be_bytes index @ as_bytes '':'' @ parent)"

record HybridChildKey =
  child_signing_seed :: bytes
  child_public_key :: ProtocolPublicKey
  child_address :: VersionedAddress

text \<open>A wallet with the fields that \<open>Wallet\<close> (in \<open>Block\<close>) leaves out.\<close>

record Hybrid_Wallet = Wallet +
  ml_dsa44_signing_seed :: bytes
  hybrid_child_keys :: "(HybridAddressBranch \<times> u32, HybridChildKey) btree_map"
  external_address_cursor :: u32
  external_discovery_tip :: "string option"
  reward_address_cursor :: u32
  reward_discovery_tip :: "string option"
  historical_address_recovery_complete :: bool

definition hybrid_from_seed :: "crypto \<Rightarrow> string \<Rightarrow> Hybrid_Wallet" where
  "hybrid_from_seed cr seed =
     \<lparr>wallet_address = wallet_address (from_seed cr seed), signing_seed = signing_seed (from_seed cr seed),
      ml_dsa44_signing_seed = derive_signing_seed cr WALLET_ML_DSA44_SEED_DOMAIN seed,
      hybrid_child_keys = bt_empty, external_address_cursor = 0, external_discovery_tip = None,
      reward_address_cursor = 0, reward_discovery_tip = None, historical_address_recovery_complete = False\<rparr>"

definition legacy_versioned_address :: "crypto \<Rightarrow> Hybrid_Wallet \<Rightarrow> VersionedAddress" where
  "legacy_versioned_address cr w =
     \<lparr>addr_version = Ed25519PublicKey, addr_payload = ed25519_key_of_seed cr (signing_seed w)\<rparr>"

text \<open>
  Both components of a public key are arrays of their scheme's length, so that the checks of
  \<open>ProtocolPublicKey::new\<close> and \<open>hybrid_key_commitment_address\<close> pass (\<open>hybrid_key_ok\<close> below) and
  their \<open>expect\<close> is not reached.
\<close>

definition hybrid_key :: "crypto \<Rightarrow> bytes \<Rightarrow> bytes \<Rightarrow> ProtocolPublicKey" where
  "hybrid_key cr seed ml_seed =
     \<lparr>pk_scheme = HybridEd25519MlDsa44,
      pk_bytes = ed25519_key_of_seed cr seed @ ml_dsa44_key_of_seed cr ml_seed\<rparr>"

definition key_address :: "crypto \<Rightarrow> ProtocolPublicKey \<Rightarrow> VersionedAddress" where
  "key_address cr k = \<lparr>addr_version = HybridKeyCommitment, addr_payload = public_key_commitment cr k\<rparr>"

definition hybrid_public_key :: "crypto \<Rightarrow> Hybrid_Wallet \<Rightarrow> ProtocolPublicKey" where
  "hybrid_public_key cr w = hybrid_key cr (signing_seed w) (ml_dsa44_signing_seed w)"

definition hybrid_versioned_address :: "crypto \<Rightarrow> Hybrid_Wallet \<Rightarrow> VersionedAddress" where
  "hybrid_versioned_address cr w = key_address cr (hybrid_public_key cr w)"

definition derived_child_key :: "crypto \<Rightarrow> Hybrid_Wallet \<Rightarrow> HybridAddressBranch \<times> u32 \<Rightarrow> HybridChildKey" where
  "derived_child_key cr w descriptor =
     (let ml_seed = derive_child_signing_seed cr (ml_dsa44_signing_seed w) (fst descriptor) (snd descriptor);
          key = hybrid_key cr (signing_seed w) ml_seed in
      \<lparr>child_signing_seed = ml_seed, child_public_key = key, child_address = key_address cr key\<rparr>)"

definition hybrid_child_key ::
  "crypto \<Rightarrow> Hybrid_Wallet \<Rightarrow> HybridAddressBranch \<Rightarrow> u32 \<Rightarrow> HybridChildKey \<times> Hybrid_Wallet" where
  "hybrid_child_key cr w branch index =
     (case bt_get (hybrid_child_keys w) (branch, index) of
        Some k \<Rightarrow> (k, w)
      | None \<Rightarrow>
          (let k = derived_child_key cr w (branch, index) in
           (k, w\<lparr>hybrid_child_keys := bt_insert (branch, index) k (hybrid_child_keys w)\<rparr>)))"

definition hybrid_versioned_address_at ::
  "crypto \<Rightarrow> Hybrid_Wallet \<Rightarrow> HybridAddressBranch \<Rightarrow> u32 \<Rightarrow> VersionedAddress \<times> Hybrid_Wallet" where
  "hybrid_versioned_address_at cr w branch index =
     (if branch = External \<and> index = 0 then (hybrid_versioned_address cr w, w)
      else (case hybrid_child_key cr w branch index of (k, w') \<Rightarrow> (child_address k, w')))"

section \<open>Signing\<close>

definition sign_ml_dsa44 :: "crypto \<Rightarrow> bytes \<Rightarrow> bytes \<Rightarrow> bytes result" where
  "sign_ml_dsa44 cr seed payload =
     and_then (ok_or ''failed to create deterministic ML-DSA-44 signature'' (ml_dsa44_sign cr seed payload)) (\<lambda>sig.
     if length sig = 2420 then Inr sig else bail ''ML-DSA-44 signer returned an invalid signature length'')"

definition sign_hybrid_authorization_with_key ::
  "crypto \<Rightarrow> bytes \<Rightarrow> bytes \<Rightarrow> ProtocolPublicKey \<Rightarrow> bytes \<Rightarrow> V2SpendingAuthorization result" where
  "sign_hybrid_authorization_with_key cr seed ml_seed key payload =
     and_then (sign_ml_dsa44 cr ml_seed payload) (\<lambda>ml_sig.
     and_then (signature_new HybridEd25519MlDsa44 (ed25519_sign cr seed payload @ ml_sig)) (\<lambda>sig.
     authorization_new key sig))"

definition sign_hybrid_authorization :: "crypto \<Rightarrow> Hybrid_Wallet \<Rightarrow> bytes \<Rightarrow> V2SpendingAuthorization result" where
  "sign_hybrid_authorization cr w payload =
     sign_hybrid_authorization_with_key cr (signing_seed w) (ml_dsa44_signing_seed w) (hybrid_public_key cr w) payload"

definition sign_v2_authorization ::
  "crypto \<Rightarrow> Hybrid_Wallet \<Rightarrow> VersionedAddress \<Rightarrow> bytes \<Rightarrow> V2SpendingAuthorization result" where
  "sign_v2_authorization cr w owner payload =
     (if owner = legacy_versioned_address cr w then
        and_then (public_key_new Ed25519 (addr_payload owner)) (\<lambda>key.
        and_then (signature_new Ed25519 (ed25519_sign cr (signing_seed w) payload)) (\<lambda>sig.
        authorization_new key sig))
      else if owner = hybrid_versioned_address cr w then sign_hybrid_authorization cr w payload
      else case find (\<lambda>k. child_address k = owner) (bt_values (hybrid_child_keys w)) of
        Some k \<Rightarrow>
          sign_hybrid_authorization_with_key cr (signing_seed w) (child_signing_seed k) (child_public_key k) payload
      | None \<Rightarrow> bail ''transaction v2 input is not owned by this wallet'')"

section \<open>Cursors\<close>

fun branch_cursor :: "HybridAddressBranch \<Rightarrow> Hybrid_Wallet \<Rightarrow> u32" where
  "branch_cursor External w = external_address_cursor w"
| "branch_cursor Reward w = reward_address_cursor w"

fun advance_cursor :: "HybridAddressBranch \<Rightarrow> u32 \<Rightarrow> Hybrid_Wallet \<Rightarrow> Hybrid_Wallet" where
  "advance_cursor External index w = w\<lparr>external_address_cursor := max (external_address_cursor w) index\<rparr>"
| "advance_cursor Reward index w = w\<lparr>reward_address_cursor := max (reward_address_cursor w) index\<rparr>"

fun discovery_tip_matches :: "HybridAddressBranch \<Rightarrow> string \<Rightarrow> Hybrid_Wallet \<Rightarrow> bool" where
  "discovery_tip_matches External hash w \<longleftrightarrow> external_discovery_tip w = Some hash"
| "discovery_tip_matches Reward hash w \<longleftrightarrow> reward_discovery_tip w = Some hash"

fun mark_discovery_tip :: "HybridAddressBranch \<Rightarrow> string \<Rightarrow> Hybrid_Wallet \<Rightarrow> Hybrid_Wallet" where
  "mark_discovery_tip External hash w = w\<lparr>external_discovery_tip := Some hash\<rparr>"
| "mark_discovery_tip Reward hash w = w\<lparr>reward_discovery_tip := Some hash\<rparr>"

end
