(* ===== verification/Wallet_Discovery.thy ===== *)
theory Wallet_Discovery
  imports Hybrid_Wallet Ledger_Index
begin

text \<open>
  Which addresses of a wallet are in use (\<open>domain/ledger_builders.rs\<close>, with the lookup of
  \<open>domain/ledger_history_index.rs\<close>): a branch is scanned from its cursor until a run of unused
  addresses is as long as the gap limit; the address after the last used one is the current one.
\<close>

definition HYBRID_EXTERNAL_ADDRESS_GAP_LIMIT :: u32 where "HYBRID_EXTERNAL_ADDRESS_GAP_LIMIT = 20"
definition MAX_DISCOVERED_EXTERNAL_ADDRESSES :: u32 where "MAX_DISCOVERED_EXTERNAL_ADDRESSES = 10000"

section \<open>Lookups\<close>

record HybridAddressLookup =
  lookup_pending :: "VersionedAddress set"
  lookup_confirmed :: "VersionedAddress set option"

definition lookup_new :: "VersionedAddress set \<Rightarrow> VersionedAddress set \<Rightarrow> HybridAddressLookup" where
  "lookup_new p c = \<lparr>lookup_pending = p, lookup_confirmed = Some c\<rparr>"

definition lookup_pending_only :: "VersionedAddress set \<Rightarrow> HybridAddressLookup" where
  "lookup_pending_only p = \<lparr>lookup_pending = p, lookup_confirmed = None\<rparr>"

definition lookup_contains :: "HybridAddressLookup \<Rightarrow> VersionedAddress \<Rightarrow> bool" where
  "lookup_contains l a \<longleftrightarrow>
     a \<in> lookup_pending l \<or> (case lookup_confirmed l of Some c \<Rightarrow> a \<in> c | None \<Rightarrow> False)"

text \<open>The iteration order of a \<open>BTreeSet\<close> of addresses: by version, then by payload.\<close>

definition address_of_pair :: "u8 \<times> bytes \<Rightarrow> VersionedAddress" where
  "address_of_pair p =
     \<lparr>addr_version = (if fst p = version_wire_id Ed25519PublicKey then Ed25519PublicKey else HybridKeyCommitment),
      addr_payload = snd p\<rparr>"

definition addresses_in_order :: "VersionedAddress set \<Rightarrow> VersionedAddress list" where
  "addresses_in_order S =
     map address_of_pair (sorted_list_of_set ((\<lambda>a. (version_wire_id (addr_version a), addr_payload a)) ` S))"

definition lookup_iter :: "HybridAddressLookup \<Rightarrow> VersionedAddress list" where
  "lookup_iter l =
     addresses_in_order (lookup_pending l) @
     (case lookup_confirmed l of
        None \<Rightarrow> []
      | Some c \<Rightarrow> filter (\<lambda>a. a \<notin> lookup_pending l) (addresses_in_order c))"

definition confirmed_hybrid_authored_addresses_of :: "Ledger \<Rightarrow> bytes \<Rightarrow> VersionedAddress list" where
  "confirmed_hybrid_authored_addresses_of lg key =
     (case bt_get (confirmed_hybrid_authored_addresses lg) key of Some as \<Rightarrow> as | None \<Rightarrow> [])"

definition wallet_authored_hybrid_addresses :: "Ledger \<Rightarrow> bytes \<Rightarrow> VersionedAddress list result" where
  "wallet_authored_hybrid_addresses lg key = Inr (confirmed_hybrid_authored_addresses_of lg key)"

definition pending_hybrid_addresses :: "crypto \<Rightarrow> Ledger \<Rightarrow> VersionedAddress set" where
  "pending_hybrid_addresses cr lg =
     set (foldl (\<lambda>used tx. collect_v2_output_addresses tx used)
       (foldl (\<lambda>used tx. collect_legacy_hybrid_outputs cr tx (ledger_network lg) used) [] (pending lg))
       (pending_v2 lg))"

definition pending_spent_hybrid_addresses :: "Ledger \<Rightarrow> VersionedAddress set" where
  "pending_spent_hybrid_addresses lg =
     set (foldl (\<lambda>spent tx. collect_v2_input_addresses tx spent) [] (pending_v2 lg))"

definition used_hybrid_addresses :: "crypto \<Rightarrow> Ledger \<Rightarrow> HybridAddressLookup" where
  "used_hybrid_addresses cr lg =
     lookup_new (pending_hybrid_addresses cr lg) (confirmed_hybrid_used_addresses lg)"

definition spent_hybrid_addresses :: "Ledger \<Rightarrow> HybridAddressLookup" where
  "spent_hybrid_addresses lg =
     lookup_new (pending_spent_hybrid_addresses lg) (confirmed_hybrid_spent_addresses lg)"

definition used_hybrid_encoded_addresses :: "crypto \<Rightarrow> Ledger \<Rightarrow> string list result" where
  "used_hybrid_encoded_addresses cr lg =
     try_map (\<lambda>a. encode_versioned_address cr a (ledger_network lg)) (lookup_iter (used_hybrid_addresses cr lg))"

section \<open>Recovery of the cursors\<close>

text \<open>
  The highest index of each branch whose address the wallet has authored; the loop stops when all
  authored addresses are found.
\<close>

definition recovery_probe ::
  "crypto \<Rightarrow> HybridAddressBranch \<Rightarrow> u32 \<Rightarrow> VersionedAddress list \<times> u32 option \<times> Hybrid_Wallet \<Rightarrow>
     VersionedAddress list \<times> u32 option \<times> Hybrid_Wallet" where
  "recovery_probe cr branch index s = (case s of (targets, highest, w) \<Rightarrow>
     (case hybrid_versioned_address_at cr w branch index of (a, w') \<Rightarrow>
        if a \<in> set targets then (filter (\<lambda>t. t \<noteq> a) targets, Some index, w') else (targets, highest, w')))"

function recovery_loop ::
  "crypto \<Rightarrow> u32 \<Rightarrow> VersionedAddress list \<Rightarrow> u32 option \<Rightarrow> u32 option \<Rightarrow> Hybrid_Wallet \<Rightarrow>
     u32 option \<times> u32 option \<times> Hybrid_Wallet" where
  "recovery_loop cr index targets ext rew w =
     (if index < MAX_DISCOVERED_EXTERNAL_ADDRESSES then
        (case recovery_probe cr External index (targets, ext, w) of (targets1, ext', w1) \<Rightarrow>
        (case recovery_probe cr Reward index (targets1, rew, w1) of (targets2, rew', w2) \<Rightarrow>
           if targets2 = [] then (ext', rew', w2)
           else recovery_loop cr (index + 1) targets2 ext' rew' w2))
      else (ext, rew, w))"
  by pat_completeness auto
termination
  by (relation "measure (\<lambda>(cr, index, targets, ext, rew, w). 10000 - unat index)")
    (auto simp: word_less_nat_alt MAX_DISCOVERED_EXTERNAL_ADDRESSES_def unat_word_ariths)

declare recovery_loop.simps [simp del]

definition advance_past :: "HybridAddressBranch \<Rightarrow> u32 option \<Rightarrow> Hybrid_Wallet \<Rightarrow> Hybrid_Wallet" where
  "advance_past branch highest w =
     (case Option.bind highest (\<lambda>index. checked_add index 1) of
        Some index \<Rightarrow> advance_cursor branch index w | None \<Rightarrow> w)"

definition recover_historical_hybrid_address_cursors ::
  "crypto \<Rightarrow> Ledger \<Rightarrow> Hybrid_Wallet \<Rightarrow> unit result \<times> Hybrid_Wallet" where
  "recover_historical_hybrid_address_cursors cr lg w =
     (if historical_address_recovery_complete w then (Inr (), w)
      else
        st_check (wallet_authored_hybrid_addresses lg (addr_payload (legacy_versioned_address cr w))) w (\<lambda>targets.
        case recovery_loop cr 0 targets None None w of (ext, rew, w') \<Rightarrow>
          (Inr (), (advance_past Reward rew (advance_past External ext w'))
             \<lparr>historical_address_recovery_complete := True\<rparr>)))"

section \<open>Discovery\<close>

text \<open>The scan of a branch; None when it reaches the bound on addresses.\<close>

function discovery_loop ::
  "crypto \<Rightarrow> HybridAddressBranch \<Rightarrow> HybridAddressLookup \<Rightarrow> u32 \<Rightarrow> u32 \<Rightarrow> u32 option \<Rightarrow> u32 \<Rightarrow> Hybrid_Wallet \<Rightarrow>
     u32 option \<times> Hybrid_Wallet" where
  "discovery_loop cr branch used start index highest unused_run w =
     (if index < MAX_DISCOVERED_EXTERNAL_ADDRESSES then
        (case hybrid_versioned_address_at cr w branch index of (a, w') \<Rightarrow>
           if lookup_contains used a
           then discovery_loop cr branch used start (saturating_add index 1) (Some index) 0 w'
           else
             (let unused_run' = saturating_add unused_run 1 in
              if HYBRID_EXTERNAL_ADDRESS_GAP_LIMIT \<le> unused_run'
              then (Some (case Option.bind highest (\<lambda>u. checked_add u 1) of Some c \<Rightarrow> c | None \<Rightarrow> start), w')
              else discovery_loop cr branch used start (saturating_add index 1) highest unused_run' w'))
      else (None, w))"
  by pat_completeness auto
termination
  by (relation "measure (\<lambda>(cr, branch, used, start, index, highest, unused_run, w). 10000 - unat index)")
    (auto simp: word_less_nat_alt MAX_DISCOVERED_EXTERNAL_ADDRESSES_def saturating_add_def unat_word_ariths
      split: option.splits)

declare discovery_loop.simps [simp del]

fun addresses_at ::
  "crypto \<Rightarrow> HybridAddressBranch \<Rightarrow> u32 list \<Rightarrow> Hybrid_Wallet \<Rightarrow> (u32 \<times> VersionedAddress) list \<times> Hybrid_Wallet" where
  "addresses_at cr branch [] w = ([], w)"
| "addresses_at cr branch (index # is) w =
     (case hybrid_versioned_address_at cr w branch index of (a, w1) \<Rightarrow>
     (case addresses_at cr branch is w1 of (as, w2) \<Rightarrow> ((index, a) # as, w2)))"

definition wallet_branch_addresses ::
  "crypto \<Rightarrow> Ledger \<Rightarrow> HybridAddressBranch \<Rightarrow> HybridAddressLookup \<Rightarrow> HybridAddressLookup \<Rightarrow> string \<Rightarrow> Hybrid_Wallet \<Rightarrow>
     (u32 \<times> VersionedAddress) list result \<times> Hybrid_Wallet" where
  "wallet_branch_addresses cr lg branch at_new_tip at_old_tip failure w =
     st_then (recover_historical_hybrid_address_cursors cr lg w) (\<lambda>_ w0.
     let tip_changed = (\<not> discovery_tip_matches branch (tip_hash lg) w0);
         used = (if tip_changed then at_new_tip else at_old_tip);
         start = branch_cursor branch w0 in
     (case discovery_loop cr branch used start start None 0 w0 of
        (None, w1) \<Rightarrow> (bail failure, w1)
      | (Some current, w1) \<Rightarrow>
          (let w2 = advance_cursor branch current w1;
               w3 = (if tip_changed then mark_discovery_tip branch (tip_hash lg) w2 else w2) in
           (case addresses_at cr branch (map word_of_nat [0..<Suc (unat current)]) w3 of (as, w4) \<Rightarrow>
             (Inr as, w4)))))"

definition wallet_external_addresses ::
  "crypto \<Rightarrow> Ledger \<Rightarrow> Hybrid_Wallet \<Rightarrow> (u32 \<times> VersionedAddress) list result \<times> Hybrid_Wallet" where
  "wallet_external_addresses cr lg w =
     wallet_branch_addresses cr lg External (used_hybrid_addresses cr lg)
       (lookup_pending_only (pending_hybrid_addresses cr lg))
       (''wallet external address discovery exceeded '' @ show_u32 MAX_DISCOVERED_EXTERNAL_ADDRESSES @ '' addresses'') w"

definition wallet_reward_addresses ::
  "crypto \<Rightarrow> Ledger \<Rightarrow> Hybrid_Wallet \<Rightarrow> (u32 \<times> VersionedAddress) list result \<times> Hybrid_Wallet" where
  "wallet_reward_addresses cr lg w =
     wallet_branch_addresses cr lg Reward (spent_hybrid_addresses lg)
       (lookup_pending_only (pending_spent_hybrid_addresses lg))
       (''wallet reward address discovery exceeded '' @ show_u32 MAX_DISCOVERED_EXTERNAL_ADDRESSES @ '' addresses'') w"

definition last_address :: "string \<Rightarrow> (u32 \<times> VersionedAddress) list \<Rightarrow> VersionedAddress result" where
  "last_address failure as = (if as = [] then bail failure else Inr (snd (last as)))"

definition wallet_receive_address :: "crypto \<Rightarrow> Ledger \<Rightarrow> Hybrid_Wallet \<Rightarrow> string result \<times> Hybrid_Wallet" where
  "wallet_receive_address cr lg w =
     st_then (wallet_external_addresses cr lg w) (\<lambda>as w'.
     (and_then (last_address ''wallet external address discovery did not return a current receive address'' as) (\<lambda>a.
      encode_versioned_address cr a (ledger_network lg)), w'))"

definition wallet_reward_address :: "crypto \<Rightarrow> Ledger \<Rightarrow> Hybrid_Wallet \<Rightarrow> string result \<times> Hybrid_Wallet" where
  "wallet_reward_address cr lg w =
     st_then (wallet_reward_addresses cr lg w) (\<lambda>as w'.
     (and_then (last_address ''wallet reward discovery did not return a current address'' as) (\<lambda>a.
      encode_versioned_address cr a (ledger_network lg)), w'))"

definition wallet_owned_hybrid_addresses ::
  "crypto \<Rightarrow> Ledger \<Rightarrow> Hybrid_Wallet \<Rightarrow> VersionedAddress list result \<times> Hybrid_Wallet" where
  "wallet_owned_hybrid_addresses cr lg w =
     st_then (wallet_external_addresses cr lg w) (\<lambda>as w1.
     if ledger_height lg < HYBRID_REWARD_ACTIVATION_HEIGHT then (Inr (map snd as), w1)
     else
       st_then (wallet_reward_addresses cr lg w1) (\<lambda>rs w2.
       (Inr (foldl push_unique_address (map snd as) (map snd rs)), w2)))"

definition wallet_owned_hybrid_encoded_addresses ::
  "crypto \<Rightarrow> Ledger \<Rightarrow> Hybrid_Wallet \<Rightarrow> string list result \<times> Hybrid_Wallet" where
  "wallet_owned_hybrid_encoded_addresses cr lg w =
     st_then (wallet_owned_hybrid_addresses cr lg w) (\<lambda>as w'.
     (try_map (\<lambda>a. encode_versioned_address cr a (ledger_network lg)) as, w'))"

end
