(* ===== verification/Block_Selection.thy ===== *)
theory Block_Selection
  imports Ledger_Apply Ticket_Facts
begin

text \<open>
  The transactions of the next block (\<open>domain/ledger_pending.rs\<close>, \<open>domain/ledger_v2.rs\<close>): the burn
  that the block is anchored to, the burns that the committee has attested, and then, by falling
  fee rate, whatever else of the pools applies and fits. Every step removes what it takes from the
  candidates and applies it to a copy of the unspent outputs; the copies are dropped on an error,
  so that a failing call has no state to return.
\<close>

record BlockSelection =
  sel_transactions :: "Transaction list"
  sel_transactions_v2 :: "string list"

record Selecting =
  rest_legacy :: "Transaction list"
  rest_v2 :: "TransactionV2 list"
  chosen :: BlockSelection
  sel_utxos :: utxos

lemma length_remove: "i < length xs \<Longrightarrow> Suc (length (list_remove i xs)) = length xs"
  by (simp add: list_remove_def)

lemma remove_shorter [simp]: "i < length xs \<Longrightarrow> length (list_remove i xs) < length xs"
  by (rule length_list_remove)

definition push_legacy :: "Transaction \<Rightarrow> BlockSelection \<Rightarrow> BlockSelection" where
  "push_legacy tx s = s\<lparr>sel_transactions := sel_transactions s @ [tx]\<rparr>"

definition push_v2 :: "string \<Rightarrow> BlockSelection \<Rightarrow> BlockSelection" where
  "push_v2 envelope s = s\<lparr>sel_transactions_v2 := sel_transactions_v2 s @ [envelope]\<rparr>"

definition selection_count :: "BlockSelection \<Rightarrow> nat" where
  "selection_count s = length (sel_transactions s) + length (sel_transactions_v2 s)"

section \<open>Version 2 transactions with pending parents\<close>

definition v2_has_id :: "crypto \<Rightarrow> TransactionV2Domain \<Rightarrow> string \<Rightarrow> TransactionV2 \<Rightarrow> bool" where
  "v2_has_id cr d i tx = (case transaction_id cr tx d of Inl _ \<Rightarrow> False | Inr txid \<Rightarrow> hex_encode txid = i)"

type_synonym v2_state = "TransactionV2 list \<times> string list \<times> utxos"

text \<open>
  The recursion into the parents removes a pending transaction at every level, so that a depth of
  the number of pending transactions is enough (\<open>with_parents_depth\<close> below).
\<close>

definition pull_parent ::
  "crypto \<Rightarrow> TransactionV2Domain \<Rightarrow> (TransactionV2 \<Rightarrow> v2_state \<Rightarrow> v2_state result) \<Rightarrow> v2_state \<Rightarrow> OutPoint \<Rightarrow>
     v2_state result" where
  "pull_parent cr d apply_parent s p = (case s of (candidates, selected, m) \<Rightarrow>
     if bt_contains_key m p then Inr s
     else case position (v2_has_id cr d (op_txid p)) candidates of
       None \<Rightarrow> Inr s
     | Some i \<Rightarrow>
         and_then (apply_parent (candidates ! i) (list_remove i candidates, selected, m))
           (\<lambda>(candidates', selected', m').
         and_then (v2_encode (candidates ! i) d) (\<lambda>bs.
         Inr (candidates', selected' @ [hex_encode bs], m'))))"

fun with_pending_parents ::
  "nat \<Rightarrow> crypto \<Rightarrow> TransactionV2Domain \<Rightarrow> AddressNetwork \<Rightarrow> TransactionV2 \<Rightarrow> v2_state \<Rightarrow> v2_state result" where
  "with_pending_parents 0 cr d network tx s = panic ''recursion depth''"
| "with_pending_parents (Suc depth) cr d network tx s =
     and_then (try_fold (pull_parent cr d (with_pending_parents depth cr d network)) s
       (transaction_v2_outpoints tx)) (\<lambda>(candidates, selected, m).
     and_then (apply_prevalidated_transaction_v2_to_utxos cr tx d network m) (\<lambda>m'.
     Inr (candidates, selected, m')))"

definition apply_prevalidated_transaction_v2_with_pending_parents ::
  "crypto \<Rightarrow> TransactionV2Domain \<Rightarrow> AddressNetwork \<Rightarrow> TransactionV2 \<Rightarrow> v2_state \<Rightarrow> v2_state result" where
  "apply_prevalidated_transaction_v2_with_pending_parents cr d network tx s =
     with_pending_parents (Suc (length (fst s))) cr d network tx s"

section \<open>The anchor burn\<close>

definition transaction_signing_domain :: "Ledger \<Rightarrow> TransactionSigningDomain" where
  "transaction_signing_domain lg = transaction_signing_domain_at lg (saturating_add (ledger_height lg) 1)"

definition start_selecting :: "crypto \<Rightarrow> Ledger \<Rightarrow> Selecting" where
  "start_selecting cr lg =
     \<lparr>rest_legacy = filter (transaction_is_eligible_for_next_block lg) (valid_pending_transactions cr lg),
      rest_v2 = (if transaction_v2_is_active (saturating_add (ledger_height lg) 1)
                 then filter (transaction_v2_is_eligible_for_next_block lg) (pending_v2 lg) else []),
      chosen = \<lparr>sel_transactions = [], sel_transactions_v2 = []\<rparr>,
      sel_utxos = ledger_utxos lg\<rparr>"

text \<open>The positions of the anchor burn among the legacy and the version 2 candidates.\<close>

definition choose_anchor ::
  "crypto \<Rightarrow> TransactionSigningDomain \<Rightarrow> TransactionV2Domain \<Rightarrow> string option \<Rightarrow> string option \<Rightarrow>
     Selecting \<Rightarrow> (nat option \<times> nat option) result" where
  "choose_anchor cr sd d required_burn_owner required_burn_signature st =
     (let or_v2 = (\<lambda>legacy P. (legacy, if legacy = None then position P (rest_v2 st) else None)) in
      case required_burn_signature of
        Some sig \<Rightarrow>
          (let found = or_v2 (position (\<lambda>tx. tx_signature tx = sig) (rest_legacy st)) (v2_has_id cr d sig) in
           if found = (None, None) then bail (''required burn '' @ sig @ '' is not pending'') else Inr found)
      | None \<Rightarrow>
          Inr (case required_burn_owner of
                 Some owner \<Rightarrow>
                   or_v2 (best_selectable_burn_from_index cr (rest_legacy st) (sel_utxos st) owner sd)
                     (\<lambda>tx. v2_is_burn tx \<and> burn_legacy_owner cr tx = Inr (Some owner))
               | None \<Rightarrow>
                   or_v2 (best_selectable_transaction_index cr (rest_legacy st) (sel_utxos st) (Some BurnKind) sd)
                     v2_is_burn))"

definition select_required_anchor_burn ::
  "crypto \<Rightarrow> Ledger \<Rightarrow> string option \<Rightarrow> Transaction \<Rightarrow> Selecting \<Rightarrow> Selecting result" where
  "select_required_anchor_burn cr lg required_burn_owner tx st =
     (if \<not> is_burn tx then bail ''required block anchor must be a burn transaction''
      else if required_burn_owner \<noteq> None \<and> required_burn_owner \<noteq> Some (sender tx)
      then bail ''required block anchor burn must be from the recovery finalizer''
      else if max_block_transactions (launch_profile lg) \<le> length (sel_transactions (chosen st))
      then bail ''required block anchor burn does not fit within the transaction count limit''
      else
        and_then (with_context ''required block anchor burn is not spendable''
          (apply_transaction cr tx (sel_utxos st) (transaction_signing_domain lg))) (\<lambda>m.
        Inr (st\<lparr>chosen := push_legacy tx (chosen st), sel_utxos := m\<rparr>)))"

definition take_legacy_anchor ::
  "crypto \<Rightarrow> Ledger \<Rightarrow> string option \<Rightarrow> string set \<Rightarrow> nat option \<Rightarrow> Selecting \<Rightarrow> (string set \<times> Selecting) result" where
  "take_legacy_anchor cr lg required_burn_owner required index st =
     (case index of
        None \<Rightarrow> Inr ({}, st)
      | Some i \<Rightarrow>
          (let tx = rest_legacy st ! i in
           and_then (select_required_anchor_burn cr lg required_burn_owner tx
             (st\<lparr>rest_legacy := list_remove i (rest_legacy st)\<rparr>)) (\<lambda>st'.
           Inr ({tx_signature tx} \<inter> required, st'))))"

text \<open>
  Taking a version 2 burn together with its pending parents; the result names the attested
  envelopes among the parents.
\<close>

definition take_v2 ::
  "crypto \<Rightarrow> TransactionV2Domain \<Rightarrow> AddressNetwork \<Rightarrow> string set \<Rightarrow> string \<Rightarrow> nat \<Rightarrow> Selecting \<Rightarrow>
     (string set \<times> Selecting) result" where
  "take_v2 cr d network required failure i st =
     (let tx = rest_v2 st ! i; before = sel_transactions_v2 (chosen st) in
      and_then (with_context failure
        (apply_prevalidated_transaction_v2_with_pending_parents cr d network tx
          (list_remove i (rest_v2 st), before, sel_utxos st))) (\<lambda>(candidates, selected, m).
      Inr (set (drop (length before) selected) \<inter> required,
           st\<lparr>rest_v2 := candidates, sel_utxos := m,
              chosen := (chosen st)\<lparr>sel_transactions_v2 := selected\<rparr>\<rparr>)))"

definition take_v2_anchor ::
  "crypto \<Rightarrow> TransactionV2Domain \<Rightarrow> AddressNetwork \<Rightarrow> string option \<Rightarrow> string set \<Rightarrow> nat option \<Rightarrow> Selecting \<Rightarrow>
     (string set \<times> Selecting) result" where
  "take_v2_anchor cr d network required_burn_owner required index st =
     (case index of
        None \<Rightarrow> Inr ({}, st)
      | Some i \<Rightarrow>
          (let tx = rest_v2 st ! i in
           if \<not> v2_is_burn tx then bail ''required block anchor must be a burn transaction''
           else
             and_then (if required_burn_owner = None then Inr None else burn_legacy_owner cr tx) (\<lambda>owner.
             if owner \<noteq> required_burn_owner
             then bail ''required block anchor burn must be from the recovery finalizer''
             else
               and_then (take_v2 cr d network required ''required transaction v2 anchor burn is not spendable'' i st)
                 (\<lambda>(got, st').
               and_then (v2_encode tx d) (\<lambda>bs.
               let envelope = hex_encode bs in
               Inr (got \<union> ({envelope} \<inter> required), st'\<lparr>chosen := push_v2 envelope (chosen st')\<rparr>))))))"

section \<open>The attested burns\<close>

text \<open>The loop ends early once all attested burns are found; what it passes over stays a candidate.\<close>

fun take_attested ::
  "crypto \<Rightarrow> Ledger \<Rightarrow> string set \<Rightarrow> Transaction list \<Rightarrow> string set \<Rightarrow> BlockSelection \<Rightarrow> utxos \<Rightarrow>
     (Transaction list \<times> string set \<times> BlockSelection \<times> utxos) result" where
  "take_attested cr lg required [] got s m = Inr ([], got, s, m)"
| "take_attested cr lg required (tx # txs) got s m =
     (if card required \<le> card got then Inr (tx # txs, got, s, m)
      else if tx_signature tx \<notin> required
      then and_then (take_attested cr lg required txs got s m) (\<lambda>(kept, rest). Inr (tx # kept, rest))
      else if \<not> is_burn tx then bail ''attested transaction must be a burn''
      else if max_block_transactions (launch_profile lg) \<le> length (sel_transactions s)
      then bail ''attested burns do not fit within the block transaction count limit''
      else
        and_then (with_context ''attested burn is not spendable''
          (apply_transaction cr tx m (transaction_signing_domain lg))) (\<lambda>m'.
        take_attested cr lg required txs (insert (tx_signature tx) got) (push_legacy tx s) m'))"

definition take_attested_burns ::
  "crypto \<Rightarrow> Ledger \<Rightarrow> string set \<Rightarrow> string set \<Rightarrow> Selecting \<Rightarrow> Selecting result" where
  "take_attested_burns cr lg required got st =
     and_then (take_attested cr lg required (rest_legacy st) got (chosen st) (sel_utxos st))
       (\<lambda>(kept, got', s, m).
     if card got' \<noteq> card required
     then (case sorted_list_of_set (required - got') of
             [] \<Rightarrow> bail ''attested burn selection is inconsistent''
           | missing # _ \<Rightarrow> bail (''attested burn '' @ missing @ '' is not pending''))
     else Inr (st\<lparr>rest_legacy := kept, chosen := s, sel_utxos := m\<rparr>))"

text \<open>The position of the first candidate whose envelope is attested; encoding errors end the search.\<close>

fun find_attested_v2 ::
  "TransactionV2Domain \<Rightarrow> string set \<Rightarrow> nat \<Rightarrow> TransactionV2 list \<Rightarrow> (nat \<times> string) option result" where
  "find_attested_v2 d required index [] = Inr None"
| "find_attested_v2 d required index (tx # txs) =
     and_then (v2_encode tx d) (\<lambda>bs.
     if hex_encode bs \<in> required then Inr (Some (index, hex_encode bs))
     else find_attested_v2 d required (index + 1) txs)"

lemma with_pending_parents_spec:
  "with_pending_parents n cr d network tx (candidates, selected, m) = Inr (candidates', selected', m') \<Longrightarrow>
    \<exists>pulled extras. mset candidates = mset candidates' + mset pulled \<and> selected' = selected @ extras \<and>
      list_all2 (\<lambda>tx e. \<exists>bs. v2_encode tx d = Inr bs \<and> e = hex_encode bs) pulled extras \<and>
      try_fold (\<lambda>m tx. apply_prevalidated_transaction_v2_to_utxos cr tx d network m) m (pulled @ [tx]) = Inr m'"
proof (induction n arbitrary: tx candidates selected m candidates' selected' m')
  case (Suc n)
  let ?apply = "\<lambda>m tx. apply_prevalidated_transaction_v2_to_utxos cr tx d network m"
  let ?env = "\<lambda>tx e. \<exists>bs. v2_encode tx d = Inr bs \<and> e = hex_encode bs"
  have loop: "\<exists>pulled extras. mset c = mset c' + mset pulled \<and> s' = s @ extras \<and> list_all2 ?env pulled extras \<and>
      try_fold ?apply m pulled = Inr m'"
    if "try_fold (pull_parent cr d (with_pending_parents n cr d network)) (c, s, m) ps = Inr (c', s', m')"
    for ps c s m c' s' m'
    using that
  proof (induction ps arbitrary: c s m)
    case Nil
    then show ?case by (intro exI [of _ "[]"]) simp
  next
    case (Cons p ps)
    obtain c1 s1 m1 where step: "pull_parent cr d (with_pending_parents n cr d network) (c, s, m) p = Inr (c1, s1, m1)"
      and rest: "try_fold (pull_parent cr d (with_pending_parents n cr d network)) (c1, s1, m1) ps = Inr (c', s', m')"
      using Cons.prems by (auto simp: and_then_eq_Inr)
    obtain p1 e1 where one: "mset c = mset c1 + mset p1" "s1 = s @ e1" "list_all2 ?env p1 e1"
      "try_fold ?apply m p1 = Inr m1"
    proof (cases "c1 = c \<and> s1 = s \<and> m1 = m")
      case True
      then show ?thesis using that [of "[]" "[]"] by simp
    next
      case False
      then obtain i s2 bs where i: "position (v2_has_id cr d (op_txid p)) c = Some i"
        and inner: "with_pending_parents n cr d network (c ! i) (list_remove i c, s, m) = Inr (c1, s2, m1)"
        and enc: "v2_encode (c ! i) d = Inr bs" and s1: "s1 = s2 @ [hex_encode bs]"
        using step by (auto simp: pull_parent_def and_then_eq_Inr split: if_splits option.splits)
      obtain pulled extras where "mset (list_remove i c) = mset c1 + mset pulled" "s2 = s @ extras"
        "list_all2 ?env pulled extras" "try_fold ?apply m (pulled @ [c ! i]) = Inr m1"
        using Suc.IH [OF inner] by blast
      then show ?thesis
        using that [of "pulled @ [c ! i]" "extras @ [hex_encode bs]"] enc s1 mset_list_remove [of i c]
          position_Some [OF i] by (auto intro: list_all2_appendI)
    qed
    obtain p2 e2 where "mset c1 = mset c' + mset p2" "s' = s1 @ e2" "list_all2 ?env p2 e2"
      "try_fold ?apply m1 p2 = Inr m'"
      using Cons.IH [OF rest] by blast
    with one show ?case
      by (intro exI [of _ "p1 @ p2"] exI [of _ "e1 @ e2"]) (auto simp: try_fold_append intro: list_all2_appendI)
  qed
  obtain m1 where "try_fold (pull_parent cr d (with_pending_parents n cr d network)) (candidates, selected, m)
      (transaction_v2_outpoints tx) = Inr (candidates', selected', m1)" "?apply m1 tx = Inr m'"
    using Suc.prems by (auto simp: and_then_eq_Inr)
  then show ?case using loop by (fastforce simp: try_fold_append)
qed (simp add: panic_def)

text \<open>Any depth above the number of candidates gives the same result.\<close>

lemma with_parents_depth:
  "length candidates < n \<Longrightarrow> n \<le> k \<Longrightarrow>
    with_pending_parents n cr d network tx (candidates, selected, m) =
    with_pending_parents k cr d network tx (candidates, selected, m)"
proof (induction n arbitrary: k tx candidates selected m)
  case (Suc n)
  then obtain k' where k: "k = Suc k'" "n \<le> k'" by (cases k) auto
  have "try_fold (pull_parent cr d (with_pending_parents n cr d network)) (c, s, m) ps =
      try_fold (pull_parent cr d (with_pending_parents k' cr d network)) (c, s, m) ps"
    if "length c < Suc n" for ps c s m
    using that
  proof (induction ps arbitrary: c s m)
    case (Cons p ps)
    have same: "pull_parent cr d (with_pending_parents n cr d network) (c, s, m) p =
        pull_parent cr d (with_pending_parents k' cr d network) (c, s, m) p"
    proof (cases "position (v2_has_id cr d (op_txid p)) c")
      case (Some i)
      then have "length (list_remove i c) < n"
        using Cons.prems position_Some [OF Some] length_remove [of i c] by simp
      then show ?thesis using Suc.IH [OF _ k(2)] Some by (simp add: pull_parent_def)
    next
      case None
      then show ?thesis by (simp add: pull_parent_def)
    qed
    have "length c1 < Suc n"
      if pull: "pull_parent cr d (with_pending_parents n cr d network) (c, s, m) p = Inr (c1, s1, m1)" for c1 s1 m1
    proof (cases "c1 = c")
      case False
      then obtain i s2 where i: "position (v2_has_id cr d (op_txid p)) c = Some i"
        and inner: "with_pending_parents n cr d network (c ! i) (list_remove i c, s, m) = Inr (c1, s2, m1)"
        using pull by (auto simp: pull_parent_def and_then_eq_Inr split: if_splits option.splits)
      obtain pulled where "mset (list_remove i c) = mset c1 + mset pulled"
        using with_pending_parents_spec [OF inner] by blast
      then have "length c1 \<le> length (list_remove i c)"
        by (metis size_mset size_union le_add1)
      then show ?thesis using Cons.prems position_Some [OF i] length_remove [of i c] by simp
    qed (use Cons.prems in simp)
    then show ?case
      unfolding try_fold.simps same [symmetric]
      by (intro and_then_cong [OF refl]) (auto simp: Cons.IH split: prod.splits)
  qed simp
  then show ?case using Suc.prems(1) by (simp add: k(1))
qed simp

lemma take_v2_shrinks:
  assumes "take_v2 cr d network required failure i st = Inr (parents, st')" and "i < length (rest_v2 st)"
  shows "length (rest_v2 st') < length (rest_v2 st) \<and> rest_legacy st' = rest_legacy st"
proof -
  obtain selected m where "with_pending_parents (Suc (length (list_remove i (rest_v2 st)))) cr d network (rest_v2 st ! i)
      (list_remove i (rest_v2 st), sel_transactions_v2 (chosen st), sel_utxos st) = Inr (rest_v2 st', selected, m)"
    and legacy: "rest_legacy st' = rest_legacy st"
    using assms(1)
    by (auto simp: take_v2_def apply_prevalidated_transaction_v2_with_pending_parents_def and_then_eq_Inr
        with_context_eq_Inr Let_def)
  then obtain pulled where "mset (list_remove i (rest_v2 st)) = mset (rest_v2 st') + mset pulled"
    using with_pending_parents_spec by blast
  then have "length (rest_v2 st') \<le> length (list_remove i (rest_v2 st))"
    by (metis size_mset size_union le_add1)
  then show ?thesis using length_remove [OF assms(2)] legacy by simp
qed

lemma find_attested_v2_bound:
  "find_attested_v2 d required index txs = Inr (Some (i, envelope)) \<Longrightarrow>
    index \<le> i \<and> i < index + length txs \<and> envelope \<in> required \<and>
    (\<exists>bs. v2_encode (txs ! (i - index)) d = Inr bs \<and> envelope = hex_encode bs)"
proof (induction txs arbitrary: index)
  case (Cons tx txs)
  obtain bs where bs: "v2_encode tx d = Inr bs" using Cons.prems by (auto simp: and_then_eq_Inr)
  show ?case
  proof (cases "hex_encode bs \<in> required")
    case False
    then have "find_attested_v2 d required (index + 1) txs = Inr (Some (i, envelope))"
      using Cons.prems bs by simp
    from Cons.IH [OF this] show ?thesis by (auto simp: Suc_diff_le nth_Cons' Suc_le_eq)
  qed (use Cons.prems bs in auto)
qed simp

function take_attested_v2 ::
  "crypto \<Rightarrow> Ledger \<Rightarrow> TransactionV2Domain \<Rightarrow> string set \<Rightarrow> string set \<Rightarrow> Selecting \<Rightarrow>
     (string set \<times> Selecting) result" where
  "take_attested_v2 cr lg d required got st =
     (if card required \<le> card got then Inr (got, st)
      else
        and_then (find_attested_v2 d required 0 (rest_v2 st)) (\<lambda>found.
        case found of
          None \<Rightarrow> Inr (got, st)
        | Some (i, envelope) \<Rightarrow>
            if \<not> v2_is_burn (rest_v2 st ! i) then bail ''attested transaction v2 must be a burn''
            else
              and_then (take_v2 cr d (ledger_network lg) required
                ''attested transaction v2 burn is not spendable'' i st) (\<lambda>taken.
              let got' = insert envelope (got \<union> fst taken);
                  s = push_v2 envelope (chosen (snd taken)) in
              if max_block_transactions (launch_profile lg) < selection_count s
              then bail ''attested transaction v2 burns do not fit within the block transaction count limit''
              else take_attested_v2 cr lg d required got' ((snd taken)\<lparr>chosen := s\<rparr>))))"
  by pat_completeness auto
termination
  by (relation "measure (\<lambda>(cr, lg, d, required, got, st). length (rest_v2 st))")
    (auto dest!: find_attested_v2_bound take_v2_shrinks)

declare take_attested_v2.simps [simp del]

section \<open>The rest of the block\<close>

text \<open>
  The version 2 candidates that apply now, each with its position, its fee rate and the unspent
  outputs after it.
\<close>

definition v2_candidate ::
  "crypto \<Rightarrow> TransactionV2Domain \<Rightarrow> AddressNetwork \<Rightarrow> utxos \<Rightarrow> nat \<times> TransactionV2 \<Rightarrow>
     (nat \<times> u128 \<times> utxos) option" where
  "v2_candidate cr d network m e =
     (case apply_prevalidated_transaction_v2_to_utxos cr (snd e) d network m of
        Inl _ \<Rightarrow> None
      | Inr m' \<Rightarrow>
          (case encoded_size_bytes (snd e) d of
             Inl _ \<Rightarrow> None
           | Inr n \<Rightarrow>
               Some (fst e, if n = 0 then 0 else ucast (v2_fee (snd e)) * 1000000 div word_of_nat n, m')))"

definition best_v2 :: "crypto \<Rightarrow> TransactionV2Domain \<Rightarrow> AddressNetwork \<Rightarrow> Selecting \<Rightarrow> (nat \<times> u128 \<times> utxos) option" where
  "best_v2 cr d network st =
     max_by (\<lambda>(i, r, _) (j, q, _). r < q \<or> r = q \<and> j \<le> i)
       (List.map_filter (v2_candidate cr d network (sel_utxos st)) (enumerate 0 (rest_v2 st)))"

datatype Pick = PickLegacy nat | PickV2 nat utxos

text \<open>The better of the two best candidates; a legacy transaction wins a tie.\<close>

definition next_pick :: "crypto \<Rightarrow> Ledger \<Rightarrow> TransactionV2Domain \<Rightarrow> Selecting \<Rightarrow> Pick option" where
  "next_pick cr lg d st =
     (case (best_selectable_transaction_index cr (rest_legacy st) (sel_utxos st) None (transaction_signing_domain lg),
            best_v2 cr d (ledger_network lg) st) of
        (None, None) \<Rightarrow> None
      | (Some i, None) \<Rightarrow> Some (PickLegacy i)
      | (None, Some (j, rate, m)) \<Rightarrow> Some (PickV2 j m)
      | (Some i, Some (j, rate, m)) \<Rightarrow>
          Some (if fee_rate_key (rest_legacy st ! i) < rate then PickV2 j m else PickLegacy i))"

definition fits_block ::
  "Ledger \<Rightarrow> FinalizerMode \<Rightarrow> BurnBundleSection \<Rightarrow> BlockSelection \<Rightarrow> bool result" where
  "fits_block lg mode sec s =
     and_then (estimated_block_selection_size_bytes (compact_block_context lg) (sel_transactions s)
       (sel_transactions_v2 s) mode sec) (\<lambda>n.
     Inr (n \<le> max_block_bytes (launch_profile lg)))"

lemma map_filter_set: "x \<in> set (List.map_filter f xs) \<longleftrightarrow> (\<exists>y\<in>set xs. f y = Some x)"
  by (force simp: List.map_filter_def)

lemma max_by_in: "max_by le xs = Some x \<Longrightarrow> x \<in> set xs"
  by (rule max_by_member)

lemma best_selectable_spec:
  assumes "best_selectable_transaction_index cr txs m kind sd = Some i"
  shows "i < length txs \<and> (\<exists>m'. apply_transaction cr (txs ! i) m sd = Inr m')"
  using assms
  by (auto simp: best_selectable_transaction_index_def enumerate_eq_zip in_set_zip is_ok_iff dest!: max_by_in)

lemma v2_candidate_spec:
  "v2_candidate cr d network m e = Some (i, rate, m') \<Longrightarrow>
    i = fst e \<and> apply_prevalidated_transaction_v2_to_utxos cr (snd e) d network m = Inr m'"
  by (auto simp: v2_candidate_def split: sum.splits)

lemma best_v2_spec:
  assumes "best_v2 cr d network st = Some (i, rate, m)"
  shows "i < length (rest_v2 st) \<and>
    apply_prevalidated_transaction_v2_to_utxos cr (rest_v2 st ! i) d network (sel_utxos st) = Inr m"
  using assms
  by (auto simp: best_v2_def map_filter_set enumerate_eq_zip in_set_zip dest!: max_by_in v2_candidate_spec)

lemma next_pick_spec:
  assumes "next_pick cr lg d st = Some pick"
  shows "case pick of
      PickLegacy i \<Rightarrow> i < length (rest_legacy st) \<and>
        (\<exists>m. apply_transaction cr (rest_legacy st ! i) (sel_utxos st) (transaction_signing_domain lg) = Inr m)
    | PickV2 i m \<Rightarrow> i < length (rest_v2 st) \<and>
        apply_prevalidated_transaction_v2_to_utxos cr (rest_v2 st ! i) d (ledger_network lg) (sel_utxos st) = Inr m"
  using assms best_selectable_spec best_v2_spec
  by (fastforce simp: next_pick_def split: option.splits if_splits)

function fill_selection ::
  "crypto \<Rightarrow> Ledger \<Rightarrow> TransactionV2Domain \<Rightarrow> FinalizerMode \<Rightarrow> BurnBundleSection \<Rightarrow> Selecting \<Rightarrow>
     BlockSelection result" where
  "fill_selection cr lg d mode sec st =
     (if max_block_transactions (launch_profile lg) \<le> selection_count (chosen st) then Inr (chosen st)
      else case next_pick cr lg d st of
        None \<Rightarrow> Inr (chosen st)
      | Some (PickV2 i m) \<Rightarrow>
          (let st' = st\<lparr>rest_v2 := list_remove i (rest_v2 st)\<rparr> in
           and_then (v2_encode (rest_v2 st ! i) d) (\<lambda>bs.
           let s = push_v2 (hex_encode bs) (chosen st) in
           and_then (fits_block lg mode sec s) (\<lambda>fits.
           fill_selection cr lg d mode sec (if fits then st'\<lparr>chosen := s, sel_utxos := m\<rparr> else st'))))
      | Some (PickLegacy i) \<Rightarrow>
          (let tx = rest_legacy st ! i; st' = st\<lparr>rest_legacy := list_remove i (rest_legacy st)\<rparr>;
               s = push_legacy tx (chosen st) in
           and_then (fits_block lg mode sec s) (\<lambda>fits.
           if fits
           then
             and_then (apply_transaction cr tx (sel_utxos st) (transaction_signing_domain lg)) (\<lambda>m.
             fill_selection cr lg d mode sec (st'\<lparr>chosen := s, sel_utxos := m\<rparr>))
           else fill_selection cr lg d mode sec st')))"
  by pat_completeness auto
termination
  by (relation "measure (\<lambda>(cr, lg, d, mode, sec, st). length (rest_legacy st) + length (rest_v2 st))")
    (auto dest!: next_pick_spec)

declare fill_selection.simps [simp del]

section \<open>The whole selection\<close>

definition select_block_transactions_with_required_burn_owner ::
  "crypto \<Rightarrow> Ledger \<Rightarrow> string option \<Rightarrow> string option \<Rightarrow> FinalizerMode \<Rightarrow> BurnBundleSection \<Rightarrow>
     BlockSelection result" where
  "select_block_transactions_with_required_burn_owner cr lg required_burn_owner required_burn_signature mode sec =
     and_then (transaction_v2_domain lg) (\<lambda>d.
     let required = set (map tx_signature (section_required_burns sec));
         required_v2 = set (section_required_burns_v2 sec);
         st0 = start_selecting cr lg in
     and_then (choose_anchor cr (transaction_signing_domain lg) d required_burn_owner required_burn_signature st0)
       (\<lambda>(anchor_index, anchor_v2_index).
     and_then (take_legacy_anchor cr lg required_burn_owner required anchor_index st0) (\<lambda>(got, st1).
     and_then (take_v2_anchor cr d (ledger_network lg) required_burn_owner required_v2 anchor_v2_index st1)
       (\<lambda>(got_v2, st2).
     and_then (take_attested_burns cr lg required got st2) (\<lambda>st3.
     and_then (take_attested_v2 cr lg d required_v2 got_v2 st3) (\<lambda>(got_v2', st4).
     if card got_v2' \<noteq> card required_v2 then bail ''attested transaction v2 burn is not pending''
     else
       and_then (fits_block lg mode sec (chosen st4)) (\<lambda>fits.
       if \<not> fits then bail ''required block content does not fit in the block''
       else fill_selection cr lg d mode sec st4)))))))"

definition select_block_transactions_with_burn_section ::
  "crypto \<Rightarrow> Ledger \<Rightarrow> string \<Rightarrow> string option \<Rightarrow> BurnBundleSection \<Rightarrow> BlockSelection result" where
  "select_block_transactions_with_burn_section cr lg owner required_burn_signature sec =
     select_block_transactions_with_required_burn_owner cr lg (Some owner) required_burn_signature TicketMode sec"

definition select_recovery_block_transactions_with_burn_section ::
  "crypto \<Rightarrow> Ledger \<Rightarrow> string \<Rightarrow> string option \<Rightarrow> BurnBundleSection \<Rightarrow> BlockSelection result" where
  "select_recovery_block_transactions_with_burn_section cr lg owner required_burn_signature sec =
     select_block_transactions_with_required_burn_owner cr lg (Some owner) required_burn_signature RecoveryMode sec"

end
