(* ===== verification/Tx_Builders.thy ===== *)
theory Tx_Builders
  imports Block_Selection Wallet_Facts Mempool
begin

text \<open>
  The builders of legacy transactions (\<open>domain/ledger_builders.rs\<close>, \<open>domain/ledger_pending.rs\<close>,
  \<open>domain/ledger_queries.rs\<close>): the choice of inputs, transfers, burns with their anchors, and mine
  transactions. Every builder ends with the checks that a submission makes.
\<close>

section \<open>Spendable outputs\<close>

definition available_utxos_for_address :: "crypto \<Rightarrow> Ledger \<Rightarrow> string \<Rightarrow> (OutPoint \<times> TxOutput) list result" where
  "available_utxos_for_address cr lg address =
     and_then (utxos_after_all_spendable_pending cr lg) (\<lambda>m.
     Inr (filter (\<lambda>(p, output). out_address output = address) (bt_entries m)))"

definition available_utxos_for_addresses ::
  "crypto \<Rightarrow> Ledger \<Rightarrow> string set \<Rightarrow> (OutPoint \<times> TxOutput) list result" where
  "available_utxos_for_addresses cr lg addresses =
     and_then (utxos_after_all_spendable_pending cr lg) (\<lambda>m.
     Inr (filter (\<lambda>(p, output). out_address output \<in> addresses) (bt_entries m)))"

definition unsigned_input :: "string \<Rightarrow> OutPoint \<Rightarrow> UnsignedTxInput" where
  "unsigned_input owner p = \<lparr>uin_outpoint = p, uin_owner = owner\<rparr>"

text \<open>Outputs of an address in the order of the map, until they cover the amount.\<close>

fun select_inputs_from ::
  "string \<Rightarrow> Amount \<Rightarrow> Amount \<Rightarrow> (OutPoint \<times> TxOutput) list \<Rightarrow> (UnsignedTxInput list \<times> Amount) result" where
  "select_inputs_from address amt running [] = bail (''insufficient funds for '' @ address)"
| "select_inputs_from address amt running ((p, output) # es) =
     (if out_address output \<noteq> address then select_inputs_from address amt running es
      else
        and_then (ok_or ''selected input total overflows'' (checked_add running (out_amount output))) (\<lambda>running'.
        if amt \<le> running' then Inr ([unsigned_input address p], running')
        else
          and_then (select_inputs_from address amt running' es) (\<lambda>(ins, input_total).
          Inr (unsigned_input address p # ins, input_total))))"

definition select_inputs :: "crypto \<Rightarrow> Ledger \<Rightarrow> string \<Rightarrow> Amount \<Rightarrow> (UnsignedTxInput list \<times> Amount) result" where
  "select_inputs cr lg address amt =
     select_inputs_from address amt 0 (bt_entries (utxos_after_spendable_pending cr lg))"

definition select_outpoint_step ::
  "utxos \<Rightarrow> string \<Rightarrow> OutPoint set \<times> Amount \<Rightarrow> OutPoint \<Rightarrow> (OutPoint set \<times> Amount) result" where
  "select_outpoint_step m address s p = (case s of (seen, running) \<Rightarrow>
     if p \<in> seen then bail (''selected UTXO '' @ outpoint_id p @ '' is duplicated'')
     else
       and_then (ok_or (''selected UTXO '' @ outpoint_id p @ '' is not spendable'') (bt_get m p)) (\<lambda>output.
       if out_address output \<noteq> address
       then bail (''selected UTXO '' @ outpoint_id p @ '' is not owned by '' @ address)
       else
         and_then (ok_or ''selected input total overflows'' (checked_add running (out_amount output))) (\<lambda>running'.
         Inr (insert p seen, running'))))"

definition select_inputs_by_outpoint ::
  "crypto \<Rightarrow> Ledger \<Rightarrow> string \<Rightarrow> Amount \<Rightarrow> OutPoint list \<Rightarrow> (UnsignedTxInput list \<times> Amount) result" where
  "select_inputs_by_outpoint cr lg address amt outpoints =
     (if outpoints = [] then bail ''at least one UTXO must be selected''
      else
        and_then (try_fold (select_outpoint_step (utxos_after_spendable_pending cr lg) address) ({}, 0) outpoints)
          (\<lambda>(seen, input_total).
        if input_total < amt then bail ''selected UTXOs do not cover amount plus fee''
        else Inr (map (unsigned_input address) outpoints, input_total)))"

section \<open>Transfers\<close>

definition own_output :: "Wallet \<Rightarrow> Amount \<Rightarrow> TxOutput list" where
  "own_output w change =
     (if 0 < change then [\<lparr>out_address = wallet_address w, out_amount = change\<rparr>] else [])"

definition build_transfer_with_inputs ::
  "crypto \<Rightarrow> Ledger \<Rightarrow> Wallet \<Rightarrow> string \<Rightarrow> Amount \<Rightarrow> Amount \<Rightarrow> OutPoint list \<Rightarrow> Transaction result" where
  "build_transfer_with_inputs cr lg w to amt f outpoints =
     and_then (validate_address to ''transfer recipient'') (\<lambda>_.
     and_then (ok_or ''transfer amount plus fee overflows'' (checked_add amt f)) (\<lambda>required.
     and_then (select_inputs_by_outpoint cr lg (wallet_address w) required outpoints) (\<lambda>(ins, input_total).
     and_then (ok_or ''selected inputs do not cover transfer'' (checked_sub input_total required)) (\<lambda>change.
     and_then (sign_transaction cr
       (UTransfer ins (\<lparr>out_address = to, out_amount = amt\<rparr> # own_output w change) f) w
       (transaction_signing_domain lg)) (\<lambda>tx.
     and_then (validate_new_transaction cr lg tx) (\<lambda>_. Inr tx))))))"

text \<open>Outputs by falling amount until they cover what is required, and their total.\<close>

fun gather :: "Amount \<Rightarrow> Amount \<Rightarrow> (OutPoint \<times> TxOutput) list \<Rightarrow> (OutPoint list \<times> Amount) result" where
  "gather required running [] = Inr ([], running)"
| "gather required running ((p, output) # es) =
     and_then (ok_or ''selected input total overflows'' (checked_add running (out_amount output))) (\<lambda>running'.
     if required \<le> running' then Inr ([p], running')
     else and_then (gather required running' es) (\<lambda>(ps, input_total). Inr (p # ps, input_total)))"

definition by_falling_amount :: "(OutPoint \<times> TxOutput) list \<Rightarrow> (OutPoint \<times> TxOutput) list" where
  "by_falling_amount es = sort_key (\<lambda>(p, output). (NOT (out_amount output), p)) es"

text \<open>\<open>min_by_key\<close> of the outputs that suffice alone, by amt and position.\<close>

definition smallest_sufficient :: "Amount \<Rightarrow> (OutPoint \<times> TxOutput) list \<Rightarrow> (OutPoint \<times> TxOutput) option" where
  "smallest_sufficient required es =
     (case sort_key (\<lambda>(p, output). (out_amount output, p))
         (filter (\<lambda>(p, output). required \<le> out_amount output) es) of
        [] \<Rightarrow> None | e # _ \<Rightarrow> Some e)"

definition build_transfer ::
  "crypto \<Rightarrow> Ledger \<Rightarrow> Wallet \<Rightarrow> string \<Rightarrow> Amount \<Rightarrow> Amount \<Rightarrow> Transaction result" where
  "build_transfer cr lg w to amt f =
     and_then (validate_address to ''transfer recipient'') (\<lambda>_.
     and_then (ok_or ''transfer amount plus fee overflows'' (checked_add amt f)) (\<lambda>required.
     and_then (available_utxos_for_address cr lg (wallet_address w)) (\<lambda>available.
     case smallest_sufficient required available of
       Some e \<Rightarrow> build_transfer_with_inputs cr lg w to amt f [fst e]
     | None \<Rightarrow>
         and_then (gather required 0 (by_falling_amount available)) (\<lambda>(points, input_total).
         if input_total < required then bail (''insufficient funds for '' @ wallet_address w)
         else build_transfer_with_inputs cr lg w to amt f points))))"

section \<open>Burns\<close>

definition public_burn_anchor :: "Ledger \<Rightarrow> string option" where
  "public_burn_anchor lg =
     (if TIP_BOUND_BURN_ACTIVATION_HEIGHT \<le> saturating_add (ledger_height lg) 2
      then Some (block_hash (tip lg)) else None)"

definition next_block_burn_anchor :: "Ledger \<Rightarrow> string option" where
  "next_block_burn_anchor lg =
     (if TIP_BOUND_BURN_ACTIVATION_HEIGHT \<le> saturating_add (ledger_height lg) 1
      then Some (prev_hash (tip lg)) else None)"

definition build_burn_from_inputs ::
  "crypto \<Rightarrow> Ledger \<Rightarrow> Wallet \<Rightarrow> Amount \<Rightarrow> Amount \<Rightarrow> UnsignedTxInput list \<Rightarrow> Amount \<Rightarrow> string option \<Rightarrow>
     Transaction result" where
  "build_burn_from_inputs cr lg w amt f ins input_total anchor =
     (let signing_height = (if anchor = Some (tip_hash lg) then saturating_add (ledger_height lg) 2
            else saturating_add (ledger_height lg) 1) in
      and_then (ok_or ''burn amount plus fee overflows'' (checked_add amt f)) (\<lambda>required.
      and_then (ok_or ''selected inputs do not cover burn'' (checked_sub input_total required)) (\<lambda>change.
      and_then (sign_transaction cr (UBurn ins (own_output w change) amt f anchor) w
        (transaction_signing_domain_at lg signing_height)) (\<lambda>tx.
      and_then (validate_new_transaction cr lg tx) (\<lambda>_. Inr tx)))))"

definition build_burn :: "crypto \<Rightarrow> Ledger \<Rightarrow> Wallet \<Rightarrow> Amount \<Rightarrow> Amount \<Rightarrow> Transaction result" where
  "build_burn cr lg w amt f =
     and_then (ok_or ''burn amount plus fee overflows'' (checked_add amt f)) (\<lambda>required.
     and_then (select_inputs cr lg (wallet_address w) required) (\<lambda>(ins, input_total).
     build_burn_from_inputs cr lg w amt f ins input_total (public_burn_anchor lg)))"

definition build_burn_with_inputs ::
  "crypto \<Rightarrow> Ledger \<Rightarrow> Wallet \<Rightarrow> Amount \<Rightarrow> Amount \<Rightarrow> OutPoint list \<Rightarrow> Transaction result" where
  "build_burn_with_inputs cr lg w amt f outpoints =
     and_then (ok_or ''burn amount plus fee overflows'' (checked_add amt f)) (\<lambda>required.
     and_then (select_inputs_by_outpoint cr lg (wallet_address w) required outpoints) (\<lambda>(ins, input_total).
     build_burn_from_inputs cr lg w amt f ins input_total (public_burn_anchor lg)))"

definition build_burn_for_next_block_with_inputs ::
  "crypto \<Rightarrow> Ledger \<Rightarrow> Wallet \<Rightarrow> Amount \<Rightarrow> Amount \<Rightarrow> OutPoint list \<Rightarrow> Transaction result" where
  "build_burn_for_next_block_with_inputs cr lg w amt f outpoints =
     and_then (ok_or ''burn amount plus fee overflows'' (checked_add amt f)) (\<lambda>required.
     and_then (select_inputs_by_outpoint cr lg (wallet_address w) required outpoints) (\<lambda>(ins, input_total).
     build_burn_from_inputs cr lg w amt f ins input_total (next_block_burn_anchor lg)))"

section \<open>Mine transactions\<close>

definition current_mine_difficulty_bits :: "Ledger \<Rightarrow> u32" where
  "current_mine_difficulty_bits lg = mine_difficulty_bits_for_anchor_height lg (height (tip lg))"

definition validate_mine_reward_address :: "crypto \<Rightarrow> Ledger \<Rightarrow> string \<Rightarrow> unit result" where
  "validate_mine_reward_address cr lg recipient =
     (let h = saturating_add (ledger_height lg) 1 in
      if h < HYBRID_REWARD_ACTIVATION_HEIGHT then validate_address recipient ''mine recipient''
      else
        and_then (decode_versioned_address cr recipient (ledger_network lg)) (\<lambda>a.
        if addr_version a \<noteq> HybridKeyCommitment
        then bail (''mine reward must use a hybrid address at height '' @ show_u64 h) else Inr ()))"

text \<open>The range \<open>0..u64::MAX\<close> leaves out the last nonce.\<close>

function build_mine_loop :: "crypto \<Rightarrow> Ledger \<Rightarrow> string \<Rightarrow> nat \<Rightarrow> Transaction result" where
  "build_mine_loop cr lg recipient nonce =
     (if 2 ^ 64 - 1 \<le> nonce then bail ''could not find valid mine proof''
      else
        (let bits = current_mine_difficulty_bits lg; anchor = block_hash (tip lg); n = word_of_nat nonce in
         and_then (mine_signature cr (transaction_signing_domain lg) recipient anchor 1 n bits) (\<lambda>sig.
         if \<not> hash_meets_difficulty sig bits \<or> has_transaction lg sig
         then build_mine_loop cr lg recipient (nonce + 1)
         else
           (let tx = Mine recipient anchor 1 n bits None sig in
            and_then (validate_new_transaction cr lg tx) (\<lambda>_. Inr tx)))))"
  by pat_completeness auto
termination
  by (relation "measure (\<lambda>(cr, lg, recipient, nonce). 2 ^ 64 - nonce)") auto

declare build_mine_loop.simps [simp del]

definition build_mine :: "crypto \<Rightarrow> Ledger \<Rightarrow> string \<Rightarrow> Transaction result" where
  "build_mine cr lg recipient =
     and_then (validate_mine_reward_address cr lg recipient) (\<lambda>_. build_mine_loop cr lg recipient 0)"

definition mine_search_work ::
  "string \<Rightarrow> string \<Rightarrow> u64 \<Rightarrow> u64 \<Rightarrow> u64 \<Rightarrow> u32 \<Rightarrow> TransactionSigningDomain \<Rightarrow> MineSearchWork" where
  "mine_search_work recipient anchor salt start_nonce max_attempts bits sd =
     \<lparr>work_recipient = recipient, work_anchor = anchor, work_salt = salt, work_start_nonce = start_nonce,
      work_max_attempts = max_attempts, work_difficulty_bits = bits, work_signing_domain = sd\<rparr>"

definition prepare_mine_search_work ::
  "crypto \<Rightarrow> Ledger \<Rightarrow> string \<Rightarrow> u64 \<Rightarrow> u64 \<Rightarrow> u64 \<Rightarrow> MineSearchWork result" where
  "prepare_mine_search_work cr lg recipient salt start_nonce max_attempts =
     and_then (validate_mine_reward_address cr lg recipient) (\<lambda>_.
     Inr (mine_search_work recipient (block_hash (tip lg)) salt start_nonce max_attempts
       (current_mine_difficulty_bits lg) (transaction_signing_domain lg)))"

text \<open>A proof that is already known does not end the search.\<close>

function search_mine_loop ::
  "crypto \<Rightarrow> Ledger \<Rightarrow> MineSearchWork \<Rightarrow> u64 \<Rightarrow> u64 \<Rightarrow> MineSearchOutcome result" where
  "search_mine_loop cr lg w attempts nonce =
     (if attempts < work_max_attempts w then
        and_then (mine_signature cr (work_signing_domain w) (work_recipient w) (work_anchor w)
          (work_salt w) nonce (work_difficulty_bits w)) (\<lambda>sig.
        let attempts' = saturating_add attempts 1;
            next_nonce = (case checked_add nonce 1 of Some n \<Rightarrow> n | None \<Rightarrow> 0);
            tx = Mine (work_recipient w) (work_anchor w) (work_salt w) nonce (work_difficulty_bits w) None sig in
        if hash_meets_difficulty sig (work_difficulty_bits w) \<and> \<not> has_transaction lg sig
        then
          and_then (validate_new_transaction cr lg tx) (\<lambda>_.
          Inr \<lparr>mso_transaction = Some tx, mso_next_nonce = next_nonce, mso_attempts = attempts'\<rparr>)
        else search_mine_loop cr lg w attempts' next_nonce)
      else Inr \<lparr>mso_transaction = None, mso_next_nonce = nonce, mso_attempts = attempts\<rparr>)"
  by pat_completeness auto
termination
  by (relation "measure (\<lambda>(cr, lg, w, attempts, nonce). unat (work_max_attempts w) - unat attempts)")
    (auto simp: word_less_nat_alt saturating_succ_less)

declare search_mine_loop.simps [simp del]

definition search_mine ::
  "crypto \<Rightarrow> Ledger \<Rightarrow> string \<Rightarrow> u64 \<Rightarrow> u64 \<Rightarrow> u64 \<Rightarrow> MineSearchOutcome result" where
  "search_mine cr lg recipient salt start_nonce max_attempts =
     and_then (prepare_mine_search_work cr lg recipient salt start_nonce max_attempts) (\<lambda>w.
     search_mine_loop cr lg w 0 start_nonce)"

definition ledger_stratum_mine_template ::
  "crypto \<Rightarrow> Ledger \<Rightarrow> string \<Rightarrow> string \<Rightarrow> u64 \<Rightarrow> u32 \<Rightarrow> StratumMineTemplate result" where
  "ledger_stratum_mine_template cr lg recipient anchor salt bits =
     and_then (validate_mine_reward_address cr lg recipient) (\<lambda>_.
     stratum_mine_template cr (transaction_signing_domain lg) recipient anchor salt bits)"

definition build_stratum_mine ::
  "crypto \<Rightarrow> Ledger \<Rightarrow> StratumMineTemplate \<Rightarrow> bytes \<Rightarrow> bytes \<Rightarrow> Transaction result" where
  "build_stratum_mine cr lg t extranonce2 header_nonce =
     (let nonce = pack_stratum_nonce extranonce2 header_nonce in
      and_then (stratum_mine_header_bytes cr (transaction_signing_domain lg) (tpl_recipient t) (tpl_anchor t)
        (tpl_salt t) nonce (tpl_difficulty_bits t)) (\<lambda>header.
      let tx = Mine (tpl_recipient t) (tpl_anchor t) (tpl_salt t) nonce (tpl_difficulty_bits t)
            (Some (hex_encode header)) (stratum_mine_signature cr header) in
      and_then (validate_new_transaction cr lg tx) (\<lambda>_. Inr tx)))"

end
