(* ===== verification/V2_Builders.thy ===== *)
theory V2_Builders
  imports Wallet_Discovery Tx_Builders
begin

text \<open>
  The builders of version 2 transactions (\<open>domain/ledger_builders.rs\<close>): migrations of legacy
  outputs, transfers, consolidations and burns of a hybrid wallet. Each of them discovers the
  wallet's addresses, chooses inputs, signs one authorization per input or per owner, and checks
  the authorizations and the block budget of what it returns.
\<close>

section \<open>Signing and budgets\<close>

definition sign_owner_step ::
  "crypto \<Rightarrow> Hybrid_Wallet \<Rightarrow> bytes \<Rightarrow> bool \<Rightarrow> VersionedAddress list \<times> V2SpendingAuthorization list \<Rightarrow>
     VersionedAddress \<Rightarrow> (VersionedAddress list \<times> V2SpendingAuthorization list) result" where
  "sign_owner_step cr w payload aggregate s owner = (case s of (signed_owners, auths) \<Rightarrow>
     if aggregate \<and> owner \<in> set signed_owners then Inr s
     else
       and_then (sign_v2_authorization cr w owner payload) (\<lambda>auth.
       Inr (signed_owners @ [owner], auths @ [auth])))"

definition sign_v2_authorizations ::
  "crypto \<Rightarrow> Hybrid_Wallet \<Rightarrow> VersionedAddress list \<Rightarrow> bytes \<Rightarrow> u64 \<Rightarrow> V2SpendingAuthorization list result" where
  "sign_v2_authorizations cr w owners payload h =
     and_then (try_fold (sign_owner_step cr w payload
       (TRANSACTION_V2_AUTHORIZATION_AGGREGATION_ACTIVATION_HEIGHT \<le> h)) ([], []) owners) (\<lambda>(_, auths).
     Inr auths)"

definition ensure_v2_transaction_within_block_budget ::
  "Ledger \<Rightarrow> TransactionV2 \<Rightarrow> TransactionV2Domain \<Rightarrow> nat \<Rightarrow> unit result" where
  "ensure_v2_transaction_within_block_budget lg tx d max_bytes =
     and_then (v2_encode tx d) (\<lambda>bs.
     if max_bytes < length bs
     then bail (''transaction v2 requires '' @ dec (length bs) @ '' bytes and exceeds the '' @ dec max_bytes @
       ''-byte block budget'')
     else ensure_transaction_v2_fits_empty_block (compact_block_context lg) (hex_encode bs) max_bytes)"

definition ensure_v2_transaction_size_within_block_budget :: "Ledger \<Rightarrow> nat \<Rightarrow> nat \<Rightarrow> unit result" where
  "ensure_v2_transaction_size_within_block_budget lg n max_bytes =
     (if max_bytes < n
      then bail (''transaction v2 requires '' @ dec n @ '' bytes and exceeds the '' @ dec max_bytes @
        ''-byte block budget'')
      else ensure_transaction_v2_fits_empty_block (compact_block_context lg) (concat (replicate n ''00'')) max_bytes)"

fun set_authorizations :: "V2SpendingAuthorization list \<Rightarrow> TransactionV2 \<Rightarrow> TransactionV2" where
  "set_authorizations auths (V2Migration ins outs f _) = V2Migration ins outs f auths"
| "set_authorizations auths (V2Transfer ins outs f _) = V2Transfer ins outs f auths"
| "set_authorizations auths (V2Burn ins change a f anchor _) = V2Burn ins change a f anchor auths"
| "set_authorizations auths tx = tx"

text \<open>
  The end that all builders share: the authorizations over the signing bytes of the unsigned
  transaction, the policy of the next height, and the verification.
\<close>

definition sign_and_verify ::
  "crypto \<Rightarrow> Ledger \<Rightarrow> Hybrid_Wallet \<Rightarrow> TransactionV2Domain \<Rightarrow> TransactionV2 \<Rightarrow> TransactionV2 result" where
  "sign_and_verify cr lg w d draft =
     (let next_height = saturating_add (ledger_height lg) 1 in
      and_then (v2_signing_bytes draft d) (\<lambda>payload.
      and_then (sign_v2_authorizations cr w (all_input_owners draft) payload next_height) (\<lambda>auths.
      let tx = set_authorizations auths draft in
      and_then (validate_authorization_policy_at_height cr tx next_height) (\<lambda>_.
      and_then (verify_authorizations cr tx d) (\<lambda>_. Inr tx)))))"

definition sign_within_budget ::
  "crypto \<Rightarrow> Ledger \<Rightarrow> Hybrid_Wallet \<Rightarrow> TransactionV2Domain \<Rightarrow> TransactionV2 \<Rightarrow> TransactionV2 result" where
  "sign_within_budget cr lg w d draft =
     and_then (sign_and_verify cr lg w d draft) (\<lambda>tx.
     and_then (ensure_v2_transaction_within_block_budget lg tx d (max_block_bytes (launch_profile lg))) (\<lambda>_. Inr tx))"

section \<open>Migration\<close>

definition build_legacy_transaction_id :: "string \<Rightarrow> LegacyTransactionId result" where
  "build_legacy_transaction_id txid =
     and_then (with_context ''legacy outpoint ID is not hexadecimal'' (decode_hex txid)) (\<lambda>bs.
     if length bs = 32 then Inr (LegacyHash bs)
     else if length bs = 64 then Inr (LegacySignature bs)
     else bail (''legacy outpoint ID must contain 32 or 64 bytes, got '' @ dec (length bs)))"

definition migration_step ::
  "VersionedAddress \<Rightarrow> Amount \<times> TransactionV2LegacyInput list \<Rightarrow> OutPoint \<times> TxOutput \<Rightarrow>
     (Amount \<times> TransactionV2LegacyInput list) result" where
  "migration_step owner s e = (case s of (running, ins) \<Rightarrow> (case e of (p, output) \<Rightarrow>
     and_then (ok_or ''migration input total overflows'' (checked_add running (out_amount output))) (\<lambda>running'.
     and_then (build_legacy_transaction_id (op_txid p)) (\<lambda>i.
     Inr (running', ins @ [\<lparr>leg_id = i, leg_index = op_index p, leg_owner = owner\<rparr>])))))"

definition build_v2_migration_from_available ::
  "crypto \<Rightarrow> Ledger \<Rightarrow> Hybrid_Wallet \<Rightarrow> Amount \<Rightarrow> (OutPoint \<times> TxOutput) list \<Rightarrow> bool \<Rightarrow> TransactionV2 result" where
  "build_v2_migration_from_available cr lg w f available enforce_block_budget =
     and_then (try_fold (migration_step (legacy_versioned_address cr w)) (0, []) available) (\<lambda>(input_total, ins).
     and_then (ok_or ''migration fee exceeds available value'' (checked_sub input_total f)) (\<lambda>migrated_amount.
     if migrated_amount = 0 then bail ''migration output must be greater than zero''
     else
       and_then (transaction_v2_domain lg) (\<lambda>d.
       let draft = V2Migration ins
             [\<lparr>v2out_address = hybrid_versioned_address cr w, v2out_amount = migrated_amount\<rparr>] f [] in
       (if enforce_block_budget then sign_within_budget else sign_and_verify) cr lg w d draft)))"

definition build_v2_migration :: "crypto \<Rightarrow> Ledger \<Rightarrow> Hybrid_Wallet \<Rightarrow> Amount \<Rightarrow> TransactionV2 result" where
  "build_v2_migration cr lg w f =
     and_then (available_utxos_for_address cr lg (wallet_address w)) (\<lambda>available.
     if available = [] then bail ''no legacy outputs are available for migration''
     else build_v2_migration_from_available cr lg w f available True)"

text \<open>
  The next number of inputs, in proportion to the budget and less than the present number. The
  source computes with 128 bits, which hold the product, and truncates to \<open>usize\<close>.
\<close>

definition smaller_batch :: "nat \<Rightarrow> nat \<Rightarrow> nat \<Rightarrow> nat" where
  "smaller_batch input_count max_bytes n =
     max 1 (min (input_count * max_bytes div n mod 2 ^ 64) (input_count - 1))"


lemma smaller_batch_less: "1 < input_count \<Longrightarrow> smaller_batch input_count max_bytes n < input_count"
  by (simp add: smaller_batch_def)

lemma no_empty_migration: "build_v2_migration_from_available cr lg w f [] b \<noteq> Inr tx"
proof -
  have "checked_sub (0 :: Amount) f = Some m \<Longrightarrow> m = 0" for m
    by (auto simp: checked_sub_def split: if_splits)
  then show ?thesis
    by (auto simp: build_v2_migration_from_available_def and_then_eq_Inr ok_or_eq_Inr if_bail_eq_Inr)
qed

lemma migration_shrinks:
  assumes "build_v2_migration_from_available cr lg w f (take input_count available) b = Inr tx" and "input_count \<noteq> Suc 0"
  shows "smaller_batch input_count max_bytes n < input_count"
proof -
  have "input_count \<noteq> 0" using assms(1) no_empty_migration [of cr lg w f b tx] by (metis take_0)
  then show ?thesis using assms(2) by (simp add: smaller_batch_less)
qed

function migration_batch_loop ::
  "crypto \<Rightarrow> Ledger \<Rightarrow> Hybrid_Wallet \<Rightarrow> Amount \<Rightarrow> (OutPoint \<times> TxOutput) list \<Rightarrow> nat \<Rightarrow> TransactionV2 result" where
  "migration_batch_loop cr lg w f available input_count =
     and_then (build_v2_migration_from_available cr lg w f (take input_count available) False) (\<lambda>tx.
     and_then (transaction_v2_domain lg) (\<lambda>d.
     and_then (encoded_size_bytes tx d) (\<lambda>n.
     let max_bytes = max_block_bytes (launch_profile lg) in
     if is_ok (ensure_v2_transaction_within_block_budget lg tx d max_bytes) then Inr tx
     else if input_count = 1
     then bail (''one-input migration requires '' @ dec n @ '' bytes and exceeds the '' @ dec max_bytes @
       ''-byte block budget'')
     else migration_batch_loop cr lg w f available (smaller_batch input_count max_bytes n))))"
  by pat_completeness auto
termination
  by (relation "measure (\<lambda>(cr, lg, w, f, available, input_count). input_count)") (auto intro: migration_shrinks)

declare migration_batch_loop.simps [simp del]

definition build_v2_migration_batch :: "crypto \<Rightarrow> Ledger \<Rightarrow> Hybrid_Wallet \<Rightarrow> Amount \<Rightarrow> TransactionV2 result" where
  "build_v2_migration_batch cr lg w f =
     and_then (available_utxos_for_address cr lg (wallet_address w)) (\<lambda>available.
     if available = [] then bail ''no legacy outputs are available for migration''
     else migration_batch_loop cr lg w f available (min (length available) 1000))"

section \<open>Transfers\<close>

type_synonym owned_output = "OutPoint \<times> TxOutput \<times> VersionedAddress"

text \<open>The spendable outputs of one hybrid address, each with its owner.\<close>

definition owned_outputs_of :: "crypto \<Rightarrow> Ledger \<Rightarrow> VersionedAddress \<Rightarrow> owned_output list result" where
  "owned_outputs_of cr lg owner =
     and_then (encode_versioned_address cr owner (ledger_network lg)) (\<lambda>owner_address.
     and_then (available_utxos_for_address cr lg owner_address) (\<lambda>es.
     Inr (map (\<lambda>(p, output). (p, output, owner)) es)))"

definition owned_outputs ::
  "crypto \<Rightarrow> Ledger \<Rightarrow> Hybrid_Wallet \<Rightarrow> owned_output list result \<times> Hybrid_Wallet" where
  "owned_outputs cr lg w =
     st_then (wallet_owned_hybrid_addresses cr lg w) (\<lambda>owners w'.
     (and_then (try_map (owned_outputs_of cr lg) owners) (\<lambda>ess. Inr (concat ess)), w'))"

definition owned_by_falling_amount :: "owned_output list \<Rightarrow> owned_output list" where
  "owned_by_falling_amount es = sort_key (\<lambda>(p, output, owner). (NOT (out_amount output), p)) es"

definition owned_input :: "OutPoint \<Rightarrow> VersionedAddress \<Rightarrow> TransactionV2Input result" where
  "owned_input p owner =
     and_then (with_context ''transaction v2 outpoint ID must be a 32-byte hash'' (decode_hex_array 32 (op_txid p)))
       (\<lambda>txid. Inr \<lparr>v2in_txid = txid, v2in_index = op_index p, v2in_owner = owner\<rparr>)"

text \<open>Inputs in the given order until they cover what is required, and their total.\<close>

fun gather_v2 :: "Amount \<Rightarrow> Amount \<Rightarrow> owned_output list \<Rightarrow> (TransactionV2Input list \<times> Amount) result" where
  "gather_v2 required running [] = Inr ([], running)"
| "gather_v2 required running ((p, output, owner) # es) =
     and_then (ok_or ''transaction v2 input total overflows'' (checked_add running (out_amount output))) (\<lambda>running'.
     and_then (owned_input p owner) (\<lambda>i.
     if required \<le> running' then Inr ([i], running')
     else and_then (gather_v2 required running' es) (\<lambda>(ins, input_total). Inr (i # ins, input_total))))"

text \<open>
  The change goes to the current external address. The callers have checked that the inputs cover
  the amount and the fee, so that the subtraction does not wrap.
\<close>

definition finish_v2_transfer ::
  "crypto \<Rightarrow> Ledger \<Rightarrow> Hybrid_Wallet \<Rightarrow> VersionedAddress \<Rightarrow> Amount \<Rightarrow> Amount \<Rightarrow> TransactionV2Input list \<Rightarrow> Amount \<Rightarrow>
     TransactionV2 result \<times> Hybrid_Wallet" where
  "finish_v2_transfer cr lg w recipient amt f ins input_total =
     st_check (ok_or ''transfer amount plus fee overflows'' (checked_add amt f)) w (\<lambda>required.
     let change = input_total - required in
     st_then
       (if 0 < change then
          st_then (wallet_external_addresses cr lg w) (\<lambda>as w'.
          (and_then (last_address ''wallet change address is unavailable'' as) (\<lambda>a.
             Inr [\<lparr>v2out_address = a, v2out_amount = change\<rparr>]), w'))
        else (Inr [], w)) (\<lambda>change_outputs w'.
     (and_then (transaction_v2_domain lg) (\<lambda>d.
        sign_within_budget cr lg w' d
          (V2Transfer ins (\<lparr>v2out_address = recipient, v2out_amount = amt\<rparr> # change_outputs) f [])), w')))"

definition check_v2_transfer :: "VersionedAddress \<Rightarrow> Amount \<Rightarrow> unit result" where
  "check_v2_transfer recipient amt =
     (if addr_version recipient \<noteq> HybridKeyCommitment then bail ''transaction v2 recipient must use address v1''
      else if amt = 0 then bail ''transfer amount must be greater than zero''
      else Inr ())"

definition build_v2_transfer ::
  "crypto \<Rightarrow> Ledger \<Rightarrow> Hybrid_Wallet \<Rightarrow> VersionedAddress \<Rightarrow> Amount \<Rightarrow> Amount \<Rightarrow>
     TransactionV2 result \<times> Hybrid_Wallet" where
  "build_v2_transfer cr lg w recipient amt f =
     st_check (check_v2_transfer recipient amt) w (\<lambda>_.
     st_check (ok_or ''transfer amount plus fee overflows'' (checked_add amt f)) w (\<lambda>required.
     st_then (owned_outputs cr lg w) (\<lambda>available w'.
     st_check (gather_v2 required 0 (owned_by_falling_amount available)) w' (\<lambda>(ins, input_total).
     if input_total < required then (bail ''insufficient hybrid funds'', w')
     else finish_v2_transfer cr lg w' recipient amt f ins input_total))))"

definition select_owned_step ::
  "(OutPoint, TxOutput \<times> VersionedAddress) btree_map \<Rightarrow> OutPoint set \<times> Amount \<times> TransactionV2Input list \<Rightarrow>
     OutPoint \<Rightarrow> (OutPoint set \<times> Amount \<times> TransactionV2Input list) result" where
  "select_owned_step available s p = (case s of (seen, running, ins) \<Rightarrow>
     if p \<in> seen then bail ''a hybrid output was selected more than once''
     else
       and_then (ok_or ''output is no longer an available hybrid output in this wallet'' (bt_get available p))
         (\<lambda>(output, owner).
       and_then (ok_or ''transaction v2 input total overflows'' (checked_add running (out_amount output))) (\<lambda>running'.
       and_then (owned_input p owner) (\<lambda>i.
       Inr (insert p seen, running', ins @ [i])))))"

definition build_v2_transfer_with_inputs ::
  "crypto \<Rightarrow> Ledger \<Rightarrow> Hybrid_Wallet \<Rightarrow> VersionedAddress \<Rightarrow> Amount \<Rightarrow> Amount \<Rightarrow> OutPoint list \<Rightarrow>
     TransactionV2 result \<times> Hybrid_Wallet" where
  "build_v2_transfer_with_inputs cr lg w recipient amt f outpoints =
     st_check (check_v2_transfer recipient amt) w (\<lambda>_.
     if outpoints = [] then (bail ''choose at least one hybrid output'', w)
     else
       st_then (owned_outputs cr lg w) (\<lambda>available w'.
       st_check (try_fold (select_owned_step (bt_of_list available)) ({}, 0, []) outpoints) w'
         (\<lambda>(seen, input_total, ins).
       st_check (ok_or ''transfer amount plus fee overflows'' (checked_add amt f)) w' (\<lambda>required.
       if input_total < required then (bail ''selected hybrid outputs do not cover transfer'', w')
       else finish_v2_transfer cr lg w' recipient amt f ins input_total))))"

section \<open>Consolidation\<close>

definition unsigned_v2_consolidation_from_input_owners ::
  "crypto \<Rightarrow> Ledger \<Rightarrow> Hybrid_Wallet \<Rightarrow> Amount \<Rightarrow> Amount \<Rightarrow> (OutPoint \<times> VersionedAddress) list \<Rightarrow>
     TransactionV2 result \<times> Hybrid_Wallet" where
  "unsigned_v2_consolidation_from_input_owners cr lg w amt f owned =
     (if amt = 0 then (bail ''transfer amount must be greater than zero'', w)
      else
        st_then (wallet_external_addresses cr lg w) (\<lambda>as w'.
        (and_then (last_address ''wallet receive address is unavailable'' as) (\<lambda>recipient.
         and_then (try_map (\<lambda>(p, owner). owned_input p owner) owned) (\<lambda>ins.
         Inr (V2Transfer ins [\<lparr>v2out_address = recipient, v2out_amount = amt\<rparr>] f []))), w')))"

definition sign_v2_consolidation ::
  "crypto \<Rightarrow> Ledger \<Rightarrow> Hybrid_Wallet \<Rightarrow> TransactionV2 \<Rightarrow> TransactionV2 result" where
  "sign_v2_consolidation cr lg w tx =
     and_then (transaction_v2_domain lg) (\<lambda>d. sign_within_budget cr lg w d tx)"

definition build_v2_consolidation_with_input_owners ::
  "crypto \<Rightarrow> Ledger \<Rightarrow> Hybrid_Wallet \<Rightarrow> Amount \<Rightarrow> Amount \<Rightarrow> (OutPoint \<times> VersionedAddress) list \<Rightarrow>
     TransactionV2 result \<times> Hybrid_Wallet" where
  "build_v2_consolidation_with_input_owners cr lg w amt f owned =
     st_then (unsigned_v2_consolidation_from_input_owners cr lg w amt f owned) (\<lambda>tx w'.
     (sign_v2_consolidation cr lg w' tx, w'))"

definition estimate_v2_consolidation_size_with_input_owners ::
  "crypto \<Rightarrow> Ledger \<Rightarrow> Hybrid_Wallet \<Rightarrow> Amount \<Rightarrow> Amount \<Rightarrow> (OutPoint \<times> VersionedAddress) list \<Rightarrow>
     nat result \<times> Hybrid_Wallet" where
  "estimate_v2_consolidation_size_with_input_owners cr lg w amt f owned =
     st_then (unsigned_v2_consolidation_from_input_owners cr lg w amt f owned) (\<lambda>tx w'.
     (let next_height = saturating_add (ledger_height lg) 1;
          authorization_count =
            (if TRANSACTION_V2_AUTHORIZATION_AGGREGATION_ACTIVATION_HEIGHT \<le> next_height
             then length (unique_list (all_input_owners tx)) else length (all_input_owners tx)) in
      and_then (transaction_v2_domain lg) (\<lambda>d.
      and_then (encoded_size_bytes_with_authorizations tx d HybridEd25519MlDsa44 authorization_count) (\<lambda>n.
      and_then (ensure_v2_transaction_size_within_block_budget lg n (max_block_bytes (launch_profile lg))) (\<lambda>_.
      Inr n))), w'))"

section \<open>Burns\<close>

text \<open>The first address whose outputs alone cover the burn, with its outputs by falling amount.\<close>

fun burn_owner ::
  "crypto \<Rightarrow> Ledger \<Rightarrow> Amount \<Rightarrow> VersionedAddress list \<Rightarrow> (VersionedAddress \<times> owned_output list) option result" where
  "burn_owner cr lg required [] = Inr None"
| "burn_owner cr lg required (owner # owners) =
     and_then (owned_outputs_of cr lg owner) (\<lambda>available.
     and_then (try_fold (\<lambda>running e.
       ok_or ''transaction v2 input total overflows'' (checked_add running (out_amount (fst (snd e))))) 0
       (owned_by_falling_amount available)) (\<lambda>input_total.
     if required \<le> input_total then Inr (Some (owner, owned_by_falling_amount available))
     else burn_owner cr lg required owners))"

definition build_v2_burn_with_anchor ::
  "crypto \<Rightarrow> Ledger \<Rightarrow> Hybrid_Wallet \<Rightarrow> Amount \<Rightarrow> Amount \<Rightarrow> string \<Rightarrow> TransactionV2 result \<times> Hybrid_Wallet" where
  "build_v2_burn_with_anchor cr lg w amt f anchor =
     (if amt = 0 then (bail ''burn amount must be greater than zero'', w)
      else
        st_check (ok_or ''burn amount plus fee overflows'' (checked_add amt f)) w (\<lambda>required.
        st_then (wallet_owned_hybrid_addresses cr lg w) (\<lambda>owners w'.
        (and_then (burn_owner cr lg required owners) (\<lambda>selected.
         case selected of
           None \<Rightarrow> bail ''insufficient hybrid funds in one address for burn''
         | Some (owner, available) \<Rightarrow>
             and_then (gather_v2 required 0 available) (\<lambda>(ins, input_total).
             if input_total < required then bail ''insufficient hybrid funds''
             else
               (let change_amount = input_total - required;
                    change = (if 0 < change_amount
                              then [\<lparr>v2out_address = owner, v2out_amount = change_amount\<rparr>] else []) in
                and_then (transaction_v2_domain lg) (\<lambda>d.
                and_then (with_context ''transaction v2 burn anchor is invalid'' (decode_hex_array 32 anchor))
                  (\<lambda>anchor_bytes.
                sign_within_budget cr lg w' d (V2Burn ins change amt f (Some anchor_bytes) [])))))), w'))))"

definition build_v2_burn ::
  "crypto \<Rightarrow> Ledger \<Rightarrow> Hybrid_Wallet \<Rightarrow> Amount \<Rightarrow> Amount \<Rightarrow> TransactionV2 result \<times> Hybrid_Wallet" where
  "build_v2_burn cr lg w amt f = build_v2_burn_with_anchor cr lg w amt f (tip_hash lg)"

definition build_v2_burn_for_next_block ::
  "crypto \<Rightarrow> Ledger \<Rightarrow> Hybrid_Wallet \<Rightarrow> Amount \<Rightarrow> Amount \<Rightarrow> TransactionV2 result \<times> Hybrid_Wallet" where
  "build_v2_burn_for_next_block cr lg w amt f = build_v2_burn_with_anchor cr lg w amt f (prev_hash (tip lg))"

end
