(* ===== verification/Hybrid_Wallet_Facts.thy ===== *)
theory Hybrid_Wallet_Facts
  imports V2_Builders Transaction_V2_Auth
begin

text \<open>
  The cache of child keys always holds the derived keys, every address that discovery reports can be
  signed for, and the current address of a branch is unused together with the gap after it.
\<close>

section \<open>The cache of child keys\<close>

definition cache_sound :: "crypto \<Rightarrow> Hybrid_Wallet \<Rightarrow> bool" where
  "cache_sound cr w \<longleftrightarrow>
     (\<forall>d k. bt_get (hybrid_child_keys w) d = Some k \<longrightarrow> k = derived_child_key cr w d)"

text \<open>The address at a position without the cache.\<close>

definition position_address :: "crypto \<Rightarrow> Hybrid_Wallet \<Rightarrow> HybridAddressBranch \<Rightarrow> u32 \<Rightarrow> VersionedAddress" where
  "position_address cr w branch index =
     (if branch = External \<and> index = 0 then hybrid_versioned_address cr w
      else child_address (derived_child_key cr w (branch, index)))"

text \<open>The addresses that the wallet can sign for now.\<close>

definition signable :: "crypto \<Rightarrow> Hybrid_Wallet \<Rightarrow> VersionedAddress set" where
  "signable cr w = insert (hybrid_versioned_address cr w) (child_address ` set (bt_values (hybrid_child_keys w)))"

lemma signable_iff:
  "a \<in> signable cr w \<longleftrightarrow> a = hybrid_versioned_address cr w \<or>
    (\<exists>d k. bt_get (hybrid_child_keys w) d = Some k \<and> a = child_address k)"
  unfolding signable_def image_iff insert_iff Bex_def bt_values_iff by blast

text \<open>What every operation of a wallet keeps: its secrets, a sound cache, and what it can sign for.\<close>

definition wallet_extends :: "crypto \<Rightarrow> Hybrid_Wallet \<Rightarrow> Hybrid_Wallet \<Rightarrow> bool" where
  "wallet_extends cr w w' \<longleftrightarrow>
     wallet_address w' = wallet_address w \<and> signing_seed w' = signing_seed w \<and>
     ml_dsa44_signing_seed w' = ml_dsa44_signing_seed w \<and>
     (cache_sound cr w \<longrightarrow> cache_sound cr w' \<and> signable cr w \<subseteq> signable cr w') \<and>
     external_address_cursor w \<le> external_address_cursor w' \<and> reward_address_cursor w \<le> reward_address_cursor w'"

lemma wallet_extends_refl [simp]: "wallet_extends cr w w"
  by (simp add: wallet_extends_def)

lemma wallet_extends_trans [trans]:
  "wallet_extends cr w w1 \<Longrightarrow> wallet_extends cr w1 w2 \<Longrightarrow> wallet_extends cr w w2"
  by (auto simp: wallet_extends_def)

lemma wallet_extends_sound: "wallet_extends cr w w' \<Longrightarrow> cache_sound cr w \<Longrightarrow> cache_sound cr w'"
  by (simp add: wallet_extends_def)

lemma wallet_extends_signable:
  "wallet_extends cr w w' \<Longrightarrow> cache_sound cr w \<Longrightarrow> a \<in> signable cr w \<Longrightarrow> a \<in> signable cr w'"
  by (auto simp: wallet_extends_def)

lemma derived_child_key_cong:
  "signing_seed w' = signing_seed w \<Longrightarrow> ml_dsa44_signing_seed w' = ml_dsa44_signing_seed w \<Longrightarrow>
    derived_child_key cr w' = derived_child_key cr w"
  by (simp add: derived_child_key_def fun_eq_iff)

lemma own_address_cong:
  "signing_seed w' = signing_seed w \<Longrightarrow> ml_dsa44_signing_seed w' = ml_dsa44_signing_seed w \<Longrightarrow>
    hybrid_versioned_address cr w' = hybrid_versioned_address cr w"
  by (simp add: hybrid_versioned_address_def hybrid_public_key_def)

lemma position_address_extends:
  "wallet_extends cr w w' \<Longrightarrow> position_address cr w' branch index = position_address cr w branch index"
  unfolding position_address_def wallet_extends_def
  using derived_child_key_cong [of w' w cr] own_address_cong [of w' w cr] by simp

lemma legacy_address_extends:
  "wallet_extends cr w w' \<Longrightarrow> legacy_versioned_address cr w' = legacy_versioned_address cr w"
  by (simp add: wallet_extends_def legacy_versioned_address_def)

lemma hybrid_from_seed_sound: "cache_sound cr (hybrid_from_seed cr seed)"
  by (simp add: cache_sound_def hybrid_from_seed_def)

lemma hybrid_child_key_spec:
  assumes "hybrid_child_key cr w branch index = (k, w')" and sound: "cache_sound cr w"
  shows "k = derived_child_key cr w (branch, index) \<and> wallet_extends cr w w' \<and> child_address k \<in> signable cr w'"
proof (cases "bt_get (hybrid_child_keys w) (branch, index)")
  case (Some c)
  then show ?thesis
    using assms(1) sound by (simp add: hybrid_child_key_def cache_sound_def signable_iff) blast
next
  case None
  let ?k = "derived_child_key cr w (branch, index)"
  have eqs: "k = ?k" "w' = w\<lparr>hybrid_child_keys := bt_insert (branch, index) ?k (hybrid_child_keys w)\<rparr>"
    using assms(1) None by (auto simp: hybrid_child_key_def Let_def)
  have derived: "derived_child_key cr w' = derived_child_key cr w" "hybrid_versioned_address cr w' = hybrid_versioned_address cr w"
    by (rule derived_child_key_cong own_address_cong; simp add: eqs)+
  have "cache_sound cr w'"
    using sound unfolding cache_sound_def derived unfolding eqs by (auto split: if_splits)
  moreover have "signable cr w \<subseteq> signable cr w'"
  proof
    fix a assume "a \<in> signable cr w"
    then consider "a = hybrid_versioned_address cr w" | d c where "bt_get (hybrid_child_keys w) d = Some c" "a = child_address c"
      by (auto simp: signable_iff)
    then show "a \<in> signable cr w'"
    proof cases
      case 2
      then have "bt_get (hybrid_child_keys w') d = Some c" using None by (auto simp: eqs)
      then show ?thesis using 2 unfolding signable_iff by blast
    qed (simp add: signable_iff derived)
  qed
  moreover have "child_address ?k \<in> signable cr w'"
    by (force simp: signable_iff eqs)
  ultimately show ?thesis by (simp add: wallet_extends_def eqs)
qed

lemma hybrid_versioned_address_at_spec:
  assumes "hybrid_versioned_address_at cr w branch index = (a, w')" and "cache_sound cr w"
  shows "a = position_address cr w branch index \<and> wallet_extends cr w w' \<and> a \<in> signable cr w'"
  using assms hybrid_child_key_spec [of cr w branch index]
  by (auto simp: hybrid_versioned_address_at_def position_address_def signable_def split: if_splits prod.splits)

section \<open>Signing\<close>

lemma key_address_authorized:
  "authorized_address cr \<lparr>auth_public_key = hybrid_key cr s m, auth_signature = sig\<rparr> =
    Inr (key_address cr (hybrid_key cr s m))"
  by (simp add: authorized_address_def hybrid_key_commitment_address_def hybrid_key_def key_address_def)

lemma hybrid_key_ok:
  assumes "ed25519_ok cr" and "ml_dsa44_ok cr"
  shows "public_key_new HybridEd25519MlDsa44 (pk_bytes (hybrid_key cr s m)) = Inr (hybrid_key cr s m)"
    and "hybrid_key_commitment_address cr (hybrid_key cr s m) = Inr (key_address cr (hybrid_key cr s m))"
  using assms
  by (simp_all add: public_key_new_def validate_material_length_def hybrid_key_def key_address_def
      hybrid_key_commitment_address_def ed25519_ok_def ml_dsa44_ok_def)

lemma sign_with_key:
  assumes "ed25519_ok cr" and "ml_dsa44_ok cr"
  shows "\<exists>auth. sign_hybrid_authorization_with_key cr s m (hybrid_key cr s m) payload = Inr auth \<and>
    authorized_address cr auth = Inr (key_address cr (hybrid_key cr s m)) \<and>
    verify_authorization cr payload auth = Inr ()"
proof -
  have ed: "length (ed25519_key_of_seed cr s) = 32" "length (ed25519_sign cr s payload) = 64"
    "ed25519_key_ok cr (ed25519_key_of_seed cr s)"
    "ed25519_verify cr (ed25519_key_of_seed cr s) payload (ed25519_sign cr s payload)"
    using assms(1) by (simp_all add: ed25519_ok_def)
  obtain sig where ml: "ml_dsa44_sign cr m payload = Some sig" "length sig = 2420" "ml_dsa44_sig_ok cr sig"
      "ml_dsa44_verify cr (ml_dsa44_key_of_seed cr m) payload [] sig" "length (ml_dsa44_key_of_seed cr m) = 1312"
    using assms(2) unfolding ml_dsa44_ok_def by metis
  let ?auth = "\<lparr>auth_public_key = hybrid_key cr s m,
    auth_signature = \<lparr>sig_scheme = HybridEd25519MlDsa44, sig_bytes = ed25519_sign cr s payload @ sig\<rparr>\<rparr>"
  have "sign_hybrid_authorization_with_key cr s m (hybrid_key cr s m) payload = Inr ?auth"
    using ed ml by (simp add: sign_hybrid_authorization_with_key_def sign_ml_dsa44_def signature_new_def
        validate_material_length_def authorization_new_def hybrid_key_def)
  moreover have "verify_authorization cr payload ?auth = Inr ()"
    using ed ml by (simp add: verify_authorization_def auth_scheme_def hybrid_key_def verify_ed25519_def verify_ml_dsa44_def
        verify_ml_dsa44_with_context_def)
  ultimately show ?thesis using key_address_authorized by blast
qed

lemma cached_key:
  assumes "cache_sound cr w" and "bt_get (hybrid_child_keys w) d = Some k"
  shows "child_public_key k = hybrid_key cr (signing_seed w) (child_signing_seed k)"
    and "child_address k = key_address cr (child_public_key k)"
proof -
  have "k = derived_child_key cr w d" using assms unfolding cache_sound_def by blast
  then show "child_public_key k = hybrid_key cr (signing_seed w) (child_signing_seed k)"
    "child_address k = key_address cr (child_public_key k)"
    by (simp_all add: derived_child_key_def Let_def)
qed

lemma signable_hybrid: "a \<in> signable cr w \<Longrightarrow> cache_sound cr w \<Longrightarrow> addr_version a = HybridKeyCommitment"
  using cached_key(2) by (force simp: signable_iff hybrid_versioned_address_def key_address_def)

lemma signable_signs:
  assumes "ed25519_ok cr" and "ml_dsa44_ok cr" and sound: "cache_sound cr w" and owner: "owner \<in> signable cr w"
  shows "\<exists>auth. sign_v2_authorization cr w owner payload = Inr auth \<and>
    authorized_address cr auth = Inr owner \<and> verify_authorization cr payload auth = Inr ()"
proof -
  have legacy: "owner \<noteq> legacy_versioned_address cr w"
    using signable_hybrid [OF owner sound] by (auto simp: legacy_versioned_address_def)
  show ?thesis
  proof (cases "owner = hybrid_versioned_address cr w")
    case True
    then show ?thesis
      using legacy sign_with_key [OF assms(1,2), of "signing_seed w" "ml_dsa44_signing_seed w" payload]
      by (simp add: sign_v2_authorization_def sign_hybrid_authorization_def hybrid_versioned_address_def hybrid_public_key_def)
  next
    case False
    then obtain c where "c \<in> set (bt_values (hybrid_child_keys w))" "child_address c = owner"
      using owner by (auto simp: signable_def)
    then obtain k where k: "find (\<lambda>k. child_address k = owner) (bt_values (hybrid_child_keys w)) = Some k"
      by (cases "find (\<lambda>k. child_address k = owner) (bt_values (hybrid_child_keys w))") (auto simp: find_None_iff)
    then have "k \<in> set (bt_values (hybrid_child_keys w))" and address: "child_address k = owner"
      by (auto simp: find_Some_iff)
    then obtain d where "bt_get (hybrid_child_keys w) d = Some k" by (auto simp: bt_values_iff)
    note key = cached_key [OF sound this]
    obtain auth where auth: "sign_hybrid_authorization_with_key cr (signing_seed w) (child_signing_seed k)
          (child_public_key k) payload = Inr auth"
        "authorized_address cr auth = Inr (key_address cr (child_public_key k))" "verify_authorization cr payload auth = Inr ()"
      using sign_with_key [OF assms(1,2), of "signing_seed w" "child_signing_seed k" payload]
      unfolding key(1) [symmetric] by blast
    have "sign_v2_authorization cr w owner payload = Inr auth"
      using legacy False k auth(1) by (simp add: sign_v2_authorization_def)
    moreover have "authorized_address cr auth = Inr owner" using auth(2) key(2) address by simp
    ultimately show ?thesis using auth(3) by blast
  qed
qed

section \<open>Discovery\<close>

lemma advance_cursor_extends: "wallet_extends cr w (advance_cursor branch index w)"
  by (cases branch) (auto simp: wallet_extends_def cache_sound_def signable_iff derived_child_key_def
      hybrid_versioned_address_def hybrid_public_key_def)

lemma mark_discovery_tip_extends: "wallet_extends cr w (mark_discovery_tip branch hash w)"
  by (cases branch) (auto simp: wallet_extends_def cache_sound_def signable_iff derived_child_key_def
      hybrid_versioned_address_def hybrid_public_key_def)

text \<open>Nothing before the end of a discovery touches the remembered tips.\<close>

definition wallet_keeps :: "crypto \<Rightarrow> Hybrid_Wallet \<Rightarrow> Hybrid_Wallet \<Rightarrow> bool" where
  "wallet_keeps cr w w' \<longleftrightarrow>
     wallet_extends cr w w' \<and> external_discovery_tip w' = external_discovery_tip w \<and>
     reward_discovery_tip w' = reward_discovery_tip w"

lemma wallet_keeps_extends: "wallet_keeps cr w w' \<Longrightarrow> wallet_extends cr w w'"
  by (simp add: wallet_keeps_def)

lemma wallet_keeps_refl [simp]: "wallet_keeps cr w w"
  by (simp add: wallet_keeps_def)

lemma wallet_keeps_trans [trans]: "wallet_keeps cr w w1 \<Longrightarrow> wallet_keeps cr w1 w2 \<Longrightarrow> wallet_keeps cr w w2"
  by (auto simp: wallet_keeps_def intro: wallet_extends_trans)

lemma hybrid_versioned_address_at_keeps:
  assumes "hybrid_versioned_address_at cr w branch index = (a, w')" and "cache_sound cr w"
  shows "wallet_keeps cr w w'"
  using assms hybrid_versioned_address_at_spec [OF assms]
  by (auto simp: wallet_keeps_def hybrid_versioned_address_at_def hybrid_child_key_def Let_def
      split: if_splits prod.splits option.splits)

lemma advance_cursor_keeps: "wallet_keeps cr w (advance_cursor branch index w)"
  using advance_cursor_extends [of cr w branch index] by (cases branch) (simp_all add: wallet_keeps_def)

lemma advance_past_keeps: "wallet_keeps cr w (advance_past branch highest w)"
  by (simp add: advance_past_def advance_cursor_keeps split: option.splits)

lemma complete_keeps: "wallet_keeps cr w (w\<lparr>historical_address_recovery_complete := b\<rparr>)"
  by (auto simp: wallet_keeps_def wallet_extends_def cache_sound_def signable_iff derived_child_key_def
      hybrid_versioned_address_def hybrid_public_key_def)

lemma recovery_probe_keeps:
  assumes "recovery_probe cr branch index (targets, highest, w) = (targets', highest', w')" and "cache_sound cr w"
  shows "wallet_keeps cr w w'"
  using assms hybrid_versioned_address_at_keeps [of cr w branch index]
  by (auto simp: recovery_probe_def split: prod.splits if_splits)

lemma recovery_loop_keeps:
  assumes "recovery_loop cr index targets ext rew w = (ext', rew', w')" and "cache_sound cr w"
  shows "wallet_keeps cr w w'"
  using assms
proof (induction cr index targets ext rew w rule: recovery_loop.induct)
  case (1 cr index targets ext rew w)
  show ?case
  proof (cases "index < MAX_DISCOVERED_EXTERNAL_ADDRESSES")
    case True
    obtain targets1 ext1 w1 where first: "recovery_probe cr External index (targets, ext, w) = (targets1, ext1, w1)"
      by (cases "recovery_probe cr External index (targets, ext, w)")
    obtain targets2 rew1 w2 where second: "recovery_probe cr Reward index (targets1, rew, w1) = (targets2, rew1, w2)"
      by (cases "recovery_probe cr Reward index (targets1, rew, w1)")
    have one: "wallet_keeps cr w w1" using recovery_probe_keeps [OF first] "1.prems"(2) .
    have two: "wallet_keeps cr w1 w2"
      using recovery_probe_keeps [OF second] wallet_extends_sound [OF wallet_keeps_extends [OF one] "1.prems"(2)] .
    note both = wallet_keeps_trans [OF one two]
    show ?thesis
    proof (cases "targets2 = []")
      case True
      then show ?thesis
        using "1.prems"(1) \<open>index < _\<close> first second both by (simp add: recovery_loop.simps [of cr index])
    next
      case False
      then have "recovery_loop cr (index + 1) targets2 ext1 rew1 w2 = (ext', rew', w')"
        using "1.prems"(1) \<open>index < _\<close> first second by (simp add: recovery_loop.simps [of cr index])
      from "1.IH" [OF True first [symmetric] refl second [symmetric] refl False this
          wallet_extends_sound [OF wallet_keeps_extends [OF both] "1.prems"(2)]]
      show ?thesis using both wallet_keeps_trans by blast
    qed
  next
    case False
    then show ?thesis using "1.prems"(1) by (simp add: recovery_loop.simps [of cr index])
  qed
qed

lemma recover_keeps:
  assumes "recover_historical_hybrid_address_cursors cr lg w = (r, w')" and "cache_sound cr w"
  shows "r = Inr () \<and> wallet_keeps cr w w'"
proof (cases "historical_address_recovery_complete w")
  case False
  obtain ext rew w1 where loop: "recovery_loop cr 0 (confirmed_hybrid_authored_addresses_of lg
      (addr_payload (legacy_versioned_address cr w))) None None w = (ext, rew, w1)"
    by (cases "recovery_loop cr 0 (confirmed_hybrid_authored_addresses_of lg
      (addr_payload (legacy_versioned_address cr w))) None None w")
  have "wallet_keeps cr w (advance_past Reward rew (advance_past External ext w1)\<lparr>historical_address_recovery_complete := True\<rparr>)"
    by (rule wallet_keeps_trans [OF recovery_loop_keeps [OF loop assms(2)]
        wallet_keeps_trans [OF advance_past_keeps wallet_keeps_trans [OF advance_past_keeps complete_keeps]]])
  then show ?thesis
    using assms(1) False loop
    by (auto simp: recover_historical_hybrid_address_cursors_def wallet_authored_hybrid_addresses_def)
qed (use assms in \<open>simp add: recover_historical_hybrid_address_cursors_def\<close>)

text \<open>The scan ends at the first position from which the gap is free.\<close>

definition gap_free :: "crypto \<Rightarrow> Hybrid_Wallet \<Rightarrow> HybridAddressBranch \<Rightarrow> HybridAddressLookup \<Rightarrow> u32 \<Rightarrow> nat \<Rightarrow> bool" where
  "gap_free cr w branch used index n \<longleftrightarrow>
     (\<forall>i<n. \<not> lookup_contains used (position_address cr w branch (index + word_of_nat i)))"

lemma gap_free_extends:
  "wallet_extends cr w w' \<Longrightarrow> gap_free cr w' branch used index n = gap_free cr w branch used index n"
  by (simp add: gap_free_def position_address_extends)

lemma gap_free_Suc:
  "gap_free cr w branch used index (Suc n) \<longleftrightarrow>
    gap_free cr w branch used index n \<and> \<not> lookup_contains used (position_address cr w branch (index + word_of_nat n))"
  by (auto simp: gap_free_def less_Suc_eq)

text \<open>
  The invariant of the scan: from the position after the last used address, all positions up to the
  present one are unused.
\<close>

definition scan_base :: "u32 \<Rightarrow> u32 option \<Rightarrow> u32" where
  "scan_base start highest = (case highest of None \<Rightarrow> start | Some h \<Rightarrow> h + 1)"

definition scan_inv ::
  "crypto \<Rightarrow> Hybrid_Wallet \<Rightarrow> HybridAddressBranch \<Rightarrow> HybridAddressLookup \<Rightarrow> u32 \<Rightarrow> u32 \<Rightarrow> u32 option \<Rightarrow> u32 \<Rightarrow> bool" where
  "scan_inv cr w branch used start index highest unused_run \<longleftrightarrow>
     unused_run < 20 \<and> unat index = unat (scan_base start highest) + unat unused_run \<and>
     gap_free cr w branch used (scan_base start highest) (unat unused_run) \<and>
     (\<forall>h. highest = Some h \<longrightarrow> start \<le> h \<and> unat h < 10000 \<and> lookup_contains used (position_address cr w branch h))"

definition discovered ::
  "crypto \<Rightarrow> Hybrid_Wallet \<Rightarrow> HybridAddressBranch \<Rightarrow> HybridAddressLookup \<Rightarrow> u32 \<Rightarrow> u32 \<Rightarrow> bool" where
  "discovered cr w branch used start current \<longleftrightarrow>
     start \<le> current \<and> gap_free cr w branch used current 20 \<and>
     (current = start \<or> lookup_contains used (position_address cr w branch (current - 1)))"

lemma scan_inv_start: "scan_inv cr w branch used start start None 0"
  by (simp add: scan_inv_def scan_base_def gap_free_def)

lemma scan_inv_extends:
  "wallet_extends cr w w' \<Longrightarrow> scan_inv cr w' branch used start index highest run = scan_inv cr w branch used start index highest run"
  by (simp add: scan_inv_def gap_free_extends position_address_extends)

lemma succ_small: "index < MAX_DISCOVERED_EXTERNAL_ADDRESSES \<Longrightarrow>
    saturating_add index 1 = index + 1 \<and> checked_add index 1 = Some (index + 1) \<and> unat (index + 1) = Suc (unat index)"
  by (auto simp: MAX_DISCOVERED_EXTERNAL_ADDRESSES_def saturating_add_def checked_add_def word_less_nat_alt unat_word_ariths)

lemma scan_used:
  assumes "scan_inv cr w branch used start index highest run" and "index < MAX_DISCOVERED_EXTERNAL_ADDRESSES"
    and "lookup_contains used (position_address cr w branch index)"
  shows "scan_inv cr w branch used start (index + 1) (Some index) 0"
proof -
  have "start \<le> index"
  proof (cases highest)
    case (Some h)
    then have "unat (h + 1) = Suc (unat h)"
      using assms(1) by (auto simp: scan_inv_def unat_word_ariths)
    then show ?thesis using assms(1) Some by (auto simp: scan_inv_def scan_base_def word_le_nat_alt)
  qed (use assms(1) in \<open>simp add: scan_inv_def scan_base_def word_le_nat_alt\<close>)
  then show ?thesis
    using assms(2,3) by (simp add: scan_inv_def scan_base_def gap_free_def MAX_DISCOVERED_EXTERNAL_ADDRESSES_def word_less_nat_alt)
qed

lemma scan_unused:
  assumes inv: "scan_inv cr w branch used start index highest run" and index: "index < MAX_DISCOVERED_EXTERNAL_ADDRESSES"
    and unused: "\<not> lookup_contains used (position_address cr w branch index)"
  shows "gap_free cr w branch used (scan_base start highest) (Suc (unat run))"
    and "run < 19 \<Longrightarrow> scan_inv cr w branch used start (index + 1) highest (run + 1)"
proof -
  have "index = scan_base start highest + run"
  proof (rule word_unat_eq_iff [THEN iffD2])
    have "unat (scan_base start highest) + unat run < 2 ^ 32"
      using inv unat_less_power [of index] by (simp add: scan_inv_def)
    then show "unat index = unat (scan_base start highest + run)"
      using inv by (simp add: scan_inv_def unat_word_ariths)
  qed
  then show gap: "gap_free cr w branch used (scan_base start highest) (Suc (unat run))"
    using inv unused by (simp add: scan_inv_def gap_free_Suc)
  show "scan_inv cr w branch used start (index + 1) highest (run + 1)" if "run < 19"
  proof -
    have run: "unat (run + 1) = Suc (unat run)" using that by (auto simp: word_less_nat_alt unat_word_ariths)
    then show ?thesis
      using inv gap succ_small [OF index] that by (auto simp: scan_inv_def word_less_nat_alt)
  qed
qed

lemma discovery_loop_spec:
  assumes "discovery_loop cr branch used start index highest run w = (r, w')"
    and "scan_inv cr w branch used start index highest run" and "cache_sound cr w"
  shows "wallet_extends cr w w' \<and> (\<forall>current. r = Some current \<longrightarrow> discovered cr w branch used start current)"
  using assms
proof (induction cr branch used start index highest run w rule: discovery_loop.induct)
  case (1 cr branch used start index highest run w)
  note inv = "1.prems"(2) and sound = "1.prems"(3)
  show ?case
  proof (cases "index < MAX_DISCOVERED_EXTERNAL_ADDRESSES")
    case True
    note succ = succ_small [OF True]
    obtain a w1 where at: "hybrid_versioned_address_at cr w branch index = (a, w1)"
      by (cases "hybrid_versioned_address_at cr w branch index")
    note spec = hybrid_versioned_address_at_spec [OF at sound]
    then have ext: "wallet_extends cr w w1" and a: "a = position_address cr w branch index" by auto
    note sound1 = wallet_extends_sound [OF ext sound]
    have run: "run < 20" using inv by (simp add: scan_inv_def)
    show ?thesis
    proof (cases "lookup_contains used a")
      case used: True
      have rest: "discovery_loop cr branch used start (saturating_add index 1) (Some index) 0 w1 = (r, w')"
        using "1.prems"(1) True at used by (simp add: discovery_loop.simps [of cr branch used start index])
      have "scan_inv cr w1 branch used start (saturating_add index 1) (Some index) 0"
        using scan_used [OF inv True] used a succ scan_inv_extends [OF ext] by simp
      from "1.IH"(1) [OF True at [symmetric] used rest this sound1] show ?thesis
        using ext wallet_extends_trans by (auto simp: discovered_def gap_free_extends position_address_extends)
    next
      case unused: False
      note step = scan_unused [OF inv True] 
      show ?thesis
      proof (cases "run < 19")
        case more: True
        then have run1: "saturating_add run 1 = run + 1" "\<not> HYBRID_EXTERNAL_ADDRESS_GAP_LIMIT \<le> run + 1"
          by (auto simp: saturating_add_def HYBRID_EXTERNAL_ADDRESS_GAP_LIMIT_def word_less_nat_alt word_le_nat_alt unat_word_ariths)
        have rest: "discovery_loop cr branch used start (saturating_add index 1) highest (saturating_add run 1) w1 = (r, w')"
          using "1.prems"(1) True at unused run1 by (simp add: discovery_loop.simps [of cr branch used start index])
        have "scan_inv cr w1 branch used start (saturating_add index 1) highest (saturating_add run 1)"
          using step(2) unused a more succ run1 scan_inv_extends [OF ext] by simp
        from "1.IH"(2) [OF True at [symmetric] unused refl _ rest this sound1] show ?thesis
          using run1 ext wallet_extends_trans by (auto simp: discovered_def gap_free_extends position_address_extends)
      next
        case False
        then have "run = 19" using run by (auto simp: word_less_nat_alt word_unat_eq_iff)
        then have run1: "HYBRID_EXTERNAL_ADDRESS_GAP_LIMIT \<le> saturating_add run 1"
          by (simp add: saturating_add_def HYBRID_EXTERNAL_ADDRESS_GAP_LIMIT_def)
        have out: "(r, w') = (Some (case Option.bind highest (\<lambda>u. checked_add u 1) of Some c \<Rightarrow> c | None \<Rightarrow> start), w1)"
          using "1.prems"(1) True at unused run1 by (simp add: discovery_loop.simps [of cr branch used start index])
        have base: "(case Option.bind highest (\<lambda>u. checked_add u 1) of Some c \<Rightarrow> c | None \<Rightarrow> start) = scan_base start highest"
        proof (cases highest)
          case (Some h)
          then have "h < MAX_DISCOVERED_EXTERNAL_ADDRESSES"
            using inv by (simp add: scan_inv_def MAX_DISCOVERED_EXTERNAL_ADDRESSES_def word_less_nat_alt)
          then show ?thesis using Some succ_small by (simp add: scan_base_def)
        qed (simp add: scan_base_def)
        have "gap_free cr w branch used (scan_base start highest) 20"
          using step(1) unused a \<open>run = 19\<close> by simp
        moreover have "start \<le> scan_base start highest \<and> (scan_base start highest = start \<or>
            lookup_contains used (position_address cr w branch (scan_base start highest - 1)))"
        proof (cases highest)
          case (Some h)
          then have "unat (h + 1) = Suc (unat h)" "start \<le> h"
            using inv by (auto simp: scan_inv_def unat_word_ariths)
          then show ?thesis using Some inv by (auto simp: scan_inv_def scan_base_def word_le_nat_alt)
        qed (simp add: scan_base_def)
        ultimately show ?thesis using out ext unfolding base by (auto simp: discovered_def)
      qed
    qed
  next
    case False
    then show ?thesis using "1.prems"(1) by (simp add: discovery_loop.simps [of cr branch used start index])
  qed
qed

section \<open>The addresses of a wallet\<close>

lemma addresses_at_spec:
  assumes "addresses_at cr branch is w = (as, w')" and "cache_sound cr w"
  shows "as = map (\<lambda>i. (i, position_address cr w branch i)) is \<and> wallet_extends cr w w' \<and>
    snd ` set as \<subseteq> signable cr w'"
  using assms
proof (induction "is" arbitrary: w as)
  case (Cons i "is")
  obtain a w1 as1 where at: "hybrid_versioned_address_at cr w branch i = (a, w1)"
    and rest: "addresses_at cr branch is w1 = (as1, w')" and as: "as = (i, a) # as1"
    using Cons.prems(1) by (auto split: prod.splits)
  note spec = hybrid_versioned_address_at_spec [OF at Cons.prems(2)]
  then have ext: "wallet_extends cr w w1" by simp
  note sound = wallet_extends_sound [OF ext Cons.prems(2)]
  note IH = Cons.IH [OF rest sound]
  have rest_ext: "wallet_extends cr w1 w'" and rest_signable: "snd ` set as1 \<subseteq> signable cr w'"
    using IH by blast+
  have as1: "as1 = map (\<lambda>i. (i, position_address cr w branch i)) is"
    using IH by (simp add: position_address_extends [OF ext])
  have "a \<in> signable cr w'" using wallet_extends_signable [OF rest_ext sound] spec by blast
  then show ?case
    using as as1 spec rest_signable wallet_extends_trans [OF ext rest_ext]
    by (simp only: list.map list.set image_insert snd_conv insert_subset)
qed simp

lemma wallet_branch_addresses_spec:
  assumes "wallet_branch_addresses cr lg branch at_new at_old failure w = (Inr as, w')" and sound: "cache_sound cr w"
  shows "wallet_extends cr w w'" and "snd ` set as \<subseteq> signable cr w'"
    and "\<exists>start current. branch_cursor branch w \<le> start \<and>
      discovered cr w branch (if discovery_tip_matches branch (tip_hash lg) w then at_old else at_new) start current \<and>
      as = map (\<lambda>i. (i, position_address cr w branch i)) (map word_of_nat [0..<Suc (unat current)]) \<and>
      current \<le> branch_cursor branch w'"
proof -
  obtain w0 where rec: "recover_historical_hybrid_address_cursors cr lg w = (Inr (), w0)" and keeps: "wallet_keeps cr w w0"
    using recover_keeps [OF _ sound, of lg] by (cases "recover_historical_hybrid_address_cursors cr lg w") auto
  note ext0 = wallet_keeps_extends [OF keeps]
  note sound0 = wallet_extends_sound [OF ext0 sound]
  have tips: "discovery_tip_matches branch h w0 = discovery_tip_matches branch h w" for h
    using keeps by (cases branch) (simp_all add: wallet_keeps_def)
  let ?used = "if discovery_tip_matches branch (tip_hash lg) w then at_old else at_new"
  let ?mark = "\<lambda>w. if discovery_tip_matches branch (tip_hash lg) w0 then w else mark_discovery_tip branch (tip_hash lg) w"
  obtain current w1 where loop: "discovery_loop cr branch ?used (branch_cursor branch w0) (branch_cursor branch w0) None 0 w0 =
        (Some current, w1)"
    and tail: "addresses_at cr branch (map word_of_nat [0..<Suc (unat current)]) (?mark (advance_cursor branch current w1)) = (as, w')"
    using assms(1) by (auto simp: wallet_branch_addresses_def rec tips Let_def split: prod.splits option.splits if_splits)
  from discovery_loop_spec [OF loop scan_inv_start sound0]
  have ext1: "wallet_extends cr w0 w1" and found: "discovered cr w0 branch ?used (branch_cursor branch w0) current" by auto
  have ext2: "wallet_extends cr w1 (?mark (advance_cursor branch current w1))"
    by (auto intro: advance_cursor_extends wallet_extends_trans [OF advance_cursor_extends mark_discovery_tip_extends])
  note ext012 = wallet_extends_trans [OF ext0 wallet_extends_trans [OF ext1 ext2]]
  note spec = addresses_at_spec [OF tail wallet_extends_sound [OF ext012 sound]]
  then have ext3: "wallet_extends cr (?mark (advance_cursor branch current w1)) w'" and sig: "snd ` set as \<subseteq> signable cr w'"
    by blast+
  have as: "as = map (\<lambda>i. (i, position_address cr w branch i)) (map word_of_nat [0..<Suc (unat current)])"
    using spec by (simp only: position_address_extends [OF ext012])
  show "wallet_extends cr w w'" "snd ` set as \<subseteq> signable cr w'"
    using wallet_extends_trans [OF ext012 ext3] sig by auto
  have "branch_cursor branch w \<le> branch_cursor branch w0"
    using ext0 by (cases branch) (simp_all add: wallet_extends_def)
  moreover have cursor: "current \<le> branch_cursor branch w'"
    using ext3 by (cases branch) (auto simp: wallet_extends_def split: if_splits)
  moreover have "discovered cr w branch ?used (branch_cursor branch w0) current"
    using found by (simp add: discovered_def gap_free_extends [OF ext0] position_address_extends [OF ext0])
  ultimately show "\<exists>start current. branch_cursor branch w \<le> start \<and> discovered cr w branch ?used start current \<and>
      as = map (\<lambda>i. (i, position_address cr w branch i)) (map word_of_nat [0..<Suc (unat current)]) \<and>
      current \<le> branch_cursor branch w'"
    using as cursor by blast
qed

lemma wallet_external_addresses_spec:
  assumes "wallet_external_addresses cr lg w = (Inr as, w')" and "cache_sound cr w"
  shows "wallet_extends cr w w'" and "snd ` set as \<subseteq> signable cr w'" and "as \<noteq> []"
    and "snd (last as) = position_address cr w External (fst (last as))"
    and "snd (last as) \<notin> pending_hybrid_addresses cr lg"
    and "external_discovery_tip w \<noteq> Some (tip_hash lg) \<Longrightarrow> snd (last as) \<notin> confirmed_hybrid_used_addresses lg"
proof -
  note spec = wallet_branch_addresses_spec [OF assms(1) [unfolded wallet_external_addresses_def] assms(2)]
  show "wallet_extends cr w w'" "snd ` set as \<subseteq> signable cr w'" by (rule spec(1), rule spec(2))
  let ?used = "if external_discovery_tip w = Some (tip_hash lg) then lookup_pending_only (pending_hybrid_addresses cr lg)
    else used_hybrid_addresses cr lg"
  obtain start current where found: "discovered cr w External ?used start current"
    and as: "as = map (\<lambda>i. (i, position_address cr w External i)) (map word_of_nat [0..<Suc (unat current)])"
    using spec(3) by auto
  have last: "last as = (current, position_address cr w External current)" "as \<noteq> []" by (simp_all add: as)
  then show "as \<noteq> []" "snd (last as) = position_address cr w External (fst (last as))" by simp_all
  have "\<not> lookup_contains ?used (position_address cr w External (current + word_of_nat 0))"
    using found unfolding discovered_def gap_free_def by (metis zero_less_numeral)
  then have unused: "\<not> lookup_contains ?used (snd (last as))" using last by simp
  then show "snd (last as) \<notin> pending_hybrid_addresses cr lg"
    by (auto simp: lookup_contains_def lookup_pending_only_def used_hybrid_addresses_def lookup_new_def split: if_splits)
  show "snd (last as) \<notin> confirmed_hybrid_used_addresses lg" if "external_discovery_tip w \<noteq> Some (tip_hash lg)"
    using unused that by (auto simp: lookup_contains_def used_hybrid_addresses_def lookup_new_def)
qed

lemma set_push_unique [simp]: "set (foldl push_unique_address as bs) = set as \<union> set bs"
  by (induction bs arbitrary: as) (auto simp: push_unique_address_def)

lemma wallet_owned_spec:
  assumes "wallet_owned_hybrid_addresses cr lg w = (Inr owners, w')" and sound: "cache_sound cr w"
  shows "wallet_extends cr w w'" and "set owners \<subseteq> signable cr w'"
proof -
  obtain as w1 where ext: "wallet_external_addresses cr lg w = (Inr as, w1)"
    using assms(1) by (auto simp: wallet_owned_hybrid_addresses_def st_then_eq)
  note one = wallet_external_addresses_spec [OF ext sound]
  note sound1 = wallet_extends_sound [OF one(1) sound]
  have "wallet_extends cr w w' \<and> set owners \<subseteq> signable cr w'"
  proof (cases "ledger_height lg < HYBRID_REWARD_ACTIVATION_HEIGHT")
    case True
    then show ?thesis using assms(1) ext one by (auto simp: wallet_owned_hybrid_addresses_def)
  next
    case False
    then obtain rs where rew: "wallet_reward_addresses cr lg w1 = (Inr rs, w')"
      and owners: "owners = foldl push_unique_address (map snd as) (map snd rs)"
      using assms(1) ext by (auto simp: wallet_owned_hybrid_addresses_def st_then_eq)
    note two = wallet_branch_addresses_spec [OF rew [unfolded wallet_reward_addresses_def] sound1]
    have "signable cr w1 \<subseteq> signable cr w'" using two(1) sound1 by (simp add: wallet_extends_def)
    then show ?thesis using one(2) two(2) wallet_extends_trans [OF one(1) two(1)] by (auto simp: owners)
  qed
  then show "wallet_extends cr w w'" "set owners \<subseteq> signable cr w'" by blast+
qed

end
