(* ===== verification/Builder_Facts.thy ===== *)
theory Builder_Facts
  imports Tx_Builders
begin

text \<open>
  What the builders return: a transfer pays the recipient, charges the fee and returns the rest to
  the wallet, passes the checks of a submission, and spends as few outputs as possible.
\<close>

section \<open>Falling amounts\<close>

text \<open>The first \<open>k\<close> of falling amounts are worth at least as much as any \<open>k\<close> of them.\<close>

lemma sum_le_prefix:
  fixes v :: "'a \<Rightarrow> nat"
  assumes "sorted_wrt (\<lambda>x y. v y \<le> v x) xs" and "distinct xs" and "S \<subseteq> set xs"
  shows "(\<Sum>x\<in>S. v x) \<le> sum_list (map v (take (card S) xs))"
  using assms
proof (induction xs arbitrary: S)
  case (Cons x xs)
  have fin: "finite S" using Cons.prems(3) finite_subset by blast
  have tail: "sorted_wrt (\<lambda>x y. v y \<le> v x) xs" "distinct xs" and top: "\<forall>y\<in>set xs. v y \<le> v x"
    using Cons.prems by auto
  show ?case
  proof (cases "x \<in> S")
    case True
    have "(\<Sum>y\<in>S. v y) = v x + (\<Sum>y\<in>S - {x}. v y)"
      using fin True by (simp add: sum.remove)
    moreover have "S - {x} \<subseteq> set xs" using Cons.prems(3) by auto
    moreover note card.remove [OF fin True]
    ultimately show ?thesis using Cons.IH [OF tail, of "S - {x}"] by simp
  next
    case False
    then have sub: "S \<subseteq> set xs" using Cons.prems(3) by auto
    show ?thesis
    proof (cases "S = {}")
      case False
      then obtain y where y: "y \<in> S" by blast
      have "(\<Sum>z\<in>S. v z) = v y + (\<Sum>z\<in>S - {y}. v z)" using fin y by (simp add: sum.remove)
      also have "\<dots> \<le> v x + sum_list (map v (take (card (S - {y})) xs))"
        using Cons.IH [OF tail, of "S - {y}"] sub y top by (intro add_mono) auto
      finally show ?thesis by (simp add: card.remove [OF fin y])
    qed simp
  qed
qed simp

abbreviation output_value :: "OutPoint \<times> TxOutput \<Rightarrow> nat" where
  "output_value e \<equiv> unat (out_amount (snd e))"

lemma not_le_iff: "(NOT a \<le> NOT b) = (b \<le> (a :: u64))"
proof -
  have unat_not: "unat (NOT c) = 2 ^ 64 - 1 - unat c" for c :: u64
  proof -
    have "NOT c = - 1 - c" by (simp add: not_eq_complement)
    then show ?thesis by (simp add: unat_sub unsigned_minus_1_eq_mask mask_eq_exp_minus_1)
  qed
  have "unat a < 2 ^ 64" "unat b < 2 ^ 64" 
    using unat_less_power [of a] unat_less_power [of b] by simp_all
  then show ?thesis by (auto simp: word_le_nat_alt unat_not)
qed

lemma by_falling_sorted:
  "sorted_wrt (\<lambda>x y. output_value y \<le> output_value x) (by_falling_amount es)"
proof -
  have "sorted (map (\<lambda>(p, output). (NOT (out_amount output), p)) (by_falling_amount es))"
    unfolding by_falling_amount_def by (rule sorted_sort_key)
  then have "sorted_wrt (\<lambda>x y. (NOT (out_amount (snd x)), fst x) \<le> (NOT (out_amount (snd y)), fst y)) (by_falling_amount es)"
    by (simp add: sorted_wrt_map case_prod_unfold)
  then show ?thesis
    by (rule sorted_wrt_mono_rel [rotated]) (auto simp: less_eq_prod_def word_le_nat_alt [symmetric] not_le_iff less_le)
qed

lemma by_falling_set [simp]: "set (by_falling_amount es) = set es" "distinct (by_falling_amount es) = distinct es"
  "mset (by_falling_amount es) = mset es"
  by (simp_all add: by_falling_amount_def)

section \<open>Gathering\<close>

lemma gather_spec:
  assumes "gather required running es = Inr (ps, t)"
  shows "\<exists>n. ps = map fst (take n es) \<and> unat t = unat running + sum_list (map output_value (take n es)) \<and>
    (required \<le> t \<longrightarrow> n = 0 \<or> required \<le> running \<or>
      unat running + sum_list (map output_value (take (n - 1) es)) < unat required)"
  using assms
proof (induction required running es arbitrary: ps t rule: gather.induct)
  case (1 required running)
  then show ?case by (intro exI [of _ 0]) simp
next
  case (2 required running p o1 es)
  obtain r where r: "checked_add running (out_amount o1) = Some r"
    using 2(2) by (auto simp: and_then_eq_Inr ok_or_eq_Inr)
  then have sum: "unat r = unat running + unat (out_amount o1)" by (simp add: arith_simps)
  show ?case
  proof (cases "required \<le> r")
    case True
    then have "ps = [p]" "t = r" using 2(2) r by auto
    then show ?thesis using sum by (intro exI [of _ 1]) (auto simp: word_le_nat_alt)
  next
    case False
    then obtain qs where rest: "gather required r es = Inr (qs, t)" and ps: "ps = p # qs"
      using 2(2) r by (auto simp: and_then_eq_Inr)
    have ok: "ok_or ''selected input total overflows'' (checked_add running (out_amount o1)) = Inr r"
      using r by (simp add: ok_or_eq_Inr)
    obtain n where n: "qs = map fst (take n es)" "unat t = unat r + sum_list (map output_value (take n es))"
      "required \<le> t \<longrightarrow> n = 0 \<or> required \<le> r \<or> unat r + sum_list (map output_value (take (n - 1) es)) < unat required"
      using 2(1) [OF ok False rest] by blast
    have "n = 0 \<longrightarrow> unat r < unat required" using False by (simp add: word_le_nat_alt not_le)
    then show ?thesis
      using n ps sum False by (intro exI [of _ "Suc n"]) (cases n; auto)
  qed
qed

text \<open>Gathering from the largest outputs takes the least number of outputs that suffices.\<close>

lemma gather_fewest:
  assumes "gather required 0 (by_falling_amount es) = Inr (ps, t)" and "required \<le> t" and "0 < unat required"
    and "distinct es" and "S \<subseteq> set es" and "unat required \<le> (\<Sum>e\<in>S. output_value e)"
  shows "length ps \<le> card S"
proof -
  let ?es = "by_falling_amount es"
  obtain n where n: "ps = map fst (take n ?es)"
    "n = 0 \<or> sum_list (map output_value (take (n - 1) ?es)) < unat required"
    using gather_spec [OF assms(1)] assms(2,3) by (auto simp: word_le_nat_alt)
  have "unat required \<le> sum_list (map output_value (take (card S) ?es))"
    using sum_le_prefix [OF by_falling_sorted [of es], of S] assms(4-6) by simp
  moreover have "sum_list (map output_value (take k ?es)) \<le> sum_list (map output_value (take (n - 1) ?es))"
    if "k \<le> n - 1" for k
  proof -
    have "take (k + (n - 1 - k)) ?es = take k ?es @ take (n - 1 - k) (drop k ?es)"
      by (rule take_add)
    moreover have "k + (n - 1 - k) = n - 1" using that by simp
    ultimately have "take (n - 1) ?es = take k ?es @ take (n - 1 - k) (drop k ?es)" by simp
    then show ?thesis by simp
  qed
  ultimately have "n = 0 \<or> \<not> card S \<le> n - 1" using n(2) by (meson leD le_trans)
  then show ?thesis using n(1) by auto
qed

lemma smallest_sufficient_spec:
  assumes "smallest_sufficient required es = Some e"
  shows "e \<in> set es \<and> required \<le> out_amount (snd e) \<and>
    (\<forall>e'\<in>set es. required \<le> out_amount (snd e') \<longrightarrow> out_amount (snd e) \<le> out_amount (snd e'))"
proof -
  let ?key = "\<lambda>(p, output). (out_amount output, p)" and ?ok = "filter (\<lambda>(p, output). required \<le> out_amount output) es"
  obtain rest where sort: "sort_key ?key ?ok = e # rest"
    using assms by (auto simp: smallest_sufficient_def split: list.splits)
  have "sorted (map ?key (e # rest))" unfolding sort [symmetric] by (rule sorted_sort_key)
  then have least: "\<forall>e'\<in>set rest. ?key e \<le> ?key e'" by simp
  have all: "set (e # rest) = set ?ok" using sort by (metis set_sort)
  then have "e \<in> set ?ok" by auto
  moreover have "out_amount (snd e) \<le> out_amount (snd e')" if "e' \<in> set es" "required \<le> out_amount (snd e')" for e'
  proof -
    have "e' \<in> set (e # rest)" unfolding all using that by (auto simp: case_prod_unfold)
    then show ?thesis using least by (auto simp: case_prod_unfold less_eq_prod_def)
  qed
  ultimately show ?thesis by (auto simp: case_prod_unfold)
qed

lemma smallest_sufficient_None:
  "smallest_sufficient required es = None \<Longrightarrow> e \<in> set es \<Longrightarrow> \<not> required \<le> out_amount (snd e)"
proof -
  assume "smallest_sufficient required es = None" and e: "e \<in> set es"
  then have "sort_key (\<lambda>(p, output). (out_amount output, p)) (filter (\<lambda>(p, output). required \<le> out_amount output) es) = []"
    by (auto simp: smallest_sufficient_def split: list.splits)
  then have "filter (\<lambda>(p, output). required \<le> out_amount output) es = []"
    by (metis set_empty set_sort)
  then show "\<not> required \<le> out_amount (snd e)" using e by (auto simp: filter_empty_conv)
qed

section \<open>Transfers\<close>

lemma select_outpoint_step_eq_Inr:
  "select_outpoint_step m address (seen, running) p = Inr s \<longleftrightarrow>
    (\<exists>o1 r. p \<notin> seen \<and> bt_get m p = Some o1 \<and> out_address o1 = address \<and>
      checked_add running (out_amount o1) = Some r \<and> s = (insert p seen, r))"
  by (auto simp: select_outpoint_step_def and_then_eq_Inr ok_or_eq_Inr if_bail_eq_Inr)

lemma select_outpoints_spec:
  assumes "try_fold (select_outpoint_step m address) (seen, running) ps = Inr (seen', t)"
  shows "distinct ps \<and> set ps \<inter> seen = {} \<and>
    (\<forall>p\<in>set ps. \<exists>output. bt_get m p = Some output \<and> out_address output = address) \<and>
    unat t = unat running + (\<Sum>p\<leftarrow>ps. case bt_get m p of Some output \<Rightarrow> unat (out_amount output) | None \<Rightarrow> 0)"
  using assms
proof (induction ps arbitrary: seen running)
  case (Cons p ps)
  obtain o1 r where step: "p \<notin> seen" "bt_get m p = Some o1" "out_address o1 = address"
      "checked_add running (out_amount o1) = Some r"
    and rest: "try_fold (select_outpoint_step m address) (insert p seen, r) ps = Inr (seen', t)"
    using Cons.prems by (auto simp: and_then_eq_Inr select_outpoint_step_eq_Inr)
  from Cons.IH [OF rest] step show ?case by (auto simp: arith_simps)
qed simp

text \<open>A built transfer: its parts, its balance, and the checks it has passed.\<close>

lemma built_transfer:
  assumes "build_transfer_with_inputs cr lg w to amt f ps = Inr tx"
  defines "m \<equiv> utxos_after_spendable_pending cr lg"
  shows "\<exists>change sig.
    tx = Transfer (signed_inputs sig (map (unsigned_input (wallet_address w)) ps))
      (\<lparr>out_address = to, out_amount = amt\<rparr> # own_output w change) f sig \<and>
    distinct ps \<and> ps \<noteq> [] \<and>
    (\<forall>p\<in>set ps. \<exists>output. bt_get m p = Some output \<and> out_address output = wallet_address w) \<and>
    (\<Sum>p\<leftarrow>ps. case bt_get m p of Some output \<Rightarrow> unat (out_amount output) | None \<Rightarrow> 0) = unat amt + unat f + unat change"
    and "validate_new_transaction cr lg tx = Inr ()"
proof -
  let ?ins = "map (unsigned_input (wallet_address w)) ps"
  obtain required seen t change where
    required: "checked_add amt f = Some required"
    and loop: "try_fold (select_outpoint_step m (wallet_address w)) ({}, 0) ps = Inr (seen, t)" "ps \<noteq> []"
    and change: "checked_sub t required = Some change"
    and sign: "sign_transaction cr (UTransfer ?ins (\<lparr>out_address = to, out_amount = amt\<rparr> # own_output w change) f) w
      (transaction_signing_domain lg) = Inr tx"
    and valid: "validate_new_transaction cr lg tx = Inr ()"
    using assms(1)
    by (auto simp: build_transfer_with_inputs_def select_inputs_by_outpoint_def and_then_eq_Inr ok_or_eq_Inr
        if_bail_eq_Inr m_def)
  obtain sig where tx: "tx = Transfer (signed_inputs sig ?ins) (\<lparr>out_address = to, out_amount = amt\<rparr> # own_output w change) f sig"
    using sign by (auto simp: sign_transaction_def and_then_eq_Inr signed_inputs_def Let_def)
  have "unat t = unat amt + unat f + unat change"
    using required change by (simp add: arith_simps)
  with select_outpoints_spec [OF loop(1)] tx loop(2)
  show "\<exists>change sig.
    tx = Transfer (signed_inputs sig ?ins) (\<lparr>out_address = to, out_amount = amt\<rparr> # own_output w change) f sig \<and>
    distinct ps \<and> ps \<noteq> [] \<and>
    (\<forall>p\<in>set ps. \<exists>output. bt_get m p = Some output \<and> out_address output = wallet_address w) \<and>
    (\<Sum>p\<leftarrow>ps. case bt_get m p of Some output \<Rightarrow> unat (out_amount output) | None \<Rightarrow> 0) = unat amt + unat f + unat change"
    by (intro exI [of _ change] exI [of _ sig]) simp
  show "validate_new_transaction cr lg tx = Inr ()" by (rule valid)
qed

lemma available_distinct:
  assumes "available_utxos_for_address cr lg address = Inr es"
  shows "distinct es" and "\<forall>e\<in>set es. out_address (snd e) = address"
proof -
  obtain m where es: "es = filter (\<lambda>(p, output). out_address output = address) (bt_entries m)"
    using assms by (auto simp: available_utxos_for_address_def and_then_eq_Inr)
  have "distinct (map fst (bt_entries m))" by transfer (rule strict_keys_distinct)
  then show "distinct es" unfolding es by (simp add: distinct_map)
  show "\<forall>e\<in>set es. out_address (snd e) = address" unfolding es by auto
qed

text \<open>The transfer builder spends the fewest outputs that cover the amount and the fee.\<close>

lemma transfer_fewest:
  assumes "build_transfer cr lg w to amt f = Inr tx"
    and "available_utxos_for_address cr lg (wallet_address w) = Inr es"
    and "S \<subseteq> set es" and "unat amt + unat f \<le> (\<Sum>e\<in>S. output_value e)" and "0 < unat amt + unat f"
  shows "length (inputs tx) \<le> card S"
proof -
  obtain required where required: "unat required = unat amt + unat f"
    and run: "(case smallest_sufficient required es of
        Some e \<Rightarrow> build_transfer_with_inputs cr lg w to amt f [fst e]
      | None \<Rightarrow> and_then (gather required 0 (by_falling_amount es)) (\<lambda>(points, input_total).
          if input_total < required then bail (''insufficient funds for '' @ wallet_address w)
          else build_transfer_with_inputs cr lg w to amt f points)) = Inr tx"
    using assms(1,2) by (auto simp: build_transfer_def and_then_eq_Inr ok_or_eq_Inr arith_simps)
  have ins: "length (inputs tx) = length ps" if "build_transfer_with_inputs cr lg w to amt f ps = Inr tx" for ps
    using built_transfer(1) [OF that] by (auto simp: signed_inputs_def)
  have "finite S" using assms(3) finite_subset by blast
  moreover have "S \<noteq> {}" using assms(4,5) by auto
  ultimately have "1 \<le> card S" by (simp add: Suc_le_eq card_gt_0_iff)
  show ?thesis
  proof (cases "smallest_sufficient required es")
    case (Some e)
    then show ?thesis using run ins [of "[fst e]"] \<open>1 \<le> card S\<close> by simp
  next
    case None
    then obtain ps t where ps: "gather required 0 (by_falling_amount es) = Inr (ps, t)" "required \<le> t"
      "build_transfer_with_inputs cr lg w to amt f ps = Inr tx"
      using run by (auto simp: and_then_eq_Inr if_bail_eq_Inr not_less)
    show ?thesis
      using gather_fewest [OF ps(1,2) _ available_distinct(1) [OF assms(2)] assms(3)] required assms(4,5) ins [OF ps(3)]
      by simp
  qed
qed

end
