(* ===== verification/V2_Builder_Facts.thy ===== *)
theory V2_Builder_Facts
  imports Hybrid_Wallet_Facts Ledger_V2_Facts Builder_Facts
begin

text \<open>
  What the version 2 builders return: transactions whose authorizations verify and satisfy the
  policy of the next height, that fit a block, and whose inputs pay exactly for the outputs, the fee
  and the burn. A transfer applies to the unspent outputs that it was built from.
\<close>

section \<open>The shared end\<close>

lemma sign_and_verify_spec:
  assumes "sign_and_verify cr lg w d draft = Inr tx"
  shows "\<exists>auths. tx = set_authorizations auths draft"
    and "validate_authorization_policy_at_height cr tx (saturating_add (ledger_height lg) 1) = Inr ()"
    and "verify_authorizations cr tx d = Inr ()"
  using assms by (auto simp: sign_and_verify_def Let_def and_then_eq_Inr)

lemma sign_within_budget_spec:
  assumes "sign_within_budget cr lg w d draft = Inr tx"
  shows "\<exists>auths. tx = set_authorizations auths draft"
    and "validate_authorization_policy_at_height cr tx (saturating_add (ledger_height lg) 1) = Inr ()"
    and "verify_authorizations cr tx d = Inr ()"
    and "\<exists>bs. v2_encode tx d = Inr bs \<and> length bs \<le> max_block_bytes (launch_profile lg)"
  using assms sign_and_verify_spec [of cr lg w d draft tx]
  by (auto simp: sign_within_budget_def and_then_eq_Inr ensure_v2_transaction_within_block_budget_def if_bail_eq_Inr)

section \<open>Choosing inputs\<close>

lemma list_all2_right: "list_all2 P xs ys \<Longrightarrow> y \<in> set ys \<Longrightarrow> \<exists>x\<in>set xs. P x y"
  by (auto simp: list_all2_conv_all_nth in_set_conv_nth) (metis nth_mem)

abbreviation owned_value :: "owned_output \<Rightarrow> nat" where
  "owned_value e \<equiv> unat (out_amount (fst (snd e)))"

text \<open>An input spends an output that is available to the owner it names.\<close>

definition spends :: "TransactionV2Input \<Rightarrow> owned_output \<Rightarrow> bool" where
  "spends i e \<longleftrightarrow> owned_input (fst e) (snd (snd e)) = Inr i"

lemma gather_v2_spec:
  assumes "gather_v2 required running es = Inr (ins, t)"
  shows "\<exists>n. list_all2 spends ins (take n es) \<and> unat t = unat running + sum_list (map owned_value (take n es))"
  using assms
proof (induction required running es arbitrary: ins t rule: gather_v2.induct)
  case (1 required running)
  then show ?case by (intro exI [of _ 0]) simp
next
  case (2 required running p o1 owner es)
  obtain r i where r: "checked_add running (out_amount o1) = Some r" and i: "owned_input p owner = Inr i"
    using 2(2) by (auto simp: and_then_eq_Inr ok_or_eq_Inr)
  have sum: "unat r = unat running + unat (out_amount o1)" using r by (simp add: arith_simps)
  have first: "spends i (p, o1, owner)" using i by (simp add: spends_def)
  show ?case
  proof (cases "required \<le> r")
    case True
    then have "ins = [i]" "t = r" using 2(2) r i by auto
    then show ?thesis using sum first by (intro exI [of _ 1]) simp
  next
    case False
    then obtain ins' where rest: "gather_v2 required r es = Inr (ins', t)" and ins: "ins = i # ins'"
      using 2(2) r i by (auto simp: and_then_eq_Inr)
    have ok: "ok_or ''transaction v2 input total overflows'' (checked_add running (out_amount o1)) = Inr r"
      using r by (simp add: ok_or_eq_Inr)
    obtain n where "list_all2 spends ins' (take n es)" "unat t = unat r + sum_list (map owned_value (take n es))"
      using 2(1) [OF ok i False rest] by blast
    then show ?thesis using ins sum first by (intro exI [of _ "Suc n"]) simp
  qed
qed

lemma select_owned_spec:
  assumes "try_fold (select_owned_step m) (seen, running, ins0) ps = Inr (seen', t, ins)"
  shows "\<exists>es ins'. map fst es = ps \<and> distinct ps \<and> set ps \<inter> seen = {} \<and> ins = ins0 @ ins' \<and>
    list_all2 spends ins' es \<and> (\<forall>e\<in>set es. bt_get m (fst e) = Some (snd e)) \<and>
    unat t = unat running + sum_list (map owned_value es)"
  using assms
proof (induction ps arbitrary: seen running ins0)
  case Nil
  then show ?case by (intro exI [of _ "[]"]) simp
next
  case (Cons p ps)
  obtain o1 owner r i where step: "p \<notin> seen" "bt_get m p = Some (o1, owner)"
      "checked_add running (out_amount o1) = Some r" "owned_input p owner = Inr i"
    and rest: "try_fold (select_owned_step m) (insert p seen, r, ins0 @ [i]) ps = Inr (seen', t, ins)"
    using Cons.prems by (auto simp: and_then_eq_Inr select_owned_step_def [of _ _ p] ok_or_eq_Inr if_bail_eq_Inr)
  obtain es ins' where IH: "map fst es = ps" "distinct ps" "set ps \<inter> insert p seen = {}" "ins = (ins0 @ [i]) @ ins'"
      "list_all2 spends ins' es" "\<forall>e\<in>set es. bt_get m (fst e) = Some (snd e)" "unat t = unat r + sum_list (map owned_value es)"
    using Cons.IH [OF rest] by blast
  show ?case
    using IH step by (intro exI [of _ "(p, o1, owner) # es"] exI [of _ "i # ins'"])
      (auto simp: spends_def [of i] arith_simps)
qed

text \<open>The outputs that are available to the owners, in the unspent outputs after the pool.\<close>

lemma owned_outputs_of_spec:
  assumes "owned_outputs_of cr lg owner = Inr es" and "utxos_after_all_spendable_pending cr lg = Inr m"
  shows "distinct (map fst es)"
    and "\<forall>e\<in>set es. bt_get m (fst e) = Some (fst (snd e)) \<and> snd (snd e) = owner \<and>
      encode_versioned_address cr owner (ledger_network lg) = Inr (out_address (fst (snd e)))"
proof -
  obtain s where s: "encode_versioned_address cr owner (ledger_network lg) = Inr s"
    and es: "es = map (\<lambda>(p, o1). (p, o1, owner)) (filter (\<lambda>(p, o1). out_address o1 = s) (bt_entries m))"
    using assms by (auto simp: owned_outputs_of_def available_utxos_for_address_def and_then_eq_Inr)
  have "distinct (map fst (bt_entries m))" by transfer (rule strict_keys_distinct)
  then have "distinct (map fst (filter (\<lambda>(p, o1). out_address o1 = s) (bt_entries m)))"
    by (simp add: distinct_map inj_on_def)
  moreover have "map fst es = map fst (filter (\<lambda>(p, o1). out_address o1 = s) (bt_entries m))"
    unfolding es map_map by (intro map_cong) auto
  ultimately show "distinct (map fst es)" by simp
  show "\<forall>e\<in>set es. bt_get m (fst e) = Some (fst (snd e)) \<and> snd (snd e) = owner \<and>
      encode_versioned_address cr owner (ledger_network lg) = Inr (out_address (fst (snd e)))"
    using s by (auto simp: es bt_entries_iff)
qed

definition available_in :: "crypto \<Rightarrow> AddressNetwork \<Rightarrow> utxos \<Rightarrow> owned_output \<Rightarrow> bool" where
  "available_in cr network m e \<longleftrightarrow> bt_get m (fst e) = Some (fst (snd e)) \<and>
     encode_versioned_address cr (snd (snd e)) network = Inr (out_address (fst (snd e)))"

lemma owned_outputs_spec:
  assumes "owned_outputs cr lg w = (Inr es, w')" and "utxos_after_all_spendable_pending cr lg = Inr m" and "cache_sound cr w"
  shows "\<forall>e\<in>set es. available_in cr (ledger_network lg) m e \<and> snd (snd e) \<in> signable cr w'" and "wallet_extends cr w w'"
proof -
  obtain owners ess where owners: "wallet_owned_hybrid_addresses cr lg w = (Inr owners, w')"
    and ess: "list_all2 (\<lambda>owner es. owned_outputs_of cr lg owner = Inr es) owners ess" and es: "es = concat ess"
    using assms(1) by (auto simp: owned_outputs_def st_then_eq and_then_eq_Inr try_map_eq_Inr)
  note spec = wallet_owned_spec [OF owners assms(3)]
  show "wallet_extends cr w w'" by (rule spec(1))
  have "\<exists>owner\<in>set owners. owned_outputs_of cr lg owner = Inr es'" if "es' \<in> set ess" for es'
    using list_all2_right [OF ess that] .
  then show "\<forall>e\<in>set es. available_in cr (ledger_network lg) m e \<and> snd (snd e) \<in> signable cr w'"
    using owned_outputs_of_spec(2) [OF _ assms(2)] spec(2) by (force simp: es available_in_def)
qed

section \<open>Transfers\<close>

text \<open>All outpoints of the map name their transaction in canonical hexadecimal.\<close>

definition canonical_outpoints :: "utxos \<Rightarrow> bool" where
  "canonical_outpoints m \<longleftrightarrow> (\<forall>p. bt_get m p \<noteq> None \<longrightarrow> (\<exists>bs. op_txid p = hex_encode bs))"

lemma spends_outpoint:
  assumes "spends i e" and "available_in cr network m e" and "canonical_outpoints m"
  shows "v2_input_outpoint i = fst e" and "v2in_owner i = snd (snd e)"
proof -
  obtain bs where bs: "op_txid (fst e) = hex_encode bs"
    using assms(2,3) unfolding available_in_def canonical_outpoints_def by blast
  then have "i = \<lparr>v2in_txid = bs, v2in_index = op_index (fst e), v2in_owner = snd (snd e)\<rparr>"
    using assms(1) by (auto simp: spends_def owned_input_def and_then_eq_Inr with_context_eq_Inr decode_hex_array_eq_Inr)
  then show "v2_input_outpoint i = fst e" "v2in_owner i = snd (snd e)"
    using bs by (simp_all add: v2_input_outpoint_def OutPoint.expand)
qed

lemma spend_available:
  assumes "list_all2 spends ins es" and "\<forall>e\<in>set es. available_in cr network m e"
    and "\<forall>e\<in>set es. addr_version (snd (snd e)) = HybridKeyCommitment" and "canonical_outpoints m"
    and "distinct (map v2_input_outpoint ins)" and "unat running + sum_list (map owned_value es) < 2 ^ 64"
  shows "\<exists>t. try_fold (v2_spend_step cr msg) (running, m) (map (\<lambda>i. (v2_input_outpoint i, v2in_owner i, network)) ins) =
      Inr (t, bt.del_all (map v2_input_outpoint ins) m) \<and> unat t = unat running + sum_list (map owned_value es)"
  using assms
proof (induction arbitrary: running m rule: list_all2_induct)
  case (Cons i ins e es)
  have avail: "available_in cr network m e" and hybrid: "addr_version (snd (snd e)) = HybridKeyCommitment"
    using Cons.prems by auto
  note point = spends_outpoint [OF Cons.hyps(1) avail Cons.prems(3)]
  define r where "r = running + out_amount (fst (snd e))"
  have r: "checked_add running (out_amount (fst (snd e))) = Some r" "unat r = unat running + owned_value e"
    using Cons.prems(5) by (auto simp: r_def checked_add_def unat_word_ariths)
  have step: "v2_spend_step cr msg (running, m) (v2_input_outpoint i, v2in_owner i, network) = Inr (r, bt_remove (fst e) m)"
    using avail hybrid r point by (auto simp: v2_spend_step_def available_in_def internal_address_def)
  let ?m = "bt_remove (fst e) m"
  have "available_in cr network ?m e'" if "e' \<in> set es" for e'
  proof -
    obtain j where "j \<in> set ins" "spends j e'"
      using list_all2_right [OF Cons.hyps(2) \<open>e' \<in> set es\<close>] by blast
    moreover have avail': "available_in cr network m e'" using Cons.prems(1) that by simp
    ultimately have "v2_input_outpoint j = fst e'" using spends_outpoint(1) Cons.prems(3) by blast
    moreover have "v2_input_outpoint j \<in> set (map v2_input_outpoint ins)" using \<open>j \<in> set ins\<close> by simp
    moreover have "v2_input_outpoint i \<notin> set (map v2_input_outpoint ins)" using Cons.prems(4) by simp
    ultimately have "fst e' \<noteq> fst e" using point(1) by metis
    then show ?thesis using Cons.prems(1) that by (simp add: available_in_def)
  qed
  moreover have "canonical_outpoints ?m" using Cons.prems(3) by (simp add: canonical_outpoints_def)
  ultimately obtain t where "try_fold (v2_spend_step cr msg) (r, ?m) (map (\<lambda>i. (v2_input_outpoint i, v2in_owner i, network)) ins) =
      Inr (t, bt.del_all (map v2_input_outpoint ins) ?m)" "unat t = unat r + sum_list (map owned_value es)"
    using Cons.IH [of ?m r] Cons.prems(2,4,5) r(2) by auto
  then show ?case using step point r(2) by simp
qed simp

text \<open>No output of a new transaction is unspent already.\<close>

definition fresh_outputs :: "crypto \<Rightarrow> TransactionV2 \<Rightarrow> TransactionV2Domain \<Rightarrow> utxos \<Rightarrow> bool" where
  "fresh_outputs cr tx d m \<longleftrightarrow>
     (\<forall>txid. transaction_id cr tx d = Inr txid \<longrightarrow> (\<forall>i. bt_get m (OutPoint (hex_encode txid) i) = None))"

lemma insert_outputs:
  assumes "\<forall>o1\<in>set outs. addr_version (v2out_address o1) = HybridKeyCommitment"
    and "\<forall>j\<ge>n. j < 2 ^ 32 \<longrightarrow> bt_get m (OutPoint txid (word_of_nat j)) = None" and "n + length outs < 2 ^ 32"
  shows "\<exists>m'. try_fold (insert_v2_output cr txid network) m (enumerate n outs) = Inr m'"
  using assms
proof (induction outs arbitrary: n m)
  case (Cons o1 outs)
  obtain s where s: "encode_versioned_address cr (v2out_address o1) network = Inr s"
    using encode_hybrid_address [of "v2out_address o1" cr network] Cons.prems(1) by auto
  let ?m = "bt_insert (OutPoint txid (word_of_nat n)) \<lparr>out_address = s, out_amount = v2out_amount o1\<rparr> m"
  have "insert_v2_output cr txid network m (n, o1) = Inr ?m"
    using Cons.prems s by (simp add: insert_v2_output_eq_Inr internal_address_def)
  moreover have "\<forall>j\<ge>Suc n. j < 2 ^ 32 \<longrightarrow> bt_get ?m (OutPoint txid (word_of_nat j)) = None"
    using Cons.prems(2,3) by (auto simp: word_of_nat_eq_iff take_bit_nat_eq_self)
  ultimately show ?case using Cons.IH [of "Suc n" ?m] Cons.prems(1,3) by simp
qed simp

lemma set_authorizations_simps [simp]:
  "v2_outputs (set_authorizations auths tx) = v2_outputs tx"
  "v2_fee (set_authorizations auths tx) = v2_fee tx"
  "v2_burned (set_authorizations auths tx) = v2_burned tx"
  "transaction_v2_outpoints (set_authorizations auths tx) = transaction_v2_outpoints tx"
  by (cases tx; simp)+

lemma verified_shape: "verify_authorizations cr tx d = Inr () \<Longrightarrow> validate_unsigned_shape tx = Inr ()"
  by (auto simp: verify_authorizations_def v2_signing_bytes_def and_then_eq_Inr)

lemma distinct_outpoints:
  assumes "distinct (map (\<lambda>i. (v2in_txid i, v2in_index i)) ins)"
  shows "distinct (map v2_input_outpoint ins)"
  using assms by (auto simp: distinct_conv_nth v2_input_outpoint_def)

lemma sum_outputs_fits:
  assumes "unat s + v2_amounts outs < 2 ^ 64"
  shows "\<exists>c. try_fold (\<lambda>running o1. ok_or msg (checked_add running (v2out_amount o1))) s outs = Inr c"
  using assms
proof (induction outs arbitrary: s)
  case (Cons o1 outs)
  then have "unat (s + v2out_amount o1) = unat s + unat (v2out_amount o1)"
    "checked_add s (v2out_amount o1) = Some (s + v2out_amount o1)"
    by (auto simp: checked_add_def unat_word_ariths)
  then show ?case using Cons by simp
qed simp

text \<open>
  A signed transfer whose inputs spend available outputs, and whose outputs and fee add up to them,
  applies to the unspent outputs it was built from.
\<close>

lemma signed_transfer_applies:
  assumes sign: "sign_within_budget cr lg w d (V2Transfer ins outs f []) = Inr tx"
    and spends: "list_all2 spends ins es" "\<forall>e\<in>set es. available_in cr network m e"
      "\<forall>e\<in>set es. addr_version (snd (snd e)) = HybridKeyCommitment" "canonical_outpoints m"
    and total: "sum_list (map owned_value es) = v2_amounts outs + unat f" "sum_list (map owned_value es) < 2 ^ 64"
    and fresh: "fresh_outputs cr tx d m"
  shows "\<exists>m'. apply_transaction_v2_to_utxos cr tx d network m = Inr m'"
proof -
  obtain auths where tx: "tx = V2Transfer ins outs f auths"
    using sign_within_budget_spec(1) [OF sign] by auto
  have verified: "verify_authorizations cr tx d = Inr ()" by (rule sign_within_budget_spec(3) [OF sign])
  obtain bs where encoded: "v2_encode tx d = Inr bs" using sign_within_budget_spec(4) [OF sign] by blast
  then obtain txid where txid: "transaction_id cr tx d = Inr txid" by (simp add: transaction_id_def)
  have shape: "length outs \<le> 1000" "\<forall>o1\<in>set outs. addr_version (v2out_address o1) = HybridKeyCommitment"
    "distinct (map (\<lambda>i. (v2in_txid i, v2in_index i)) ins)"
    using verified_shape [OF verified]
    by (auto simp: tx validate_unsigned_shape_def if_bail_eq_Inr MAX_V2_OUTPUTS_def list_ex_iff)
  note distinct = distinct_outpoints [OF shape(3)]
  obtain t where t: "spend_v2_inputs cr ins network m = Inr (t, bt.del_all (map v2_input_outpoint ins) m)"
      "unat t = sum_list (map owned_value es)"
    using spend_available [OF spends distinct, of 0 "''transaction v2 input owner does not match the referenced output''"]
      total(2) by (auto simp: spend_v2_inputs_def)
  let ?m = "bt.del_all (map v2_input_outpoint ins) m"
  have "\<exists>m'. try_fold (insert_v2_output cr (hex_encode txid) network) ?m (enumerate 0 outs) = Inr m'"
    using fresh txid shape(1) by (intro insert_outputs [OF shape(2)]) (auto simp: fresh_outputs_def bt.get_del_all)
  then obtain m' where inserted: "try_fold (insert_v2_output cr (hex_encode txid) network) ?m (enumerate 0 outs) = Inr m'"
    by blast
  obtain credited where credited: "sum_outputs outs = Inr credited"
    using sum_outputs_fits [of 0 outs] total by (auto simp: sum_outputs_def)
  note val = sum_outputs_eq_Inr [OF credited]
  have sum: "unat (credited + f) = unat credited + unat f"
    using total val by (simp add: unat_word_ariths)
  have with_fee: "checked_add credited f = Some t"
    using total val t(2) sum by (auto simp: checked_add_def word_unat_eq_iff)
  have "checked_add t 0 = Some t" using total(2) t(2) by (simp add: checked_add_def)
  then have "apply_transaction_v2_to_utxos cr tx d network m = Inr m'"
    using t(1) verified txid inserted credited with_fee
    by (simp add: apply_transaction_v2_to_utxos_def apply_transaction_v2_to_utxos_with_policy_def tx)
  then show ?thesis by blast
qed

lemma bt_of_list_entry: "bt_get (bt_of_list es) k = Some v \<Longrightarrow> (k, v) \<in> set es"
proof -
  have "bt_get (foldl (\<lambda>m e. bt_insert (fst e) (snd e) m) m es) k = Some v \<Longrightarrow> (k, v) \<in> set es \<or> bt_get m k = Some v" for m
  proof (induction es arbitrary: m)
    case (Cons e es)
    from Cons.IH [of "bt_insert (fst e) (snd e) m"] Cons.prems show ?case by (cases e) (auto split: if_splits)
  qed simp
  from this [of bt_empty] show "bt_get (bt_of_list es) k = Some v \<Longrightarrow> (k, v) \<in> set es"
    by (auto simp: bt_of_list_def)
qed

text \<open>What the last step of a transfer adds to its inputs.\<close>

lemma finish_v2_transfer_spec:
  assumes "finish_v2_transfer cr lg w recipient amt f ins t = (Inr tx, w')" and "cache_sound cr w"
    and "unat amt + unat f \<le> unat t" and "addr_version recipient = HybridKeyCommitment"
  obtains outs d w1 where "transaction_v2_domain lg = Inr d" "sign_within_budget cr lg w1 d (V2Transfer ins outs f []) = Inr tx"
    "hd outs = \<lparr>v2out_address = recipient, v2out_amount = amt\<rparr>" "unat t = v2_amounts outs + unat f"
    "\<forall>o1\<in>set (tl outs). v2out_address o1 \<in> signable cr w'" "wallet_extends cr w w'"
proof -
  obtain required where required: "checked_add amt f = Some required"
    using assms(1) by (auto simp: finish_v2_transfer_def st_check_eq ok_or_eq_Inr)
  have r: "unat required = unat amt + unat f" using required by (simp add: arith_simps)
  let ?change = "t - required"
  have change: "unat ?change = unat t - unat required" using assms(3) r by (simp add: unat_sub word_le_nat_alt)
  show ?thesis
  proof (cases "0 < ?change")
    case True
    obtain as a d where ext: "wallet_external_addresses cr lg w = (Inr as, w')"
      and a: "last_address ''wallet change address is unavailable'' as = Inr a" and d: "transaction_v2_domain lg = Inr d"
      and tx: "sign_within_budget cr lg w' d (V2Transfer ins [\<lparr>v2out_address = recipient, v2out_amount = amt\<rparr>,
        \<lparr>v2out_address = a, v2out_amount = ?change\<rparr>] f []) = Inr tx"
      using assms(1) True required
      by (auto simp: finish_v2_transfer_def st_check_eq st_then_eq ok_or_eq_Inr and_then_eq_Inr)
    note spec = wallet_external_addresses_spec [OF ext assms(2)]
    have "a = snd (last as)" using a spec(3) by (simp add: last_address_def)
    then have "a \<in> signable cr w'" using spec(2,3) by auto
    then show ?thesis using that [OF d tx] spec(1) change r assms(3) by simp
  next
    case False
    then obtain d where d: "transaction_v2_domain lg = Inr d" "w' = w"
      and tx: "sign_within_budget cr lg w d (V2Transfer ins [\<lparr>v2out_address = recipient, v2out_amount = amt\<rparr>] f []) = Inr tx"
      using assms(1) required by (auto simp: finish_v2_transfer_def st_check_eq st_then_eq ok_or_eq_Inr and_then_eq_Inr)
    have "unat t = unat required" using False change assms(3) r by (simp add: word_less_nat_alt)
    then show ?thesis using that [OF d(1) tx] d(2) r by simp
  qed
qed

theorem built_v2_transfer_applies:
  assumes "build_v2_transfer cr lg w recipient amt f = (Inr tx, w') \<or>
      build_v2_transfer_with_inputs cr lg w recipient amt f outpoints = (Inr tx, w')"
    and sound: "cache_sound cr w" and m: "utxos_after_all_spendable_pending cr lg = Inr m" "canonical_outpoints m"
    and d: "transaction_v2_domain lg = Inr d" and fresh: "fresh_outputs cr tx d m"
  shows "\<exists>m'. apply_transaction_v2_to_utxos cr tx d (ledger_network lg) m = Inr m'"
    and "validate_authorization_policy_at_height cr tx (saturating_add (ledger_height lg) 1) = Inr ()"
    and "hd (v2_outputs tx) = \<lparr>v2out_address = recipient, v2out_amount = amt\<rparr>" and "v2_fee tx = f"
    and "\<forall>o1\<in>set (tl (v2_outputs tx)). v2out_address o1 \<in> signable cr w'"
proof -
  obtain available w1 ins t es where avail: "owned_outputs cr lg w = (Inr available, w1)"
    and ins: "list_all2 spends ins es" "set es \<subseteq> set available" "unat t = sum_list (map owned_value es)"
    and finish: "finish_v2_transfer cr lg w1 recipient amt f ins t = (Inr tx, w')"
    and covered: "unat amt + unat f \<le> unat t" and hybrid: "addr_version recipient = HybridKeyCommitment"
    using assms(1)
  proof
    assume "build_v2_transfer cr lg w recipient amt f = (Inr tx, w')"
    then obtain required available w1 ins t where b: "checked_add amt f = Some required"
        "owned_outputs cr lg w = (Inr available, w1)"
        "gather_v2 required 0 (owned_by_falling_amount available) = Inr (ins, t)" "required \<le> t"
        "finish_v2_transfer cr lg w1 recipient amt f ins t = (Inr tx, w')" "addr_version recipient = HybridKeyCommitment"
      by (auto simp: build_v2_transfer_def st_check_eq st_then_eq ok_or_eq_Inr check_v2_transfer_def if_bail_eq_Inr
          not_less split: if_splits)
    obtain n where n: "list_all2 spends ins (take n (owned_by_falling_amount available))"
        "unat t = sum_list (map owned_value (take n (owned_by_falling_amount available)))"
      using gather_v2_spec [OF b(3)] by auto
    have "set (take n (owned_by_falling_amount available)) \<subseteq> set available"
      using set_take_subset [of n "owned_by_falling_amount available"] by (simp add: owned_by_falling_amount_def)
    then show ?thesis using that [OF b(2) n(1) _ n(2) b(5) _ b(6)] b(1,4) by (simp add: arith_simps word_le_nat_alt)
  next
    assume "build_v2_transfer_with_inputs cr lg w recipient amt f outpoints = (Inr tx, w')"
    then obtain required available w1 ins t seen where b: "checked_add amt f = Some required"
        "owned_outputs cr lg w = (Inr available, w1)"
        "try_fold (select_owned_step (bt_of_list available)) ({}, 0, []) outpoints = Inr (seen, t, ins)" "required \<le> t"
        "finish_v2_transfer cr lg w1 recipient amt f ins t = (Inr tx, w')" "addr_version recipient = HybridKeyCommitment"
      by (auto simp: build_v2_transfer_with_inputs_def st_check_eq st_then_eq ok_or_eq_Inr check_v2_transfer_def
          if_bail_eq_Inr not_less split: if_splits)
    obtain es where es: "list_all2 spends ins es" "\<forall>e\<in>set es. bt_get (bt_of_list available) (fst e) = Some (snd e)"
        "unat t = sum_list (map owned_value es)"
      using select_owned_spec [OF b(3)] by auto
    have "set es \<subseteq> set available" using es(2) bt_of_list_entry by fastforce
    then show ?thesis using that [OF b(2) es(1) _ es(3) b(5) _ b(6)] b(1,4) by (simp add: arith_simps word_le_nat_alt)
  qed
  note owned = owned_outputs_spec [OF avail m(1) sound]
  note sound1 = wallet_extends_sound [OF owned(2) sound]
  obtain outs d' w2 where fin: "transaction_v2_domain lg = Inr d'" "sign_within_budget cr lg w2 d' (V2Transfer ins outs f []) = Inr tx"
    "hd outs = \<lparr>v2out_address = recipient, v2out_amount = amt\<rparr>" "unat t = v2_amounts outs + unat f"
    "\<forall>o1\<in>set (tl outs). v2out_address o1 \<in> signable cr w'"
    by (rule finish_v2_transfer_spec [OF finish sound1 covered hybrid])
  have "\<forall>e\<in>set es. available_in cr (ledger_network lg) m e" "\<forall>e\<in>set es. addr_version (snd (snd e)) = HybridKeyCommitment"
    using owned(1) ins(2) signable_hybrid sound1 by blast+
  note applies = signed_transfer_applies [OF fin(2) ins(1) this m(2)]
  show "\<exists>m'. apply_transaction_v2_to_utxos cr tx d (ledger_network lg) m = Inr m'"
    using applies fin(1,4) d ins(3) fresh unat_less_power [of t] by simp
  obtain auths where tx: "tx = V2Transfer ins outs f auths" using sign_within_budget_spec(1) [OF fin(2)] by auto
  show "validate_authorization_policy_at_height cr tx (saturating_add (ledger_height lg) 1) = Inr ()"
    by (rule sign_within_budget_spec(2) [OF fin(2)])
  show "hd (v2_outputs tx) = \<lparr>v2out_address = recipient, v2out_amount = amt\<rparr>" "v2_fee tx = f"
    "\<forall>o1\<in>set (tl (v2_outputs tx)). v2out_address o1 \<in> signable cr w'"
    using fin(3,5) by (simp_all add: tx)
qed

end
