(* ===== verification/Selection_Facts.thy ===== *)
theory Selection_Facts
  imports Block_Selection
begin

text \<open>
  The selection of a block's transactions is sound: whatever it returns was applied, one
  transaction after the other, to the unspent outputs of the ledger, was taken from the pools
  without repetition, contains the attested burns, and fits into a block.
\<close>

section \<open>The order of application\<close>

definition select_step ::
  "crypto \<Rightarrow> Ledger \<Rightarrow> TransactionV2Domain \<Rightarrow> utxos \<Rightarrow> Transaction + TransactionV2 \<Rightarrow> utxos result" where
  "select_step cr lg d m tx =
     (case tx of
        Inl legacy \<Rightarrow> apply_transaction cr legacy m (transaction_signing_domain lg)
      | Inr v2 \<Rightarrow> apply_prevalidated_transaction_v2_to_utxos cr v2 d (ledger_network lg) m)"

fun legacy_part :: "('a + 'b) list \<Rightarrow> 'a list" where
  "legacy_part [] = []"
| "legacy_part (Inl x # xs) = x # legacy_part xs"
| "legacy_part (Inr y # xs) = legacy_part xs"

fun v2_part :: "('a + 'b) list \<Rightarrow> 'b list" where
  "v2_part [] = []"
| "v2_part (Inl x # xs) = v2_part xs"
| "v2_part (Inr y # xs) = y # v2_part xs"

lemma part_append [simp]:
  "legacy_part (xs @ ys) = legacy_part xs @ legacy_part ys" "v2_part (xs @ ys) = v2_part xs @ v2_part ys"
  by (induction xs rule: legacy_part.induct) auto

lemma part_map [simp]:
  "legacy_part (map Inl txs) = txs" "v2_part (map Inl txs) = []"
  "legacy_part (map Inr txs') = []" "v2_part (map Inr txs') = txs'"
proof -
  show "legacy_part (map Inl txs) = txs" "v2_part (map Inl txs) = []" by (induction txs) simp_all
  show "legacy_part (map Inr txs') = []" "v2_part (map Inr txs') = txs'" by (induction txs') simp_all
qed

definition envelope_of :: "TransactionV2Domain \<Rightarrow> TransactionV2 \<Rightarrow> string \<Rightarrow> bool" where
  "envelope_of d tx e \<longleftrightarrow> (\<exists>bs. v2_encode tx d = Inr bs \<and> e = hex_encode bs)"

text \<open>
  The selection so far, applied in some order, led to the current outputs; it and the remaining
  candidates were candidates at the start, counted with repetition.
\<close>

definition selected_by ::
  "crypto \<Rightarrow> Ledger \<Rightarrow> TransactionV2Domain \<Rightarrow> (Transaction + TransactionV2) list \<Rightarrow> BlockSelection \<Rightarrow> utxos \<Rightarrow> bool" where
  "selected_by cr lg d order s m \<longleftrightarrow>
     try_fold (select_step cr lg d) (ledger_utxos lg) order = Inr m \<and>
     sel_transactions s = legacy_part order \<and> list_all2 (envelope_of d) (v2_part order) (sel_transactions_v2 s)"

definition selecting_inv :: "crypto \<Rightarrow> Ledger \<Rightarrow> TransactionV2Domain \<Rightarrow> Selecting \<Rightarrow> bool" where
  "selecting_inv cr lg d st \<longleftrightarrow>
     (\<exists>order. selected_by cr lg d order (chosen st) (sel_utxos st) \<and>
        mset (legacy_part order @ rest_legacy st) \<subseteq># mset (rest_legacy (start_selecting cr lg)) \<and>
        mset (v2_part order @ rest_v2 st) \<subseteq># mset (rest_v2 (start_selecting cr lg)))"

lemma start_inv: "selecting_inv cr lg d (start_selecting cr lg)"
proof -
  have "selected_by cr lg d [] (chosen (start_selecting cr lg)) (sel_utxos (start_selecting cr lg))"
    by (simp add: selected_by_def start_selecting_def)
  then show ?thesis unfolding selecting_inv_def by (intro exI [of _ "[]"]) simp
qed

text \<open>Every step of the selection extends the order by what it takes.\<close>

lemma selecting_extend:
  assumes "selecting_inv cr lg d st"
    and "try_fold (select_step cr lg d) (sel_utxos st) new = Inr (sel_utxos st')"
    and "sel_transactions (chosen st') = sel_transactions (chosen st) @ legacy_part new"
    and "\<exists>es. list_all2 (envelope_of d) (v2_part new) es \<and>
      sel_transactions_v2 (chosen st') = sel_transactions_v2 (chosen st) @ es"
    and "mset (legacy_part new @ rest_legacy st') \<subseteq># mset (rest_legacy st)"
    and "mset (v2_part new @ rest_v2 st') \<subseteq># mset (rest_v2 st)"
  shows "selecting_inv cr lg d st'"
proof -
  obtain order where order: "selected_by cr lg d order (chosen st) (sel_utxos st)"
    and left: "mset (legacy_part order @ rest_legacy st) \<subseteq># mset (rest_legacy (start_selecting cr lg))"
      "mset (v2_part order @ rest_v2 st) \<subseteq># mset (rest_v2 (start_selecting cr lg))"
    using assms(1) by (auto simp: selecting_inv_def)
  have "selected_by cr lg d (order @ new) (chosen st') (sel_utxos st')"
    using order assms(2-4) by (auto simp: selected_by_def try_fold_append intro: list_all2_appendI)
  moreover have "mset (legacy_part (order @ new) @ rest_legacy st') \<subseteq># mset (rest_legacy (start_selecting cr lg))"
    using subset_mset.order_trans [OF _ left(1)] assms(5) by (simp add: add.assoc)
  moreover have "mset (v2_part (order @ new) @ rest_v2 st') \<subseteq># mset (rest_v2 (start_selecting cr lg))"
    using subset_mset.order_trans [OF _ left(2)] assms(6) by (simp add: add.assoc)
  ultimately show ?thesis unfolding selecting_inv_def by blast
qed

lemma remove_subset: "i < length xs \<Longrightarrow> mset (list_remove i xs) \<subseteq># mset xs"
  by (simp add: mset_list_remove)

lemma select_step_legacy:
  "try_fold (select_step cr lg d) m (map Inl txs) =
     try_fold (\<lambda>m tx. apply_transaction cr tx m (transaction_signing_domain lg)) m txs"
  by (induction txs arbitrary: m) (auto simp: select_step_def)

lemma select_step_v2:
  "try_fold (select_step cr lg d) m (map Inr txs) =
     try_fold (\<lambda>m tx. apply_prevalidated_transaction_v2_to_utxos cr tx d (ledger_network lg) m) m txs"
  by (induction txs arbitrary: m) (auto simp: select_step_def)

section \<open>The steps\<close>

lemma legacy_anchor_inv:
  assumes "take_legacy_anchor cr lg owner required index st = Inr (got, st')"
    and "selecting_inv cr lg d st" and "\<And>i. index = Some i \<Longrightarrow> i < length (rest_legacy st)"
  shows "selecting_inv cr lg d st' \<and> got \<subseteq> required \<and> got \<subseteq> tx_signature ` set (sel_transactions (chosen st')) \<and>
    rest_v2 st' = rest_v2 st"
proof (cases index)
  case (Some i)
  let ?tx = "rest_legacy st ! i"
  obtain m where m: "apply_transaction cr ?tx (sel_utxos st) (transaction_signing_domain lg) = Inr m"
    and st': "st' = st\<lparr>rest_legacy := list_remove i (rest_legacy st), chosen := push_legacy ?tx (chosen st), sel_utxos := m\<rparr>"
    and got: "got = {tx_signature ?tx} \<inter> required"
    using assms(1) Some
    by (auto simp: take_legacy_anchor_def select_required_anchor_burn_def and_then_eq_Inr with_context_eq_Inr
        Let_def if_bail_eq_Inr)
  have i: "i < length (rest_legacy st)" using assms(3) Some by blast
  have "selecting_inv cr lg d st'"
    by (rule selecting_extend [OF assms(2), of "[Inl ?tx]"])
      (use m st' mset_list_remove [OF i] in \<open>auto simp: select_step_def push_legacy_def\<close>)
  then show ?thesis using got st' by (auto simp: push_legacy_def)
qed (use assms in \<open>auto simp: take_legacy_anchor_def\<close>)

lemma take_v2_inv:
  assumes "take_v2 cr d (ledger_network lg) required failure i st = Inr (parents, st')"
    and "selecting_inv cr lg d st" and "i < length (rest_v2 st)"
    and "v2_encode (rest_v2 st ! i) d = Inr bs"
  shows "selecting_inv cr lg d (st'\<lparr>chosen := push_v2 (hex_encode bs) (chosen st')\<rparr>) \<and>
    parents \<subseteq> required \<and> parents \<subseteq> set (sel_transactions_v2 (chosen st')) \<and>
    rest_legacy st' = rest_legacy st \<and> sel_transactions (chosen st') = sel_transactions (chosen st) \<and>
    (\<exists>es. sel_transactions_v2 (chosen st') = sel_transactions_v2 (chosen st) @ es)"
proof -
  let ?tx = "rest_v2 st ! i" and ?c = "list_remove i (rest_v2 st)" and ?before = "sel_transactions_v2 (chosen st)"
  obtain candidates selected m
    where run: "with_pending_parents (Suc (length ?c)) cr d (ledger_network lg) ?tx (?c, ?before, sel_utxos st) =
        Inr (candidates, selected, m)"
      and st': "st' = st\<lparr>rest_v2 := candidates, sel_utxos := m, chosen := (chosen st)\<lparr>sel_transactions_v2 := selected\<rparr>\<rparr>"
      and parents: "parents = set (drop (length ?before) selected) \<inter> required"
    using assms(1)
    by (auto simp: take_v2_def apply_prevalidated_transaction_v2_with_pending_parents_def and_then_eq_Inr
        with_context_eq_Inr Let_def simp del: with_pending_parents.simps)
  obtain pulled extras where spec: "mset ?c = mset candidates + mset pulled" "selected = ?before @ extras"
    "list_all2 (envelope_of d) pulled extras"
    "try_fold (select_step cr lg d) (sel_utxos st) (map Inr (pulled @ [?tx])) = Inr m"
    using with_pending_parents_spec [OF run] unfolding select_step_v2 envelope_of_def by blast
  have parts: "legacy_part (map Inr (pulled @ [?tx]) :: (Transaction + TransactionV2) list) = []"
    "v2_part (map Inr (pulled @ [?tx]) :: (Transaction + TransactionV2) list) = pulled @ [?tx]"
    by (rule part_map)+
  have "selecting_inv cr lg d (st'\<lparr>chosen := push_v2 (hex_encode bs) (chosen st')\<rparr>)"
  proof (rule selecting_extend [OF assms(2), of "map Inr (pulled @ [?tx])"])
    show "try_fold (select_step cr lg d) (sel_utxos st) (map Inr (pulled @ [?tx])) =
        Inr (sel_utxos (st'\<lparr>chosen := push_v2 (hex_encode bs) (chosen st')\<rparr>))"
      using spec(4) st' by simp
    have "list_all2 (envelope_of d) (pulled @ [?tx]) (extras @ [hex_encode bs])"
      using spec(3) assms(4) by (auto simp: envelope_of_def intro: list_all2_appendI)
    then show "\<exists>es. list_all2 (envelope_of d) (v2_part (map Inr (pulled @ [?tx]))) es \<and>
        sel_transactions_v2 (chosen (st'\<lparr>chosen := push_v2 (hex_encode bs) (chosen st')\<rparr>)) =
          sel_transactions_v2 (chosen st) @ es"
      using st' spec(2) unfolding parts
      by (intro exI [of _ "extras @ [hex_encode bs]"]) (simp add: push_v2_def)
    have "add_mset ?tx (mset candidates + mset pulled) = mset (rest_v2 st)"
      using mset_list_remove [OF assms(3)] spec(1) by simp
    then show "mset (v2_part (map Inr (pulled @ [?tx])) @ rest_v2 (st'\<lparr>chosen := push_v2 (hex_encode bs) (chosen st')\<rparr>))
        \<subseteq># mset (rest_v2 st)"
      using st' unfolding parts by (simp add: ac_simps)
  qed (use st' in \<open>simp_all add: parts push_v2_def del: map_append\<close>)
  then show ?thesis using st' parents spec(2) by auto
qed

lemma v2_anchor_inv:
  assumes "take_v2_anchor cr d (ledger_network lg) owner required index st = Inr (got, st')"
    and "selecting_inv cr lg d st" and "\<And>i. index = Some i \<Longrightarrow> i < length (rest_v2 st)"
  shows "selecting_inv cr lg d st' \<and> got \<subseteq> required \<and> got \<subseteq> set (sel_transactions_v2 (chosen st')) \<and>
    sel_transactions (chosen st') = sel_transactions (chosen st)"
proof (cases index)
  case (Some i)
  obtain parents st1 bs
    where take: "take_v2 cr d (ledger_network lg) required ''required transaction v2 anchor burn is not spendable'' i st =
        Inr (parents, st1)"
      and bs: "v2_encode (rest_v2 st ! i) d = Inr bs"
      and st': "st' = st1\<lparr>chosen := push_v2 (hex_encode bs) (chosen st1)\<rparr>"
      and got: "got = parents \<union> ({hex_encode bs} \<inter> required)"
    using assms(1) Some by (auto simp: take_v2_anchor_def and_then_eq_Inr Let_def if_bail_eq_Inr)
  from take_v2_inv [OF take assms(2) _ bs] assms(3) Some st' got
  show ?thesis by (auto simp: push_v2_def)
qed (use assms in \<open>auto simp: take_v2_anchor_def\<close>)

lemma take_attested_spec:
  "take_attested cr lg required txs got s m = Inr (kept, got', s', m') \<Longrightarrow>
    \<exists>taken. mset txs = mset kept + mset taken \<and>
      s' = s\<lparr>sel_transactions := sel_transactions s @ taken\<rparr> \<and>
      try_fold (\<lambda>m tx. apply_transaction cr tx m (transaction_signing_domain lg)) m taken = Inr m' \<and>
      got' = got \<union> tx_signature ` set taken \<and> tx_signature ` set taken \<subseteq> required"
proof (induction cr lg required txs got s m arbitrary: kept got' s' m' rule: take_attested.induct)
  case (1 cr lg required got s m)
  then show ?case by (intro exI [of _ "[]"]) simp
next
  case (2 cr lg required tx txs got s m)
  consider "card required \<le> card got" | "\<not> card required \<le> card got" "tx_signature tx \<notin> required"
    | "\<not> card required \<le> card got" "tx_signature tx \<in> required" by blast
  then show ?case
  proof cases
    case 1
    then show ?thesis using 2(3) by (intro exI [of _ "[]"]) simp
  next
    case skip: 2
    obtain kept1 where rest: "take_attested cr lg required txs got s m = Inr (kept1, got', s', m')"
      and kept: "kept = tx # kept1"
      using 2(3) skip by (auto simp: and_then_eq_Inr)
    from 2(1) [OF skip rest] kept show ?thesis by auto
  next
    case hit: 3
    obtain m1 where app: "apply_transaction cr tx m (transaction_signing_domain lg) = Inr m1"
      and checks: "is_burn tx" "\<not> max_block_transactions (launch_profile lg) \<le> length (sel_transactions s)"
      and rest: "take_attested cr lg required txs (insert (tx_signature tx) got) (push_legacy tx s) m1 =
        Inr (kept, got', s', m')"
      using 2(3) hit by (auto simp: and_then_eq_Inr with_context_eq_Inr if_bail_eq_Inr split: if_splits)
    have "with_context ''attested burn is not spendable''
        (apply_transaction cr tx m (transaction_signing_domain lg)) = Inr m1"
      by (simp add: app)
    from 2(2) [OF hit(1) _ _ checks(2) this rest] hit(2) checks(1)
    obtain taken where taken: "mset txs = mset kept + mset taken"
      "s' = (push_legacy tx s)\<lparr>sel_transactions := sel_transactions (push_legacy tx s) @ taken\<rparr>"
      "try_fold (\<lambda>m tx. apply_transaction cr tx m (transaction_signing_domain lg)) m1 taken = Inr m'"
      "got' = insert (tx_signature tx) got \<union> tx_signature ` set taken" "tx_signature ` set taken \<subseteq> required"
      by auto
    then show ?thesis
      using app hit(2) by (intro exI [of _ "tx # taken"]) (auto simp: push_legacy_def)
  qed
qed

lemma attested_burns_inv:
  assumes "take_attested_burns cr lg required got st = Inr st'" and "selecting_inv cr lg d st"
    and "got \<subseteq> required" and "got \<subseteq> tx_signature ` set (sel_transactions (chosen st))" and "finite required"
  shows "selecting_inv cr lg d st' \<and> required \<subseteq> tx_signature ` set (sel_transactions (chosen st')) \<and>
    sel_transactions_v2 (chosen st') = sel_transactions_v2 (chosen st)"
proof -
  obtain kept got' s m
    where run: "take_attested cr lg required (rest_legacy st) got (chosen st) (sel_utxos st) = Inr (kept, got', s, m)"
      and full: "card got' = card required" and st': "st' = st\<lparr>rest_legacy := kept, chosen := s, sel_utxos := m\<rparr>"
    using assms(1)
    by (auto simp: take_attested_burns_def and_then_eq_Inr bail_def split: if_splits list.splits)
  obtain taken where taken: "mset (rest_legacy st) = mset kept + mset taken"
    "s = (chosen st)\<lparr>sel_transactions := sel_transactions (chosen st) @ taken\<rparr>"
    "try_fold (\<lambda>m tx. apply_transaction cr tx m (transaction_signing_domain lg)) (sel_utxos st) taken = Inr m"
    "got' = got \<union> tx_signature ` set taken" "tx_signature ` set taken \<subseteq> required"
    using take_attested_spec [OF run] by blast
  have "got' = required"
    using taken(4,5) assms(3,5) full by (intro card_subset_eq) auto
  moreover have "selecting_inv cr lg d st'"
    by (rule selecting_extend [OF assms(2), of "map Inl taken"])
      (use taken st' in \<open>auto simp: select_step_legacy\<close>)
  ultimately show ?thesis using taken(2,4) st' assms(4) by auto
qed

lemma attested_v2_inv:
  assumes "take_attested_v2 cr lg d required got st = Inr (got', st')" and "selecting_inv cr lg d st"
    and "got \<subseteq> required" and "got \<subseteq> set (sel_transactions_v2 (chosen st))"
  shows "selecting_inv cr lg d st' \<and> got' \<subseteq> required \<and> got' \<subseteq> set (sel_transactions_v2 (chosen st')) \<and>
    sel_transactions (chosen st') = sel_transactions (chosen st)"
  using assms
proof (induction cr lg d required got st rule: take_attested_v2.induct)
  case (1 cr lg d required got st)
  note run = 1(2) [unfolded take_attested_v2.simps [of cr lg d required got st]]
  show ?case
  proof (cases "card required \<le> card got \<or> find_attested_v2 d required 0 (rest_v2 st) = Inr None")
    case True
    then show ?thesis using run 1(3-5) by (auto split: if_splits)
  next
    case False
    then obtain i envelope where found: "find_attested_v2 d required 0 (rest_v2 st) = Inr (Some (i, envelope))"
      and more: "\<not> card required \<le> card got"
      using run by (auto simp: and_then_eq_Inr)
    obtain parents st1
      where burn: "v2_is_burn (rest_v2 st ! i)"
        and take: "take_v2 cr d (ledger_network lg) required ''attested transaction v2 burn is not spendable'' i st =
          Inr (parents, st1)"
        and room: "\<not> max_block_transactions (launch_profile lg) < selection_count (push_v2 envelope (chosen st1))"
        and rest: "take_attested_v2 cr lg d required (insert envelope (got \<union> parents))
          (st1\<lparr>chosen := push_v2 envelope (chosen st1)\<rparr>) = Inr (got', st')"
      using run found more by (auto simp: and_then_eq_Inr Let_def if_bail_eq_Inr split: if_splits)
    obtain bs where i: "i < length (rest_v2 st)" "envelope \<in> required"
      and bs: "v2_encode (rest_v2 st ! i) d = Inr bs" "envelope = hex_encode bs"
      using find_attested_v2_bound [OF found] by auto
    note step = take_v2_inv [OF take 1(3) i(1) bs(1)]
    have "selecting_inv cr lg d (st1\<lparr>chosen := push_v2 envelope (chosen st1)\<rparr>)" using step bs(2) by blast
    moreover have "insert envelope (got \<union> parents) \<subseteq> required" using step 1(4) i(2) by auto
    moreover have "insert envelope (got \<union> parents) \<subseteq> set (sel_transactions_v2 (push_v2 envelope (chosen st1)))"
      using step 1(5) by (auto simp: push_v2_def)
    ultimately show ?thesis
      using 1(1) [OF more found refl _ _ take refl refl _ _] burn room rest step
      by (simp add: push_v2_def)
  qed
qed

lemma fill_spec:
  assumes "fill_selection cr lg d mode sec st = Inr s" and "selecting_inv cr lg d st"
    and "fits_block lg mode sec (chosen st) = Inr True"
  shows "(\<exists>st'. selecting_inv cr lg d st' \<and> chosen st' = s \<and>
      (max_block_transactions (launch_profile lg) \<le> selection_count s \<or> next_pick cr lg d st' = None)) \<and>
    fits_block lg mode sec s = Inr True \<and>
    set (sel_transactions (chosen st)) \<subseteq> set (sel_transactions s) \<and>
    set (sel_transactions_v2 (chosen st)) \<subseteq> set (sel_transactions_v2 s) \<and>
    selection_count s \<le> max (selection_count (chosen st)) (max_block_transactions (launch_profile lg))"
  using assms
proof (induction cr lg d mode sec st rule: fill_selection.induct)
  case (1 cr lg d mode sec st)
  note run = 1(4) [unfolded fill_selection.simps [of cr lg d mode sec st]]
  show ?case
  proof (cases "max_block_transactions (launch_profile lg) \<le> selection_count (chosen st) \<or> next_pick cr lg d st = None")
    case True
    then have "s = chosen st" using run by (auto split: if_splits)
    then show ?thesis using True 1(5,6) by auto
  next
    case False
    then obtain pick where pick: "next_pick cr lg d st = Some pick"
      and room: "\<not> max_block_transactions (launch_profile lg) \<le> selection_count (chosen st)"
      by auto
    show ?thesis
    proof (cases pick)
      case (PickLegacy i)
      let ?tx = "rest_legacy st ! i" and ?st = "st\<lparr>rest_legacy := list_remove i (rest_legacy st)\<rparr>"
      have i: "i < length (rest_legacy st)" using next_pick_spec [OF pick] PickLegacy by simp
      obtain fits where fits: "fits_block lg mode sec (push_legacy ?tx (chosen st)) = Inr fits"
        using run room pick PickLegacy by (auto simp: and_then_eq_Inr Let_def)
      show ?thesis
      proof (cases fits)
        case True
        obtain m where m: "apply_transaction cr ?tx (sel_utxos st) (transaction_signing_domain lg) = Inr m"
          and rest: "fill_selection cr lg d mode sec (?st\<lparr>chosen := push_legacy ?tx (chosen st), sel_utxos := m\<rparr>) = Inr s"
          using run room pick PickLegacy fits True by (auto simp: and_then_eq_Inr Let_def)
        have "selecting_inv cr lg d (?st\<lparr>chosen := push_legacy ?tx (chosen st), sel_utxos := m\<rparr>)"
          by (rule selecting_extend [OF 1(5), of "[Inl ?tx]"])
            (use m mset_list_remove [OF i] in \<open>auto simp: select_step_def push_legacy_def\<close>)
        from 1(1) [OF room pick PickLegacy refl refl refl fits True m rest this] fits True room
        show ?thesis by (auto simp: push_legacy_def selection_count_def)
      next
        case False
        have "selecting_inv cr lg d ?st"
          by (rule selecting_extend [OF 1(5), of "[]"]) (use remove_subset [OF i] in simp_all)
        from 1(2) [OF room pick PickLegacy refl refl refl fits False _ this] fits False run room pick PickLegacy 1(6)
        show ?thesis by (simp add: Let_def)
      qed
    next
      case (PickV2 i m)
      let ?st = "st\<lparr>rest_v2 := list_remove i (rest_v2 st)\<rparr>"
      have i: "i < length (rest_v2 st)"
        and m: "apply_prevalidated_transaction_v2_to_utxos cr (rest_v2 st ! i) d (ledger_network lg) (sel_utxos st) = Inr m"
        using next_pick_spec [OF pick] PickV2 by simp_all
      obtain bs fits where bs: "v2_encode (rest_v2 st ! i) d = Inr bs"
        and fits: "fits_block lg mode sec (push_v2 (hex_encode bs) (chosen st)) = Inr fits"
        and rest: "fill_selection cr lg d mode sec
          (if fits then ?st\<lparr>chosen := push_v2 (hex_encode bs) (chosen st), sel_utxos := m\<rparr> else ?st) = Inr s"
        using run room pick PickV2 by (auto simp: and_then_eq_Inr Let_def)
      have inv: "selecting_inv cr lg d
          (if fits then ?st\<lparr>chosen := push_v2 (hex_encode bs) (chosen st), sel_utxos := m\<rparr> else ?st)"
      proof (cases fits)
        case True
        have "selecting_inv cr lg d (?st\<lparr>chosen := push_v2 (hex_encode bs) (chosen st), sel_utxos := m\<rparr>)"
          by (rule selecting_extend [OF 1(5), of "[Inr (rest_v2 st ! i)]"])
            (use m bs mset_list_remove [OF i] in \<open>auto simp: select_step_def push_v2_def envelope_of_def\<close>)
        then show ?thesis using True by simp
      next
        case False
        have "selecting_inv cr lg d ?st"
          by (rule selecting_extend [OF 1(5), of "[]"]) (use remove_subset [OF i] in simp_all)
        then show ?thesis using False by simp
      qed
      from 1(3) [OF room pick PickV2 refl bs refl fits rest inv] fits room 1(6)
      show ?thesis by (cases fits) (auto simp: push_v2_def selection_count_def)
    qed
  qed
qed

section \<open>The whole selection\<close>

lemma anchor_positions:
  assumes "choose_anchor cr (transaction_signing_domain lg) d owner sig st = Inr (index, index_v2)"
  shows "(index = Some i \<longrightarrow> i < length (rest_legacy st)) \<and> (index_v2 = Some j \<longrightarrow> j < length (rest_v2 st))"
proof -
  have burn: "i < length txs" if "best_selectable_burn_from_index cr txs m o' sd = Some i" for txs m o' sd i
    using that
    by (auto simp: best_selectable_burn_from_index_def enumerate_eq_zip in_set_zip dest!: max_by_in)
  show ?thesis
  proof (cases sig)
    case None
    then show ?thesis
      using assms position_Some [of _ "rest_v2 st"] burn best_selectable_spec
      by (cases owner) (auto simp: choose_anchor_def Let_def split: if_splits)
  next
    case (Some x)
    then show ?thesis
      using assms position_Some [of _ "rest_v2 st"] position_Some [of _ "rest_legacy st"]
      by (auto simp: choose_anchor_def Let_def if_bail_eq_Inr split: if_splits)
  qed
qed

text \<open>
  The selection of a block: its transactions apply in some order to the unspent outputs, they
  come from the eligible part of the pools, every attested burn is among them, their block
  fits, and, unless the block is full, no remaining candidate applies after them.
\<close>

lemma selection_sound:
  assumes "select_block_transactions_with_required_burn_owner cr lg owner sig mode sec = Inr s"
    and "transaction_v2_domain lg = Inr d"
  shows "(\<exists>order m. selected_by cr lg d order s m \<and>
      mset (sel_transactions s) \<subseteq># mset (rest_legacy (start_selecting cr lg)) \<and>
      mset (v2_part order) \<subseteq># mset (rest_v2 (start_selecting cr lg))) \<and>
    set (map tx_signature (section_required_burns sec)) \<subseteq> tx_signature ` set (sel_transactions s) \<and>
    set (section_required_burns_v2 sec) \<subseteq> set (sel_transactions_v2 s) \<and>
    fits_block lg mode sec s = Inr True"
proof -
  let ?req = "set (map tx_signature (section_required_burns sec))" and ?req2 = "set (section_required_burns_v2 sec)"
  obtain index index_v2 got got_v2 got_v2' st1 st2 st3 st4 where
    anchor: "choose_anchor cr (transaction_signing_domain lg) d owner sig (start_selecting cr lg) = Inr (index, index_v2)"
    and s1: "take_legacy_anchor cr lg owner ?req index (start_selecting cr lg) = Inr (got, st1)"
    and s2: "take_v2_anchor cr d (ledger_network lg) owner ?req2 index_v2 st1 = Inr (got_v2, st2)"
    and s3: "take_attested_burns cr lg ?req got st2 = Inr st3"
    and s4: "take_attested_v2 cr lg d ?req2 got_v2 st3 = Inr (got_v2', st4)"
    and full: "card got_v2' = card ?req2"
    and fits: "fits_block lg mode sec (chosen st4) = Inr True"
    and fill: "fill_selection cr lg d mode sec st4 = Inr s"
    using assms
    by (auto simp: select_block_transactions_with_required_burn_owner_def and_then_eq_Inr Let_def if_bail_eq_Inr
        split: if_splits)
  have bounds: "index = Some i \<Longrightarrow> i < length (rest_legacy (start_selecting cr lg))"
    "index_v2 = Some i \<Longrightarrow> i < length (rest_v2 (start_selecting cr lg))" for i
    using anchor_positions [OF anchor] by blast+
  note i1 = legacy_anchor_inv [OF s1 start_inv [of cr lg d] bounds(1)]
  then have "index_v2 = Some i \<Longrightarrow> i < length (rest_v2 st1)" for i
    using bounds(2) by simp
  then have i2: "selecting_inv cr lg d st2 \<and> got_v2 \<subseteq> ?req2 \<and> got_v2 \<subseteq> set (sel_transactions_v2 (chosen st2)) \<and>
      sel_transactions (chosen st2) = sel_transactions (chosen st1)"
    using v2_anchor_inv [OF s2] i1 by blast
  have i3: "selecting_inv cr lg d st3 \<and> ?req \<subseteq> tx_signature ` set (sel_transactions (chosen st3)) \<and>
      sel_transactions_v2 (chosen st3) = sel_transactions_v2 (chosen st2)"
  proof -
    have "got \<subseteq> tx_signature ` set (sel_transactions (chosen st2))" using i1 i2 by simp
    then show ?thesis using attested_burns_inv [OF s3, of d] i1 i2 by blast
  qed
  have i4: "selecting_inv cr lg d st4 \<and> got_v2' \<subseteq> ?req2 \<and> got_v2' \<subseteq> set (sel_transactions_v2 (chosen st4)) \<and>
      sel_transactions (chosen st4) = sel_transactions (chosen st3)"
    using attested_v2_inv [OF s4] i2 i3 by simp
  have all: "got_v2' = ?req2" using i4 full by (intro card_subset_eq) auto
  have f: "fits_block lg mode sec s = Inr True" "set (sel_transactions (chosen st4)) \<subseteq> set (sel_transactions s)"
    "set (sel_transactions_v2 (chosen st4)) \<subseteq> set (sel_transactions_v2 s)"
    using fill_spec [OF fill _ fits] i4 by blast+
  obtain st' where "selecting_inv cr lg d st'" "chosen st' = s"
    using fill_spec [OF fill _ fits] i4 by blast
  then obtain order where "selected_by cr lg d order s (sel_utxos st')"
    "mset (legacy_part order @ rest_legacy st') \<subseteq># mset (rest_legacy (start_selecting cr lg))"
    "mset (v2_part order @ rest_v2 st') \<subseteq># mset (rest_v2 (start_selecting cr lg))"
    by (auto simp: selecting_inv_def)
  then have "selected_by cr lg d order s (sel_utxos st') \<and>
      mset (sel_transactions s) \<subseteq># mset (rest_legacy (start_selecting cr lg)) \<and>
      mset (v2_part order) \<subseteq># mset (rest_v2 (start_selecting cr lg))"
    by (simp add: selected_by_def) (meson mset_subset_eq_add_left subset_mset.order_trans)
  moreover have "?req \<subseteq> tx_signature ` set (sel_transactions s)"
    using i3 i4 image_mono [OF f(2), of tx_signature] by (metis subset_trans)
  moreover have "?req2 \<subseteq> set (sel_transactions_v2 s)"
    using i4 all f(3) by blast
  ultimately show ?thesis using f(1) by blast
qed

end
