(* ===== verification/Block_Prepare.thy ===== *)
theory Block_Prepare
  imports Selection_Facts Wallet_Facts Ledger_Apply_Facts
begin

text \<open>
  The preparation of the next block by its finalizer and of a recovery block
  (\<open>domain/ledger_prepare.rs\<close>, \<open>domain/ledger_consensus.rs\<close>). The prepared block fixes everything but
  the delay proof and the signatures, which \<open>finish\<close> adds. The delay proof is computed by the class
  group package; \<open>mine_next_block\<close> takes its result as an argument.
\<close>

definition selected_ticket_for_height :: "crypto \<Rightarrow> Ledger \<Rightarrow> u64 \<Rightarrow> BurnTicket option" where
  "selected_ticket_for_height cr lg h = ticket_for_finalizer_rank cr lg h 0"

definition expected_leader_for_next_block :: "crypto \<Rightarrow> Ledger \<Rightarrow> string option" where
  "expected_leader_for_next_block cr lg =
     map_option tk_owner (selected_ticket_for_height cr lg (height (tip lg) + 1))"

definition finalizer_rank_for_next_block :: "crypto \<Rightarrow> Ledger \<Rightarrow> string \<Rightarrow> u32 option" where
  "finalizer_rank_for_next_block cr lg owner =
     map_option fst (finalizer_ticket_for_miner cr lg (height (tip lg) + 1) owner)"

definition recovery_vdf_rounds :: "Ledger \<Rightarrow> u64 result" where
  "recovery_vdf_rounds lg = vdf_rounds_for_finalizer_rank (ledger_vdf_rounds lg) 0"

definition prepare_next_block_with_required_burn_and_burn_bundles ::
  "host \<Rightarrow> Ledger \<Rightarrow> string \<Rightarrow> string option \<Rightarrow> u64 \<Rightarrow> BurnBundle list \<Rightarrow> string option \<Rightarrow> PreparedBlock result" where
  "prepare_next_block_with_required_burn_and_burn_bundles hs lg owner reward_addr ts bundles required_burn =
     (let cr = h_crypto hs; h = height (tip lg) + 1; prev = block_hash (tip lg) in
      and_then (validate_reward_address cr lg h reward_addr ''finalizer'') (\<lambda>_.
      and_then (ok_or ''cannot mine block without a mature burn ticket''
        (finalizer_ticket_for_miner cr lg h owner)) (\<lambda>(rank, ticket).
      if expected_leader_for_next_block cr lg = None
      then bail (''no selected leader for block '' @ show_u64 h)
      else
        and_then (validate_next_block_burn_bundles_for_finalizer_rank hs lg rank bundles) (\<lambda>validated.
        and_then (burn_bundle_section_from_bundles cr lg validated) (\<lambda>sec.
        and_then (select_block_transactions_with_burn_section cr lg owner required_burn sec) (\<lambda>selection.
        and_then (ensure_block_has_burn (sel_transactions selection) (sel_transactions_v2 selection)) (\<lambda>_.
        and_then (ticket_block_min_timestamp (tip lg) rank) (\<lambda>min_timestamp.
        let hashes = section_bundle_hashes cr sec h prev owner in
        and_then (expected_reward_for_next_block lg (sel_transactions selection)
          (sel_transactions_v2 selection) sec) (\<lambda>rew.
        and_then (vdf_rounds_for_finalizer_rank (ledger_vdf_rounds lg) rank) (\<lambda>rounds.
        let commitment = vdf_content_commitment cr h prev owner reward_addr TicketMode rank rew rounds
              (Some (tk_id ticket)) sec (sel_transactions selection) (sel_transactions_v2 selection) in
        Inr \<lparr>pb_height = h, pb_prev_hash = prev, pb_timestamp_ms = max ts min_timestamp, pb_miner = owner,
             pb_reward_address = reward_addr, pb_finalizer_mode = TicketMode, pb_finalizer_rank = rank,
             pb_reward = rew, pb_vdf_rounds = rounds,
             pb_vdf_seed = vdf_seed_for_child cr prev h hashes commitment, pb_leader_ticket = Some ticket,
             pb_burn_bundle_section = sec, pb_transactions = sel_transactions selection,
             pb_transactions_v2 = sel_transactions_v2 selection\<rparr>))))))))))"

definition prepare_next_block_with_burn_bundles ::
  "host \<Rightarrow> Ledger \<Rightarrow> string \<Rightarrow> u64 \<Rightarrow> BurnBundle list \<Rightarrow> PreparedBlock result" where
  "prepare_next_block_with_burn_bundles hs lg owner ts bundles =
     prepare_next_block_with_required_burn_and_burn_bundles hs lg owner None ts bundles None"

definition prepare_next_block :: "host \<Rightarrow> Ledger \<Rightarrow> string \<Rightarrow> u64 \<Rightarrow> PreparedBlock result" where
  "prepare_next_block hs lg owner ts = prepare_next_block_with_burn_bundles hs lg owner ts []"

definition recovery_block_min_timestamp :: "Ledger \<Rightarrow> u64" where
  "recovery_block_min_timestamp lg = saturating_add (timestamp_ms (tip lg)) RECOVERY_BLOCK_DELAY_MS"

definition recovery_block_available_at :: "Ledger \<Rightarrow> u64 \<Rightarrow> bool" where
  "recovery_block_available_at lg ts \<longleftrightarrow> recovery_block_min_timestamp lg \<le> ts"

definition prepare_recovery_block_with_required_burn_and_burn_bundles ::
  "host \<Rightarrow> Ledger \<Rightarrow> string \<Rightarrow> string option \<Rightarrow> u64 \<Rightarrow> BurnBundle list \<Rightarrow> string option \<Rightarrow> PreparedBlock result" where
  "prepare_recovery_block_with_required_burn_and_burn_bundles hs lg owner reward_addr ts bundles required_burn =
     (let cr = h_crypto hs; h = height (tip lg) + 1; prev = block_hash (tip lg);
          min_timestamp = recovery_block_min_timestamp lg in
      and_then (validate_reward_address cr lg h reward_addr ''finalizer'') (\<lambda>_.
      if ts < min_timestamp
      then bail (''recovery block is not available before timestamp '' @ show_u64 min_timestamp)
      else
        and_then (validate_next_block_burn_bundles hs lg bundles) (\<lambda>validated.
        and_then (burn_bundle_section_from_bundles cr lg validated) (\<lambda>sec.
        and_then (select_recovery_block_transactions_with_burn_section cr lg owner required_burn sec) (\<lambda>selection.
        and_then (ensure_block_has_burn (sel_transactions selection) (sel_transactions_v2 selection)) (\<lambda>_.
        and_then (ensure_block_has_burn_from cr (sel_transactions selection) (sel_transactions_v2 selection) owner) (\<lambda>_.
        let ts' = max ts (timestamp_ms (tip lg) + 1); hashes = section_bundle_hashes cr sec h prev owner in
        and_then (expected_reward_for_next_block lg (sel_transactions selection)
          (sel_transactions_v2 selection) sec) (\<lambda>rew.
        and_then (recovery_vdf_rounds lg) (\<lambda>rounds.
        let commitment = vdf_content_commitment cr h prev owner reward_addr RecoveryMode 0 rew rounds
              None sec (sel_transactions selection) (sel_transactions_v2 selection) in
        Inr \<lparr>pb_height = h, pb_prev_hash = prev, pb_timestamp_ms = ts', pb_miner = owner,
             pb_reward_address = reward_addr, pb_finalizer_mode = RecoveryMode, pb_finalizer_rank = 0,
             pb_reward = rew, pb_vdf_rounds = rounds,
             pb_vdf_seed = recovery_vdf_seed_for_child cr prev h ts' hashes commitment, pb_leader_ticket = None,
             pb_burn_bundle_section = sec, pb_transactions = sel_transactions selection,
             pb_transactions_v2 = sel_transactions_v2 selection\<rparr>)))))))))"

definition prepare_recovery_block_with_burn_bundles ::
  "host \<Rightarrow> Ledger \<Rightarrow> string \<Rightarrow> u64 \<Rightarrow> BurnBundle list \<Rightarrow> PreparedBlock result" where
  "prepare_recovery_block_with_burn_bundles hs lg owner ts bundles =
     prepare_recovery_block_with_required_burn_and_burn_bundles hs lg owner None ts bundles None"

definition prepare_recovery_block :: "host \<Rightarrow> Ledger \<Rightarrow> string \<Rightarrow> u64 \<Rightarrow> PreparedBlock result" where
  "prepare_recovery_block hs lg owner ts = prepare_recovery_block_with_burn_bundles hs lg owner ts []"

section \<open>Prepared blocks pass the checks\<close>

text \<open>The transactions of a selection satisfy the terms and the anchors of the next block.\<close>

lemma pending_pass_terms:
  "pending_pass cr lg txs m selected = (valid, left, rest) \<Longrightarrow>
    (\<forall>tx\<in>set valid. validate_transaction_terms cr lg tx = Inr ()) \<and> set valid \<union> set left \<subseteq> set txs"
proof (induction txs arbitrary: m selected valid left rest)
  case (Cons tx txs)
  show ?case
  proof (cases "mine_anchor_is_full lg selected tx")
    case True
    then show ?thesis using Cons.IH Cons.prems by fastforce
  next
    case False
    obtain b m' where run: "try_pending cr lg tx m = (b, m')" by fastforce
    obtain v l r where inner: "pending_pass cr lg txs m' (if b then count_mine_anchor selected tx else selected) = (v, l, r)"
      using prod_cases3 by blast
    have "b \<Longrightarrow> validate_transaction_terms cr lg tx = Inr ()"
      using run by (auto simp: try_pending_def is_ok_iff split: if_splits)
    then show ?thesis
      using Cons.IH [OF inner] Cons.prems False run inner by (cases b) auto
  qed
qed simp

lemma valid_pending_terms:
  "\<forall>tx\<in>set (valid_pending_transactions cr lg). validate_transaction_terms cr lg tx = Inr ()"
proof -
  have "\<forall>tx\<in>set (pending_rounds cr lg txs m selected). validate_transaction_terms cr lg tx = Inr ()" for txs m selected
  proof (induction cr lg txs m selected rule: pending_rounds.induct)
    case (1 cr lg txs m selected)
    obtain valid left m' selected' where p: "pending_pass cr lg txs m selected = (valid, left, m', selected')"
      using prod_cases4 by blast
    show ?case
      using pending_pass_terms [OF p] 1 [OF p [symmetric] refl refl]
      by (subst pending_rounds.simps) (auto simp: p)
  qed
  then show ?thesis by (simp add: valid_pending_transactions_def)
qed

lemma terms_pay_fee: "validate_transaction_terms cr lg tx = Inr () \<Longrightarrow> fee tx \<noteq> 0"
  by (cases tx) (auto simp: if_bail_eq_Inr MINE_FINALIZER_FEE_def MICRO_IUNA_def)

lemma selection_terms:
  assumes "select_block_transactions_with_required_burn_owner cr lg owner sig mode sec = Inr s"
    and "tx \<in> set (sel_transactions s)"
  shows "validate_transaction_terms cr lg tx = Inr ()" and "transaction_is_eligible_for_next_block lg tx"
proof -
  obtain d where "transaction_v2_domain lg = Inr d"
    using assms(1) by (auto simp: select_block_transactions_with_required_burn_owner_def and_then_eq_Inr)
  from selection_sound [OF assms(1) this]
  have "mset (sel_transactions s) \<subseteq># mset (rest_legacy (start_selecting cr lg))" by blast
  then have "tx \<in> set (rest_legacy (start_selecting cr lg))"
    using assms(2) set_mset_mono by fastforce
  then show "validate_transaction_terms cr lg tx = Inr ()" "transaction_is_eligible_for_next_block lg tx"
    using valid_pending_terms by (auto simp: start_selecting_def)
qed

lemma fee_policy_selection:
  assumes "select_block_transactions_with_required_burn_owner cr lg owner sig mode sec = Inr s"
    and "transactions b = sel_transactions s"
  shows "validate_block_fee_policy b = Inr ()"
  using assms(2) terms_pay_fee selection_terms(1) [OF assms(1)]
  by (auto simp: validate_block_fee_policy_def try_all_eq_Inr)

lemma finalizer_ticket_rank:
  assumes "finalizer_ticket_for_miner cr lg h owner = Some (rank, t)"
  shows "ticket_for_finalizer_rank cr lg h rank = Some t" and "tk_owner t = owner"
    and "t \<in> set (tickets lg)" and "ticket_is_eligible_for_height t h"
proof -
  let ?ranked = "ranked_tickets_for_height cr (tip lg) h (tickets lg)"
  obtain i where i: "position (\<lambda>t. tk_owner t = owner) ?ranked = Some i" "i < 2 ^ 32"
    "rank = word_of_nat i" "t = ?ranked ! i"
    using assms by (auto simp: finalizer_ticket_for_miner_def Let_def bind_eq_Some_conv split: if_splits)
  have unat: "unat rank = i" using i(2,3) by (simp add: unsigned_of_nat take_bit_nat_eq_self)
  show "ticket_for_finalizer_rank cr lg h rank = Some t" "tk_owner t = owner"
    using position_Some [OF i(1)] unat i(4) by (simp_all add: ticket_for_finalizer_rank_def Let_def)
  have "t \<in> set ?ranked" using position_Some [OF i(1)] i(4) by simp
  then show "t \<in> set (tickets lg)" "ticket_is_eligible_for_height t h" using ranked_subset by blast+
qed

text \<open>The wallet's signatures on a finished block verify under its own address.\<close>

lemma wallet_signature_verifies:
  assumes "ed25519_ok cr" and "w = from_seed cr seed"
  shows "verify_address_signature cr (wallet_address w) payload (sign_payload cr w payload) label = Inr ()"
proof -
  obtain key where key: "wallet_address w = hex_encode key" "length key = 32" "ed25519_key_ok cr key"
      "\<forall>payload. ed25519_verify cr key payload (ed25519_sign cr (signing_seed w) payload)"
      "\<forall>payload. length (ed25519_sign cr (signing_seed w) payload) = 64"
    using assms by (rule wallet_key)
  then show ?thesis
    by (simp add: verify_address_signature_def sign_payload_def sign_bytes_def decode_hex_array_def
        PUBLIC_KEY_BYTES_def SIGNATURE_BYTES_def verify_ed25519_def)
qed

text \<open>
  The block that extends the tip and carries what was prepared: the checks that concern its header,
  its rewards and rounds, and its transactions succeed, and its delay proof is the one that was
  computed for the prepared seed.
\<close>

definition header_checks :: "host \<Rightarrow> Ledger \<Rightarrow> Block \<Rightarrow> bool" where
  "header_checks hs lg b \<longleftrightarrow>
     height b = height (tip lg) + 1 \<and> prev_hash b = block_hash (tip lg) \<and>
     compute_hash (h_crypto hs) b = block_hash b \<and>
     validate_reward_address (h_crypto hs) lg (height b) (reward_address b) ''finalizer'' = Inr () \<and>
     expected_reward_for_block lg b = Inr (reward b) \<and>
     expected_vdf_rounds_for_block lg b = Inr (vdf_rounds b) \<and>
     ensure_block_has_burn (transactions b) (transactions_v2 b) = Inr () \<and>
     validate_block_fee_policy b = Inr ()"

lemma finish_fields [simp]:
  "height (finish_at cr p w out ts) = pb_height p" "prev_hash (finish_at cr p w out ts) = pb_prev_hash p"
  "miner (finish_at cr p w out ts) = pb_miner p" "reward_address (finish_at cr p w out ts) = pb_reward_address p"
  "finalizer_mode (finish_at cr p w out ts) = pb_finalizer_mode p"
  "finalizer_rank (finish_at cr p w out ts) = pb_finalizer_rank p" "reward (finish_at cr p w out ts) = pb_reward p"
  "vdf_rounds (finish_at cr p w out ts) = pb_vdf_rounds p" "vdf_output (finish_at cr p w out ts) = out"
  "burn_bundle_section (finish_at cr p w out ts) = pb_burn_bundle_section p"
  "transactions (finish_at cr p w out ts) = pb_transactions p"
  "transactions_v2 (finish_at cr p w out ts) = pb_transactions_v2 p"
  "timestamp_ms (finish_at cr p w out ts) =
     (case pb_finalizer_mode p of TicketMode \<Rightarrow> max ts (pb_timestamp_ms p) | RecoveryMode \<Rightarrow> pb_timestamp_ms p)"
  "leader_proof (finish_at cr p w out ts) = map_option (\<lambda>t. wallet_leader_proof cr w
     \<lparr>lpp_height = pb_height p, lpp_prev_hash = pb_prev_hash p, lpp_finalizer_rank = pb_finalizer_rank p,
      lpp_vdf_output = out, lpp_ticket_id = tk_id t, lpp_ticket_amount = tk_amount t,
      lpp_ticket_owner = tk_owner t\<rparr>) (pb_leader_ticket p)"
  "reward_address_signature (finish_at cr p w out ts) = map_option (\<lambda>a. sign_payload cr w
     (reward_address_payload (pb_height p) (pb_prev_hash p) (pb_miner p) a)) (pb_reward_address p)"
  by (simp_all add: finish_at_def finish_with_timestamp_def Let_def)

lemma vdf_seed_finish:
  "vdf_seed cr (finish_at cr p w out ts) =
     (let hashes = section_bundle_hashes cr (pb_burn_bundle_section p) (pb_height p) (pb_prev_hash p) (pb_miner p);
          commitment = vdf_content_commitment cr (pb_height p) (pb_prev_hash p) (pb_miner p) (pb_reward_address p)
            (pb_finalizer_mode p) (pb_finalizer_rank p) (pb_reward p) (pb_vdf_rounds p)
            (map_option tk_id (pb_leader_ticket p)) (pb_burn_bundle_section p) (pb_transactions p) (pb_transactions_v2 p) in
      case pb_finalizer_mode p of
        TicketMode \<Rightarrow> vdf_seed_for_child cr (pb_prev_hash p) (pb_height p) hashes commitment
      | RecoveryMode \<Rightarrow>
          recovery_vdf_seed_for_child cr (pb_prev_hash p) (pb_height p) (pb_timestamp_ms p) hashes commitment)"
  by (simp add: vdf_seed_def block_bundle_hashes_def block_content_commitment_def Let_def option.map_comp comp_def
      wallet_leader_proof_def split: FinalizerMode.split)

lemma reward_signature_checks:
  assumes "ed25519_ok cr" and "w = from_seed cr seed" and "pb_miner p = wallet_address w"
    and "validate_reward_address cr lg (pb_height p) (pb_reward_address p) ''finalizer'' = Inr ()"
  shows "check_reward_address_signature cr (finish_at cr p w out ts) = Inr ()"
  using assms(3,4) wallet_signature_verifies [OF assms(1,2)]
  by (auto simp: check_reward_address_signature_def validate_reward_address_def and_then_eq_Inr if_bail_eq_Inr
      ok_or_eq_Inr split: if_splits)

lemma prepared_next_block:
  assumes "prepare_next_block_with_required_burn_and_burn_bundles hs lg owner reward_addr ts bundles required = Inr p"
    and "b = finish_at (h_crypto hs) p w out ts'"
  shows "header_checks hs lg b" and "vdf_seed (h_crypto hs) b = pb_vdf_seed p"
    and "finalizer_mode b = TicketMode" and "miner b = owner" and "reward_address b = reward_addr"
    and "\<exists>t. finalizer_ticket_for_miner (h_crypto hs) lg (height b) owner = Some (finalizer_rank b, t) \<and>
      pb_leader_ticket p = Some t"
    and "\<exists>m. ticket_block_min_timestamp (tip lg) (finalizer_rank b) = Inr m \<and> m \<le> timestamp_ms b"
proof -
  let ?cr = "h_crypto hs" and ?h = "height (tip lg) + 1"
  obtain rank t sec selection m rew rounds where facts:
    "validate_reward_address ?cr lg ?h reward_addr ''finalizer'' = Inr ()"
    "finalizer_ticket_for_miner ?cr lg ?h owner = Some (rank, t)"
    "select_block_transactions_with_burn_section ?cr lg owner required sec = Inr selection"
    "ensure_block_has_burn (sel_transactions selection) (sel_transactions_v2 selection) = Inr ()"
    "ticket_block_min_timestamp (tip lg) rank = Inr m"
    "expected_reward_for_next_block lg (sel_transactions selection) (sel_transactions_v2 selection) sec = Inr rew"
    "vdf_rounds_for_finalizer_rank (ledger_vdf_rounds lg) rank = Inr rounds"
    and p: "p = \<lparr>pb_height = ?h, pb_prev_hash = block_hash (tip lg), pb_timestamp_ms = max ts m, pb_miner = owner,
       pb_reward_address = reward_addr, pb_finalizer_mode = TicketMode, pb_finalizer_rank = rank,
       pb_reward = rew, pb_vdf_rounds = rounds,
       pb_vdf_seed = vdf_seed_for_child ?cr (block_hash (tip lg)) ?h
         (section_bundle_hashes ?cr sec ?h (block_hash (tip lg)) owner)
         (vdf_content_commitment ?cr ?h (block_hash (tip lg)) owner reward_addr TicketMode rank rew rounds
           (Some (tk_id t)) sec (sel_transactions selection) (sel_transactions_v2 selection)),
       pb_leader_ticket = Some t, pb_burn_bundle_section = sec, pb_transactions = sel_transactions selection,
       pb_transactions_v2 = sel_transactions_v2 selection\<rparr>"
    using assms(1)
    by (auto simp: prepare_next_block_with_required_burn_and_burn_bundles_def Let_def and_then_eq_Inr ok_or_eq_Inr
        if_bail_eq_Inr split: if_splits)
  have fees: "validate_block_fee_policy b = Inr ()"
    by (rule fee_policy_selection [OF facts(3) [unfolded select_block_transactions_with_burn_section_def]])
      (simp add: assms(2) p)
  show "header_checks hs lg b"
    using facts fees
    by (simp add: header_checks_def assms(2) p finish_hash_valid expected_reward_for_block_def
        expected_reward_for_next_block_def expected_vdf_rounds_for_block_def)
  show "vdf_seed ?cr b = pb_vdf_seed p"
    unfolding assms(2) vdf_seed_finish by (simp add: p)
  show "finalizer_mode b = TicketMode" "miner b = owner" "reward_address b = reward_addr"
    by (simp_all add: assms(2) p)
  show "\<exists>t. finalizer_ticket_for_miner ?cr lg (height b) owner = Some (finalizer_rank b, t) \<and> pb_leader_ticket p = Some t"
    using facts(2) by (simp add: assms(2) p)
  show "\<exists>m. ticket_block_min_timestamp (tip lg) (finalizer_rank b) = Inr m \<and> m \<le> timestamp_ms b"
    using facts(5) by (simp add: assms(2) p le_max_iff_disj)
qed

lemma prepared_finalizer_checks:
  assumes "prepare_next_block_with_required_burn_and_burn_bundles hs lg (wallet_address w) reward_addr ts bundles required =
      Inr p"
    and "b = finish_at (h_crypto hs) p w out ts'"
    and "ed25519_ok (h_crypto hs)" and "w = from_seed (h_crypto hs) seed" and "distinct (map tk_id (tickets lg))"
  shows "check_block_finalizer (h_crypto hs) lg b = Inr ()"
proof -
  let ?cr = "h_crypto hs"
  note prep = prepared_next_block [OF assms(1,2)]
  obtain t where t: "finalizer_ticket_for_miner ?cr lg (height b) (wallet_address w) = Some (finalizer_rank b, t)"
    and leader: "pb_leader_ticket p = Some t"
    using prep(6) by blast
  note ticket = finalizer_ticket_rank [OF t]
  have "find (\<lambda>t'. tk_id t' = tk_id t \<and> ticket_is_eligible_for_height t' (height b)) (tickets lg) = Some t"
  proof -
    obtain t' where t': "find (\<lambda>t'. tk_id t' = tk_id t \<and> ticket_is_eligible_for_height t' (height b)) (tickets lg) = Some t'"
      using ticket(3,4) by (cases "find (\<lambda>t'. tk_id t' = tk_id t \<and> ticket_is_eligible_for_height t' (height b)) (tickets lg)")
        (auto simp: find_None_iff)
    then have "t' \<in> set (tickets lg)" "tk_id t' = tk_id t" by (auto simp: find_Some_iff)
    then have "t' = t" using assms(5) ticket(3) by (auto simp: distinct_map inj_on_def)
    with t' show ?thesis by simp
  qed
  moreover have "tk_from t \<le> height b"
    using ticket(4) by (simp add: ticket_is_eligible_for_height_def)
  ultimately show ?thesis
    using ticket(1,2) prep(3,4) leader wallet_signature_verifies [OF assms(3,4)]
    by (simp add: check_block_finalizer_def verify_leader_proof_def verify_leader_signature_def assms(2)
        wallet_leader_proof_def)
qed

lemma prepared_recovery_block:
  assumes "prepare_recovery_block_with_required_burn_and_burn_bundles hs lg owner reward_addr ts bundles required = Inr p"
    and "b = finish_at (h_crypto hs) p w out ts'"
  shows "header_checks hs lg b" and "vdf_seed (h_crypto hs) b = pb_vdf_seed p"
    and "miner b = owner" and "finalizer_mode b = RecoveryMode"
    and "ensure_valid_recovery_block (h_crypto hs) b (tip lg) = Inr ()"
proof -
  let ?cr = "h_crypto hs" and ?h = "height (tip lg) + 1"
  obtain sec selection rew rounds where facts:
    "validate_reward_address ?cr lg ?h reward_addr ''finalizer'' = Inr ()"
    "\<not> ts < recovery_block_min_timestamp lg"
    "select_recovery_block_transactions_with_burn_section ?cr lg owner required sec = Inr selection"
    "ensure_block_has_burn (sel_transactions selection) (sel_transactions_v2 selection) = Inr ()"
    "ensure_block_has_burn_from ?cr (sel_transactions selection) (sel_transactions_v2 selection) owner = Inr ()"
    "expected_reward_for_next_block lg (sel_transactions selection) (sel_transactions_v2 selection) sec = Inr rew"
    "recovery_vdf_rounds lg = Inr rounds"
    and p: "p = \<lparr>pb_height = ?h, pb_prev_hash = block_hash (tip lg),
       pb_timestamp_ms = max ts (timestamp_ms (tip lg) + 1), pb_miner = owner,
       pb_reward_address = reward_addr, pb_finalizer_mode = RecoveryMode, pb_finalizer_rank = 0,
       pb_reward = rew, pb_vdf_rounds = rounds,
       pb_vdf_seed = recovery_vdf_seed_for_child ?cr (block_hash (tip lg)) ?h (max ts (timestamp_ms (tip lg) + 1))
         (section_bundle_hashes ?cr sec ?h (block_hash (tip lg)) owner)
         (vdf_content_commitment ?cr ?h (block_hash (tip lg)) owner reward_addr RecoveryMode 0 rew rounds
           None sec (sel_transactions selection) (sel_transactions_v2 selection)),
       pb_leader_ticket = None, pb_burn_bundle_section = sec, pb_transactions = sel_transactions selection,
       pb_transactions_v2 = sel_transactions_v2 selection\<rparr>"
    using assms(1)
    by (auto simp: prepare_recovery_block_with_required_burn_and_burn_bundles_def Let_def and_then_eq_Inr
        if_bail_eq_Inr split: if_splits)
  have fees: "validate_block_fee_policy b = Inr ()"
    by (rule fee_policy_selection [OF facts(3) [unfolded select_recovery_block_transactions_with_burn_section_def]])
      (simp add: assms(2) p)
  show "header_checks hs lg b"
    using facts fees
    by (simp add: header_checks_def assms(2) p finish_hash_valid expected_reward_for_block_def
        expected_reward_for_next_block_def expected_vdf_rounds_for_block_def recovery_vdf_rounds_def)
  show "vdf_seed ?cr b = pb_vdf_seed p"
    unfolding assms(2) vdf_seed_finish by (simp add: p)
  show "miner b = owner" "finalizer_mode b = RecoveryMode" by (simp_all add: assms(2) p)
  show "ensure_valid_recovery_block ?cr b (tip lg) = Inr ()"
    using facts(2,5)
    by (simp add: ensure_valid_recovery_block_def assms(2) p recovery_block_min_timestamp_def Let_def not_less
        le_max_iff_disj)
qed

text \<open>What is left of the precheck when the header checks hold.\<close>

lemma precheck_after_header:
  assumes "header_checks hs lg b" and "check_reward_address_signature (h_crypto hs) b = Inr ()"
    and "ensure_block_transactions_are_not_replays (h_crypto hs) lg b = Inr ()"
    and "check_block_timestamp lg b now = Inr ()"
  shows "precheck_new_block hs lg b now = check_block_content hs lg b"
  using assms unfolding header_checks_def by (elim conjE) (simp add: precheck_new_block_def Let_def)

end
