(* ===== verification/Ledger_Queries.thy ===== *)
theory Ledger_Queries
  imports Ledger_Chain_Facts Block_Prepare Wallet_Discovery Tx_Builders
begin

text \<open>
  What a ledger answers (\<open>domain/ledger_queries.rs\<close>, the rest of \<open>domain/ledger_history_index.rs\<close>
  and the size reports of \<open>domain/ledger_ops.rs\<close>): the window of blocks it keeps in memory and
  serves to peers, the ranking of the tickets of past blocks, its status, and its balances. The
  facts follow in \<open>Query_Facts\<close>.
\<close>

section \<open>The resident window\<close>

definition retain_size_breakdowns_for_blocks :: "string list \<Rightarrow> CompactBlockContext \<Rightarrow> CompactBlockContext" where
  "retain_size_breakdowns_for_blocks hashes ctx =
     ctx\<lparr>ctx_breakdowns := bt_of_list (filter (\<lambda>e. fst e \<in> set hashes) (bt_entries (ctx_breakdowns ctx)))\<rparr>"

definition retain_recent_chain_blocks :: "nat \<Rightarrow> Ledger \<Rightarrow> Ledger" where
  "retain_recent_chain_blocks limit lg =
     (let recent_limit = max limit 1 in
      if length (chain lg) \<le> recent_limit + 1 then lg
      else
        (let recent_start = length (chain lg) - recent_limit;
             kept = hd (chain lg) # drop recent_start (chain lg) in
         lg\<lparr>chain := kept, history_pruned := True,
            compact_block_context :=
              retain_size_breakdowns_for_blocks (map block_hash kept) (compact_block_context lg)\<rparr>))"

definition first_resident_tail_height :: "Ledger \<Rightarrow> u64 option" where
  "first_resident_tail_height lg = (if 1 < length (chain lg) then Some (height (chain lg ! 1)) else None)"

definition first_contiguous_resident_height :: "Ledger \<Rightarrow> u64" where
  "first_contiguous_resident_height lg =
     (if history_pruned lg
      then (case first_resident_tail_height lg of Some h \<Rightarrow> h | None \<Rightarrow> 0)
      else 0)"

definition recent_blocks :: "Ledger \<Rightarrow> nat \<Rightarrow> Block list" where
  "recent_blocks lg limit =
     take limit (takeWhile (\<lambda>b. first_contiguous_resident_height lg \<le> height b) (rev (chain lg)))"

definition blocks_before :: "Ledger \<Rightarrow> u64 \<Rightarrow> nat \<Rightarrow> Block list" where
  "blocks_before lg before_height limit =
     take limit (filter (\<lambda>b. height b < before_height \<and> first_contiguous_resident_height lg \<le> height b)
       (rev (chain lg)))"

definition blocks_from :: "Ledger \<Rightarrow> u64 \<Rightarrow> nat \<Rightarrow> Block list" where
  "blocks_from lg from_height limit =
     (if limit = 0 \<or> from_height < first_contiguous_resident_height lg then []
      else take limit (filter (\<lambda>b. from_height \<le> height b) (chain lg)))"

definition known_block_prefix_len :: "Ledger \<Rightarrow> Block list \<Rightarrow> nat" where
  "known_block_prefix_len lg blocks =
     length (takeWhile (\<lambda>b. case resident_block_at_height lg (height b) of
       None \<Rightarrow> False | Some known \<Rightarrow> block_hash known = block_hash b) blocks)"

definition contains_block_sequence :: "Ledger \<Rightarrow> Block list \<Rightarrow> bool" where
  "contains_block_sequence lg blocks =
     list_all (\<lambda>b. case find (\<lambda>known. height known = height b) (chain lg) of
       None \<Rightarrow> False | Some known \<Rightarrow> block_hash known = block_hash b) blocks"

definition block_by_hash :: "Ledger \<Rightarrow> string \<Rightarrow> Block option" where
  "block_by_hash lg hash = find (\<lambda>b. block_hash b = hash) (chain lg)"

definition has_block :: "Ledger \<Rightarrow> string \<Rightarrow> bool" where
  "has_block lg hash = list_ex (\<lambda>b. block_hash b = hash) (chain lg)"

text \<open>The height of the first locator entry that is in the chain, and the blocks above it.\<close>

fun common_height :: "Ledger \<Rightarrow> string list \<Rightarrow> u64 option" where
  "common_height lg [] = None"
| "common_height lg (hash # locator) =
     (case find (\<lambda>b. block_hash b = hash) (chain lg) of
        Some b \<Rightarrow> Some (height b)
      | None \<Rightarrow> common_height lg locator)"

definition blocks_after_locator :: "Ledger \<Rightarrow> string list \<Rightarrow> nat \<Rightarrow> Block list" where
  "blocks_after_locator lg locator limit =
     (case common_height lg locator of
        None \<Rightarrow> []
      | Some h \<Rightarrow> blocks_from lg (saturating_add h 1) limit)"

definition genesis_snapshot :: "Ledger \<Rightarrow> ChainSnapshot" where
  "genesis_snapshot lg =
     \<lparr>snap_genesis_allocations = genesis_allocations lg, snap_vdf_rounds = initial_vdf_rounds lg,
      snap_launch_profile = launch_profile lg, snap_blocks = [hd (chain lg)]\<rparr>"

section \<open>Tickets of past blocks\<close>

definition apply_historical_ticket_block ::
  "crypto \<Rightarrow> Block \<Rightarrow> Block \<Rightarrow> LaunchProfile \<Rightarrow> BurnTicket list \<Rightarrow> BurnTicket list result" where
  "apply_historical_ticket_block cr parent b profile ts =
     and_then (apply_finalizer_ticket_effects cr parent b ts) (\<lambda>ts'.
     and_then (tickets_created_by_block cr b profile) (\<lambda>created. Inr (ts' @ created)))"

definition leader_ranks :: "BurnTicket list \<Rightarrow> BurnLeaderRank list" where
  "leader_ranks ranked =
     map (\<lambda>(rank, t). \<lparr>blr_rank = word_of_nat rank, blr_ticket_id = tk_id t, blr_owner = tk_owner t,
       blr_amount = tk_amount t, blr_from = tk_from t, blr_until = tk_until t\<rparr>) (enumerate 0 ranked)"

text \<open>Replays the blocks below a height; the position counts the blocks that are done.\<close>

function replay_below ::
  "crypto \<Rightarrow> Ledger \<Rightarrow> u64 \<Rightarrow> nat \<Rightarrow> BurnTicket list \<Rightarrow> (nat \<times> BurnTicket list) result" where
  "replay_below cr lg h next_index ts =
     (if next_index < length (chain lg) \<and> height (chain lg ! next_index) < h
      then
        and_then (apply_historical_ticket_block cr (chain lg ! (next_index - 1)) (chain lg ! next_index)
          (launch_profile lg) ts) (\<lambda>ts'.
        replay_below cr lg h (next_index + 1) ts')
      else Inr (next_index, ts))"
  by pat_completeness auto
termination
  by (relation "measure (\<lambda>(cr, lg, h, next_index, ts). length (chain lg) - next_index)") auto

declare replay_below.simps [simp del]

definition replay_height_step ::
  "crypto \<Rightarrow> Ledger \<Rightarrow> nat \<times> BurnTicket list \<times> (u64, BurnLeaderRank list) btree_map \<Rightarrow> u64 \<Rightarrow>
     (nat \<times> BurnTicket list \<times> (u64, BurnLeaderRank list) btree_map) result" where
  "replay_height_step cr lg st h = (case st of (next_index, ts, ranks_by_height) \<Rightarrow>
     and_then (ok_or ''block height underflows'' (checked_sub h 1)) (\<lambda>parent_height.
     if length (chain lg) \<le> unat parent_height
     then bail (''missing parent block for height '' @ show_u64 h)
     else
       (let parent = chain lg ! unat parent_height in
        and_then (replay_below cr lg h next_index ts) (\<lambda>(next_index', ts').
        Inr (next_index', ts',
          bt_insert h (leader_ranks (ranked_tickets_for_height cr parent h ts')) ranks_by_height)))))"

definition cached_ranks_at :: "crypto \<Rightarrow> Ledger \<Rightarrow> u64 \<Rightarrow> BurnLeaderRank list option" where
  "cached_ranks_at cr lg h =
     Option.bind (resident_block_at_height lg h) (\<lambda>b. cached_burn_leader_ranks cr lg h (block_hash b))"

definition burn_leader_ranks_for_blocks ::
  "crypto \<Rightarrow> Ledger \<Rightarrow> u64 list \<Rightarrow> (u64, BurnLeaderRank list) btree_map result" where
  "burn_leader_ranks_for_blocks cr lg heights =
     (let requested = remdups (sort heights);
          genesis_ranks = (if 0 \<in> set requested then bt_insert 0 [] bt_empty else bt_empty);
          later = filter (\<lambda>h. h \<noteq> 0) requested;
          ranks_by_height = foldl (\<lambda>m h. case cached_ranks_at cr lg h of
            Some ranks \<Rightarrow> bt_insert h ranks m | None \<Rightarrow> m) genesis_ranks later;
          missing = filter (\<lambda>h. cached_ranks_at cr lg h = None) later in
      if missing = [] \<or> history_pruned lg then Inr ranks_by_height
      else
        and_then (genesis_tickets cr (genesis_allocations lg) (hd (chain lg)) (launch_profile lg)) (\<lambda>ts.
        and_then (try_fold (replay_height_step cr lg) (1, ts, ranks_by_height) missing)
          (\<lambda>(_, _, ranks). Inr ranks)))"

definition burn_leader_ranks_for_block :: "crypto \<Rightarrow> Ledger \<Rightarrow> u64 \<Rightarrow> BurnLeaderRank list result" where
  "burn_leader_ranks_for_block cr lg h =
     and_then (burn_leader_ranks_for_blocks cr lg [h]) (\<lambda>m.
     Inr (case bt_get m h of Some ranks \<Rightarrow> ranks | None \<Rightarrow> []))"

definition sort_rank_request ::
  "crypto \<Rightarrow> Ledger \<Rightarrow> (string, BurnLeaderRank list) btree_map \<times> Block list \<Rightarrow> Block \<Rightarrow>
     (string, BurnLeaderRank list) btree_map \<times> Block list" where
  "sort_rank_request cr lg st b = (case st of (ranks, replay) \<Rightarrow>
     if height b = 0 then (bt_insert (block_hash b) [] ranks, replay)
     else
       (case cached_burn_leader_ranks cr lg (height b) (block_hash b) of
          Some cached \<Rightarrow> (bt_insert (block_hash b) cached ranks, replay)
        | None \<Rightarrow>
            if \<not> history_pruned lg \<and>
               (case resident_block_at_height lg (height b) of
                  None \<Rightarrow> False | Some resident \<Rightarrow> block_hash resident = block_hash b)
            then (ranks, replay @ [b]) else (ranks, replay)))"

definition take_replayed ::
  "(string, BurnLeaderRank list) btree_map \<times> (u64, BurnLeaderRank list) btree_map \<Rightarrow> Block \<Rightarrow>
     (string, BurnLeaderRank list) btree_map \<times> (u64, BurnLeaderRank list) btree_map" where
  "take_replayed st b = (case st of (ranks, replayed) \<Rightarrow>
     case bt_get replayed (height b) of
       Some block_ranks \<Rightarrow> (bt_insert (block_hash b) block_ranks ranks, bt_remove (height b) replayed)
     | None \<Rightarrow> (ranks, replayed))"

definition burn_leader_ranks_by_block_hash ::
  "crypto \<Rightarrow> Ledger \<Rightarrow> Block list \<Rightarrow> (string, BurnLeaderRank list) btree_map result" where
  "burn_leader_ranks_by_block_hash cr lg blocks =
     (case foldl (sort_rank_request cr lg) (bt_empty, []) blocks of (ranks, replay) \<Rightarrow>
        if replay = [] then Inr ranks
        else
          and_then (burn_leader_ranks_for_blocks cr lg (map height replay)) (\<lambda>replayed.
          Inr (fst (foldl take_replayed (ranks, replayed) replay))))"

definition set_ticket_draw_horizon :: "u64 \<Rightarrow> Ledger \<Rightarrow> Ledger" where
  "set_ticket_draw_horizon h lg = lg\<lparr>ticket_draw_horizon := h\<rparr>"

section \<open>Reattaching history\<close>

text \<open>The complete ledger is a copy that the caller discards, so only its success counts.\<close>

definition extends_restored_tip :: "Ledger \<Rightarrow> Block \<Rightarrow> bool" where
  "extends_restored_tip lg restored_tip =
     (case resident_block_at_height lg (height restored_tip) of
        Some b \<Rightarrow> block_hash b = block_hash restored_tip
      | None \<Rightarrow>
          (case resident_block_at_height lg (saturating_add (height restored_tip) 1) of
             None \<Rightarrow> False | Some b \<Rightarrow> prev_hash b = block_hash restored_tip))"

definition restore_pruned_history :: "crypto \<Rightarrow> Ledger \<Rightarrow> Ledger \<Rightarrow> (bool \<times> Ledger) result" where
  "restore_pruned_history cr lg complete =
     (if \<not> history_pruned lg then Inr (True, lg)
      else if history_pruned complete then bail ''cannot restore history from a pruned ledger''
      else if ledger_genesis_hash complete \<noteq> ledger_genesis_hash lg
      then bail ''restored history belongs to a different genesis''
      else if \<not> extends_restored_tip lg (tip complete) then Inr (False, lg)
      else
        and_then (try_fold (apply_trusted_block_at cr) complete
          (filter (\<lambda>b. height (tip complete) < height b) (chain lg))) (\<lambda>complete'.
        if tip_hash complete' \<noteq> tip_hash lg then Inr (False, lg)
        else Inr (True, lg\<lparr>chain := chain complete', compact_block_context := compact_block_context complete',
          history_pruned := False\<rparr>)))"

section \<open>Committees of the next block\<close>

definition burn_committee_for_next_block :: "crypto \<Rightarrow> Ledger \<Rightarrow> BurnCommitteeMember list" where
  "burn_committee_for_next_block cr lg = burn_committee_for_next_ticket_block cr lg 0"

definition burn_committee_for_height :: "crypto \<Rightarrow> Ledger \<Rightarrow> u64 \<Rightarrow> BurnCommitteeMember list" where
  "burn_committee_for_height cr lg h = burn_committee_for_ticket_block cr lg h 0"

definition membership_step ::
  "string \<Rightarrow> BurnCommitteeMember list \<times> u8 set \<Rightarrow> BurnCommitteeMember \<Rightarrow> BurnCommitteeMember list \<times> u8 set" where
  "membership_step owner st m = (case st of (memberships, seen_slots) \<Rightarrow>
     if cm_owner m \<noteq> owner \<or> cm_slot m \<in> seen_slots then (memberships, seen_slots)
     else (memberships @ [m], insert (cm_slot m) seen_slots))"

definition burn_committee_memberships_for_next_block ::
  "crypto \<Rightarrow> Ledger \<Rightarrow> string \<Rightarrow> BurnCommitteeMember list" where
  "burn_committee_memberships_for_next_block cr lg owner =
     (let max_rank = min (finalizer_rank_count_for_next_block cr lg) BURN_COMMITTEE_SIZE in
      sort_key cm_slot (fst (foldl (membership_step owner) ([], {})
        (concat (map (\<lambda>rank. burn_committee_for_next_ticket_block cr lg (word_of_nat rank)) [0..<max_rank])))))"

section \<open>Status and pools\<close>

record ChainStatus =
  st_height :: u64
  st_tip_hash :: string
  st_finalized_height :: "u64 option"
  st_finalized_hash :: "string option"
  st_next_leader :: "string option"
  st_launch_profile_hash :: string
  st_mine_reward :: Amount
  st_current_mine_difficulty_bits :: u32
  st_balances :: "(string, Amount) btree_map"
  st_pending_transactions :: nat
  st_pending_burns :: nat
  st_pending_transfers :: nat
  st_pending_mines :: nat

fun v2_is_transfer :: "TransactionV2 \<Rightarrow> bool" where
  "v2_is_transfer (V2Transfer _ _ _ _) = True"
| "v2_is_transfer _ = False"

definition pool_count :: "(Transaction \<Rightarrow> bool) \<Rightarrow> (TransactionV2 \<Rightarrow> bool) \<Rightarrow> Ledger \<Rightarrow> nat" where
  "pool_count p q lg =
     usize_saturating_add (length (filter p (pending lg))) (length (filter q (pending_v2 lg)))"

definition status_with_balances :: "crypto \<Rightarrow> Ledger \<Rightarrow> bool \<Rightarrow> ChainStatus" where
  "status_with_balances cr lg include_balances =
     \<lparr>st_height = height (tip lg), st_tip_hash = block_hash (tip lg),
      st_finalized_height = map_option cp_height (objective_finality_checkpoint lg),
      st_finalized_hash = map_option cp_hash (objective_finality_checkpoint lg),
      st_next_leader = expected_leader_for_next_block cr lg,
      st_launch_profile_hash = profile_hash cr (launch_profile lg), st_mine_reward = mine_reward lg,
      st_current_mine_difficulty_bits = current_mine_difficulty_bits lg,
      st_balances = (if include_balances then balances_from_utxos (ledger_utxos lg) else bt_empty),
      st_pending_transactions = usize_saturating_add (length (pending lg)) (length (pending_v2 lg)),
      st_pending_burns = pool_count is_burn v2_is_burn lg,
      st_pending_transfers = pool_count is_transfer v2_is_transfer lg,
      st_pending_mines = pool_count is_mine v2_is_mine lg\<rparr>"

definition ledger_status :: "crypto \<Rightarrow> Ledger \<Rightarrow> ChainStatus" where
  "ledger_status cr lg = status_with_balances cr lg True"

definition light_status :: "crypto \<Rightarrow> Ledger \<Rightarrow> ChainStatus" where
  "light_status cr lg = status_with_balances cr lg False"

definition finality_checkpoint :: "Ledger \<Rightarrow> (u64 \<times> string) option" where
  "finality_checkpoint lg = map_option (\<lambda>c. (cp_height c, cp_hash c)) (objective_finality_checkpoint lg)"

definition is_setup_placeholder :: "Ledger \<Rightarrow> bool" where
  "is_setup_placeholder lg \<longleftrightarrow>
     ledger_height lg = 0 \<and> bt_is_empty (genesis_allocations lg) \<and> transactions (hd (chain lg)) = [] \<and>
     pending lg = []"

definition clear_pending_transactions :: "Ledger \<Rightarrow> Ledger" where
  "clear_pending_transactions lg =
     lg\<lparr>pending := [], pending_bytes := 0, pending_v2 := [], pending_v2_bytes := 0\<rparr>"

definition transaction_by_signature :: "Ledger \<Rightarrow> string \<Rightarrow> Transaction option" where
  "transaction_by_signature lg sig =
     find (\<lambda>tx. tx_signature tx = sig) (pending lg @ orphans lg @ concat (map transactions (chain lg)))"

definition pending_mine_count_for_anchor :: "Ledger \<Rightarrow> string \<Rightarrow> nat" where
  "pending_mine_count_for_anchor lg anchor =
     length (filter (\<lambda>tx. mine_anchor tx = Some anchor) (pending lg))"

definition mine_difficulty_bits_at_height :: "Ledger \<Rightarrow> u64 \<Rightarrow> u32" where
  "mine_difficulty_bits_at_height lg h =
     mine_difficulty_bits_for_anchor_height lg (min h (height (tip lg)))"

section \<open>Balances\<close>

text \<open>The sum of a query wraps around in an optimised build; the supply bounds it.\<close>

definition ledger_balance_of :: "Ledger \<Rightarrow> string \<Rightarrow> Amount" where
  "ledger_balance_of lg address =
     sum_list (map out_amount (filter (\<lambda>out. out_address out = address) (bt_values (ledger_utxos lg))))"

definition utxos_for_address :: "Ledger \<Rightarrow> string \<Rightarrow> (OutPoint \<times> TxOutput) list" where
  "utxos_for_address lg address =
     filter (\<lambda>e. out_address (snd e) = address) (bt_entries (ledger_utxos lg))"

definition utxos_for_addresses :: "Ledger \<Rightarrow> string set \<Rightarrow> (OutPoint \<times> TxOutput) list" where
  "utxos_for_addresses lg addresses =
     filter (\<lambda>e. out_address (snd e) \<in> addresses) (bt_entries (ledger_utxos lg))"

definition output_for_outpoint :: "Ledger \<Rightarrow> OutPoint \<Rightarrow> TxOutput option" where
  "output_for_outpoint lg outpoint = bt_get (ledger_utxos lg) outpoint"

definition consolidation_root :: "Ledger \<Rightarrow> OutPoint \<Rightarrow> OutPoint option" where
  "consolidation_root lg outpoint = map_option root_outpoint (bt_get (ls_lineage (lineage lg)) outpoint)"

definition contains_text :: "string \<Rightarrow> string \<Rightarrow> bool" where
  "contains_text hay needle = list_ex (\<lambda>i. starts_with (drop i hay) needle) [0..<Suc (length hay)]"

definition next_nonce :: "Ledger \<Rightarrow> string \<Rightarrow> u64" where
  "next_nonce lg address =
     word_of_nat (length (filter (\<lambda>o'. contains_text (op_txid o') address)
       (bt_keys (ledger_utxos lg) @ concat (map (\<lambda>tx. map in_outpoint (inputs tx)) (pending lg))))) + 1"

section \<open>Sizes on disk\<close>

definition stored_block_size_breakdown :: "CompactBlockContext \<Rightarrow> string \<Rightarrow> CompactBlockSizeBreakdown option" where
  "stored_block_size_breakdown ctx hash = bt_get (ctx_breakdowns ctx) hash"

definition recorded_storage_size_breakdowns ::
  "Ledger \<Rightarrow> Block list \<Rightarrow> (string, CompactBlockSizeBreakdown) btree_map" where
  "recorded_storage_size_breakdowns lg blocks =
     bt_of_list (List.map_filter (\<lambda>b.
       map_option (Pair (block_hash b)) (stored_block_size_breakdown (compact_block_context lg) (block_hash b)))
       blocks)"

definition storage_size_breakdowns ::
  "Ledger \<Rightarrow> Block list \<Rightarrow> (string, CompactBlockSizeBreakdown) btree_map" where
  "storage_size_breakdowns lg blocks =
     bt_of_list (List.map_filter (\<lambda>b.
       map_option (Pair (block_hash b))
         (case stored_block_size_breakdown (compact_block_context lg) (block_hash b) of
            Some d \<Rightarrow> Some d
          | None \<Rightarrow> ok (block_size_breakdown (compact_block_context lg) b)))
       blocks)"

definition COMPACT_SNAPSHOT_MAGIC :: bytes where "COMPACT_SNAPSHOT_MAGIC = as_bytes ''IUNA-SNAPSHOT''"

definition encode_launch_profile :: "LaunchProfile \<Rightarrow> writer" where
  "encode_launch_profile p =
     write_all [write_string (profile_id p), write_varint (ticket_maturity_delay_heights p),
       write_varint (ticket_expiry_window_heights p), write_varint (ucast (mine_difficulty_bits p)),
       write_varint (burn_lineage_maturity_heights p),
       write_varint (word_of_nat (max_pending_transactions p)),
       write_varint (word_of_nat (max_block_transactions p)),
       write_varint (word_of_nat (max_block_bytes p))]"

definition encode_compact_snapshot_fixed_prefix ::
  "(string, Amount) btree_map \<Rightarrow> u64 \<Rightarrow> LaunchProfile \<Rightarrow> writer" where
  "encode_compact_snapshot_fixed_prefix allocations rounds profile =
     write_all ([write_bytes COMPACT_SNAPSHOT_MAGIC, write_u8 COMPACT_SNAPSHOT_VERSION,
         write_varint (word_of_nat (length (bt_entries allocations)))] @
       concat (map (\<lambda>(address, amt). [write_address address, write_varint amt]) (bt_entries allocations)) @
       [write_varint rounds, encode_launch_profile profile])"

definition compact_snapshot_fixed_prefix_size ::
  "(string, Amount) btree_map \<Rightarrow> u64 \<Rightarrow> LaunchProfile \<Rightarrow> nat result" where
  "compact_snapshot_fixed_prefix_size allocations rounds profile =
     and_then (encode_compact_snapshot_fixed_prefix allocations rounds profile tables_default)
       (\<lambda>(bs, _). Inr (length bs))"

fun compact_varint_size :: "nat \<Rightarrow> nat" where
  "compact_varint_size value = (if 128 \<le> value then Suc (compact_varint_size (value div 128)) else 1)"

declare compact_varint_size.simps [simp del]

definition chain_storage_step ::
  "Ledger \<Rightarrow> nat \<Rightarrow> nat \<times> u64 \<times> (string, u64) btree_map \<Rightarrow> Block \<Rightarrow>
     (nat \<times> u64 \<times> (string, u64) btree_map) result" where
  "chain_storage_step lg fixed_prefix_bytes st b = (case st of (index, cumulative, sizes) \<Rightarrow>
     and_then (ok_or (''missing compact storage size for block '' @ block_hash b @ '' at height '' @
         show_u64 (height b)) (stored_block_size_breakdown (compact_block_context lg) (block_hash b))) (\<lambda>d.
     and_then (ok_or ''cumulative block storage size overflows''
       (checked_add cumulative (word_of_nat (total_bytes d)))) (\<lambda>cumulative'.
     and_then (ok_or ''snapshot prefix size overflows''
       (usize_checked_add fixed_prefix_bytes (compact_varint_size (index + 1)))) (\<lambda>prefix_bytes.
     and_then (ok_or ''chain storage size overflows''
       (checked_add cumulative' (word_of_nat prefix_bytes))) (\<lambda>chain_bytes.
     Inr (index + 1, cumulative', bt_insert (block_hash b) chain_bytes sizes))))))"

definition chain_storage_bytes_by_hash :: "Ledger \<Rightarrow> (string, u64) btree_map result" where
  "chain_storage_bytes_by_hash lg =
     and_then (compact_snapshot_fixed_prefix_size (genesis_allocations lg) (initial_vdf_rounds lg)
       (launch_profile lg)) (\<lambda>fixed_prefix_bytes.
     and_then (try_fold (chain_storage_step lg fixed_prefix_bytes) (0, 0, bt_empty) (chain lg))
       (\<lambda>(_, _, sizes). Inr sizes))"

end
