(* ===== verification/Query_Facts.thy ===== *)
theory Query_Facts
  imports Ledger_Queries
begin

text \<open>
  Facts on the answers of a ledger: the window of blocks it keeps, what a peer receives for its
  locator, the reattachment of pruned history, and the equality of cached and replayed rankings.
\<close>

section \<open>The resident window\<close>

text \<open>
  The window holds the genesis block and a contiguous tail; as long as nothing was pruned the
  tail starts at height one.
\<close>

definition tail_from :: "nat \<Rightarrow> Block list \<Rightarrow> bool" where
  "tail_from k tail \<longleftrightarrow> (\<forall>i<length tail. unat (height (tail ! i)) = k + i)"

definition window_ok :: "Ledger \<Rightarrow> bool" where
  "window_ok lg \<longleftrightarrow> (\<exists>g tail k. chain lg = g # tail \<and> height g = 0 \<and> 0 < k \<and> tail_from k tail \<and>
     (history_pruned lg \<or> k = 1))"

lemma tail_from_drop: "tail_from k tail \<Longrightarrow> tail_from (k + n) (drop n tail)"
  by (auto simp: tail_from_def)

lemma tail_from_Cons: "tail_from k (b # bs) \<longleftrightarrow> unat (height b) = k \<and> tail_from (Suc k) bs"
  by (auto simp: tail_from_def nth_Cons split: nat.splits)

lemma tail_from_linked:
  assumes "successively (follows cr) (b # bs)"
  shows "tail_from (unat (height b) + 1) bs"
  using assms
proof (induction bs arbitrary: b)
  case (Cons c cs)
  then show ?case using Cons.IH [of c] by (simp add: tail_from_Cons follows_def)
qed (simp add: tail_from_def)

lemma linked_window:
  assumes "chain_linked cr (chain lg)" and "height (hd (chain lg)) = 0"
  shows "window_ok lg"
proof -
  obtain g tail where g: "chain lg = g # tail" using assms(1) by (cases "chain lg") (auto simp: chain_linked_def)
  then have "tail_from 1 tail" using assms tail_from_linked [of cr g tail] by (simp add: chain_linked_def)
  then show ?thesis using g assms(2) by (auto simp: window_ok_def)
qed

lemma window_okE:
  assumes "window_ok lg"
  obtains g tail k where "chain lg = g # tail" "height g = 0" "0 < k" "tail_from k tail"
    "history_pruned lg \<or> k = 1"
proof -
  from assms obtain g tail k where "chain lg = g # tail \<and> height g = 0 \<and> 0 < k \<and> tail_from k tail \<and>
     (history_pruned lg \<or> k = 1)"
    unfolding window_ok_def by (elim exE)
  then show thesis by (elim conjE) (rule that)
qed

lemma tail_filter:
  "tail_from k tail \<Longrightarrow> filter (\<lambda>b. h \<le> height b) tail = drop (unat h - k) tail"
proof (induction tail arbitrary: k)
  case (Cons b bs)
  then have b: "unat (height b) = k" and bs: "tail_from (Suc k) bs" by (simp_all add: tail_from_Cons)
  have "h \<le> height b \<longleftrightarrow> unat h \<le> k" using b by (simp add: word_le_nat_alt)
  moreover have "unat h - k = Suc (unat h - Suc k)" if "\<not> unat h \<le> k" using that by simp
  ultimately show ?case using Cons.IH [OF bs] by (cases "unat h \<le> k") simp_all
qed simp

text \<open>A lookup by height finds exactly the resident blocks.\<close>

lemma resident_block_iff:
  assumes "window_ok lg"
  shows "resident_block_at_height lg h = Some b \<longleftrightarrow> b \<in> set (chain lg) \<and> height b = h"
proof -
  obtain g tail k where w: "chain lg = g # tail" "height g = 0" "0 < k" "tail_from k tail"
    using assms by (rule window_okE)
  have heights: "unat (height (tail ! i)) = k + i" if "i < length tail" for i
    using w(4) that by (simp add: tail_from_def)
  show ?thesis
  proof (cases "h = 0")
    case True
    have "height c \<noteq> 0" if c: "c \<in> set tail" for c
    proof -
      obtain i where "i < length tail" "tail ! i = c" using c unfolding in_set_conv_nth by blast
      then have "0 < unat (height c)" using heights [of i] w(3) by simp
      then show ?thesis by auto
    qed
    then show ?thesis using True w(1,2) by (auto simp: resident_block_at_height_def)
  next
    case False
    have find: "resident_block_at_height lg h = Some b \<longleftrightarrow>
        (\<exists>i<length tail. unat h = k + i \<and> tail ! i = b)"
    proof (cases tail)
      case Nil
      then show ?thesis using False w(1,2) by (simp add: resident_block_at_height_def)
    next
      case (Cons t ts)
      have t: "unat (height t) = k" using heights [of 0] Cons by simp
      have "resident_block_at_height lg h = Some b \<longleftrightarrow>
        (\<exists>offset. checked_sub h (height t) = Some offset \<and> unat offset < length tail \<and>
           height (tail ! unat offset) = h \<and> tail ! unat offset = b)"
        using False w(1,2) Cons
        by (auto simp: resident_block_at_height_def bind_eq_Some_conv split: if_splits)
      also have "\<dots> \<longleftrightarrow> (\<exists>i<length tail. unat h = k + i \<and> tail ! i = b)"
      proof
        assume "\<exists>offset. checked_sub h (height t) = Some offset \<and> unat offset < length tail \<and>
           height (tail ! unat offset) = h \<and> tail ! unat offset = b"
        then show "\<exists>i<length tail. unat h = k + i \<and> tail ! i = b"
          using t by (auto simp: checked_sub_eq_Some)
      next
        assume "\<exists>i<length tail. unat h = k + i \<and> tail ! i = b"
        then obtain i where i: "i < length tail" "unat h = k + i" "tail ! i = b" by blast
        have "height t \<le> h" using t i(2) by (simp add: word_le_nat_alt)
        then have off: "checked_sub h (height t) = Some (h - height t)" "unat (h - height t) = i"
          using t i(2) by (simp_all add: checked_sub_def unat_sub word_le_nat_alt)
        moreover have "height (tail ! i) = h" using heights [OF i(1)] i(2) by (simp add: word_unat_eq_iff)
        ultimately show "\<exists>offset. checked_sub h (height t) = Some offset \<and> unat offset < length tail \<and>
           height (tail ! unat offset) = h \<and> tail ! unat offset = b" using i by auto
      qed
      finally show ?thesis .
    qed
    have "(\<exists>i<length tail. unat h = k + i \<and> tail ! i = b) \<longleftrightarrow> b \<in> set tail \<and> height b = h"
      using heights by (auto simp: in_set_conv_nth word_unat_eq_iff)
    then show ?thesis using find False w(1,2) by auto
  qed
qed

subsection \<open>Pruning\<close>

lemma retained_cases:
  assumes "window_ok lg"
  obtains "retain_recent_chain_blocks n lg = lg"
  | g tail k d where "chain lg = g # tail" "height g = 0" "0 < k" "tail_from k tail"
    "history_pruned lg \<or> k = 1" "0 < d" "d < length tail" "length tail = d + max n 1"
    "chain (retain_recent_chain_blocks n lg) = g # drop d tail"
    "history_pruned (retain_recent_chain_blocks n lg)"
proof -
  obtain g tail k where w: "chain lg = g # tail" "height g = 0" "0 < k" "tail_from k tail"
    "history_pruned lg \<or> k = 1"
    using assms by (rule window_okE)
  show thesis
  proof (cases "length (chain lg) \<le> max n 1 + 1")
    case True
    then show ?thesis using that(1) by (simp add: retain_recent_chain_blocks_def Let_def)
  next
    case False
    define d where "d = length tail - max n 1"
    have d: "0 < d" "d < length tail" "length tail = d + max n 1" "length (chain lg) - max n 1 = Suc d"
      using False w(1) by (auto simp: d_def)
    then have "chain (retain_recent_chain_blocks n lg) = g # drop d tail"
      and "history_pruned (retain_recent_chain_blocks n lg)"
      using False w(1) by (simp_all add: retain_recent_chain_blocks_def Let_def)
    then show ?thesis by (rule that(2) [OF w d(1-3)])
  qed
qed

lemma retained_window:
  assumes "window_ok lg"
  shows "window_ok (retain_recent_chain_blocks n lg)"
  using assms
proof (cases rule: retained_cases [of lg n])
  case (2 g tail k d)
  have "tail_from (k + d) (drop d tail)" using 2(4) by (rule tail_from_drop)
  then show ?thesis using 2(2,3,9,10) by (auto simp: window_ok_def)
qed (use assms in simp)

lemma retained_size: "length (chain (retain_recent_chain_blocks n lg)) \<le> max n 1 + 1"
  by (cases "chain lg") (auto simp: retain_recent_chain_blocks_def Let_def)

lemma retained_ends:
  assumes "window_ok lg"
  shows "tip (retain_recent_chain_blocks n lg) = tip lg"
    and "hd (chain (retain_recent_chain_blocks n lg)) = hd (chain lg)"
proof -
  show "tip (retain_recent_chain_blocks n lg) = tip lg"
    using assms by (cases rule: retained_cases [of lg n]) (auto simp: tip_def)
  show "hd (chain (retain_recent_chain_blocks n lg)) = hd (chain lg)"
    using assms by (cases rule: retained_cases [of lg n]) auto
qed

lemma contiguous_start:
  assumes "chain lg = g # tail" and "tail_from k tail" and "tail \<noteq> []" and "history_pruned lg"
  shows "unat (first_contiguous_resident_height lg) = k"
  using assms by (cases tail)
    (auto simp: first_contiguous_resident_height_def first_resident_tail_height_def tail_from_Cons)

text \<open>A range is served completely or not at all.\<close>

lemma retained_ranges:
  fixes lg n
  assumes "window_ok lg"
  defines "p \<equiv> retain_recent_chain_blocks n lg"
  assumes "first_contiguous_resident_height p \<le> h"
  shows "blocks_from p h limit = blocks_from lg h limit"
  using assms(1)
proof (cases rule: retained_cases [of lg n])
  case (2 g tail k d)
  have tail': "tail_from (k + d) (drop d tail)" using 2(4) by (rule tail_from_drop)
  have "drop d tail \<noteq> []" using 2(7) by simp
  then have start: "unat (first_contiguous_resident_height p) = k + d"
    unfolding p_def by (intro contiguous_start [OF 2(9) tail' _ 2(10)])
  then have h: "k + d \<le> unat h" using assms(3) by (simp add: word_le_nat_alt)
  then have "\<not> h \<le> height g" using 2(2,3) by (auto simp: word_le_nat_alt)
  have "first_contiguous_resident_height lg \<le> h"
  proof (cases "history_pruned lg")
    case True
    moreover have "tail \<noteq> []" using 2(7) by auto
    ultimately have "unat (first_contiguous_resident_height lg) = k"
      using contiguous_start [OF 2(1,4)] by blast
    then show ?thesis using h by (simp add: word_le_nat_alt)
  qed (simp add: first_contiguous_resident_height_def)
  moreover have "filter (\<lambda>b. h \<le> height b) (chain p) = filter (\<lambda>b. h \<le> height b) (chain lg)"
    using \<open>\<not> h \<le> height g\<close> h 2(1,9) tail_filter [OF 2(4)] tail_filter [OF tail']
    by (simp add: p_def add.commute)
  ultimately show ?thesis using assms(3) unfolding blocks_from_def by (simp only: not_less [symmetric] simp_thms)
qed (simp add: p_def)

lemma retained_refuses:
  "h < first_contiguous_resident_height lg \<Longrightarrow> blocks_from lg h limit = []"
  by (simp add: blocks_from_def)

text \<open>Pruning is idempotent in its effect on lookups: a block in the window is still found.\<close>

lemma retained_lookup:
  assumes "window_ok lg"
  shows "resident_block_at_height (retain_recent_chain_blocks n lg) h =
    (if h = 0 \<or> first_contiguous_resident_height (retain_recent_chain_blocks n lg) \<le> h
     then resident_block_at_height lg h else None)"
proof -
  let ?p = "retain_recent_chain_blocks n lg"
  note iff = resident_block_iff [OF assms] resident_block_iff [OF retained_window [OF assms]]
  have "b \<in> set (chain ?p) \<longleftrightarrow>
      b \<in> set (chain lg) \<and> (height b = 0 \<or> first_contiguous_resident_height ?p \<le> height b)" for b
    using assms
  proof (cases rule: retained_cases [of lg n])
    case 1
    obtain g tail k where w: "chain lg = g # tail" "height g = 0" "tail_from k tail"
      using assms by (rule window_okE)
    have "first_contiguous_resident_height lg \<le> height b" if "b \<in> set tail"
    proof (cases "history_pruned lg")
      case True
      obtain i where i: "i < length tail" "b = tail ! i" using \<open>b \<in> set tail\<close> by (auto simp: in_set_conv_nth)
      then have "tail \<noteq> []" by auto
      then have "unat (first_contiguous_resident_height lg) = k"
        by (rule contiguous_start [OF w(1,3) _ True])
      moreover have "unat (height b) = k + i" using i w(3) by (simp add: tail_from_def)
      ultimately show ?thesis by (simp add: word_le_nat_alt)
    qed (simp add: first_contiguous_resident_height_def)
    then show ?thesis using 1 w(1,2) by auto
  next
    case (2 g tail k d)
    have tail': "tail_from (k + d) (drop d tail)" using 2(4) by (rule tail_from_drop)
    have "drop d tail \<noteq> []" using 2(7) by simp
    then have start: "unat (first_contiguous_resident_height ?p) = k + d"
      by (intro contiguous_start [OF 2(9) tail' _ 2(10)])
    have pos: "height c \<noteq> 0" if "c \<in> set tail" for c
      using that 2(3,4) by (force simp: in_set_conv_nth tail_from_def unat_eq_0 [symmetric])
    have "b \<in> set (drop d tail) \<longleftrightarrow> b \<in> set tail \<and> first_contiguous_resident_height ?p \<le> height b"
    proof -
      have "set (filter (\<lambda>b. first_contiguous_resident_height ?p \<le> height b) tail) = set (drop d tail)"
        using tail_filter [OF 2(4), of "first_contiguous_resident_height ?p"] start by simp
      then show ?thesis by auto
    qed
    then show ?thesis using 2(1,2,9) pos by auto
  qed
  then have "resident_block_at_height ?p h = Some b \<longleftrightarrow>
      (if h = 0 \<or> first_contiguous_resident_height ?p \<le> h then resident_block_at_height lg h else None) = Some b"
    for b
    unfolding iff by (auto simp: iff)
  then show ?thesis by (metis option.exhaust_sel not_None_eq)
qed

section \<open>Linked windows\<close>

text \<open>Resident blocks of consecutive heights follow each other.\<close>

definition window_linked :: "crypto \<Rightarrow> Ledger \<Rightarrow> bool" where
  "window_linked cr lg \<longleftrightarrow> window_ok lg \<and>
     (\<forall>b\<in>set (chain lg). \<forall>c\<in>set (chain lg).
        unat (height c) = unat (height b) + 1 \<longrightarrow> follows cr b c)"

lemma tail_heights_inject:
  assumes "tail_from k tail" and "b \<in> set tail" and "i < length tail" and "unat (height b) = k + i"
  shows "b = tail ! i"
proof -
  obtain j where j: "j < length tail" "tail ! j = b" using assms(2) unfolding in_set_conv_nth by blast
  then have "unat (height b) = k + j" using assms(1) by (auto simp: tail_from_def)
  then show ?thesis using assms(4) j by simp
qed

lemma tail_positive: "tail_from k tail \<Longrightarrow> b \<in> set tail \<Longrightarrow> k \<le> unat (height b)"
  by (auto simp: tail_from_def in_set_conv_nth)

lemma linked_successively:
  assumes "successively (follows cr) bs" and "tail_from k bs"
    and "b \<in> set bs" and "c \<in> set bs" and "unat (height c) = unat (height b) + 1"
  shows "follows cr b c"
proof -
  obtain i where i: "i < length bs" "bs ! i = b" using assms(3) unfolding in_set_conv_nth by blast
  obtain j where j: "j < length bs" "bs ! j = c" using assms(4) unfolding in_set_conv_nth by blast
  have "unat (height b) = k + i" "unat (height c) = k + j" using assms(2) i j by (auto simp: tail_from_def)
  then have "j = Suc i" using assms(5) by simp
  then show ?thesis using assms(1) i j by (auto simp: successively_conv_nth)
qed

lemma linked_window_linked:
  assumes "chain_linked cr (chain lg)" and "height (hd (chain lg)) = 0"
  shows "window_linked cr lg"
proof -
  obtain g tail where g: "chain lg = g # tail" using assms(1) by (cases "chain lg") (auto simp: chain_linked_def)
  have run: "successively (follows cr) (g # tail)" using assms(1) g by (simp add: chain_linked_def)
  have "tail_from 0 (g # tail)" using tail_from_linked [OF run] assms(2) g by (simp add: tail_from_Cons)
  then show ?thesis
    using linked_window [OF assms] linked_successively [OF run] g by (simp add: window_linked_def)
qed

lemma retained_subset: "set (chain (retain_recent_chain_blocks n lg)) \<subseteq> set (chain lg)"
  using set_drop_subset [of "length (chain lg) - max n 1" "chain lg"]
  by (cases "chain lg") (auto simp: retain_recent_chain_blocks_def Let_def dest: in_set_dropD)

lemma retained_linked: "window_linked cr lg \<Longrightarrow> window_linked cr (retain_recent_chain_blocks n lg)"
  using retained_window retained_subset unfolding window_linked_def by blast

lemma window_successively:
  assumes "window_linked cr lg" and "set bs \<subseteq> set (chain lg)" and "tail_from k bs"
  shows "successively (follows cr) bs"
  unfolding successively_conv_nth
proof (intro allI impI)
  fix i
  assume i: "Suc i < length bs"
  then have "unat (height (bs ! Suc i)) = unat (height (bs ! i)) + 1" using assms(3) by (simp add: tail_from_def)
  moreover have "bs ! i \<in> set (chain lg)" "bs ! Suc i \<in> set (chain lg)" using assms(2) i by auto
  ultimately show "follows cr (bs ! i) (bs ! Suc i)" using assms(1) by (simp add: window_linked_def)
qed

lemma tail_from_take: "tail_from k bs \<Longrightarrow> tail_from k (take n bs)"
  by (simp add: tail_from_def)

text \<open>A served range starts at the requested height and has no gap.\<close>

lemma served_range:
  assumes "window_ok lg" and "blocks_from lg h limit = b # bs"
  shows "tail_from (unat h) (b # bs)" and "set (b # bs) \<subseteq> set (chain lg)" and "length (b # bs) \<le> limit"
proof -
  obtain g tail k where w: "chain lg = g # tail" "height g = 0" "0 < k" "tail_from k tail"
    "history_pruned lg \<or> k = 1"
    using assms(1) by (rule window_okE)
  have serve: "limit \<noteq> 0" "first_contiguous_resident_height lg \<le> h"
    and run: "take limit (filter (\<lambda>b. h \<le> height b) (chain lg)) = b # bs"
    using assms(2) by (auto simp: blocks_from_def split: if_splits)
  show "length (b # bs) \<le> limit" using run by (metis length_take min.cobounded2)
  have "set (b # bs) \<subseteq> set (filter (\<lambda>b. h \<le> height b) (chain lg))"
    using run set_take_subset by metis
  then show "set (b # bs) \<subseteq> set (chain lg)" by auto
  have "tail_from (unat h) (filter (\<lambda>b. h \<le> height b) (chain lg))"
  proof (cases "h = 0")
    case True
    show ?thesis
    proof (cases "k = 1")
      case True
      have "tail_from 0 (chain lg)" using w(1,2,4) True by (simp add: tail_from_Cons)
      then show ?thesis using \<open>h = 0\<close> by simp
    next
      case False
      have "tail = []"
      proof (rule ccontr)
        assume "tail \<noteq> []"
        then have "unat (first_contiguous_resident_height lg) = k"
          using contiguous_start [OF w(1,4)] w(5) False by blast
        then show False using serve(2) True w(3) by (simp add: word_le_nat_alt)
      qed
      then show ?thesis using w(1,2) True by (simp add: tail_from_Cons tail_from_def)
    qed
  next
    case False
    then have "filter (\<lambda>b. h \<le> height b) (chain lg) = drop (unat h - k) tail"
      using w(1,2) tail_filter [OF w(4), of h] by (simp add: word_le_nat_alt unat_eq_0)
    moreover have "k \<le> unat h" if nonempty: "tail \<noteq> []"
    proof (cases "history_pruned lg")
      case True
      then have "unat (first_contiguous_resident_height lg) = k"
        using contiguous_start [OF w(1,4) nonempty] by blast
      then show ?thesis using serve(2) by (simp add: word_le_nat_alt)
    next
      case unpruned: False
      then have "k = 1" using w(5) by blast
      moreover have "unat h \<noteq> 0" using False by (simp add: unat_eq_0)
      ultimately show ?thesis by simp
    qed
    ultimately show ?thesis
      using tail_from_drop [OF w(4), of "unat h - k"] by (cases "tail = []") (auto simp: tail_from_def)
  qed
  then show "tail_from (unat h) (b # bs)" using tail_from_take run by metis
qed

section \<open>What a peer receives for its locator\<close>

lemma locator_hashes:
  assumes "index < length blocks"
  shows "set (locator_loop blocks index step n) \<subseteq> block_hash ` set blocks"
  using assms
proof (induction blocks index step n rule: locator_loop.induct)
  case (1 blocks index step n)
  then show ?case by (subst locator_loop.simps) (auto simp: image_iff)
qed

lemma locator_of_chain:
  assumes "chain lg \<noteq> []"
  shows "set (block_locator lg) \<subseteq> block_hash ` set (chain lg)"
    and "\<exists>rest. block_locator lg = tip_hash lg # rest"
  using assms locator_hashes [of "length (chain lg) - 1" "chain lg" 0 0]
  by (simp_all add: block_locator_def tip_hash_def tip_def last_conv_nth locator_loop.simps [of "chain lg"])

lemma common_height_member:
  assumes "common_height lg locator = Some h"
  shows "\<exists>b\<in>set (chain lg). height b = h \<and> block_hash b \<in> set locator"
  using assms
proof (induction locator)
  case (Cons hash locator)
  show ?case
  proof (cases "find (\<lambda>b. block_hash b = hash) (chain lg)")
    case None
    then show ?thesis using Cons by auto
  next
    case (Some b)
    then show ?thesis using Cons.prems find_member [OF Some] by auto
  qed
qed simp

lemma sync_response:
  assumes window: "window_linked cr remote" and "chain lg \<noteq> []" and last: "ledger_height remote < - 1"
    and answer: "blocks_after_locator remote (block_locator lg) limit = b # bs"
  shows "\<exists>a\<in>set (chain lg). prev_hash b = block_hash a"
    and "successively (follows cr) (b # bs)"
    and "set (b # bs) \<subseteq> set (chain remote)" and "length (b # bs) \<le> limit"
proof -
  obtain h where h: "common_height remote (block_locator lg) = Some h"
    and range: "blocks_from remote (saturating_add h 1) limit = b # bs"
    using answer by (auto simp: blocks_after_locator_def split: option.splits)
  have ok: "window_ok remote" using window by (simp add: window_linked_def)
  note served = served_range [OF ok range]
  show "set (b # bs) \<subseteq> set (chain remote)" "length (b # bs) \<le> limit" using served(2,3) by simp_all
  show "successively (follows cr) (b # bs)" by (rule window_successively [OF window served(2,1)])
  obtain c where c: "c \<in> set (chain remote)" "height c = h" "block_hash c \<in> set (block_locator lg)"
    using common_height_member [OF h] by blast
  obtain a where a: "a \<in> set (chain lg)" "block_hash a = block_hash c"
    using c(3) locator_of_chain(1) [OF assms(2)] by auto
  have "unat h + 1 < 2 ^ 64"
  proof -
    have "unat (height c) \<le> unat (ledger_height remote)"
    proof -
      obtain g tail k where w: "chain remote = g # tail" "height g = 0" "0 < k" "tail_from k tail"
        "history_pruned remote \<or> k = 1"
        using ok by (rule window_okE)
      show ?thesis
      proof (cases "c = g")
        case False
        then have "c \<in> set tail" using c(1) w(1) by simp
        then obtain i where i: "i < length tail" "tail ! i = c" unfolding in_set_conv_nth by blast
        then have "last (chain remote) = tail ! (length tail - 1)" using w(1) by (auto simp: last_conv_nth)
        then show ?thesis using w(4) i by (auto simp: ledger_height_def tip_def tail_from_def)
      qed (use w in simp)
    qed
    moreover have "unat (ledger_height remote) < unat (- 1 :: u64)" using last by (simp add: word_less_nat_alt)
    moreover have "unat (- 1 :: u64) = 18446744073709551615"
      by (simp add: unsigned_minus_1_eq_mask mask_eq_exp_minus_1)
    ultimately show ?thesis using c(2) by simp
  qed
  then have "unat (saturating_add h 1) = unat h + 1" by (simp add: unat_saturating_add)
  then have "unat (height b) = unat (height c) + 1" using served(1) c(2) by (simp add: tail_from_Cons)
  then have "follows cr c b" using window c(1) served(2) by (simp add: window_linked_def)
  then have "prev_hash b = block_hash a" using a(2) by (simp add: follows_def)
  then show "\<exists>a\<in>set (chain lg). prev_hash b = block_hash a" using a(1) by blast
qed

text \<open>A node whose chain a peer extends receives exactly the blocks it misses.\<close>

lemma find_hash_unique:
  assumes "distinct (map block_hash bs)" and "b \<in> set bs"
  shows "find (\<lambda>c. block_hash c = block_hash b) bs = Some b"
  using assms by (induction bs) auto

lemma lagging_peer_served:
  assumes linked: "chain_linked cr (chain remote)" and "height (hd (chain remote)) = 0"
    and unpruned: "\<not> history_pruned remote" and distinct: "distinct (map block_hash (chain remote))"
    and split: "chain remote = chain lg @ missing" and "chain lg \<noteq> []" and "missing \<noteq> []" and "0 < limit"
  shows "blocks_after_locator remote (block_locator lg) limit = take limit missing"
proof -
  have ok: "window_ok remote" by (rule linked_window [OF assms(1,2)])
  obtain rest where locator: "block_locator lg = tip_hash lg # rest"
    using locator_of_chain(2) [OF assms(6)] by blast
  have member: "tip lg \<in> set (chain remote)" using split assms(6) by (simp add: tip_def)
  then have "common_height remote (block_locator lg) = Some (height (tip lg))"
    using find_hash_unique [OF distinct member] locator by (simp add: tip_hash_def)
  then have answer: "blocks_after_locator remote (block_locator lg) limit =
      blocks_from remote (saturating_add (height (tip lg)) 1) limit"
    by (simp add: blocks_after_locator_def)
  have run: "successively (follows cr) (chain remote)" using linked by (simp add: chain_linked_def)
  obtain g tail where g: "chain remote = g # tail" using split assms(6) by (metis append_is_Nil_conv list.exhaust)
  have heights: "tail_from 0 (chain remote)"
    using tail_from_linked [of cr g tail] run assms(2) g by (simp add: tail_from_Cons)
  have tip: "unat (height (tip lg)) = length (chain lg) - 1"
  proof -
    have "tip lg = chain remote ! (length (chain lg) - 1)"
      using split assms(6) by (simp add: tip_def last_conv_nth nth_append)
    moreover have "length (chain lg) - 1 < length (chain remote)"
      using split assms(6) by (cases "chain lg") simp_all
    ultimately show ?thesis using heights by (simp add: tail_from_def)
  qed
  have "unat (height (hd missing)) = length (chain lg)"
  proof -
    have "hd missing = chain remote ! length (chain lg)" using split assms(7) by (simp add: nth_append hd_conv_nth)
    moreover have "length (chain lg) < length (chain remote)" using split assms(7) by simp
    ultimately show ?thesis using heights by (simp add: tail_from_def)
  qed
  then have "length (chain lg) < 2 ^ 64" using unat_less_power [of "height (hd missing)"] by simp
  then have next_height: "unat (saturating_add (height (tip lg)) 1) = length (chain lg)"
    using tip assms(6) by (simp add: unat_saturating_add)
  have "filter (\<lambda>b. saturating_add (height (tip lg)) 1 \<le> height b) (chain remote) = missing"
    using tail_filter [OF heights] next_height split by simp
  then show ?thesis
    using answer assms(8) unpruned by (simp add: blocks_from_def first_contiguous_resident_height_def)
qed

section \<open>Reattached history\<close>

lemma trusted_extends_chain:
  assumes "apply_trusted_block_at cr lg b = Inr lg'"
  shows "chain lg' = chain lg @ [b]"
  using assms
  by (auto simp: apply_trusted_block_at_def and_then_eq_Inr dest!: commit_block_spec(1))

lemma trusted_run_extends_chain:
  "try_fold (apply_trusted_block_at cr) lg bs = Inr lg' \<Longrightarrow> chain lg' = chain lg @ bs"
  by (induction bs arbitrary: lg) (auto simp: and_then_eq_Inr dest!: trusted_extends_chain)

lemma tail_filter_above:
  "tail_from k tail \<Longrightarrow> filter (\<lambda>b. h < height b) tail = drop (Suc (unat h) - k) tail"
proof (induction tail arbitrary: k)
  case (Cons b bs)
  then have b: "unat (height b) = k" and bs: "tail_from (Suc k) bs" by (simp_all add: tail_from_Cons)
  have "h < height b \<longleftrightarrow> unat h < k" using b by (simp add: word_less_nat_alt)
  moreover have "Suc (unat h) - k = Suc (Suc (unat h) - Suc k)" if "\<not> unat h < k" using that by simp
  ultimately show ?case using Cons.IH [OF bs] by (cases "unat h < k") simp_all
qed simp

text \<open>
  A pruned ledger whose history is reattached from a stored prefix of its own chain has its whole
  chain back. The prefix must hold more than the genesis block: the genesis block is always
  resident, so that the check of the call accepts it whatever the window holds above it.
\<close>

lemma restored_history:
  assumes ok: "window_ok full" and unpruned: "\<not> history_pruned full"
    and prefix: "chain complete = take n (chain full)" and "1 < n"
    and run: "restore_pruned_history cr (retain_recent_chain_blocks limit full) complete = Inr (True, lg)"
  shows "chain lg = chain full \<and> \<not> history_pruned lg"
proof (rule retained_cases [OF ok, of limit])
  assume "retain_recent_chain_blocks limit full = full"
  then show ?thesis using run unpruned by (simp add: restore_pruned_history_def)
next
  fix g tail k d
  let ?p = "retain_recent_chain_blocks limit full"
  assume w: "chain full = g # tail" "height g = 0" "0 < k" "tail_from k tail" "history_pruned full \<or> k = 1"
    and d: "0 < d" "d < length tail"
    and p: "chain ?p = g # drop d tail" "history_pruned ?p"
  have k: "k = 1" using w(5) unpruned by simp
  have heights: "tail_from 0 (g # tail)" using w k by (simp add: tail_from_Cons)
  define m where "m = min n (length (chain full))"
  have m: "1 < m" "m \<le> Suc (length tail)" "chain complete = take m (g # tail)"
    using prefix assms(4) w(1) d by (auto simp: m_def min_def)
  have "tip complete = (g # tail) ! (m - 1)" using m by (simp add: tip_def last_conv_nth)
  moreover have "unat (height ((g # tail) ! (m - 1))) = 0 + (m - 1)"
    using heights m(1,2) unfolding tail_from_def by (metis Suc_diff_1 Suc_le_lessD length_Cons less_trans zero_less_one)
  ultimately have tip: "unat (height (tip complete)) = m - 1" by simp
  obtain complete' where extends: "extends_restored_tip ?p (tip complete)"
    and fold: "try_fold (apply_trusted_block_at cr) complete
      (filter (\<lambda>b. height (tip complete) < height b) (chain ?p)) = Inr complete'"
    and lg: "lg = ?p\<lparr>chain := chain complete', compact_block_context := compact_block_context complete',
      history_pruned := False\<rparr>"
    using run p(2) by (auto simp: restore_pruned_history_def and_then_eq_Inr split: if_splits)
  note lookup = resident_block_iff [OF retained_window [OF ok], of limit]
  have window: "tail_from (1 + d) (drop d tail)" using w(4) k tail_from_drop by blast
  have "d < m"
  proof (cases "resident_block_at_height ?p (height (tip complete))")
    case (Some b)
    then have "b \<in> set (chain ?p)" "unat (height b) = m - 1" using lookup tip by auto
    then show ?thesis using p(1) w(2) m(1) tail_positive [OF window, of b] by auto
  next
    case None
    define h where "h = saturating_add (height (tip complete)) 1"
    obtain b where b: "resident_block_at_height ?p h = Some b"
      using None extends by (auto simp: extends_restored_tip_def h_def split: option.splits)
    then have "b \<in> set (chain ?p)" "height b = h" using lookup by auto
    moreover have "unat h \<le> m" "0 < unat h" using tip m(1) by (simp_all add: h_def unat_saturating_add)
    ultimately show ?thesis using p(1) w(2) tail_positive [OF window, of b] by auto
  qed
  have "height (tip complete) \<noteq> 0" using tip m(1) by auto
  then have "filter (\<lambda>b. height (tip complete) < height b) (chain ?p) = drop (Suc (m - 1) - (1 + d)) (drop d tail)"
    using tail_filter_above [OF window, of "height (tip complete)"] tip p(1) w(2) by simp
  also have "\<dots> = drop m (g # tail)" using \<open>d < m\<close> m(1) by (cases m) simp_all
  finally have "chain complete' = chain full"
    using trusted_run_extends_chain [OF fold] m(3) w(1) by simp
  then show ?thesis using lg by simp
qed

lemma gap_accepted:
  assumes "history_pruned lg" "\<not> history_pruned complete" and chain: "chain lg = g # b # bs"
    and complete: "chain complete = [g]" and zero: "height g = 0" and "\<forall>c\<in>set (b # bs). 1 < height c"
    and fold: "try_fold (apply_trusted_block_at cr) complete (b # bs) = Inr complete'"
  shows "restore_pruned_history cr lg complete =
    Inr (True, lg\<lparr>chain := g # b # bs, compact_block_context := compact_block_context complete',
      history_pruned := False\<rparr>)"
proof -
  have "\<forall>c\<in>set (b # bs). 0 < height c" using assms(6) by (auto simp: word_less_nat_alt)
  then have "filter (\<lambda>c. height (tip complete) < height c) (chain lg) = b # bs"
    using chain complete zero by (auto simp: tip_def intro!: filter_True)
  moreover have "chain complete' = g # b # bs" using trusted_run_extends_chain [OF fold] complete by simp
  moreover have "extends_restored_tip lg (tip complete)"
    using chain complete by (simp add: extends_restored_tip_def resident_block_at_height_def tip_def)
  ultimately show ?thesis
    using assms(1,2) fold chain complete
    by (simp add: restore_pruned_history_def ledger_genesis_hash_def tip_hash_def tip_def)
qed
end
