(* ===== verification/Rank_Facts.thy ===== *)
theory Rank_Facts
  imports Query_Facts
begin

text \<open>
  The rankings of past blocks. A node keeps the tickets that recent blocks were drawn from; older
  rankings are replayed from genesis. The invariant says that the tickets of the ledger and every
  kept draw are those of the replay, every step of a node preserves it, and under it the query
  answers with the replayed ranking for every height, whether it is cached or not.
\<close>

section \<open>The tickets of a height\<close>

fun replay_tickets ::
  "crypto \<Rightarrow> LaunchProfile \<Rightarrow> Block \<Rightarrow> Block list \<Rightarrow> BurnTicket list \<Rightarrow> BurnTicket list result" where
  "replay_tickets cr profile parent [] ts = Inr ts"
| "replay_tickets cr profile parent (b # bs) ts =
     and_then (apply_historical_ticket_block cr parent b profile ts) (\<lambda>ts'.
     replay_tickets cr profile b bs ts')"

text \<open>The tickets that the block at a position of the chain was drawn from.\<close>

definition tickets_before :: "crypto \<Rightarrow> Ledger \<Rightarrow> nat \<Rightarrow> BurnTicket list result" where
  "tickets_before cr lg n =
     and_then (genesis_tickets cr (genesis_allocations lg) (hd (chain lg)) (launch_profile lg))
       (replay_tickets cr (launch_profile lg) (hd (chain lg)) (take (n - 1) (tl (chain lg))))"

lemma replay_append:
  "replay_tickets cr profile parent (bs @ cs) ts =
    and_then (replay_tickets cr profile parent bs ts)
      (replay_tickets cr profile (last (parent # bs)) cs)"
  by (induction bs arbitrary: parent ts) (auto simp: and_then_def split: sum.splits)

lemma tickets_before_Suc:
  assumes "0 < n" and "n < length (chain lg)"
  shows "tickets_before cr lg (Suc n) = and_then (tickets_before cr lg n)
    (apply_historical_ticket_block cr (chain lg ! (n - 1)) (chain lg ! n) (launch_profile lg))"
proof -
  obtain g bs where g: "chain lg = g # bs" using assms by (cases "chain lg") auto
  obtain k where k: "n = Suc k" "k < length bs" using assms g by (cases n) auto
  have take: "take (Suc k) bs = take k bs @ [bs ! k]" using k(2) by (rule take_Suc_conv_app_nth)
  have last: "last (g # take k bs) = (g # bs) ! k"
    using k(2) by (cases k) (auto simp: last_conv_nth)
  have single: "replay_tickets cr (launch_profile lg) p [bs ! k] =
      apply_historical_ticket_block cr p (bs ! k) (launch_profile lg)" for p
    by (auto simp: fun_eq_iff and_then_def split: sum.splits)
  show ?thesis
    unfolding tickets_before_def g k
    by (simp add: take replay_append last [simplified] single and_then_def split: sum.splits)
qed

lemma tickets_before_prefix:
  assumes "tickets_before cr lg n = Inr ts" and "0 < k" and "k \<le> n" and "n \<le> length (chain lg)"
  shows "\<exists>ts'. tickets_before cr lg k = Inr ts'"
proof -
  have "tickets_before cr lg (k + j) = Inr ts \<Longrightarrow> k + j \<le> length (chain lg) \<Longrightarrow>
      \<exists>ts'. tickets_before cr lg k = Inr ts'" for j ts
  proof (induction j arbitrary: ts)
    case (Suc j)
    have "tickets_before cr lg (Suc (k + j)) = and_then (tickets_before cr lg (k + j))
        (apply_historical_ticket_block cr (chain lg ! (k + j - 1)) (chain lg ! (k + j)) (launch_profile lg))"
      using assms(2) Suc.prems(2) by (intro tickets_before_Suc) auto
    then obtain ts'' where "tickets_before cr lg (k + j) = Inr ts''"
      using Suc.prems(1) by (auto simp: and_then_eq_Inr)
    then show ?case using Suc by simp
  qed auto
  from this [of "n - k" ts] show ?thesis using assms by simp
qed

section \<open>The invariant\<close>

definition draw_is_replayed :: "crypto \<Rightarrow> Ledger \<Rightarrow> u64 \<Rightarrow> ResidentTicketDraw \<Rightarrow> bool" where
  "draw_is_replayed cr lg h d \<longleftrightarrow> 0 < unat h \<and> unat h < length (chain lg) \<and>
     (\<exists>ts. tickets_before cr lg (unat h) = Inr ts \<and>
        d = \<lparr>rd_block_hash = block_hash (chain lg ! unat h),
             rd_parent_randomness = draw_parent_randomness cr (chain lg ! (unat h - 1)) h,
             rd_eligible_tickets = filter (\<lambda>t. ticket_is_eligible_for_height t h) ts\<rparr>)"

definition ticket_history :: "crypto \<Rightarrow> Ledger \<Rightarrow> bool" where
  "ticket_history cr lg \<longleftrightarrow> chain_linked cr (chain lg) \<and> height (hd (chain lg)) = 0 \<and>
     \<not> history_pruned lg \<and>
     tickets_before cr lg (length (chain lg)) = Inr (tickets lg) \<and>
     (\<forall>h d. bt_get (resident_ticket_draws lg) h = Some d \<longrightarrow> draw_is_replayed cr lg h d)"

lemma chain_heights:
  assumes "chain_linked cr bs" and "height (hd bs) = 0"
  shows "tail_from 0 bs"
  using assms tail_from_linked [of cr "hd bs" "tl bs"]
  by (cases bs) (auto simp: chain_linked_def tail_from_Cons)

text \<open>What a committed block changes of the ledger's history.\<close>

lemma retarget_observation_keeps_history:
  assumes "record_vdf_retarget_observation lg b = Inr lg'"
  shows "genesis_allocations lg' = genesis_allocations lg" "history_pruned lg' = history_pruned lg"
    "resident_ticket_draws lg' = resident_ticket_draws lg"
  using assms
  by (auto simp: record_vdf_retarget_observation_def Let_def and_then_eq_Inr split: if_splits option.splits)

lemma history_keeps [simp]:
  "genesis_allocations (commit_block_address_effects lg eff) = genesis_allocations lg"
  "history_pruned (commit_block_address_effects lg eff) = history_pruned lg"
  "resident_ticket_draws (commit_block_address_effects lg eff) = resident_ticket_draws lg"
  "genesis_allocations (record_ticket_draw lg h dr) = genesis_allocations lg"
  "history_pruned (record_ticket_draw lg h dr) = history_pruned lg"
  "genesis_allocations (update_mine_difficulty_cache_after_tip lg) = genesis_allocations lg"
  "history_pruned (update_mine_difficulty_cache_after_tip lg) = history_pruned lg"
  "resident_ticket_draws (update_mine_difficulty_cache_after_tip lg) = resident_ticket_draws lg"
  "genesis_allocations (lg\<lparr>objective_finality_checkpoint := cp\<rparr>) = genesis_allocations lg"
  by (simp_all add: commit_block_address_effects_def record_ticket_draw_def Let_def
      update_mine_difficulty_cache_after_tip_def split: option.splits)

lemma bt_of_list_entry_in: "bt_get (bt_of_list es) k = Some v \<Longrightarrow> (k, v) \<in> set es"
  using map_of_SomeD [of "rev es" k v] by (simp add: bt_of_list_get)

lemma recorded_draw:
  assumes "bt_get (resident_ticket_draws (record_ticket_draw lg h dr)) k = Some d"
  shows "bt_get (resident_ticket_draws lg) k = Some d \<or> (k = h \<and> dr = Some d)"
proof (cases dr)
  case None
  then show ?thesis using assms by (simp add: record_ticket_draw_def)
next
  case (Some new)
  have "(k, d) \<in> set (bt_entries (bt_insert h new (resident_ticket_draws lg)))"
    using assms Some by (auto simp: record_ticket_draw_def Let_def dest!: bt_of_list_entry_in set_dropWhileD)
  then show ?thesis using Some by (auto simp: bt_entries_iff split: if_splits)
qed

lemma committed_history:
  assumes "commit_block cr lg b p ts m ctx = Inr lg'"
  shows "genesis_allocations lg' = genesis_allocations lg" "history_pruned lg' = history_pruned lg"
    and "bt_get (resident_ticket_draws lg') k = Some d \<Longrightarrow>
      bt_get (resident_ticket_draws lg) k = Some d \<or> (k = height b \<and> ticket_draw_before cr lg b = Some d)"
proof -
  obtain lg1 lg3 where lg1: "genesis_allocations lg1 = genesis_allocations lg"
      "history_pruned lg1 = history_pruned lg" "resident_ticket_draws lg1 = resident_ticket_draws lg"
    and obs: "record_vdf_retarget_observation
      (record_ticket_draw lg1 (height b) (ticket_draw_before cr lg b)) b = Inr lg3"
    and lg': "lg' = (case certified_parent cr lg b of
        Some cp \<Rightarrow> (update_mine_difficulty_cache_after_tip (lg3\<lparr>chain := chain lg3 @ [b]\<rparr>))
          \<lparr>objective_finality_checkpoint := Some cp\<rparr>
      | None \<Rightarrow> update_mine_difficulty_cache_after_tip (lg3\<lparr>chain := chain lg3 @ [b]\<rparr>))"
  proof -
    define lg1 where "lg1 = commit_block_address_effects
          (lg\<lparr>lineage := (v2p_lineage p)\<lparr>ls_utxos := m\<rparr>, hybrid_legacy_owners := v2p_owners p,
              tickets := ts, compact_block_context := ctx,
              mined_transaction_ids := mined_transaction_ids lg \<union> set (map tx_signature (transactions b)) \<union>
                v2p_ids p\<rparr>) (v2p_effects p)"
    have "genesis_allocations lg1 = genesis_allocations lg"
      "history_pruned lg1 = history_pruned lg" "resident_ticket_draws lg1 = resident_ticket_draws lg"
      by (simp_all add: lg1_def)
    then show thesis
      using assms that unfolding commit_block_def Let_def and_then_eq_Inr lg1_def by blast
  qed
  note keeps = retarget_observation_keeps_history [OF obs]
  show "genesis_allocations lg' = genesis_allocations lg" "history_pruned lg' = history_pruned lg"
    using keeps(1,2) lg1 by (auto simp: lg' split: option.splits)
  have "resident_ticket_draws lg' =
      resident_ticket_draws (record_ticket_draw lg1 (height b) (ticket_draw_before cr lg b))"
    using keeps(3) by (auto simp: lg' split: option.splits)
  then show "bt_get (resident_ticket_draws lg) k = Some d \<or> (k = height b \<and> ticket_draw_before cr lg b = Some d)"
    if "bt_get (resident_ticket_draws lg') k = Some d"
    using that recorded_draw [of lg1 "height b" "ticket_draw_before cr lg b" k d] lg1(3) by simp
qed

section \<open>Every step preserves it\<close>

lemma tickets_before_cong:
  assumes "chain lg' = chain lg @ bs" and "chain lg \<noteq> []" and "genesis_allocations lg' = genesis_allocations lg"
    and "launch_profile lg' = launch_profile lg" and "n \<le> length (chain lg)"
  shows "tickets_before cr lg' n = tickets_before cr lg n"
proof -
  obtain g tail where "chain lg = g # tail" using assms(2) by (cases "chain lg") auto
  then show ?thesis using assms by (simp add: tickets_before_def)
qed

lemma block_keeps_ticket_history:
  assumes inv: "ticket_history cr lg" and trans: "block_transition cr lg b = Inr lg'"
    and follows: "follows cr (tip lg) b"
  shows "ticket_history cr lg'"
proof -
  obtain p ts m ctx where commit: "commit_block cr lg b p ts m ctx = Inr lg'"
    and effects: "block_ticket_effects cr lg b = Inr ts"
    using trans by (rule block_transitionE)
  note spec = commit_block_spec [OF commit] and history = committed_history [OF commit]
  have linked: "chain_linked cr (chain lg)" and zero: "height (hd (chain lg)) = 0"
    and unpruned: "\<not> history_pruned lg"
    and now: "tickets_before cr lg (length (chain lg)) = Inr (tickets lg)"
    and draws: "\<And>h d. bt_get (resident_ticket_draws lg) h = Some d \<Longrightarrow> draw_is_replayed cr lg h d"
    using inv by (auto simp: ticket_history_def)
  have nonempty: "chain lg \<noteq> []" using linked by (simp add: chain_linked_def)
  define n where "n = length (chain lg)"
  have n: "0 < n" "n < length (chain lg')" "length (chain lg') = Suc n" using nonempty spec(1) by (simp_all add: n_def)
  note same = tickets_before_cong [OF spec(1) nonempty history(1) spec(4)]
  have parent: "chain lg' ! (n - 1) = tip lg" "chain lg' ! n = b"
    using nonempty spec(1) by (simp_all add: n_def nth_append tip_def last_conv_nth)
  have here: "unat (height b) = n"
  proof -
    have "tip lg = chain lg ! (n - 1)" "n - 1 < length (chain lg)"
      using nonempty by (simp_all add: n_def tip_def last_conv_nth)
    then have "unat (height (tip lg)) = n - 1"
      using chain_heights [OF linked zero] by (simp add: tail_from_def)
    then show ?thesis using follows n(1) by (simp add: follows_def)
  qed
  have "chain_linked cr (chain lg')"
    using chain_linked_append [OF linked] follows spec(1) by (simp add: tip_def)
  moreover have "height (hd (chain lg')) = 0" using zero nonempty spec(1) by simp
  moreover have "\<not> history_pruned lg'" using unpruned history(2) by simp
  moreover have "tickets_before cr lg' (length (chain lg')) = Inr (tickets lg')"
  proof -
    have "tickets_before cr lg' (Suc n) = and_then (Inr (tickets lg))
        (apply_historical_ticket_block cr (tip lg) b (launch_profile lg))"
      using tickets_before_Suc [OF n(1,2), of cr] same [of n] now parent spec(4) by (simp add: n_def)
    also have "\<dots> = Inr ts"
      using effects by (simp add: apply_historical_ticket_block_def block_ticket_effects_def)
    finally show ?thesis using n(3) spec(3) by simp
  qed
  moreover have "draw_is_replayed cr lg' h d" if d: "bt_get (resident_ticket_draws lg') h = Some d" for h d
    using history(3) [OF d]
  proof
    assume "bt_get (resident_ticket_draws lg) h = Some d"
    then have old: "draw_is_replayed cr lg h d" by (rule draws)
    then have "unat h < n" by (simp add: draw_is_replayed_def n_def)
    moreover from this have "chain lg' ! unat h = chain lg ! unat h" "chain lg' ! (unat h - 1) = chain lg ! (unat h - 1)"
      using spec(1) by (simp_all add: n_def nth_append)
    ultimately show ?thesis using old same [of "unat h"] n(3) by (simp add: draw_is_replayed_def n_def)
  next
    assume new: "h = height b \<and> ticket_draw_before cr lg b = Some d"
    then have "d = \<lparr>rd_block_hash = block_hash b,
        rd_parent_randomness = draw_parent_randomness cr (tip lg) h,
        rd_eligible_tickets = filter (\<lambda>t. ticket_is_eligible_for_height t h) (tickets lg)\<rparr>"
      by (auto simp: ticket_draw_before_def split: if_splits)
    then show ?thesis
      using new here n same [of n] now parent by (simp add: draw_is_replayed_def n_def [symmetric])
  qed
  ultimately show ?thesis by (simp add: ticket_history_def)
qed

lemma confirmed_history:
  assumes "confirmed lg = confirmed lg'"
  shows "ticket_history cr lg = ticket_history cr lg'"
proof -
  have draws: "resident_ticket_draws (confirmed l) = resident_ticket_draws l" for l by (simp add: confirmed_def)
  have "ticket_history cr (confirmed l) = ticket_history cr l" for l
    by (simp add: ticket_history_def tickets_before_def draw_is_replayed_def draws)
  then show ?thesis using assms by metis
qed

lemma step_keeps_ticket_history:
  assumes "ledger_step hs lg lg'" and inv: "ticket_history (h_crypto hs) lg"
  shows "ticket_history (h_crypto hs) lg'"
  using assms(1)
proof (cases rule: ledger_step.cases)
  case (submit tx r)
  then have "confirmed lg' = confirmed lg" using submit_outside outside_confirmed by metis
  then show ?thesis using inv confirmed_history by blast
next
  case (submit_v2 tx r)
  then have "confirmed lg' = confirmed lg"
    using submit_v2_effect [of lg tx "h_crypto hs"] by (auto simp: v2_submission_effect_def)
  then show ?thesis using inv confirmed_history by blast
next
  case (apply_block b v now u)
  from apply_block_atomic [OF apply_block] show ?thesis
  proof
    assume "precheck_block_without_vdf_at hs lg b now = Inr True \<and>
      (\<exists>lg1. block_transition (h_crypto hs) lg b = Inr lg1 \<and> confirmed lg' = confirmed lg1)"
    then obtain lg1 where pre: "precheck_block_without_vdf_at hs lg b now = Inr True"
      and trans: "block_transition (h_crypto hs) lg b = Inr lg1" and "confirmed lg' = confirmed lg1" by blast
    moreover have "ticket_history (h_crypto hs) lg1"
      by (rule block_keeps_ticket_history [OF inv trans precheck_follows [OF pre]])
    ultimately show ?thesis using confirmed_history by blast
  qed (use inv in simp)
qed

lemma reachable_ticket_history:
  assumes "(ledger_step hs)\<^sup>*\<^sup>* lg lg'" and "ticket_history (h_crypto hs) lg"
  shows "ticket_history (h_crypto hs) lg'"
  using assms by (induction rule: rtranclp_induct) (auto intro: step_keeps_ticket_history)

lemma new_ledger_ticket_history:
  assumes "new_with_genesis_transactions cr allocations txs rounds profile = Inr lg"
  shows "ticket_history cr lg"
proof -
  define g where "g = build_genesis_block cr allocations txs"
  obtain m ts ctx where ts: "genesis_tickets cr allocations g profile = Inr ts"
    and lg: "index_unapplied_block_addresses cr (genesis_ledger allocations g m ts rounds profile ctx) g = Inr lg"
    using assms unfolding new_with_genesis_transactions_def Let_def and_then_eq_Inr g_def by auto
  obtain eff where "lg = commit_block_address_effects (genesis_ledger allocations g m ts rounds profile ctx) eff"
    using lg by (auto simp: index_unapplied_block_addresses_def Let_def and_then_eq_Inr split: if_splits)
  moreover have "height g = 0" by (simp add: g_def build_genesis_block_def Let_def)
  ultimately show ?thesis using ts
    by (simp add: ticket_history_def chain_linked_def tickets_before_def genesis_ledger_def)
qed

section \<open>The answer of the query\<close>

definition ranks_at :: "crypto \<Rightarrow> Ledger \<Rightarrow> u64 \<Rightarrow> BurnLeaderRank list" where
  "ranks_at cr lg h =
     (case tickets_before cr lg (unat h) of
        Inl _ \<Rightarrow> []
      | Inr ts \<Rightarrow> leader_ranks (ranked_tickets_for_height cr (chain lg ! (unat h - 1)) h ts))"

lemma cached_is_replayed:
  assumes inv: "ticket_history cr lg" and cached: "cached_burn_leader_ranks cr lg h hash = Some ranks"
  shows "ranks = ranks_at cr lg h"
proof -
  obtain d where d: "bt_get (resident_ticket_draws lg) h = Some d"
    and ranks: "ranks = leader_ranks (ranked_tickets_for_parent_randomness cr (rd_parent_randomness d) h
      (rd_eligible_tickets d))"
    using cached by (auto simp: cached_burn_leader_ranks_def leader_ranks_def bind_eq_Some_conv split: if_splits)
  have "draw_is_replayed cr lg h d" using inv d by (simp add: ticket_history_def)
  then show ?thesis
    by (auto simp: draw_is_replayed_def ranks ranks_at_def ranked_tickets_for_height_def
        ranked_tickets_for_parent_randomness_def)
qed

lemma replay_below_spec:
  assumes inv: "ticket_history cr lg" and "0 < n" and "n \<le> unat h" and h: "unat h \<le> length (chain lg)"
    and "tickets_before cr lg n = Inr ts"
  shows "\<exists>ts'. replay_below cr lg h n ts = Inr (unat h, ts') \<and> tickets_before cr lg (unat h) = Inr ts'"
  using assms(2,3,5)
proof (induction "unat h - n" arbitrary: n ts)
  case 0
  have tail: "tail_from 0 (chain lg)" using inv chain_heights by (auto simp: ticket_history_def)
  have n: "n = unat h" using 0 by simp
  have "\<not> (n < length (chain lg) \<and> height (chain lg ! n) < h)"
    using tail n by (auto simp: tail_from_def word_less_nat_alt)
  then have "replay_below cr lg h n ts = Inr (n, ts)" by (subst replay_below.simps) (rule if_not_P)
  then show ?case using 0 n by simp
next
  case (Suc j)
  have tail: "tail_from 0 (chain lg)" using inv chain_heights by (auto simp: ticket_history_def)
  have n: "n < length (chain lg)" "n < unat h" using Suc h by auto
  have "height (chain lg ! n) < h" using tail n by (simp add: tail_from_def word_less_nat_alt)
  have all: "tickets_before cr lg (length (chain lg)) = Inr (tickets lg)" using inv by (simp add: ticket_history_def)
  obtain ts1 where ts1: "tickets_before cr lg (Suc n) = Inr ts1"
    using tickets_before_prefix [OF all, of "Suc n"] n by auto
  then have step: "apply_historical_ticket_block cr (chain lg ! (n - 1)) (chain lg ! n) (launch_profile lg) ts
      = Inr ts1"
    using tickets_before_Suc [of n lg cr] Suc.prems n by simp
  have "\<exists>ts'. replay_below cr lg h (Suc n) ts1 = Inr (unat h, ts') \<and> tickets_before cr lg (unat h) = Inr ts'"
    using Suc.hyps(2) ts1 n by (intro Suc.hyps(1)) auto
  then show ?case
    using step n \<open>height (chain lg ! n) < h\<close> by (subst replay_below.simps) simp
qed

lemma replay_heights:
  assumes inv: "ticket_history cr lg" and "sorted hs" and "\<forall>h\<in>set hs. n \<le> unat h \<and> unat h \<le> length (chain lg)"
    and "0 < n" and "tickets_before cr lg n = Inr ts"
  shows "\<exists>k ts' m'. try_fold (replay_height_step cr lg) (n, ts, m) hs = Inr (k, ts', m') \<and>
    bt_get m' = (\<lambda>h. if h \<in> set hs then Some (ranks_at cr lg h) else bt_get m h)"
  using assms(2-)
proof (induction hs arbitrary: n ts m)
  case (Cons h hs)
  have h: "n \<le> unat h" "unat h \<le> length (chain lg)" "0 < unat h" using Cons.prems by auto
  then have one: "1 \<le> h" by (simp add: word_le_nat_alt)
  then have parent: "checked_sub h 1 = Some (h - 1)" "unat (h - 1) = unat h - 1"
    by (simp_all add: checked_sub_def unat_sub)
  obtain ts1 where below: "replay_below cr lg h n ts = Inr (unat h, ts1)" "tickets_before cr lg (unat h) = Inr ts1"
    using replay_below_spec [OF inv Cons.prems(3) h(1,2) Cons.prems(4)] by blast
  define m1 where "m1 = bt_insert h (ranks_at cr lg h) m"
  have "replay_height_step cr lg (n, ts, m) h = Inr (unat h, ts1, m1)"
    using parent h below by (simp add: replay_height_step_def ranks_at_def m1_def)
  moreover have "\<exists>k ts' m'. try_fold (replay_height_step cr lg) (unat h, ts1, m1) hs = Inr (k, ts', m') \<and>
      bt_get m' = (\<lambda>x. if x \<in> set hs then Some (ranks_at cr lg x) else bt_get m1 x)"
    using Cons.prems h(3) below(2) by (intro Cons.IH) (auto simp: word_le_nat_alt)
  ultimately show ?case by (auto simp: m1_def fun_eq_iff)
qed (auto simp: fun_eq_iff)

lemma cached_fold:
  assumes "\<And>h ranks. cached h = Some ranks \<Longrightarrow> ranks = f h"
  shows "bt_get (foldl (\<lambda>m h. case cached h of Some ranks \<Rightarrow> bt_insert h ranks m | None \<Rightarrow> m) m hs) =
    (\<lambda>h. if h \<in> set hs \<and> cached h \<noteq> None then Some (f h) else bt_get m h)"
proof (induction hs arbitrary: m)
  case (Cons h hs)
  show ?case
  proof (cases "cached h")
    case None
    then show ?thesis using Cons by (auto simp: fun_eq_iff)
  next
    case (Some ranks)
    then show ?thesis using Cons [of "bt_insert h ranks m"] assms [OF Some] by (auto simp: fun_eq_iff)
  qed
qed (simp add: fun_eq_iff)

lemma ranks_query:
  assumes inv: "ticket_history cr lg" and "\<forall>h\<in>set heights. unat h \<le> length (chain lg)"
  shows "\<exists>m. burn_leader_ranks_for_blocks cr lg heights = Inr m \<and>
    bt_get m = (\<lambda>h. if h \<in> set heights then Some (if h = 0 then [] else ranks_at cr lg h) else None)"
proof -
  define later where "later = filter (\<lambda>h. h \<noteq> 0) (remdups (sort heights))"
  define m0 where "m0 = (if 0 \<in> set heights then bt_insert 0 [] (bt_empty :: (u64, BurnLeaderRank list) btree_map)
    else bt_empty)"
  define m1 where "m1 = foldl (\<lambda>m h. case cached_ranks_at cr lg h of
    Some ranks \<Rightarrow> bt_insert h ranks m | None \<Rightarrow> m) m0 later"
  define missing where "missing = filter (\<lambda>h. cached_ranks_at cr lg h = None) later"
  have later: "set later = set heights - {0}" "sorted later"
    by (auto simp: later_def sorted_wrt_filter)
  have cached: "ranks = ranks_at cr lg h" if "cached_ranks_at cr lg h = Some ranks" for h ranks
    using that cached_is_replayed [OF inv] by (auto simp: cached_ranks_at_def bind_eq_Some_conv)
  have m1: "bt_get m1 = (\<lambda>h. if h \<in> set later \<and> cached_ranks_at cr lg h \<noteq> None
      then Some (ranks_at cr lg h) else bt_get m0 h)"
    unfolding m1_def by (rule cached_fold) (rule cached)
  have m0: "bt_get m0 = (\<lambda>h. if h = 0 \<and> h \<in> set heights then Some [] else None)"
    by (auto simp: m0_def fun_eq_iff)
  have unpruned: "\<not> history_pruned lg" and linked: "chain_linked cr (chain lg)"
    and all: "tickets_before cr lg (length (chain lg)) = Inr (tickets lg)"
    using inv by (simp_all add: ticket_history_def)
  have query: "burn_leader_ranks_for_blocks cr lg heights =
      (if missing = [] then Inr m1
       else and_then (genesis_tickets cr (genesis_allocations lg) (hd (chain lg)) (launch_profile lg)) (\<lambda>ts.
         and_then (try_fold (replay_height_step cr lg) (1, ts, m1) missing) (\<lambda>(_, _, ranks). Inr ranks)))"
    using unpruned
    by (simp add: burn_leader_ranks_for_blocks_def Let_def m1_def m0_def missing_def later_def)
  show ?thesis
  proof (cases "missing = []")
    case True
    then have hit: "cached_ranks_at cr lg h \<noteq> None" if "h \<in> set heights" "h \<noteq> 0" for h
      using that later(1) unfolding missing_def filter_empty_conv by blast
    have "bt_get m1 = (\<lambda>h. if h \<in> set heights then Some (if h = 0 then [] else ranks_at cr lg h) else None)"
    proof
      fix h
      show "bt_get m1 h = (if h \<in> set heights then Some (if h = 0 then [] else ranks_at cr lg h) else None)"
        using m1 m0 later(1) hit [of h] by (cases "h \<in> set heights \<and> h \<noteq> 0") auto
    qed
    then show ?thesis using query True by auto
  next
    case False
    have "0 < length (chain lg)" using linked by (simp add: chain_linked_def)
    then obtain ts where ts: "tickets_before cr lg 1 = Inr ts"
      using tickets_before_prefix [OF all, of 1] by (auto simp: Suc_le_eq)
    then have genesis: "genesis_tickets cr (genesis_allocations lg) (hd (chain lg)) (launch_profile lg) = Inr ts"
      by (auto simp: tickets_before_def and_then_eq_Inr)
    have heights: "\<forall>h\<in>set missing. 1 \<le> unat h \<and> unat h \<le> length (chain lg)"
      using assms(2) later(1) by (auto simp: missing_def Suc_le_eq unat_gt_0)
    have "sorted missing" using later(2) by (simp add: missing_def sorted_wrt_filter)
    then obtain k ts' m' where run: "try_fold (replay_height_step cr lg) (1, ts, m1) missing = Inr (k, ts', m')"
      and m': "bt_get m' = (\<lambda>h. if h \<in> set missing then Some (ranks_at cr lg h) else bt_get m1 h)"
      using replay_heights [OF inv _ heights _ ts, of m1] by auto
    have "bt_get m' = (\<lambda>h. if h \<in> set heights then Some (if h = 0 then [] else ranks_at cr lg h) else None)"
      using m' m1 m0 later(1) by (auto simp: fun_eq_iff missing_def)
    then show ?thesis using query False genesis run by auto
  qed
qed

lemma ranks_query_block:
  assumes "ticket_history cr lg" and "0 < h" and "unat h \<le> length (chain lg)"
  shows "burn_leader_ranks_for_block cr lg h = Inr (ranks_at cr lg h)"
  using ranks_query [OF assms(1), of "[h]"] assms(2,3) by (auto simp: burn_leader_ranks_for_block_def)

end
