(* ===== verification/Bundle_Build.thy ===== *)
theory Bundle_Build
  imports Ledger_Queries
begin

text \<open>
  How a committee member builds its bundles and how a finalizer puts bundles together
  (\<open>domain/ledger_reveal.rs\<close>). The main result is a round trip: the section of a block stores the
  union of the bundles with a mask per burn, and expanding it gives back exactly the bundles that
  the members signed.
\<close>

unbundle bit_operations_syntax

section \<open>Building bundles\<close>

definition burn_bundle_attestations_required_for_next_block :: "Ledger \<Rightarrow> bool" where
  "burn_bundle_attestations_required_for_next_block lg \<longleftrightarrow>
     list_ex (\<lambda>tx. is_burn tx \<and> transaction_is_eligible_for_next_block lg tx) (pending lg) \<or>
     list_ex (\<lambda>tx. v2_is_burn tx \<and> transaction_v2_is_eligible_for_next_block lg tx) (pending_v2 lg)"

definition explicit_burn_bundle_signatures_required_for_next_block ::
  "crypto \<Rightarrow> Ledger \<Rightarrow> FinalizerMode \<Rightarrow> u32 \<Rightarrow> nat" where
  "explicit_burn_bundle_signatures_required_for_next_block cr lg mode rank =
     (let committee_size = (case mode of
            TicketMode \<Rightarrow> length (burn_committee_for_next_ticket_block cr lg rank)
          | RecoveryMode \<Rightarrow> 1) in
      required_explicit_burn_signatures (ledger_height lg + 1) mode rank committee_size)"

type_synonym burn_candidate = "Amount \<times> string \<times> Transaction option \<times> string option"

text \<open>The reward address is looked up anew for every bundle, on the wallet's moving cursor.\<close>

definition member_bundle ::
  "crypto \<Rightarrow> Ledger \<Rightarrow> BurnCommitteeMember \<Rightarrow> Transaction list \<Rightarrow> string list \<Rightarrow> Hybrid_Wallet \<Rightarrow>
     BurnBundle result \<times> Hybrid_Wallet" where
  "member_bundle cr lg m burns burns_v2 w =
     (let h = height (tip lg) + 1 in
      st_then (if HYBRID_REWARD_ACTIVATION_HEIGHT \<le> h
               then st_then (wallet_reward_address cr lg w) (\<lambda>a w'. (Inr (Some a), w'))
               else (Inr None, w)) (\<lambda>reward w'.
      (Inr (wallet_burn_bundle cr (Wallet.truncate w')
         \<lparr>bp_height = h, bp_prev_hash = block_hash (tip lg), bp_slot = cm_slot m,
          bp_member = wallet_address w', bp_reward_address = reward, bp_burns = burns,
          bp_burns_v2 = burns_v2\<rparr>), w')))"

fun choose_burns ::
  "host \<Rightarrow> Ledger \<Rightarrow> BurnCommitteeMember \<Rightarrow> burn_candidate list \<Rightarrow> Transaction list \<Rightarrow> string list \<Rightarrow>
     Hybrid_Wallet \<Rightarrow> (Transaction list \<times> string list) result \<times> Hybrid_Wallet" where
  "choose_burns hs lg m [] selected selected_v2 w = (Inr (selected, selected_v2), w)"
| "choose_burns hs lg m ((_, _, legacy_burn, v2_envelope) # candidates) selected selected_v2 w =
     (let candidate = selected @ (case legacy_burn of Some burn \<Rightarrow> [burn] | None \<Rightarrow> []);
          candidate_v2 = selected_v2 @ (case v2_envelope of Some e \<Rightarrow> [e] | None \<Rightarrow> []) in
      st_then (member_bundle (h_crypto hs) lg m candidate candidate_v2 w) (\<lambda>bundle w'.
      st_check (h_bundle_json_len hs bundle) w' (\<lambda>size.
      if size \<le> MAX_BURN_BUNDLE_BYTES then choose_burns hs lg m candidates candidate candidate_v2 w'
      else choose_burns hs lg m candidates selected selected_v2 w')))"

fun bundles_of_members ::
  "host \<Rightarrow> Ledger \<Rightarrow> burn_candidate list \<Rightarrow> BurnCommitteeMember list \<Rightarrow> Hybrid_Wallet \<Rightarrow>
     BurnBundle list result \<times> Hybrid_Wallet" where
  "bundles_of_members hs lg candidates [] w = (Inr [], w)"
| "bundles_of_members hs lg candidates (m # ms) w =
     st_then (choose_burns hs lg m candidates [] [] w) (\<lambda>(selected, selected_v2) w1.
     st_then (member_bundle (h_crypto hs) lg m selected selected_v2 w1) (\<lambda>bundle w2.
     st_then (bundles_of_members hs lg candidates ms w2) (\<lambda>bundles w3.
     (Inr (bundle # bundles), w3))))"

definition burn_candidates :: "crypto \<Rightarrow> Ledger \<Rightarrow> burn_candidate list result" where
  "burn_candidates cr lg =
     (let burns = filter (\<lambda>tx. is_burn tx \<and> transaction_is_eligible_for_next_block lg tx)
            (valid_pending_transactions cr lg) in
      and_then (transaction_v2_domain lg) (\<lambda>d.
      and_then (try_map (\<lambda>tx.
        and_then (transaction_id cr tx d) (\<lambda>txid.
        and_then (v2_encode tx d) (\<lambda>bs.
        Inr (v2_fee tx, hex_encode txid, None, Some (hex_encode bs)))))
        (filter (\<lambda>tx. v2_is_burn tx \<and> transaction_v2_is_eligible_for_next_block lg tx \<and>
           transaction_v2_inputs_are_confirmed tx (ledger_utxos lg)) (pending_v2 lg))) (\<lambda>burns_v2.
      Inr (sort_key (\<lambda>(f, i, _). burn_order f i)
        (map (\<lambda>burn. (fee burn, tx_signature burn, Some burn, None)) burns @ burns_v2)))))"

definition build_burn_bundles :: "host \<Rightarrow> Ledger \<Rightarrow> Hybrid_Wallet \<Rightarrow> BurnBundle list result \<times> Hybrid_Wallet" where
  "build_burn_bundles hs lg w =
     (let memberships = burn_committee_memberships_for_next_block (h_crypto hs) lg (wallet_address w) in
      if memberships = [] then (Inr [], w)
      else
        st_check (burn_candidates (h_crypto hs) lg) w (\<lambda>candidates.
        bundles_of_members hs lg candidates memberships w))"

definition build_burn_bundle :: "host \<Rightarrow> Ledger \<Rightarrow> Hybrid_Wallet \<Rightarrow> BurnBundle option result \<times> Hybrid_Wallet" where
  "build_burn_bundle hs lg w =
     st_then (build_burn_bundles hs lg w) (\<lambda>bundles w'.
     (Inr (case bundles of [] \<Rightarrow> None | b # _ \<Rightarrow> Some b), w'))"

section \<open>The union of the bundles\<close>

text \<open>
  A merge of marked items under a key: the first item of a key is kept, and its mask collects
  the marks of all items with that key.
\<close>

locale mask_merge =
  fixes merge :: "u8 \<Rightarrow> ('k::linorder, 'v) btree_map \<Rightarrow> 'a \<Rightarrow> ('k, 'v) btree_map"
    and key :: "'a \<Rightarrow> 'k" and item :: "'v \<Rightarrow> 'a" and mask :: "'v \<Rightarrow> u8"
  assumes merge_other: "k \<noteq> key x \<Longrightarrow> bt_get (merge s m x) k = bt_get m k"
    and merge_new: "bt_get m (key x) = None \<Longrightarrow>
      \<exists>v. bt_get (merge s m x) (key x) = Some v \<and> item v = x \<and> mask v = s"
    and merge_old: "bt_get m (key x) = Some v \<Longrightarrow>
      \<exists>v'. bt_get (merge s m x) (key x) = Some v' \<and> item v' = item v \<and> mask v' = mask v OR s"
begin

definition merged_from :: "(u8 \<times> 'a) list \<Rightarrow> ('k, 'v) btree_map \<Rightarrow> bool" where
  "merged_from es m \<longleftrightarrow>
     (\<forall>k. bt_get m k = None \<longleftrightarrow> (\<forall>e\<in>set es. key (snd e) \<noteq> k)) \<and>
     (\<forall>k v. bt_get m k = Some v \<longrightarrow> item v \<in> snd ` set es \<and> key (item v) = k \<and>
        (\<forall>i. bit (mask v) i \<longleftrightarrow> (\<exists>e\<in>set es. key (snd e) = k \<and> bit (fst e) i)))"

lemma merged_empty: "merged_from [] bt_empty"
  by (simp add: merged_from_def)

lemma merged_step:
  assumes "merged_from es m"
  shows "merged_from (es @ [(s, x)]) (merge s m x)"
proof (cases "bt_get m (key x)")
  case None
  then obtain v where v: "bt_get (merge s m x) (key x) = Some v" "item v = x" "mask v = s"
    using merge_new by blast
  have fresh: "\<forall>e\<in>set es. key (snd e) \<noteq> key x" using assms None by (simp add: merged_from_def)
  show ?thesis
    unfolding merged_from_def
  proof (intro conjI allI impI)
    fix k
    show "bt_get (merge s m x) k = None \<longleftrightarrow> (\<forall>e\<in>set (es @ [(s, x)]). key (snd e) \<noteq> k)"
      using assms v(1) merge_other [of k x s m] by (cases "k = key x") (auto simp: merged_from_def)
  next
    fix k u
    assume u: "bt_get (merge s m x) k = Some u"
    have "(item u \<in> snd ` set (es @ [(s, x)])) \<and> key (item u) = k \<and>
        (\<forall>i. bit (mask u) i \<longleftrightarrow> (\<exists>e\<in>set (es @ [(s, x)]). key (snd e) = k \<and> bit (fst e) i))"
    proof (cases "k = key x")
      case True
      then have "u = v" using u v by simp
      then show ?thesis using True v fresh by auto
    next
      case False
      then have "bt_get m k = Some u" using u merge_other by simp
      then show ?thesis using assms False unfolding merged_from_def by (auto simp: image_iff)
    qed
    then show "item u \<in> snd ` set (es @ [(s, x)])" "key (item u) = k"
      "bit (mask u) i \<longleftrightarrow> (\<exists>e\<in>set (es @ [(s, x)]). key (snd e) = k \<and> bit (fst e) i)" for i
      by simp_all
  qed
next
  case (Some v)
  then obtain v' where v': "bt_get (merge s m x) (key x) = Some v'" "item v' = item v" "mask v' = mask v OR s"
    using merge_old by blast
  have old: "item v \<in> snd ` set es" "key (item v) = key x"
      "\<forall>i. bit (mask v) i \<longleftrightarrow> (\<exists>e\<in>set es. key (snd e) = key x \<and> bit (fst e) i)"
    using assms Some by (auto simp: merged_from_def)
  show ?thesis
    unfolding merged_from_def
  proof (intro conjI allI impI)
    fix k
    show "bt_get (merge s m x) k = None \<longleftrightarrow> (\<forall>e\<in>set (es @ [(s, x)]). key (snd e) \<noteq> k)"
      using assms v'(1) merge_other [of k x s m] by (cases "k = key x") (auto simp: merged_from_def)
  next
    fix k u
    assume u: "bt_get (merge s m x) k = Some u"
    have "(item u \<in> snd ` set (es @ [(s, x)])) \<and> key (item u) = k \<and>
        (\<forall>i. bit (mask u) i \<longleftrightarrow> (\<exists>e\<in>set (es @ [(s, x)]). key (snd e) = k \<and> bit (fst e) i))"
    proof (cases "k = key x")
      case True
      then show ?thesis using u v' old by (auto simp: bit_or_iff)
    next
      case False
      then have "bt_get m k = Some u" using u merge_other by simp
      then show ?thesis using assms False unfolding merged_from_def by (auto simp: image_iff)
    qed
    then show "item u \<in> snd ` set (es @ [(s, x)])" "key (item u) = k"
      "bit (mask u) i \<longleftrightarrow> (\<exists>e\<in>set (es @ [(s, x)]). key (snd e) = k \<and> bit (fst e) i)" for i
      by simp_all
  qed
qed

lemma merged_items:
  "merged_from es m \<Longrightarrow> merged_from (es @ map (Pair s) xs) (foldl (merge s) m xs)"
proof (induction xs arbitrary: es m)
  case (Cons x xs)
  show ?case using Cons.IH [OF merged_step [OF Cons.prems, of s x]] by simp
qed simp

lemma merged_groups:
  "merged_from es m \<Longrightarrow>
    merged_from (es @ concat (map (\<lambda>g. map (Pair (mark g)) (items g)) gs))
      (foldl (\<lambda>m g. foldl (merge (mark g)) m (items g)) m gs)"
proof (induction gs arbitrary: es m)
  case (Cons g gs)
  show ?case using Cons.IH [OF merged_items [OF Cons.prems, of "mark g" "items g"]] by simp
qed simp

end

interpretation burn_merge: mask_merge merge_burn tx_signature mb_burn mb_mask
  by unfold_locales (auto simp: merge_burn_def split: option.splits)

interpretation burn_v2_merge: mask_merge merge_burn_v2 "\<lambda>e. e" mb2_envelope mb2_mask
  by unfold_locales (auto simp: merge_burn_v2_def split: option.splits)

section \<open>The round trip\<close>

text \<open>
  A bundle lists its burns in strictly falling order of their keys. The expansion of the section
  lists those with the bit of the slot in the same order.
\<close>

lemma sorted_keys_unique:
  fixes f :: "'a \<Rightarrow> 'k::linorder"
  assumes "sorted (map f xs)" and "distinct (map f xs)" and "sorted (map f ys)" and "distinct ys"
    and "set ys = set xs"
  shows "ys = xs"
proof -
  have inj: "inj_on f (set xs)" using assms(2) by (simp add: distinct_map)
  then have "distinct (map f ys)" using assms(4,5) by (simp add: distinct_map)
  then show ?thesis
    using assms inj by (intro map_sorted_distinct_set_unique [of f ys xs]) auto
qed

lemma filter_sort_key: "filter P (sort_key f xs) = sort_key f (filter P xs)"
  by (rule filter_sort)

lemma not_out_of_order: "\<not> out_of_order (Some (f, i)) (f', i') \<longleftrightarrow> burn_order f i \<le> burn_order f' i'"
proof -
  have complement: "unat (NOT f) = unat (- 1 :: u64) - unat f" for f :: u64
  proof -
    have "NOT f = - 1 - f" by (simp add: not_eq_complement)
    moreover have "unat (- 1 - f) = unat (- 1 :: u64) - unat f" by (rule unat_sub) (rule word_n1_ge)
    ultimately show ?thesis by simp
  qed
  have top: "unat f \<le> unat (- 1 :: u64)" for f :: u64 by (simp add: word_n1_ge flip: word_le_nat_alt)
  have "NOT f < NOT f' \<longleftrightarrow> f' < f"
    using top [of f] top [of f'] by (auto simp: word_less_nat_alt complement)
  moreover have "NOT f = NOT f' \<longleftrightarrow> f = f'" by (metis bit.double_compl)
  ultimately show ?thesis by (auto simp: out_of_order_def burn_order_def less_eq_prod_def not_less)
qed

abbreviation burn_key :: "Transaction \<Rightarrow> Amount \<times> string" where
  "burn_key burn \<equiv> burn_order (fee burn) (tx_signature burn)"

lemma bundle_burns_ordered:
  assumes "try_fold (bundle_burn_step cr lg h) (seen, previous) burns = Inr st"
  shows "distinct (map tx_signature burns) \<and> tx_signature ` set burns \<inter> seen = {} \<and>
    sorted (map burn_key burns) \<and>
    (\<forall>f i. previous = Some (f, i) \<longrightarrow> (\<forall>b\<in>set burns. burn_order f i \<le> burn_key b))"
  using assms
proof (induction burns arbitrary: seen previous)
  case (Cons b bs)
  obtain st1 where step: "bundle_burn_step cr lg h (seen, previous) b = Inr st1"
    and fold: "try_fold (bundle_burn_step cr lg h) st1 bs = Inr st"
    using Cons.prems by (auto simp: and_then_eq_Inr)
  have here: "tx_signature b \<notin> seen" "\<not> out_of_order previous (fee b, tx_signature b)"
    and st1: "st1 = (insert (tx_signature b) seen, Some (fee b, tx_signature b))"
    using step by (auto simp: bundle_burn_step_def Let_def and_then_eq_Inr if_bail_eq_Inr split: if_splits)
  note rest = fold [unfolded st1]
  have "burn_order f i \<le> burn_key b" if "previous = Some (f, i)" for f i
    using here(2) that not_out_of_order by simp
  then show ?case using Cons.IH [OF rest] here(1) by (auto intro: order_trans)
qed simp

definition v2_key :: "crypto \<Rightarrow> TransactionV2Domain \<Rightarrow> string \<Rightarrow> Amount \<times> string" where
  "v2_key cr d envelope =
     (case decode_canonical_transaction_v2_envelope envelope d of
        Inl _ \<Rightarrow> (0, [])
      | Inr burn \<Rightarrow>
          (case transaction_id cr burn d of
             Inl _ \<Rightarrow> (0, []) | Inr txid \<Rightarrow> burn_order (v2_fee burn) (hex_encode txid)))"

definition v2_identifier :: "crypto \<Rightarrow> TransactionV2Domain \<Rightarrow> string \<Rightarrow> string" where
  "v2_identifier cr d envelope = snd (v2_key cr d envelope)"

lemma bundle_burns_v2_ordered:
  assumes "try_fold (bundle_burn_v2_step cr lg h d) (seen, previous) envelopes = Inr st"
  shows "distinct (map (v2_identifier cr d) envelopes) \<and> v2_identifier cr d ` set envelopes \<inter> seen = {} \<and>
    sorted (map (v2_key cr d) envelopes) \<and>
    (\<forall>f i. previous = Some (f, i) \<longrightarrow> (\<forall>e\<in>set envelopes. burn_order f i \<le> v2_key cr d e))"
  using assms
proof (induction envelopes arbitrary: seen previous)
  case (Cons e es)
  obtain st1 where step: "bundle_burn_v2_step cr lg h d (seen, previous) e = Inr st1"
    and fold: "try_fold (bundle_burn_v2_step cr lg h d) st1 es = Inr st"
    using Cons.prems by (auto simp: and_then_eq_Inr)
  obtain burn txid where decoded: "decode_canonical_transaction_v2_envelope e d = Inr burn"
      "transaction_id cr burn d = Inr txid"
    and here: "hex_encode txid \<notin> seen" "\<not> out_of_order previous (v2_fee burn, hex_encode txid)"
    and st1: "st1 = (insert (hex_encode txid) seen, Some (v2_fee burn, hex_encode txid))"
    using step
    by (auto simp: bundle_burn_v2_step_def Let_def and_then_eq_Inr if_bail_eq_Inr split: if_splits)
  note rest = fold [unfolded st1]
  have key: "v2_key cr d e = burn_order (v2_fee burn) (hex_encode txid)" "v2_identifier cr d e = hex_encode txid"
    using decoded by (simp_all add: v2_key_def v2_identifier_def burn_order_def)
  have "burn_order f i \<le> v2_key cr d e" if "previous = Some (f, i)" for f i
    using here(2) that not_out_of_order key(1) by simp
  then show ?case using Cons.IH [OF rest] here(1) key by (auto intro: order_trans)
qed simp

lemma bundle_mask_bit:
  assumes "unat (bb_slot b) < BURN_COMMITTEE_SIZE"
  shows "bit (bundle_mask b) i \<longleftrightarrow> bb_slot b \<noteq> 0 \<and> i = unat (bb_slot b)"
proof -
  have "burn_bundle_slot_mask (bb_slot b) = Inr (push_bit (unat (bb_slot b)) 1)"
    using assms by (simp add: slot_mask_eq_Inr)
  moreover have "unat (bb_slot b) < 8" using assms by (simp add: BURN_COMMITTEE_SIZE_def)
  ultimately show ?thesis by (auto simp: bundle_mask_def slot_mask_or_zero_def bit_simps)
qed

lemma prechecked_bundle:
  assumes "precheck_burn_bundle_for_block hs lg h prev committee b = Inr ()"
  obtains d s1 s2 where "bb_height b = h" "bb_prev_hash b = prev" "unat (bb_slot b) < BURN_COMMITTEE_SIZE"
    "try_fold (bundle_burn_step (h_crypto hs) lg h) ({}, None) (bb_burns b) = Inr s1"
    "transaction_v2_domain lg = Inr d"
    "try_fold (bundle_burn_v2_step (h_crypto hs) lg h d) ({}, None) (bb_burns_v2 b) = Inr s2"
  using assms
  by (auto simp: precheck_burn_bundle_for_block_def Let_def and_then_eq_Inr if_bail_eq_Inr not_le
      split: if_splits)

lemma collected_bundles:
  assumes "try_fold (collect_bundle_step hs lg h prev committee d) members bundles = Inr st" and "b \<in> set bundles"
  shows "precheck_burn_bundle_for_block hs lg h prev committee b = Inr ()"
  using assms
proof (induction bundles arbitrary: members)
  case (Cons c cs)
  then show ?case by (auto simp: collect_bundle_step_def and_then_eq_Inr if_bail_eq_Inr split: if_splits)
qed simp

lemma adjacent_distinct:
  "sorted xs \<Longrightarrow> \<not> list_ex (\<lambda>(s, t). s = t) (zip xs (tl xs)) \<Longrightarrow> distinct (xs :: 'a::linorder list)"
proof (induction xs)
  case (Cons x xs)
  show ?case
  proof (cases xs)
    case (Cons y ys)
    then have "x \<noteq> y" "x \<le> y" "distinct xs" using Cons.prems Cons.IH \<open>xs = y # ys\<close> by auto
    moreover have "\<forall>z\<in>set ys. y \<le> z" using Cons.prems \<open>xs = y # ys\<close> by simp
    ultimately show ?thesis using \<open>xs = y # ys\<close> by auto
  qed simp
qed simp

lemma map_sort_key: "map g (sort_key (\<lambda>x. f (g x)) xs) = sort_key f (map g xs)"
proof (induction xs)
  case (Cons x xs)
  have "map g (insort_key (\<lambda>x. f (g x)) x ys) = insort_key f (g x) (map g ys)" for ys by (induction ys) simp_all
  then show ?case using Cons by simp
qed simp

context mask_merge
begin

lemma merged_keys:
  assumes "merged_from es m"
  shows "distinct (map (\<lambda>v. key (item v)) (bt_values m))"
proof -
  have "key (item v) = k" if "(k, v) \<in> set (bt_entries m)" for k v
    using assms that by (simp add: merged_from_def bt_entries_iff)
  then have "map (\<lambda>v. key (item v)) (bt_values m) = bt_keys m"
    by (auto simp: bt_values_def bt_keys_def)
  moreover have "distinct (bt_keys m)" using bt_keys_sorted [of m] strict_sorted_iff by blast
  ultimately show ?thesis by simp
qed

text \<open>The items whose mask has a bit are the group that the bit stands for, in its order.\<close>

lemma unmask:
  fixes order :: "'a \<Rightarrow> 'o::linorder"
  assumes merged: "merged_from es m"
    and only: "\<And>e. e \<in> set es \<Longrightarrow> bit (fst e) n \<Longrightarrow> snd e \<in> set xs"
    and all: "\<And>x. x \<in> set xs \<Longrightarrow> \<exists>e\<in>set es. snd e = x \<and> bit (fst e) n"
    and agree: "\<And>e x. e \<in> set es \<Longrightarrow> x \<in> set xs \<Longrightarrow> key (snd e) = key x \<Longrightarrow> snd e = x"
    and sorted: "sorted (map order xs)" "distinct (map order xs)" and "n < 8"
  shows "map item (filter (\<lambda>v. mask v AND push_bit n 1 \<noteq> 0) (sort_key (\<lambda>v. order (item v)) (bt_values m))) = xs"
proof -
  define L where "L = filter (\<lambda>v. mask v AND push_bit n 1 \<noteq> 0) (bt_values m)"
  define ys where "ys = map item (sort_key (\<lambda>v. order (item v)) L)"
  have "map order ys = map (\<lambda>v. order (item v)) (sort_key (\<lambda>v. order (item v)) L)" by (simp add: ys_def)
  then have "sorted (map order ys)" by simp
  moreover have "distinct ys"
  proof -
    have "distinct (map (\<lambda>v. key (item v)) (bt_values m))" by (rule merged_keys [OF merged])
    then have "distinct (map (\<lambda>v. key (item v)) L)" unfolding L_def by (rule distinct_map_filter)
    then have "distinct (map item L)" by (simp add: distinct_map inj_on_def)
    then show ?thesis by (simp add: ys_def distinct_map)
  qed
  moreover have "set ys = set xs"
  proof (intro set_eqI iffI)
    fix y
    assume "y \<in> set ys"
    then obtain v k where v: "bt_get m k = Some v" "y = item v" "bit (mask v) n"
      using masked_iff_bit [OF assms(7)] by (auto simp: ys_def L_def bt_values_iff)
    then have from_m: "item v \<in> snd ` set es" "key (item v) = k" "\<exists>e\<in>set es. key (snd e) = k \<and> bit (fst e) n"
      using merged by (auto simp: merged_from_def)
    then obtain e where e: "e \<in> set es" "key (snd e) = k" "bit (fst e) n" by blast
    obtain e' where e': "e' \<in> set es" "item v = snd e'" using from_m(1) by auto
    have "snd e' = snd e" using agree [OF e'(1) only [OF e(1,3)]] e' e from_m(2) by simp
    then show "y \<in> set xs" using only [OF e(1,3)] e' v(2) by simp
  next
    fix x
    assume x: "x \<in> set xs"
    then obtain e where e: "e \<in> set es" "snd e = x" "bit (fst e) n" using all by blast
    then obtain v where v: "bt_get m (key x) = Some v"
      using merged by (cases "bt_get m (key x)") (auto simp: merged_from_def)
    then have "item v \<in> snd ` set es" "key (item v) = key x" "bit (mask v) n"
      using merged e by (auto simp: merged_from_def)
    then have "item v = x" using agree x by auto
    moreover have "v \<in> set L"
      using v \<open>bit (mask v) n\<close> masked_iff_bit [OF assms(7)] by (auto simp: L_def bt_values_iff)
    ultimately show "x \<in> set ys" by (auto simp: ys_def)
  qed
  ultimately have "ys = xs" using sorted_keys_unique [OF sorted] by blast
  then show ?thesis by (simp add: ys_def L_def filter_sort_key)
qed

end

text \<open>A burn signature names one burn, whichever member attests it.\<close>

definition burns_agree :: "BurnBundle list \<Rightarrow> bool" where
  "burns_agree bundles \<longleftrightarrow>
     (\<forall>b\<in>set bundles. \<forall>c\<in>set bundles. \<forall>x\<in>set (bb_burns b). \<forall>y\<in>set (bb_burns c).
        tx_signature x = tx_signature y \<longrightarrow> x = y)"

lemma distinct_keys_order:
  assumes "distinct (map g xs)" and "\<And>x y. f x = f y \<Longrightarrow> g x = g y"
  shows "distinct (map f xs)"
proof -
  have "inj_on f (set xs)"
  proof (rule inj_onI)
    fix x y
    assume "x \<in> set xs" and "y \<in> set xs" and "f x = f y"
    moreover from this have "g x = g y" by (intro assms(2))
    ultimately show "x = y" using assms(1) by (simp add: distinct_map inj_on_def)
  qed
  then show ?thesis using assms(1) by (simp add: distinct_map)
qed

lemma section_rebuilds:
  assumes valid: "validate_burn_bundles_for_committee hs lg h prev committee bundles = Inr ordered"
    and built: "burn_bundle_section_from_bundles (h_crypto hs) lg ordered = Inr sec"
    and agree: "burns_agree bundles"
  shows "section_expand sec h prev = filter (\<lambda>b. bb_slot b \<noteq> 0) ordered"
proof -
  let ?cr = "h_crypto hs"
  have ordered: "ordered = sort_key bb_slot bundles"
    and neighbours: "\<not> list_ex (\<lambda>(s, t). s = t) (zip (map bb_slot ordered) (tl (map bb_slot ordered)))"
    and checked: "\<exists>d st. transaction_v2_domain lg = Inr d \<and>
      try_fold (collect_bundle_step hs lg h prev committee d) {} ordered = Inr st"
    using valid
    by (auto simp: validate_burn_bundles_for_committee_def Let_def and_then_eq_Inr if_bail_eq_Inr split: if_splits)
  obtain d where d: "transaction_v2_domain lg = Inr d" using checked by blast
  have pre: "precheck_burn_bundle_for_block hs lg h prev committee b = Inr ()" if "b \<in> set ordered" for b
    using checked collected_bundles that by blast
  have slots: "distinct (map bb_slot ordered)"
    by (rule adjacent_distinct [OF _ neighbours]) (simp add: ordered)
  define by_sig where "by_sig = foldl (\<lambda>acc b. foldl (merge_burn (bundle_mask b)) acc (bb_burns b)) bt_empty ordered"
  define by_id where "by_id = foldl (\<lambda>acc b. foldl (merge_burn_v2 (bundle_mask b)) acc (bb_burns_v2 b)) bt_empty ordered"
  define es where "es = concat (map (\<lambda>b. map (Pair (bundle_mask b)) (bb_burns b)) ordered)"
  define es2 where "es2 = concat (map (\<lambda>b. map (Pair (bundle_mask b)) (bb_burns_v2 b)) ordered)"
  have merged: "burn_merge.merged_from es by_sig" "burn_v2_merge.merged_from es2 by_id"
    using burn_merge.merged_groups [OF burn_merge.merged_empty, of bundle_mask bb_burns ordered]
      burn_v2_merge.merged_groups [OF burn_v2_merge.merged_empty, of bundle_mask bb_burns_v2 ordered]
    by (simp_all add: by_sig_def by_id_def es_def es2_def)
  obtain keyed where keyed: "try_map (\<lambda>masked.
        and_then (decode_canonical_transaction_v2_envelope (mb2_envelope masked) d) (\<lambda>burn.
        and_then (transaction_id ?cr burn d) (\<lambda>txid.
        Inr (burn_order (v2_fee burn) (hex_encode txid), masked)))) (bt_values by_id) = Inr keyed"
    and sec: "sec = \<lparr>sec_signatures = map (\<lambda>b. \<lparr>bs_slot = bb_slot b, bs_member = bb_member b,
          bs_reward_address = bb_reward_address b, bs_signature = bb_signature b\<rparr>)
          (filter (\<lambda>b. bb_slot b \<noteq> 0) ordered),
        sec_burns = sort_key (\<lambda>m. burn_key (mb_burn m)) (bt_values by_sig),
        sec_burns_v2 = map snd (sort_key fst keyed)\<rparr>"
    using built d unfolding burn_bundle_section_from_bundles_def Let_def and_then_eq_Inr by_sig_def by_id_def
    by auto
  have "keyed = map (\<lambda>m. (v2_key ?cr d (mb2_envelope m), m)) (bt_values by_id)"
  proof -
    have "list_all2 (\<lambda>m r. r = (v2_key ?cr d (mb2_envelope m), m)) (bt_values by_id) keyed"
      using keyed unfolding try_map_eq_Inr
      by (rule list_all2_mono) (auto simp: and_then_eq_Inr v2_key_def)
    then show ?thesis by (auto simp: list_all2_conv_all_nth intro: nth_equalityI)
  qed
  then have burns_v2: "sec_burns_v2 sec = sort_key (\<lambda>m. v2_key ?cr d (mb2_envelope m)) (bt_values by_id)"
    using sec map_sort_key [of "\<lambda>m. (v2_key ?cr d (mb2_envelope m), m)" fst "bt_values by_id"]
    by (simp add: map_sort_key [symmetric] comp_def)
  have rebuilt: "\<lparr>bb_height = h, bb_prev_hash = prev, bb_slot = bb_slot b, bb_member = bb_member b,
      bb_reward_address = bb_reward_address b,
      bb_burns = map mb_burn (filter (\<lambda>m. mb_mask m AND slot_mask_or_zero (bb_slot b) \<noteq> 0) (sec_burns sec)),
      bb_burns_v2 = map mb2_envelope
        (filter (\<lambda>m. mb2_mask m AND slot_mask_or_zero (bb_slot b) \<noteq> 0) (sec_burns_v2 sec)),
      bb_signature = bb_signature b\<rparr> = b" if b: "b \<in> set ordered" "bb_slot b \<noteq> 0" for b
  proof -
    obtain s1 s2 where facts: "bb_height b = h" "bb_prev_hash b = prev" "unat (bb_slot b) < BURN_COMMITTEE_SIZE"
      and fold: "try_fold (bundle_burn_step ?cr lg h) ({}, None) (bb_burns b) = Inr s1"
      and fold_v2: "try_fold (bundle_burn_v2_step ?cr lg h d) ({}, None) (bb_burns_v2 b) = Inr s2"
      using pre [OF b(1)] d by (auto elim: prechecked_bundle)
    let ?n = "unat (bb_slot b)"
    have n: "?n < 8" using facts(3) by (simp add: BURN_COMMITTEE_SIZE_def)
    have "burn_bundle_slot_mask (bb_slot b) = Inr (push_bit ?n 1)" using facts(3) by (simp add: slot_mask_eq_Inr)
    then have mask: "slot_mask_or_zero (bb_slot b) = push_bit ?n 1" by (simp add: slot_mask_or_zero_def)
    have own: "c = b" if "c \<in> set ordered" and "bit (bundle_mask c) ?n" for c
    proof -
      have "unat (bb_slot c) < BURN_COMMITTEE_SIZE" using pre [OF that(1)] by (auto elim: prechecked_bundle)
      then have "unat (bb_slot c) = unat (bb_slot b)" using that(2) by (simp add: bundle_mask_bit)
      then have "bb_slot c = bb_slot b" by (simp add: word_unat_eq_iff)
      then show ?thesis using slots that(1) b(1) by (simp add: distinct_map inj_on_def)
    qed
    have bit: "bit (bundle_mask b) ?n" using facts(3) b(2) by (simp add: bundle_mask_bit)
    note ordered_burns = bundle_burns_ordered [OF fold] and ordered_v2 = bundle_burns_v2_ordered [OF fold_v2]
    have "map mb_burn (filter (\<lambda>m. mb_mask m AND push_bit ?n 1 \<noteq> 0)
        (sort_key (\<lambda>m. burn_key (mb_burn m)) (bt_values by_sig))) = bb_burns b"
    proof (rule burn_merge.unmask [OF merged(1)])
      show "snd e \<in> set (bb_burns b)" if "e \<in> set es" "bit (fst e) ?n" for e
        using that by (auto simp: es_def dest: own)
      show "\<exists>e\<in>set es. snd e = x \<and> bit (fst e) ?n" if "x \<in> set (bb_burns b)" for x
        using that b(1) bit by (intro bexI [of _ "(bundle_mask b, x)"]) (auto simp: es_def)
      show "snd e = x" if "e \<in> set es" "x \<in> set (bb_burns b)" "tx_signature (snd e) = tx_signature x" for e x
      proof -
        have "\<exists>c\<in>set ordered. snd e \<in> set (bb_burns c)" using that(1) by (auto simp: es_def)
        then obtain c where c: "c \<in> set bundles" "snd e \<in> set (bb_burns c)" using ordered by auto
        moreover have "b \<in> set bundles" using b(1) ordered by simp
        ultimately show ?thesis using agree that(2,3) unfolding burns_agree_def by blast
      qed
      show "distinct (map burn_key (bb_burns b))"
        by (rule distinct_keys_order [of tx_signature]) (use ordered_burns in \<open>simp_all add: burn_order_def\<close>)
    qed (use ordered_burns n in auto)
    moreover have "map mb2_envelope (filter (\<lambda>m. mb2_mask m AND push_bit ?n 1 \<noteq> 0)
        (sort_key (\<lambda>m. v2_key ?cr d (mb2_envelope m)) (bt_values by_id))) = bb_burns_v2 b"
    proof (rule burn_v2_merge.unmask [OF merged(2)])
      show "snd e \<in> set (bb_burns_v2 b)" if "e \<in> set es2" "bit (fst e) ?n" for e
        using that by (auto simp: es2_def dest: own)
      show "\<exists>e\<in>set es2. snd e = x \<and> bit (fst e) ?n" if "x \<in> set (bb_burns_v2 b)" for x
        using that b(1) bit by (intro bexI [of _ "(bundle_mask b, x)"]) (auto simp: es2_def)
      show "distinct (map (v2_key ?cr d) (bb_burns_v2 b))"
        by (rule distinct_keys_order [of "v2_identifier ?cr d"]) (use ordered_v2 in \<open>simp_all add: v2_identifier_def\<close>)
    qed (use ordered_v2 n in auto)
    ultimately show ?thesis using facts(1,2) mask sec burns_v2 by simp
  qed
  have "section_expand sec h prev = map (\<lambda>b. b) (filter (\<lambda>b. bb_slot b \<noteq> 0) ordered)"
    unfolding section_expand_def sec BurnBundleSection.simps map_map comp_def Let_def
    using rebuilt by (intro map_cong) (simp_all add: sec)
  then show ?thesis by simp
qed

section \<open>Memberships\<close>

lemma membership_fold:
  assumes "foldl (membership_step owner) (ms, seen) xs = (ms', seen')"
    and "distinct (map cm_slot ms)" and "cm_slot ` set ms = seen"
  shows "distinct (map cm_slot ms') \<and> set ms' \<subseteq> set ms \<union> {m \<in> set xs. cm_owner m = owner} \<and>
    (\<forall>m\<in>set xs. cm_owner m = owner \<longrightarrow> cm_slot m \<in> cm_slot ` set ms')"
proof -
  have "distinct (map cm_slot ms') \<and> set ms \<subseteq> set ms' \<and>
      set ms' \<subseteq> set ms \<union> {m \<in> set xs. cm_owner m = owner} \<and> cm_slot ` set ms' = seen' \<and>
      (\<forall>m\<in>set xs. cm_owner m = owner \<longrightarrow> cm_slot m \<in> cm_slot ` set ms')"
    using assms
  proof (induction xs arbitrary: ms seen)
    case (Cons x xs)
    show ?case
    proof (cases "cm_owner x \<noteq> owner \<or> cm_slot x \<in> seen")
      case True
      then have "membership_step owner (ms, seen) x = (ms, seen)" by (simp add: membership_step_def)
      then have "foldl (membership_step owner) (ms, seen) xs = (ms', seen')" using Cons.prems(1) by simp
      from Cons.IH [OF this Cons.prems(2,3)] show ?thesis using True Cons.prems(3) by auto
    next
      case False
      then have "membership_step owner (ms, seen) x = (ms @ [x], insert (cm_slot x) seen)"
        by (simp add: membership_step_def)
      then have fold: "foldl (membership_step owner) (ms @ [x], insert (cm_slot x) seen) xs = (ms', seen')"
        using Cons.prems(1) by simp
      have "distinct (map cm_slot (ms @ [x]))" "cm_slot ` set (ms @ [x]) = insert (cm_slot x) seen"
        using Cons.prems(2,3) False by auto
      from Cons.IH [OF fold this] show ?thesis using False by auto
    qed
  qed auto
  then show ?thesis by blast
qed

text \<open>An owner attests each slot it holds in some committee once, in slot order.\<close>

lemma memberships:
  defines "ranks cr lg \<equiv> min (finalizer_rank_count_for_next_block cr lg) BURN_COMMITTEE_SIZE"
  shows "sorted (map cm_slot (burn_committee_memberships_for_next_block cr lg owner))"
    and "distinct (map cm_slot (burn_committee_memberships_for_next_block cr lg owner))"
    and "m \<in> set (burn_committee_memberships_for_next_block cr lg owner) \<Longrightarrow> cm_owner m = owner \<and>
      (\<exists>rank<ranks cr lg. m \<in> set (burn_committee_for_next_ticket_block cr lg (word_of_nat rank)))"
    and "rank < ranks cr lg \<Longrightarrow> c \<in> set (burn_committee_for_next_ticket_block cr lg (word_of_nat rank)) \<Longrightarrow>
      cm_owner c = owner \<Longrightarrow>
      cm_slot c \<in> cm_slot ` set (burn_committee_memberships_for_next_block cr lg owner)"
proof -
  define xs where "xs = concat (map (\<lambda>rank. burn_committee_for_next_ticket_block cr lg (word_of_nat rank))
    [0..<ranks cr lg])"
  obtain ms seen where ms: "foldl (membership_step owner) ([], {}) xs = (ms, seen)" by fastforce
  have result: "burn_committee_memberships_for_next_block cr lg owner = sort_key cm_slot ms"
    using ms by (simp add: burn_committee_memberships_for_next_block_def xs_def ranks_def)
  note fold = membership_fold [OF ms]
  show "sorted (map cm_slot (burn_committee_memberships_for_next_block cr lg owner))" by (simp add: result)
  have "distinct (map cm_slot ms)" using fold by simp
  then show "distinct (map cm_slot (burn_committee_memberships_for_next_block cr lg owner))"
    by (simp add: result distinct_map)
  show "cm_owner m = owner \<and>
      (\<exists>rank<ranks cr lg. m \<in> set (burn_committee_for_next_ticket_block cr lg (word_of_nat rank)))"
    if "m \<in> set (burn_committee_memberships_for_next_block cr lg owner)"
  proof -
    have "m \<in> set xs \<and> cm_owner m = owner" using fold that by (auto simp: result)
    then show ?thesis by (auto simp: xs_def)
  qed
  show "cm_slot c \<in> cm_slot ` set (burn_committee_memberships_for_next_block cr lg owner)"
    if "rank < ranks cr lg" "c \<in> set (burn_committee_for_next_ticket_block cr lg (word_of_nat rank))"
      "cm_owner c = owner"
    using fold that by (auto simp: result xs_def)
qed

end
