(* ===== verification/Peer_Book.thy ===== *)
theory Peer_Book
  imports BTree_Map "HOL-Library.Option_ord" "HOL-Library.Product_Lexorder"
begin

text \<open>
  The peers a node knows (\<open>app/peer_book.rs\<close>): who was configured, discovered or came in, what
  they reported, how their clocks differ, and who is banned. A node reads its own clock in several
  operations; the reading is an argument here. Peer addresses are parsed with the standard
  library's grammar of socket addresses, which is modelled first.
\<close>

unbundle bit_operations_syntax

section \<open>Socket addresses\<close>

datatype SocketAddr = SocketV4 (v4_octets: "u8 list") (v4_port: u16)
  | SocketV6 (v6_segments: "u16 list") (v6_scope: u32) (v6_port: u16)

datatype IpAddr = IpV4 "u8 list" | IpV6 "u16 list"

fun socket_ip :: "SocketAddr \<Rightarrow> IpAddr" where
  "socket_ip (SocketV4 octets port) = IpV4 octets"
| "socket_ip (SocketV6 segments scope port) = IpV6 segments"

type_synonym 'a parser = "string \<Rightarrow> ('a \<times> string) option"

definition char_digit :: "nat \<Rightarrow> char \<Rightarrow> nat option" where
  "char_digit radix c =
     (let n = of_char c :: nat;
          d = (if 48 \<le> n \<and> n \<le> 57 then Some (n - 48)
               else if 97 \<le> n \<and> n \<le> 102 then Some (n - 87)
               else if 65 \<le> n \<and> n \<le> 70 then Some (n - 55) else None) in
      Option.bind d (\<lambda>v. if v < radix then Some v else None))"

fun digits_loop :: "nat \<Rightarrow> nat option \<Rightarrow> nat \<Rightarrow> nat \<Rightarrow> nat \<Rightarrow> string \<Rightarrow> (nat \<times> nat \<times> string) option" where
  "digits_loop radix max_digits bound v n [] = Some (v, n, [])"
| "digits_loop radix max_digits bound v n (c # cs) =
     (case char_digit radix c of
        None \<Rightarrow> Some (v, n, c # cs)
      | Some d \<Rightarrow>
          if bound \<le> v * radix + d \<or> (case max_digits of Some m \<Rightarrow> m < Suc n | None \<Rightarrow> False) then None
          else digits_loop radix max_digits bound (v * radix + d) (Suc n) cs)"

definition read_number :: "nat \<Rightarrow> nat option \<Rightarrow> bool \<Rightarrow> nat \<Rightarrow> nat parser" where
  "read_number radix max_digits allow_zero_prefix bound s =
     Option.bind (digits_loop radix max_digits bound 0 0 s) (\<lambda>(v, n, rest).
     if n = 0 \<or> (\<not> allow_zero_prefix \<and> hd s = CHR ''0'' \<and> 1 < n) then None else Some (v, rest))"

fun read_char :: "char \<Rightarrow> unit parser" where
  "read_char c [] = None"
| "read_char c (d # s) = (if d = c then Some ((), s) else None)"

definition read_separated :: "char \<Rightarrow> nat \<Rightarrow> 'a parser \<Rightarrow> 'a parser" where
  "read_separated sep index inner s =
     (if 0 < index then Option.bind (read_char sep s) (\<lambda>(_, rest). inner rest) else inner s)"

definition read_octet :: "nat \<Rightarrow> u8 parser" where
  "read_octet index =
     read_separated CHR ''.'' index (\<lambda>s.
     map_option (\<lambda>(n, rest). (word_of_nat n, rest)) (read_number 10 (Some 3) False 256 s))"

definition read_ipv4 :: "u8 list parser" where
  "read_ipv4 s =
     Option.bind (read_octet 0 s) (\<lambda>(a, s1).
     Option.bind (read_octet 1 s1) (\<lambda>(b, s2).
     Option.bind (read_octet 2 s2) (\<lambda>(c, s3).
     Option.bind (read_octet 3 s3) (\<lambda>(d, s4). Some ([a, b, c, d], s4)))))"

definition octet_pair :: "u8 \<Rightarrow> u8 \<Rightarrow> u16" where
  "octet_pair a b = push_bit 8 (ucast a) OR ucast b"

text \<open>
  Groups of an IPv6 address, at most \<open>limit\<close> of them; an embedded IPv4 address counts for two
  and ends the list. The result tells whether there was one.
\<close>

function read_groups :: "nat \<Rightarrow> nat \<Rightarrow> string \<Rightarrow> u16 list \<times> bool \<times> string" where
  "read_groups limit i s =
     (if limit \<le> i then ([], False, s)
      else
        (case (if i + 1 < limit then read_separated CHR '':'' i read_ipv4 s else None) of
           Some (octets, rest) \<Rightarrow>
             ([octet_pair (octets ! 0) (octets ! 1), octet_pair (octets ! 2) (octets ! 3)], True, rest)
         | None \<Rightarrow>
             (case read_separated CHR '':'' i (read_number 16 (Some 4) True 65536) s of
                None \<Rightarrow> ([], False, s)
              | Some (g, rest) \<Rightarrow>
                  (case read_groups limit (i + 1) rest of (gs, v4, rest') \<Rightarrow>
                     (word_of_nat g # gs, v4, rest')))))"
  by pat_completeness auto
termination
  by (relation "measure (\<lambda>(limit, i, s). limit - i)") auto

definition read_ipv6 :: "u16 list parser" where
  "read_ipv6 s =
     (case read_groups 8 0 s of (head, head_ipv4, s1) \<Rightarrow>
        if length head = 8 then Some (head, s1)
        else if head_ipv4 then None
        else
          Option.bind (read_char CHR '':'' s1) (\<lambda>(_, s2).
          Option.bind (read_char CHR '':'' s2) (\<lambda>(_, s3).
          (case read_groups (8 - (length head + 1)) 0 s3 of (t, _, s4) \<Rightarrow>
             Some (head @ replicate (8 - length head - length t) 0 @ t, s4)))))"

definition read_port :: "u16 parser" where
  "read_port s =
     Option.bind (read_char CHR '':'' s) (\<lambda>(_, s1).
     map_option (\<lambda>(n, rest). (word_of_nat n, rest)) (read_number 10 None True 65536 s1))"

definition read_scope_id :: "u32 parser" where
  "read_scope_id s =
     Option.bind (read_char CHR ''%'' s) (\<lambda>(_, s1).
     map_option (\<lambda>(n, rest). (word_of_nat n, rest)) (read_number 10 None True (2 ^ 32) s1))"

definition read_socket_v4 :: "SocketAddr parser" where
  "read_socket_v4 s =
     Option.bind (read_ipv4 s) (\<lambda>(ip, s1).
     Option.bind (read_port s1) (\<lambda>(port, s2). Some (SocketV4 ip port, s2)))"

definition read_socket_v6 :: "SocketAddr parser" where
  "read_socket_v6 s =
     Option.bind (read_char CHR ''['' s) (\<lambda>(_, s1).
     Option.bind (read_ipv6 s1) (\<lambda>(ip, s2).
     (case (case read_scope_id s2 of Some (scope, s3) \<Rightarrow> (scope, s3) | None \<Rightarrow> (0, s2)) of (scope, s3) \<Rightarrow>
     Option.bind (read_char CHR '']'' s3) (\<lambda>(_, s4).
     Option.bind (read_port s4) (\<lambda>(port, s5). Some (SocketV6 ip scope port, s5))))))"

definition parse_socket_addr :: "string \<Rightarrow> SocketAddr option" where
  "parse_socket_addr s =
     (case (case read_socket_v4 s of Some r \<Rightarrow> Some r | None \<Rightarrow> read_socket_v6 s) of
        Some (a, []) \<Rightarrow> Some a
      | _ \<Rightarrow> None)"

section \<open>Peers\<close>

definition MAX_DISCOVERED_PEERS :: nat where "MAX_DISCOVERED_PEERS = 256"
definition MAX_TOTAL_PEERS :: nat where "MAX_TOTAL_PEERS = 512"
definition MAX_DISCOVERED_PEERS_PER_IP :: nat where "MAX_DISCOVERED_PEERS_PER_IP = 4"
definition MAX_DISCOVERED_PEERS_PER_IPV4_PREFIX :: nat where "MAX_DISCOVERED_PEERS_PER_IPV4_PREFIX = 16"
definition MAX_DISCOVERED_PEERS_PER_IPV6_PREFIX :: nat where "MAX_DISCOVERED_PEERS_PER_IPV6_PREFIX = 16"
definition PEER_MISBEHAVIOR_BAN_SCORE :: u32 where "PEER_MISBEHAVIOR_BAN_SCORE = 3"
definition PEER_MISBEHAVIOR_BAN_MS :: u64 where "PEER_MISBEHAVIOR_BAN_MS = 600000"
definition PEER_CLOCK_OFFSET_ACCEPTANCE_MS :: int where "PEER_CLOCK_OFFSET_ACCEPTANCE_MS = 600000"
definition PEER_CLOCK_OFFSET_STALE_MS :: u64 where "PEER_CLOCK_OFFSET_STALE_MS = 1200000"
definition PEER_GOOD_CONNECTION_MAX_AGE_MS :: u64 where "PEER_GOOD_CONNECTION_MAX_AGE_MS = 1200000"

datatype PeerDirection = Outbound | Discovered | Inbound

record ProtocolHello =
  ph_protocol_version :: u32
  ph_capabilities :: "string list"
  ph_network_id :: string
  ph_genesis_hash :: string
  ph_listen_addr :: "string option"
  ph_node_id :: "string option"
  ph_height :: u64
  ph_tip_hash :: string
  ph_time_ms :: u64

text \<open>A clock offset is a signed 64-bit number.\<close>

record PeerInfo =
  peer_address :: string
  direction :: PeerDirection
  messages_sent :: u64
  messages_received :: u64
  last_known_height :: "u64 option"
  last_known_tip_hash :: "string option"
  last_hello :: "ProtocolHello option"
  last_clock_offset_ms :: "int option"
  last_clock_offset_accepted :: "bool option"
  last_clock_observed_ms :: "u64 option"
  last_error :: "string option"
  last_contact_ms :: "u64 option"
  last_success_ms :: "u64 option"
  last_error_ms :: "u64 option"
  misbehavior_score :: u32
  banned_until_ms :: "u64 option"
  ban_reason :: "string option"

definition peer_new :: "string \<Rightarrow> PeerDirection \<Rightarrow> PeerInfo" where
  "peer_new address d =
     \<lparr>peer_address = address, direction = d, messages_sent = 0, messages_received = 0,
      last_known_height = None, last_known_tip_hash = None, last_hello = None,
      last_clock_offset_ms = None, last_clock_offset_accepted = None, last_clock_observed_ms = None,
      last_error = None, last_contact_ms = None, last_success_ms = None, last_error_ms = None,
      misbehavior_score = 0, banned_until_ms = None, ban_reason = None\<rparr>"

type_synonym PeerBook = "(string, PeerInfo) btree_map"

definition peer_is_banned_at :: "PeerInfo \<Rightarrow> u64 \<Rightarrow> bool" where
  "peer_is_banned_at p now = (case banned_until_ms p of Some until \<Rightarrow> now < until | None \<Rightarrow> False)"

definition peer_is_good_connection_at :: "PeerInfo \<Rightarrow> u64 \<Rightarrow> bool" where
  "peer_is_good_connection_at p now \<longleftrightarrow>
     \<not> peer_is_banned_at p now \<and> last_error p = None \<and> last_known_height p \<noteq> None \<and>
     (case last_success_ms p of
        Some last_success \<Rightarrow> saturating_sub now last_success \<le> PEER_GOOD_CONNECTION_MAX_AGE_MS
      | None \<Rightarrow> False)"

definition peer_is_good_connection_for_chain_at :: "PeerInfo \<Rightarrow> u64 \<Rightarrow> string \<Rightarrow> u64 \<Rightarrow> bool" where
  "peer_is_good_connection_for_chain_at p h tip now \<longleftrightarrow>
     peer_is_good_connection_at p now \<and> last_known_height p = Some h \<and> last_known_tip_hash p = Some tip"

definition clear_misbehavior :: "PeerInfo \<Rightarrow> PeerInfo" where
  "clear_misbehavior p = p\<lparr>misbehavior_score := 0, banned_until_ms := None, ban_reason := None\<rparr>"

definition has_good_connection_at :: "PeerBook \<Rightarrow> u64 \<Rightarrow> bool" where
  "has_good_connection_at book now = list_ex (\<lambda>p. peer_is_good_connection_at p now) (bt_values book)"

definition has_good_connection_for_chain_at :: "PeerBook \<Rightarrow> u64 \<Rightarrow> string \<Rightarrow> u64 \<Rightarrow> bool" where
  "has_good_connection_for_chain_at book h tip now =
     list_ex (\<lambda>p. peer_is_good_connection_for_chain_at p h tip now) (bt_values book)"

section \<open>Configured and discovered peers\<close>

definition contains_peer :: "PeerBook \<Rightarrow> string \<Rightarrow> bool" where
  "contains_peer book address = bt_contains_key book address"

definition peer_count :: "PeerBook \<Rightarrow> nat" where
  "peer_count book = length (bt_entries book)"

definition add_peer :: "string \<Rightarrow> PeerBook \<Rightarrow> PeerBook" where
  "add_peer address book =
     (case bt_get book address of
        Some p \<Rightarrow>
          if direction p \<noteq> Outbound then bt_insert address (p\<lparr>direction := Outbound\<rparr>) book else book
      | None \<Rightarrow>
          if MAX_TOTAL_PEERS \<le> peer_count book then book
          else bt_insert address (peer_new address Outbound) book)"

definition from_addresses :: "string list \<Rightarrow> PeerBook" where
  "from_addresses addresses = foldl (\<lambda>book address. add_peer address book) bt_empty addresses"

definition discovered_peers :: "PeerBook \<Rightarrow> PeerInfo list" where
  "discovered_peers book = filter (\<lambda>p. direction p = Discovered) (bt_values book)"

definition discovered_peer_count :: "PeerBook \<Rightarrow> nat" where
  "discovered_peer_count book = length (discovered_peers book)"

fun same_discovery_group :: "SocketAddr \<Rightarrow> SocketAddr \<Rightarrow> bool" where
  "same_discovery_group (SocketV4 l _) (SocketV4 r _) \<longleftrightarrow> l ! 0 = r ! 0 \<and> l ! 1 = r ! 1"
| "same_discovery_group (SocketV6 l _ _) (SocketV6 r _ _) \<longleftrightarrow> l ! 0 = r ! 0 \<and> l ! 1 = r ! 1"
| "same_discovery_group _ _ \<longleftrightarrow> False"

definition count_discovered :: "(SocketAddr \<Rightarrow> bool) \<Rightarrow> PeerBook \<Rightarrow> nat" where
  "count_discovered P book =
     length (filter (\<lambda>p. case parse_socket_addr (peer_address p) of Some a \<Rightarrow> P a | None \<Rightarrow> False)
       (discovered_peers book))"

definition discovered_peer_has_room :: "PeerBook \<Rightarrow> string \<Rightarrow> bool" where
  "discovered_peer_has_room book address =
     (if MAX_DISCOVERED_PEERS \<le> discovered_peer_count book then False
      else
        (case parse_socket_addr address of
           None \<Rightarrow> False
         | Some candidate \<Rightarrow>
             if MAX_DISCOVERED_PEERS_PER_IP \<le> count_discovered (\<lambda>e. socket_ip e = socket_ip candidate) book
             then False
             else
               (let same_group = count_discovered (\<lambda>e. same_discovery_group e candidate) book in
                case candidate of
                  SocketV4 _ _ \<Rightarrow> same_group < MAX_DISCOVERED_PEERS_PER_IPV4_PREFIX
                | SocketV6 _ _ _ \<Rightarrow> same_group < MAX_DISCOVERED_PEERS_PER_IPV6_PREFIX)))"

definition add_discovered_peer :: "string \<Rightarrow> u64 \<Rightarrow> PeerBook \<Rightarrow> bool \<times> PeerBook" where
  "add_discovered_peer address clock book =
     (case bt_get book address of
        Some p \<Rightarrow>
          if direction p = Inbound \<and> \<not> discovered_peer_has_room book address then (False, book)
          else (True, bt_insert address
            (p\<lparr>direction := (if direction p = Inbound then Discovered else direction p),
               last_contact_ms := (case last_contact_ms p of Some t \<Rightarrow> Some t | None \<Rightarrow> Some clock)\<rparr>) book)
      | None \<Rightarrow>
          if \<not> discovered_peer_has_room book address then (False, book)
          else (True, bt_insert address ((peer_new address Discovered)\<lparr>last_contact_ms := Some clock\<rparr>) book))"

definition add_discovered_peer_at :: "string \<Rightarrow> u64 \<Rightarrow> u64 \<Rightarrow> PeerBook \<Rightarrow> bool \<times> PeerBook" where
  "add_discovered_peer_at address clock now book =
     (case add_discovered_peer address clock book of (added, book') \<Rightarrow>
        (added,
         case bt_get book' address of
           Some p \<Rightarrow> if added then bt_insert address (p\<lparr>last_contact_ms := Some now\<rparr>) book' else book'
         | None \<Rightarrow> book'))"

definition promote_discovered_peer :: "string \<Rightarrow> PeerBook \<Rightarrow> PeerBook" where
  "promote_discovered_peer address book =
     (case bt_get book address of
        Some p \<Rightarrow>
          if direction p = Discovered then bt_insert address (p\<lparr>direction := Outbound\<rparr>) book else book
      | None \<Rightarrow> book)"

section \<open>Pruning, renaming, removal\<close>

definition prune_stale_discovered_peer :: "PeerInfo \<Rightarrow> u64 \<Rightarrow> u64 \<Rightarrow> bool" where
  "prune_stale_discovered_peer p now max_age =
     (if direction p \<noteq> Discovered \<or> peer_is_banned_at p now then True
      else
        (case (case last_success_ms p of Some t \<Rightarrow> Some t | None \<Rightarrow> last_contact_ms p) of
           None \<Rightarrow> False
         | Some last_contact \<Rightarrow> saturating_sub now last_contact \<le> max_age))"

definition prune_stale_inbound_peer :: "PeerInfo \<Rightarrow> u64 \<Rightarrow> u64 \<Rightarrow> bool" where
  "prune_stale_inbound_peer p now max_age =
     (if direction p \<noteq> Inbound \<or> peer_is_banned_at p now then True
      else
        (case last_contact_ms p of
           None \<Rightarrow> False
         | Some last_contact \<Rightarrow> saturating_sub now last_contact \<le> max_age))"

definition bt_retain :: "('k \<Rightarrow> 'v \<Rightarrow> bool) \<Rightarrow> ('k::linorder, 'v) btree_map \<Rightarrow> ('k, 'v) btree_map" where
  "bt_retain P m = bt_of_list (filter (\<lambda>e. P (fst e) (snd e)) (bt_entries m))"

lemma bt_of_list_sorted:
  assumes "strict_keys es"
  shows "bt_entries (bt_of_list es) = es"
proof -
  have "map_of (rev es) = map_of es"
    using strict_keys_distinct [OF assms] by (subst map_of_inject_set) (simp_all add: rev_map [symmetric])
  have "bt_get (foldl (\<lambda>m e. bt_insert (fst e) (snd e) m) m es) = bt_get m ++ map_of (rev es)" for m
    by (induction es arbitrary: m) (auto simp: fun_eq_iff map_add_def split: option.splits)
  then have "bt_get (bt_of_list es) = map_of es"
    using \<open>map_of (rev es) = map_of es\<close> by (simp add: bt_of_list_def map_add_def fun_eq_iff split: option.splits)
  then have "map_of (bt_entries (bt_of_list es)) = map_of es" by (simp add: bt_get.rep_eq)
  then show ?thesis using assms bt_entries [of "bt_of_list es"] by (intro entries_ext) auto
qed

lemma bt_strict [simp]: "strict_keys (bt_entries m)"
  using bt_entries [of m] by simp

lemma bt_retain_entries: "bt_entries (bt_retain P m) = filter (\<lambda>e. P (fst e) (snd e)) (bt_entries m)"
  unfolding bt_retain_def
  by (rule bt_of_list_sorted) (use bt_strict [of m] in \<open>simp add: strict_keys_def sorted_wrt_map sorted_wrt_filter\<close>)

lemma bt_retain_get: "bt_get (bt_retain P m) k = Some v \<longleftrightarrow> bt_get m k = Some v \<and> P k v"
  by (auto simp flip: bt_entries_iff simp: bt_retain_entries)

definition prune_stale_peers_at :: "u64 \<Rightarrow> u64 \<Rightarrow> u64 \<Rightarrow> PeerBook \<Rightarrow> nat \<times> PeerBook" where
  "prune_stale_peers_at now inbound_max_age discovered_max_age book =
     (let book' = bt_retain (\<lambda>_ p. prune_stale_inbound_peer p now inbound_max_age \<and>
            prune_stale_discovered_peer p now discovered_max_age) book in
      (peer_count book - peer_count book', book'))"

definition prune_stale_inbound_peers_at :: "u64 \<Rightarrow> u64 \<Rightarrow> PeerBook \<Rightarrow> nat \<times> PeerBook" where
  "prune_stale_inbound_peers_at now max_age book = prune_stale_peers_at now max_age (- 1) book"

definition observe_inbound_peer :: "string \<Rightarrow> PeerBook \<Rightarrow> PeerBook" where
  "observe_inbound_peer address book =
     (if bt_get book address \<noteq> None \<or> MAX_TOTAL_PEERS \<le> peer_count book then book
      else bt_insert address (peer_new address Inbound) book)"

definition or_option :: "'a option \<Rightarrow> 'a option \<Rightarrow> 'a option" where
  "or_option a b = (case a of Some x \<Rightarrow> Some x | None \<Rightarrow> b)"

text \<open>What the entry of a new address takes over from the entry of the old one.\<close>

definition merge_peer :: "PeerInfo \<Rightarrow> PeerInfo \<Rightarrow> PeerInfo" where
  "merge_peer to from =
     (let newer_clock = last_clock_observed_ms to < last_clock_observed_ms from in
      to\<lparr>direction :=
           (if direction from = Outbound then Outbound
            else if direction from = Discovered \<and> direction to = Inbound then Discovered
            else direction to),
         messages_sent := saturating_add (messages_sent to) (messages_sent from),
         messages_received := saturating_add (messages_received to) (messages_received from),
         last_known_height := or_option (last_known_height to) (last_known_height from),
         last_known_tip_hash := or_option (last_known_tip_hash to) (last_known_tip_hash from),
         last_hello := or_option (last_hello to) (last_hello from),
         last_clock_offset_ms := (if newer_clock then last_clock_offset_ms from else last_clock_offset_ms to),
         last_clock_offset_accepted :=
           (if newer_clock then last_clock_offset_accepted from else last_clock_offset_accepted to),
         last_clock_observed_ms := (if newer_clock then last_clock_observed_ms from else last_clock_observed_ms to),
         last_contact_ms := max (last_contact_ms to) (last_contact_ms from),
         last_success_ms := max (last_success_ms to) (last_success_ms from),
         last_error_ms := max (last_error_ms to) (last_error_ms from),
         last_error := or_option (last_error to) (last_error from),
         misbehavior_score := saturating_add (misbehavior_score to) (misbehavior_score from),
         banned_until_ms := max (banned_until_ms to) (banned_until_ms from),
         ban_reason := or_option (ban_reason to) (ban_reason from)\<rparr>)"

definition replace_peer_address :: "string \<Rightarrow> string \<Rightarrow> PeerBook \<Rightarrow> PeerBook" where
  "replace_peer_address from to book =
     (if from = to then (if bt_get book from = None then add_peer to book else book)
      else
        (case bt_get book from of
           None \<Rightarrow> add_peer to book
         | Some from_peer \<Rightarrow>
             (let rest = bt_remove from book;
                  to_peer = (case bt_get rest to of
                      Some p \<Rightarrow> p | None \<Rightarrow> peer_new to (direction from_peer)) in
              bt_insert to (merge_peer to_peer from_peer) rest)))"

definition remove_peer :: "string \<Rightarrow> PeerBook \<Rightarrow> bool \<times> PeerBook" where
  "remove_peer address book =
     (case bt_get book address of
        Some p \<Rightarrow> if direction p \<noteq> Inbound then (True, bt_remove address book) else (False, book)
      | None \<Rightarrow> (False, book))"

definition remove_never_connected_peer_if_other_connection_works_at ::
  "string \<Rightarrow> u64 \<Rightarrow> PeerBook \<Rightarrow> bool \<times> PeerBook" where
  "remove_never_connected_peer_if_other_connection_works_at address now book =
     (let removable = (case bt_get book address of
            Some p \<Rightarrow> direction p \<noteq> Inbound \<and> last_success_ms p = None | None \<Rightarrow> False) in
      if \<not> removable \<or> \<not> has_good_connection_at book now then (False, book)
      else (bt_get book address \<noteq> None, bt_remove address book))"

section \<open>Selections\<close>

definition is_connectable_peer :: "PeerBook \<Rightarrow> string \<Rightarrow> bool" where
  "is_connectable_peer book address =
     (case bt_get book address of Some p \<Rightarrow> direction p \<noteq> Inbound | None \<Rightarrow> False)"

definition connectable_addresses_at :: "PeerBook \<Rightarrow> u64 \<Rightarrow> string list" where
  "connectable_addresses_at book now =
     map peer_address (filter (\<lambda>p. direction p \<noteq> Inbound \<and> \<not> peer_is_banned_at p now) (bt_values book))"

definition outbound_addresses_at :: "PeerBook \<Rightarrow> u64 \<Rightarrow> string list" where
  "outbound_addresses_at book now =
     map peer_address (filter (\<lambda>p. direction p = Outbound \<and> \<not> peer_is_banned_at p now) (bt_values book))"

definition addresses_except :: "PeerBook \<Rightarrow> u64 \<Rightarrow> string \<Rightarrow> string list" where
  "addresses_except book clock excluded = filter (\<lambda>a. a \<noteq> excluded) (outbound_addresses_at book clock)"

text \<open>Latest success first, then the earliest error, then the address.\<close>

definition candidate_before :: "PeerInfo \<Rightarrow> PeerInfo \<Rightarrow> bool" where
  "candidate_before l r \<longleftrightarrow>
     last_success_ms r < last_success_ms l \<or>
     (last_success_ms l = last_success_ms r \<and>
       (last_error_ms l < last_error_ms r \<or>
        (last_error_ms l = last_error_ms r \<and> peer_address l \<le> peer_address r)))"

fun insert_candidate :: "PeerInfo \<Rightarrow> PeerInfo list \<Rightarrow> PeerInfo list" where
  "insert_candidate p [] = [p]"
| "insert_candidate p (q # qs) = (if candidate_before p q then p # q # qs else q # insert_candidate p qs)"

definition sort_candidates :: "PeerInfo list \<Rightarrow> PeerInfo list" where
  "sort_candidates ps = foldr insert_candidate ps []"

definition outbound_session_candidates_at :: "PeerBook \<Rightarrow> u64 \<Rightarrow> nat \<Rightarrow> string list" where
  "outbound_session_candidates_at book now max_discovered =
     outbound_addresses_at book now @
     map peer_address (take max_discovered (sort_candidates
       (filter (\<lambda>p. \<not> peer_is_banned_at p now) (discovered_peers book))))"

section \<open>Records of a session\<close>

definition with_peer :: "string \<Rightarrow> PeerDirection \<Rightarrow> (PeerInfo \<Rightarrow> PeerInfo) \<Rightarrow> PeerBook \<Rightarrow> PeerBook" where
  "with_peer address d f book =
     bt_insert address (f (case bt_get book address of Some p \<Rightarrow> p | None \<Rightarrow> peer_new address d)) book"

definition promoted :: "PeerInfo \<Rightarrow> PeerInfo" where
  "promoted p = (if direction p = Discovered then p\<lparr>direction := Outbound\<rparr> else p)"

definition succeeded :: "u64 \<Rightarrow> PeerInfo \<Rightarrow> PeerInfo" where
  "succeeded now p =
     (let p' = p\<lparr>last_contact_ms := Some now, last_success_ms := Some now\<rparr> in
      if \<not> peer_is_banned_at p' now then clear_misbehavior (p'\<lparr>last_error := None\<rparr>) else p')"

definition record_sent :: "string \<Rightarrow> u64 \<Rightarrow> u64 \<Rightarrow> PeerBook \<Rightarrow> PeerBook" where
  "record_sent address n now =
     with_peer address Outbound (\<lambda>p.
       let p1 = promoted p in succeeded now (p1\<lparr>messages_sent := messages_sent p1 + n\<rparr>))"

definition record_status :: "string \<Rightarrow> u64 \<Rightarrow> string \<Rightarrow> u64 \<Rightarrow> PeerBook \<Rightarrow> PeerBook" where
  "record_status address h tip now =
     with_peer address Outbound (\<lambda>p.
       succeeded now ((promoted p)\<lparr>last_known_height := Some h, last_known_tip_hash := Some tip\<rparr>))"

definition record_inbound_status :: "string \<Rightarrow> u64 \<Rightarrow> string \<Rightarrow> u64 \<Rightarrow> PeerBook \<Rightarrow> PeerBook" where
  "record_inbound_status address h tip now =
     with_peer address Inbound (\<lambda>p.
       succeeded now (p\<lparr>messages_received := messages_received p + 1, last_known_height := Some h,
         last_known_tip_hash := Some tip\<rparr>))"

definition record_hello :: "string \<Rightarrow> PeerDirection \<Rightarrow> ProtocolHello \<Rightarrow> PeerBook \<Rightarrow> PeerBook" where
  "record_hello address d hello = with_peer address d (\<lambda>p. p\<lparr>last_hello := Some hello\<rparr>)"

definition i64_clamp :: "int \<Rightarrow> int" where
  "i64_clamp v = max (- (2 ^ 63)) (min (2 ^ 63 - 1) v)"

text \<open>\<open>i64::abs\<close> in an optimised build: the least number is its own absolute value.\<close>

definition i64_abs :: "int \<Rightarrow> int" where
  "i64_abs v = (if v = - (2 ^ 63) then v else \<bar>v\<bar>)"

definition record_clock_observation :: "string \<Rightarrow> PeerDirection \<Rightarrow> u64 \<Rightarrow> u64 \<Rightarrow> PeerBook \<Rightarrow> PeerBook" where
  "record_clock_observation address d remote_time local_time book =
     (if remote_time = 0 then book
      else
        (let offset = i64_clamp (uint remote_time - uint local_time) in
         with_peer address d (\<lambda>p.
           p\<lparr>last_clock_offset_ms := Some offset,
             last_clock_offset_accepted := Some (i64_abs offset \<le> PEER_CLOCK_OFFSET_ACCEPTANCE_MS),
             last_clock_observed_ms := Some local_time\<rparr>) book))"

definition failed :: "u64 \<Rightarrow> string \<Rightarrow> PeerInfo \<Rightarrow> PeerInfo" where
  "failed now err p = p\<lparr>last_contact_ms := Some now, last_error_ms := Some now, last_error := Some err\<rparr>"

definition record_error :: "string \<Rightarrow> string \<Rightarrow> u64 \<Rightarrow> PeerBook \<Rightarrow> PeerBook" where
  "record_error address err now = with_peer address Outbound (failed now err)"

definition record_inbound_error :: "string \<Rightarrow> string \<Rightarrow> u64 \<Rightarrow> PeerBook \<Rightarrow> PeerBook" where
  "record_inbound_error address err now = with_peer address Inbound (failed now err)"

definition record_received :: "string \<Rightarrow> u64 \<Rightarrow> u64 \<Rightarrow> PeerBook \<Rightarrow> PeerBook" where
  "record_received address n now =
     with_peer address Inbound (\<lambda>p. succeeded now (p\<lparr>messages_received := messages_received p + n\<rparr>))"

definition record_misbehavior_with_direction ::
  "string \<Rightarrow> string \<Rightarrow> u64 \<Rightarrow> PeerDirection \<Rightarrow> PeerBook \<Rightarrow> PeerBook" where
  "record_misbehavior_with_direction address reason now d =
     with_peer address d (\<lambda>p.
       let p1 = (failed now reason p)\<lparr>misbehavior_score := saturating_add (misbehavior_score p) 1,
                  ban_reason := Some reason\<rparr> in
       if PEER_MISBEHAVIOR_BAN_SCORE \<le> misbehavior_score p1
       then p1\<lparr>banned_until_ms := Some (saturating_add now PEER_MISBEHAVIOR_BAN_MS)\<rparr> else p1)"

definition record_misbehavior_at :: "string \<Rightarrow> string \<Rightarrow> u64 \<Rightarrow> PeerBook \<Rightarrow> PeerBook" where
  "record_misbehavior_at address reason now = record_misbehavior_with_direction address reason now Outbound"

definition record_inbound_misbehavior :: "string \<Rightarrow> string \<Rightarrow> u64 \<Rightarrow> PeerBook \<Rightarrow> PeerBook" where
  "record_inbound_misbehavior address reason now = record_misbehavior_with_direction address reason now Inbound"

definition book_is_banned_at :: "PeerBook \<Rightarrow> string \<Rightarrow> u64 \<Rightarrow> bool" where
  "book_is_banned_at book address now =
     (case bt_get book address of Some p \<Rightarrow> peer_is_banned_at p now | None \<Rightarrow> False)"

section \<open>The network's time\<close>

definition median_i64 :: "int list \<Rightarrow> int option" where
  "median_i64 values = (if values = [] then None else Some (sort values ! (length values div 2)))"

definition clock_is_fresh :: "PeerInfo \<Rightarrow> u64 \<Rightarrow> bool" where
  "clock_is_fresh p now =
     (case last_clock_observed_ms p of
        Some observed \<Rightarrow> saturating_sub now observed \<le> PEER_CLOCK_OFFSET_STALE_MS | None \<Rightarrow> False)"

definition network_time_offset_ms_at :: "PeerBook \<Rightarrow> u64 \<Rightarrow> int option" where
  "network_time_offset_ms_at book now =
     median_i64 (List.map_filter last_clock_offset_ms
       (filter (\<lambda>p. \<not> peer_is_banned_at p now \<and> last_error p = None \<and>
          last_clock_offset_accepted p = Some True \<and> clock_is_fresh p now) (bt_values book)))"

definition adjusted_time_ms_at :: "PeerBook \<Rightarrow> u64 \<Rightarrow> u64" where
  "adjusted_time_ms_at book now =
     (case network_time_offset_ms_at book now of
        Some offset \<Rightarrow>
          if 0 \<le> offset then saturating_add now (word_of_int offset)
          else saturating_sub now (word_of_int (- offset))
      | None \<Rightarrow> now)"

definition bad_clock_peer_count_at :: "PeerBook \<Rightarrow> u64 \<Rightarrow> nat" where
  "bad_clock_peer_count_at book now =
     length (filter (\<lambda>p. \<not> peer_is_banned_at p now \<and> clock_is_fresh p now \<and>
       last_clock_offset_accepted p = Some False) (bt_values book))"
end
