(* ===== verification/Peer_Book_Facts.thy ===== *)
theory Peer_Book_Facts
  imports Peer_Book
begin

text \<open>
  What the operations on the peer book guarantee: entries sit under their own address, the number
  of discovered peers is bounded, accepted clock offsets are small, so that peers cannot move the
  node's time by more than the accepted offset, and a ban survives a change of address.
\<close>

section \<open>The invariant\<close>

definition clock_ok :: "PeerInfo \<Rightarrow> bool" where
  "clock_ok p \<longleftrightarrow> (last_clock_offset_accepted p = Some True \<longrightarrow>
     (\<exists>v. last_clock_offset_ms p = Some v \<and> \<bar>v\<bar> \<le> PEER_CLOCK_OFFSET_ACCEPTANCE_MS))"

definition entry_ok :: "string \<Rightarrow> PeerInfo \<Rightarrow> bool" where
  "entry_ok address p \<longleftrightarrow> peer_address p = address \<and> clock_ok p"

definition book_inv :: "PeerBook \<Rightarrow> bool" where
  "book_inv book \<longleftrightarrow> (\<forall>a p. bt_get book a = Some p \<longrightarrow> entry_ok a p) \<and>
     discovered_peer_count book \<le> MAX_DISCOVERED_PEERS"

definition found :: "PeerInfo \<Rightarrow> nat" where
  "found p = (if direction p = Discovered then 1 else 0)"

lemma discovered_sum: "discovered_peer_count book = bt_sum (\<lambda>_. found) book"
proof -
  have "length (filter P xs) = sum_list (map (\<lambda>x. if P x then 1 else 0) xs)" for P and xs :: "PeerInfo list"
    by (induction xs) auto
  then show ?thesis
    by (simp add: discovered_peer_count_def discovered_peers_def bt_values_def bt_sum_def found_def comp_def)
qed

lemma discovered_insert:
  "discovered_peer_count (bt_insert a p book) +
     (case bt_get book a of None \<Rightarrow> 0 | Some q \<Rightarrow> found q) = discovered_peer_count book + found p"
  unfolding discovered_sum by (rule bt_sum_insert)

lemma discovered_remove:
  "discovered_peer_count (bt_remove a book) + (case bt_get book a of None \<Rightarrow> 0 | Some q \<Rightarrow> found q) =
    discovered_peer_count book"
  unfolding discovered_sum by (rule bt_sum_remove)

lemma insert_inv:
  assumes "book_inv book" and "entry_ok a p"
    and "found p \<le> (case bt_get book a of None \<Rightarrow> 0 | Some q \<Rightarrow> found q) \<or>
      discovered_peer_count book < MAX_DISCOVERED_PEERS"
  shows "book_inv (bt_insert a p book)"
proof -
  have "found p \<le> 1" by (simp add: found_def)
  then have "discovered_peer_count (bt_insert a p book) \<le> MAX_DISCOVERED_PEERS"
    using discovered_insert [of a p book] assms(1,3) unfolding book_inv_def by linarith
  then show ?thesis using assms(1,2) by (auto simp: book_inv_def)
qed

lemma remove_inv: "book_inv book \<Longrightarrow> book_inv (bt_remove a book)"
  using discovered_remove [of a book] by (auto simp: book_inv_def split: if_splits)

lemma filtered_count: "length (filter Q (map g (filter P xs))) \<le> length (filter Q (map g xs))"
  by (induction xs) auto

lemma retain_inv:
  assumes "book_inv book"
  shows "book_inv (bt_retain P book)"
proof -
  have "discovered_peer_count (bt_retain P book) \<le> discovered_peer_count book"
    unfolding discovered_peer_count_def discovered_peers_def bt_values_def bt_retain_entries
    by (rule filtered_count)
  then show ?thesis using assms by (auto simp: book_inv_def bt_retain_get)
qed

lemma new_entry_ok [simp]: "entry_ok a (peer_new a d)" "direction (peer_new a d) = d" "found (peer_new a d) = (if d = Discovered then 1 else 0)"
  by (simp_all add: entry_ok_def clock_ok_def peer_new_def found_def)

section \<open>Updates of one entry\<close>

text \<open>
  The records of a session update one entry in place, creating it when it is missing. They keep
  the address, never turn a peer into a discovered one, and keep the clock data consistent.
\<close>

locale peer_update =
  fixes update :: "PeerInfo \<Rightarrow> PeerInfo"
  assumes keeps_address: "peer_address (update p) = peer_address p"
    and no_discovery: "direction (update p) = Discovered \<Longrightarrow> direction p = Discovered"
    and keeps_clock: "clock_ok p \<Longrightarrow> clock_ok (update p)"
begin

lemma update_entry: "entry_ok a p \<Longrightarrow> entry_ok a (update p)"
  by (simp add: entry_ok_def keeps_address keeps_clock)

lemma update_found: "found (update p) \<le> found p"
  using no_discovery by (auto simp: found_def)

lemma with_peer_inv:
  assumes "book_inv book" and "d \<noteq> Discovered"
  shows "book_inv (with_peer a d update book)"
proof (cases "bt_get book a")
  case None
  have "entry_ok a (update (peer_new a d))" by (rule update_entry) simp
  moreover have "found (update (peer_new a d)) \<le> 0" using update_found [of "peer_new a d"] assms(2) by simp
  ultimately show ?thesis using None assms(1) by (simp add: with_peer_def insert_inv)
next
  case (Some p)
  then have "entry_ok a p" using assms(1) by (simp add: book_inv_def)
  then show ?thesis using Some assms(1) update_entry update_found by (simp add: with_peer_def insert_inv)
qed

end

lemma succeeded_keeps [simp]:
  "peer_address (succeeded now p) = peer_address p" "direction (succeeded now p) = direction p"
  "clock_ok (succeeded now p) = clock_ok p"
  by (simp_all add: succeeded_def clear_misbehavior_def clock_ok_def Let_def)

lemma promoted_keeps [simp]:
  "peer_address (promoted p) = peer_address p" "direction (promoted p) \<noteq> Discovered"
  "clock_ok (promoted p) = clock_ok p"
  by (simp_all add: promoted_def clock_ok_def)

lemma clock_ok_updates [simp]:
  "clock_ok (p\<lparr>messages_sent := n\<rparr>) = clock_ok p" "clock_ok (p\<lparr>messages_received := n\<rparr>) = clock_ok p"
  "clock_ok (p\<lparr>last_known_height := h\<rparr>) = clock_ok p" "clock_ok (p\<lparr>last_known_tip_hash := t\<rparr>) = clock_ok p"
  "clock_ok (p\<lparr>last_hello := e\<rparr>) = clock_ok p" "clock_ok (p\<lparr>direction := d\<rparr>) = clock_ok p"
  "clock_ok (p\<lparr>last_contact_ms := c\<rparr>) = clock_ok p"
  by (simp_all add: clock_ok_def)

interpretation sent: peer_update "\<lambda>p. let p1 = promoted p in succeeded now (p1\<lparr>messages_sent := messages_sent p1 + n\<rparr>)"
  for n now
  by unfold_locales (simp_all add: Let_def)

interpretation status: peer_update "\<lambda>p. succeeded now ((promoted p)\<lparr>last_known_height := Some h, last_known_tip_hash := Some t\<rparr>)"
  for h t now
  by unfold_locales simp_all

interpretation inbound_status: peer_update "\<lambda>p. succeeded now (p\<lparr>messages_received := messages_received p + 1,
    last_known_height := Some h, last_known_tip_hash := Some t\<rparr>)" for h t now
  by unfold_locales simp_all

interpretation hello: peer_update "\<lambda>p. p\<lparr>last_hello := Some e\<rparr>" for e
  by unfold_locales simp_all

interpretation failure: peer_update "failed now err" for now err
  by unfold_locales (simp_all add: failed_def clock_ok_def)

interpretation received: peer_update "\<lambda>p. succeeded now (p\<lparr>messages_received := messages_received p + n\<rparr>)" for n now
  by unfold_locales simp_all

interpretation misbehaviour: peer_update "\<lambda>p.
       let p1 = (failed now reason p)\<lparr>misbehavior_score := saturating_add (misbehavior_score p) 1,
                  ban_reason := Some reason\<rparr> in
       if PEER_MISBEHAVIOR_BAN_SCORE \<le> misbehavior_score p1
       then p1\<lparr>banned_until_ms := Some (saturating_add now PEER_MISBEHAVIOR_BAN_MS)\<rparr> else p1" for reason now
  by unfold_locales (auto simp: failed_def clock_ok_def Let_def split: if_splits)

text \<open>
  A clock observation is consistent as long as the local clock is below \<open>2 ^ 63\<close>; from there on
  the offset can be the least number, whose absolute value is negative.
\<close>

lemma accepted_offset:
  fixes remote local_time :: u64
  assumes "uint local_time < 2 ^ 63"
    and "i64_abs (i64_clamp (uint remote - uint local_time)) \<le> PEER_CLOCK_OFFSET_ACCEPTANCE_MS"
  shows "\<bar>i64_clamp (uint remote - uint local_time)\<bar> \<le> PEER_CLOCK_OFFSET_ACCEPTANCE_MS"
proof -
  have "- (2 ^ 63) < max (- (2 ^ 63)) (min (2 ^ 63 - 1) v)" if "- (2 ^ 63) < v" for v :: int
    using that by simp
  moreover have "- (2 ^ 63) < uint remote - uint local_time" using assms(1) uint_ge_0 [of remote] by linarith
  ultimately have "- (2 ^ 63) < i64_clamp (uint remote - uint local_time)" unfolding i64_clamp_def by blast
  then show ?thesis using assms(2) unfolding i64_abs_def by (simp split: if_splits)
qed

lemma clock_update:
  fixes remote :: u64
  assumes "uint local_time < 2 ^ 63"
  shows "peer_update (\<lambda>p.
           p\<lparr>last_clock_offset_ms := Some (i64_clamp (uint remote - uint local_time)),
             last_clock_offset_accepted :=
               Some (i64_abs (i64_clamp (uint remote - uint local_time)) \<le> PEER_CLOCK_OFFSET_ACCEPTANCE_MS),
             last_clock_observed_ms := Some local_time\<rparr>)"
  using accepted_offset [OF assms] by unfold_locales (simp_all add: clock_ok_def)

lemma least_offset_accepted:
  assumes "remote \<noteq> 0" and "uint (remote :: u64) + 2 ^ 63 \<le> uint local_time"
  shows "map_option last_clock_offset_accepted
    (bt_get (record_clock_observation a d remote local_time book) a) = Some (Some True)"
proof -
  have "i64_clamp (uint remote - uint local_time) = - (2 ^ 63)" using assms(2) by (simp add: i64_clamp_def)
  then show ?thesis
    using assms(1) by (simp add: record_clock_observation_def with_peer_def i64_abs_def PEER_CLOCK_OFFSET_ACCEPTANCE_MS_def)
qed

section \<open>Discovery, pruning and renaming\<close>

lemma room_below_cap: "discovered_peer_has_room book a \<Longrightarrow> discovered_peer_count book < MAX_DISCOVERED_PEERS"
  by (auto simp: discovered_peer_has_room_def split: if_splits)

lemma book_entry: "book_inv book \<Longrightarrow> bt_get book a = Some p \<Longrightarrow> entry_ok a p"
  by (simp add: book_inv_def)

lemma entry_ok_updates [simp]:
  "entry_ok a (p\<lparr>direction := d\<rparr>) = entry_ok a p" "entry_ok a (p\<lparr>last_contact_ms := c\<rparr>) = entry_ok a p"
  by (simp_all add: entry_ok_def clock_ok_def)

lemma found_updates [simp]:
  "found (p\<lparr>direction := d\<rparr>) = (if d = Discovered then 1 else 0)" "found (p\<lparr>last_contact_ms := c\<rparr>) = found p"
  by (simp_all add: found_def)

lemma add_peer_inv: "book_inv book \<Longrightarrow> book_inv (add_peer a book)"
  by (auto simp: add_peer_def dest: book_entry intro!: insert_inv split: option.splits)

lemma add_discovered_inv:
  assumes "book_inv book"
  shows "book_inv (snd (add_discovered_peer a clock book))"
proof (cases "bt_get book a")
  case None
  then show ?thesis
    using assms room_below_cap [of book a]
    by (auto simp: add_discovered_peer_def intro!: insert_inv)
next
  case (Some p)
  then have "entry_ok a p" using assms by (rule book_entry [rotated])
  then show ?thesis
    using assms Some room_below_cap [of book a]
    by (auto simp: add_discovered_peer_def found_def intro!: insert_inv)
qed

lemma touch_inv:
  assumes "book_inv book" and "bt_get book a = Some p"
  shows "book_inv (bt_insert a (p\<lparr>last_contact_ms := t\<rparr>) book)"
  using assms book_entry [OF assms] by (intro insert_inv) simp_all

lemma add_discovered_at_inv:
  assumes "book_inv book"
  shows "book_inv (snd (add_discovered_peer_at a clock now book))"
  using add_discovered_inv [OF assms, of a clock] touch_inv
  by (auto simp: add_discovered_peer_at_def split: prod.splits option.splits)

lemma promote_peer_inv: "book_inv book \<Longrightarrow> book_inv (promote_discovered_peer a book)"
  by (auto simp: promote_discovered_peer_def dest: book_entry intro!: insert_inv split: option.splits)

lemma observe_inv: "book_inv book \<Longrightarrow> book_inv (observe_inbound_peer a book)"
  by (auto simp: observe_inbound_peer_def intro!: insert_inv)

lemma prune_inv: "book_inv book \<Longrightarrow> book_inv (snd (prune_stale_peers_at now i d book))"
  by (simp add: prune_stale_peers_at_def Let_def retain_inv)

lemma remove_peer_inv: "book_inv book \<Longrightarrow> book_inv (snd (remove_peer a book))"
  by (auto simp: remove_peer_def remove_inv split: option.splits)

lemma remove_never_connected_inv:
  "book_inv book \<Longrightarrow> book_inv (snd (remove_never_connected_peer_if_other_connection_works_at a now book))"
  by (simp add: remove_never_connected_peer_if_other_connection_works_at_def Let_def remove_inv)

lemma merge_keeps:
  "peer_address (merge_peer to from) = peer_address to"
  "clock_ok to \<Longrightarrow> clock_ok from \<Longrightarrow> clock_ok (merge_peer to from)"
  "found (merge_peer to from) \<le> max (found to) (found from)"
  by (auto simp: merge_peer_def clock_ok_def found_def Let_def)

lemma replace_inv:
  assumes inv: "book_inv book"
  shows "book_inv (replace_peer_address from to book)"
proof (cases "from = to \<or> bt_get book from = None")
  case True
  then show ?thesis using inv by (auto simp: replace_peer_address_def add_peer_inv split: option.splits)
next
  case False
  then obtain p where p: "bt_get book from = Some p" and "from \<noteq> to" by auto
  define rest where "rest = bt_remove from book"
  define q where "q = (case bt_get rest to of Some q \<Rightarrow> q | None \<Rightarrow> peer_new to (direction p))"
  have result: "replace_peer_address from to book = bt_insert to (merge_peer q p) rest"
    using p \<open>from \<noteq> to\<close> by (simp add: replace_peer_address_def rest_def q_def Let_def)
  have rest: "book_inv rest" unfolding rest_def by (rule remove_inv [OF inv])
  have ok: "entry_ok from p" "entry_ok to q"
    using book_entry [OF inv p] book_entry [OF rest] by (auto simp: q_def split: option.splits)
  have "found (merge_peer q p) \<le> (case bt_get rest to of None \<Rightarrow> 0 | Some q \<Rightarrow> found q) \<or>
      discovered_peer_count rest < MAX_DISCOVERED_PEERS"
  proof (cases "found p = 0")
    case True
    then have "found q = (case bt_get rest to of None \<Rightarrow> 0 | Some q \<Rightarrow> found q)"
      by (auto simp: q_def found_def split: option.splits if_splits)
    then show ?thesis using merge_keeps(3) [of q p] True by simp
  next
    case False
    then have "discovered_peer_count rest < discovered_peer_count book"
      using discovered_remove [of "from" book] p by (simp add: rest_def)
    then show ?thesis using inv by (simp add: book_inv_def)
  qed
  then show ?thesis
    unfolding result using rest ok merge_keeps(1,2) by (intro insert_inv) (simp_all add: entry_ok_def)
qed

section \<open>Reachable books\<close>

inductive peer_step :: "PeerBook \<Rightarrow> PeerBook \<Rightarrow> bool" where
  add_step: "peer_step book (add_peer a book)"
| discover_step: "peer_step book (snd (add_discovered_peer a clock book))"
| discover_at_step: "peer_step book (snd (add_discovered_peer_at a clock now book))"
| promote_step: "peer_step book (promote_discovered_peer a book)"
| prune_step: "peer_step book (snd (prune_stale_peers_at now inbound_age discovered_age book))"
| observe_step: "peer_step book (observe_inbound_peer a book)"
| rename_step: "peer_step book (replace_peer_address old new book)"
| remove_step: "peer_step book (snd (remove_peer a book))"
| drop_step: "peer_step book (snd (remove_never_connected_peer_if_other_connection_works_at a now book))"
| sent_step: "peer_step book (record_sent a n now book)"
| status_step: "peer_step book (record_status a h t now book)"
| inbound_status_step: "peer_step book (record_inbound_status a h t now book)"
| hello_step: "d \<noteq> Discovered \<Longrightarrow> peer_step book (record_hello a d e book)"
| clock_step: "d \<noteq> Discovered \<Longrightarrow> uint local_time < 2 ^ 63 \<Longrightarrow>
    peer_step book (record_clock_observation a d remote local_time book)"
| error_step: "peer_step book (record_error a err now book)"
| inbound_error_step: "peer_step book (record_inbound_error a err now book)"
| received_step: "peer_step book (record_received a n now book)"
| misbehavior_step: "d \<noteq> Discovered \<Longrightarrow> peer_step book (record_misbehavior_with_direction a reason now d book)"

inductive_cases peer_stepE: "peer_step book book'"

lemma clock_inv:
  assumes "book_inv book" and "d \<noteq> Discovered" and "uint local_time < 2 ^ 63"
  shows "book_inv (record_clock_observation a d remote local_time book)"
  using peer_update.with_peer_inv [OF clock_update [OF assms(3), of remote] assms(1,2)] assms(1)
  by (simp add: record_clock_observation_def Let_def)

lemma step_keeps_book: "peer_step book book' \<Longrightarrow> book_inv book \<Longrightarrow> book_inv book'"
proof (induction rule: peer_step.induct)
  case (sent_step book a n now)
  then show ?case unfolding record_sent_def by (rule sent.with_peer_inv) simp
next
  case (status_step book a h t now)
  then show ?case unfolding record_status_def by (rule status.with_peer_inv) simp
next
  case (inbound_status_step book a h t now)
  then show ?case unfolding record_inbound_status_def by (rule inbound_status.with_peer_inv) simp
next
  case (hello_step d book a e)
  then show ?case unfolding record_hello_def by (intro hello.with_peer_inv)
next
  case (error_step book a err now)
  then show ?case unfolding record_error_def by (rule failure.with_peer_inv) simp
next
  case (inbound_error_step book a err now)
  then show ?case unfolding record_inbound_error_def by (rule failure.with_peer_inv) simp
next
  case (received_step book a n now)
  then show ?case unfolding record_received_def by (rule received.with_peer_inv) simp
next
  case (misbehavior_step d book a reason now)
  then show ?case unfolding record_misbehavior_with_direction_def by (intro misbehaviour.with_peer_inv)
qed (simp_all add: add_peer_inv add_discovered_inv add_discovered_at_inv promote_peer_inv prune_inv observe_inv
  replace_inv remove_peer_inv remove_never_connected_inv clock_inv)

lemma reachable_book:
  assumes "peer_step\<^sup>*\<^sup>* (from_addresses as) book"
  shows "book_inv book"
proof -
  have "book_inv bt_empty" by (simp add: book_inv_def discovered_sum)
  then have base: "book_inv (from_addresses as)"
    unfolding from_addresses_def by (induction as rule: rev_induct) (simp_all add: add_peer_inv)
  show ?thesis
    using assms base by (induction rule: rtranclp_induct) (auto intro: step_keeps_book)
qed
section \<open>The network's time\<close>

text \<open>Peers move the node's time by at most the accepted offset, however many of them agree.\<close>

lemma offset_bound:
  assumes "book_inv book" and "network_time_offset_ms_at book now = Some v"
  shows "\<bar>v\<bar> \<le> PEER_CLOCK_OFFSET_ACCEPTANCE_MS"
proof -
  define vs where "vs = List.map_filter last_clock_offset_ms
    (filter (\<lambda>p. \<not> peer_is_banned_at p now \<and> last_error p = None \<and>
      last_clock_offset_accepted p = Some True \<and> clock_is_fresh p now) (bt_values book))"
  have "vs \<noteq> []" and v: "v = sort vs ! (length vs div 2)"
    using assms(2) by (auto simp: network_time_offset_ms_at_def median_i64_def vs_def split: if_splits)
  then have "v \<in> set (sort vs)" by (simp only: v) (rule nth_mem, simp)
  then obtain p k where k: "bt_get book k = Some p" and p: "last_clock_offset_accepted p = Some True"
      "last_clock_offset_ms p = Some v"
    by (auto simp: vs_def List.map_filter_def bt_values_iff)
  show ?thesis using book_entry [OF assms(1) k] p by (simp add: entry_ok_def clock_ok_def)
qed

lemma adjusted_bound:
  assumes "book_inv book"
  shows "\<bar>int (unat (adjusted_time_ms_at book now)) - int (unat now)\<bar> \<le> PEER_CLOCK_OFFSET_ACCEPTANCE_MS"
proof (cases "network_time_offset_ms_at book now")
  case None
  then show ?thesis by (simp add: adjusted_time_ms_at_def PEER_CLOCK_OFFSET_ACCEPTANCE_MS_def)
next
  case (Some v)
  have v: "\<bar>v\<bar> \<le> 600000"
    using offset_bound [OF assms Some] by (simp add: PEER_CLOCK_OFFSET_ACCEPTANCE_MS_def)
  have small: "unat (word_of_int w :: u64) = nat w" if "0 \<le> w" "w \<le> 600000" for w
    using that by (simp add: unat_eq_nat_uint uint_word_of_int_eq take_bit_int_eq_self)
  have cap: "unat now \<le> 18446744073709551615" using unat_less_power [of now] by simp
  show ?thesis
  proof (cases "0 \<le> v")
    case True
    then have "unat (adjusted_time_ms_at book now) = min (unat now + nat v) 18446744073709551615"
      using v by (simp add: adjusted_time_ms_at_def Some unat_saturating_add small)
    moreover have "\<bar>int (min (n + nat v) c) - int n\<bar> \<le> 600000" if "n \<le> c" for n c
      using v True that by (cases "n + nat v \<le> c") (simp, linarith)
    ultimately show ?thesis using cap unfolding PEER_CLOCK_OFFSET_ACCEPTANCE_MS_def by metis
  next
    case False
    then have "unat (adjusted_time_ms_at book now) = unat now - nat (- v)"
      using v by (simp add: adjusted_time_ms_at_def Some unat_saturating_sub small del: of_int_minus)
    moreover have "\<bar>int (n - nat (- v)) - int n\<bar> \<le> 600000" for n
      using v False by (cases "nat (- v) \<le> n") (simp_all add: of_nat_diff)
    ultimately show ?thesis unfolding PEER_CLOCK_OFFSET_ACCEPTANCE_MS_def by metis
  qed
qed

section \<open>Bans\<close>

text \<open>
  A successful exchange does not lift a ban that still runs, and an address that is replaced
  takes its ban along.
\<close>

lemma ban_outlives_success:
  "peer_is_banned_at p now \<Longrightarrow> banned_until_ms (succeeded now p) = banned_until_ms p"
  by (simp add: succeeded_def peer_is_banned_at_def Let_def)

lemma ban_follows_address:
  assumes "bt_get book old = Some p" and "banned_until_ms p = Some t" and "old \<noteq> new"
  shows "\<exists>q u. bt_get (replace_peer_address old new book) new = Some q \<and> banned_until_ms q = Some u \<and> t \<le> u"
proof -
  have "\<exists>u. max a (Some t) = Some u \<and> t \<le> u" for a :: "u64 option"
    by (cases a) (auto simp: max_def)
  then show ?thesis
    using assms by (simp add: replace_peer_address_def merge_peer_def Let_def)
qed

lemma ban_after_score:
  assumes "bt_get book a = Some p" and "PEER_MISBEHAVIOR_BAN_SCORE \<le> saturating_add (misbehavior_score p) 1"
    and "now < saturating_add now PEER_MISBEHAVIOR_BAN_MS"
  shows "book_is_banned_at (record_misbehavior_with_direction a reason now d book) a now"
  using assms by (simp add: record_misbehavior_with_direction_def with_peer_def book_is_banned_at_def
    peer_is_banned_at_def failed_def Let_def)

text \<open>Banned peers are neither dialled nor pruned.\<close>

lemma banned_not_dialled:
  assumes "book_inv book" and "book_is_banned_at book a now"
  shows "a \<notin> set (connectable_addresses_at book now)"
proof
  assume "a \<in> set (connectable_addresses_at book now)"
  then obtain k p where k: "bt_get book k = Some p" and p: "peer_address p = a" "\<not> peer_is_banned_at p now"
    by (auto simp: connectable_addresses_at_def bt_values_iff)
  then have "k = a" using assms(1) by (simp add: book_inv_def entry_ok_def)
  then show False using k p(2) assms(2) by (simp add: book_is_banned_at_def)
qed

lemma banned_kept:
  assumes "book_is_banned_at book a now"
  shows "bt_get (snd (prune_stale_peers_at now i d book)) a = bt_get book a"
  using assms by (auto simp: book_is_banned_at_def prune_stale_peers_at_def Let_def bt_retain_get
      prune_stale_inbound_peer_def prune_stale_discovered_peer_def split: option.splits)

section \<open>Limits on discovery\<close>

text \<open>
  A discovered peer is admitted only while its address has fewer than the allowed discovered
  peers, so one host cannot fill the book; no bound holds for peers that come in by themselves.
\<close>

lemma discovery_limits:
  assumes "add_discovered_peer a clock book = (True, book')" and "bt_get book a = None"
  shows "\<exists>s. parse_socket_addr a = Some s \<and>
    count_discovered (\<lambda>e. socket_ip e = socket_ip s) book < MAX_DISCOVERED_PEERS_PER_IP \<and>
    count_discovered (\<lambda>e. same_discovery_group e s) book < 16 \<and>
    discovered_peer_count book < MAX_DISCOVERED_PEERS"
  using assms
  by (auto simp: add_discovered_peer_def discovered_peer_has_room_def Let_def not_le
      MAX_DISCOVERED_PEERS_PER_IPV4_PREFIX_def MAX_DISCOVERED_PEERS_PER_IPV6_PREFIX_def
      split: if_splits option.splits SocketAddr.splits)

lemma peer_count_sum: "peer_count book = bt_sum (\<lambda>_ _. 1) book"
proof -
  have "length xs = sum_list (map (\<lambda>_. 1) xs)" for xs :: "(string \<times> PeerInfo) list" by (induction xs) auto
  then show ?thesis by (simp add: peer_count_def bt_sum_def)
qed

lemma contact_exceeds_cap:
  assumes "MAX_TOTAL_PEERS \<le> peer_count book" and "bt_get book a = None"
  shows "MAX_TOTAL_PEERS < peer_count (record_inbound_status a h t now book)"
  using assms by (simp add: record_inbound_status_def with_peer_def peer_count_sum bt_sum_insert_None)

lemma full_book_refuses:
  "MAX_TOTAL_PEERS \<le> peer_count book \<Longrightarrow> bt_get book a = None \<Longrightarrow> add_peer a book = book"
  by (simp add: add_peer_def)
end
