(* ===== verification/Inbound_Limiter.thy ===== *)
theory Inbound_Limiter
  imports Peer_Book
begin

text \<open>
  The limiter of inbound sessions (\<open>adapters/p2p/inbound_limiter.rs\<close>): at most 64 sessions are
  open, 8 from one IP address, and one address opens at most 24 sessions in ten seconds. A session
  holds a permit that releases its place when it is dropped; the step relation of the last section
  keeps the outstanding permits and the accepted connections beside the limiter, and the invariant
  says that the limiter's counters are exactly those of the permits.
\<close>

section \<open>Addresses in order\<close>

text \<open>IPv4 addresses come first; addresses of one kind are ordered by their octets or segments.\<close>

fun ip_key :: "IpAddr \<Rightarrow> nat list" where
  "ip_key (IpV4 octets) = 0 # map unat octets"
| "ip_key (IpV6 segments) = 1 # map unat segments"

lemma ip_key_inject [simp]: "ip_key a = ip_key b \<longleftrightarrow> a = b"
  by (cases a; cases b) (simp_all add: inj_map_eq_map [OF injI, OF unsigned_word_eqI])

instantiation IpAddr :: linorder
begin

definition less_eq_IpAddr :: "IpAddr \<Rightarrow> IpAddr \<Rightarrow> bool" where
  "a \<le> b \<longleftrightarrow> ip_key a \<le> ip_key b"

definition less_IpAddr :: "IpAddr \<Rightarrow> IpAddr \<Rightarrow> bool" where
  "a < b \<longleftrightarrow> ip_key a < ip_key b"

instance
  by standard (auto simp: less_eq_IpAddr_def less_IpAddr_def less_le_not_le)

end

section \<open>The limiter\<close>

definition MAX_INBOUND_SESSIONS :: nat where "MAX_INBOUND_SESSIONS = 64"
definition MAX_INBOUND_SESSIONS_PER_IP :: nat where "MAX_INBOUND_SESSIONS_PER_IP = 8"
definition MAX_INBOUND_ACCEPTS_PER_IP_PER_WINDOW :: nat where "MAX_INBOUND_ACCEPTS_PER_IP_PER_WINDOW = 24"
definition INBOUND_ACCEPT_RATE_WINDOW_MS :: u64 where "INBOUND_ACCEPT_RATE_WINDOW_MS = 10000"

record InboundPeerLimit =
  lim_active :: nat
  accepted_at_ms :: "u64 list"

record InboundConnectionLimiter =
  icl_active :: nat
  icl_peers :: "(IpAddr, InboundPeerLimit) btree_map"

datatype InboundSessionRejection = GlobalActive | PeerActive | PeerRate

fun rejection_label :: "InboundSessionRejection \<Rightarrow> string" where
  "rejection_label GlobalActive = ''global active inbound session limit''"
| "rejection_label PeerActive = ''per-IP active inbound session limit''"
| "rejection_label PeerRate = ''per-IP inbound accept rate limit''"

definition limiter_default :: InboundConnectionLimiter where
  "limiter_default = \<lparr>icl_active = 0, icl_peers = bt_empty\<rparr>"

definition peer_limit_default :: InboundPeerLimit where
  "peer_limit_default = \<lparr>lim_active = 0, accepted_at_ms = []\<rparr>"

definition prune_peer_accepts :: "u64 \<Rightarrow> InboundPeerLimit \<Rightarrow> InboundPeerLimit" where
  "prune_peer_accepts now p =
     p\<lparr>accepted_at_ms :=
         dropWhile (\<lambda>t. INBOUND_ACCEPT_RATE_WINDOW_MS \<le> saturating_sub now t) (accepted_at_ms p)\<rparr>"

definition bt_map_values :: "('v \<Rightarrow> 'v) \<Rightarrow> ('k::linorder, 'v) btree_map \<Rightarrow> ('k, 'v) btree_map" where
  "bt_map_values f m = bt_of_list (map (\<lambda>e. (fst e, f (snd e))) (bt_entries m))"

definition prune_stale_accepts :: "u64 \<Rightarrow> InboundConnectionLimiter \<Rightarrow> InboundConnectionLimiter" where
  "prune_stale_accepts now l =
     l\<lparr>icl_peers := bt_retain (\<lambda>_ p. 0 < lim_active p \<or> accepted_at_ms p \<noteq> [])
         (bt_map_values (prune_peer_accepts now) (icl_peers l))\<rparr>"

definition try_acquire ::
  "IpAddr \<Rightarrow> u64 \<Rightarrow> InboundConnectionLimiter \<Rightarrow> (InboundSessionRejection + unit) \<times> InboundConnectionLimiter" where
  "try_acquire ip now l0 =
     (let l = prune_stale_accepts now l0 in
      if MAX_INBOUND_SESSIONS \<le> icl_active l then (Inl GlobalActive, l)
      else
        (let peer = prune_peer_accepts now
               (case bt_get (icl_peers l) ip of Some p \<Rightarrow> p | None \<Rightarrow> peer_limit_default);
             l' = l\<lparr>icl_peers := bt_insert ip peer (icl_peers l)\<rparr> in
         if MAX_INBOUND_SESSIONS_PER_IP \<le> lim_active peer then (Inl PeerActive, l')
         else if MAX_INBOUND_ACCEPTS_PER_IP_PER_WINDOW \<le> length (accepted_at_ms peer) then (Inl PeerRate, l')
         else
           (Inr (),
            l'\<lparr>icl_active := icl_active l + 1,
              icl_peers := bt_insert ip
                (peer\<lparr>lim_active := lim_active peer + 1, accepted_at_ms := accepted_at_ms peer @ [now]\<rparr>)
                (icl_peers l')\<rparr>)))"

definition release :: "IpAddr \<Rightarrow> InboundConnectionLimiter \<Rightarrow> InboundConnectionLimiter" where
  "release ip l0 =
     (let l = (if 0 < icl_active l0 then l0\<lparr>icl_active := icl_active l0 - 1\<rparr> else l0) in
      case bt_get (icl_peers l) ip of
        Some p \<Rightarrow>
          if 0 < lim_active p then l\<lparr>icl_peers := bt_insert ip (p\<lparr>lim_active := lim_active p - 1\<rparr>) (icl_peers l)\<rparr>
          else l
      | None \<Rightarrow> l)"

section \<open>What a lookup finds\<close>

lemma bt_map_values_get [simp]: "bt_get (bt_map_values f m) k = map_option f (bt_get m k)"
proof -
  have entries: "bt_entries (bt_map_values f m) = map (\<lambda>e. (fst e, f (snd e))) (bt_entries m)"
    unfolding bt_map_values_def
    by (rule bt_of_list_sorted) (use bt_strict [of m] in \<open>simp add: strict_keys_def comp_def\<close>)
  have "map_of (map (\<lambda>e. (fst e, f (snd e))) es) k = map_option f (map_of es k)" for es
    by (induction es) auto
  then show ?thesis by (simp add: bt_get.rep_eq entries)
qed

text \<open>A missing entry stands for an address without sessions and without recent connections.\<close>

definition peer_of :: "InboundConnectionLimiter \<Rightarrow> IpAddr \<Rightarrow> InboundPeerLimit" where
  "peer_of l ip = (case bt_get (icl_peers l) ip of Some p \<Rightarrow> p | None \<Rightarrow> peer_limit_default)"

lemma prune_default [simp]: "prune_peer_accepts now peer_limit_default = peer_limit_default"
  by (simp add: prune_peer_accepts_def peer_limit_default_def)

lemma prune_prune [simp]: "prune_peer_accepts now (prune_peer_accepts now p) = prune_peer_accepts now p"
proof -
  have "dropWhile P (dropWhile P xs) = dropWhile P xs" for P and xs :: "u64 list" by (induction xs) auto
  then show ?thesis by (simp add: prune_peer_accepts_def)
qed

lemma peer_of_prune [simp]:
  "peer_of (prune_stale_accepts now l) ip = prune_peer_accepts now (peer_of l ip)"
  "icl_active (prune_stale_accepts now l) = icl_active l"
proof -
  show "peer_of (prune_stale_accepts now l) ip = prune_peer_accepts now (peer_of l ip)"
  proof (cases "bt_get (icl_peers l) ip")
    case None
    then have "bt_get (icl_peers (prune_stale_accepts now l)) ip = None"
      by (cases "bt_get (icl_peers (prune_stale_accepts now l)) ip")
        (simp_all add: prune_stale_accepts_def bt_retain_get)
    then show ?thesis using None by (simp add: peer_of_def)
  next
    case (Some p)
    show ?thesis
    proof (cases "bt_get (icl_peers (prune_stale_accepts now l)) ip")
      case None
      then have "\<not> (0 < lim_active (prune_peer_accepts now p) \<or> accepted_at_ms (prune_peer_accepts now p) \<noteq> [])"
        using Some bt_retain_get [of "\<lambda>_ p. 0 < lim_active p \<or> accepted_at_ms p \<noteq> []"
            "bt_map_values (prune_peer_accepts now) (icl_peers l)" ip "prune_peer_accepts now p"]
        by (auto simp: prune_stale_accepts_def)
      then have "prune_peer_accepts now p = peer_limit_default"
        by (simp add: peer_limit_default_def)
      then show ?thesis using None Some by (simp add: peer_of_def)
    next
      case (Some q)
      then have "q = prune_peer_accepts now p"
        using \<open>bt_get (icl_peers l) ip = Some p\<close> by (simp add: prune_stale_accepts_def bt_retain_get)
      then show ?thesis using Some \<open>bt_get (icl_peers l) ip = Some p\<close> by (simp add: peer_of_def)
    qed
  qed
qed (simp add: prune_stale_accepts_def)

lemma peer_of_insert [simp]:
  "peer_of (l\<lparr>icl_peers := bt_insert ip p (icl_peers l)\<rparr>) ip' = (if ip' = ip then p else peer_of l ip')"
  by (simp add: peer_of_def)

lemma peer_of_active [simp]: "peer_of (l\<lparr>icl_active := n\<rparr>) ip = peer_of l ip"
  by (simp add: peer_of_def)

lemma peer_of_both [simp]:
  "peer_of (l\<lparr>icl_active := n, icl_peers := bt_insert ip p (icl_peers l)\<rparr>) ip' = (if ip' = ip then p else peer_of l ip')"
  by (simp add: peer_of_def)
section \<open>Sessions\<close>

record inbound =
  limiter :: InboundConnectionLimiter
  permits :: "IpAddr list"
  accepted :: "(IpAddr \<times> u64) list"
  clock :: u64

inductive inbound_step :: "inbound \<Rightarrow> inbound \<Rightarrow> bool" where
  accept_step: "clock s \<le> now \<Longrightarrow> try_acquire ip now (limiter s) = (Inr (), l) \<Longrightarrow>
    inbound_step s (s\<lparr>limiter := l, permits := ip # permits s, accepted := accepted s @ [(ip, now)], clock := now\<rparr>)"
| reject_step: "clock s \<le> now \<Longrightarrow> try_acquire ip now (limiter s) = (Inl e, l) \<Longrightarrow>
    inbound_step s (s\<lparr>limiter := l, clock := now\<rparr>)"
| drop_step: "ip \<in> set (permits s) \<Longrightarrow>
    inbound_step s (s\<lparr>limiter := release ip (limiter s), permits := remove1 ip (permits s)\<rparr>)"

definition inbound_start :: inbound where
  "inbound_start = \<lparr>limiter = limiter_default, permits = [], accepted = [], clock = 0\<rparr>"

definition recent :: "u64 \<Rightarrow> u64 list \<Rightarrow> u64 list" where
  "recent now ts = filter (\<lambda>t. saturating_sub now t < INBOUND_ACCEPT_RATE_WINDOW_MS) ts"

definition accepts_of :: "IpAddr \<Rightarrow> (IpAddr \<times> u64) list \<Rightarrow> u64 list" where
  "accepts_of ip log = map snd (filter (\<lambda>e. fst e = ip) log)"

definition peer_inv :: "inbound \<Rightarrow> IpAddr \<Rightarrow> InboundPeerLimit \<Rightarrow> bool" where
  "peer_inv s ip p \<longleftrightarrow>
     lim_active p = count_list (permits s) ip \<and> lim_active p \<le> MAX_INBOUND_SESSIONS_PER_IP \<and>
     length (accepted_at_ms p) \<le> MAX_INBOUND_ACCEPTS_PER_IP_PER_WINDOW \<and>
     sorted (accepted_at_ms p) \<and> (\<forall>t\<in>set (accepted_at_ms p). t \<le> clock s) \<and>
     recent (clock s) (accepts_of ip (accepted s)) = recent (clock s) (accepted_at_ms p)"

definition inbound_inv :: "inbound \<Rightarrow> bool" where
  "inbound_inv s \<longleftrightarrow>
     icl_active (limiter s) = length (permits s) \<and> length (permits s) \<le> MAX_INBOUND_SESSIONS \<and>
     (\<forall>ip. peer_inv s ip (peer_of (limiter s) ip))"

section \<open>Pruning keeps what is recent\<close>

lemma sub_mono: "(a :: u64) \<le> b \<Longrightarrow> saturating_sub now b \<le> saturating_sub now a"
  by (simp add: word_le_nat_alt unat_saturating_sub)

lemma sub_mono_now: "(now :: u64) \<le> later \<Longrightarrow> saturating_sub now t \<le> saturating_sub later t"
  by (simp add: word_le_nat_alt unat_saturating_sub)

lemma recent_later: "now \<le> later \<Longrightarrow> recent later (recent now ts) = recent later ts"
  unfolding recent_def by (induction ts) (auto dest: sub_mono_now order.strict_trans1)

lemma drop_stale:
  "sorted ts \<Longrightarrow> dropWhile (\<lambda>t. INBOUND_ACCEPT_RATE_WINDOW_MS \<le> saturating_sub now t) ts = recent now ts"
proof (induction ts)
  case (Cons t ts)
  show ?case
  proof (cases "INBOUND_ACCEPT_RATE_WINDOW_MS \<le> saturating_sub now t")
    case True
    then show ?thesis using Cons by (simp add: recent_def)
  next
    case False
    then have "saturating_sub now u < INBOUND_ACCEPT_RATE_WINDOW_MS" if "u \<in> set (t # ts)" for u
      using that Cons.prems sub_mono [of t u now] by (auto simp: not_le intro: order.strict_trans1)
    then show ?thesis using False unfolding recent_def by (simp add: filter_id_conv)
  qed
qed (simp add: recent_def)

lemma peer_prune:
  assumes "peer_inv s ip p" and "clock s \<le> now"
  shows "peer_inv (s\<lparr>clock := now\<rparr>) ip (prune_peer_accepts now p)"
    and "accepted_at_ms (prune_peer_accepts now p) = recent now (accepted_at_ms p)"
proof -
  show eq: "accepted_at_ms (prune_peer_accepts now p) = recent now (accepted_at_ms p)"
    using assms(1) drop_stale by (simp add: prune_peer_accepts_def peer_inv_def)
  have agree: "recent now (accepts_of ip (accepted s)) = recent now (accepted_at_ms p)"
    using assms(1) recent_later [OF assms(2), of "accepts_of ip (accepted s)"]
      recent_later [OF assms(2), of "accepted_at_ms p"]
    by (simp add: peer_inv_def)
  have shorter: "length (recent now (accepted_at_ms p)) \<le> length (accepted_at_ms p)" by (simp add: recent_def)
  have "sorted (recent now (accepted_at_ms p))"
    using assms(1) by (simp add: recent_def peer_inv_def sorted_wrt_filter)
  moreover have "t \<le> now" if "t \<in> set (recent now (accepted_at_ms p))" for t
    using that assms by (auto simp: recent_def peer_inv_def intro: order.trans)
  moreover have "recent now (recent now (accepted_at_ms p)) = recent now (accepted_at_ms p)" by (simp add: recent_def)
  moreover have "lim_active (prune_peer_accepts now p) = lim_active p" by (simp add: prune_peer_accepts_def)
  ultimately show "peer_inv (s\<lparr>clock := now\<rparr>) ip (prune_peer_accepts now p)"
    using assms(1) agree order.trans [OF shorter, of MAX_INBOUND_ACCEPTS_PER_IP_PER_WINDOW]
    unfolding peer_inv_def eq by simp
qed

section \<open>The steps\<close>

text \<open>A request is refused exactly when one of the three limits is reached.\<close>

lemma acquire_cases:
  fixes ip now l
  defines "p \<equiv> prune_peer_accepts now (peer_of l ip)"
  shows "fst (try_acquire ip now l) =
    (if MAX_INBOUND_SESSIONS \<le> icl_active l then Inl GlobalActive
     else if MAX_INBOUND_SESSIONS_PER_IP \<le> lim_active p then Inl PeerActive
     else if MAX_INBOUND_ACCEPTS_PER_IP_PER_WINDOW \<le> length (accepted_at_ms p) then Inl PeerRate
     else Inr ())"
  using peer_of_prune(1) [of now l ip]
  by (simp add: try_acquire_def Let_def p_def flip: peer_of_def)

lemma acquire_state:
  assumes "try_acquire ip now l = (r, l')"
  shows "icl_active l' = (if r = Inr () then icl_active l + 1 else icl_active l)"
    and "peer_of l' ip' =
      (let p = prune_peer_accepts now (peer_of l ip') in
       if r = Inr () \<and> ip' = ip then p\<lparr>lim_active := lim_active p + 1, accepted_at_ms := accepted_at_ms p @ [now]\<rparr>
       else p)"
  using assms peer_of_prune(1) [of now l ip]
  by (auto simp: try_acquire_def Let_def simp flip: peer_of_def split: if_splits)

lemma acquire_ok:
  assumes "try_acquire ip now l = (Inr (), l')"
  shows "icl_active l < MAX_INBOUND_SESSIONS"
    and "lim_active (prune_peer_accepts now (peer_of l ip)) < MAX_INBOUND_SESSIONS_PER_IP"
    and "length (accepted_at_ms (prune_peer_accepts now (peer_of l ip))) < MAX_INBOUND_ACCEPTS_PER_IP_PER_WINDOW"
  using assms acquire_cases [of ip now l] by (auto split: if_splits)

lemma release_state:
  "icl_active (release ip l) = icl_active l - 1"
  "peer_of (release ip l) ip' =
    (if ip' = ip then (peer_of l ip)\<lparr>lim_active := lim_active (peer_of l ip) - 1\<rparr> else peer_of l ip')"
  by (auto simp: release_def Let_def peer_of_def peer_limit_default_def split: option.splits)

lemma recent_now: "recent now (ts @ [now]) = recent now ts @ [now]"
  by (simp add: recent_def saturating_sub_def INBOUND_ACCEPT_RATE_WINDOW_MS_def)

lemma accepted_peer:
  assumes p: "peer_inv (s\<lparr>clock := now\<rparr>) ip p"
    and room: "lim_active p < MAX_INBOUND_SESSIONS_PER_IP"
      "length (accepted_at_ms p) < MAX_INBOUND_ACCEPTS_PER_IP_PER_WINDOW"
  shows "peer_inv (s\<lparr>limiter := l, permits := ip # permits s, accepted := accepted s @ [(ip, now)], clock := now\<rparr>) ip
    (p\<lparr>lim_active := lim_active p + 1, accepted_at_ms := accepted_at_ms p @ [now]\<rparr>)"
  using p room by (auto simp: peer_inv_def sorted_append recent_now accepts_of_def)

lemma other_peer:
  assumes "peer_inv (s\<lparr>clock := now\<rparr>) ip' p" and "ip' \<noteq> ip"
  shows "peer_inv (s\<lparr>limiter := l, permits := ip # permits s, accepted := accepted s @ [(ip, now)], clock := now\<rparr>) ip' p"
  using assms by (auto simp: peer_inv_def accepts_of_def)

lemma count_remove1: "count_list (remove1 a xs) b = (if b = a then count_list xs b - 1 else count_list xs b)"
  by (induction xs) (auto simp: count_list_0_iff)

lemma step_keeps_inbound: "inbound_step s s' \<Longrightarrow> inbound_inv s \<Longrightarrow> inbound_inv s'"
proof (induction rule: inbound_step.induct)
  case (accept_step s now ip l)
  have room: "length (permits s) < MAX_INBOUND_SESSIONS"
    using acquire_ok(1) [OF accept_step(2)] accept_step(3) by (simp add: inbound_inv_def)
  have pruned: "peer_inv (s\<lparr>clock := now\<rparr>) ip' (prune_peer_accepts now (peer_of (limiter s) ip'))" for ip'
    using accept_step(1,3) peer_prune(1) by (simp add: inbound_inv_def)
  have "peer_inv (s\<lparr>limiter := l, permits := ip # permits s, accepted := accepted s @ [(ip, now)], clock := now\<rparr>) ip'
      (peer_of l ip')" for ip'
    using accepted_peer [OF pruned acquire_ok(2,3) [OF accept_step(2)]] other_peer [OF pruned]
    by (cases "ip' = ip") (simp_all add: acquire_state(2) [OF accept_step(2)] Let_def)
  then show ?case
    using room accept_step(3) acquire_state(1) [OF accept_step(2)] by (simp add: inbound_inv_def)
next
  case (reject_step s now ip e l)
  have "peer_inv (s\<lparr>clock := now\<rparr>) ip' (prune_peer_accepts now (peer_of (limiter s) ip'))" for ip'
    by (rule peer_prune(1)) (use reject_step(1,3) in \<open>simp_all add: inbound_inv_def\<close>)
  moreover have "peer_of l ip' = prune_peer_accepts now (peer_of (limiter s) ip')" for ip'
    by (simp add: acquire_state(2) [OF reject_step(2)] Let_def)
  moreover have "peer_inv (s\<lparr>limiter := l, clock := now\<rparr>) ip' = peer_inv (s\<lparr>clock := now\<rparr>) ip'" for ip'
    by (simp add: fun_eq_iff peer_inv_def)
  ultimately have "peer_inv (s\<lparr>limiter := l, clock := now\<rparr>) ip' (peer_of l ip')" for ip' by simp
  then show ?case
    using reject_step(3) acquire_state(1) [OF reject_step(2)] by (simp add: inbound_inv_def)
next
  case (drop_step ip s)
  have "peer_inv (s\<lparr>limiter := release ip (limiter s), permits := remove1 ip (permits s)\<rparr>) ip'
      (peer_of (release ip (limiter s)) ip')" for ip'
  proof -
    have "peer_inv s ip' (peer_of (limiter s) ip')" using drop_step(2) by (simp add: inbound_inv_def)
    then show ?thesis by (cases "ip' = ip") (simp_all add: peer_inv_def release_state count_remove1 diff_le_mono le_diff_conv)
  qed
  then show ?case
    using drop_step by (simp add: inbound_inv_def release_state length_remove1 le_diff_conv)
qed

lemma inbound_start_inv: "inbound_inv inbound_start"
  by (simp add: inbound_inv_def inbound_start_def limiter_default_def peer_inv_def peer_of_def
    peer_limit_default_def accepts_of_def)

lemma reachable_inbound: "inbound_step\<^sup>*\<^sup>* inbound_start s \<Longrightarrow> inbound_inv s"
  by (induction rule: rtranclp_induct) (auto intro: step_keeps_inbound inbound_start_inv)

section \<open>What the limits guarantee\<close>

text \<open>
  In every reachable state the open sessions respect both limits, and the connections one address
  opened in the last ten seconds are at most 24; a released place is free again.
\<close>

lemma limits_hold:
  assumes "inbound_inv s"
  shows "length (permits s) \<le> MAX_INBOUND_SESSIONS"
    and "count_list (permits s) ip \<le> MAX_INBOUND_SESSIONS_PER_IP"
    and "length (recent (clock s) (accepts_of ip (accepted s))) \<le> MAX_INBOUND_ACCEPTS_PER_IP_PER_WINDOW"
proof -
  have p: "peer_inv s ip (peer_of (limiter s) ip)" using assms by (simp add: inbound_inv_def)
  have "length (recent (clock s) ts) \<le> length ts" for ts by (simp add: recent_def)
  then show "length (recent (clock s) (accepts_of ip (accepted s))) \<le> MAX_INBOUND_ACCEPTS_PER_IP_PER_WINDOW"
    using p unfolding peer_inv_def by (metis order.trans)
  show "length (permits s) \<le> MAX_INBOUND_SESSIONS" using assms by (simp add: inbound_inv_def)
  show "count_list (permits s) ip \<le> MAX_INBOUND_SESSIONS_PER_IP" using p by (simp add: peer_inv_def)
qed

text \<open>An address is admitted exactly when the permits and its recent connections leave room.\<close>

lemma admitted_iff:
  assumes "inbound_inv s" and "clock s \<le> now"
  shows "fst (try_acquire ip now (limiter s)) = Inr () \<longleftrightarrow>
    length (permits s) < MAX_INBOUND_SESSIONS \<and> count_list (permits s) ip < MAX_INBOUND_SESSIONS_PER_IP \<and>
    length (recent now (accepts_of ip (accepted s))) < MAX_INBOUND_ACCEPTS_PER_IP_PER_WINDOW"
proof -
  have p: "peer_inv s ip (peer_of (limiter s) ip)" using assms(1) by (simp add: inbound_inv_def)
  define q where "q = prune_peer_accepts now (peer_of (limiter s) ip)"
  have "lim_active q = count_list (permits s) ip" using p by (simp add: q_def prune_peer_accepts_def peer_inv_def)
  moreover have "accepted_at_ms q = recent now (accepts_of ip (accepted s))"
    using peer_prune(1) [OF p assms(2)] peer_prune(2) [OF p assms(2)]
    by (simp add: q_def peer_inv_def) (simp add: recent_def)
  moreover have "icl_active (limiter s) = length (permits s)" using assms(1) by (simp add: inbound_inv_def)
  ultimately show ?thesis
    using acquire_cases [of ip now "limiter s"] unfolding q_def [symmetric] by (auto split: if_splits)
qed
end
