(* ===== verification/Node.thy ===== *)
theory Node
  imports Bundle_Build Peer_Book Block_Prepare V2_Builders
begin

text \<open>
  The core of a node (\<open>src/src/app.rs\<close>, \<open>src/src/app\<close>): the ledger with the wallet, the burn bundles of
  the next block, and the outbox of messages to peers. What a peer sends is received here; what
  was accepted and is new is passed on. Messages are measured by a serializer outside the program,
  the parameter of type \<open>envelope_len\<close>. Where the code reads the clock, the reading is an argument.
\<close>

section \<open>Messages\<close>

record BlockInventory =
  inv_height :: u64
  inv_hash :: string

record ChainSegmentSummary =
  seg_id :: u64
  seg_end_height :: u64
  seg_end_block_hash :: string

record ChainBootstrap =
  boot_genesis_allocations :: "(string, Amount) btree_map"
  boot_vdf_rounds :: u64
  boot_launch_profile :: LaunchProfile
  boot_genesis_block :: Block
  boot_height :: u64
  boot_tip_hash :: string
  boot_segment_summaries :: "ChainSegmentSummary list"

datatype GossipEnvelope =
    GHello ProtocolHello
  | GPeerStatus u64 string u64
  | GChainBootstrapRequest
  | GChainBootstrap ChainBootstrap
  | GBlockLocatorRequest "string list" nat
  | GBlockRangeRequest u64 nat
  | GBlockRequest "string list"
  | GInventory "BlockInventory list"
  | GTransaction Transaction
  | GTransactions "Transaction list"
  | GTransactionV2 string
  | GTransactionsV2 "string list"
  | GBurnBundle BurnBundle
  | GBurnBundles "BurnBundle list"
  | GBurnBundleRequest u64 string "u8 list"
  | GBlock Block
  | GBlocks "Block list"
  | GPeerAnnouncement string "string option"
  | GPeerVerificationChallenge string string
  | GPeerVerificationResponse string string string string
  | GPeerList "string list"

type_synonym envelope_len = "GossipEnvelope \<Rightarrow> nat result"

section \<open>Capabilities\<close>

definition MAX_PROTOCOL_CAPABILITIES :: nat where "MAX_PROTOCOL_CAPABILITIES = 16"
definition MAX_PROTOCOL_CAPABILITY_BYTES :: nat where "MAX_PROTOCOL_CAPABILITY_BYTES = 64"
definition PROTOCOL_VERSION :: u32 where "PROTOCOL_VERSION = 2"

definition CAPABILITY_ADDRESS_V1_READ :: string where "CAPABILITY_ADDRESS_V1_READ = ''address-v1-read''"
definition CAPABILITY_CHAIN_SEGMENT_SYNC :: string where "CAPABILITY_CHAIN_SEGMENT_SYNC = ''chain-segment-sync''"
definition CAPABILITY_HYBRID_LINEAGE_IDENTITIES :: string where
  "CAPABILITY_HYBRID_LINEAGE_IDENTITIES = ''hybrid-lineage-identities''"
definition CAPABILITY_HYBRID_REWARD_PAYOUTS :: string where
  "CAPABILITY_HYBRID_REWARD_PAYOUTS = ''hybrid-reward-payouts''"
definition CAPABILITY_SIGNATURE_SCHEMES_V1 :: string where
  "CAPABILITY_SIGNATURE_SCHEMES_V1 = ''signature-schemes-v1''"
definition CAPABILITY_TRANSACTION_V2_AGGREGATED_AUTHORIZATIONS :: string where
  "CAPABILITY_TRANSACTION_V2_AGGREGATED_AUTHORIZATIONS = ''transaction-v2-aggregated-authorizations''"
definition CAPABILITY_TRANSACTION_V2_BLOCKS :: string where
  "CAPABILITY_TRANSACTION_V2_BLOCKS = ''transaction-v2-blocks''"
definition CAPABILITY_TRANSACTION_V2_BURNS :: string where
  "CAPABILITY_TRANSACTION_V2_BURNS = ''transaction-v2-burns''"
definition CAPABILITY_TRANSACTION_V2_MEMPOOL :: string where
  "CAPABILITY_TRANSACTION_V2_MEMPOOL = ''transaction-v2-mempool''"
definition MAINNET_CANDIDATE_NETWORK_ID :: string where
  "MAINNET_CANDIDATE_NETWORK_ID = ''iuna-mainnet-candidate''"
definition MAINNET_CANDIDATE_GENESIS_HASH :: string where
  "MAINNET_CANDIDATE_GENESIS_HASH = ''3d677cd7ced1c04d3a276cbee7ea38076e34ac65f18a2c9b8286a4872d986a9a''"
definition NETWORK_ID :: string where "NETWORK_ID = MAINNET_CANDIDATE_NETWORK_ID"

definition protocol_capabilities :: "string list" where
  "protocol_capabilities =
     [CAPABILITY_ADDRESS_V1_READ, CAPABILITY_CHAIN_SEGMENT_SYNC, CAPABILITY_HYBRID_LINEAGE_IDENTITIES,
      CAPABILITY_HYBRID_REWARD_PAYOUTS, CAPABILITY_SIGNATURE_SCHEMES_V1,
      CAPABILITY_TRANSACTION_V2_AGGREGATED_AUTHORIZATIONS, CAPABILITY_TRANSACTION_V2_BLOCKS,
      CAPABILITY_TRANSACTION_V2_BURNS, CAPABILITY_TRANSACTION_V2_MEMPOOL]"

definition capability_char :: "char \<Rightarrow> bool" where
  "capability_char c =
     (let n = of_char c :: nat in 97 \<le> n \<and> n \<le> 122 \<or> 48 \<le> n \<and> n \<le> 57 \<or> n = 45)"

definition capability_step :: "string option \<Rightarrow> string \<Rightarrow> string option result" where
  "capability_step previous capability =
     (if capability = [] \<or> MAX_PROTOCOL_CAPABILITY_BYTES < length capability \<or>
         \<not> list_all capability_char capability
      then bail ''peer advertises an invalid protocol capability''
      else if (case previous of Some p \<Rightarrow> capability \<le> p | None \<Rightarrow> False)
      then bail ''peer protocol capabilities must be sorted and unique''
      else Inr (Some capability))"

definition validate_protocol_capabilities :: "string list \<Rightarrow> unit result" where
  "validate_protocol_capabilities capabilities =
     (if MAX_PROTOCOL_CAPABILITIES < length capabilities
      then bail ''peer advertises too many protocol capabilities''
      else and_then (try_fold capability_step None capabilities) (\<lambda>_. Inr ()))"

definition require_capability :: "bool \<Rightarrow> string list \<Rightarrow> string \<Rightarrow> string \<Rightarrow> unit result" where
  "require_capability due capabilities capability msg =
     (if due \<and> capability \<notin> set capabilities then bail msg else Inr ())"

definition validate_transaction_v2_peer_capability :: "string list \<Rightarrow> u64 \<Rightarrow> u64 \<Rightarrow> unit result" where
  "validate_transaction_v2_peer_capability capabilities local_height remote_height =
     (let next_height = saturating_add (max local_height remote_height) 1;
          activation_is_next = transaction_v2_is_active next_height in
      and_then (require_capability activation_is_next capabilities CAPABILITY_TRANSACTION_V2_BLOCKS
        ''peer lacks transaction-v2 block capability near activation'') (\<lambda>_.
      and_then (require_capability activation_is_next capabilities CAPABILITY_TRANSACTION_V2_BURNS
        ''peer lacks transaction-v2 burn capability near activation'') (\<lambda>_.
      and_then (require_capability (HYBRID_REWARD_ACTIVATION_HEIGHT \<le> next_height) capabilities
        CAPABILITY_HYBRID_REWARD_PAYOUTS ''peer lacks hybrid reward payout capability near activation'') (\<lambda>_.
      and_then (require_capability (HYBRID_LINEAGE_IDENTITY_ACTIVATION_HEIGHT \<le> next_height) capabilities
        CAPABILITY_HYBRID_LINEAGE_IDENTITIES
        ''peer lacks hybrid lineage identity capability near activation'') (\<lambda>_.
      require_capability (TRANSACTION_V2_AUTHORIZATION_AGGREGATION_ACTIVATION_HEIGHT \<le> next_height)
        capabilities CAPABILITY_TRANSACTION_V2_AGGREGATED_AUTHORIZATIONS
        ''peer lacks transaction-v2 aggregated authorization capability near activation'')))))"

definition validate_network_genesis :: "string \<Rightarrow> string \<Rightarrow> unit result" where
  "validate_network_genesis profile genesis =
     (if profile = MAINNET_CANDIDATE_NETWORK_ID \<and> genesis \<noteq> MAINNET_CANDIDATE_GENESIS_HASH
      then bail (''mainnet-candidate genesis '' @ genesis @ '' does not match pinned genesis '' @
        MAINNET_CANDIDATE_GENESIS_HASH)
      else Inr ())"

section \<open>The node\<close>

datatype NodeWallet = Unlocked Hybrid_Wallet | Locked string

fun node_wallet_address :: "NodeWallet \<Rightarrow> string" where
  "node_wallet_address (Unlocked w) = wallet_address w"
| "node_wallet_address (Locked address) = address"

fun wallet_unlocked :: "NodeWallet \<Rightarrow> Hybrid_Wallet result" where
  "wallet_unlocked (Unlocked w) = Inr w"
| "wallet_unlocked (Locked _) = bail ''wallet is locked''"

fun wallet_is_locked :: "NodeWallet \<Rightarrow> bool" where
  "wallet_is_locked (Unlocked _) = False"
| "wallet_is_locked (Locked _) = True"

record AutoPowMineCursor =
  cur_anchor :: string
  cur_salt :: u64
  cur_next_nonce :: u64
  cur_searched :: u64

datatype VdfSpeedSource = Benchmark | Finalization

record VdfSpeedSample =
  sample_rounds :: u64
  sample_elapsed_us :: u64
  sample_source :: VdfSpeedSource

type_synonym bundle_key = "u64 \<times> u8 \<times> string"

record NodeCore =
  nc_wallet :: NodeWallet
  nc_ledger :: Ledger
  nc_automatic_mining_enabled :: bool
  nc_pow_mining_enabled :: bool
  nc_pow_mining_workers :: u8
  nc_burn_per_block :: Amount
  nc_burn_fee :: Amount
  nc_recovery_vdf_top_rank_percent :: u8
  nc_vdf_memory_mib :: u64
  nc_last_auto_burn_height :: "u64 option"
  nc_last_auto_anchor_burn_height :: "u64 option"
  nc_last_auto_finalization_status :: "string option"
  nc_last_auto_pow_mine_anchor :: "string option"
  nc_last_auto_pow_mine_status :: "string option"
  nc_auto_pow_mine_cursor :: "AutoPowMineCursor option"
  nc_burn_bundles :: "(bundle_key, BurnBundle) btree_map"
  nc_equivocated :: "bundle_key set"
  nc_collection_started :: "(u64 \<times> u64) option"
  nc_local_block_anchor_burn :: "(u64 \<times> Transaction) option"
  nc_outbox :: "(GossipEnvelope \<times> nat) list"
  nc_outbox_bytes :: nat
  nc_network_migration_from :: "string option"
  nc_vdf_speed_sample :: "VdfSpeedSample option"
  nc_bounded_history :: bool
  nc_persisted_tip :: "(u64 \<times> string) option"

section \<open>The outbox\<close>

definition MAX_GOSSIP_OUTBOX_BYTES :: nat where "MAX_GOSSIP_OUTBOX_BYTES = 16 * 1024 * 1024"
definition MAX_GOSSIP_OUTBOX_ENTRIES :: nat where "MAX_GOSSIP_OUTBOX_ENTRIES = 1024"
definition CHAIN_SEGMENT_BLOCKS :: nat where "CHAIN_SEGMENT_BLOCKS = 256"
definition RESIDENT_CHAIN_BLOCKS :: nat where "RESIDENT_CHAIN_BLOCKS = 64"
definition BLOCK_REQUEST_LIMIT :: nat where "BLOCK_REQUEST_LIMIT = 128"
definition TRANSACTION_BATCH_LIMIT :: nat where "TRANSACTION_BATCH_LIMIT = 128"
definition IMPORT_REBROADCAST_LIMIT :: nat where "IMPORT_REBROADCAST_LIMIT = 128"

text \<open>Old messages make room for a new one; an empty outbox ends the loop.\<close>

fun trim_outbox :: "nat \<Rightarrow> (GossipEnvelope \<times> nat) list \<Rightarrow> nat \<Rightarrow> (GossipEnvelope \<times> nat) list \<times> nat" where
  "trim_outbox n [] queued = ([], queued)"
| "trim_outbox n (e # rest) queued =
     (if MAX_GOSSIP_OUTBOX_ENTRIES \<le> length (e # rest) \<or>
         MAX_GOSSIP_OUTBOX_BYTES < usize_saturating_add queued n
      then trim_outbox n rest (queued - snd e)
      else (e # rest, queued))"

definition enqueue_gossip :: "envelope_len \<Rightarrow> GossipEnvelope \<Rightarrow> NodeCore \<Rightarrow> NodeCore" where
  "enqueue_gossip sz envelope n =
     (let encoded = (case sz envelope of Inr s \<Rightarrow> s | Inl _ \<Rightarrow> 2 ^ 64 - 1) in
      if MAX_GOSSIP_OUTBOX_BYTES < encoded then n
      else
        (case trim_outbox encoded (nc_outbox n) (nc_outbox_bytes n) of (queue, queued) \<Rightarrow>
           n\<lparr>nc_outbox := queue @ [(envelope, encoded)],
             nc_outbox_bytes := usize_saturating_add queued encoded\<rparr>))"

definition drain_outbox :: "NodeCore \<Rightarrow> GossipEnvelope list \<times> NodeCore" where
  "drain_outbox n = (map fst (nc_outbox n), n\<lparr>nc_outbox := [], nc_outbox_bytes := 0\<rparr>)"
section \<open>Automatic mining state\<close>

definition reset_automatic_mining_progress :: "NodeCore \<Rightarrow> NodeCore" where
  "reset_automatic_mining_progress n =
     n\<lparr>nc_last_auto_burn_height := None, nc_last_auto_anchor_burn_height := None,
       nc_last_auto_finalization_status := None, nc_last_auto_pow_mine_anchor := None,
       nc_last_auto_pow_mine_status := None, nc_auto_pow_mine_cursor := None, nc_collection_started := None\<rparr>"

definition clear_stale_local_block_anchor :: "NodeCore \<Rightarrow> NodeCore" where
  "clear_stale_local_block_anchor n =
     (case nc_local_block_anchor_burn n of
        Some (h, _) \<Rightarrow> if h \<noteq> ledger_height (nc_ledger n) then n\<lparr>nc_local_block_anchor_burn := None\<rparr> else n
      | None \<Rightarrow> n)"

definition clear_stale_burn_bundle_collection :: "NodeCore \<Rightarrow> NodeCore" where
  "clear_stale_burn_bundle_collection n =
     (case nc_collection_started n of
        Some (h, _) \<Rightarrow>
          if h \<noteq> saturating_add (ledger_height (nc_ledger n)) 1 then n\<lparr>nc_collection_started := None\<rparr> else n
      | None \<Rightarrow> n)"

section \<open>Resident history\<close>

definition prune_persisted_history :: "NodeCore \<Rightarrow> NodeCore" where
  "prune_persisted_history n =
     (if \<not> nc_bounded_history n then n
      else
        (case nc_persisted_tip n of
           None \<Rightarrow> n
         | Some (persisted_height, persisted_hash) \<Rightarrow>
             (case resident_block_at_height (nc_ledger n) persisted_height of
                None \<Rightarrow> n
              | Some b \<Rightarrow>
                  if block_hash b \<noteq> persisted_hash then n
                  else
                    (let unpersisted = saturating_sub (ledger_height (nc_ledger n)) persisted_height;
                         keep = max (unat unpersisted) RESIDENT_CHAIN_BLOCKS in
                     n\<lparr>nc_ledger := retain_recent_chain_blocks keep (nc_ledger n)\<rparr>))))"

definition bound_resident_chain_history :: "NodeCore \<Rightarrow> NodeCore" where
  "bound_resident_chain_history n = prune_persisted_history (n\<lparr>nc_bounded_history := True\<rparr>)"

definition keep_complete_chain_history :: "NodeCore \<Rightarrow> NodeCore" where
  "keep_complete_chain_history n = n\<lparr>nc_bounded_history := False\<rparr>"

definition mark_chain_persisted :: "u64 \<Rightarrow> string \<Rightarrow> NodeCore \<Rightarrow> NodeCore" where
  "mark_chain_persisted h hash n = prune_persisted_history (n\<lparr>nc_persisted_tip := Some (h, hash)\<rparr>)"

definition restore_complete_chain_history :: "crypto \<Rightarrow> Ledger \<Rightarrow> NodeCore \<Rightarrow> bool result \<times> NodeCore" where
  "restore_complete_chain_history cr complete n =
     st_check (restore_pruned_history cr (nc_ledger n) complete) n (\<lambda>(done, lg).
     (Inr done, n\<lparr>nc_ledger := lg\<rparr>))"

section \<open>Life of a node\<close>

definition DEFAULT_POW_MINING_WORKERS :: u8 where "DEFAULT_POW_MINING_WORKERS = 1"
definition MAX_POW_MINING_WORKERS :: u8 where "MAX_POW_MINING_WORKERS = 32"
definition DEFAULT_VDF_MEMORY_MIB :: u64 where "DEFAULT_VDF_MEMORY_MIB = 64"

definition clamp_pow_mining_workers :: "u8 \<Rightarrow> u8" where
  "clamp_pow_mining_workers workers = max 1 (min workers MAX_POW_MINING_WORKERS)"

definition from_node_wallet ::
  "NodeWallet \<Rightarrow> Ledger \<Rightarrow> bool \<Rightarrow> Amount \<Rightarrow> Amount \<Rightarrow> u8 \<Rightarrow> u8 \<Rightarrow> NodeCore" where
  "from_node_wallet w lg enabled per_block bfee workers percent =
     \<lparr>nc_wallet = w, nc_ledger = lg, nc_automatic_mining_enabled = enabled, nc_pow_mining_enabled = False,
      nc_pow_mining_workers = clamp_pow_mining_workers workers, nc_burn_per_block = per_block,
      nc_burn_fee = bfee, nc_recovery_vdf_top_rank_percent = min percent 100,
      nc_vdf_memory_mib = DEFAULT_VDF_MEMORY_MIB, nc_last_auto_burn_height = None,
      nc_last_auto_anchor_burn_height = None, nc_last_auto_finalization_status = None,
      nc_last_auto_pow_mine_anchor = None, nc_last_auto_pow_mine_status = None,
      nc_auto_pow_mine_cursor = None, nc_burn_bundles = bt_empty, nc_equivocated = {},
      nc_collection_started = None, nc_local_block_anchor_burn = None, nc_outbox = [], nc_outbox_bytes = 0,
      nc_network_migration_from = None, nc_vdf_speed_sample = None, nc_bounded_history = False, nc_persisted_tip = None\<rparr>"

definition from_ledger_with_burn_fee_and_enabled ::
  "Hybrid_Wallet \<Rightarrow> Ledger \<Rightarrow> bool \<Rightarrow> Amount \<Rightarrow> Amount \<Rightarrow> NodeCore" where
  "from_ledger_with_burn_fee_and_enabled w lg enabled per_block bfee =
     from_node_wallet (Unlocked w) lg enabled per_block bfee DEFAULT_POW_MINING_WORKERS 100"

definition from_ledger_with_burn_fee :: "Hybrid_Wallet \<Rightarrow> Ledger \<Rightarrow> Amount \<Rightarrow> Amount \<Rightarrow> NodeCore" where
  "from_ledger_with_burn_fee w lg per_block bfee =
     from_ledger_with_burn_fee_and_enabled w lg (0 < per_block) per_block bfee"

definition from_ledger :: "Hybrid_Wallet \<Rightarrow> Ledger \<Rightarrow> Amount \<Rightarrow> NodeCore" where
  "from_ledger w lg per_block = from_ledger_with_burn_fee w lg per_block 1"

definition from_locked_wallet_address :: "string \<Rightarrow> Ledger \<Rightarrow> bool \<Rightarrow> Amount \<Rightarrow> Amount \<Rightarrow> NodeCore" where
  "from_locked_wallet_address address lg enabled per_block bfee =
     from_node_wallet (Locked address) lg enabled per_block bfee DEFAULT_POW_MINING_WORKERS 100"

definition require_network_migration :: "string \<Rightarrow> NodeCore \<Rightarrow> NodeCore" where
  "require_network_migration from_network n = n\<lparr>nc_network_migration_from := Some from_network\<rparr>"

definition complete_network_migration :: "NodeCore \<Rightarrow> NodeCore" where
  "complete_network_migration n = n\<lparr>nc_network_migration_from := None\<rparr>"

definition forget_bundles :: "NodeCore \<Rightarrow> NodeCore" where
  "forget_bundles n =
     (reset_automatic_mining_progress n)\<lparr>nc_burn_bundles := bt_empty, nc_equivocated := {},
       nc_collection_started := None, nc_local_block_anchor_burn := None\<rparr>"

definition replace_wallet :: "Hybrid_Wallet \<Rightarrow> NodeCore \<Rightarrow> NodeCore" where
  "replace_wallet w n = forget_bundles (n\<lparr>nc_wallet := Unlocked w\<rparr>)"

definition reset_chain_to_setup_placeholder :: "crypto \<Rightarrow> NodeCore \<Rightarrow> unit result \<times> NodeCore" where
  "reset_chain_to_setup_placeholder cr n =
     st_check (with_context ''failed to construct setup ledger''
       (new_with_genesis_burns_and_profile cr bt_empty [] 1 (launch_profile (nc_ledger n)))) n (\<lambda>lg.
     (Inr (), (forget_bundles (n\<lparr>nc_ledger := lg, nc_persisted_tip := None\<rparr>))\<lparr>nc_outbox := []\<rparr>))"

section \<open>Burn bundles of the next block\<close>

definition bundle_key_of :: "BurnBundle \<Rightarrow> bundle_key" where
  "bundle_key_of b = (bb_height b, bb_slot b, bb_member b)"

definition usable_burn_bundles :: "NodeCore \<Rightarrow> BurnBundle list" where
  "usable_burn_bundles n =
     (let next_height = saturating_add (ledger_height (nc_ledger n)) 1 in
      sort_key bb_slot (map snd (filter (\<lambda>e. fst (fst e) = next_height \<and> fst e \<notin> nc_equivocated n)
        (bt_entries (nc_burn_bundles n)))))"

definition usable_burn_bundles_for_finalizer_rank :: "crypto \<Rightarrow> u32 \<Rightarrow> NodeCore \<Rightarrow> BurnBundle list" where
  "usable_burn_bundles_for_finalizer_rank cr rank n =
     (let committee = bt_of_list (map (\<lambda>m. (cm_slot m, cm_owner m))
            (burn_committee_for_next_ticket_block cr (nc_ledger n) rank)) in
      filter (\<lambda>b. bt_get committee (bb_slot b) = Some (bb_member b)) (usable_burn_bundles n))"

definition burn_bundles_for_request :: "u64 \<Rightarrow> string \<Rightarrow> u8 list \<Rightarrow> NodeCore \<Rightarrow> BurnBundle list" where
  "burn_bundles_for_request h prev slots n =
     filter (\<lambda>b. slots = [] \<or> bb_slot b \<in> set slots)
       (filter (\<lambda>b. bb_height b = h \<and> bb_prev_hash b = prev) (usable_burn_bundles n))"

definition prune_burn_bundles :: "NodeCore \<Rightarrow> NodeCore" where
  "prune_burn_bundles n =
     (let h = ledger_height (nc_ledger n) in
      n\<lparr>nc_burn_bundles := bt_retain (\<lambda>k _. h < fst k) (nc_burn_bundles n),
        nc_equivocated := {k \<in> nc_equivocated n. h < fst k}\<rparr>)"

section \<open>Receiving\<close>

definition with_ledger :: "(Ledger \<Rightarrow> 'a result \<times> Ledger) \<Rightarrow> NodeCore \<Rightarrow> 'a result \<times> NodeCore" where
  "with_ledger f n = (case f (nc_ledger n) of (r, lg) \<Rightarrow> (r, n\<lparr>nc_ledger := lg\<rparr>))"

definition receive_transaction ::
  "host \<Rightarrow> Transaction \<Rightarrow> NodeCore \<Rightarrow> TransactionSubmitOutcome result \<times> NodeCore" where
  "receive_transaction hs tx n = with_ledger (\<lambda>lg. submit_transaction_with_outcome hs lg tx) n"

definition receive_gossiped_transaction ::
  "host \<Rightarrow> envelope_len \<Rightarrow> Transaction \<Rightarrow> NodeCore \<Rightarrow> unit result \<times> NodeCore" where
  "receive_gossiped_transaction hs sz tx n =
     (case with_ledger (\<lambda>lg. submit_transaction_with_outcome hs lg tx) n of
        (Inr outcome, n') \<Rightarrow>
          (Inr (), if outcome_added outcome then enqueue_gossip sz (GTransaction tx) n' else n')
      | (Inl e, n') \<Rightarrow>
          if is_mine tx \<and> error_has_validation e (\<lambda>k. k = MineAnchorLimitReached) then (Inr (), n')
          else (Inl e, n'))"

definition receive_gossiped_transaction_v2 ::
  "host \<Rightarrow> envelope_len \<Rightarrow> string \<Rightarrow> NodeCore \<Rightarrow> unit result \<times> NodeCore" where
  "receive_gossiped_transaction_v2 hs sz envelope n =
     st_check (decode_hex envelope) n (\<lambda>encoded.
     st_check (decode_transaction_v2 (nc_ledger n) encoded) n (\<lambda>tx.
     (case with_ledger (\<lambda>lg. submit_transaction_v2 (h_crypto hs) lg tx) n of
        (Inr outcome, n') \<Rightarrow>
          (Inr (), if outcome_added outcome then enqueue_gossip sz (GTransactionV2 (hex_encode encoded)) n' else n')
      | (Inl e, n') \<Rightarrow>
          if error_has_validation e (\<lambda>k. k = MempoolConflict) then (Inr (), n') else (Inl e, n'))))"

definition submit_public_transaction_v2 ::
  "host \<Rightarrow> envelope_len \<Rightarrow> TransactionV2 \<Rightarrow> NodeCore \<Rightarrow> TransactionV2 result \<times> NodeCore" where
  "submit_public_transaction_v2 hs sz tx n =
     st_check (transaction_v2_domain (nc_ledger n)) n (\<lambda>d.
     st_check (v2_encode tx d) n (\<lambda>encoded.
     st_then (with_ledger (\<lambda>lg. submit_transaction_v2 (h_crypto hs) lg tx) n) (\<lambda>outcome n'.
     (Inr tx, if outcome_added outcome then enqueue_gossip sz (GTransactionV2 (hex_encode encoded)) n' else n'))))"

definition submit_prioritized_public_transaction_v2 ::
  "host \<Rightarrow> envelope_len \<Rightarrow> TransactionV2 \<Rightarrow> NodeCore \<Rightarrow> TransactionV2 result \<times> NodeCore" where
  "submit_prioritized_public_transaction_v2 hs sz tx n =
     st_check (transaction_v2_domain (nc_ledger n)) n (\<lambda>d.
     st_check (v2_encode tx d) n (\<lambda>encoded.
     (case prioritize_transaction_v2_for_block_building (h_crypto hs) (nc_ledger n) tx of
        (Inl e, _) \<Rightarrow> (Inl e, n)
      | (Inr prioritized, candidate) \<Rightarrow>
          (Inr tx,
           if prioritized
           then enqueue_gossip sz (GTransactionV2 (hex_encode encoded)) (n\<lparr>nc_ledger := candidate\<rparr>)
           else n))))"

fun st_each :: "('a \<Rightarrow> 's \<Rightarrow> unit result \<times> 's) \<Rightarrow> 'a list \<Rightarrow> 's \<Rightarrow> unit result \<times> 's" where
  "st_each f [] s = (Inr (), s)"
| "st_each f (x # xs) s = st_then (f x s) (\<lambda>_ s'. st_each f xs s')"

text \<open>
  The bundle of a member is stored once. A second, different one for the same slot removes the
  first and bars the slot until the height has passed.
\<close>

definition store_burn_bundle :: "envelope_len \<Rightarrow> BurnBundle \<Rightarrow> NodeCore \<Rightarrow> NodeCore" where
  "store_burn_bundle sz bundle n =
     (let key = bundle_key_of bundle in
      if key \<in> nc_equivocated n then n
      else
        (case bt_get (nc_burn_bundles n) key of
           Some existing \<Rightarrow>
             if bundle_canonical existing \<noteq> bundle_canonical bundle
             then n\<lparr>nc_burn_bundles := bt_remove key (nc_burn_bundles n),
                    nc_equivocated := insert key (nc_equivocated n)\<rparr>
             else n
         | None \<Rightarrow>
             enqueue_gossip sz (GBurnBundle bundle)
               (n\<lparr>nc_burn_bundles := bt_insert key bundle (nc_burn_bundles n)\<rparr>)))"

definition receive_burn_bundle ::
  "host \<Rightarrow> envelope_len \<Rightarrow> BurnBundle \<Rightarrow> NodeCore \<Rightarrow> unit result \<times> NodeCore" where
  "receive_burn_bundle hs sz bundle n =
     (let next_height = saturating_add (ledger_height (nc_ledger n)) 1 in
      if bb_height bundle \<le> ledger_height (nc_ledger n) then (Inr (), n)
      else if next_height < bb_height bundle then (Inr (), n)
      else
        st_check (precheck_next_block_burn_bundle hs (nc_ledger n) bundle) n (\<lambda>_.
        st_then (st_each (receive_gossiped_transaction hs sz) (bb_burns bundle) n) (\<lambda>_ n1.
        st_then (st_each (receive_gossiped_transaction_v2 hs sz) (bb_burns_v2 bundle) n1) (\<lambda>_ n2.
        st_check (validate_next_block_burn_bundles hs (nc_ledger n2) [bundle]) n2 (\<lambda>_.
        (Inr (), store_burn_bundle sz bundle n2))))))"
definition after_import :: "NodeCore \<Rightarrow> NodeCore" where
  "after_import n = prune_burn_bundles (clear_stale_burn_bundle_collection (clear_stale_local_block_anchor n))"

text \<open>Blocks are imported one by one; the \<open>i\<close>-th one at the clock reading \<open>clock i\<close>.\<close>

fun import_blocks ::
  "host \<Rightarrow> (nat \<Rightarrow> u64) \<Rightarrow> nat \<Rightarrow> Block list \<Rightarrow> Block list \<Rightarrow> NodeCore \<Rightarrow> Block list result \<times> NodeCore" where
  "import_blocks hs clock i imported [] n = (Inr imported, n)"
| "import_blocks hs clock i imported (b # bs) n =
     st_then (with_ledger (\<lambda>lg. apply_block_at hs lg b (clock i)) n) (\<lambda>_ n'.
     if ledger_height (nc_ledger n) < ledger_height (nc_ledger n')
     then import_blocks hs clock (i + 1) (imported @ [b]) bs (after_import n')
     else import_blocks hs clock (i + 1) imported bs n')"

definition receive_block :: "host \<Rightarrow> envelope_len \<Rightarrow> bool \<Rightarrow> u64 \<Rightarrow> Block \<Rightarrow> NodeCore \<Rightarrow> unit result \<times> NodeCore" where
  "receive_block hs sz verify_vdf_proof now b n =
     st_then (with_ledger (\<lambda>lg. apply_block_with_vdf_policy hs lg b verify_vdf_proof now) n) (\<lambda>_ n'.
     (Inr (),
      if ledger_height (nc_ledger n) < ledger_height (nc_ledger n')
      then prune_persisted_history (enqueue_gossip sz (GBlock b) (after_import n'))
      else n'))"

fun node_receive ::
  "host \<Rightarrow> envelope_len \<Rightarrow> (nat \<Rightarrow> u64) \<Rightarrow> GossipEnvelope \<Rightarrow> NodeCore \<Rightarrow> unit result \<times> NodeCore" where
  "node_receive hs sz clock (GTransaction tx) n = receive_gossiped_transaction hs sz tx n"
| "node_receive hs sz clock (GTransactions txs) n = st_each (receive_gossiped_transaction hs sz) txs n"
| "node_receive hs sz clock (GTransactionV2 envelope) n = receive_gossiped_transaction_v2 hs sz envelope n"
| "node_receive hs sz clock (GTransactionsV2 envelopes) n = st_each (receive_gossiped_transaction_v2 hs sz) envelopes n"
| "node_receive hs sz clock (GBurnBundle bundle) n = receive_burn_bundle hs sz bundle n"
| "node_receive hs sz clock (GBurnBundles bundles) n = st_each (receive_burn_bundle hs sz) bundles n"
| "node_receive hs sz clock (GBlock b) n = receive_block hs sz True (clock 0) b n"
| "node_receive hs sz clock (GBlocks bs) n =
     st_then (import_blocks hs clock 0 [] bs n) (\<lambda>imported n'.
     (Inr (), prune_persisted_history (foldl (\<lambda>n b. enqueue_gossip sz (GBlock b) n) n' imported)))"
| "node_receive hs sz clock (GHello hello) n = (Inr (), n)"
| "node_receive hs sz clock (GPeerStatus h tip_id t) n = (Inr (), n)"
| "node_receive hs sz clock GChainBootstrapRequest n = (Inr (), n)"
| "node_receive hs sz clock (GChainBootstrap boot) n = (Inr (), n)"
| "node_receive hs sz clock (GBlockLocatorRequest locator limit) n = (Inr (), n)"
| "node_receive hs sz clock (GBlockRangeRequest h limit) n = (Inr (), n)"
| "node_receive hs sz clock (GBlockRequest hashes) n = (Inr (), n)"
| "node_receive hs sz clock (GInventory blocks) n = (Inr (), n)"
| "node_receive hs sz clock (GBurnBundleRequest h prev slots) n = (Inr (), n)"
| "node_receive hs sz clock (GPeerAnnouncement address node_id) n = (Inr (), n)"
| "node_receive hs sz clock (GPeerVerificationChallenge address nonce) n = (Inr (), n)"
| "node_receive hs sz clock (GPeerVerificationResponse address nonce node_id sig) n = (Inr (), n)"
| "node_receive hs sz clock (GPeerList peers) n = (Inr (), n)"

definition receive_preverified_block_at ::
  "host \<Rightarrow> envelope_len \<Rightarrow> Block \<Rightarrow> u64 \<Rightarrow> NodeCore \<Rightarrow> unit result \<times> NodeCore" where
  "receive_preverified_block_at hs sz b now n = receive_block hs sz False now b n"

section \<open>Imports\<close>

definition enqueue_imported_blocks :: "envelope_len \<Rightarrow> u64 \<Rightarrow> NodeCore \<Rightarrow> NodeCore" where
  "enqueue_imported_blocks sz previous_height n =
     (if ledger_height (nc_ledger n) \<le> previous_height then n
      else
        (let blocks = blocks_from (nc_ledger n) (previous_height + 1) IMPORT_REBROADCAST_LIMIT;
             n' = foldl (\<lambda>n _. clear_stale_burn_bundle_collection (prune_burn_bundles n)) n blocks in
         if blocks = [] then n' else enqueue_gossip sz (GBlocks blocks) n'))"

definition adopt_ledger :: "envelope_len \<Rightarrow> u64 \<Rightarrow> NodeCore \<Rightarrow> NodeCore" where
  "adopt_ledger sz previous_height n =
     prune_persisted_history (enqueue_imported_blocks sz previous_height
       (after_import (reset_automatic_mining_progress n)))"

definition import_chain_snapshot ::
  "host \<Rightarrow> envelope_len \<Rightarrow> ChainSnapshot \<Rightarrow> u64 \<Rightarrow> NodeCore \<Rightarrow> unit result \<times> NodeCore" where
  "import_chain_snapshot hs sz snap now n =
     (if nc_network_migration_from n \<noteq> None
      then (bail ''local chain reset is required before joining the new network'', n)
      else
        (let previous_height = ledger_height (nc_ledger n) in
         st_check (extend_from_snapshot_with_vdf_policy hs (nc_ledger n) snap True now) n (\<lambda>(imported, lg).
         (Inr (), if imported then adopt_ledger sz previous_height (n\<lparr>nc_ledger := lg\<rparr>)
                  else n\<lparr>nc_ledger := lg\<rparr>))))"

definition import_verified_ledger ::
  "host \<Rightarrow> envelope_len \<Rightarrow> Ledger \<Rightarrow> NodeCore \<Rightarrow> bool result \<times> NodeCore" where
  "import_verified_ledger hs sz lg n =
     (let own = nc_ledger n;
          replaces_placeholder = is_setup_placeholder own \<and> ledger_genesis_hash lg \<noteq> ledger_genesis_hash own;
          previous_height = ledger_height own in
      if nc_network_migration_from n \<noteq> None
      then (bail ''local chain reset is required before joining the new network'', n)
      else if ledger_genesis_hash lg \<noteq> ledger_genesis_hash own \<and> \<not> replaces_placeholder
      then (bail ''chain snapshot genesis does not match local chain'', n)
      else if \<not> replaces_placeholder \<and> ledger_height lg < previous_height then (Inr False, n)
      else if \<not> replaces_placeholder \<and> ledger_height lg = previous_height \<and> tip_hash lg = tip_hash own
      then (Inr False, n)
      else (Inr True, adopt_ledger sz previous_height (n\<lparr>nc_ledger := lg\<rparr>)))"

section \<open>What a node tells its peers\<close>

definition pending_transaction_v2_envelopes :: "crypto \<Rightarrow> NodeCore \<Rightarrow> (string \<times> string) list result" where
  "pending_transaction_v2_envelopes cr n =
     and_then (transaction_v2_domain (nc_ledger n)) (\<lambda>d.
     try_map (\<lambda>tx.
       and_then (transaction_id cr tx d) (\<lambda>txid.
       and_then (v2_encode tx d) (\<lambda>bs.
       Inr (hex_encode txid, hex_encode bs)))) (pending_v2 (nc_ledger n)))"

text \<open>Rust's \<open>chunks\<close>: consecutive pieces of the given size, the last one shorter.\<close>

function chunks :: "nat \<Rightarrow> 'a list \<Rightarrow> 'a list list" where
  "chunks k xs = (if xs = [] \<or> k = 0 then [] else take k xs # chunks k (drop k xs))"
  by pat_completeness auto
termination
  by (relation "measure (\<lambda>(k, xs). length xs)") auto

definition mempool_gossip :: "crypto \<Rightarrow> NodeCore \<Rightarrow> GossipEnvelope list" where
  "mempool_gossip cr n =
     map GTransactions (chunks TRANSACTION_BATCH_LIMIT (pending (nc_ledger n))) @
     (case pending_transaction_v2_envelopes cr n of
        Inr envelopes \<Rightarrow> map (\<lambda>(_, envelope). GTransactionV2 envelope) envelopes | Inl _ \<Rightarrow> []) @
     map GBurnBundles (chunks TRANSACTION_BATCH_LIMIT (usable_burn_bundles n))"

definition chain_bootstrap :: "NodeCore \<Rightarrow> ChainBootstrap" where
  "chain_bootstrap n =
     (let lg = nc_ledger n; snap = genesis_snapshot lg;
          segments = enumerate 0 (chunks CHAIN_SEGMENT_BLOCKS (chain lg)) in
      \<lparr>boot_genesis_allocations = snap_genesis_allocations snap, boot_vdf_rounds = snap_vdf_rounds snap,
       boot_launch_profile = snap_launch_profile snap, boot_genesis_block = hd (snap_blocks snap),
       boot_height = ledger_height lg, boot_tip_hash = tip_hash lg,
       boot_segment_summaries =
         map (\<lambda>(i, bs). \<lparr>seg_id = word_of_nat i, seg_end_height = height (last bs),
                          seg_end_block_hash = block_hash (last bs)\<rparr>)
           (filter (\<lambda>(_, bs). length bs = CHAIN_SEGMENT_BLOCKS) segments)\<rparr>)"

definition node_hello :: "string option \<Rightarrow> string option \<Rightarrow> u64 \<Rightarrow> NodeCore \<Rightarrow> GossipEnvelope" where
  "node_hello listen_addr node_id now n =
     GHello \<lparr>ph_protocol_version = PROTOCOL_VERSION, ph_capabilities = protocol_capabilities,
       ph_network_id = NETWORK_ID, ph_genesis_hash = ledger_genesis_hash (nc_ledger n),
       ph_listen_addr = listen_addr, ph_node_id = node_id, ph_height = ledger_height (nc_ledger n),
       ph_tip_hash = tip_hash (nc_ledger n), ph_time_ms = now\<rparr>"

definition node_peer_status :: "u64 \<Rightarrow> NodeCore \<Rightarrow> GossipEnvelope" where
  "node_peer_status now n = GPeerStatus (ledger_height (nc_ledger n)) (tip_hash (nc_ledger n)) now"

definition blocks_by_hash :: "string list \<Rightarrow> NodeCore \<Rightarrow> Block list" where
  "blocks_by_hash hashes n = List.map_filter (block_by_hash (nc_ledger n)) hashes"

definition missing_inventory_request :: "BlockInventory list \<Rightarrow> NodeCore \<Rightarrow> GossipEnvelope option" where
  "missing_inventory_request blocks n =
     (let lg = nc_ledger n; local_height = ledger_height lg;
          unknown = filter (\<lambda>b. \<not> has_block lg (inv_hash b)) blocks;
          ahead = map inv_height (filter (\<lambda>b. local_height + 1 < inv_height b) unknown) in
      if ahead \<noteq> [] then Some (GBlockRangeRequest (local_height + 1) BLOCK_REQUEST_LIMIT)
      else if unknown \<noteq> [] then Some (GBlockRequest (map inv_hash unknown))
      else None)"
end
