(* ===== verification/Node_Facts.thy ===== *)
theory Node_Facts
  imports Node Rank_Facts
begin

text \<open>
  What the node's operations guarantee: the outbox stays within its limits, the ledger moves only by
  the steps of the ledger, a member that contradicts itself is barred, and only what is new is
  passed on.
\<close>

section \<open>The outbox\<close>

definition queued :: "(GossipEnvelope \<times> nat) list \<Rightarrow> nat" where
  "queued q = sum_list (map snd q)"

text \<open>
  The messages in the outbox respect both limits. The counter never falls below their size; it is
  exact as long as the chain has not been reset to the setup placeholder.
\<close>

definition outbox_inv :: "NodeCore \<Rightarrow> bool" where
  "outbox_inv n \<longleftrightarrow> length (nc_outbox n) \<le> MAX_GOSSIP_OUTBOX_ENTRIES \<and>
     queued (nc_outbox n) \<le> MAX_GOSSIP_OUTBOX_BYTES \<and> queued (nc_outbox n) \<le> nc_outbox_bytes n"

definition outbox_exact :: "NodeCore \<Rightarrow> bool" where
  "outbox_exact n \<longleftrightarrow> outbox_inv n \<and> nc_outbox_bytes n = queued (nc_outbox n)"

lemma queued_simps [simp]:
  "queued [] = 0" "queued (e # q) = snd e + queued q" "queued (p @ q) = queued p + queued q"
  by (simp_all add: queued_def)

lemma trimmed:
  assumes "trim_outbox s q c = (q', c')" and "queued q \<le> c"
  shows "queued q' \<le> c' \<and> (c = queued q \<longrightarrow> c' = queued q') \<and>
    (q' = [] \<or> length q' < MAX_GOSSIP_OUTBOX_ENTRIES \<and> usize_saturating_add c' s \<le> MAX_GOSSIP_OUTBOX_BYTES)"
  using assms
proof (induction s q c rule: trim_outbox.induct)
  case (2 s e rest c)
  then show ?case
    by (cases "MAX_GOSSIP_OUTBOX_ENTRIES \<le> length (e # rest) \<or> MAX_GOSSIP_OUTBOX_BYTES < usize_saturating_add c s") auto
qed simp

lemma small_add: "usize_saturating_add a b \<le> MAX_GOSSIP_OUTBOX_BYTES \<Longrightarrow> usize_saturating_add a b = a + b"
  by (simp add: usize_saturating_add_def MAX_GOSSIP_OUTBOX_BYTES_def min_def split: if_splits)

lemma enqueue_outbox:
  assumes "outbox_inv n"
  shows "outbox_inv (enqueue_gossip sz e n)" and "outbox_exact n \<Longrightarrow> outbox_exact (enqueue_gossip sz e n)"
proof -
  define s where "s = (case sz e of Inr s \<Rightarrow> s | Inl _ \<Rightarrow> 2 ^ 64 - 1)"
  obtain q' c where trim: "trim_outbox s (nc_outbox n) (nc_outbox_bytes n) = (q', c)" by (cases "trim_outbox s (nc_outbox n) (nc_outbox_bytes n)")
  have eq: "enqueue_gossip sz e n = (if MAX_GOSSIP_OUTBOX_BYTES < s then n
      else n\<lparr>nc_outbox := q' @ [(e, s)], nc_outbox_bytes := usize_saturating_add c s\<rparr>)"
    by (simp add: enqueue_gossip_def s_def [symmetric] trim)
  have facts: "queued q' \<le> c"
    "q' = [] \<or> length q' < MAX_GOSSIP_OUTBOX_ENTRIES \<and> usize_saturating_add c s \<le> MAX_GOSSIP_OUTBOX_BYTES"
    using trimmed [OF trim] assms by (simp_all add: outbox_inv_def)
  have entries: "0 < MAX_GOSSIP_OUTBOX_ENTRIES" by (simp add: MAX_GOSSIP_OUTBOX_ENTRIES_def)
  have grow: "s \<le> usize_saturating_add c s" if "s \<le> MAX_GOSSIP_OUTBOX_BYTES"
    using that by (simp add: usize_saturating_add_def MAX_GOSSIP_OUTBOX_BYTES_def)
  show "outbox_inv (enqueue_gossip sz e n)"
    using assms facts entries grow small_add [of c s]
    unfolding eq by (auto simp: outbox_inv_def not_less)
  assume exact: "outbox_exact n"
  then have "c = queued q'" using trimmed [OF trim] by (simp add: outbox_exact_def)
  moreover have "usize_saturating_add 0 s = s" if "s \<le> MAX_GOSSIP_OUTBOX_BYTES"
    using that by (simp add: usize_saturating_add_def MAX_GOSSIP_OUTBOX_BYTES_def)
  ultimately show "outbox_exact (enqueue_gossip sz e n)"
    using \<open>outbox_inv (enqueue_gossip sz e n)\<close> exact facts small_add [of c s]
    unfolding outbox_exact_def eq by (auto simp: not_less)
qed

text \<open>The reset clears the messages but keeps the counter, so that messages that fit are dropped.\<close>

lemma reset_keeps_counter:
  assumes "reset_chain_to_setup_placeholder cr n = (Inr (), n')"
  shows "nc_outbox n' = [] \<and> nc_outbox_bytes n' = nc_outbox_bytes n"
  using assms
  by (auto simp: reset_chain_to_setup_placeholder_def st_check_eq forget_bundles_def reset_automatic_mining_progress_def)

lemma stale_counter_drops:
  assumes "nc_outbox n = [(e, s)]" and "MAX_GOSSIP_OUTBOX_BYTES < nc_outbox_bytes n + s'"
    and "nc_outbox_bytes n \<le> 2 * MAX_GOSSIP_OUTBOX_BYTES" and "sz e' = Inr s'" and "s' \<le> MAX_GOSSIP_OUTBOX_BYTES"
  shows "nc_outbox (enqueue_gossip sz e' n) = [(e', s')]"
  using assms by (simp add: enqueue_gossip_def usize_saturating_add_def MAX_GOSSIP_OUTBOX_BYTES_def)

section \<open>What operations leave alone\<close>

lemma enqueue_keeps [simp]:
  "nc_ledger (enqueue_gossip sz e n) = nc_ledger n" "nc_burn_bundles (enqueue_gossip sz e n) = nc_burn_bundles n"
  "nc_equivocated (enqueue_gossip sz e n) = nc_equivocated n"
  "nc_bounded_history (enqueue_gossip sz e n) = nc_bounded_history n"
  "nc_persisted_tip (enqueue_gossip sz e n) = nc_persisted_tip n"
  "nc_wallet (enqueue_gossip sz e n) = nc_wallet n"
  by (auto simp: enqueue_gossip_def Let_def split: prod.splits)

lemma clear_keeps [simp]:
  "nc_ledger (clear_stale_local_block_anchor n) = nc_ledger n"
  "nc_outbox (clear_stale_local_block_anchor n) = nc_outbox n"
  "nc_outbox_bytes (clear_stale_local_block_anchor n) = nc_outbox_bytes n"
  "nc_burn_bundles (clear_stale_local_block_anchor n) = nc_burn_bundles n"
  "nc_equivocated (clear_stale_local_block_anchor n) = nc_equivocated n"
  "nc_ledger (clear_stale_burn_bundle_collection n) = nc_ledger n"
  "nc_outbox (clear_stale_burn_bundle_collection n) = nc_outbox n"
  "nc_outbox_bytes (clear_stale_burn_bundle_collection n) = nc_outbox_bytes n"
  "nc_burn_bundles (clear_stale_burn_bundle_collection n) = nc_burn_bundles n"
  "nc_equivocated (clear_stale_burn_bundle_collection n) = nc_equivocated n"
  by (auto simp: clear_stale_local_block_anchor_def clear_stale_burn_bundle_collection_def split: option.splits)

lemma prune_bundles_keeps [simp]:
  "nc_ledger (prune_burn_bundles n) = nc_ledger n" "nc_outbox (prune_burn_bundles n) = nc_outbox n"
  "nc_outbox_bytes (prune_burn_bundles n) = nc_outbox_bytes n"
  by (simp_all add: prune_burn_bundles_def Let_def)

lemma prune_history_keeps [simp]:
  "nc_outbox (prune_persisted_history n) = nc_outbox n"
  "nc_outbox_bytes (prune_persisted_history n) = nc_outbox_bytes n"
  "nc_burn_bundles (prune_persisted_history n) = nc_burn_bundles n"
  "nc_equivocated (prune_persisted_history n) = nc_equivocated n"
  by (auto simp: prune_persisted_history_def Let_def split: option.splits prod.splits)

lemma after_import_keeps [simp]:
  "nc_ledger (after_import n) = nc_ledger n" "nc_outbox (after_import n) = nc_outbox n"
  "nc_outbox_bytes (after_import n) = nc_outbox_bytes n"
  by (simp_all add: after_import_def)

lemma with_ledger_eq: "with_ledger f n = (r, n') \<longleftrightarrow> (\<exists>lg. f (nc_ledger n) = (r, lg) \<and> n' = n\<lparr>nc_ledger := lg\<rparr>)"
  by (auto simp: with_ledger_def split: prod.splits)

lemma outbox_inv_cong:
  "nc_outbox n' = nc_outbox n \<Longrightarrow> nc_outbox_bytes n' = nc_outbox_bytes n \<Longrightarrow> outbox_exact n' = outbox_exact n"
  by (simp add: outbox_exact_def outbox_inv_def)

section \<open>The resident ledger\<close>

lemma transition_keeps_pruned: "block_transition cr lg b = Inr lg' \<Longrightarrow> history_pruned lg' = history_pruned lg"
  by (elim block_transitionE) (rule committed_history(2))

lemma block_result:
  assumes "apply_block_with_vdf_policy hs lg b v now = (r, lg')"
  shows "lg' = lg \<or> chain lg' = chain lg @ [b] \<and> history_pruned lg' = history_pruned lg \<and> follows (h_crypto hs) (tip lg) b"
proof -
  consider "lg' = lg" | lg1 where "precheck_block_without_vdf_at hs lg b now = Inr True"
    "block_transition (h_crypto hs) lg b = Inr lg1" "confirmed lg' = confirmed lg1"
    using apply_block_atomic [OF assms] by blast
  then show ?thesis
  proof cases
    case (2 lg1)
    then have "chain lg' = chain lg1" "history_pruned lg' = history_pruned lg1"
      using confirmed_keeps(1,8) by metis+
    then show ?thesis
      using block_extends_chain [OF 2(2)] transition_keeps_pruned [OF 2(2)] precheck_follows [OF 2(1)] by simp
  qed simp
qed

lemma tail_from_snoc: "tail_from k tail \<Longrightarrow> unat (height b) = k + length tail \<Longrightarrow> tail_from k (tail @ [b])"
  by (auto simp: tail_from_def nth_append less_Suc_eq)

lemma window_tip: "chain lg = g # tail \<Longrightarrow> tail_from k tail \<Longrightarrow> tail \<noteq> [] \<Longrightarrow> unat (height (tip lg)) + 1 = k + length tail"
  by (simp add: tip_def last_conv_nth tail_from_def)

lemma window_extend:
  assumes "window_ok lg" and "chain lg' = chain lg @ [b]" and "history_pruned lg' = history_pruned lg"
    and next_height: "unat (height b) = unat (height (tip lg)) + 1"
  shows "window_ok lg'"
proof -
  obtain g tail k where w: "chain lg = g # tail" "height g = 0" "0 < k" "tail_from k tail" "history_pruned lg \<or> k = 1"
    using assms(1) by (rule window_okE)
  show ?thesis
  proof (cases "tail = []")
    case True
    then have "tail_from 1 [b]" using w next_height by (simp add: tail_from_def tip_def)
    then show ?thesis using assms w True unfolding window_ok_def by fastforce
  next
    case False
    then have "tail_from k (tail @ [b])"
      using tail_from_snoc [OF w(4)] window_tip [OF w(1,4)] next_height by simp
    then show ?thesis using assms(2,3) w unfolding window_ok_def by fastforce
  qed
qed

lemma window_below_tip:
  assumes "window_ok lg" and "b \<in> set (chain lg)"
  shows "unat (height b) \<le> unat (height (tip lg))"
proof -
  obtain g tail k where w: "chain lg = g # tail" "height g = 0" "0 < k" "tail_from k tail"
    using assms(1) by (rule window_okE)
  show ?thesis
  proof (cases "b \<in> set tail")
    case True
    then obtain i where "i < length tail" "b = tail ! i" by (auto simp: in_set_conv_nth)
    then show ?thesis
      using w(4) window_tip [OF w(1,4)] True by (cases "tail = []") (auto simp: tail_from_def)
  next
    case False
    then show ?thesis using assms(2) w(1,2) by simp
  qed
qed

lemma window_unique:
  "window_ok lg \<Longrightarrow> b \<in> set (chain lg) \<Longrightarrow> c \<in> set (chain lg) \<Longrightarrow> height b = height c \<Longrightarrow> b = c"
  using resident_block_iff by (metis option.inject)

lemma window_nonempty: "window_ok lg \<Longrightarrow> tip lg \<in> set (chain lg)"
  by (auto simp: window_ok_def tip_def)

lemma linked_extend:
  assumes lg: "window_linked cr lg" and ext: "chain lg' = chain lg @ [b]" "history_pruned lg' = history_pruned lg"
    and new: "follows cr (tip lg) b"
  shows "window_linked cr lg'"
proof -
  have ok: "window_ok lg" using lg by (simp add: window_linked_def)
  have next_height: "unat (height b) = unat (height (tip lg)) + 1" using new by (simp add: follows_def)
  have "follows cr c d" if cd: "c \<in> set (chain lg')" "d \<in> set (chain lg')" "unat (height d) = unat (height c) + 1" for c d
  proof -
    consider "c \<in> set (chain lg)" "d \<in> set (chain lg)" | "c \<in> set (chain lg)" "d = b" | "c = b" "d \<in> set (chain lg)" | "c = b" "d = b"
      using cd(1,2) unfolding ext(1) by auto
    then show ?thesis
    proof cases
      case 1
      then show ?thesis using lg cd(3) by (simp add: window_linked_def)
    next
      case 2
      then have "height c = height (tip lg)" using cd(3) next_height by (simp add: word_unat_eq_iff)
      then have "c = tip lg" by (rule window_unique [OF ok 2(1) window_nonempty [OF ok]])
      then show ?thesis using new 2 by simp
    next
      case 3
      then show ?thesis using window_below_tip [OF ok 3(2)] next_height cd(3) by simp
    next
      case 4
      then show ?thesis using cd(3) by simp
    qed
  qed
  then show ?thesis using window_extend [OF ok ext next_height] unfolding window_linked_def by blast
qed

inductive resident_step :: "host \<Rightarrow> Ledger \<Rightarrow> Ledger \<Rightarrow> bool" for hs where
  ledger_moves: "ledger_step hs lg lg' \<Longrightarrow> resident_step hs lg lg'"
| history_pruning: "resident_step hs lg (retain_recent_chain_blocks k lg)"

text \<open>What is resident is a linked window of the chain, and the pools are consistent.\<close>

definition resident_inv :: "host \<Rightarrow> Ledger \<Rightarrow> bool" where
  "resident_inv hs lg \<longleftrightarrow> window_linked (h_crypto hs) lg \<and> pool_inv hs lg"

lemma retain_keeps_pools: "pool_inv hs (retain_recent_chain_blocks k lg) = pool_inv hs lg"
  by (simp add: retain_recent_chain_blocks_def Let_def pool_inv_def)

lemma retain_tip: "tip (retain_recent_chain_blocks k lg) = tip lg"
  by (simp add: retain_recent_chain_blocks_def Let_def tip_def)

lemma window_cong:
  "chain lg' = chain lg \<Longrightarrow> history_pruned lg' = history_pruned lg \<Longrightarrow> window_linked cr lg' = window_linked cr lg"
  by (simp add: window_linked_def window_ok_def)

lemma outside_pruned:
  assumes "outside_pools lg' = outside_pools lg"
  shows "chain lg' = chain lg \<and> history_pruned lg' = history_pruned lg"
proof -
  have "chain (outside_pools lg') = chain (outside_pools lg)"
    "history_pruned (outside_pools lg') = history_pruned (outside_pools lg)"
    using assms by simp_all
  then show ?thesis by (simp add: outside_pools_def)
qed

lemma step_shape:
  assumes "ledger_step hs lg lg'"
  shows "chain lg' = chain lg \<and> history_pruned lg' = history_pruned lg \<or>
    (\<exists>b. chain lg' = chain lg @ [b] \<and> history_pruned lg' = history_pruned lg \<and> follows (h_crypto hs) (tip lg) b)"
  using assms
proof (cases rule: ledger_step.cases)
  case (submit tx r)
  then show ?thesis using outside_pruned [OF submit_outside [OF submit]] by simp
next
  case (submit_v2 tx r)
  then show ?thesis
    using submit_v2_effect [of lg tx "h_crypto hs"] unfolding v2_submission_effect_def by auto
next
  case (apply_block b v now u)
  then show ?thesis using block_result by blast
qed

lemma block_keeps_pools:
  assumes "json_total hs" and "apply_block_with_vdf_policy hs lg b v now = (u, lg')" and "pool_inv hs lg"
  shows "pool_inv hs lg'"
proof -
  have "lg' = lg \<or> (\<exists>lg1. block_transition (h_crypto hs) lg b = Inr lg1 \<and> repair_pools hs lg1 b = (u, lg'))"
    using assms(2) by (auto simp: apply_block_with_vdf_policy_def st_check_eq split: if_splits)
  then show ?thesis
  proof (elim disjE exE conjE)
    fix lg1
    assume trans: "block_transition (h_crypto hs) lg b = Inr lg1" and repair: "repair_pools hs lg1 b = (u, lg')"
    have "pool_inv hs lg1" using assms(3) transition_keeps_pools [OF trans] by (simp add: pool_inv_def)
    then show ?thesis by (rule repair_inv [OF assms(1) _ repair])
  qed (use assms(3) in simp)
qed

lemma step_keeps_pools:
  assumes "json_total hs" and "ledger_step hs lg lg'" and "pool_inv hs lg"
  shows "pool_inv hs lg'"
  using assms(2)
proof (cases rule: ledger_step.cases)
  case (submit tx r)
  then show ?thesis using submit_inv assms(3) by blast
next
  case (submit_v2 tx r)
  then show ?thesis
    using submit_v2_effect [of lg tx "h_crypto hs"] assms(3) unfolding v2_submission_effect_def
    by (auto simp: pool_inv_def)
next
  case (apply_block b v now u)
  then show ?thesis using block_keeps_pools assms(1,3) by blast
qed

lemma resident_step_inv:
  assumes "json_total hs" and "resident_step hs lg lg'" and "resident_inv hs lg"
  shows "resident_inv hs lg'" and "unat (ledger_height lg) \<le> unat (ledger_height lg')"
proof -
  have "resident_inv hs lg' \<and> unat (ledger_height lg) \<le> unat (ledger_height lg')"
    using assms(2)
  proof (cases rule: resident_step.cases)
    case ledger_moves
    have pools: "pool_inv hs lg'"
      using step_keeps_pools [OF assms(1) ledger_moves] assms(3) by (simp add: resident_inv_def)
    from step_shape [OF ledger_moves] show ?thesis
    proof (elim disjE exE conjE)
      assume same: "chain lg' = chain lg" "history_pruned lg' = history_pruned lg"
      then have "window_linked (h_crypto hs) lg'"
        using window_cong [OF same] assms(3) by (simp add: resident_inv_def)
      then show ?thesis
        using same(1) pools by (simp add: resident_inv_def ledger_height_def tip_def)
    next
      fix b
      assume b: "chain lg' = chain lg @ [b]" "history_pruned lg' = history_pruned lg" "follows (h_crypto hs) (tip lg) b"
      then have "window_linked (h_crypto hs) lg'"
        using linked_extend [OF _ b] assms(3) by (simp add: resident_inv_def)
      moreover have "tip lg' = b" using b(1) by (simp add: tip_def)
      ultimately show ?thesis
        using b(3) pools by (simp add: resident_inv_def ledger_height_def follows_def)
    qed
  next
    case (history_pruning k)
    then show ?thesis
      using assms(3) by (simp add: resident_inv_def retained_linked retain_keeps_pools ledger_height_def retain_tip)
  qed
  then show "resident_inv hs lg'" "unat (ledger_height lg) \<le> unat (ledger_height lg')" by simp_all
qed

lemma resident_run:
  assumes "(resident_step hs)\<^sup>*\<^sup>* lg lg'" and "json_total hs" and "resident_inv hs lg"
  shows "resident_inv hs lg' \<and> unat (ledger_height lg) \<le> unat (ledger_height lg')"
  using assms(1)
proof (induction rule: rtranclp_induct)
  case (step lg1 lg2)
  then show ?case using resident_step_inv [OF assms(2)] by (meson order.trans)
qed (use assms(3) in simp)

end
