(* ===== verification/Node_Moves.thy ===== *)
theory Node_Moves
  imports Node_Facts
begin

text \<open>
  The runs of a node. Every operation that peers or the program's own loops trigger moves the node
  in a way that composes: the outbox stays exact, the ledger moves by the steps of the ledger, the
  stored bundles stay consistent, and a barred slot stays barred until its height has passed.
\<close>

section \<open>Admissible moves\<close>

text \<open>
  A bundle is stored under its own slot, signed by its member and never under a barred slot. A slot
  is barred only on evidence: two different bundles that its member has signed.
\<close>

definition signed_by_member :: "crypto \<Rightarrow> BurnBundle \<Rightarrow> bool" where
  "signed_by_member cr b \<longleftrightarrow>
     verify_address_signature cr (bb_member b) (bundle_canonical_payload b) (bb_signature b) ''burn bundle'' = Inr ()"

definition evidence :: "crypto \<Rightarrow> bundle_key \<Rightarrow> bool" where
  "evidence cr k \<longleftrightarrow> (\<exists>b c. bundle_key_of b = k \<and> bundle_key_of c = k \<and> signed_by_member cr b \<and>
     signed_by_member cr c \<and> bundle_canonical b \<noteq> bundle_canonical c)"

definition bundles_inv :: "crypto \<Rightarrow> NodeCore \<Rightarrow> bool" where
  "bundles_inv cr n \<longleftrightarrow>
     (\<forall>k b. bt_get (nc_burn_bundles n) k = Some b \<longrightarrow>
        bundle_key_of b = k \<and> signed_by_member cr b \<and> k \<notin> nc_equivocated n) \<and>
     (\<forall>k\<in>nc_equivocated n. evidence cr k)"

text \<open>What is known of a slot: the bundle with the text \<open>c\<close> is stored, or the slot is barred.\<close>

definition settled :: "NodeCore \<Rightarrow> bundle_key \<Rightarrow> string \<Rightarrow> bool" where
  "settled n k c \<longleftrightarrow>
     k \<in> nc_equivocated n \<or> (\<exists>b. bt_get (nc_burn_bundles n) k = Some b \<and> bundle_canonical b = c)"

definition slots_stay :: "NodeCore \<Rightarrow> NodeCore \<Rightarrow> bool" where
  "slots_stay n n' \<longleftrightarrow> (\<forall>k. unat (ledger_height (nc_ledger n')) < unat (fst k) \<longrightarrow>
     (k \<in> nc_equivocated n \<longrightarrow> k \<in> nc_equivocated n') \<and> (\<forall>c. settled n k c \<longrightarrow> settled n' k c))"

definition moves_ok :: "host \<Rightarrow> NodeCore \<Rightarrow> NodeCore \<Rightarrow> bool" where
  "moves_ok hs n n' \<longleftrightarrow> (outbox_exact n \<longrightarrow> outbox_exact n') \<and>
     (bundles_inv (h_crypto hs) n \<longrightarrow> bundles_inv (h_crypto hs) n') \<and>
     (resident_step hs)\<^sup>*\<^sup>* (nc_ledger n) (nc_ledger n') \<and> slots_stay n n'"

lemmas move_defs = moves_ok_def outbox_exact_def outbox_inv_def bundles_inv_def slots_stay_def settled_def

lemma step_height:
  assumes "resident_step hs lg lg'"
  shows "unat (ledger_height lg) \<le> unat (ledger_height lg')"
  using assms
proof (cases rule: resident_step.cases)
  case ledger_moves
  from step_shape [OF this] show ?thesis
    by (elim disjE exE conjE) (simp_all add: ledger_height_def tip_def follows_def)
next
  case (history_pruning k)
  then show ?thesis by (simp add: ledger_height_def retain_tip)
qed

lemma run_height:
  assumes "(resident_step hs)\<^sup>*\<^sup>* lg lg'"
  shows "unat (ledger_height lg) \<le> unat (ledger_height lg')"
  using assms
proof (induction rule: rtranclp_induct)
  case (step lg1 lg2)
  then show ?case using step_height by (meson order.trans)
qed simp

lemma moves_refl [simp]: "moves_ok hs n n"
  by (simp add: moves_ok_def slots_stay_def)

lemma moves_trans:
  assumes "moves_ok hs n n1" and "moves_ok hs n1 n2"
  shows "moves_ok hs n n2"
proof -
  have "unat (ledger_height (nc_ledger n1)) \<le> unat (ledger_height (nc_ledger n2))"
    using assms(2) run_height unfolding moves_ok_def by blast
  then have "slots_stay n n2"
    using assms unfolding moves_ok_def slots_stay_def by (meson le_less_trans)
  then show ?thesis
    using assms unfolding moves_ok_def by (meson rtranclp_trans)
qed

text \<open>A move of the ledger alone, and a move that leaves ledger, bundles and outbox alone.\<close>

lemma ledger_moves_ok:
  assumes "(resident_step hs)\<^sup>*\<^sup>* (nc_ledger n) lg"
  shows "moves_ok hs n (n\<lparr>nc_ledger := lg\<rparr>)"
  using assms by (simp add: move_defs)

lemma frame_ok:
  assumes "nc_ledger n' = nc_ledger n" and "nc_outbox n' = nc_outbox n" and "nc_outbox_bytes n' = nc_outbox_bytes n"
    and "nc_burn_bundles n' = nc_burn_bundles n" and "nc_equivocated n' = nc_equivocated n"
  shows "moves_ok hs n n'"
  using assms by (simp add: move_defs)

section \<open>The parts of an operation\<close>

lemma enqueue_ok: "moves_ok hs n (enqueue_gossip sz e n)"
  using enqueue_outbox [of n sz e]
  by (auto simp: moves_ok_def outbox_exact_def bundles_inv_def slots_stay_def settled_def)

lemma enqueue_all_ok: "moves_ok hs n (foldl (\<lambda>n b. enqueue_gossip sz (g b) n) n bs)"
  by (induction bs arbitrary: n) (auto intro: moves_trans [OF enqueue_ok])

lemma prune_bundles_ok: "moves_ok hs n (prune_burn_bundles n)"
  by (auto simp: move_defs prune_burn_bundles_def
      bt_retain_get word_less_nat_alt Let_def)

lemma after_import_ok: "moves_ok hs n (after_import n)"
  unfolding after_import_def
  by (intro moves_trans [OF _ prune_bundles_ok]) (simp add: frame_ok)

lemma prune_history_ok: "moves_ok hs n (prune_persisted_history n)"
proof -
  have ok: "moves_ok hs n (n\<lparr>nc_ledger := retain_recent_chain_blocks k (nc_ledger n)\<rparr>)" for k
    by (intro ledger_moves_ok r_into_rtranclp history_pruning)
  show ?thesis
    unfolding prune_persisted_history_def Let_def
    by (simp add: ok split: option.split prod.split)
qed

lemma with_ledger_ok:
  assumes "\<And>r lg. f (nc_ledger n) = (r, lg) \<Longrightarrow> ledger_step hs (nc_ledger n) lg"
  shows "moves_ok hs n (snd (with_ledger f n))"
proof -
  obtain r lg where f: "f (nc_ledger n) = (r, lg)" by (cases "f (nc_ledger n)")
  have "resident_step hs (nc_ledger n) lg" by (rule ledger_moves [OF assms [OF f]])
  then show ?thesis using ledger_moves_ok by (auto simp: with_ledger_def f)
qed

lemma then_ok:
  assumes "moves_ok hs n (snd r)" and "\<And>x s. r = (Inr x, s) \<Longrightarrow> moves_ok hs s (snd (f x s))"
  shows "moves_ok hs n (snd (st_then r f))"
proof (cases "fst r")
  case (Inl e)
  then show ?thesis using assms(1) by (cases r) simp
next
  case (Inr x)
  then have r: "r = (Inr x, snd r)" by (cases r) simp
  have "snd (st_then r f) = snd (f x (snd r))" by (subst r) simp
  then show ?thesis using moves_trans [OF assms(1) assms(2) [OF r]] by simp
qed

lemma check_ok: "(\<And>x. r = Inr x \<Longrightarrow> moves_ok hs n (snd (f x))) \<Longrightarrow> moves_ok hs n (snd (st_check r n f))"
  by (cases r) auto

lemma each_ok: "(\<And>x n. moves_ok hs n (snd (f x n))) \<Longrightarrow> moves_ok hs n (snd (st_each f xs n))"
  by (induction xs arbitrary: n) (auto intro: then_ok)

lemma received_ok:
  assumes "\<And>r lg. f (nc_ledger n) = (r, lg) \<Longrightarrow> ledger_step hs (nc_ledger n) lg"
    and "with_ledger f n = (r, n1)"
  shows "moves_ok hs n n1" and "moves_ok hs n (if c then enqueue_gossip sz e n1 else n1)"
proof -
  have "moves_ok hs n (snd (with_ledger f n))" by (rule with_ledger_ok) (rule assms(1))
  then show moved: "moves_ok hs n n1" using assms(2) by simp
  show "moves_ok hs n (if c then enqueue_gossip sz e n1 else n1)"
    using moves_trans [OF moved enqueue_ok] moved by simp
qed

section \<open>The operations\<close>

lemma transaction_ok: "moves_ok hs n (snd (receive_gossiped_transaction hs sz tx n))"
proof -
  obtain r n1 where w: "with_ledger (\<lambda>lg. submit_transaction_with_outcome hs lg tx) n = (r, n1)"
    by (cases "with_ledger (\<lambda>lg. submit_transaction_with_outcome hs lg tx) n")
  note moved = received_ok [OF submit w]
  show ?thesis unfolding receive_gossiped_transaction_def w using moved by (cases r) auto
qed

lemma transaction_v2_ok: "moves_ok hs n (snd (receive_gossiped_transaction_v2 hs sz envelope n))"
proof -
  have "moves_ok hs n (snd (case with_ledger (\<lambda>lg. submit_transaction_v2 (h_crypto hs) lg tx) n of
        (Inr outcome, n') \<Rightarrow>
          (Inr (), if outcome_added outcome then enqueue_gossip sz e n' else n')
      | (Inl e, n') \<Rightarrow> if error_has_validation e (\<lambda>k. k = MempoolConflict) then (Inr (), n') else (Inl e, n')))" for tx e
  proof -
    obtain r n1 where w: "with_ledger (\<lambda>lg. submit_transaction_v2 (h_crypto hs) lg tx) n = (r, n1)"
      by (cases "with_ledger (\<lambda>lg. submit_transaction_v2 (h_crypto hs) lg tx) n")
    note moved = received_ok [OF submit_v2 w]
    show ?thesis unfolding w using moved by (cases r) auto
  qed
  then show ?thesis unfolding receive_gossiped_transaction_v2_def by (intro check_ok)
qed

lemma public_v2_ok: "moves_ok hs n (snd (submit_public_transaction_v2 hs sz tx n))"
  unfolding submit_public_transaction_v2_def
proof (intro check_ok then_ok)
  show "moves_ok hs n (snd (with_ledger (\<lambda>lg. submit_transaction_v2 (h_crypto hs) lg tx) n))"
    by (intro with_ledger_ok submit_v2)
qed (auto intro: enqueue_ok)

lemma store_ok:
  assumes "signed_by_member (h_crypto hs) bundle"
  shows "moves_ok hs n (store_burn_bundle sz bundle n)"
proof -
  let ?k = "bundle_key_of bundle"
  have fresh: "moves_ok hs n (n\<lparr>nc_burn_bundles := bt_insert ?k bundle (nc_burn_bundles n)\<rparr>)"
    if "?k \<notin> nc_equivocated n" "bt_get (nc_burn_bundles n) ?k = None"
    using that assms by (auto simp: move_defs)
  have barred: "moves_ok hs n (n\<lparr>nc_burn_bundles := bt_remove ?k (nc_burn_bundles n),
      nc_equivocated := insert ?k (nc_equivocated n)\<rparr>)"
    if "bt_get (nc_burn_bundles n) ?k = Some b" "bundle_canonical b \<noteq> bundle_canonical bundle" for b
  proof -
    have "evidence (h_crypto hs) ?k" if "bundles_inv (h_crypto hs) n"
      using that assms \<open>bt_get _ _ = _\<close> \<open>bundle_canonical b \<noteq> _\<close> unfolding bundles_inv_def evidence_def by metis
    then show ?thesis by (auto simp: move_defs split: if_splits)
  qed
  show ?thesis
    using moves_trans [OF fresh enqueue_ok] barred
    by (auto simp: store_burn_bundle_def Let_def split: option.split)
qed

text \<open>The precheck of a bundle verifies its signature, whatever committee accepts it.\<close>

lemma first_success_OkE: "first_success e f xs = Inr y \<Longrightarrow> (\<And>x. x \<in> set xs \<Longrightarrow> f x = Inr y \<Longrightarrow> P) \<Longrightarrow> P"
  by (induction xs) (auto split: sum.splits)

lemma precheck_signed:
  assumes "precheck_next_block_burn_bundle hs lg bundle = Inr u"
  shows "signed_by_member (h_crypto hs) bundle"
  using assms unfolding precheck_next_block_burn_bundle_def
  by (elim first_success_OkE)
    (auto simp: precheck_burn_bundle_for_block_def check_expanded_bundle_def signed_by_member_def and_then_eq_Inr Let_def
      split: if_splits)

lemma bundle_ok: "moves_ok hs n (snd (receive_burn_bundle hs sz bundle n))"
  unfolding receive_burn_bundle_def Let_def
  by (auto intro!: check_ok then_ok each_ok transaction_ok transaction_v2_ok store_ok dest: precheck_signed)

lemma block_ok: "moves_ok hs n (snd (receive_block hs sz v now b n))"
  unfolding receive_block_def
proof (intro then_ok)
  show "moves_ok hs n (snd (with_ledger (\<lambda>lg. apply_block_with_vdf_policy hs lg b v now) n))"
    by (intro with_ledger_ok apply_block)
qed (auto intro: moves_trans [OF after_import_ok moves_trans [OF enqueue_ok prune_history_ok]])

lemma import_ok: "moves_ok hs n (snd (import_blocks hs clock i imported bs n))"
proof (induction bs arbitrary: i imported n)
  case (Cons b bs)
  show ?case
    unfolding import_blocks.simps
  proof (intro then_ok)
    show "moves_ok hs n (snd (with_ledger (\<lambda>lg. apply_block_at hs lg b (clock i)) n))"
      by (intro with_ledger_ok) (auto simp: apply_block_at_def intro: apply_block)
  qed (auto intro: Cons.IH moves_trans [OF after_import_ok Cons.IH])
qed simp

lemma receive_ok: "moves_ok hs n (snd (node_receive hs sz clock e n))"
proof (cases e)
  case (GBlocks bs)
  then show ?thesis
    by (auto intro!: then_ok import_ok moves_trans [OF enqueue_all_ok prune_history_ok])
qed (simp_all add: transaction_ok transaction_v2_ok bundle_ok block_ok each_ok)

lemma drain_ok: "moves_ok hs n (snd (drain_outbox n))"
  by (simp add: drain_outbox_def move_defs)

section \<open>Runs\<close>

inductive node_step :: "host \<Rightarrow> envelope_len \<Rightarrow> NodeCore \<Rightarrow> NodeCore \<Rightarrow> bool" for hs sz where
  message: "node_receive hs sz clock e n = (r, n') \<Longrightarrow> node_step hs sz n n'"
| preverified: "receive_preverified_block_at hs sz b now n = (r, n') \<Longrightarrow> node_step hs sz n n'"
| own_transaction: "submit_public_transaction_v2 hs sz tx n = (r2, n') \<Longrightarrow> node_step hs sz n n'"
| sent: "drain_outbox n = (es, n') \<Longrightarrow> node_step hs sz n n'"
| saved: "node_step hs sz n (mark_chain_persisted h hash n)"
| bounded: "node_step hs sz n (bound_resident_chain_history n)"
| complete: "node_step hs sz n (keep_complete_chain_history n)"
| restarted: "node_step hs sz n (reset_automatic_mining_progress n)"

lemma node_step_ok:
  assumes "node_step hs sz n n'"
  shows "moves_ok hs n n'"
  using assms
proof (cases rule: node_step.cases)
  case (message clock e r)
  then show ?thesis using receive_ok by (metis snd_conv)
next
  case (preverified b now r)
  then show ?thesis using block_ok unfolding receive_preverified_block_at_def by (metis snd_conv)
next
  case (own_transaction tx r)
  then show ?thesis using public_v2_ok by (metis snd_conv)
next
  case (sent es)
  then show ?thesis using drain_ok by (metis snd_conv)
next
  case (saved h hash)
  have "moves_ok hs n (n\<lparr>nc_persisted_tip := Some (h, hash)\<rparr>)" by (rule frame_ok) simp_all
  then show ?thesis unfolding saved mark_chain_persisted_def by (rule moves_trans [OF _ prune_history_ok])
next
  case bounded
  have "moves_ok hs n (n\<lparr>nc_bounded_history := True\<rparr>)" by (rule frame_ok) simp_all
  then show ?thesis unfolding bounded bound_resident_chain_history_def by (rule moves_trans [OF _ prune_history_ok])
next
  case complete
  then show ?thesis by (simp add: keep_complete_chain_history_def frame_ok)
next
  case restarted
  then show ?thesis by (simp add: reset_automatic_mining_progress_def frame_ok)
qed

lemma node_run_ok: "(node_step hs sz)\<^sup>*\<^sup>* n n' \<Longrightarrow> moves_ok hs n n'"
  by (induction rule: rtranclp_induct) (auto intro: moves_trans node_step_ok)

end
