(* ===== verification/Node_Results.thy ===== *)
theory Node_Results
  imports Node_Moves Block_Facts
begin

text \<open>
  What runs of a node guarantee: members that contradict themselves are barred, unsaved blocks stay
  in memory, a block is passed on once, and the capabilities of a peer are checked exactly.
\<close>

section \<open>Members that contradict themselves\<close>

lemma stored_settles: "settled (store_burn_bundle sz b n) (bundle_key_of b) (bundle_canonical b)"
  by (auto simp: settled_def store_burn_bundle_def Let_def split: option.split)

lemma contradiction_bars:
  assumes "settled n (bundle_key_of b) c" and "c \<noteq> bundle_canonical b"
  shows "bundle_key_of b \<in> nc_equivocated (store_burn_bundle sz b n)"
  using assms by (auto simp: settled_def store_burn_bundle_def Let_def split: option.splits)

lemma st_check_OkE: "st_check r s f = (Inr y, s') \<Longrightarrow> (\<And>x. r = Inr x \<Longrightarrow> f x = (Inr y, s') \<Longrightarrow> P) \<Longrightarrow> P"
  by (cases r) auto

lemma st_then_OkE: "st_then r f = (Inr y, s') \<Longrightarrow> (\<And>x s. r = (Inr x, s) \<Longrightarrow> f x s = (Inr y, s') \<Longrightarrow> P) \<Longrightarrow> P"
  by (cases r; cases "fst r") auto

lemma received_bundle:
  assumes "receive_burn_bundle hs sz b n = (Inr (), n')"
    and "bb_height b = saturating_add (ledger_height (nc_ledger n)) 1" and "ledger_height (nc_ledger n) < bb_height b"
  obtains m where "moves_ok hs n m" "n' = store_burn_bundle sz b m"
proof -
  have "\<not> bb_height b \<le> ledger_height (nc_ledger n)" "\<not> saturating_add (ledger_height (nc_ledger n)) 1 < bb_height b"
    using assms(2,3) by simp_all
  then have run: "st_check (precheck_next_block_burn_bundle hs (nc_ledger n) b) n (\<lambda>_.
      st_then (st_each (receive_gossiped_transaction hs sz) (bb_burns b) n) (\<lambda>_ n1.
      st_then (st_each (receive_gossiped_transaction_v2 hs sz) (bb_burns_v2 b) n1) (\<lambda>_ n2.
      st_check (validate_next_block_burn_bundles hs (nc_ledger n2) [b]) n2 (\<lambda>_.
      (Inr (), store_burn_bundle sz b n2))))) = (Inr (), n')"
    using assms(1) unfolding receive_burn_bundle_def Let_def by (simp only: if_False)
  from run show thesis
  proof (elim st_check_OkE st_then_OkE)
    fix u u' n1 n2
    assume txs: "st_each (receive_gossiped_transaction hs sz) (bb_burns b) n = (Inr u, n1)"
      "st_each (receive_gossiped_transaction_v2 hs sz) (bb_burns_v2 b) n1 = (Inr u', n2)"
      and stored: "(Inr (), store_burn_bundle sz b n2) = (Inr (), n')"
    have "moves_ok hs n (snd (st_each (receive_gossiped_transaction hs sz) (bb_burns b) n))"
      "moves_ok hs n1 (snd (st_each (receive_gossiped_transaction_v2 hs sz) (bb_burns_v2 b) n1))"
      by (intro each_ok transaction_ok transaction_v2_ok)+
    then have "moves_ok hs n n1" "moves_ok hs n1 n2" using txs by simp_all
    then have "moves_ok hs n n2" by (rule moves_trans)
    then show thesis using stored by (intro that [of n2]) simp_all
  qed
qed

lemma next_height: "h \<noteq> (- 1 :: u64) \<Longrightarrow> unat (saturating_add h 1) = unat h + 1"
proof -
  assume "h \<noteq> - 1"
  then have "unat h \<noteq> unat (- 1 :: u64)" by (simp add: word_unat_eq_iff)
  then have "unat h \<noteq> 2 ^ 64 - 1" by (simp add: unsigned_minus_1_eq_mask mask_eq_exp_minus_1)
  moreover have "unat h < 2 ^ 64" using unat_less_power [of h] by simp
  ultimately show ?thesis by (simp add: unat_saturating_add)
qed

lemma store_ledger [simp]: "nc_ledger (store_burn_bundle sz b n) = nc_ledger n"
  by (auto simp: store_burn_bundle_def Let_def split: option.split)

lemma usable_bundle:
  assumes "bundles_inv cr n" and "b \<in> set (usable_burn_bundles n)"
  shows "bb_height b = saturating_add (ledger_height (nc_ledger n)) 1" and "bundle_key_of b \<notin> nc_equivocated n"
proof -
  obtain k where k: "bt_get (nc_burn_bundles n) k = Some b" "fst k = saturating_add (ledger_height (nc_ledger n)) 1"
      "k \<notin> nc_equivocated n"
    using assms(2) by (auto simp: usable_burn_bundles_def Let_def bt_entries_iff)
  then have "bundle_key_of b = k" using assms(1) unfolding bundles_inv_def by blast
  then show "bb_height b = saturating_add (ledger_height (nc_ledger n)) 1" "bundle_key_of b \<notin> nc_equivocated n"
    using k by (auto simp: bundle_key_of_def)
qed

lemma moves_height: "moves_ok hs n n' \<Longrightarrow> unat (ledger_height (nc_ledger n)) \<le> unat (ledger_height (nc_ledger n'))"
  using run_height unfolding moves_ok_def by blast

lemma slot_stays:
  assumes "moves_ok hs n n'" and "unat (ledger_height (nc_ledger n')) < unat (fst k)"
  shows "settled n k c \<Longrightarrow> settled n' k c" and "k \<in> nc_equivocated n \<Longrightarrow> k \<in> nc_equivocated n'"
  using assms unfolding moves_ok_def slots_stay_def by blast+

lemma moves_inv: "moves_ok hs n n' \<Longrightarrow> bundles_inv (h_crypto hs) n \<Longrightarrow> bundles_inv (h_crypto hs) n'"
  unfolding moves_ok_def by blast

lemma barred_evidence: "bundles_inv cr n \<Longrightarrow> k \<in> nc_equivocated n \<Longrightarrow> evidence cr k"
  unfolding bundles_inv_def by blast

lemma bundle_moves:
  assumes "receive_burn_bundle hs sz b n = (r, n')"
  shows "moves_ok hs n n'"
proof -
  have "moves_ok hs n (snd (receive_burn_bundle hs sz b n))" by (rule bundle_ok)
  then show ?thesis using assms by simp
qed

lemma equivocation_run:
  assumes "receive_burn_bundle hs sz b1 n = (r1, n1)" and "moves_ok hs n1 n2"
    and "receive_burn_bundle hs sz b2 n2 = (r2, n3)" and "moves_ok hs n3 n4"
  shows "moves_ok hs n n4"
  by (rule moves_trans [OF moves_trans [OF bundle_moves [OF assms(1)] assms(2)] moves_trans [OF bundle_moves [OF assms(3)] assms(4)]])

lemma equivocator_unusable:
  assumes inv: "bundles_inv (h_crypto hs) n" and h: "bb_height b1 = saturating_add (ledger_height (nc_ledger n)) 1"
    and same: "bundle_key_of b2 = bundle_key_of b1" and differ: "bundle_canonical b1 \<noteq> bundle_canonical b2"
    and first: "receive_burn_bundle hs sz b1 n = (Inr (), n1)" and between: "moves_ok hs n1 n2"
    and second: "receive_burn_bundle hs sz b2 n2 = (Inr (), n3)" and after: "moves_ok hs n3 n4"
    and room: "ledger_height (nc_ledger n4) \<noteq> - 1"
  shows "bundle_key_of b1 \<notin> bundle_key_of ` set (usable_burn_bundles n4)"
proof
  let ?k = "bundle_key_of b1"
  let ?h = "\<lambda>n. unat (ledger_height (nc_ledger n))"
  assume "?k \<in> bundle_key_of ` set (usable_burn_bundles n4)"
  then obtain b where b: "b \<in> set (usable_burn_bundles n4)" "bundle_key_of b = ?k" by auto
  note moved = bundle_moves [OF first] bundle_moves [OF second]
  have all: "moves_ok hs n n4" by (rule equivocation_run [OF first between second after])
  have inv4: "bundles_inv (h_crypto hs) n4" using all inv by (simp add: moves_ok_def)
  have key: "fst ?k = bb_height b1" "bb_height b2 = bb_height b1" "bb_height b = bb_height b1"
    using same b(2) by (simp_all add: bundle_key_of_def)
  have "bb_height b1 = saturating_add (ledger_height (nc_ledger n4)) 1"
    using usable_bundle(1) [OF inv4 b(1)] key by simp
  then have top: "unat (bb_height b1) = ?h n4 + 1" using next_height [OF room] by simp
  have heights: "?h n \<le> ?h n1" "?h n1 \<le> ?h n2" "?h n2 \<le> ?h n3" "?h n3 \<le> ?h n4"
    using moves_height moved between after by blast+
  have "ledger_height (nc_ledger n) \<noteq> - 1"
  proof
    assume "ledger_height (nc_ledger n) = - 1"
    then have "?h n = 2 ^ 64 - 1" by (simp add: unsigned_minus_1_eq_mask mask_eq_exp_minus_1)
    then show False using heights top unat_less_power [of "bb_height b1"] by simp
  qed
  then have start: "unat (bb_height b1) = ?h n + 1" using next_height h by simp
  then have level: "?h n2 = ?h n" "?h n1 = ?h n" "?h n3 = ?h n" "?h n4 = ?h n" using heights top by simp_all
  then have same_height: "ledger_height (nc_ledger n2) = ledger_height (nc_ledger n)" by (simp add: word_unat_eq_iff)
  have "ledger_height (nc_ledger n) < bb_height b1" using start by (simp add: word_less_nat_alt)
  obtain m1 where m1: "n1 = store_burn_bundle sz b1 m1"
    using received_bundle [OF first h] \<open>_ < bb_height b1\<close> by blast
  obtain m2 where m2: "moves_ok hs n2 m2" "n3 = store_burn_bundle sz b2 m2"
  proof (rule received_bundle [OF second])
    show "bb_height b2 = saturating_add (ledger_height (nc_ledger n2)) 1" "ledger_height (nc_ledger n2) < bb_height b2"
      using h key(2) same_height \<open>_ < bb_height b1\<close> by simp_all
  qed
  have "?h m2 \<le> ?h n3" by (simp add: m2(2))
  have "settled n1 ?k (bundle_canonical b1)" unfolding m1 by (rule stored_settles)
  then have "settled n2 ?k (bundle_canonical b1)"
    by (rule slot_stays(1) [OF between, rotated]) (simp add: level start key(1))
  then have "settled m2 ?k (bundle_canonical b1)"
    by (rule slot_stays(1) [OF m2(1), rotated]) (use \<open>?h m2 \<le> ?h n3\<close> level start key(1) in simp)
  then have "?k \<in> nc_equivocated n3"
    using contradiction_bars [of m2 b2] same differ unfolding m2(2) by simp
  then have "?k \<in> nc_equivocated n4"
    by (rule slot_stays(2) [OF after, rotated]) (simp add: level start key(1))
  then show False using usable_bundle(2) [OF inv4 b(1)] b(2) by simp
qed

section \<open>Unsaved blocks\<close>

lemma retained_member:
  assumes "window_ok lg" and "b \<in> set (chain lg)" and "unat (height (tip lg)) < unat (height b) + max m 1"
  shows "b \<in> set (chain (retain_recent_chain_blocks m lg))"
  using assms(1)
proof (cases rule: retained_cases [of lg m])
  case (2 g tail k d)
  have "tail \<noteq> []" using 2 by auto
  then have tip: "unat (height (tip lg)) + 1 = k + length tail" using window_tip [OF 2(1,4)] by simp
  show ?thesis
  proof (cases "b = g")
    case False
    then obtain i where i: "i < length tail" "b = tail ! i" using assms(2) 2(1) by (auto simp: in_set_conv_nth)
    then have "unat (height b) = k + i" using 2(4) by (simp add: tail_from_def)
    then have "d \<le> i" using assms(3) tip 2(8) by simp
    then have "b \<in> set (drop d tail)" using i by (auto simp: in_set_conv_nth intro!: exI [of _ "i - d"])
    then show ?thesis using 2(9) by simp
  qed (use 2 in simp)
qed (use assms in simp)

lemma saved_ledger:
  "nc_ledger (mark_chain_persisted h hash n) =
    (if nc_bounded_history n \<and> (\<exists>p. resident_block_at_height (nc_ledger n) h = Some p \<and> block_hash p = hash)
     then retain_recent_chain_blocks (max (unat (saturating_sub (ledger_height (nc_ledger n)) h)) RESIDENT_CHAIN_BLOCKS) (nc_ledger n)
     else nc_ledger n)"
  by (auto simp: mark_chain_persisted_def prune_persisted_history_def Let_def split: option.splits)

lemma saving_keeps:
  assumes "window_ok (nc_ledger n)" and "b \<in> set (chain (nc_ledger n))"
    and "h < height b \<or> unat (height (tip (nc_ledger n))) < unat (height b) + RESIDENT_CHAIN_BLOCKS"
  shows "b \<in> set (chain (nc_ledger (mark_chain_persisted h hash n)))"
proof -
  let ?lg = "nc_ledger n"
  let ?m = "max (unat (saturating_sub (ledger_height ?lg) h)) RESIDENT_CHAIN_BLOCKS"
  have "unat (height b) \<le> unat (height (tip ?lg))" using window_below_tip assms(1,2) by blast
  then have "unat (height (tip ?lg)) < unat (height b) + max ?m 1"
    using assms(3) by (auto simp: ledger_height_def saturating_sub_def word_less_nat_alt word_le_nat_alt unat_sub max_def)
  from retained_member [OF assms(1,2) this] show ?thesis using assms(2) by (simp add: saved_ledger)
qed

lemma saving_bounds:
  assumes "nc_bounded_history n" and "map_option block_hash (resident_block_at_height (nc_ledger n) h) = Some hash"
  shows "length (chain (nc_ledger (mark_chain_persisted h hash n))) \<le>
    max (unat (ledger_height (nc_ledger n)) - unat h) RESIDENT_CHAIN_BLOCKS + 1"
proof -
  let ?m = "max (unat (saturating_sub (ledger_height (nc_ledger n)) h)) RESIDENT_CHAIN_BLOCKS"
  have saved: "nc_ledger (mark_chain_persisted h hash n) = retain_recent_chain_blocks ?m (nc_ledger n)"
    using assms by (auto simp: saved_ledger)
  have "max ?m 1 = ?m" by (simp add: RESIDENT_CHAIN_BLOCKS_def)
  moreover have "unat (saturating_sub (ledger_height (nc_ledger n)) h) = unat (ledger_height (nc_ledger n)) - unat h"
    by (simp add: saturating_sub_def unat_sub word_le_nat_alt)
  ultimately show ?thesis
    using retained_size [of ?m "nc_ledger n"] by (simp add: saved)
qed

section \<open>Passing on\<close>

lemma known_block_ignored:
  assumes "window_ok (nc_ledger n)" and "b \<in> set (chain (nc_ledger n))"
  shows "receive_block hs sz v now b n = (Inr (), n)"
proof -
  have "find (\<lambda>known. height known = height b) (chain (nc_ledger n)) \<noteq> None"
    using assms(2) by (auto simp: find_None_iff)
  then obtain known where known: "find (\<lambda>known. height known = height b) (chain (nc_ledger n)) = Some known" by blast
  then have "known \<in> set (chain (nc_ledger n))" "height known = height b" by (auto simp: find_Some_iff)
  then have "known = b" using window_unique assms by blast
  moreover have "height b \<le> height (tip (nc_ledger n))"
    using window_below_tip assms by (simp add: word_le_nat_alt)
  ultimately show ?thesis
    using known_height_decided [OF _ known] by (simp add: receive_block_def with_ledger_def)
qed

lemma pruned_ledger:
  "nc_ledger (prune_persisted_history n) = nc_ledger n \<or>
   (\<exists>k. nc_ledger (prune_persisted_history n) = retain_recent_chain_blocks k (nc_ledger n))"
  by (auto simp: prune_persisted_history_def Let_def split: option.split)

lemma accepted_block_resident:
  assumes inv: "window_ok (nc_ledger n)" and new: "chain lg = chain (nc_ledger n) @ [b]"
    "history_pruned lg = history_pruned (nc_ledger n)" "follows cr (tip (nc_ledger n)) b"
    and n': "nc_ledger n' = lg \<or> (\<exists>k. nc_ledger n' = retain_recent_chain_blocks k lg)"
  shows "window_ok (nc_ledger n')" and "b \<in> set (chain (nc_ledger n'))"
proof -
  have ok: "window_ok lg" using window_extend [OF inv new(1,2)] new(3) by (simp add: follows_def)
  have b: "b \<in> set (chain lg)" "tip lg = b" using new(1) by (simp_all add: tip_def)
  show "window_ok (nc_ledger n')" using ok retained_window n' by auto
  have "b \<in> set (chain (retain_recent_chain_blocks k lg))" for k
    using retained_member [OF ok b(1)] b(2) by simp
  then show "b \<in> set (chain (nc_ledger n'))" using b(1) n' by auto
qed

lemma ledger_idle: "nc_ledger n = lg \<Longrightarrow> n\<lparr>nc_ledger := lg\<rparr> = n"
  by auto

lemma received_again:
  assumes inv: "window_ok (nc_ledger n)" and run: "receive_block hs sz v now b n = (Inr (), n')"
  shows "receive_block hs sz v' now' b n' = (Inr (), n')"
proof -
  let ?lg = "nc_ledger n"
  obtain u lg where applied: "apply_block_with_vdf_policy hs ?lg b v now = (Inr u, lg)"
    and n': "n' = (if ledger_height ?lg < ledger_height lg
      then prune_persisted_history (enqueue_gossip sz (GBlock b) (after_import (n\<lparr>nc_ledger := lg\<rparr>)))
      else n\<lparr>nc_ledger := lg\<rparr>)"
    using run by (auto simp: receive_block_def st_then_eq with_ledger_eq)
  show ?thesis
  proof (cases "height (tip ?lg) < height b")
    case True
    obtain lg1 where "block_transition (h_crypto hs) ?lg b = Inr lg1" "confirmed lg = confirmed lg1"
      using apply_block_ok(3) [OF applied True] by blast
    then have "chain lg = chain ?lg @ [b]" using block_extends_chain confirmed_keeps(1) by metis
    then have new: "chain lg = chain ?lg @ [b]" "history_pruned lg = history_pruned ?lg" "follows (h_crypto hs) (tip ?lg) b"
      using block_result [OF applied] by auto
    have "ledger_height ?lg < ledger_height lg"
      using new(1,3) by (simp add: ledger_height_def tip_def follows_def word_less_nat_alt)
    then have "nc_ledger n' = lg \<or> (\<exists>k. nc_ledger n' = retain_recent_chain_blocks k lg)"
      using pruned_ledger [of "enqueue_gossip sz (GBlock b) (after_import (n\<lparr>nc_ledger := lg\<rparr>))"] by (simp add: n')
    from known_block_ignored [OF accepted_block_resident [OF inv new this]] show ?thesis .
  next
    case False
    then obtain known where known: "find (\<lambda>known. height known = height b) (chain ?lg) = Some known"
        "block_hash known = block_hash b" "lg = ?lg"
      using applied
      by (auto simp: apply_block_with_vdf_policy_def precheck_block_without_vdf_at_def st_check_eq and_then_eq_Inr
          ok_or_def reject_def split: option.splits if_splits)
    then have "n' = n" using n' by (simp add: ledger_idle)
    then show ?thesis
      using known_height_decided [OF _ known(1)] known(2) False by (simp add: receive_block_def with_ledger_def)
  qed
qed

section \<open>Capabilities\<close>

definition capability_ok :: "string \<Rightarrow> bool" where
  "capability_ok c \<longleftrightarrow> c \<noteq> [] \<and> length c \<le> MAX_PROTOCOL_CAPABILITY_BYTES \<and> list_all capability_char c"

lemma capabilities_fold:
  "is_ok (try_fold capability_step previous cs) \<longleftrightarrow>
    list_all capability_ok cs \<and> sorted_wrt (<) (case previous of None \<Rightarrow> cs | Some p \<Rightarrow> p # cs)"
proof (induction cs arbitrary: previous)
  case (Cons c cs)
  have "is_ok (try_fold capability_step previous (c # cs)) \<longleftrightarrow>
      capability_ok c \<and> (case previous of None \<Rightarrow> True | Some p \<Rightarrow> p < c) \<and> is_ok (try_fold capability_step (Some c) cs)"
    by (auto simp: capability_step_def capability_ok_def and_then_def is_ok_def bail_def split: option.split sum.split)
  then show ?case using Cons.IH [of "Some c"] by (auto split: option.splits intro: less_trans)
qed (simp add: is_ok_def split: option.split)

lemma capabilities_exact:
  "validate_protocol_capabilities cs = Inr () \<longleftrightarrow>
    length cs \<le> MAX_PROTOCOL_CAPABILITIES \<and> list_all capability_ok cs \<and> sorted_wrt (<) cs"
  using capabilities_fold [of None cs]
  by (auto simp: validate_protocol_capabilities_def and_then_eq_Inr is_ok_def split: sum.splits)

end
