(* ===== verification/Node_Examples.thy ===== *)
theory Node_Examples
  imports Chain_Examples Rank_Facts Query_Facts Bundle_Build Peer_Book_Facts Inbound_Limiter Node_Results
begin

text \<open>
  Concrete inputs for the queries of a node: a chain of two blocks with distinct hashes, a chain
  that is long enough to be pruned, and a committee member's bundle on a pool with one burn.
\<close>

lemma flat_ticket_history: "ticket_history flat_crypto flat_ledger"
proof -
  have "genesis_allocations flat_ledger = flat_allocations" "launch_profile flat_ledger = local_testnet"
    "\<not> history_pruned flat_ledger" "bt_get (resident_ticket_draws flat_ledger) h = None" for h
    by (simp_all add: flat_ledger_def)
  then show ?thesis
    by (simp add: ticket_history_def tickets_before_def flat_genesis_tickets chain_linked_def)
qed

definition keyed_genesis :: Block where "keyed_genesis = flat_genesis\<lparr>block_hash := flat_key\<rparr>"

definition keyed_block :: Block where "keyed_block = flat_block\<lparr>prev_hash := flat_key\<rparr>"

definition keyed_ledger :: "Block list \<Rightarrow> Ledger" where "keyed_ledger bs = flat_ledger\<lparr>chain := bs\<rparr>"

lemma keyed_chain:
  "chain_linked flat_crypto [keyed_genesis, keyed_block]" "distinct (map block_hash [keyed_genesis, keyed_block])"
  "height keyed_genesis = 0" "chain (keyed_ledger bs) = bs" "\<not> history_pruned (keyed_ledger bs)"
proof -
  have "flat_id \<noteq> flat_key" by (simp add: flat_id_def flat_key_def)
  then show "distinct (map block_hash [keyed_genesis, keyed_block])" by (simp add: keyed_genesis_def keyed_block_def)
  show "chain_linked flat_crypto [keyed_genesis, keyed_block]"
    by (simp add: chain_linked_def follows_def compute_hash_def keyed_genesis_def keyed_block_def)
qed (simp_all add: keyed_genesis_def keyed_ledger_def flat_ledger_def)

definition numbered_block :: "u64 \<Rightarrow> Block" where "numbered_block h = flat_block\<lparr>height := h\<rparr>"

definition keyed_pool :: Ledger where "keyed_pool = flat_ledger\<lparr>pending := [flat_burn]\<rparr>"

definition keyed_bundle :: BurnBundle where
  "keyed_bundle = \<lparr>bb_height = 1, bb_prev_hash = flat_id, bb_slot = 1, bb_member = flat_key, bb_reward_address = None,
     bb_burns = [flat_burn], bb_burns_v2 = [], bb_signature = flat_signature\<rparr>"

definition keyed_member :: BurnCommitteeMember where
  "keyed_member = \<lparr>cm_slot = 1, cm_root = flat_id, cm_owner = flat_key, cm_weight = 1\<rparr>"

lemma keyed_bundle_valid:
  "validate_burn_bundles_for_committee flat_host keyed_pool 1 flat_id (bt_insert 1 keyed_member bt_empty) [keyed_bundle] =
    Inr [keyed_bundle]"
proof -
  have burn_terms: "validate_transaction_terms flat_crypto keyed_pool flat_burn = Inr ()"
    by (simp add: flat_burn_def keyed_pool_def validate_transaction_inputs_def validate_transaction_outputs_def)
  have anchor: "validate_transaction_anchor_for_block keyed_pool flat_burn 1 = Inr ()"
    by (simp add: validate_transaction_anchor_for_block_def flat_burn_def TIP_BOUND_BURN_ACTIVATION_HEIGHT_def)
  have signed: "verify_address_signature flat_crypto flat_key m flat_signature ''burn bundle'' = Inr ()" for m
    by (simp add: verify_address_signature_def flat_crypto_def flat_key_def flat_signature_def decode_hex_array_def
        verify_ed25519_def PUBLIC_KEY_BYTES_def SIGNATURE_BYTES_def)
  have d: "is_ok (transaction_v2_domain keyed_pool)"
    using flat_domain by (simp add: keyed_pool_def transaction_v2_domain_def ledger_genesis_hash_def is_ok_def)
  have pending: "bundle_burn_is_pending keyed_pool flat_burn = Inr ()"
    by (simp add: bundle_burn_is_pending_def keyed_pool_def matching_burn_by_signature_def)
  show ?thesis
    using d
    by (auto simp: validate_burn_bundles_for_committee_def collect_bundle_step_def precheck_burn_bundle_for_block_def
        keyed_bundle_def keyed_member_def flat_host_def BURN_COMMITTEE_SIZE_def validate_reward_address_def
        HYBRID_REWARD_ACTIVATION_HEIGHT_def check_expanded_bundle_def MAX_BURN_BUNDLE_BYTES_def signed
        bundle_burn_step_def out_of_order_def Let_def burn_terms anchor pending is_ok_def split: sum.splits)
qed

section \<open>A node, and a member that contradicts itself\<close>

lemma flat_ranked: "ranked_tickets_for_height flat_crypto flat_genesis 1 (tickets flat_ledger) = [flat_ticket 1]"
proof -
  have "filter (\<lambda>t. ticket_is_eligible_for_height t 1 \<and> 0 < tk_amount t) (tickets flat_ledger) = [flat_ticket 1]"
    by (simp add: flat_ledger_def flat_ticket_def ticket_is_eligible_for_height_def word_le_nat_alt)
  moreover have "length (tickets flat_ledger) < 2 ^ 64" by (simp add: flat_ledger_def)
  then have "mset (ranked_tickets_for_height flat_crypto flat_genesis 1 (tickets flat_ledger)) =
      mset (filter (\<lambda>t. ticket_is_eligible_for_height t 1 \<and> 0 < tk_amount t) (tickets flat_ledger))"
    unfolding ranked_tickets_for_height_def by (rule ranked_permutation [OF weight_bound])
  ultimately have "mset (ranked_tickets_for_height flat_crypto flat_genesis 1 (tickets flat_ledger)) = {# flat_ticket 1 #}"
    by simp
  then show ?thesis by simp
qed

definition flat_node :: NodeCore where
  "flat_node = from_node_wallet (Locked flat_key) flat_ledger False 0 1 1 100"

lemma flat_node_fields [simp]:
  "nc_ledger flat_node = flat_ledger" "nc_burn_bundles flat_node = bt_empty" "nc_equivocated flat_node = {}"
  "nc_outbox flat_node = []" "nc_outbox_bytes flat_node = 0" "ledger_height flat_ledger = 0"
  by (simp_all add: flat_node_def from_node_wallet_def ledger_height_def)

lemma flat_node_ok: "outbox_exact flat_node" "bundles_inv cr flat_node" "resident_inv flat_host flat_ledger"
proof -
  show "outbox_exact flat_node" "bundles_inv cr flat_node"
    by (simp_all add: outbox_exact_def outbox_inv_def bundles_inv_def)
  have "window_ok flat_ledger"
    unfolding window_ok_def by (intro exI [of _ flat_genesis] exI [of _ "[]"] exI [of _ 1]) (simp add: tail_from_def)
  then have "window_linked flat_crypto flat_ledger" by (simp add: window_linked_def)
  moreover have "h_crypto flat_host = flat_crypto" by (simp add: flat_host_def)
  ultimately show "resident_inv flat_host flat_ledger"
    using flat_node_inv by (simp add: resident_inv_def node_inv_def)
qed

definition empty_bundle :: "string \<Rightarrow> BurnBundle" where
  "empty_bundle sig = \<lparr>bb_height = 1, bb_prev_hash = flat_id, bb_slot = 0, bb_member = flat_key, bb_reward_address = None,
     bb_burns = [], bb_burns_v2 = [], bb_signature = sig\<rparr>"

definition second_signature :: string where "second_signature = hex_encode (replicate 64 1)"

lemma second_signature: "flat_signature \<noteq> second_signature" "decode_hex second_signature = Inr (replicate 64 1)"
  by (simp add: flat_signature_def second_signature_def HEX_def eval_nat_numeral)
    (simp only: second_signature_def decode_hex_hex_encode)

lemma no_candidates: "committee_loop cr lg h eligible slots skipped [] = []"
  by (cases slots) (simp_all add: select_weighted_lineage_index_def)

lemma flat_next_committees:
  "next_rank_committees flat_crypto flat_ledger =
    [bt_insert 0 \<lparr>cm_slot = 0, cm_root = flat_id, cm_owner = flat_key, cm_weight = 1\<rparr> bt_empty]"
proof -
  have "bt_entries (ls_values (lineage flat_ledger)) = []" by (simp add: flat_ledger_def)
  then have "eligible_lineage_candidates flat_ledger s = []" for s
    by (simp add: eligible_lineage_candidates_def)
  then have "burn_committee_for_next_ticket_block flat_crypto flat_ledger 0 =
      [\<lparr>cm_slot = 0, cm_root = flat_id, cm_owner = flat_key, cm_weight = 1\<rparr>]"
    by (simp add: burn_committee_for_next_ticket_block_def burn_committee_for_ticket_block_def
        lineage_burn_committee_for_height_def flat_ranked no_candidates Let_def) (simp add: flat_ticket_def)
  then show ?thesis
    by (simp add: next_rank_committees_def finalizer_rank_count_for_next_block_def flat_ranked BURN_COMMITTEE_SIZE_def
        committee_map_def bt_of_list_def)
qed

lemma empty_bundle_prechecked:
  assumes "sig \<in> {flat_signature, second_signature}"
  shows "precheck_burn_bundle_for_block flat_host flat_ledger 1 flat_id
      (bt_insert 0 \<lparr>cm_slot = 0, cm_root = flat_id, cm_owner = flat_key, cm_weight = 1\<rparr> bt_empty) (empty_bundle sig) = Inr ()"
proof -
  have signed: "verify_address_signature flat_crypto flat_key m sig ''burn bundle'' = Inr ()" for m
    using assms second_signature(2)
    by (auto simp: verify_address_signature_def flat_crypto_def flat_key_def flat_signature_def second_signature_def decode_hex_array_def
        verify_ed25519_def PUBLIC_KEY_BYTES_def SIGNATURE_BYTES_def)
  show ?thesis
    by (simp add: precheck_burn_bundle_for_block_def empty_bundle_def BURN_COMMITTEE_SIZE_def validate_reward_address_def
        HYBRID_REWARD_ACTIVATION_HEIGHT_def check_expanded_bundle_def MAX_BURN_BUNDLE_BYTES_def signed flat_host_def flat_domain)
qed

lemma empty_bundle_received:
  assumes "sig \<in> {flat_signature, second_signature}" and "nc_ledger n = flat_ledger"
  shows "receive_burn_bundle flat_host sz (empty_bundle sig) n = (Inr (), store_burn_bundle sz (empty_bundle sig) n)"
proof -
  have parts: "bb_height (empty_bundle sig) = 1" "bb_burns (empty_bundle sig) = []" "bb_burns_v2 (empty_bundle sig) = []"
    by (simp_all add: empty_bundle_def)
  have h: "h_crypto flat_host = flat_crypto" by (simp add: flat_host_def)
  have pre: "precheck_next_block_burn_bundle flat_host flat_ledger (empty_bundle sig) = Inr ()"
    by (simp add: precheck_next_block_burn_bundle_def h flat_next_committees tip_hash_def empty_bundle_prechecked [OF assms(1)])
  have "validate_next_block_burn_bundles flat_host flat_ledger [empty_bundle sig] = Inr [empty_bundle sig]"
    by (simp add: validate_next_block_burn_bundles_def validate_burn_bundles_for_any_next_ticket_block_def h flat_next_committees
        tip_hash_def validate_burn_bundles_for_committee_def BURN_COMMITTEE_SIZE_def flat_domain collect_bundle_step_def
        empty_bundle_prechecked [OF assms(1)] parts)
  then show ?thesis
    using pre by (simp add: receive_burn_bundle_def parts assms(2) saturating_add_def)
qed

end
