(* ===== verification/Spec2Isabelle.thy ===== *)
theory Spec2Isabelle
  imports Component_Results V2_Builder_Facts Node_Examples
begin

text \<open>
  Verification of the domain layer of iuna, a proof-of-burn cryptocurrency (\<open>src/src/domain\<close>), of the
  core, the peer book and the inbound limiter of a node (\<open>src/src/app\<close>), and of the block encoder of \<open>src/src/adapters/chain_store/compact.rs\<close> on which a consensus rule depends.

  The program. A node keeps a ledger: a chain of blocks, the unspent transaction outputs that the
  chain leaves, an index of the mined ancestors of these outputs (their lineage), the lottery
  tickets that burns have bought, and two pools of transactions that wait for a block. A burn of
  coins buys a ticket; the tickets of a height are ranked by a draw weighted with the burned
  amounts, and the owner of a ticket of a low rank finalizes the next block after a verifiable
  delay. A committee drawn from the lineages attests which burns it has seen, so that a finalizer
  cannot leave out rival burns. Proof of work mints coins (mine transactions). Forks are settled by
  finality checkpoints, then height, then the ranks of the finalizers.

  The theories, from the bottom to the top, with the files of \<open>src/src/domain\<close> they model.

  \<^item> \<open>Prelude\<close>, \<open>Bytes\<close>, \<open>BTree_Map\<close>, \<open>Prefix_Code\<close>: results as sums, loops that stop at the first
    error, checked and saturating machine arithmetic, byte strings, ordered maps (the \<open>BTreeMap\<close> of
    the standard library as sorted association lists), prefix-free encodings.
  \<^item> \<open>Protocol\<close>, \<open>Errors\<close>, \<open>Hex\<close>, \<open>Crypto\<close>, \<open>Signature\<close>, \<open>Address\<close>: constants (\<open>protocol.rs\<close>),
    errors (\<open>error.rs\<close>), hexadecimal text, signature material, addresses. The record \<open>crypto\<close> is the
    parameter for the hash, Ed25519 and ML-DSA packages.
  \<^item> \<open>Transaction\<close>, \<open>Transaction_Preimage\<close>, \<open>Validation\<close>: legacy transactions, the bytes they sign,
    their sizes (\<open>transaction.rs\<close>, \<open>validation.rs\<close>).
  \<^item> \<open>Wire_Codec\<close>, \<open>Transaction_V2\<close>, \<open>Transaction_V2_Wire\<close>, \<open>Transaction_V2_Auth\<close>: version 2
    transactions, their wire format and authorizations (\<open>transaction_v2.rs\<close>).
  \<^item> \<open>Mining\<close>, \<open>Mining_Facts\<close>, \<open>Mine_Policy\<close>: proof of work, the stratum formats and the difficulty
    (\<open>mining.rs\<close>, \<open>stratum.rs\<close>, \<open>mine_policy.rs\<close>).
  \<^item> \<open>Reveal\<close>, \<open>Block\<close>, \<open>Compact\<close>, \<open>Vdf\<close>: burn bundles, blocks, the block encoder, delay proofs
    (\<open>reveal.rs\<close>, \<open>block.rs\<close>, \<open>profile.rs\<close>, \<open>compact.rs\<close>, \<open>vdf/mod.rs\<close>, \<open>vdf/wesolowski.rs\<close>). The record
    \<open>classgroup\<close> is the parameter for the package of class groups.
  \<^item> \<open>Ticket\<close>, \<open>Ticket_Facts\<close>: the lottery (\<open>ticket.rs\<close>).
  \<^item> \<open>Ledger_Ops\<close>, \<open>Lineage\<close>, \<open>Ledger_V2_Ops\<close> and their facts: the application of transactions to the
    unspent outputs, without and with the lineage index (\<open>ledger_ops.rs\<close>, \<open>ledger_lineage.rs\<close>,
    \<open>ledger_v2.rs\<close>).
  \<^item> \<open>Ledger_State\<close>, \<open>Ledger_Terms\<close>, \<open>Ledger_Index\<close>, \<open>Committee\<close>, \<open>Ledger_Reveal\<close>: the ledger record,
    the terms of a transaction at a height, the history indexes, the committees and their
    attestations (\<open>ledger_state.rs\<close>, \<open>ledger_queries.rs\<close>, \<open>ledger_consensus.rs\<close>,
    \<open>ledger_history_index.rs\<close>, \<open>ledger_reveal.rs\<close>).
  \<^item> \<open>Ledger_Pending\<close>, \<open>Mempool\<close> and their facts: the pools (\<open>ledger_pending.rs\<close>, \<open>ledger_mempool.rs\<close>).
  \<^item> \<open>Ledger_Apply\<close>, \<open>Ledger_Apply_Facts\<close>, \<open>Ledger_Steps\<close>, \<open>Block_Facts\<close>: the application of a block
    (\<open>ledger_apply.rs\<close>).
  \<^item> \<open>Block_Selection\<close>, \<open>Selection_Facts\<close>, \<open>Block_Prepare\<close>: the choice of transactions for a block
    and the preparation of blocks (\<open>selection.rs\<close>, \<open>ledger_pending.rs\<close>, \<open>ledger_prepare.rs\<close>).
  \<^item> \<open>Wallet_Facts\<close>, \<open>Hybrid_Wallet\<close>, \<open>Wallet_Discovery\<close>, \<open>Hybrid_Wallet_Facts\<close>: keys, signatures and
    the discovery of addresses (\<open>wallet.rs\<close>, \<open>ledger_builders.rs\<close>).
  \<^item> \<open>Tx_Builders\<close>, \<open>Builder_Facts\<close>, \<open>V2_Builders\<close>, \<open>V2_Builder_Facts\<close>: the builders of
    transactions (\<open>ledger_builders.rs\<close>).
  \<^item> \<open>Genesis\<close>, \<open>Fork\<close>, \<open>Ledger_Chain\<close>, \<open>Ledger_Chain_Facts\<close>: creation, snapshots, fork choice
    (\<open>genesis.rs\<close>, \<open>fork.rs\<close>, \<open>ledger_chain.rs\<close>).
  \<^item> \<open>Ledger_Queries\<close>, \<open>Query_Facts\<close>, \<open>Rank_Facts\<close>: pruning and its undoing, the blocks served to
    peers, the rankings of finalizers, status and balances (\<open>ledger_queries.rs\<close>,
    \<open>ledger_history_index.rs\<close>, \<open>ledger_ops.rs\<close>).
  \<^item> \<open>Bundle_Build\<close>: the bundles a committee member attests, and the section of a block that is
    assembled from them (\<open>ledger_reveal.rs\<close>).
  \<^item> \<open>Peer_Book\<close>, \<open>Peer_Book_Facts\<close>, \<open>Inbound_Limiter\<close>: the peers a node knows and the sessions it
    admits (\<open>src/src/app/peer_book.rs\<close>, \<open>src/src/adapters/p2p/inbound_limiter.rs\<close>).
  \<^item> \<open>Node\<close>, \<open>Node_Facts\<close>, \<open>Node_Moves\<close>, \<open>Node_Results\<close>: a node around the ledger, with its
    outbox, the bundles of the next block and what it receives from peers and tells them
    (\<open>src/src/app.rs\<close>, \<open>app/receive.rs\<close>, \<open>app/gossip.rs\<close>, \<open>app/node_lifecycle.rs\<close>, \<open>app/wallet.rs\<close>),
    and the runs of a node. \<open>envelope_len\<close> is the parameter for the length of a serialized message.
  \<^item> \<open>Examples\<close>, \<open>Chain_Examples\<close>, \<open>Node_Examples\<close>, \<open>Component_Results\<close>: concrete inputs, the evaluation of the
    operations on them, and results on single components.

  How the model reads the code. A struct is a record, an enum a datatype, an integer type a word
  of its width; \<open>usize\<close> is \<open>nat\<close>, with the machine bound written out where the code relies on it. A
  fallible function returns a sum, \<open>Inl\<close> the error and \<open>Inr\<close> the value, with the text of the error
  where the code has a fixed one. A method with mutable access returns its result together with the
  new state (\<open>st_then\<close>, \<open>st_check\<close>), so that a theorem can speak about the state after an error. A
  function that works on copies and commits at the end is a function to a result.

  The parameters. \<open>host\<close> collects the packages that the ledger calls: \<open>crypto\<close>, \<open>classgroup\<close> and the
  lengths of JSON texts. No theorem about the ledger assumes anything about the hash or the
  signatures; the theorem on signed transactions assumes that signatures of a key verify. \<open>json_total\<close>
  states that the serializer does not fail.

  Loops. All loops are structural recursion or have a termination proof; there is no fuel. The
  ranking, the nonce search, the promotion of orphans and the rounds over the pending pool end by
  measures on what is left.

  What the theorems show. Blocks: an accepted block extends the chain, mints no more than its
  proofs of work, spends only signed inputs, keeps the lineage index exact, and is applied as a
  whole or not at all. Nodes: every reachable ledger is a linked chain with consistent pools and
  covered supply; fork choice is antisymmetric and respects finality; a lagging node gets the blocks
  it lacks, pruned history is restored, and rankings answer as a replay of the chain would. The outbox of a node
  stays within its limits, memory is bounded without losing unsaved blocks, a block is passed on
  once, and a committee member that contradicts itself is barred. Pools: every call keeps them
  consistent, eviction follows the fee rate, promotion reaches a fixed point. Committees: sections
  are attested by distinct members and lose no attestation. Peers: clocks cannot be moved far, and
  the limits on sessions are exact. Transactions: exact conservation, the plain
  and the indexed application agree, signatures bind every field. Lottery: the
  draw is fair and rankings are permutations. The results on proof of work, quorums and single
  components are lemmas of \<open>Component_Results\<close>.

  Not modelled. The delay prover and its optimised integer arithmetic (\<open>vdf/prover.rs\<close>,
  \<open>vdf/arithmetic.rs\<close>, \<open>vdf/reducer.rs\<close>, \<open>vdf/limbs\<close>): consensus only verifies, and the group law of
  class groups is a parameter. The timers of automatic mining, the
  consolidation jobs, the status reports and the wallet commands of the user interface
  (\<open>app/automatic_mining.rs\<close>, \<open>app/consolidation.rs\<close>, \<open>app/status.rs\<close>, most of \<open>app/wallet.rs\<close>), which
  call modelled builders and preparations. The adapters for files, sockets, HTTP and the user interface, and the command line, which
  are input and output. Constructors and helpers that only tests call.
\<close>

section \<open>Blocks\<close>

text \<open>
  C1. An accepted block extends the chain by exactly itself: it is one higher than the tip, names
  the tip's hash as its parent, carries the hash of its own content, lies after its parent and the
  median of the past blocks and not too far in the future, and its delay proof verifies when the
  policy asks for it.
\<close>

theorem accepted_block_extends_chain:
  assumes "apply_block_with_vdf_policy hs lg b v now = (Inr u, lg')" and "height (tip lg) < height b"
  shows "chain lg' = chain lg @ [b] \<and> follows (h_crypto hs) (tip lg) b \<and>
    median_time_past lg < timestamp_ms b \<and>
    timestamp_ms b \<le> saturating_add now MAX_BLOCK_TIMESTAMP_FUTURE_DRIFT_MS \<and>
    (v \<longrightarrow> verify_vdf (h_classgroup hs) (vdf_seed (h_crypto hs) b) (vdf_rounds b) (vdf_output b))"
proof -
  note pre = apply_block_ok(1) [OF assms]
  have link: "follows (h_crypto hs) (tip lg) b"
    using pre assms(2)
    by (intro precheck_follows [of hs lg b now]) (simp add: precheck_block_without_vdf_at_def not_le [symmetric])
  obtain lg1 where "block_transition (h_crypto hs) lg b = Inr lg1" and same: "confirmed lg' = confirmed lg1"
    using apply_block_ok(3) [OF assms] by blast
  then have "chain lg' = chain lg @ [b]"
    using block_extends_chain confirmed_keeps(1) by metis
  then show ?thesis
    using link timestamp_increases(2,3) [OF precheck_linked(5) [OF pre]] apply_block_ok(2) [OF assms] by blast
qed

theorem accepted_block_extends_chain_witness:
  "\<exists>lg. apply_block_at flat_host flat_ledger flat_block 86400000 = (Inr (), lg) \<and>
    chain lg = [flat_genesis, flat_block]"
proof -
  obtain lg where lg: "apply_block_at flat_host flat_ledger flat_block 86400000 = (Inr (), lg)"
    using flat_accepted by blast
  then show ?thesis
    using accepted_block_extends_chain [OF lg [unfolded apply_block_at_def]] by simp
qed

text \<open>
  C2. A block creates no value beyond its proofs of work: the unspent outputs after it, together
  with what its burns destroy, are at most the unspent outputs before it and the rewards that its
  mine transactions mint. The fees it collects are paid out by its reward and not created.
\<close>

theorem block_supply_bounded:
  assumes "block_transition cr lg b = Inr lg'"
  shows "utxo_total (ledger_utxos lg') + block_burned lg b \<le> utxo_total (ledger_utxos lg) + block_minted b"
  using assms by (rule block_supply)

theorem block_supply_bounded_witness:
  "utxo_total (ledger_utxos flat_after) + block_burned flat_ledger flat_block \<le> utxo_total (ledger_utxos flat_ledger)"
  using block_supply_bounded [OF flat_block_transition] by (simp add: block_minted_def)





text \<open>
  C5. A block keeps the lineage index exact: each indexed output is unspent, the value recorded for
  a root is the sum of its unspent outputs, and the owner table holds precisely the indexed outputs
  under their root, owner and amount. The outputs that pay the block's reward carry no lineage, so
  their identifiers must not collide with indexed outputs.
\<close>

theorem block_keeps_lineage_index:
  assumes "block_transition cr lg b = Inr lg'" and "lineage_inv (lineage lg)"
    and "\<forall>p root. bt_get (ls_lineage (lineage lg')) p = Some root \<longrightarrow> op_txid p \<noteq> block_hash b"
  shows "lineage_inv (lineage lg')"
  using block_lineage_inv assms by blast

theorem block_keeps_lineage_index_witness: "lineage_inv (lineage flat_after)"
proof (rule block_keeps_lineage_index [OF flat_block_transition])
  show "lineage_inv (lineage flat_ledger)"
    using empty_lineage_inv by (simp add: flat_ledger_def)
qed (simp add: flat_after_fields)



text \<open>
  C7. A block that cannot extend the tip asks for fork recovery: when its height is not the next
  one or its parent is not the tip, the call changes nothing and its error is one of those that
  start a recovery.
\<close>

theorem off_tip_block_requests_recovery:
  assumes "height (tip lg) < height b"
    and "height b \<noteq> height (tip lg) + 1 \<or> prev_hash b \<noteq> block_hash (tip lg)"
  shows "\<exists>e. apply_block_with_vdf_policy hs lg b v now = (Inl (Validation e), lg) \<and> requests_fork_recovery e"
  using assms by (rule off_tip_rejected)

theorem off_tip_block_requests_recovery_witness:
  "\<exists>e. apply_block_at flat_host flat_ledger (flat_block\<lparr>prev_hash := flat_key\<rparr>) 0 = (Inl (Validation e), flat_ledger) \<and>
    requests_fork_recovery e"
  unfolding apply_block_at_def by (rule off_tip_block_requests_recovery) simp_all

text \<open>
  C8. Restoring a block that was verified before reproduces its application: whenever the full
  transition accepts a block, the path without signature checks accepts it too and computes the
  same ledger, with the delay rounds set for the next block.
\<close>

theorem trusted_restore_equivalent:
  assumes "block_transition cr lg b = Inr lg1" and "next_vdf_rounds_after_tip lg1 = Inr rounds"
  shows "apply_trusted_block_at cr lg b = Inr (lg1\<lparr>ledger_vdf_rounds := rounds\<rparr>)"
  using assms by (rule trusted_reproduces)

theorem trusted_restore_equivalent_witness:
  "\<exists>rounds. apply_trusted_block_at flat_crypto flat_ledger flat_block = Inr (flat_after\<lparr>ledger_vdf_rounds := rounds\<rparr>)"
proof -
  have "next_vdf_rounds_after_tip flat_after = Inr (ledger_vdf_rounds flat_after)"
    by (simp add: next_vdf_rounds_after_tip_def flat_after_fields ledger_height_def tip_def)
  from trusted_restore_equivalent [OF flat_block_transition this] show ?thesis by blast
qed

section \<open>Nodes and fork choice\<close>





text \<open>
  C11. Two nodes never swap chains: when a node switches to the chain of another from their last
  common block, the other, comparing from its side, keeps its own.
\<close>

theorem fork_choice_never_mutual:
  assumes "chain_linked cr (chain lg)" and "chain_linked cr (chain candidate)"
    and "fork_point_with_candidate lg candidate = Inr p"
    and "choose_fork cr lg candidate p = SwitchToCandidate"
  shows "\<exists>q. fork_point_with_candidate candidate lg = Inr q \<and> choose_fork cr candidate lg q = KeepLocal"
proof -
  have linked: "successively (follows cr) (chain lg)" "successively (follows cr) (chain candidate)"
    using assms(1,2) by (simp_all add: chain_linked_def)
  note q = fork_point_symmetric [OF linked assms(3)]
  then show ?thesis
    using no_mutual_switch [OF linked assms(3) q assms(4)] by blast
qed

theorem fork_choice_never_mutual_witness:
  "\<exists>q. fork_point_with_candidate flat_after flat_ledger = Inr q \<and>
    choose_fork flat_crypto flat_after flat_ledger q = KeepLocal"
proof -
  have linked: "chain_linked flat_crypto (chain flat_ledger)" "chain_linked flat_crypto (chain flat_after)"
    by (simp_all add: chain_linked_def flat_after_fields follows_def compute_hash_def)
  have point: "fork_point_with_candidate flat_ledger flat_after = Inr \<lparr>common_ancestor_height = 0\<rparr>"
    by (simp add: fork_point_with_candidate_def ledger_genesis_hash_def flat_after_fields same_block_def)
  have "choose_fork flat_crypto flat_ledger flat_after \<lparr>common_ancestor_height = 0\<rparr> = SwitchToCandidate"
    by (rule flat_switches)
  from fork_choice_never_mutual [OF linked point this] show ?thesis by blast
qed



text \<open>
  C13. Switching chains adopts the candidate's confirmed state unchanged: carrying over the pending
  transactions and those of the abandoned blocks touches the pending pools alone and keeps them
  consistent.
\<close>

theorem adopted_fork_keeps_confirmed_state:
  assumes "pool_inv hs candidate"
  shows "confirmed (replace_with_better_chain hs lg candidate stale) = confirmed candidate \<and>
    pool_inv hs (replace_with_better_chain hs lg candidate stale)"
  using replace_adopts assms by blast

theorem adopted_fork_keeps_confirmed_state_witness:
  "confirmed (replace_with_better_chain flat_host flat_after flat_ledger [flat_block]) = confirmed flat_ledger"
  using adopted_fork_keeps_confirmed_state flat_node_inv by (simp add: node_inv_def)

text \<open>
  C14. A node that lags behind catches up: asked with the locator of a node whose chain is a proper
  prefix of its own, a peer with an unpruned chain answers with exactly the missing blocks, in order and
  up to the requested number.
\<close>

theorem lagging_node_catches_up:
  assumes "chain_linked cr (chain remote)" and "height (hd (chain remote)) = 0" and "\<not> history_pruned remote"
    and "distinct (map block_hash (chain remote))"
    and "chain remote = chain lg @ missing" and "chain lg \<noteq> []" and "missing \<noteq> []" and "0 < limit"
  shows "blocks_after_locator remote (block_locator lg) limit = take limit missing"
  using assms by (rule lagging_peer_served)

theorem lagging_node_catches_up_witness:
  "blocks_after_locator (keyed_ledger [keyed_genesis, keyed_block]) (block_locator (keyed_ledger [keyed_genesis])) 10 =
    [keyed_block]"
  using lagging_node_catches_up [of flat_crypto "keyed_ledger [keyed_genesis, keyed_block]" "keyed_ledger [keyed_genesis]"
      "[keyed_block]" 10] keyed_chain by simp



section \<open>The operations of a node\<close>





text \<open>
  C18. Dropping old blocks from memory loses nothing: when a node learns up to where its chain is stored
  on disk, the blocks above that height and the 64 newest stay resident, and if it bounds its memory
  and holds the stored block, at most the genesis block and as many blocks as are unsaved, or 64, remain.
\<close>

theorem saving_bounds_memory:
  assumes "window_ok (nc_ledger n)"
  shows "{b \<in> set (chain (nc_ledger n)). h < height b \<or>
      unat (height (tip (nc_ledger n))) < unat (height b) + RESIDENT_CHAIN_BLOCKS}
      \<subseteq> set (chain (nc_ledger (mark_chain_persisted h hash n))) \<and>
    (nc_bounded_history n \<longrightarrow> map_option block_hash (resident_block_at_height (nc_ledger n) h) = Some hash \<longrightarrow>
      length (chain (nc_ledger (mark_chain_persisted h hash n))) \<le>
        max (unat (ledger_height (nc_ledger n)) - unat h) RESIDENT_CHAIN_BLOCKS + 1)"
  using saving_keeps [OF assms, of _ h hash] saving_bounds [of n h hash] by blast

theorem saving_bounds_memory_witness:
  "length (chain (nc_ledger (mark_chain_persisted 0 flat_id (flat_node\<lparr>nc_bounded_history := True\<rparr>)))) \<le> 65"
  using saving_bounds_memory [of "flat_node\<lparr>nc_bounded_history := True\<rparr>" 0 flat_id] flat_node_ok(3)
  by (simp add: resident_inv_def window_linked_def resident_block_at_height_def RESIDENT_CHAIN_BLOCKS_def)



section \<open>Pending pools\<close>

text \<open>
  C20. A submission, whatever its outcome, keeps the pools consistent and changes nothing else: the
  pending and orphan pools stay within their count and byte limits, their byte counters are exact,
  no two of their transactions spend the same output, and the confirmed state is untouched.
\<close>

theorem submission_keeps_pools:
  assumes "submit_transaction_with_outcome hs lg tx = (r, lg')" and "pool_inv hs lg"
  shows "pool_inv hs lg' \<and> outside_pools lg' = outside_pools lg"
  using submit_inv [OF assms] submit_outside [OF assms(1)] by blast

theorem submission_keeps_pools_witness:
  "pool_inv flat_host (snd (submit_transaction_with_outcome flat_host flat_ledger flat_burn))"
  using submission_keeps_pools [OF prod.collapse [symmetric]] flat_node_inv by (simp add: node_inv_def)



text \<open>
  C22. The promotion of orphans ends in a fixed point: when it returns, the pending pool is full or
  no orphan can be promoted any more, and the two pools together hold the same transactions as
  before.
\<close>

theorem promotion_reaches_fixed_point:
  assumes "promote_orphan_transactions hs lg = (Inr (), lg')"
  shows "(MAX_PENDING_TRANSACTIONS \<le> length (pending lg') \<or>
      (\<exists>m. utxos_after_valid_pending (h_crypto hs) lg' = Inr m \<and>
        find_promotion hs lg' 0 (orphans lg') m = Inr None)) \<and>
    mset (pending lg' @ orphans lg') = mset (pending lg @ orphans lg)"
  using promotion_complete [OF assms] promotion_moves [of hs lg] assms by simp

theorem promotion_reaches_fixed_point_witness:
  "\<exists>lg. promote_orphan_transactions flat_host flat_ledger = (Inr (), lg) \<and> orphans lg = []"
proof -
  have "promote_orphan_transactions flat_host flat_ledger = (Inr (), flat_ledger)"
    by (rule no_orphans_promotion) (simp_all add: flat_ledger_def)
  from promotion_reaches_fixed_point [OF this] this show ?thesis
    by (simp add: flat_ledger_def)
qed

text \<open>
  C23. The pending pool never blocks admission: whatever transactions it holds, replaying those that
  a pass over the pool found applicable succeeds, as long as the supply and the rewards of the
  pending mine transactions fit the amount type.
\<close>

theorem pending_pool_always_replays:
  assumes "utxo_total (ledger_utxos lg) + pool_minted (pending lg) < 2 ^ 64"
  shows "\<exists>m. utxos_after_valid_pending cr lg = Inr m"
  using assms by (rule pool_always_replays)

theorem pending_pool_always_replays_witness:
  "\<exists>m. utxos_after_valid_pending flat_crypto (flat_ledger\<lparr>pending := [flat_burn]\<rparr>) = Inr m"
  by (rule pending_pool_always_replays)
    (simp add: flat_ledger_def utxo_total_values amounts_def minted_def)

section \<open>Committees\<close>

text \<open>
  C24. The attestations of an accepted block are genuine and sufficient: its signers sit in distinct
  slots of the block's committee, none of them signs twice or in the finalizer's slot, each of
  their bundles carries a valid signature of the member, and there are as many as the rank of the
  block demands.
\<close>

theorem burn_section_attested:
  assumes "validate_burn_bundle_section_for_block hs lg b = Inr ()"
  shows "distinct (map bs_slot (sec_signatures (burn_bundle_section b))) \<and>
    distinct (map bs_member (sec_signatures (burn_bundle_section b))) \<and>
    (\<forall>s\<in>set (sec_signatures (burn_bundle_section b)). bs_slot s \<noteq> 0 \<and>
      (\<exists>m\<in>set (burn_committee_for_block (h_crypto hs) lg b). cm_slot m = bs_slot s \<and> cm_owner m = bs_member s)) \<and>
    (\<forall>bun\<in>set (section_expand (burn_bundle_section b) (height b) (prev_hash b)).
      verify_address_signature (h_crypto hs) (bb_member bun) (bundle_canonical_payload bun) (bb_signature bun)
        ''burn bundle'' = Inr ()) \<and>
    required_explicit_burn_signatures (height b) (finalizer_mode b) (finalizer_rank b)
      (length (bt_entries (committee_map (burn_committee_for_block (h_crypto hs) lg b)))) \<le>
      length (sec_signatures (burn_bundle_section b))"
  using section_accepted [OF assms] by simp

theorem burn_section_attested_witness:
  "distinct (map bs_slot (sec_signatures (burn_bundle_section flat_block)))"
  using burn_section_attested [OF flat_section] by blast



section \<open>Transactions\<close>

text \<open>
  C26. The block path, which maintains the lineage index, is exact: after a transaction the total
  of the unspent outputs is the total before, plus what a mine transaction mints, minus the fee
  and the burned amount of a transfer or burn. No output is silently overwritten.
\<close>

theorem lineage_application_conserves:
  assumes "apply_transaction_with_lineage cr tx h st d = Inr st'"
  shows "utxo_total (ls_utxos st') + withdrawn tx = utxo_total (ls_utxos st) + minted tx"
  using assms apply_with_lineage_exact
  by (auto simp: apply_transaction_with_lineage_def and_then_eq_Inr)

theorem lineage_application_conserves_witness:
  "utxo_total (ls_utxos ex_lineage_after) + 5 = utxo_total (ls_utxos ex_lineage)"
  using lineage_application_conserves [OF ex_lineage_applies]
  by (simp add: ex_genesis_burn_def withdrawn_def minted_def)

text \<open>
  C27. The block path implements the plain path: when a transaction is applied with the lineage
  index and its signature is checked, the plain application accepts it too and yields the same
  unspent outputs.
\<close>

theorem lineage_application_refines:
  assumes "apply_transaction_with_lineage cr tx h st (Some d) = Inr st'"
  shows "apply_transaction cr tx (ls_utxos st) d = Inr (ls_utxos st')"
  using assms apply_with_lineage_refines
  by (auto simp: apply_transaction_with_lineage_def apply_transaction_def and_then_eq_Inr)

theorem lineage_application_refines_witness:
  "apply_transaction toy_crypto ex_genesis_burn (ls_utxos ex_lineage) domain_legacy =
     Inr (ls_utxos ex_lineage_after)"
  using lineage_application_refines [OF ex_lineage_applies] .

text \<open>
  C28. The lineage index loses outputs without value. There is an exact index and a transaction that
  the plain application accepts but the block path rejects: once the outputs with a value of a root
  are spent, the root is dropped, and an output without value that still carries it cannot be spent.
\<close>

theorem lineage_index_loses_zero_outputs:
  "\<exists>cr tx h st d. lineage_inv st \<and> is_ok (apply_transaction cr tx (ls_utxos st) d) \<and>
    apply_transaction_with_lineage cr tx h st (Some d) = bail ''lineage index is missing spent root''"
proof (intro exI conjI)
  show "lineage_inv ex_zero_lineage" by (rule ex_zero_inv)
  show "is_ok (apply_transaction toy_crypto ex_zero_burn (ls_utxos ex_zero_lineage) domain_legacy)"
    by (rule ex_zero_applies)
  show "apply_transaction_with_lineage toy_crypto ex_zero_burn 7 ex_zero_lineage (Some domain_legacy) =
      bail ''lineage index is missing spent root''"
    by (rule ex_zero_rejected)
qed

text \<open>
  C29. The reward of a block is paid out in full: the outputs for the finalizer and the committee
  members sum to the reward the block claims, whatever the committee and its remainders.
\<close>

theorem reward_paid_in_full:
  "amounts (map snd (reward_outputs_for_block b committee)) = unat (reward b)"
  by (rule reward_outputs_sum)

text \<open>
  C30. A version 2 transaction is exact: the unspent outputs after it, its fee and what it burns sum
  to the unspent outputs before it, with and without checking its authorizations.
\<close>

theorem v2_application_conserves:
  assumes "apply_transaction_v2_to_utxos_with_policy cr tx d network verify m = Inr m'"
  shows "utxo_total m' + unat (v2_fee tx) + unat (v2_burned tx) = utxo_total m"
  using assms by (rule v2_apply_exact)

theorem v2_application_conserves_witness:
  "\<exists>m. utxo_total m + unat (v2_fee ex_migration) + unat (v2_burned ex_migration) = utxo_total ex_v2_utxos"
  using v2_application_conserves ex_v2_applies by blast

text \<open>
  C31. Whoever owns an input of an applied version 2 transaction has signed it: the referenced output
  exists and belongs to the address the input names, and some authorization of the transaction has
  a key of that address whose signatures verify on the signing bytes.
\<close>

theorem v2_spends_are_authorized:
  assumes "apply_transaction_v2_to_utxos_with_policy cr tx d network True m = Inr m'"
    and "(p, owner, n) \<in> set (v2_claims tx network)"
  shows "\<exists>o1. \<exists>a\<in>set (authorizations tx). \<exists>payload.
    bt_get m p = Some o1 \<and> internal_address cr owner n = Inr (out_address o1) \<and>
    authorized_address cr a = Inr owner \<and> v2_signing_bytes tx d = Inr payload \<and> signature_holds cr payload a"
  using assms by (rule v2_apply_authorized)

theorem v2_spends_are_authorized_witness:
  "\<exists>a\<in>set (authorizations ex_migration). authorized_address toy_crypto a = Inr ex_owner"
proof -
  obtain m where "apply_transaction_v2_to_utxos_with_policy toy_crypto ex_migration ex_domain Mainnet True ex_v2_utxos = Inr m"
    using ex_v2_applies by blast
  moreover have "(OutPoint (hex_encode (replicate 32 3)) 0, ex_owner, Mainnet) \<in> set (v2_claims ex_migration Mainnet)"
    by (simp add: ex_migration_def legacy_input_outpoint_def)
  ultimately show ?thesis
    using v2_spends_are_authorized by blast
qed

text \<open>
  C32. The version 2 wire format is canonical. A byte string decodes to a domain and a transaction
  exactly when these are well formed and the byte string is their encoding: decoding inverts
  encoding, and no second byte string decodes to the same transaction.
\<close>

theorem v2_wire_format_canonical:
  "v2_decode bs = Inr (d, tx) \<longleftrightarrow> v2_domain_ok d \<and> v2_wf tx \<and> v2_encode tx d = Inr bs"
  by (rule v2_decode_iff)

text \<open>
  C33. The bytes a version 2 authorization signs determine the chain domain and the whole unsigned
  transaction, so that a signature cannot be moved to another chain or to other inputs, outputs
  or fees.
\<close>

theorem v2_signature_binds_transaction:
  assumes "v2_signing_bytes tx d = Inr bs" and "v2_signing_bytes tx' d' = Inr bs"
    and "v2_wf tx" "v2_wf tx'" "v2_domain_ok d" "v2_domain_ok d'"
  shows "unsigned_part tx = unsigned_part tx' \<and> d = d'"
  using assms by (rule v2_signing_bytes_inject)

theorem v2_signature_binds_transaction_witness:
  "unsigned_part ex_migration = unsigned_part ex_migration_unsigned"
  using v2_signature_binds_transaction [OF ex_migration_signing ex_migration_wf(1)
      ex_migration_unsigned_wf ex_migration_wf(2,2)] by simp

text \<open>
  C34. A wallet's signature verifies: a transaction signed by the wallet that owns all of its
  inputs passes signature verification in the same domain.
\<close>

theorem signed_transaction_verifies:
  assumes "ed25519_ok cr" and "sign_transaction cr u (from_seed cr seed) d = Inr tx"
    and "unsigned_tx_inputs u \<noteq> []"
    and "\<forall>i\<in>set (unsigned_tx_inputs u). uin_owner i = wallet_address (from_seed cr seed)"
  shows "verify_signature cr tx d = Inr ()"
  using sign_transaction_verifies [OF assms(1) refl assms(2-4)] .

theorem signed_transaction_verifies_witness:
  "verify_signature toy_crypto (ex_signed ex_signing_domain) ex_signing_domain = Inr ()"
  using signed_transaction_verifies [OF toy_crypto_ok(2) ex_signs [unfolded ex_wallet_def]]
  by (simp add: ex_unsigned_def ex_wallet_def)

section \<open>The burn lottery\<close>

text \<open>
  C35. The draw is fair: of the equally likely draws below the total weight, a ticket is selected
  by as many as it has burned.
\<close>

theorem lottery_draw_is_fair:
  assumes "weight_of ts < 2 ^ 128" and "k < length ts"
  shows "card {n. n < weight_of ts \<and> pick_index (word_of_nat n) 0 0 ts = Some k} = unat (tk_amount (ts ! k))"
  using assms by (rule draw_fair)

theorem lottery_draw_is_fair_witness:
  "card {n. n < weight_of ex_tickets \<and> pick_index (word_of_nat n) 0 0 ex_tickets = Some 1} = 2"
  using lottery_draw_is_fair [of ex_tickets 1] by (simp add: ex_tickets_def ex_ticket_def)

text \<open>
  C36. The ranking of a height is a permutation of the eligible tickets with a positive burn: no
  ticket is lost, repeated or invented, and the ranking always terminates.
\<close>

theorem ranking_is_a_permutation:
  assumes "length pool < 2 ^ 64"
  shows "mset (ranked_tickets_for_height cr parent h pool) =
    mset (filter (\<lambda>t. ticket_is_eligible_for_height t h \<and> 0 < tk_amount t) pool)"
  unfolding ranked_tickets_for_height_def by (rule ranked_permutation [OF weight_bound [OF assms]])

theorem ranking_is_a_permutation_witness:
  "mset (ranked_tickets_for_height toy_crypto ex_parent 5 ex_tickets) = mset ex_tickets"
  using ranking_is_a_permutation [of ex_tickets toy_crypto ex_parent 5]
  by (simp add: ex_tickets_def ex_ticket_def ticket_is_eligible_for_height_def)

text \<open>
  C37. A finalized block consumes its ticket: the ticket named by the leader proof was in the pool
  and eligible, and afterwards neither it nor any expired ticket is left, and none is added.
\<close>

theorem leader_ticket_is_consumed:
  assumes "consume_leader_ticket cr parent b pool = Inr pool'" and "leader_proof b = Some proof"
  shows "(\<exists>t\<in>set pool. tk_id t = lp_ticket_id proof \<and> ticket_is_eligible_for_height t (height b)) \<and>
    (\<forall>t\<in>set pool'. height b < tk_until t \<and> tk_id t \<noteq> lp_ticket_id proof) \<and>
    set pool' \<subseteq> set pool"
  using consumed_ticket_gone [OF assms] by blast

theorem leader_ticket_is_consumed_witness:
  "''t'' \<notin> tk_id ` set ex_consumed"
  using leader_ticket_is_consumed [OF ex_consumes, of ex_proof] by (auto simp: ex_child_def ex_proof_def)

text \<open>
  C38. Every node ranks the finalizers alike: whatever sequence of submissions and blocks it processed,
  a query for the rankings of past heights or the next one answers, for every requested height, the
  ranking of the tickets that replaying the whole chain yields before that height, although the
  node answers from recent draws that it keeps and replays only what is missing.
\<close>

theorem ranking_replays_history:
  assumes "(ledger_step hs)\<^sup>*\<^sup>* lg lg'" and "ticket_history (h_crypto hs) lg"
    and "\<forall>h\<in>set heights. unat h \<le> length (chain lg')"
  shows "\<exists>m. burn_leader_ranks_for_blocks (h_crypto hs) lg' heights = Inr m \<and>
    bt_get m = (\<lambda>h. if h \<in> set heights then Some (if h = 0 then [] else ranks_at (h_crypto hs) lg' h) else None)"
  using ranks_query [OF reachable_ticket_history [OF assms(1,2)] assms(3)] .

theorem ranking_replays_history_witness:
  "\<exists>m. burn_leader_ranks_for_blocks flat_crypto flat_ledger [1] = Inr m \<and>
    bt_get m 1 = Some (ranks_at flat_crypto flat_ledger 1)"
proof -
  have "h_crypto flat_host = flat_crypto" by (simp add: flat_host_def)
  then show ?thesis
    using ranking_replays_history [of flat_host flat_ledger flat_ledger "[1]"] flat_ticket_history by fastforce
qed

section \<open>Genesis\<close>

section \<open>Peers\<close>

text \<open>
  C39. Peers cannot move a node's clock: whatever they report and however the book of peers got to its
  state, the network-adjusted time lies within ten minutes of the local time, and the book holds at
  most 256 discovered peers. Local clock readings are below 2 to the 63.
\<close>

theorem network_time_is_bounded:
  assumes "peer_step\<^sup>*\<^sup>* (from_addresses addresses) book"
  shows "\<bar>int (unat (adjusted_time_ms_at book now)) - int (unat now)\<bar> \<le> PEER_CLOCK_OFFSET_ACCEPTANCE_MS \<and>
    discovered_peer_count book \<le> MAX_DISCOVERED_PEERS"
  using reachable_book [OF assms] adjusted_bound by (simp add: book_inv_def)

theorem network_time_is_bounded_witness:
  "\<bar>int (unat (adjusted_time_ms_at
      (record_clock_observation ''10.0.0.1:9000'' Inbound 5000000 1000000 (from_addresses [''10.0.0.2:9000''])) 1000000)) - 1000000\<bar>
    \<le> 600000"
proof -
  let ?book = "record_clock_observation ''10.0.0.1:9000'' Inbound 5000000 1000000 (from_addresses [''10.0.0.2:9000''])"
  have "peer_step\<^sup>*\<^sup>* (from_addresses [''10.0.0.2:9000'']) ?book"
    by (rule r_into_rtranclp, rule peer_step.clock_step) simp_all
  from network_time_is_bounded [OF this, of 1000000] show ?thesis
    by (simp add: PEER_CLOCK_OFFSET_ACCEPTANCE_MS_def)
qed



end
